(* ===== verification/Prelude.thy ===== *)
theory Prelude
  imports Complex_Main
begin

text \<open>
  The shared base of the development: the result type of fallible Python code, the dynamic values
  that the validation code of the repository inspects with \<^verbatim>\<open>isinstance\<close>, text helpers, and the
  generic lemmas on lists and runs that the component theories use.

  A Python function that may raise is a function into \<open>'e + 'a\<close>: \<open>Inl\<close> is the exception, \<open>Inr\<close> the
  returned value. A string is a list of characters, each a code point below 256. A moment in time
  is an integer number of microseconds since the epoch, in UTC.
\<close>

section \<open>Results\<close>

named_theorems res_simps \<open>rewriting of sequenced results\<close>

definition bindE :: "'e + 'a \<Rightarrow> ('a \<Rightarrow> 'e + 'b) \<Rightarrow> 'e + 'b" where
  "bindE m f = (case m of Inl e \<Rightarrow> Inl e | Inr x \<Rightarrow> f x)"

lemma bindE_Inl [simp, res_simps]: "bindE (Inl e) f = Inl e"
  by (simp add: bindE_def)

lemma bindE_Inr [simp, res_simps]: "bindE (Inr x) f = f x"
  by (simp add: bindE_def)

lemma bindE_eq_Inr: "bindE m f = Inr y \<longleftrightarrow> (\<exists>x. m = Inr x \<and> f x = Inr y)"
  by (cases m) auto

lemma bindE_eq_Inl: "bindE m f = Inl e \<longleftrightarrow> m = Inl e \<or> (\<exists>x. m = Inr x \<and> f x = Inl e)"
  by (cases m) auto

lemma Inr_eq_bindE: "Inr y = bindE m f \<longleftrightarrow> (\<exists>x. m = Inr x \<and> f x = Inr y)"
  by (cases m) auto

lemma bindE_assoc: "bindE (bindE m f) g = bindE m (\<lambda>x. bindE (f x) g)"
  by (cases m) auto

lemma bindE_cong [fundef_cong]:
  "m = m' \<Longrightarrow> (\<And>x. m' = Inr x \<Longrightarrow> f x = f' x) \<Longrightarrow> bindE m f = bindE m' f'"
  by (cases m') auto

text \<open>For evaluation: the continuation is not rewritten before its argument is a value.\<close>

lemma bindE_weak_cong: "m = m' \<Longrightarrow> bindE m f = bindE m' f"
  by simp

definition guardE :: "bool \<Rightarrow> 'e \<Rightarrow> 'e + unit" where
  "guardE ok e = (if ok then Inr () else Inl e)"

lemma guardE_simps [simp, res_simps]: "guardE True e = Inr ()" "guardE False e = Inl e"
  by (simp_all add: guardE_def)

lemma guardE_eq_Inr [simp]: "guardE ok e = Inr u \<longleftrightarrow> ok"
  by (simp add: guardE_def)

lemma guardE_eq_Inl [simp]: "guardE ok e = Inl d \<longleftrightarrow> \<not> ok \<and> d = e"
  by (auto simp: guardE_def)

lemma bindE_guardE: "bindE (guardE ok e) f = (if ok then f () else Inl e)"
  by (simp add: guardE_def)

text \<open>A loop that runs a fallible step over a list stops at the first exception.\<close>

fun mapE :: "('a \<Rightarrow> 'e + 'b) \<Rightarrow> 'a list \<Rightarrow> 'e + 'b list" where
  "mapE f [] = Inr []"
| "mapE f (x # xs) = bindE (f x) (\<lambda>y. bindE (mapE f xs) (\<lambda>ys. Inr (y # ys)))"

fun foldE :: "('a \<Rightarrow> 's \<Rightarrow> 'e + 's) \<Rightarrow> 'a list \<Rightarrow> 's \<Rightarrow> 'e + 's" where
  "foldE f [] s = Inr s"
| "foldE f (x # xs) s = bindE (f x s) (foldE f xs)"

lemma mapE_length: "mapE f xs = Inr ys \<Longrightarrow> length ys = length xs"
  by (induction xs arbitrary: ys) (auto simp: bindE_eq_Inr)

lemma mapE_set: "mapE f xs = Inr ys \<Longrightarrow> y \<in> set ys \<Longrightarrow> \<exists>x \<in> set xs. f x = Inr y"
  by (induction xs arbitrary: ys) (auto simp: bindE_eq_Inr)

lemma foldE_append: "foldE f (xs @ ys) s = bindE (foldE f xs s) (foldE f ys)"
  by (induction xs arbitrary: s) (simp_all add: bindE_assoc cong: bindE_cong)

lemma foldE_invariant:
  assumes "foldE f xs s = Inr t" and "P s"
    and "\<And>x s t. x \<in> set xs \<Longrightarrow> P s \<Longrightarrow> f x s = Inr t \<Longrightarrow> P t"
  shows "P t"
  using assms
proof (induction xs arbitrary: s)
  case Nil
  then show ?case by simp
next
  case (Cons x xs)
  then obtain u where u: "f x s = Inr u" "foldE f xs u = Inr t"
    by (auto simp: bindE_eq_Inr)
  have "P u" using Cons.prems(3)[OF _ Cons.prems(2) u(1)] by simp
  with u(2) show ?case
    by (rule Cons.IH) (use Cons.prems(3) in auto)
qed

lemma map_filter_set: "set (List.map_filter f xs) = {y. \<exists>x \<in> set xs. f x = Some y}"
  by (induction xs) (auto simp: List.map_filter_simps split: option.splits)

section \<open>Python values\<close>

text \<open>
  A \<^verbatim>\<open>decimal.Decimal\<close> object at a dynamic boundary is a literal, its signed coefficient and its
  exponent, so that its text is determined; \<open>Lit c e\<close> stands for \<open>c * 10 ^ e\<close>, and the sign of a zero
  is not kept. A computed \<^verbatim>\<open>Decimal\<close> is its value only (\<open>decimal\<close>). A finite float is the decimal
  literal of its shortest repr, which is all that the repository reads of it.
\<close>

datatype dec_literal = Lit int int | LitInf bool | LitNaN

datatype decimal = DFin rat | DInf bool | DNaN

datatype pyfloat = FFin int int | FInf bool | FNaN

datatype pyval =
    PNone
  | PBool bool
  | PInt int
  | PFloat pyfloat
  | PDec dec_literal
  | PStr string
  | PEnum string string
  | PObject string

definition dec_value :: "int \<Rightarrow> int \<Rightarrow> rat" where
  "dec_value c e = of_int c * 10 powi e"

fun literal_decimal :: "dec_literal \<Rightarrow> decimal" where
  "literal_decimal (Lit c e) = DFin (dec_value c e)"
| "literal_decimal (LitInf neg) = DInf neg"
| "literal_decimal LitNaN = DNaN"

lemma dec_value_zero_exp [simp]: "dec_value c 0 = of_int c"
  by (simp add: dec_value_def)

section \<open>Moments\<close>

text \<open>
  A datetime: an aware one is its UTC instant in microseconds since the epoch, a naive one carries no
  instant. The representable range is year 1 to year 9999.
\<close>

datatype moment = Aware int | Naive

definition MIN_DATETIME :: int where
  "MIN_DATETIME = - 62135596800000000"

definition MAX_DATETIME :: int where
  "MAX_DATETIME = 253402300799999999"

definition seconds :: "int \<Rightarrow> int" where
  "seconds n = n * 1000000"

section \<open>Text\<close>

definition is_space :: "char \<Rightarrow> bool" where
  "is_space ch \<longleftrightarrow> (let n = of_char ch :: nat in
     9 \<le> n \<and> n \<le> 13 \<or> 28 \<le> n \<and> n \<le> 32 \<or> n = 133 \<or> n = 160)"

definition strip :: "string \<Rightarrow> string" where
  "strip s = rev (dropWhile is_space (rev (dropWhile is_space s)))"

definition is_control :: "char \<Rightarrow> bool" where
  "is_control ch \<longleftrightarrow> (let n = of_char ch :: nat in n < 32 \<or> n = 127)"

definition ascii_lower :: "char \<Rightarrow> char" where
  "ascii_lower ch = (let n = of_char ch :: nat in if 65 \<le> n \<and> n \<le> 90 then char_of (n + 32) else ch)"

definition lower :: "string \<Rightarrow> string" where
  "lower s = map ascii_lower s"

lemma strip_Nil [simp]: "strip [] = []"
  by (simp add: strip_def)

lemma strip_idem [simp]: "strip (strip s) = strip s"
proof -
  let ?a = "dropWhile is_space s"
  let ?b = "rev (dropWhile is_space (rev ?a))"
  obtain ws where ws: "?a = ?b @ ws" and sp: "\<forall>c \<in> set ws. is_space c"
  proof
    show "?a = ?b @ rev (takeWhile is_space (rev ?a))"
      by (metis rev_append rev_rev_ident takeWhile_dropWhile_id)
    show "\<forall>c \<in> set (rev (takeWhile is_space (rev ?a))). is_space c"
      by (auto dest: set_takeWhileD)
  qed
  have "dropWhile is_space ?b = ?b"
  proof (cases ?b)
    case (Cons c cs)
    then have "hd ?a = c" and "?a \<noteq> []" using ws by auto
    then have "\<not> is_space c" using hd_dropWhile[of is_space s] by auto
    with Cons show ?thesis by simp
  next
    case Nil
    show ?thesis unfolding Nil by (rule dropWhile.simps)
  qed
  moreover have "dropWhile is_space (rev ?b) = rev ?b"
    by (metis dropWhile_idem rev_rev_ident)
  ultimately show ?thesis by (simp add: strip_def)
qed

text \<open>The control-character test of the text validators.\<close>

definition plain_text :: "nat \<Rightarrow> string \<Rightarrow> bool" where
  "plain_text limit s \<longleftrightarrow> s \<noteq> [] \<and> s = strip s \<and> length s \<le> limit \<and> \<not> list_ex is_control s"

section \<open>Decimal digits of numbers\<close>

fun dec_digits :: "nat \<Rightarrow> nat" where
  "dec_digits n = (if n = 0 then 0 else Suc (dec_digits (n div 10)))"

declare dec_digits.simps [simp del]

lemma dec_digits_0 [simp]: "dec_digits 0 = 0"
  by (subst dec_digits.simps) simp

lemma dec_digits_pos: "0 < n \<Longrightarrow> dec_digits n = Suc (dec_digits (n div 10))"
  by (subst dec_digits.simps) simp

lemma dec_digits_upper: "n < 10 ^ dec_digits n"
proof (induction n rule: dec_digits.induct)
  case (1 n)
  show ?case
  proof (cases "n = 0")
    case False
    with "1.IH" have "n div 10 < 10 ^ dec_digits (n div 10)" by simp
    then show ?thesis using False by (simp add: dec_digits_pos)
  qed simp
qed

lemma dec_digits_lower: "0 < n \<Longrightarrow> 10 ^ (dec_digits n - 1) \<le> n"
proof (induction n rule: dec_digits.induct)
  case (1 n)
  show ?case
  proof (cases "n div 10 = 0")
    case True
    with "1.prems" show ?thesis by (simp add: dec_digits_pos)
  next
    case False
    with "1.IH" "1.prems" have "10 ^ (dec_digits (n div 10) - 1) \<le> n div 10" by simp
    moreover obtain k where "dec_digits (n div 10) = Suc k"
      using False by (simp add: dec_digits_pos)
    ultimately show ?thesis using "1.prems" by (simp add: dec_digits_pos)
  qed
qed

fun show_nat :: "nat \<Rightarrow> string" where
  "show_nat n = (if n < 10 then [char_of (48 + n)] else show_nat (n div 10) @ [char_of (48 + n mod 10)])"

declare show_nat.simps [simp del]

definition show_int :: "int \<Rightarrow> string" where
  "show_int i = (if i < 0 then ''-'' @ show_nat (nat (- i)) else show_nat (nat i))"

section \<open>Runs of a deterministic machine\<close>

text \<open>
  The contract of a stateful component: its step function keeps its invariant. The client lemma
  lifts it to every sequence of operations.
\<close>

locale state_machine =
  fixes step :: "'op \<Rightarrow> 's \<Rightarrow> 's"
    and inv :: "'s \<Rightarrow> bool"
  assumes step_inv: "inv s \<Longrightarrow> inv (step a s)"
begin

lemma run_inv: "inv s \<Longrightarrow> inv (fold step ops s)"
  by (induction ops arbitrary: s) (auto intro: step_inv)

end

text \<open>A machine that moreover never decreases a measure of progress.\<close>

locale monotone_machine = state_machine step inv
  for step :: "'op \<Rightarrow> 's \<Rightarrow> 's" and inv :: "'s \<Rightarrow> bool" +
  fixes le :: "'s \<Rightarrow> 's \<Rightarrow> bool"
  assumes le_refl: "le s s"
    and le_trans: "le s t \<Longrightarrow> le t u \<Longrightarrow> le s u"
    and step_le: "inv s \<Longrightarrow> le s (step a s)"
begin

lemma run_le: "inv s \<Longrightarrow> le s (fold step ops s)"
proof (induction ops arbitrary: s)
  case Nil
  show ?case by (simp add: le_refl)
next
  case (Cons a ops)
  have "le s (step a s)" using Cons.prems by (rule step_le)
  moreover have "le (step a s) (fold step ops (step a s))"
    using Cons.prems by (intro Cons.IH step_inv)
  ultimately show ?case by (simp add: le_trans)
qed

end

end
