(* ===== verification/Decimals.thy ===== *)
theory Decimals
  imports Prelude
begin

text \<open>
  The part of Python's \<^verbatim>\<open>decimal\<close> module that the money code uses, on the exact values of the numbers.
  An operation in a context computes the exact rational result and rounds it once to the context's
  number of significant digits (\<open>ctx_fix\<close>); \<open>quantize\<close> rounds to a fixed exponent and signals
  \<open>InvalidOperation\<close> when the coefficient would not fit the precision. The exponent range is not
  bounded (the module's limits are plus or minus 999999), and the sign of a zero is not kept.

  The lemmas give what the clients rely on: rounding is exact on representable values, monotone,
  keeps signs, and errs by less than one unit in the last place. They are proved once, in the
  locale \<open>rounding_mode\<close>, and interpreted for every mode the code names.
\<close>

section \<open>Exceptions of the money code\<close>

datatype py_exn =
    InvalidOperation
  | DivisionByZero
  | PaperInputError string
  | RiskInputError string
  | EnvelopeError string

section \<open>Rounding modes\<close>

datatype rounding = ROUND_HALF_EVEN | ROUND_FLOOR | ROUND_CEILING

fun round_int :: "rounding \<Rightarrow> rat \<Rightarrow> int" where
  "round_int ROUND_FLOOR x = \<lfloor>x\<rfloor>"
| "round_int ROUND_CEILING x = \<lceil>x\<rceil>"
| "round_int ROUND_HALF_EVEN x =
     (let f = \<lfloor>x\<rfloor>; r = x - of_int f
      in if r < 1 / 2 then f else if 1 / 2 < r then f + 1 else if even f then f else f + 1)"

text \<open>The exponent of the leading digit: \<open>adjusted x\<close> is the integer part of the decimal logarithm.\<close>

definition adjusted :: "rat \<Rightarrow> int" where
  "adjusted x =
     (if 1 \<le> \<bar>x\<bar> then int (dec_digits (nat \<lfloor>\<bar>x\<bar>\<rfloor>)) - 1
      else - int (dec_digits (nat (\<lceil>1 / \<bar>x\<bar>\<rceil> - 1))))"

definition sig_with :: "(rat \<Rightarrow> int) \<Rightarrow> nat \<Rightarrow> rat \<Rightarrow> rat" where
  "sig_with rnd p x =
     (if x = 0 then 0
      else let u = 10 powi (adjusted x + 1 - int p) in of_int (rnd (x / u)) * u)"

definition sig_round :: "nat \<Rightarrow> rounding \<Rightarrow> rat \<Rightarrow> rat" where
  "sig_round p m x = sig_with (round_int m) p x"

text \<open>A value with at most \<open>p\<close> significant digits.\<close>

definition representable :: "nat \<Rightarrow> rat \<Rightarrow> bool" where
  "representable p x \<longleftrightarrow> (\<exists>c e. x = dec_value c e \<and> \<bar>c\<bar> \<le> 10 ^ p)"

section \<open>Contexts and operations\<close>

datatype ctx = Ctx (prec: nat) (ctx_rounding: rounding)

definition ctx_fix :: "ctx \<Rightarrow> rat \<Rightarrow> rat" where
  "ctx_fix c x = sig_round (prec c) (ctx_rounding c) x"

definition ctx_add :: "ctx \<Rightarrow> rat \<Rightarrow> rat \<Rightarrow> rat" where
  "ctx_add c x y = ctx_fix c (x + y)"

definition ctx_sub :: "ctx \<Rightarrow> rat \<Rightarrow> rat \<Rightarrow> rat" where
  "ctx_sub c x y = ctx_fix c (x - y)"

definition ctx_mul :: "ctx \<Rightarrow> rat \<Rightarrow> rat \<Rightarrow> rat" where
  "ctx_mul c x y = ctx_fix c (x * y)"

definition ctx_div :: "ctx \<Rightarrow> rat \<Rightarrow> rat \<Rightarrow> py_exn + rat" where
  "ctx_div c x y =
     (if y = 0 then Inl (if x = 0 then InvalidOperation else DivisionByZero)
      else Inr (ctx_fix c (x / y)))"

definition quantize :: "ctx \<Rightarrow> rounding \<Rightarrow> int \<Rightarrow> rat \<Rightarrow> py_exn + rat" where
  "quantize c m e x =
     (let k = round_int m (x / 10 powi e)
      in if \<bar>k\<bar> < 10 ^ prec c then Inr (dec_value k e) else Inl InvalidOperation)"

text \<open>The interpreter's default context: 28 digits, half to even.\<close>

definition default_context :: ctx where
  "default_context = Ctx 28 ROUND_HALF_EVEN"

lemmas ctx_defs = ctx_add_def ctx_sub_def ctx_mul_def ctx_div_def

section \<open>The leading exponent\<close>

lemma powi_10_pos [simp]: "0 < (10::rat) powi k" "(10::rat) powi k \<noteq> 0"
  by (simp_all add: zero_less_power_int)

lemma powi_10_add: "(10::rat) powi (a + b) = 10 powi a * 10 powi b"
  by (simp add: power_int_add)

lemma powi_10_mono: "a \<le> b \<Longrightarrow> (10::rat) powi a \<le> 10 powi b"
  by (rule power_int_increasing) auto

lemma powi_10_less_iff: "(10::rat) powi a < 10 powi b \<longleftrightarrow> a < b"
proof
  assume "(10::rat) powi a < 10 powi b"
  then have "\<not> b \<le> a" using powi_10_mono[of b a] by auto
  then show "a < b" by simp
next
  assume "a < b"
  then show "(10::rat) powi a < 10 powi b" by (intro power_int_strict_increasing) auto
qed

lemma pow10_le_of_nat: "10 ^ k \<le> n \<Longrightarrow> (10::rat) ^ k \<le> of_nat n"
proof -
  assume "10 ^ k \<le> n"
  then have "(of_nat (10 ^ k) :: rat) \<le> of_nat n" by (rule of_nat_mono)
  then show ?thesis by simp
qed

lemma of_nat_less_pow10: "n < 10 ^ k \<Longrightarrow> of_nat n + 1 \<le> (10::rat) ^ k"
proof -
  assume "n < 10 ^ k"
  then have "(of_nat (n + 1) :: rat) \<le> of_nat (10 ^ k)" by (intro of_nat_mono) simp
  then show ?thesis by simp
qed

lemma adjusted_bounds_large:
  assumes "1 \<le> \<bar>x\<bar>"
  shows "10 powi (adjusted x) \<le> \<bar>x\<bar> \<and> \<bar>x\<bar> < 10 powi (adjusted x + 1)"
proof -
  define n where "n = nat \<lfloor>\<bar>x\<bar>\<rfloor>"
  have "1 \<le> \<lfloor>\<bar>x\<bar>\<rfloor>" using assms by (simp add: le_floor_iff)
  then have n: "0 < n" "(of_nat n :: rat) = of_int \<lfloor>\<bar>x\<bar>\<rfloor>" by (simp_all add: n_def)
  from n(1) obtain d where d: "dec_digits n = Suc d" by (simp add: dec_digits_pos)
  have adj: "adjusted x = int d" using assms d by (simp add: adjusted_def n_def)
  have "(10::rat) ^ d \<le> of_nat n" "of_nat n + 1 \<le> (10::rat) ^ Suc d"
    using pow10_le_of_nat[OF dec_digits_lower[OF n(1)]] of_nat_less_pow10[OF dec_digits_upper[of n]] d
    by simp_all
  moreover have "of_int \<lfloor>\<bar>x\<bar>\<rfloor> \<le> \<bar>x\<bar>" "\<bar>x\<bar> < of_int \<lfloor>\<bar>x\<bar>\<rfloor> + 1" by linarith+
  ultimately have "(10::rat) ^ d \<le> \<bar>x\<bar>" "\<bar>x\<bar> < 10 ^ Suc d" unfolding n(2) by linarith+
  moreover have "(10::rat) powi (int d + 1) = 10 ^ Suc d"
    by (metis of_nat_Suc power_int_of_nat add.commute)
  ultimately show ?thesis unfolding adj by simp
qed

lemma adjusted_bounds_small:
  assumes "\<bar>x\<bar> < 1" and "x \<noteq> 0"
  shows "10 powi (adjusted x) \<le> \<bar>x\<bar> \<and> \<bar>x\<bar> < 10 powi (adjusted x + 1)"
proof -
  define y where "y = 1 / \<bar>x\<bar>"
  define m where "m = nat (\<lceil>y\<rceil> - 1)"
  have pos: "0 < \<bar>x\<bar>" using assms by simp
  then have "1 < y" using assms by (simp add: y_def)
  then have "2 \<le> \<lceil>y\<rceil>" by linarith
  then have m: "0 < m" "(of_nat m :: rat) = of_int \<lceil>y\<rceil> - 1" by (simp_all add: m_def)
  from m(1) obtain d where d: "dec_digits m = Suc d" by (simp add: dec_digits_pos)
  have adj: "adjusted x = - int (Suc d)" using assms d by (simp add: adjusted_def m_def y_def)
  have "(10::rat) ^ d \<le> of_nat m" "of_nat m + 1 \<le> (10::rat) ^ Suc d"
    using pow10_le_of_nat[OF dec_digits_lower[OF m(1)]] of_nat_less_pow10[OF dec_digits_upper[of m]] d
    by simp_all
  moreover have "y \<le> of_int \<lceil>y\<rceil>" "of_int \<lceil>y\<rceil> - 1 < y" by linarith+
  ultimately have "(10::rat) ^ d < y" "y \<le> 10 ^ Suc d" unfolding m(2) by linarith+
  then have "\<bar>x\<bar> < inverse (10 ^ d)" "inverse (10 ^ Suc d) \<le> \<bar>x\<bar>"
    using pos unfolding y_def by (simp_all add: field_simps)
  moreover have "adjusted x + 1 = - int d" unfolding adj by simp
  ultimately show ?thesis unfolding adj power_int_minus power_int_of_nat
    by (simp only: power_int_minus power_int_of_nat)
qed

lemma adjusted_bounds:
  assumes "x \<noteq> 0"
  shows "10 powi (adjusted x) \<le> \<bar>x\<bar>" and "\<bar>x\<bar> < 10 powi (adjusted x + 1)"
  using adjusted_bounds_large[of x] adjusted_bounds_small[of x] assms by fastforce+

lemma adjusted_mono: "0 < \<bar>x\<bar> \<Longrightarrow> \<bar>x\<bar> \<le> \<bar>y\<bar> \<Longrightarrow> adjusted x \<le> adjusted y"
proof -
  assume x: "0 < \<bar>x\<bar>" and le: "\<bar>x\<bar> \<le> \<bar>y\<bar>"
  then have "x \<noteq> 0" "y \<noteq> 0" by auto
  then have "(10::rat) powi adjusted x < 10 powi (adjusted y + 1)"
    using adjusted_bounds(1)[of x] adjusted_bounds(2)[of y] le by linarith
  then show ?thesis by (simp add: powi_10_less_iff)
qed

section \<open>Rounding to significant digits\<close>

text \<open>What the arithmetic needs of a rounding mode: it is monotone and leaves integers alone.\<close>

locale rounding_mode =
  fixes rnd :: "rat \<Rightarrow> int"
  assumes rnd_mono: "x \<le> y \<Longrightarrow> rnd x \<le> rnd y"
    and rnd_of_int: "rnd (of_int k) = k"
begin

lemma rnd_ge: "of_int k \<le> x \<Longrightarrow> k \<le> rnd x"
  using rnd_mono[of "of_int k" x] by (simp add: rnd_of_int)

lemma rnd_le: "x \<le> of_int k \<Longrightarrow> rnd x \<le> k"
  using rnd_mono[of x "of_int k"] by (simp add: rnd_of_int)

lemma rnd_error: "\<bar>of_int (rnd x) - x\<bar> < 1"
proof -
  have "\<lfloor>x\<rfloor> \<le> rnd x" "rnd x \<le> \<lceil>x\<rceil>" by (simp_all add: rnd_ge rnd_le)
  then have "of_int \<lfloor>x\<rfloor> \<le> (of_int (rnd x) :: rat)" "(of_int (rnd x) :: rat) \<le> of_int \<lceil>x\<rceil>"
    by simp_all
  moreover have "x - 1 < of_int \<lfloor>x\<rfloor>" "of_int \<lceil>x\<rceil> < x + 1" by linarith+
  ultimately show ?thesis by linarith
qed

lemma sig_zero: "sig_with rnd p 0 = 0"
  by (simp add: sig_with_def)

text \<open>Rounding a positive value stays between the two powers of ten around it.\<close>

lemma sig_bracket_pos:
  assumes "0 < x" and "0 < p"
  shows "10 powi (adjusted x) \<le> sig_with rnd p x" and "sig_with rnd p x \<le> 10 powi (adjusted x + 1)"
proof -
  define a where "a = adjusted x"
  define u where "u = (10::rat) powi (a + 1 - int p)"
  have u: "0 < u" by (simp add: u_def)
  have lo: "10 powi a = of_int (10 ^ (p - 1)) * u"
  proof -
    have "a = (a + 1 - int p) + int (p - 1)" using assms(2) by simp
    then have "(10::rat) powi a = u * 10 powi int (p - 1)" unfolding u_def by (metis powi_10_add)
    then show ?thesis by simp
  qed
  have hi: "10 powi (a + 1) = of_int (10 ^ p) * u"
  proof -
    have "a + 1 = (a + 1 - int p) + int p" by simp
    then have "(10::rat) powi (a + 1) = u * 10 powi int p" unfolding u_def by (metis powi_10_add)
    then show ?thesis by simp
  qed
  have b: "10 powi a \<le> x" "x < 10 powi (a + 1)"
    using adjusted_bounds[of x] assms(1) by (simp_all add: a_def)
  have "of_int (10 ^ (p - 1)) \<le> x / u" "x / u \<le> of_int (10 ^ p)"
    using b u unfolding lo hi by (simp_all add: field_simps)
  then have r: "10 ^ (p - 1) \<le> rnd (x / u)" "rnd (x / u) \<le> 10 ^ p"
    by (auto intro: rnd_ge rnd_le)
  have s: "sig_with rnd p x = of_int (rnd (x / u)) * u"
    using assms(1) by (simp add: sig_with_def u_def a_def Let_def)
  have "(of_int (10 ^ (p - 1)) :: rat) \<le> of_int (rnd (x / u))"
    "(of_int (rnd (x / u)) :: rat) \<le> of_int (10 ^ p)"
    using r unfolding of_int_le_iff by blast+
  then show "10 powi (adjusted x) \<le> sig_with rnd p x" "sig_with rnd p x \<le> 10 powi (adjusted x + 1)"
    unfolding s lo[unfolded a_def] hi[unfolded a_def] using u by (simp_all add: mult_right_mono)
qed

lemma sig_pos: "0 < x \<Longrightarrow> 0 < p \<Longrightarrow> 0 < sig_with rnd p x"
  using sig_bracket_pos(1)[of x p] powi_10_pos(1)[of "adjusted x"] by linarith

lemma sig_mono_pos:
  assumes "0 < x" and "x \<le> y" and "0 < p"
  shows "sig_with rnd p x \<le> sig_with rnd p y"
proof (cases "adjusted x = adjusted y")
  case True
  define u where "u = (10::rat) powi (adjusted x + 1 - int p)"
  have u: "0 < u" by (simp add: u_def)
  then have "rnd (x / u) \<le> rnd (y / u)"
    using assms(2) by (intro rnd_mono divide_right_mono) auto
  then have "(of_int (rnd (x / u)) :: rat) * u \<le> of_int (rnd (y / u)) * u"
    using u by (simp add: mult_right_mono)
  then show ?thesis
    using assms True by (simp add: sig_with_def u_def Let_def)
next
  case False
  have "adjusted x \<le> adjusted y" using assms by (intro adjusted_mono) auto
  with False have "(10::rat) powi (adjusted x + 1) \<le> 10 powi adjusted y"
    by (intro powi_10_mono) simp
  moreover have "sig_with rnd p x \<le> 10 powi (adjusted x + 1)" "10 powi adjusted y \<le> sig_with rnd p y"
    using assms by (auto intro: sig_bracket_pos)
  ultimately show ?thesis by linarith
qed

text \<open>Negative values round like positive ones under the mirrored mode.\<close>

lemma dual_mode: "rounding_mode (\<lambda>x. - rnd (- x))"
  by unfold_locales (simp_all add: rnd_mono rnd_of_int flip: of_int_minus)

lemma sig_dual: "sig_with rnd p x = - sig_with (\<lambda>x. - rnd (- x)) p (- x)"
  by (simp add: sig_with_def adjusted_def Let_def)

lemma sig_neg: "x < 0 \<Longrightarrow> 0 < p \<Longrightarrow> sig_with rnd p x < 0"
  using rounding_mode.sig_pos[OF dual_mode, of "- x" p] by (simp add: sig_dual[of p x])

lemma sig_mono:
  assumes "x \<le> y" and "0 < p"
  shows "sig_with rnd p x \<le> sig_with rnd p y"
proof -
  consider "0 < x" | "x \<le> 0" "0 \<le> y" | "y < 0" by linarith
  then show ?thesis
  proof cases
    case 1
    then show ?thesis using assms by (intro sig_mono_pos)
  next
    case 2
    then have "sig_with rnd p x \<le> 0" "0 \<le> sig_with rnd p y"
      using assms(2) by (metis sig_neg sig_zero order_le_less) (metis 2 assms(2) sig_pos sig_zero order_le_less)
    then show ?thesis by linarith
  next
    case 3
    then have "sig_with (\<lambda>x. - rnd (- x)) p (- y) \<le> sig_with (\<lambda>x. - rnd (- x)) p (- x)"
      using assms by (intro rounding_mode.sig_mono_pos[OF dual_mode]) auto
    then show ?thesis by (simp add: sig_dual[of p])
  qed
qed

lemma sig_error:
  assumes "x \<noteq> 0"
  shows "\<bar>sig_with rnd p x - x\<bar> < 10 powi (adjusted x + 1 - int p)"
proof -
  define u where "u = (10::rat) powi (adjusted x + 1 - int p)"
  have u: "0 < u" by (simp add: u_def)
  have "sig_with rnd p x - x = (of_int (rnd (x / u)) - x / u) * u"
    using assms u by (simp add: sig_with_def u_def Let_def field_simps)
  then have "\<bar>sig_with rnd p x - x\<bar> = \<bar>of_int (rnd (x / u)) - x / u\<bar> * u"
    using u by (simp add: abs_mult)
  also have "\<dots> < 1 * u" using u rnd_error by (intro mult_strict_right_mono)
  finally show ?thesis by (simp add: u_def)
qed

lemma sig_of_multiple:
  assumes "x = of_int k * 10 powi (adjusted x + 1 - int p)"
  shows "sig_with rnd p x = x"
proof (cases "x = 0")
  case False
  define u where "u = (10::rat) powi (adjusted x + 1 - int p)"
  have xk: "x = of_int k * u" unfolding u_def by (rule assms)
  have "x / u = of_int k" by (subst xk) (simp add: u_def)
  then have "sig_with rnd p x = of_int k * u"
    using False by (simp add: sig_with_def u_def[symmetric] Let_def rnd_of_int)
  then show ?thesis by (simp only: xk[symmetric])
qed (simp add: sig_zero)

lemma sig_representable:
  assumes "representable p x" and "0 < p"
  shows "sig_with rnd p x = x"
proof (cases "x = 0")
  case False
  define a where "a = adjusted x"
  obtain c e where x: "x = of_int c * 10 powi e" and c: "\<bar>c\<bar> \<le> 10 ^ p"
    using assms(1) by (auto simp: representable_def dec_value_def)
  have absx: "\<bar>x\<bar> = of_int \<bar>c\<bar> * 10 powi e" by (simp add: x abs_mult)
  have split: "z = (a + 1 - int p) + int n \<Longrightarrow> (10::rat) powi z = of_int (10 ^ n) * 10 powi (a + 1 - int p)"
    for z n by (simp add: powi_10_add)
  have lo: "10 powi a \<le> \<bar>x\<bar>" using adjusted_bounds(1)[OF False] by (simp add: a_def)
  have "\<exists>k. x = of_int k * 10 powi (a + 1 - int p)"
  proof (cases "a < e + int p")
    case True
    then have "0 \<le> e - (a + 1 - int p)" by simp
    then obtain n where n: "e - (a + 1 - int p) = int n" by (rule nonneg_int_cases)
    have h: "10 powi e = of_int (10 ^ n) * (10::rat) powi (a + 1 - int p)"
      by (rule split) (use n in linarith)
    have "x = of_int c * (of_int (10 ^ n) * 10 powi (a + 1 - int p))" by (subst x, subst h) (rule refl)
    also have "\<dots> = of_int (c * 10 ^ n) * 10 powi (a + 1 - int p)" by simp
    finally show ?thesis ..
  next
    case False
    have "(10::rat) powi (e + int p) \<le> 10 powi a" using False by (intro powi_10_mono) simp
    moreover have "\<bar>x\<bar> \<le> of_int (10 ^ p) * 10 powi e"
    proof -
      have "(of_int \<bar>c\<bar> :: rat) \<le> of_int (10 ^ p)" using c unfolding of_int_le_iff .
      then show ?thesis unfolding absx by (intro mult_right_mono) auto
    qed
    moreover have "(10::rat) powi (e + int p) = of_int (10 ^ p) * 10 powi e" by (simp add: powi_10_add)
    ultimately have "\<bar>x\<bar> = 10 powi (e + int p)" "(10::rat) powi a = 10 powi (e + int p)"
      using lo by linarith+
    then have ax: "\<bar>x\<bar> = 10 powi a" by simp
    have "a = (a + 1 - int p) + int (p - 1)" using assms(2) by simp
    from split[OF this] have "\<bar>x\<bar> = of_int (10 ^ (p - 1)) * 10 powi (a + 1 - int p)" by (simp add: ax)
    moreover have "x = \<bar>x\<bar> \<or> x = - \<bar>x\<bar>" by linarith
    ultimately show ?thesis by (metis mult_minus_left of_int_minus)
  qed
  then show ?thesis unfolding a_def by (blast intro: sig_of_multiple)
qed (simp add: sig_zero)

end

section \<open>The modes of the code\<close>

lemma half_even_floor: "\<lfloor>x\<rfloor> \<le> round_int ROUND_HALF_EVEN x" "round_int ROUND_HALF_EVEN x \<le> \<lfloor>x\<rfloor> + 1"
  by (simp_all add: Let_def)

lemma half_even_error: "\<bar>of_int (round_int ROUND_HALF_EVEN x) - x\<bar> \<le> 1 / 2"
proof -
  define f where "f = \<lfloor>x\<rfloor>"
  define r where "r = x - of_int f"
  have "0 \<le> r" "r < 1" unfolding r_def f_def by linarith+
  moreover have "x = of_int f + r" by (simp add: r_def)
  moreover have "round_int ROUND_HALF_EVEN x =
      (if r < 1 / 2 then f else if 1 / 2 < r then f + 1 else if even f then f else f + 1)"
    by (simp add: Let_def f_def r_def)
  ultimately show ?thesis by (simp add: abs_if)
qed

lemma half_even_mono:
  assumes "x \<le> y"
  shows "round_int ROUND_HALF_EVEN x \<le> round_int ROUND_HALF_EVEN y"
proof (cases "\<lfloor>x\<rfloor> = \<lfloor>y\<rfloor>")
  case True
  with assms show ?thesis by (auto simp: Let_def)
next
  case False
  with assms have "\<lfloor>x\<rfloor> + 1 \<le> \<lfloor>y\<rfloor>" using floor_mono[OF assms] by linarith
  then show ?thesis using half_even_floor(2)[of x] half_even_floor(1)[of y] by linarith
qed

lemma half_even_of_int: "round_int ROUND_HALF_EVEN (of_int k) = k"
  by (simp add: Let_def)

interpretation rm: rounding_mode "round_int m"
proof unfold_locales
  show "round_int m x \<le> round_int m y" if "x \<le> y" for x y
    using that by (cases m) (simp_all only: half_even_mono round_int.simps(1,2) floor_mono ceiling_mono)
  show "round_int m (of_int k) = k" for k
    by (cases m) (simp_all only: half_even_of_int round_int.simps(1,2) floor_of_int ceiling_of_int)
qed

declare round_int.simps(3) [simp del]

section \<open>Facts the clients use\<close>

lemma dec_value_cents: "dec_value k (-2) = of_int k / 100"
  by (simp add: dec_value_def power_int_def power2_eq_square)

named_theorems decimal_intros \<open>sign and bound facts of rounded arithmetic\<close>

definition valid_ctx :: "ctx \<Rightarrow> bool" where
  "valid_ctx c \<longleftrightarrow> 0 < prec c"

lemma ctx_fix_mono: "valid_ctx c \<Longrightarrow> x \<le> y \<Longrightarrow> ctx_fix c x \<le> ctx_fix c y"
  by (simp add: ctx_fix_def sig_round_def valid_ctx_def rm.sig_mono)

lemma ctx_fix_zero [simp]: "ctx_fix c 0 = 0"
  by (simp add: ctx_fix_def sig_round_def rm.sig_zero)

lemma ctx_fix_pos [decimal_intros]: "valid_ctx c \<Longrightarrow> 0 < x \<Longrightarrow> 0 < ctx_fix c x"
  by (simp add: ctx_fix_def sig_round_def valid_ctx_def rm.sig_pos)

lemma ctx_fix_neg: "valid_ctx c \<Longrightarrow> x < 0 \<Longrightarrow> ctx_fix c x < 0"
  by (simp add: ctx_fix_def sig_round_def valid_ctx_def rm.sig_neg)

lemma ctx_fix_nonneg [decimal_intros]: "valid_ctx c \<Longrightarrow> 0 \<le> x \<Longrightarrow> 0 \<le> ctx_fix c x"
  using ctx_fix_mono[of c 0 x] by simp

lemma ctx_fix_pos_iff: "valid_ctx c \<Longrightarrow> 0 < ctx_fix c x \<longleftrightarrow> 0 < x"
  by (metis ctx_fix_mono ctx_fix_pos ctx_fix_zero linorder_not_le)

lemma ctx_fix_exact: "valid_ctx c \<Longrightarrow> representable (prec c) x \<Longrightarrow> ctx_fix c x = x"
  by (simp add: ctx_fix_def sig_round_def valid_ctx_def rm.sig_representable)

lemma ctx_fix_le_representable:
  "valid_ctx c \<Longrightarrow> representable (prec c) z \<Longrightarrow> x \<le> z \<Longrightarrow> ctx_fix c x \<le> z"
  using ctx_fix_mono[of c x z] by (simp add: ctx_fix_exact)

lemma ctx_fix_ge_representable:
  "valid_ctx c \<Longrightarrow> representable (prec c) z \<Longrightarrow> z \<le> x \<Longrightarrow> z \<le> ctx_fix c x"
  using ctx_fix_mono[of c z x] by (simp add: ctx_fix_exact)

text \<open>Rounding toward minus infinity never exceeds the exact value.\<close>

lemma ctx_fix_floor_le:
  assumes "ctx_rounding c = ROUND_FLOOR"
  shows "ctx_fix c x \<le> x"
proof (cases "x = 0")
  case False
  define u where "u = (10::rat) powi (adjusted x + 1 - int (prec c))"
  have u: "0 < u" by (simp add: u_def)
  have "ctx_fix c x = of_int \<lfloor>x / u\<rfloor> * u"
    using False assms by (simp add: ctx_fix_def sig_round_def sig_with_def u_def Let_def)
  also have "\<dots> \<le> (x / u) * u" using u by (intro mult_right_mono) auto
  finally show ?thesis using u by simp
qed simp

text \<open>The relative error of one rounded operation.\<close>

lemma ctx_fix_error:
  "\<bar>ctx_fix c x - x\<bar> \<le> \<bar>x\<bar> * 10 powi (1 - int (prec c))"
proof (cases "x = 0")
  case False
  have "\<bar>ctx_fix c x - x\<bar> < 10 powi (adjusted x + (1 - int (prec c)))"
    using rm.sig_error[OF False, of "ctx_rounding c" "prec c"]
    by (simp add: ctx_fix_def sig_round_def algebra_simps)
  also have "\<dots> = 10 powi adjusted x * 10 powi (1 - int (prec c))" by (rule powi_10_add)
  also have "\<dots> \<le> \<bar>x\<bar> * 10 powi (1 - int (prec c))"
    using adjusted_bounds(1)[OF False] by (intro mult_right_mono) auto
  finally show ?thesis by simp
qed simp

lemma representable_dec_value: "\<bar>c\<bar> \<le> 10 ^ p \<Longrightarrow> representable p (dec_value c e)"
  unfolding representable_def by blast

text \<open>A value with few decimals and bounded size is representable; used on concrete inputs.\<close>

lemma representable_scaled:
  assumes "x * 10 ^ k = of_int (\<lfloor>x * 10 ^ k\<rfloor>)" and "\<bar>x\<bar> * 10 ^ k \<le> 10 ^ p"
  shows "representable p x"
proof -
  let ?c = "\<lfloor>x * 10 ^ k\<rfloor>"
  have "dec_value ?c (- int k) = x * 10 ^ k * inverse (10 ^ k)"
    unfolding dec_value_def power_int_minus power_int_of_nat by (simp only: assms(1)[symmetric])
  then have x: "x = dec_value ?c (- int k)" by simp
  have "(of_int \<bar>?c\<bar> :: rat) = \<bar>x * 10 ^ k\<bar>" using assms(1) by simp
  also have "\<dots> \<le> of_int (10 ^ p)" using assms(2) by (simp add: abs_mult)
  finally have "\<bar>?c\<bar> \<le> 10 ^ p" unfolding of_int_le_iff .
  with x show ?thesis by (metis representable_dec_value)
qed

lemma ctx_fix_eval:
  assumes "x * 10 ^ 18 = of_int (\<lfloor>x * 10 ^ 18\<rfloor>)" and "\<bar>x\<bar> * 10 ^ 18 \<le> 10 ^ prec c" and "0 < prec c"
  shows "ctx_fix c x = x"
  using assms(3) representable_scaled[OF assms(1,2)] by (intro ctx_fix_exact) (simp_all add: valid_ctx_def)

lemma quantize_Inr:
  "quantize c m e x = Inr y \<longleftrightarrow>
     y = dec_value (round_int m (x / 10 powi e)) e \<and> \<bar>round_int m (x / 10 powi e)\<bar> < 10 ^ prec c"
  by (auto simp: quantize_def Let_def)

lemma quantize_Inl: "quantize c m e x = Inl ex \<Longrightarrow> ex = InvalidOperation"
  by (auto simp: quantize_def Let_def split: if_splits)

lemma quantize_floor_le: "quantize c ROUND_FLOOR e x = Inr y \<Longrightarrow> y \<le> x"
proof -
  assume "quantize c ROUND_FLOOR e x = Inr y"
  then have "y = of_int \<lfloor>x / 10 powi e\<rfloor> * 10 powi e" by (simp add: quantize_Inr dec_value_def)
  also have "\<dots> \<le> (x / 10 powi e) * 10 powi e" by (intro mult_right_mono) auto
  finally show ?thesis by simp
qed

lemma quantize_ceiling_ge: "quantize c ROUND_CEILING e x = Inr y \<Longrightarrow> x \<le> y"
proof -
  assume "quantize c ROUND_CEILING e x = Inr y"
  then have "y = of_int \<lceil>x / 10 powi e\<rceil> * 10 powi e" by (simp add: quantize_Inr dec_value_def)
  also have "(x / 10 powi e) * 10 powi e \<le> \<dots>" by (intro mult_right_mono) auto
  finally show ?thesis by simp
qed

lemma quantize_half_even_error:
  "quantize c ROUND_HALF_EVEN e x = Inr y \<Longrightarrow> \<bar>y - x\<bar> \<le> 10 powi e / 2"
proof -
  let ?u = "(10::rat) powi e"
  assume "quantize c ROUND_HALF_EVEN e x = Inr y"
  then have "y = of_int (round_int ROUND_HALF_EVEN (x / ?u)) * ?u"
    by (simp only: quantize_Inr dec_value_def)
  then have "y - x = (of_int (round_int ROUND_HALF_EVEN (x / ?u)) - x / ?u) * ?u"
    by (simp only: left_diff_distrib) simp
  then have "\<bar>y - x\<bar> = \<bar>of_int (round_int ROUND_HALF_EVEN (x / ?u)) - x / ?u\<bar> * ?u"
    by (simp only: abs_mult) simp
  also have "\<dots> \<le> 1 / 2 * ?u" by (intro mult_right_mono half_even_error) auto
  finally show ?thesis by simp
qed

lemma quantize_nonneg: "quantize c m e x = Inr y \<Longrightarrow> 0 \<le> x \<Longrightarrow> 0 \<le> y"
proof -
  assume q: "quantize c m e x = Inr y" and "0 \<le> x"
  then have "0 \<le> round_int m (x / 10 powi e)" by (intro rm.rnd_ge) simp
  then show ?thesis using q by (simp only: quantize_Inr dec_value_def) simp
qed

end
