(* ===== verification/Decimal_Text.thy ===== *)
theory Decimal_Text
  imports Decimals
begin

text \<open>
  Decimal numbers as text, as Python's \<^verbatim>\<open>decimal\<close> and \<^verbatim>\<open>float\<close> print and read them: \<open>dec_str\<close> is
  \<^verbatim>\<open>str(Decimal)\<close>, \<open>format_f\<close> is \<^verbatim>\<open>format(Decimal, "f")\<close>, \<open>float_str\<close> is \<^verbatim>\<open>repr(float)\<close> and
  \<open>parse_decimal\<close> is the constructor \<^verbatim>\<open>Decimal(text)\<close>. The round trip at the end is what lets the
  stores keep prices and quantities as exact text.
\<close>

section \<open>Printing\<close>

definition place_point :: "string \<Rightarrow> int \<Rightarrow> string" where
  "place_point ds dot =
     (if dot \<le> 0 then ''0.'' @ replicate (nat (- dot)) CHR ''0'' @ ds
      else if int (length ds) \<le> dot then ds @ replicate (nat dot - length ds) CHR ''0''
      else take (nat dot) ds @ ''.'' @ drop (nat dot) ds)"

definition minus_sign :: "int \<Rightarrow> string" where
  "minus_sign c = (if c < 0 then ''-'' else [])"

definition signed_exponent :: "int \<Rightarrow> string" where
  "signed_exponent k = (if k < 0 then show_int k else ''+'' @ show_int k)"

definition dec_str :: "int \<Rightarrow> int \<Rightarrow> string" where
  "dec_str c e =
     (let ds = show_nat (nat \<bar>c\<bar>);
          left = e + int (length ds);
          dot = (if e \<le> 0 \<and> -6 < left then left else 1)
      in minus_sign c @ place_point ds dot @
         (if left = dot then [] else ''E'' @ signed_exponent (left - dot)))"

definition format_f :: "int \<Rightarrow> int \<Rightarrow> string" where
  "format_f c e =
     (let ds = show_nat (nat \<bar>c\<bar>)
      in if c = 0 \<and> 0 < e then ds
         else minus_sign c @ place_point ds (e + int (length ds)))"

definition float_str :: "int \<Rightarrow> int \<Rightarrow> string" where
  "float_str c e =
     (let ds = show_nat (nat \<bar>c\<bar>);
          left = e + int (length ds)
      in minus_sign c @
         (if c = 0 then ''0.0''
          else if -4 < left \<and> left \<le> 16
          then place_point ds left @ (if int (length ds) \<le> left then ''.0'' else [])
          else place_point ds 1 @ ''e'' @
            (if left - 1 < 0 then ''-'' else ''+'') @
            (let k = show_nat (nat \<bar>left - 1\<bar>) in if length k < 2 then ''0'' @ k else k)))"

fun literal_str :: "dec_literal \<Rightarrow> string" where
  "literal_str (Lit c e) = dec_str c e"
| "literal_str (LitInf neg) = (if neg then ''-Infinity'' else ''Infinity'')"
| "literal_str LitNaN = ''NaN''"

fun py_str :: "pyval \<Rightarrow> string" where
  "py_str PNone = ''None''"
| "py_str (PBool b) = (if b then ''True'' else ''False'')"
| "py_str (PInt i) = show_int i"
| "py_str (PFloat (FFin c e)) = float_str c e"
| "py_str (PFloat (FInf neg)) = (if neg then ''-inf'' else ''inf'')"
| "py_str (PFloat FNaN) = ''nan''"
| "py_str (PDec d) = literal_str d"
| "py_str (PStr s) = s"
| "py_str (PEnum cls v) = cls @ ''.'' @ v"
| "py_str (PObject s) = s"

section \<open>Reading\<close>

definition is_digit :: "char \<Rightarrow> bool" where
  "is_digit ch \<longleftrightarrow> (let n = of_char ch :: nat in 48 \<le> n \<and> n \<le> 57)"

definition digit_value :: "char \<Rightarrow> nat" where
  "digit_value ch = of_char ch - 48"

definition read_nat :: "string \<Rightarrow> nat" where
  "read_nat ds = foldl (\<lambda>n ch. 10 * n + digit_value ch) 0 ds"

fun split_sign :: "string \<Rightarrow> bool \<times> string" where
  "split_sign (ch # r) =
     (if ch = CHR ''-'' then (True, r) else if ch = CHR ''+'' then (False, r) else (False, ch # r))"
| "split_sign [] = (False, [])"

definition signed :: "bool \<Rightarrow> nat \<Rightarrow> int" where
  "signed neg n = (if neg then - int n else int n)"

definition read_exponent :: "string \<Rightarrow> int option" where
  "read_exponent s =
     (case split_sign s of (neg, ds) \<Rightarrow>
        if ds \<noteq> [] \<and> list_all is_digit ds then Some (signed neg (read_nat ds)) else None)"

definition read_fraction :: "string \<Rightarrow> string \<times> string" where
  "read_fraction s =
     (case s of ch # r \<Rightarrow> if ch = CHR ''.'' then (takeWhile is_digit r, dropWhile is_digit r) else ([], s)
      | [] \<Rightarrow> ([], []))"

definition read_finite :: "bool \<Rightarrow> string \<Rightarrow> dec_literal option" where
  "read_finite neg s =
     (let ip = takeWhile is_digit s;
          (fp, rest) = read_fraction (dropWhile is_digit s);
          c = signed neg (read_nat (ip @ fp));
          e = - int (length fp)
      in if ip @ fp = [] then None
         else case rest of
           [] \<Rightarrow> Some (Lit c e)
         | ch # r \<Rightarrow>
             if ch = CHR ''e'' \<or> ch = CHR ''E'' then map_option (\<lambda>k. Lit c (k + e)) (read_exponent r)
             else None)"

definition is_nan_text :: "string \<Rightarrow> bool" where
  "is_nan_text b =
     (let b' = (case b of ch # r \<Rightarrow> if ch = CHR ''s'' then r else b | [] \<Rightarrow> b)
      in take 3 b' = ''nan'' \<and> list_all is_digit (drop 3 b'))"

definition parse_decimal :: "string \<Rightarrow> dec_literal option" where
  "parse_decimal s =
     (case split_sign (filter (\<lambda>ch. ch \<noteq> CHR ''_'') (strip s)) of (neg, body) \<Rightarrow>
        if lower body = ''inf'' \<or> lower body = ''infinity'' then Some (LitInf neg)
        else if is_nan_text (lower body) then Some LitNaN
        else read_finite neg body)"

section \<open>The round trip of digits\<close>

lemma is_digit_char_of: "n < 10 \<Longrightarrow> is_digit (char_of (48 + n :: nat))"
  by (simp add: is_digit_def Let_def of_char_of)

lemma digit_value_char_of: "n < 10 \<Longrightarrow> digit_value (char_of (48 + n :: nat)) = n"
  by (simp add: digit_value_def of_char_of)

lemma read_nat_snoc: "read_nat (ds @ [ch]) = 10 * read_nat ds + digit_value ch"
  by (simp add: read_nat_def)

lemma show_nat_digits [simp]: "list_all is_digit (show_nat n)"
proof (induction n rule: show_nat.induct)
  case (1 n)
  then show ?case by (subst show_nat.simps) (simp add: is_digit_char_of)
qed

lemma show_nat_nonempty [simp]: "show_nat n \<noteq> []"
  by (subst show_nat.simps) simp

lemma read_nat_show [simp]: "read_nat (show_nat n) = n"
proof (induction n rule: show_nat.induct)
  case (1 n)
  show ?case
  proof (cases "n < 10")
    case True
    then show ?thesis by (subst show_nat.simps) (simp add: read_nat_def digit_value_char_of)
  next
    case False
    with "1.IH" have "read_nat (show_nat (n div 10)) = n div 10" by blast
    with False show ?thesis
      by (subst show_nat.simps) (simp add: read_nat_snoc digit_value_char_of)
  qed
qed

lemma read_nat_zeros: "read_nat (replicate k CHR ''0'' @ ds) = read_nat ds"
proof -
  have "foldl (\<lambda>n ch. 10 * n + digit_value ch) 0 (replicate k CHR ''0'') = 0"
    by (induction k) (simp_all add: digit_value_def)
  then show ?thesis by (simp add: read_nat_def)
qed

lemma is_digit_zero [simp]: "is_digit CHR ''0''"
  by (simp add: is_digit_def)

lemma not_digits [simp]:
  "\<not> is_digit CHR ''.''" "\<not> is_digit CHR ''E''" "\<not> is_digit CHR ''e''" "\<not> is_digit CHR ''-''" "\<not> is_digit CHR ''+''"
  by (simp_all add: is_digit_def)

lemma takeWhile_digits:
  assumes "list_all is_digit ds" and "r = [] \<or> \<not> is_digit (hd r)"
  shows "takeWhile is_digit (ds @ r) = ds" and "dropWhile is_digit (ds @ r) = r"
  using assms by (induction ds) (cases r; auto)+

lemma split_sign_digits: "list_all is_digit ds \<Longrightarrow> ds \<noteq> [] \<Longrightarrow> split_sign (ds @ r) = (False, ds @ r)"
  by (cases ds) (auto simp: is_digit_def Let_def)

lemma read_exponent_show: "read_exponent (signed_exponent k) = Some k"
proof (cases "k < 0")
  case True
  then show ?thesis by (simp add: signed_exponent_def show_int_def read_exponent_def signed_def)
next
  case False
  then show ?thesis by (simp add: signed_exponent_def show_int_def read_exponent_def signed_def)
qed

section \<open>The round trip of decimals\<close>

text \<open>
  A number text in three parts (digits, digits after a point, exponent) reads back as its value. The
  exponent part is empty exactly when the exponent is zero.
\<close>

lemma read_finite_parts:
  assumes "list_all is_digit ip" "list_all is_digit fp" and "ip \<noteq> []"
    and "tail = (if fp = [] then [] else CHR ''.'' # fp)" and "ex = (if k = 0 then [] else CHR ''E'' # signed_exponent k)"
  shows "read_finite neg (ip @ tail @ ex) = Some (Lit (signed neg (read_nat (ip @ fp))) (k - int (length fp)))"
proof -
  have ex: "ex = [] \<or> \<not> is_digit (hd ex)" using assms(5) by simp
  have "tail @ ex = [] \<or> \<not> is_digit (hd (tail @ ex))" using assms(4,5) by simp
  then have ip: "takeWhile is_digit (ip @ tail @ ex) = ip" "dropWhile is_digit (ip @ tail @ ex) = tail @ ex"
    using takeWhile_digits[OF assms(1), of "tail @ ex"] by blast+
  have "read_fraction (tail @ ex) = (fp, ex)"
  proof (cases "fp = []")
    case True
    then show ?thesis using assms(4,5) by (simp add: read_fraction_def)
  next
    case False
    then show ?thesis using assms(4) takeWhile_digits[OF assms(2) ex] by (simp add: read_fraction_def)
  qed
  then show ?thesis
    using ip assms(3,5) by (cases "k = 0") (simp_all add: read_finite_def read_exponent_show)
qed

text \<open>The text of a decimal has such parts.\<close>

lemma dec_str_parts:
  obtains ip fp k where "list_all is_digit ip" "list_all is_digit fp" "ip \<noteq> []"
    "dec_str c e = minus_sign c @ ip @ (if fp = [] then [] else CHR ''.'' # fp)
       @ (if k = 0 then [] else CHR ''E'' # signed_exponent k)"
    "read_nat (ip @ fp) = nat \<bar>c\<bar>" "k - int (length fp) = e"
proof -
  define ds where "ds = show_nat (nat \<bar>c\<bar>)"
  define left where "left = e + int (length ds)"
  define dot where "dot = (if e \<le> 0 \<and> -6 < left then left else 1)"
  have str: "dec_str c e = minus_sign c @ place_point ds dot @
      (if left - dot = 0 then [] else CHR ''E'' # signed_exponent (left - dot))"
    by (simp add: dec_str_def ds_def left_def dot_def Let_def)
  have ds: "list_all is_digit ds" "ds \<noteq> []" "read_nat ds = nat \<bar>c\<bar>" by (simp_all add: ds_def)
  have len: "1 \<le> int (length ds)" using ds(2) by (cases ds) simp_all
  show thesis
  proof (cases "dot \<le> 0")
    case True
    let ?fp = "replicate (nat (- dot)) CHR ''0'' @ ds"
    have "dot = left" using True by (simp add: dot_def split: if_splits)
    moreover have "list_all is_digit ?fp" using ds(1) by (induction "nat (- dot)") (auto simp: list_all_iff)
    moreover have "read_nat (''0'' @ ?fp) = nat \<bar>c\<bar>"
      using read_nat_zeros[of "Suc (nat (- dot))" ds] ds(3) by simp
    moreover have "dec_str c e = minus_sign c @ ''0'' @ CHR ''.'' # ?fp"
      using str True \<open>dot = left\<close> by (simp add: place_point_def)
    moreover have "0 - int (length ?fp) = e" using True \<open>dot = left\<close> by (simp add: left_def)
    ultimately show thesis using ds(2) by (intro that[of "''0''" ?fp 0]) auto
  next
    case pos: False
    show thesis
    proof (cases "int (length ds) \<le> dot")
      case True
      then have "int (length ds) = dot" using len by (auto simp: dot_def left_def split: if_splits)
      then show thesis using that[of ds "[]" "left - dot"] pos str ds by (simp add: place_point_def left_def)
    next
      case False
      let ?n = "nat dot"
      have "list_all is_digit (take ?n ds)" "list_all is_digit (drop ?n ds)"
        using ds(1) by (auto simp: list_all_iff dest: in_set_takeD in_set_dropD)
      then show thesis using that[of "take ?n ds" "drop ?n ds" "left - dot"] pos False str ds
        by (simp add: place_point_def left_def)
    qed
  qed
qed

definition number_char :: "char \<Rightarrow> bool" where
  "number_char ch \<longleftrightarrow> is_digit ch \<or> ch \<in> set ''.E+-''"

lemma number_char_plain: "number_char ch \<Longrightarrow> \<not> is_space ch \<and> ch \<noteq> CHR ''_''"
  by (auto simp: number_char_def is_digit_def is_space_def Let_def)

lemma strip_no_space: "list_all (\<lambda>ch. \<not> is_space ch) s \<Longrightarrow> strip s = s"
proof -
  assume a: "list_all (\<lambda>ch. \<not> is_space ch) s"
  then have "list_all (\<lambda>ch. \<not> is_space ch) (rev s)" by (simp add: list_all_iff)
  moreover have "dropWhile is_space t = t" if "list_all (\<lambda>ch. \<not> is_space ch) t" for t
    using that by (cases t) auto
  ultimately show ?thesis using a by (simp add: strip_def)
qed

lemma number_chars_dec_str: "list_all number_char (dec_str c e)"
proof -
  have d: "list_all number_char ds" if "list_all is_digit ds" for ds
    using that by (simp add: list_all_iff number_char_def)
  have s: "list_all number_char (minus_sign c)" "list_all number_char (signed_exponent k)" for k
    by (simp_all add: minus_sign_def signed_exponent_def show_int_def d, simp_all add: number_char_def)
  show ?thesis by (rule dec_str_parts[of c e]) (simp add: s d, simp add: number_char_def)
qed

text \<open>\<^verbatim>\<open>Decimal(str(d)) == d\<close>, with the same exponent.\<close>

lemma parse_decimal_dec_str: "parse_decimal (dec_str c e) = Some (Lit c e)"
proof (rule dec_str_parts[of c e])
  fix ip fp k
  assume p: "list_all is_digit ip" "list_all is_digit fp" "ip \<noteq> []"
    "dec_str c e = minus_sign c @ ip @ (if fp = [] then [] else CHR ''.'' # fp)
       @ (if k = 0 then [] else CHR ''E'' # signed_exponent k)"
    "read_nat (ip @ fp) = nat \<bar>c\<bar>" "k - int (length fp) = e"
  let ?t = "(if fp = [] then [] else CHR ''.'' # fp)" and ?e = "(if k = 0 then [] else CHR ''E'' # signed_exponent k)"
  let ?body = "ip @ ?t @ ?e"
  have "list_all (\<lambda>ch. \<not> is_space ch) (dec_str c e)" "filter (\<lambda>ch. ch \<noteq> CHR ''_'') (dec_str c e) = dec_str c e"
    using number_chars_dec_str[of c e] number_char_plain by (auto simp: list_all_iff intro!: filter_True)
  then have clean: "filter (\<lambda>ch. ch \<noteq> CHR ''_'') (strip (dec_str c e)) = minus_sign c @ ?body"
    using p(4) strip_no_space by simp
  have sign: "split_sign (minus_sign c @ ?body) = (c < 0, ?body)"
    using split_sign_digits[OF p(1,3)] by (simp add: minus_sign_def)
  obtain d ds where d: "ip = d # ds" "is_digit d" using p(1,3) by (cases ip) auto
  have "ascii_lower d = d" using d(2) by (simp add: ascii_lower_def is_digit_def Let_def)
  then have body: "lower ?body = d # lower (ds @ ?t @ ?e)" using d by (simp add: lower_def)
  have "d \<notin> {CHR ''i'', CHR ''n'', CHR ''s''}" using d(2) by (auto simp: is_digit_def)
  then have no: "lower ?body \<noteq> ''inf'' \<and> lower ?body \<noteq> ''infinity'' \<and> \<not> is_nan_text (lower ?body)"
    unfolding body by (auto simp: is_nan_text_def)
  have "read_finite (c < 0) ?body = Some (Lit (signed (c < 0) (read_nat (ip @ fp))) (k - int (length fp)))"
    by (rule read_finite_parts[OF p(1-3) refl refl])
  moreover have "signed (c < 0) (nat \<bar>c\<bar>) = c" by (simp add: signed_def)
  ultimately show ?thesis using no by (simp add: parse_decimal_def clean sign p(5,6))
qed

end
