(* ===== verification/Paper.thy ===== *)
theory Paper
  imports Decimal_Text
begin

text \<open>
  The pretend-money plays of \<^verbatim>\<open>radar_v08/domain/paper.py\<close>: validated quotes, the settlement of a play
  at the touch, the balance, admission, and the EX-1 exit policy (stop, target and time limit).
  Parameters annotated \<^verbatim>\<open>object\<close> are \<open>pyval\<close>, parameters annotated \<^verbatim>\<open>Decimal\<close> are \<open>decimal\<close>, and
  a moment is a number of microseconds; a naive datetime is the separate value \<open>Naive\<close>.
\<close>

section \<open>Data\<close>

definition PAPER_CONTEXT :: ctx where
  "PAPER_CONTEXT = Ctx 50 ROUND_HALF_EVEN"

definition BPS :: rat where
  "BPS = 10000"

datatype direction = LONG | SHORT

datatype quote_problem = MISSING | NOT_A_NUMBER | NOT_FINITE | NOT_POSITIVE | CROSSED | NOT_ONLINE

datatype skip_reason =
  ALREADY_RECORDED | NO_DIRECTION | INVALID_PRICE | SKIP_NO_VALID_ATR | SKIP_INVALID_LEVELS |
  ASSET_ALREADY_OPEN | MAX_OPEN | SKIP_INSUFFICIENT_CASH

datatype outcome = WIN | LOSS | FLAT

datatype exit_reason = STOP | TARGET | TIME

definition EX1_STOP_ATR_MULTIPLE :: rat where
  "EX1_STOP_ATR_MULTIPLE = 2"

definition EX1_TARGET_R_MULTIPLE :: rat where
  "EX1_TARGET_R_MULTIPLE = 2"

definition EX1_MAX_HOLD_MINUTES :: int where
  "EX1_MAX_HOLD_MINUTES = 24 * 60"

definition EX1_POLICY_ID :: string where
  "EX1_POLICY_ID = ''ex1_initial_paper_v1''"

record quote =
  bid :: rat
  ask :: rat

record play_result =
  pr_entry_price :: rat
  pr_exit_price :: rat
  gross_mid :: rat
  spread_cost :: rat
  pr_fees :: rat
  pr_net :: rat
  pr_outcome :: outcome

record exit_levels_t =
  policy_id :: string
  lv_atr :: rat
  lv_entry_price :: rat
  lv_stop :: rat
  lv_target :: rat
  hold_minutes :: int

record open_position =
  op_asset :: string
  op_stake :: rat

section \<open>Validation\<close>

definition mid :: "quote \<Rightarrow> rat" where
  "mid q = ctx_fix PAPER_CONTEXT (ctx_add PAPER_CONTEXT (bid q) (ask q) / 2)"

definition positive_price :: "rat \<Rightarrow> quote_problem + rat" where
  "positive_price x = (if x \<le> 0 then Inl NOT_POSITIVE else Inr x)"

fun price :: "pyval \<Rightarrow> quote_problem + rat" where
  "price PNone = Inl MISSING"
| "price (PBool _) = Inl NOT_A_NUMBER"
| "price (PFloat (FFin c e)) = positive_price (dec_value c e)"
| "price (PFloat _) = Inl NOT_FINITE"
| "price (PInt i) = positive_price (of_int i)"
| "price (PDec (Lit c e)) = positive_price (dec_value c e)"
| "price (PDec _) = Inl NOT_FINITE"
| "price _ = Inl NOT_A_NUMBER"

fun status_online :: "pyval \<Rightarrow> bool" where
  "status_online PNone = True"
| "status_online (PStr s) \<longleftrightarrow> strip s = [] \<or> lower (strip s) = ''online''"
| "status_online _ = False"

definition validate_quote :: "pyval \<Rightarrow> pyval \<Rightarrow> pyval \<Rightarrow> quote_problem + quote" where
  "validate_quote b a status =
     (if \<not> status_online status then Inl NOT_ONLINE
      else bindE (price b) (\<lambda>checked_bid. bindE (price a) (\<lambda>checked_ask.
        if checked_ask < checked_bid then Inl CROSSED
        else Inr \<lparr>bid = checked_bid, ask = checked_ask\<rparr>)))"

fun parse_direction :: "pyval \<Rightarrow> direction option" where
  "parse_direction (PStr s) =
     (if s = ''LONG'' then Some LONG else if s = ''SHORT'' then Some SHORT else None)"
| "parse_direction _ = None"

definition validate_atr :: "pyval \<Rightarrow> quote_problem + rat" where
  "validate_atr v = price v"

fun require_amount :: "string \<Rightarrow> bool \<Rightarrow> decimal \<Rightarrow> py_exn + rat" where
  "require_amount field zero_allowed (DFin x) =
     (if x < 0 \<or> x = 0 \<and> \<not> zero_allowed then Inl (PaperInputError field) else Inr x)"
| "require_amount field zero_allowed _ = Inl (PaperInputError field)"

section \<open>Settlement and balance\<close>

definition cents :: "rat \<Rightarrow> py_exn + rat" where
  "cents x = quantize PAPER_CONTEXT ROUND_HALF_EVEN (-2) x"

definition classify :: "rat \<Rightarrow> outcome" where
  "classify net = (if 0 < net then WIN else if net < 0 then LOSS else FLAT)"

abbreviation padd :: "rat \<Rightarrow> rat \<Rightarrow> rat" where "padd \<equiv> ctx_add PAPER_CONTEXT"
abbreviation psub :: "rat \<Rightarrow> rat \<Rightarrow> rat" where "psub \<equiv> ctx_sub PAPER_CONTEXT"
abbreviation pmul :: "rat \<Rightarrow> rat \<Rightarrow> rat" where "pmul \<equiv> ctx_mul PAPER_CONTEXT"
abbreviation pdiv :: "rat \<Rightarrow> rat \<Rightarrow> py_exn + rat" where "pdiv \<equiv> ctx_div PAPER_CONTEXT"

definition play_entry_price :: "direction \<Rightarrow> quote \<Rightarrow> rat" where
  "play_entry_price dir entry = (case dir of LONG \<Rightarrow> ask entry | SHORT \<Rightarrow> bid entry)"

definition play_exit_price :: "direction \<Rightarrow> quote \<Rightarrow> rat" where
  "play_exit_price dir ex = (case dir of LONG \<Rightarrow> bid ex | SHORT \<Rightarrow> ask ex)"

definition play_gross :: "direction \<Rightarrow> rat \<Rightarrow> rat \<Rightarrow> rat" where
  "play_gross dir stake move =
     (case dir of LONG \<Rightarrow> pmul stake (psub move 1) | SHORT \<Rightarrow> pmul stake (psub 1 move))"

definition play_price_result :: "direction \<Rightarrow> rat \<Rightarrow> rat \<Rightarrow> rat \<Rightarrow> py_exn + rat" where
  "play_price_result dir stake entry_price exit_price =
     (case dir of
        LONG \<Rightarrow> bindE (pdiv exit_price entry_price) (\<lambda>z. Inr (pmul stake (psub z 1)))
      | SHORT \<Rightarrow> pdiv (pmul stake (psub entry_price exit_price)) entry_price)"

definition settle :: "direction \<Rightarrow> decimal \<Rightarrow> decimal \<Rightarrow> quote \<Rightarrow> quote \<Rightarrow> py_exn + play_result" where
  "settle dir stake_arg fee_arg entry exit_quote =
     bindE (require_amount ''stake'' False stake_arg) (\<lambda>stake.
     bindE (require_amount ''fee_bps'' True fee_arg) (\<lambda>fee_bps.
     bindE (pdiv fee_bps BPS) (\<lambda>fraction.
     bindE (pdiv (mid exit_quote) (mid entry)) (\<lambda>move.
     let entry_price = play_entry_price dir entry;
         exit_price = play_exit_price dir exit_quote;
         gross = play_gross dir stake move
     in bindE (play_price_result dir stake entry_price exit_price) (\<lambda>price_result.
     bindE (pdiv (pmul stake exit_price) entry_price) (\<lambda>exit_notional.
     bindE (cents gross) (\<lambda>gross_cents.
     bindE (cents (psub gross price_result)) (\<lambda>spread_cents.
     bindE (cents (padd (pmul stake fraction) (pmul exit_notional fraction))) (\<lambda>fee_cents.
     let net = psub (psub gross_cents spread_cents) fee_cents
     in Inr \<lparr>pr_entry_price = entry_price, pr_exit_price = exit_price, gross_mid = gross_cents,
              spread_cost = spread_cents, pr_fees = fee_cents, pr_net = net,
              pr_outcome = classify net\<rparr>)))))))))"

fun sum_nets :: "rat \<Rightarrow> nat \<Rightarrow> decimal list \<Rightarrow> py_exn + rat" where
  "sum_nets acc i [] = Inr acc"
| "sum_nets acc i (DFin x # rest) = sum_nets (padd acc x) (Suc i) rest"
| "sum_nets acc i (_ # rest) = Inl (PaperInputError (''nets['' @ show_nat i @ '']''))"

definition balance :: "decimal \<Rightarrow> decimal list \<Rightarrow> py_exn + rat" where
  "balance start nets = bindE (require_amount ''start_balance'' False start) (\<lambda>acc. sum_nets acc 0 nets)"

definition paper_available_cash :: "rat \<Rightarrow> open_position list \<Rightarrow> rat" where
  "paper_available_cash current opens = psub current (foldl (\<lambda>acc p. padd acc (op_stake p)) 0 opens)"

section \<open>Admission\<close>

definition admit ::
  "pyval \<Rightarrow> string \<Rightarrow> open_position list \<Rightarrow> rat \<Rightarrow> decimal \<Rightarrow> int \<Rightarrow> py_exn + skip_reason option" where
  "admit dir asset opens current stake_arg max_open =
     bindE (require_amount ''stake'' False stake_arg) (\<lambda>stake.
       if max_open \<le> 0 then Inl (PaperInputError ''max_open'')
       else Inr
         (if parse_direction dir = None then Some NO_DIRECTION
          else if list_ex (\<lambda>p. op_asset p = asset) opens then Some ASSET_ALREADY_OPEN
          else if max_open \<le> int (length opens) then Some MAX_OPEN
          else if paper_available_cash current opens < stake then Some SKIP_INSUFFICIENT_CASH
          else None))"

fun due_at :: "moment \<Rightarrow> int \<Rightarrow> py_exn + int" where
  "due_at Naive hold = Inl (PaperInputError ''entry_ts'')"
| "due_at (Aware t) hold =
     (if hold \<le> 0 then Inl (PaperInputError ''hold_minutes'') else Inr (t + hold * 60 * 1000000))"

section \<open>The EX-1 exit policy\<close>

definition exit_levels :: "direction \<Rightarrow> quote \<Rightarrow> decimal \<Rightarrow> py_exn + exit_levels_t option" where
  "exit_levels dir entry atr_arg =
     bindE (require_amount ''atr'' False atr_arg) (\<lambda>atr.
     let distance = pmul EX1_STOP_ATR_MULTIPLE atr;
         reward = pmul EX1_TARGET_R_MULTIPLE distance;
         entry_price = (case dir of LONG \<Rightarrow> ask entry | SHORT \<Rightarrow> bid entry);
         stop = (case dir of LONG \<Rightarrow> psub entry_price distance | SHORT \<Rightarrow> padd entry_price distance);
         target = (case dir of LONG \<Rightarrow> padd entry_price reward | SHORT \<Rightarrow> psub entry_price reward)
     in Inr (if stop \<le> 0 \<or> target \<le> 0 then None
             else Some \<lparr>policy_id = EX1_POLICY_ID, lv_atr = atr, lv_entry_price = entry_price,
                        lv_stop = stop, lv_target = target, hold_minutes = EX1_MAX_HOLD_MINUTES\<rparr>))"

fun require_moment :: "string \<Rightarrow> moment \<Rightarrow> py_exn + int" where
  "require_moment field (Aware t) = Inr t"
| "require_moment field Naive = Inl (PaperInputError field)"

definition exit_decision ::
  "direction \<Rightarrow> decimal \<Rightarrow> decimal \<Rightarrow> moment \<Rightarrow> moment \<Rightarrow> quote \<Rightarrow> py_exn + exit_reason option" where
  "exit_decision dir stop_arg target_arg due_arg observed_arg q =
     bindE (require_amount ''stop'' False stop_arg) (\<lambda>stop.
     bindE (require_amount ''target'' False target_arg) (\<lambda>target.
     bindE (require_moment ''due'' due_arg) (\<lambda>due.
     bindE (require_moment ''observed_at'' observed_arg) (\<lambda>observed_at.
     Inr (case dir of
         LONG \<Rightarrow> if bid q \<le> stop then Some STOP else if target \<le> bid q then Some TARGET
                else if due \<le> observed_at then Some TIME else None
       | SHORT \<Rightarrow> if stop \<le> ask q then Some STOP else if ask q \<le> target then Some TARGET
                else if due \<le> observed_at then Some TIME else None)))))"

section \<open>Facts\<close>

lemma PAPER_CONTEXT_simps [simp]:
  "valid_ctx PAPER_CONTEXT" "prec PAPER_CONTEXT = 50" "ctx_rounding PAPER_CONTEXT = ROUND_HALF_EVEN"
  by (simp_all add: PAPER_CONTEXT_def valid_ctx_def)

lemma require_amount_Inr:
  "require_amount f z d = Inr x \<longleftrightarrow> d = DFin x \<and> 0 \<le> x \<and> (x = 0 \<longrightarrow> z)"
  by (cases d) auto

lemma price_pos: "price v = Inr x \<Longrightarrow> 0 < x"
  by (induction v rule: price.induct) (auto simp: positive_price_def split: if_splits)

lemma validate_quote_valid: "validate_quote b a st = Inr q \<Longrightarrow> 0 < bid q \<and> bid q \<le> ask q"
  by (auto simp: validate_quote_def bindE_eq_Inr dest: price_pos split: if_splits)

lemma classify_WIN [simp]: "classify n = WIN \<longleftrightarrow> 0 < n"
  and classify_LOSS [simp]: "classify n = LOSS \<longleftrightarrow> n < 0"
  and classify_FLAT [simp]: "classify n = FLAT \<longleftrightarrow> n = 0"
  by (auto simp: classify_def)

lemma cents_whole: "cents x = Inr y \<Longrightarrow> \<exists>k. y = of_int k / 100 \<and> \<bar>k\<bar> < 10 ^ 50"
  unfolding cents_def quantize_Inr dec_value_cents PAPER_CONTEXT_simps by blast

lemma cents_nonneg: "cents x = Inr y \<Longrightarrow> 0 \<le> x \<Longrightarrow> 0 \<le> y"
  by (auto simp: cents_def intro: quantize_nonneg)

lemma cents_eval:
  "cents x = (let k = round_int ROUND_HALF_EVEN (x * 100)
     in if \<bar>k\<bar> < 10 ^ 50 then Inr (of_int k / 100) else Inl InvalidOperation)"
proof -
  have "x / 10 powi (-2) = x * 100" by (simp add: power_int_def power2_eq_square)
  then show ?thesis by (simp only: cents_def quantize_def dec_value_cents PAPER_CONTEXT_simps)
qed

lemma cents_zero [simp]: "cents 0 = Inr 0"
  by (simp add: cents_eval round_int.simps(3))

text \<open>Sums and differences of whole cents below \<open>10 ^ 48\<close> are exact in the 50-digit context.\<close>

definition whole_cents :: "rat \<Rightarrow> bool" where
  "whole_cents x \<longleftrightarrow> (\<exists>k::int. x = of_int k / 100)"

lemma whole_cents_representable:
  assumes "whole_cents x" and "\<bar>x\<bar> \<le> 10 ^ 48"
  shows "representable 50 x"
proof -
  obtain k :: int where k: "x = of_int k / 100" using assms(1) by (auto simp: whole_cents_def)
  have "x = dec_value k (-2)" by (simp only: k dec_value_cents)
  moreover have "\<bar>k\<bar> \<le> 10 ^ 50"
  proof -
    have "(of_int \<bar>k\<bar> :: rat) \<le> of_int (10 ^ 50)" using assms(2) by (simp add: k)
    then show ?thesis unfolding of_int_le_iff .
  qed
  ultimately show ?thesis by (simp add: representable_dec_value)
qed

lemma whole_cents_add [intro]: "whole_cents x \<Longrightarrow> whole_cents y \<Longrightarrow> whole_cents (x + y)"
  unfolding whole_cents_def by (auto simp: add_divide_distrib intro: exI[of _ "_ + _"])

lemma whole_cents_diff [intro]: "whole_cents x \<Longrightarrow> whole_cents y \<Longrightarrow> whole_cents (x - y)"
  unfolding whole_cents_def by (auto simp: diff_divide_distrib intro: exI[of _ "_ - _"])

lemma whole_cents_0 [simp]: "whole_cents 0"
  unfolding whole_cents_def by (rule exI[of _ 0]) simp

lemma cents_whole_cents: "cents x = Inr y \<Longrightarrow> whole_cents y"
  using cents_whole unfolding whole_cents_def by blast

lemma psub_cents:
  "whole_cents x \<Longrightarrow> whole_cents y \<Longrightarrow> \<bar>x - y\<bar> \<le> 10 ^ 48 \<Longrightarrow> psub x y = x - y"
  unfolding ctx_sub_def by (rule ctx_fix_exact) (auto intro: whole_cents_representable)

lemma padd_cents:
  "whole_cents x \<Longrightarrow> whole_cents y \<Longrightarrow> \<bar>x + y\<bar> \<le> 10 ^ 48 \<Longrightarrow> padd x y = x + y"
  unfolding ctx_add_def by (rule ctx_fix_exact) (auto intro: whole_cents_representable)

lemma representable_50_one: "representable 50 1"
  using representable_dec_value[of 1 50 0] by simp

subsection \<open>Settlement\<close>

text \<open>What a settlement that returned computed.\<close>

lemma settleE:
  assumes "settle dir sa fa entry ex = Inr r"
  obtains stake fee fraction move pr en where
    "sa = DFin stake" "0 < stake" "fa = DFin fee" "0 \<le> fee"
    "pdiv fee BPS = Inr fraction" "pdiv (mid ex) (mid entry) = Inr move"
    "play_price_result dir stake (play_entry_price dir entry) (play_exit_price dir ex) = Inr pr"
    "pdiv (pmul stake (play_exit_price dir ex)) (play_entry_price dir entry) = Inr en"
    "cents (play_gross dir stake move) = Inr (gross_mid r)"
    "cents (psub (play_gross dir stake move) pr) = Inr (spread_cost r)"
    "cents (padd (pmul stake fraction) (pmul en fraction)) = Inr (pr_fees r)"
    "pr_net r = psub (psub (gross_mid r) (spread_cost r)) (pr_fees r)"
    "pr_outcome r = classify (pr_net r)"
  using assms unfolding settle_def Let_def bindE_eq_Inr require_amount_Inr
  by (elim exE conjE) (rule that, auto)

lemma settle_parts:
  assumes "settle dir sa fa entry ex = Inr r"
  shows "whole_cents (gross_mid r) \<and> whole_cents (spread_cost r) \<and> whole_cents (pr_fees r) \<and>
    pr_net r = psub (psub (gross_mid r) (spread_cost r)) (pr_fees r) \<and> pr_outcome r = classify (pr_net r)"
  using assms by (elim settleE) (simp add: cents_whole_cents)

lemma psub_psub_cents:
  assumes "whole_cents x" "whole_cents y" "whole_cents z"
    and "\<bar>x\<bar> \<le> 10 ^ 47" "\<bar>y\<bar> \<le> 10 ^ 47" "\<bar>z\<bar> \<le> 10 ^ 47"
  shows "psub (psub x y) z = x - y - z"
proof -
  have "psub x y = x - y" using assms by (intro psub_cents) auto
  moreover have "psub (x - y) z = x - y - z" using assms by (intro psub_cents) auto
  ultimately show ?thesis by simp
qed

text \<open>
  The parts of a settled play add up. Whenever \<^verbatim>\<open>settle\<close> returns and its three cent amounts stay
  within \<open>10 ^ 47\<close>, the net is exactly gain minus spread cost minus fees, and the outcome is its sign.
\<close>

lemma settle_net_exact:
  assumes "settle dir stake fee_bps entry ex = Inr r"
    and "\<bar>gross_mid r\<bar> \<le> 10 ^ 47" "\<bar>spread_cost r\<bar> \<le> 10 ^ 47" "\<bar>pr_fees r\<bar> \<le> 10 ^ 47"
  shows "pr_net r = gross_mid r - spread_cost r - pr_fees r
    \<and> (pr_outcome r = WIN \<longleftrightarrow> 0 < pr_net r) \<and> (pr_outcome r = LOSS \<longleftrightarrow> pr_net r < 0)"
  using settle_parts[OF assms(1)] psub_psub_cents[of "gross_mid r" "spread_cost r" "pr_fees r"] assms(2-)
  by simp

lemma psub_sign: "x \<le> y \<Longrightarrow> psub x y \<le> 0" "y \<le> x \<Longrightarrow> 0 \<le> psub x y"
  unfolding ctx_sub_def using ctx_fix_mono[of PAPER_CONTEXT _ 0] ctx_fix_mono[of PAPER_CONTEXT 0] by auto

lemma pmul_sign: "0 \<le> x \<Longrightarrow> 0 \<le> y \<Longrightarrow> 0 \<le> pmul x y" "0 \<le> x \<Longrightarrow> y \<le> 0 \<Longrightarrow> pmul x y \<le> 0"
  unfolding ctx_mul_def using ctx_fix_mono[of PAPER_CONTEXT _ 0] ctx_fix_mono[of PAPER_CONTEXT 0]
  by (auto simp: mult_nonneg_nonpos)

lemma padd_nonneg: "0 \<le> x \<Longrightarrow> 0 \<le> y \<Longrightarrow> 0 \<le> padd x y"
  unfolding ctx_add_def by (simp add: ctx_fix_nonneg)

lemma pdiv_nonneg: "pdiv x y = Inr z \<Longrightarrow> 0 \<le> x \<Longrightarrow> 0 \<le> y \<Longrightarrow> 0 \<le> z"
  by (auto simp: ctx_div_def ctx_fix_nonneg split: if_splits)

lemma pdiv_le_one: "pdiv x y = Inr z \<Longrightarrow> x \<le> y \<Longrightarrow> 0 < y \<Longrightarrow> z \<le> 1"
  by (auto simp: ctx_div_def intro!: ctx_fix_le_representable representable_50_one split: if_splits)

lemma pdiv_nonpos: "pdiv x y = Inr z \<Longrightarrow> x \<le> 0 \<Longrightarrow> 0 < y \<Longrightarrow> z \<le> 0"
  using ctx_fix_mono[of PAPER_CONTEXT "x / y" 0]
  by (auto simp: ctx_div_def divide_nonpos_pos split: if_splits)

lemma pdiv_self: "x \<noteq> 0 \<Longrightarrow> pdiv x x = Inr 1"
  by (simp add: ctx_div_def ctx_fix_exact representable_50_one)

lemmas settle_signs = psub_sign pmul_sign padd_nonneg pdiv_nonneg

lemma mid_pos: "0 < bid q \<Longrightarrow> bid q \<le> ask q \<Longrightarrow> 0 < mid q"
  by (simp add: mid_def ctx_add_def ctx_fix_pos)

lemma settle_costs_nonneg:
  assumes "settle dir sa fa entry ex = Inr r" and "0 < bid entry" "bid entry \<le> ask entry"
    and "0 < bid ex" "bid ex \<le> ask ex"
  shows "0 \<le> pr_fees r"
  using assms(1)
proof (cases rule: settleE)
  case (1 stake fee fraction move pr en)
  have prices: "0 \<le> play_entry_price dir entry" "0 \<le> play_exit_price dir ex"
    using assms(2-) by (auto simp: play_entry_price_def play_exit_price_def split: direction.split)
  have "0 \<le> fraction" using 1 by (intro pdiv_nonneg[OF 1(5)]) (simp_all add: BPS_def)
  moreover have "0 \<le> en" using 1(2) prices by (intro pdiv_nonneg[OF 1(8)] pmul_sign) auto
  ultimately show ?thesis using 1(2) by (intro cents_nonneg[OF 1(11)] padd_nonneg pmul_sign) auto
qed

lemma play_price_result_same_quote:
  assumes "play_price_result dir s (play_entry_price dir q) (play_exit_price dir q) = Inr pr"
    and "0 \<le> s" "0 < bid q" "bid q \<le> ask q"
  shows "pr \<le> 0"
proof (cases dir)
  case LONG
  with assms(1) obtain z where z: "pdiv (bid q) (ask q) = Inr z" "pr = pmul s (psub z 1)"
    by (auto simp: play_price_result_def play_entry_price_def play_exit_price_def bindE_eq_Inr)
  have "z \<le> 1" using assms(3,4) by (intro pdiv_le_one[OF z(1)]) auto
  then show ?thesis using assms(2) unfolding z(2) by (intro pmul_sign psub_sign)
next
  case SHORT
  with assms(1) have "pdiv (pmul s (psub (bid q) (ask q))) (bid q) = Inr pr"
    by (simp add: play_price_result_def play_entry_price_def play_exit_price_def)
  then show ?thesis using assms(2-) by (elim pdiv_nonpos) (auto intro: pmul_sign psub_sign)
qed

lemma settle_same_quote:
  assumes "settle dir sa fa q q = Inr r" and "0 < bid q" "bid q \<le> ask q"
  shows "gross_mid r = 0 \<and> 0 \<le> spread_cost r"
  using assms(1)
proof (cases rule: settleE)
  case (1 stake fee fraction move pr en)
  have "pdiv (mid q) (mid q) = Inr 1" using mid_pos[OF assms(2,3)] by (intro pdiv_self) simp
  then have "play_gross dir stake move = 0"
    using 1(6) by (simp add: play_gross_def ctx_sub_def ctx_mul_def split: direction.split)
  moreover have "pr \<le> 0" using 1(2) assms(2,3) by (intro play_price_result_same_quote[OF 1(7)]) auto
  ultimately show ?thesis using 1(9,10) by (auto intro!: cents_nonneg[OF 1(10)] psub_sign)
qed

text \<open>
  No free money: a play that enters and exits on the same valid quote never wins, in either
  direction and at any stake and fee: the spread and the fees are never negative.
\<close>

lemma settle_same_quote_never_wins:
  assumes "settle dir stake fee_bps q q = Inr r" and "0 < bid q" and "bid q \<le> ask q"
  shows "pr_net r \<le> 0 \<and> pr_outcome r \<noteq> WIN \<and> 0 \<le> spread_cost r \<and> 0 \<le> pr_fees r"
proof -
  note parts = settle_parts[OF assms(1)]
  have s: "gross_mid r = 0" "0 \<le> spread_cost r" using settle_same_quote[OF assms] by auto
  have f: "0 \<le> pr_fees r" using settle_costs_nonneg[OF assms(1)] assms(2,3) by simp
  have "psub 0 (spread_cost r) \<le> 0" using s(2) by (rule psub_sign)
  then have "psub (psub 0 (spread_cost r)) (pr_fees r) \<le> 0" using f by (intro psub_sign) simp
  then show ?thesis using parts s f by auto
qed

text \<open>A LONG play of 100 bought at 10.00/10.10 and closed on the same quote at 40 bps.\<close>

definition sample_quote :: quote where
  "sample_quote = \<lparr>bid = 10, ask = 25 / 2\<rparr>"

lemmas money_eval = ctx_fix_eval Let_def ctx_add_def ctx_sub_def ctx_mul_def ctx_div_def
  cents_eval round_int.simps(3)

lemma settle_sample:
  "settle LONG (DFin 100) (DFin 40) sample_quote sample_quote =
     Inr \<lparr>pr_entry_price = 25 / 2, pr_exit_price = 10, gross_mid = 0, spread_cost = 20,
          pr_fees = 18 / 25, pr_net = - (518 / 25), pr_outcome = LOSS\<rparr>"
  by (simp add: settle_def play_entry_price_def play_exit_price_def play_gross_def
      play_price_result_def sample_quote_def mid_def BPS_def classify_def money_eval
      cong: bindE_weak_cong)

subsection \<open>Exit levels\<close>

lemma exit_levels_Some:
  "exit_levels dir q (DFin atr) = Inr (Some lv) \<Longrightarrow>
     0 < atr \<and> 0 < lv_stop lv \<and> 0 < lv_target lv \<and> lv_atr lv = atr
     \<and> lv_entry_price lv = play_entry_price dir q \<and> hold_minutes lv = 24 * 60
     \<and> (let d = pmul 2 atr; w = pmul 2 d; e = play_entry_price dir q in
         case dir of LONG \<Rightarrow> lv_stop lv = psub e d \<and> lv_target lv = padd e w
         | SHORT \<Rightarrow> lv_stop lv = padd e d \<and> lv_target lv = psub e w)"
  by (auto simp: exit_levels_def Let_def play_entry_price_def EX1_MAX_HOLD_MINUTES_def
      EX1_STOP_ATR_MULTIPLE_def EX1_TARGET_R_MULTIPLE_def split: if_splits direction.splits)

text \<open>
  The EX-1 levels bracket the entry with a reward of twice the risk. When the levels of a play
  have at most 50 significant digits, the stop is exactly two ATR on the losing side of the entry,
  the target exactly twice that distance on the winning side, every level is positive and the hold
  is 24 hours.
\<close>

lemma exit_levels_bracket:
  assumes "exit_levels dir q (DFin atr) = Inr (Some lv)"
    and "representable 50 (2 * atr)" "representable 50 (4 * atr)"
    and "representable 50 (lv_entry_price lv - 2 * atr)" "representable 50 (lv_entry_price lv + 2 * atr)"
    and "representable 50 (lv_entry_price lv - 4 * atr)" "representable 50 (lv_entry_price lv + 4 * atr)"
  shows "lv_stop lv = lv_entry_price lv + (if dir = LONG then - 2 * atr else 2 * atr)
    \<and> lv_target lv - lv_entry_price lv = 2 * (lv_entry_price lv - lv_stop lv)
    \<and> 0 < lv_stop lv \<and> 0 < lv_target lv \<and> hold_minutes lv = 1440
    \<and> (if dir = LONG then lv_stop lv < lv_entry_price lv \<and> lv_entry_price lv < lv_target lv
       else lv_target lv < lv_entry_price lv \<and> lv_entry_price lv < lv_stop lv)"
proof -
  have d: "pmul 2 atr = 2 * atr" "pmul 2 (2 * atr) = 4 * atr"
    using assms(2,3) by (simp_all add: ctx_mul_def ctx_fix_exact)
  note lv = exit_levels_Some[OF assms(1), unfolded Let_def d]
  have e: "psub (lv_entry_price lv) (2 * atr) = lv_entry_price lv - 2 * atr"
    "padd (lv_entry_price lv) (2 * atr) = lv_entry_price lv + 2 * atr"
    "psub (lv_entry_price lv) (4 * atr) = lv_entry_price lv - 4 * atr"
    "padd (lv_entry_price lv) (4 * atr) = lv_entry_price lv + 4 * atr"
    using assms(4-) by (simp_all add: ctx_sub_def ctx_add_def ctx_fix_exact)
  show ?thesis using lv e by (cases dir) auto
qed

subsection \<open>Cash\<close>

lemma foldl_stakes:
  assumes "\<forall>p \<in> set opens. whole_cents (op_stake p) \<and> 0 \<le> op_stake p"
    and "whole_cents a" "0 \<le> a" "a + sum_list (map op_stake opens) \<le> 10 ^ 48"
  shows "foldl (\<lambda>acc p. padd acc (op_stake p)) a opens = a + sum_list (map op_stake opens)"
  using assms
proof (induction opens arbitrary: a)
  case (Cons p opens)
  have "0 \<le> sum_list (map op_stake opens)" using Cons.prems(1) by (intro sum_list_nonneg) auto
  then have "padd a (op_stake p) = a + op_stake p" using Cons.prems by (intro padd_cents) auto
  then show ?case using Cons.prems by (simp add: Cons.IH whole_cents_add add.assoc)
qed simp

lemma sum_stakes_whole: "\<forall>p \<in> set opens. whole_cents (op_stake p) \<Longrightarrow> whole_cents (sum_list (map op_stake opens))"
  by (induction opens) auto

lemma available_cash_exact:
  assumes "\<forall>p \<in> set opens. whole_cents (op_stake p) \<and> 0 \<le> op_stake p"
    and "whole_cents current" "\<bar>current\<bar> \<le> 10 ^ 47" "sum_list (map op_stake opens) \<le> 10 ^ 47"
  shows "paper_available_cash current opens = current - sum_list (map op_stake opens)"
proof -
  have "0 \<le> sum_list (map op_stake opens)" using assms(1) by (intro sum_list_nonneg) auto
  then have "psub current (sum_list (map op_stake opens)) = current - sum_list (map op_stake opens)"
    using assms by (intro psub_cents sum_stakes_whole) auto
  then show ?thesis using foldl_stakes[of opens 0] assms by (simp add: paper_available_cash_def)
qed

text \<open>
  Admission never overspends. When \<^verbatim>\<open>admit\<close> lets a play in, the exact cash after taking its
  stake is not negative, the asset has no open play and the number of plays stays within the limit
  (amounts in whole cents up to \<open>10 ^ 46\<close>).
\<close>

lemma admit_keeps_cash_nonnegative:
  assumes "admit dir asset opens current (DFin stake) max_open = Inr None"
    and "\<forall>p \<in> set opens. whole_cents (op_stake p) \<and> 0 \<le> op_stake p"
    and "whole_cents current" "\<bar>current\<bar> \<le> 10 ^ 46" "whole_cents stake"
    and "sum_list (map op_stake opens) + stake \<le> 10 ^ 46"
  shows "0 \<le> paper_available_cash current (opens @ [\<lparr>op_asset = asset, op_stake = stake\<rparr>])
    \<and> asset \<notin> op_asset ` set opens \<and> int (length opens) < max_open"
proof -
  have adm: "stake \<le> paper_available_cash current opens" "\<not> list_ex (\<lambda>p. op_asset p = asset) opens"
    "int (length opens) < max_open" "0 < stake"
    using assms(1) by (auto simp: admit_def split: if_splits)
  have nn: "0 \<le> sum_list (map op_stake opens)" using assms(2) by (intro sum_list_nonneg) auto
  have "paper_available_cash current opens = current - sum_list (map op_stake opens)"
    using assms(2-) adm(4) nn by (intro available_cash_exact) auto
  moreover have "paper_available_cash current (opens @ [\<lparr>op_asset = asset, op_stake = stake\<rparr>]) =
      current - (sum_list (map op_stake opens) + stake)"
    using assms(2-) adm(4) nn by (subst available_cash_exact) auto
  ultimately show ?thesis using adm by (auto simp: list_ex_iff)
qed

end
