(* ===== verification/Json_Text.thy ===== *)
theory Json_Text
  imports Decimal_Text
begin

text \<open>
  JSON text as Python's \<^verbatim>\<open>json\<close> module writes and reads it, for the objects that the repository stores:
  \<open>dumps_object\<close> is \<^verbatim>\<open>json.dumps\<close> of a dict of scalars and \<open>loads\<close> is \<^verbatim>\<open>json.loads\<close>. The writer
  has the \<^verbatim>\<open>ensure_ascii\<close> flag and the separators as arguments. Characters are code points below
  256, so an escape of a larger code point is refused by the reader.
\<close>

section \<open>Values and writing\<close>

datatype json = JNull | JBool bool | JInt int | JFloat string | JStr string | JArr "json list" | JObj "(string \<times> json) list"

abbreviation dquote :: char where "dquote \<equiv> CHR 0x22"
abbreviation backslash :: char where "backslash \<equiv> CHR 0x5C"

definition hex_digit :: "nat \<Rightarrow> char" where
  "hex_digit n = char_of (if n < 10 then 48 + n else 87 + n)"

definition esc_char :: "bool \<Rightarrow> char \<Rightarrow> string" where
  "esc_char ascii ch =
     (let n = of_char ch :: nat in
      if n = 34 then [backslash, dquote]
      else if n = 92 then [backslash, backslash]
      else if n = 8 then backslash # ''b''
      else if n = 9 then backslash # ''t''
      else if n = 10 then backslash # ''n''
      else if n = 12 then backslash # ''f''
      else if n = 13 then backslash # ''r''
      else if 32 \<le> n \<and> (n \<le> 126 \<or> \<not> ascii) then [ch]
      else backslash # ''u00'' @ [hex_digit (n div 16), hex_digit (n mod 16)])"

definition json_string :: "bool \<Rightarrow> string \<Rightarrow> string" where
  "json_string ascii s = [dquote] @ concat (map (esc_char ascii) s) @ [dquote]"

fun scalar_text :: "bool \<Rightarrow> json \<Rightarrow> string" where
  "scalar_text ascii JNull = ''null''"
| "scalar_text ascii (JBool b) = (if b then ''true'' else ''false'')"
| "scalar_text ascii (JInt i) = show_int i"
| "scalar_text ascii (JFloat t) = t"
| "scalar_text ascii (JStr s) = json_string ascii s"
| "scalar_text ascii _ = []"

definition member_text :: "bool \<Rightarrow> string \<Rightarrow> string \<times> json \<Rightarrow> string" where
  "member_text ascii key_sep m = json_string ascii (fst m) @ key_sep @ scalar_text ascii (snd m)"

fun members_text :: "bool \<Rightarrow> string \<Rightarrow> string \<Rightarrow> (string \<times> json) list \<Rightarrow> string" where
  "members_text ascii item_sep key_sep [] = []"
| "members_text ascii item_sep key_sep [m] = member_text ascii key_sep m"
| "members_text ascii item_sep key_sep (m # ms) =
     member_text ascii key_sep m @ item_sep @ members_text ascii item_sep key_sep ms"

definition dumps_object :: "bool \<Rightarrow> string \<Rightarrow> string \<Rightarrow> (string \<times> json) list \<Rightarrow> string" where
  "dumps_object ascii item_sep key_sep ms = ''{'' @ members_text ascii item_sep key_sep ms @ ''}''"

section \<open>Reading\<close>

definition is_json_space :: "char \<Rightarrow> bool" where
  "is_json_space ch \<longleftrightarrow> (of_char ch :: nat) \<in> {9, 10, 13, 32}"

definition skip_ws :: "string \<Rightarrow> string" where
  "skip_ws s = dropWhile is_json_space s"

definition hex_value :: "char \<Rightarrow> nat option" where
  "hex_value ch =
     (let n = of_char ch :: nat in
      if 48 \<le> n \<and> n \<le> 57 then Some (n - 48)
      else if 97 \<le> n \<and> n \<le> 102 then Some (n - 87)
      else if 65 \<le> n \<and> n \<le> 70 then Some (n - 55)
      else None)"

fun hex_number :: "nat \<Rightarrow> string \<Rightarrow> nat option" where
  "hex_number acc [] = Some acc"
| "hex_number acc (c # cs) = (case hex_value c of None \<Rightarrow> None | Some d \<Rightarrow> hex_number (16 * acc + d) cs)"

definition unescape :: "char \<Rightarrow> char option" where
  "unescape e =
     map_of [(dquote, dquote), (backslash, backslash), (CHR ''/'', CHR ''/''), (CHR ''b'', char_of (8::nat)),
       (CHR ''f'', char_of (12::nat)), (CHR ''n'', char_of (10::nat)), (CHR ''r'', char_of (13::nat)),
       (CHR ''t'', char_of (9::nat))] e"

text \<open>The rest of a string after its opening quote: its characters and what follows the closing quote.\<close>

fun scan_string :: "string \<Rightarrow> (string \<times> string) option" where
  "scan_string [] = None"
| "scan_string (c # cs) =
     (if c = dquote then Some ([], cs)
      else if c = backslash then
        (case cs of
           [] \<Rightarrow> None
         | e # es \<Rightarrow>
             if e = CHR ''u'' then
               (if length es < 4 then None
                else case hex_number 0 (take 4 es) of
                  None \<Rightarrow> None
                | Some n \<Rightarrow>
                    if 256 \<le> n then None
                    else map_option (apfst (Cons (char_of n))) (scan_string (drop 4 es)))
             else (case unescape e of
                 None \<Rightarrow> None
               | Some ch \<Rightarrow> map_option (apfst (Cons ch)) (scan_string es)))
      else if (of_char c :: nat) < 32 then None
      else map_option (apfst (Cons c)) (scan_string cs))"

declare scan_string.simps(2) [simp del]

definition scan_fraction :: "string \<Rightarrow> string \<times> string" where
  "scan_fraction s =
     (case s of
        c # q \<Rightarrow>
          if c = CHR ''.'' \<and> takeWhile is_digit q \<noteq> []
          then (CHR ''.'' # takeWhile is_digit q, dropWhile is_digit q) else ([], s)
      | [] \<Rightarrow> ([], []))"

definition scan_exponent :: "string \<Rightarrow> string \<times> string" where
  "scan_exponent s =
     (case s of
        c # q \<Rightarrow>
          (let sign = (case q of d # _ \<Rightarrow> if d = CHR ''+'' \<or> d = CHR ''-'' then [d] else [] | [] \<Rightarrow> []);
               ds = takeWhile is_digit (drop (length sign) q)
           in if (c = CHR ''e'' \<or> c = CHR ''E'') \<and> ds \<noteq> []
              then (c # sign @ ds, drop (length sign + length ds) q) else ([], s))
      | [] \<Rightarrow> ([], []))"

definition scan_number :: "string \<Rightarrow> (json \<times> string) option" where
  "scan_number s =
     (let neg = (case s of c # _ \<Rightarrow> c = CHR ''-'' | [] \<Rightarrow> False);
          body = (if neg then tl s else s);
          ds = takeWhile is_digit body
      in if ds = [] then None
         else
           let ip = (if hd ds = CHR ''0'' then ''0'' else ds);
               (fp, r1) = scan_fraction (drop (length ip) body);
               (ex, r2) = scan_exponent r1
           in if fp = [] \<and> ex = [] then Some (JInt (signed neg (read_nat ip)), r2)
              else Some (JFloat ((if neg then ''-'' else []) @ ip @ fp @ ex), r2))"

definition strip_prefix :: "string \<Rightarrow> string \<Rightarrow> string option" where
  "strip_prefix p s = (if take (length p) s = p then Some (drop (length p) s) else None)"

definition scan_literal :: "string \<Rightarrow> (json \<times> string) option" where
  "scan_literal s =
     fold (\<lambda>(t, v) found. case found of Some _ \<Rightarrow> found | None \<Rightarrow> map_option (Pair v) (strip_prefix t s))
       [(''null'', JNull), (''true'', JBool True), (''false'', JBool False), (''NaN'', JFloat ''NaN''),
        (''Infinity'', JFloat ''Infinity''), (''-Infinity'', JFloat ''-Infinity'')] None"

text \<open>A repeated key keeps the place of its first occurrence and takes the last value.\<close>

definition obj_put :: "string \<Rightarrow> json \<Rightarrow> (string \<times> json) list \<Rightarrow> (string \<times> json) list" where
  "obj_put k v ms =
     (if k \<in> fst ` set ms then map (\<lambda>m. if fst m = k then (k, v) else m) ms else ms @ [(k, v)])"

text \<open>
  The reader recurses on the text that is left, so the length of the text plus one is enough fuel.
\<close>

fun parse_value :: "nat \<Rightarrow> string \<Rightarrow> (json \<times> string) option"
  and parse_members :: "nat \<Rightarrow> (string \<times> json) list \<Rightarrow> string \<Rightarrow> (json \<times> string) option"
  and parse_elements :: "nat \<Rightarrow> json list \<Rightarrow> string \<Rightarrow> (json \<times> string) option" where
  "parse_value 0 s = None"
| "parse_value (Suc k) s =
     (case s of
        [] \<Rightarrow> None
      | c # cs \<Rightarrow>
          if c = dquote then map_option (\<lambda>(t, r). (JStr t, r)) (scan_string cs)
          else if c = CHR ''{'' then
            (case skip_ws cs of
               [] \<Rightarrow> None
             | d # r \<Rightarrow> if d = CHR ''}'' then Some (JObj [], r) else parse_members k [] (d # r))
          else if c = CHR ''['' then
            (case skip_ws cs of
               [] \<Rightarrow> None
             | d # r \<Rightarrow> if d = CHR '']'' then Some (JArr [], r) else parse_elements k [] (d # r))
          else (case scan_literal s of Some res \<Rightarrow> Some res | None \<Rightarrow> scan_number s))"
| "parse_members 0 acc s = None"
| "parse_members (Suc k) acc s =
     (case s of
        [] \<Rightarrow> None
      | c # cs \<Rightarrow>
          if c \<noteq> dquote then None
          else (case scan_string cs of
              None \<Rightarrow> None
            | Some (key, r) \<Rightarrow>
                (case skip_ws r of
                   [] \<Rightarrow> None
                 | c1 # r1 \<Rightarrow>
                     if c1 \<noteq> CHR '':'' then None
                     else (case parse_value k (skip_ws r1) of
                         None \<Rightarrow> None
                       | Some (v, r2) \<Rightarrow>
                           (case skip_ws r2 of
                              [] \<Rightarrow> None
                            | c3 # r3 \<Rightarrow>
                                if c3 = CHR ''}'' then Some (JObj (obj_put key v acc), r3)
                                else if c3 = CHR '','' then parse_members k (obj_put key v acc) (skip_ws r3)
                                else None)))))"
| "parse_elements 0 acc s = None"
| "parse_elements (Suc k) acc s =
     (case parse_value k s of
        None \<Rightarrow> None
      | Some (v, r) \<Rightarrow>
          (case skip_ws r of
             [] \<Rightarrow> None
           | c # r1 \<Rightarrow>
               if c = CHR '']'' then Some (JArr (acc @ [v]), r1)
               else if c = CHR '','' then parse_elements k (acc @ [v]) (skip_ws r1)
               else None))"

declare parse_value.simps(2) [simp del] parse_members.simps(2) [simp del] parse_elements.simps(2) [simp del]

definition loads :: "string \<Rightarrow> json option" where
  "loads s =
     (case parse_value (Suc (length s)) (skip_ws s) of
        Some (v, r) \<Rightarrow> if skip_ws r = [] then Some v else None
      | None \<Rightarrow> None)"

section \<open>The round trip\<close>

lemma hex_value_digit: "n < 16 \<Longrightarrow> hex_value (hex_digit n) = Some n"
  by (auto simp: hex_value_def hex_digit_def Let_def of_char_of)

lemma hex_value_zero [simp]: "hex_value CHR ''0'' = Some 0"
  by (simp add: hex_value_def)

lemma of_char_less_256: "(of_char ch :: nat) < 256"
  using nat_of_char_less_256 by simp

lemma hex_number_escape:
  "hex_number 0 [CHR ''0'', CHR ''0'', hex_digit (of_char ch div 16), hex_digit (of_char ch mod 16)] = Some (of_char ch)"
proof -
  have "of_char ch div 16 < (16 :: nat)" "of_char ch mod 16 < (16 :: nat)"
    using of_char_less_256[of ch] by (simp_all add: less_mult_imp_div_less)
  then show ?thesis by (simp add: hex_value_digit)
qed

declare hex_number.simps [simp del]

lemma special_chars: "char_of (34 :: nat) = dquote" "char_of (92 :: nat) = backslash"
  by code_simp+

lemma scan_plain:
  assumes "c \<noteq> dquote" "c \<noteq> backslash" "\<not> (of_char c :: nat) < 32"
  shows "scan_string (c # t) = map_option (apfst (Cons c)) (scan_string t)"
  using assms by (simp add: scan_string.simps(2))

lemma scan_simple_escape:
  assumes "unescape e = Some ch" and "e \<noteq> CHR ''u''"
  shows "scan_string (backslash # e # t) = map_option (apfst (Cons ch)) (scan_string t)"
  using assms by (simp add: scan_string.simps(2))

lemma scan_hex_escape:
  "scan_string (backslash # ''u00'' @ [hex_digit (of_char ch div 16), hex_digit (of_char ch mod 16)] @ t) =
     map_option (apfst (Cons ch)) (scan_string t)"
proof -
  have "\<not> 256 \<le> (of_char ch :: nat)" using of_char_less_256[of ch] by (metis not_le)
  then show ?thesis by (simp add: scan_string.simps(2) hex_number_escape)
qed

lemma scan_esc_char: "scan_string (esc_char ascii ch @ t) = map_option (apfst (Cons ch)) (scan_string t)"
proof -
  let ?n = "of_char ch :: nat"
  consider "?n \<in> {34, 92, 8, 9, 10, 12, 13}" | "?n \<notin> {34, 92, 8, 9, 10, 12, 13}" "32 \<le> ?n \<and> (?n \<le> 126 \<or> \<not> ascii)"
    | "?n \<notin> {34, 92, 8, 9, 10, 12, 13}" "\<not> (32 \<le> ?n \<and> (?n \<le> 126 \<or> \<not> ascii))" by blast
  then show ?thesis
  proof cases
    case 1
    obtain n :: nat where "ch = char_of n" "n \<in> {34, 92, 8, 9, 10, 12, 13}"
      using 1 char_of_char[of ch, symmetric] by blast
    then have "\<exists>e. esc_char ascii ch = [backslash, e] \<and> unescape e = Some ch \<and> e \<noteq> CHR ''u''"
      by (elim insertE emptyE) (simp_all add: esc_char_def unescape_def Let_def special_chars)
    then obtain e where "esc_char ascii ch = [backslash, e]" "unescape e = Some ch" "e \<noteq> CHR ''u''" by blast
    then show ?thesis using scan_simple_escape[of e ch t] by simp
  next
    case 2
    then have "esc_char ascii ch = [ch]" by (simp add: esc_char_def Let_def)
    moreover have "ch \<noteq> dquote" "ch \<noteq> backslash" using 2(1) by auto
    ultimately show ?thesis using scan_plain[of ch t] 2(2) by simp
  next
    case 3
    then have "esc_char ascii ch = backslash # ''u00'' @ [hex_digit (?n div 16), hex_digit (?n mod 16)]"
      by (simp add: esc_char_def Let_def)
    then show ?thesis using scan_hex_escape[of ch t] by simp
  qed
qed

lemma scan_string_text: "scan_string (concat (map (esc_char ascii) s) @ dquote # r) = Some (s, r)"
proof (induction s)
  case Nil
  show ?case by (simp add: scan_string.simps(2))
next
  case (Cons c s)
  then show ?case by (simp add: scan_esc_char)
qed

text \<open>What may follow a scalar without changing how it reads.\<close>

definition stops_number :: "string \<Rightarrow> bool" where
  "stops_number r \<longleftrightarrow> r = [] \<or> is_json_space (hd r) \<or> hd r \<in> set '',}]''"

lemma stops_number_Cons:
  assumes "stops_number (c # r)"
  shows "c \<noteq> CHR ''.''" "c \<noteq> CHR ''e''" "c \<noteq> CHR ''E''" "\<not> is_digit c"
proof -
  have "(of_char c :: nat) \<in> {9, 10, 13, 32, 44, 93, 125}" using assms by (auto simp: stops_number_def is_json_space_def)
  then show "c \<noteq> CHR ''.''" "c \<noteq> CHR ''e''" "c \<noteq> CHR ''E''" "\<not> is_digit c" by (auto simp: is_digit_def)
qed

lemma show_nat_leading_zero: "hd (show_nat n) = CHR ''0'' \<Longrightarrow> show_nat n = ''0''"
proof (induction n rule: show_nat.induct)
  case (1 n)
  show ?case
  proof (cases "n < 10")
    case True
    then have "show_nat n = [char_of (48 + n)]" by (subst show_nat.simps) simp
    then show ?thesis using "1.prems" by simp
  next
    case False
    have eq: "show_nat n = show_nat (n div 10) @ [char_of (48 + n mod 10)]"
      by (subst show_nat.simps) (simp add: False)
    then have "show_nat (n div 10) = ''0''" using "1.IH"[OF False] "1.prems" by simp
    then have "n div 10 = 0" using read_nat_show[of "n div 10"] by (simp add: read_nat_def digit_value_def)
    then show ?thesis using False by simp
  qed
qed

lemma leading_zero: "hd (show_nat n) = CHR ''0'' \<Longrightarrow> n = 0"
  using show_nat_leading_zero[of n] read_nat_show[of n] by (simp add: read_nat_def digit_value_def)

lemma read_nat_0: "read_nat ''0'' = 0"
  by (simp add: read_nat_def digit_value_def)

lemma show_int_nonempty [simp]: "show_int i \<noteq> []"
  by (simp add: show_int_def)

lemma scan_number_tail:
  assumes "stops_number r"
  shows "scan_fraction r = ([], r)" "scan_exponent r = ([], r)" "r = [] \<or> \<not> is_digit (hd r)"
  using assms by (cases r; auto simp: scan_fraction_def scan_exponent_def Let_def dest: stops_number_Cons)+

text \<open>A number that was read reads the same before any text that leaves its end recognisable.\<close>

lemma takeWhile_extend:
  assumes "dropWhile P s @ t = [] \<or> \<not> P (hd (dropWhile P s @ t))"
  shows "takeWhile P (s @ t) = takeWhile P s" "dropWhile P (s @ t) = dropWhile P s @ t"
  using assms by (induction s) (cases t; auto split: if_splits)+

lemma drop_takeWhile: "drop (length (takeWhile P s)) s = dropWhile P s"
  by (simp add: dropWhile_eq_drop)

lemma scan_exponent_extend:
  assumes "scan_exponent s = (ex, r)" and "stops_number (r @ t)"
  shows "scan_exponent (s @ t) = (ex, r @ t)"
proof (cases s)
  case Nil
  then show ?thesis using assms scan_number_tail(2)[of t] by (auto simp: scan_exponent_def)
next
  case (Cons c q)
  define sign where "sign = (case q of d # _ \<Rightarrow> if d = CHR ''+'' \<or> d = CHR ''-'' then [d] else [] | [] \<Rightarrow> [])"
  define b where "b = drop (length sign) q"
  show ?thesis
  proof (cases "(c = CHR ''e'' \<or> c = CHR ''E'') \<and> takeWhile is_digit b \<noteq> []")
    case True
    then have q: "q \<noteq> []" by (auto simp: b_def)
    then have sign: "(case q @ t of d # _ \<Rightarrow> if d = CHR ''+'' \<or> d = CHR ''-'' then [d] else [] | [] \<Rightarrow> []) = sign"
      and b: "drop (length sign) (q @ t) = b @ t"
      by (cases q; auto simp: sign_def b_def)+
    have "drop (length sign + length (takeWhile is_digit b)) q = dropWhile is_digit b"
      using drop_takeWhile[of is_digit b] drop_drop[of "length (takeWhile is_digit b)" "length sign" q]
      by (simp add: b_def add.commute)
    then have r: "ex = c # sign @ takeWhile is_digit b" "r = dropWhile is_digit b"
      using assms(1) True unfolding Cons scan_exponent_def by (auto simp: Let_def simp flip: sign_def b_def)
    then have "dropWhile is_digit b @ t = [] \<or> \<not> is_digit (hd (dropWhile is_digit b @ t))"
      using scan_number_tail(3)[OF assms(2)] by simp
    note ext = takeWhile_extend[OF this]
    have "drop (length sign + length (takeWhile is_digit b)) (q @ t) = dropWhile is_digit (b @ t)"
      using drop_takeWhile[of is_digit "b @ t"] drop_drop[of "length (takeWhile is_digit b)" "length sign" "q @ t"]
      by (simp only: ext b add.commute)
    then show ?thesis using True r ext by (simp add: Cons scan_exponent_def Let_def sign b del: drop_append)
  next
    case False
    then have r: "ex = []" "r = s"
      using assms(1) unfolding Cons scan_exponent_def by (auto simp: Let_def simp flip: sign_def b_def)
    then show ?thesis using scan_number_tail(2)[OF assms(2)] by simp
  qed
qed

text \<open>The text after a fraction starts with an exponent or ends the number.\<close>

lemma scan_exponent_start:
  assumes "scan_exponent s = (ex, r)" and "stops_number (r @ t)"
  shows "s @ t = [] \<or> \<not> is_digit (hd (s @ t)) \<and> hd (s @ t) \<noteq> CHR ''.''"
proof (cases "ex = []")
  case True
  then have "r = s" using assms(1) by (cases s) (auto simp: scan_exponent_def Let_def split: if_splits)
  then show ?thesis using assms(2) by (cases "s @ t") (auto dest: stops_number_Cons)
next
  case False
  then obtain c q where "s = c # q" "c = CHR ''e'' \<or> c = CHR ''E''"
    using assms(1) by (cases s) (auto simp: scan_exponent_def Let_def split: if_splits)
  then show ?thesis by auto
qed

lemma scan_fraction_extend:
  assumes "scan_fraction s = (fp, r)" and "r @ t = [] \<or> \<not> is_digit (hd (r @ t)) \<and> hd (r @ t) \<noteq> CHR ''.''"
  shows "scan_fraction (s @ t) = (fp, r @ t)" "s @ t = [] \<or> \<not> is_digit (hd (s @ t))"
proof -
  have *: "scan_fraction (s @ t) = (fp, r @ t) \<and> (s @ t = [] \<or> \<not> is_digit (hd (s @ t)))"
  proof (cases "\<exists>q. s = CHR ''.'' # q \<and> takeWhile is_digit q \<noteq> []")
    case True
    then obtain q where q: "s = CHR ''.'' # q" "takeWhile is_digit q \<noteq> []" by blast
    then have "r = dropWhile is_digit q" "fp = CHR ''.'' # takeWhile is_digit q"
      using assms(1) by (auto simp: scan_fraction_def)
    then show ?thesis using assms(2) q takeWhile_extend[of is_digit q t] by (auto simp: scan_fraction_def)
  next
    case False
    then have "fp = []" "r = s" using assms(1) by (cases s; auto simp: scan_fraction_def split: if_splits)+
    then show ?thesis using assms(2) by (cases "s @ t") (auto simp: scan_fraction_def)
  qed
  then show "scan_fraction (s @ t) = (fp, r @ t)" "s @ t = [] \<or> \<not> is_digit (hd (s @ t))" by blast+
qed

definition number_parts :: "string \<Rightarrow> string \<times> string \<times> string \<times> string" where
  "number_parts body =
     (let ds = takeWhile is_digit body;
          ip = (if hd ds = CHR ''0'' then ''0'' else ds);
          (fp, r1) = scan_fraction (drop (length ip) body);
          (ex, r2) = scan_exponent r1
      in (ip, fp, ex, r2))"

lemma number_parts_extend:
  assumes "number_parts body = (ip, fp, ex, r)" and "takeWhile is_digit body \<noteq> []" and "stops_number (r @ t)"
  shows "number_parts (body @ t) = (ip, fp, ex, r @ t)"
proof -
  define ds where "ds = takeWhile is_digit body"
  obtain r1 where r1: "scan_fraction (drop (length ip) body) = (fp, r1)" "scan_exponent r1 = (ex, r)"
    and ip: "ip = (if hd ds = CHR ''0'' then ''0'' else ds)"
    using assms(1) unfolding number_parts_def ds_def[symmetric] Let_def by (auto split: prod.splits)
  have "scan_exponent (r1 @ t) = (ex, r @ t)" using scan_exponent_extend[OF r1(2) assms(3)] .
  moreover note start = scan_exponent_start[OF r1(2) assms(3)]
  note frac = scan_fraction_extend[OF r1(1) start]
  have len: "length ip \<le> length ds" "length ds \<le> length body"
    using assms(2) ip length_takeWhile_le[of is_digit body] by (cases ds; auto simp: ds_def)+
  obtain c q where "body = c # q" "is_digit c" using assms(2) by (cases body) (auto split: if_splits)
  then have "hd (takeWhile is_digit (body @ t)) = hd ds" by (simp add: ds_def)
  moreover have "takeWhile is_digit (body @ t) = ds" if "hd ds \<noteq> CHR ''0''"
  proof -
    have "drop (length ip) body = dropWhile is_digit body" using that ip drop_takeWhile[of is_digit body] by (simp add: ds_def)
    then show ?thesis using frac(2) takeWhile_extend(1)[of is_digit body t] by (simp only: ds_def)
  qed
  ultimately have "(if hd (takeWhile is_digit (body @ t)) = CHR ''0'' then ''0'' else takeWhile is_digit (body @ t)) = ip"
    using ip by simp
  moreover have "drop (length ip) (body @ t) = drop (length ip) body @ t" using len by simp
  ultimately show ?thesis using frac(1) \<open>scan_exponent (r1 @ t) = (ex, r @ t)\<close>
    by (simp add: number_parts_def Let_def)
qed

lemma scan_number_parts:
  "scan_number s =
     (let neg = (case s of c # _ \<Rightarrow> c = CHR ''-'' | [] \<Rightarrow> False); body = (if neg then tl s else s)
      in if takeWhile is_digit body = [] then None
         else case number_parts body of (ip, fp, ex, r) \<Rightarrow>
           if fp = [] \<and> ex = [] then Some (JInt (signed neg (read_nat ip)), r)
           else Some (JFloat ((if neg then ''-'' else []) @ ip @ fp @ ex), r))"
  by (simp add: scan_number_def number_parts_def Let_def case_prod_beta)

lemma scan_number_extend:
  assumes "scan_number s = Some (v, r)" and "stops_number (r @ t)"
  shows "scan_number (s @ t) = Some (v, r @ t)"
proof -
  define neg where "neg = (case s of c # _ \<Rightarrow> c = CHR ''-'' | [] \<Rightarrow> False)"
  define body where "body = (if neg then tl s else s)"
  have ne: "takeWhile is_digit body \<noteq> []"
    using assms(1) by (auto simp: scan_number_parts Let_def body_def neg_def split: if_splits)
  then have s: "s \<noteq> []" by (auto simp: body_def split: if_splits)
  then have neg': "(case s @ t of c # _ \<Rightarrow> c = CHR ''-'' | [] \<Rightarrow> False) = neg"
    and body': "(if neg then tl (s @ t) else s @ t) = body @ t" by (cases s; auto simp: neg_def body_def)+
  obtain ip fp ex r' where p: "number_parts body = (ip, fp, ex, r')" by (cases "number_parts body")
  then have "r' = r" "v = (if fp = [] \<and> ex = [] then JInt (signed neg (read_nat ip))
        else JFloat ((if neg then ''-'' else []) @ ip @ fp @ ex))"
    using assms(1) ne unfolding scan_number_parts neg_def[symmetric] Let_def body_def[symmetric] by (auto split: if_splits)
  moreover have "number_parts (body @ t) = (ip, fp, ex, r @ t)"
    using number_parts_extend[OF p ne] assms(2) \<open>r' = r\<close> by simp
  moreover have "takeWhile is_digit (body @ t) \<noteq> []" using ne by (cases body) (simp_all split: if_splits)
  ultimately show ?thesis unfolding scan_number_parts neg' Let_def body' by simp
qed

lemma scan_number_nat:
  assumes "stops_number r" and "body = show_nat n @ r"
  shows "takeWhile is_digit body = show_nat n" "drop (length (show_nat n)) body = r"
    "(if hd (show_nat n) = CHR ''0'' then ''0'' else show_nat n) = show_nat n"
  using assms takeWhile_digits(1)[OF show_nat_digits scan_number_tail(3)[OF assms(1)]] show_nat_leading_zero[of n] by auto

lemma show_nat_hd: "is_digit (hd (show_nat n))"
  using show_nat_digits[of n] show_nat_nonempty[of n] by (cases "show_nat n") auto

lemma scan_number_int:
  assumes "stops_number r"
  shows "scan_number (show_int i @ r) = Some (JInt i, r)"
proof -
  define n where "n = nat \<bar>i\<bar>"
  define body where "body = show_nat n @ r"
  have parts: "takeWhile is_digit body = show_nat n" "drop (length (show_nat n)) body = r"
      "(if hd (show_nat n) = CHR ''0'' then ''0'' else show_nat n) = show_nat n"
    using scan_number_nat[OF assms body_def] by simp_all
  obtain d ds where d: "show_nat n = d # ds" "is_digit d" using show_nat_hd[of n] by (cases "show_nat n") auto
  have "show_int i @ r = (if i < 0 then CHR ''-'' # body else body)"
    by (simp add: show_int_def n_def body_def)
  moreover have "(case body of c # _ \<Rightarrow> c = CHR ''-'' | [] \<Rightarrow> False) = False"
    using d by (auto simp: body_def)
  moreover have "signed (i < 0) (read_nat (show_nat n)) = i" by (simp add: signed_def n_def)
  ultimately show ?thesis
    using parts scan_number_tail(1,2)[OF assms] show_nat_leading_zero[of n] leading_zero[of n]
    by (cases "i < 0"; cases "hd (show_nat n) = CHR ''0''") (simp_all add: scan_number_def Let_def read_nat_0)
qed

text \<open>The values that a flat object holds; the text of a float is one that the reader takes for a float.\<close>

fun scalar :: "json \<Rightarrow> bool" where
  "scalar (JArr _) = False"
| "scalar (JObj _) = False"
| "scalar (JFloat t) = (scan_number t = Some (JFloat t, []))"
| "scalar _ = True"

lemma strip_prefix_simps [simp]:
  "strip_prefix [] r = Some r" "strip_prefix (c # p) [] = None"
  "strip_prefix (c # p) (d # r) = (if c = d then strip_prefix p r else None)"
  by (auto simp: strip_prefix_def)

lemma scan_literal_digit:
  assumes "is_digit d"
  shows "scan_literal (d # r) = None" "scan_literal (CHR ''-'' # d # r) = None"
proof -
  have "CHR ''n'' \<noteq> d" "CHR ''t'' \<noteq> d" "CHR ''f'' \<noteq> d" "CHR ''N'' \<noteq> d" "CHR ''I'' \<noteq> d" "CHR ''-'' \<noteq> d"
    using assms by (auto simp: is_digit_def)
  then show "scan_literal (d # r) = None" "scan_literal (CHR ''-'' # d # r) = None"
    by (simp_all add: scan_literal_def)
qed

lemma scan_literal_show_int: "scan_literal (show_int i @ r) = None"
proof -
  obtain d ds where d: "show_nat (nat \<bar>i\<bar>) = d # ds" "is_digit d"
    using show_nat_hd[of "nat \<bar>i\<bar>"] by (cases "show_nat (nat \<bar>i\<bar>)") auto
  then show ?thesis
    by (cases "i < 0") (simp_all add: show_int_def scan_literal_digit)
qed

lemma show_int_start: "show_int i @ r = c # cs \<Longrightarrow> c \<noteq> dquote \<and> c \<noteq> CHR ''{'' \<and> c \<noteq> CHR ''[''"
proof -
  assume a: "show_int i @ r = c # cs"
  obtain d ds where d: "show_nat (nat \<bar>i\<bar>) = d # ds" "is_digit d"
    using show_nat_hd[of "nat \<bar>i\<bar>"] by (cases "show_nat (nat \<bar>i\<bar>)") auto
  then have "c = CHR ''-'' \<or> c = d" using a by (cases "i < 0") (auto simp: show_int_def)
  then show ?thesis using d(2) by (auto simp: is_digit_def)
qed

lemma scan_number_start:
  assumes "scan_number s = Some x"
  obtains d q where "is_digit d" "s = d # q \<or> s = CHR ''-'' # d # q"
proof -
  have "\<exists>d q. is_digit d \<and> (s = d # q \<or> s = CHR ''-'' # d # q)"
    using assms unfolding scan_number_parts Let_def
    by (cases s; cases "tl s") (auto split: if_splits)
  then show ?thesis using that by blast
qed

lemma scan_number_value:
  assumes "scan_number s = Some x"
  shows "parse_value (Suc k) s = scan_number s" "skip_ws (s @ r) = s @ r"
proof -
  obtain d q where d: "is_digit d" "s = d # q \<or> s = CHR ''-'' # d # q" using assms by (rule scan_number_start)
  then have "d \<noteq> dquote" "d \<noteq> CHR ''{''" "d \<noteq> CHR ''[''" "\<not> is_json_space d"
    by (auto simp: is_digit_def is_json_space_def)
  then show "parse_value (Suc k) s = scan_number s" "skip_ws (s @ r) = s @ r"
    using d scan_literal_digit[OF d(1), of q] by (auto simp: parse_value.simps(2) skip_ws_def is_json_space_def)
qed

lemma parse_value_scalar:
  assumes "scalar v" and "stops_number r"
  shows "parse_value (Suc k) (scalar_text ascii v @ r) = Some (v, r)"
proof (cases v)
  case JNull
  then show ?thesis by (simp add: parse_value.simps(2) scan_literal_def)
next
  case (JBool b)
  then show ?thesis by (cases b) (simp_all add: parse_value.simps(2) scan_literal_def)
next
  case (JInt i)
  obtain c cs where c: "show_int i @ r = c # cs" by (cases "show_int i @ r") auto
  have "parse_value (Suc k) (show_int i @ r) = scan_number (show_int i @ r)"
    using show_int_start[OF c] scan_literal_show_int[of i r] unfolding c by (simp add: parse_value.simps(2))
  then show ?thesis using JInt scan_number_int[OF assms(2)] by simp
next
  case (JStr s)
  then show ?thesis by (simp add: parse_value.simps(2) json_string_def scan_string_text)
next
  case (JFloat t)
  then have "scan_number (t @ r) = Some (JFloat t, r)" using assms scan_number_extend[of t "JFloat t" "[]" r] by simp
  then show ?thesis using JFloat scan_number_value(1)[of "t @ r"] by simp
qed (use assms(1) in auto)

text \<open>A separator is a comma or a colon, with or without one space.\<close>

lemma scalar_text_no_space: "scalar v \<Longrightarrow> skip_ws (scalar_text ascii v @ r) = scalar_text ascii v @ r"
proof (cases v)
  case (JInt i)
  obtain d ds where d: "show_nat (nat \<bar>i\<bar>) = d # ds" "is_digit d"
    using show_nat_hd[of "nat \<bar>i\<bar>"] by (cases "show_nat (nat \<bar>i\<bar>)") auto
  then have "\<not> is_json_space d" by (auto simp: is_digit_def is_json_space_def)
  then show ?thesis using JInt d by (cases "i < 0") (simp_all add: show_int_def skip_ws_def is_json_space_def)
next
  case (JFloat t)
  assume "scalar v"
  then show ?thesis using JFloat scan_number_value(2)[of t] by simp
qed (auto simp: skip_ws_def json_string_def is_json_space_def)

lemma skip_ws_simps [simp]:
  "skip_ws (CHR '','' # r) = CHR '','' # r" "skip_ws (CHR '':'' # r) = CHR '':'' # r" "skip_ws (CHR ''}'' # r) = CHR ''}'' # r"
  "skip_ws (dquote # r) = dquote # r" "skip_ws (CHR ''{'' # r) = CHR ''{'' # r" "skip_ws (CHR '' '' # r) = skip_ws r" "skip_ws [] = []"
  by (simp_all add: skip_ws_def is_json_space_def)

definition separators :: "string \<Rightarrow> string \<Rightarrow> bool" where
  "separators item_sep key_sep \<longleftrightarrow> item_sep \<in> {'','', '', ''} \<and> key_sep \<in> {'':'', '': ''}"

lemma stops_number_simps [simp]: "stops_number (CHR ''}'' # r)" "stops_number (CHR '','' # r)"
  by (simp_all add: stops_number_def)

lemma parse_member:
  assumes "separators item_sep key_sep" and "scalar v" and "stops_number r"
    and "skip_ws r = c # q" and "c = CHR ''}'' \<or> c = CHR '',''"
  shows "parse_members (Suc (Suc k)) acc (member_text ascii key_sep (key, v) @ r) =
    (if c = CHR ''}'' then Some (JObj (obj_put key v acc), q)
     else parse_members (Suc k) (obj_put key v acc) (skip_ws q))"
proof -
  let ?v = "scalar_text ascii v @ r"
  have "skip_ws (key_sep @ ?v) = CHR '':'' # drop 1 (key_sep @ ?v)" "skip_ws (drop 1 (key_sep @ ?v)) = ?v"
    using assms(1) scalar_text_no_space[OF assms(2)] by (auto simp: separators_def)
  then show ?thesis
    using assms(4,5) parse_value_scalar[OF assms(2,3), of k ascii]
    by (auto simp: parse_members.simps(2) member_text_def json_string_def scan_string_text)
qed

lemma parse_members_text:
  assumes "separators item_sep key_sep" and "ms \<noteq> []" and "list_all (\<lambda>m. scalar (snd m)) ms"
    and "distinct (map fst (acc @ ms))"
  shows "parse_members (Suc (length ms)) acc (members_text ascii item_sep key_sep ms @ CHR ''}'' # r) =
    Some (JObj (acc @ ms), r)"
  using assms(2-4)
proof (induction ms arbitrary: acc)
  case (Cons m ms)
  obtain key v where m: "m = (key, v)" by (cases m)
  have put: "obj_put key v acc = acc @ [m]" using Cons.prems(3) m by (auto simp: obj_put_def)
  have sc: "scalar v" using Cons.prems(2) m by simp
  show ?case
  proof (cases ms)
    case Nil
    then show ?thesis
      using parse_member[OF assms(1) sc, of "CHR ''}'' # r" "CHR ''}''" r 0 acc ascii key] put m by simp
  next
    case (Cons m' ms')
    let ?rest = "members_text ascii item_sep key_sep ms @ CHR ''}'' # r"
    have sep: "stops_number (item_sep @ ?rest)" "skip_ws (item_sep @ ?rest) = CHR '','' # drop 1 (item_sep @ ?rest)"
      using assms(1) by (auto simp: separators_def)
    have start: "skip_ws (drop 1 (item_sep @ ?rest)) = ?rest"
      using assms(1) Cons by (cases ms') (auto simp: separators_def member_text_def json_string_def)
    have shape: "members_text ascii item_sep key_sep (m # ms) @ CHR ''}'' # r = member_text ascii key_sep m @ item_sep @ ?rest"
      using Cons by simp
    have "parse_members (Suc (length ms)) (acc @ [m]) ?rest = Some (JObj ((acc @ [m]) @ ms), r)"
      using Cons.prems local.Cons by (intro Cons.IH) auto
    then show ?thesis
      using parse_member[OF assms(1) sc sep(1) sep(2), of "Suc (length ms')" acc ascii key] put m start
      unfolding shape local.Cons by simp
  qed
qed simp

text \<open>More fuel does not change a result.\<close>

lemma parse_more_fuel:
  "parse_value k s = Some x \<Longrightarrow> parse_value (k + j) s = Some x"
  "parse_members k acc s = Some x \<Longrightarrow> parse_members (k + j) acc s = Some x"
  "parse_elements k el s = Some x \<Longrightarrow> parse_elements (k + j) el s = Some x"
proof (induction k s and k acc s and k el s arbitrary: x and x and x rule: parse_value_parse_members_parse_elements.induct)
  case (2 k s)
  then show ?case by (cases x) (auto simp: parse_value.simps(2) split: list.splits if_splits option.splits)
next
  case (4 k acc s)
  then show ?case
    by (cases x) (auto simp: parse_members.simps(2) split: list.splits if_splits option.splits prod.splits)
next
  case (6 k el s)
  then show ?case
    by (cases x) (auto simp: parse_elements.simps(2) split: list.splits if_splits option.splits prod.splits)
qed simp_all

lemma members_text_length: "length ms \<le> length (members_text ascii item_sep key_sep ms)"
proof (induction ascii item_sep key_sep ms rule: members_text.induct)
qed (simp_all add: member_text_def json_string_def)

text \<open>Reading back what was written, in either separator style and either escape mode.\<close>

lemma loads_dumps_object:
  assumes "separators item_sep key_sep" and "list_all (\<lambda>m. scalar (snd m)) ms" and "distinct (map fst ms)"
  shows "loads (dumps_object ascii item_sep key_sep ms) = Some (JObj ms)"
proof -
  let ?t = "members_text ascii item_sep key_sep ms"
  have "parse_value (Suc (length (dumps_object ascii item_sep key_sep ms))) (''{'' @ ?t @ ''}'') = Some (JObj ms, [])"
  proof (cases "ms = []")
    case True
    then show ?thesis by (simp add: parse_value.simps(2))
  next
    case False
    then obtain q where q: "?t @ ''}'' = dquote # q"
      by (cases ms; cases "tl ms") (auto simp: member_text_def json_string_def)
    have "parse_members (Suc (length ms)) [] (?t @ ''}'') = Some (JObj ([] @ ms), [])"
      using assms False by (intro parse_members_text) simp_all
    moreover obtain j where "length (dumps_object ascii item_sep key_sep ms) = Suc (length ms) + j"
    proof
      show "length (dumps_object ascii item_sep key_sep ms)
          = Suc (length ms) + (length (dumps_object ascii item_sep key_sep ms) - Suc (length ms))"
        using members_text_length[of ms ascii item_sep key_sep] by (simp add: dumps_object_def)
    qed
    ultimately have "parse_members (length (dumps_object ascii item_sep key_sep ms)) [] (?t @ ''}'') = Some (JObj ms, [])"
      using parse_more_fuel(2) by force
    then show ?thesis using q by (simp add: parse_value.simps(2))
  qed
  then show ?thesis by (simp add: loads_def dumps_object_def)
qed

section \<open>Truncated text\<close>

text \<open>
  What the reader has read it reads again when more text follows, so a text that reads as an object
  has no proper prefix that does.
\<close>

lemma scan_string_extend: "scan_string s = Some (x, r) \<Longrightarrow> scan_string (s @ t) = Some (x, r @ t)"
proof (induction s arbitrary: x r rule: scan_string.induct)
  case 1
  then show ?case by simp
next
  case (2 c cs)
  show ?case
  proof (cases "c = backslash \<and> c \<noteq> dquote")
    case True
    then obtain e es where e: "cs = e # es" using "2.prems" by (cases cs) (auto simp: scan_string.simps(2))
    show ?thesis using "2.prems" True e "2.IH"(1)[OF _ _ e] "2.IH"(2)[OF _ _ e]
      by (auto simp: scan_string.simps(2) split: if_splits option.splits)
  next
    case False
    then show ?thesis using "2.prems" "2.IH"(3) by (auto simp: scan_string.simps(2) split: if_splits option.splits)
  qed
qed

lemma skip_ws_extend: "skip_ws s = c # q \<Longrightarrow> skip_ws (s @ t) = c # q @ t"
  by (induction s) (auto simp: skip_ws_def split: if_splits)

lemma skip_ws_stops: "skip_ws r = c # q \<Longrightarrow> c \<in> set '',}]'' \<Longrightarrow> stops_number (r @ t)"
  by (cases r) (auto simp: skip_ws_def stops_number_def split: if_splits)

lemma literal_fold:
  "fold (\<lambda>(t, v) found. case found of Some _ \<Rightarrow> found | None \<Rightarrow> map_option (Pair v) (strip_prefix t s)) tbl found = Some x \<Longrightarrow>
     found = Some x \<or> (\<exists>(t, v) \<in> set tbl. map_option (Pair v) (strip_prefix t s) = Some x)"
proof (induction tbl arbitrary: found)
  case Nil
  then show ?case by simp
next
  case (Cons a tbl)
  obtain t v where a: "a = (t, v)" by (cases a)
  have "(case found of Some _ \<Rightarrow> found | None \<Rightarrow> map_option (Pair v) (strip_prefix t s)) = Some x
      \<or> (\<exists>(t, v) \<in> set tbl. map_option (Pair v) (strip_prefix t s) = Some x)"
    by (rule Cons.IH) (use Cons.prems a in simp)
  then show ?case unfolding a by (cases found) (simp_all del: map_option_eq_Some, blast)
qed

lemma strip_prefix_Some: "strip_prefix p s = Some r \<longleftrightarrow> s = p @ r"
  unfolding strip_prefix_def by (auto) (metis append_take_drop_id)

lemma scan_literal_extend:
  assumes "scan_literal s = Some (v, r)"
  shows "scan_literal (s @ t) = Some (v, r @ t)"
proof -
  obtain p where p: "(p, v) \<in> set [(''null'', JNull), (''true'', JBool True), (''false'', JBool False), (''NaN'', JFloat ''NaN''),
      (''Infinity'', JFloat ''Infinity''), (''-Infinity'', JFloat ''-Infinity'')]" and "s = p @ r"
    using literal_fold[OF assms[unfolded scan_literal_def]] by (fastforce simp only: strip_prefix_Some map_option_eq_Some option.distinct prod.inject)
  then have "p = ''null'' \<and> v = JNull \<or> p = ''true'' \<and> v = JBool True \<or> p = ''false'' \<and> v = JBool False
      \<or> p = ''NaN'' \<and> v = JFloat ''NaN'' \<or> p = ''Infinity'' \<and> v = JFloat ''Infinity'' \<or> p = ''-Infinity'' \<and> v = JFloat ''-Infinity''"
    by (simp only: list.set insert_iff empty_iff prod.inject simp_thms)
  then show ?thesis using \<open>s = p @ r\<close> by (elim disjE conjE; simp add: scan_literal_def)
qed

lemma parse_extend:
  "parse_value k s = Some (v, r) \<Longrightarrow> stops_number (r @ t) \<or> hd s \<in> {dquote, CHR ''{'', CHR ''[''} \<Longrightarrow>
     parse_value k (s @ t) = Some (v, r @ t)"
  "parse_members k acc s = Some (v, r) \<Longrightarrow> parse_members k acc (s @ t) = Some (v, r @ t)"
  "parse_elements k el s = Some (v, r) \<Longrightarrow> parse_elements k el (s @ t) = Some (v, r @ t)"
proof (induction k s and k acc s and k el s arbitrary: v r and v r and v r rule: parse_value_parse_members_parse_elements.induct)
  case (2 k s)
  then obtain c cs where s: "s = c # cs" by (cases s) (auto simp: parse_value.simps(2))
  consider "c = dquote" | "c = CHR ''{''" | "c = CHR ''[''" | "c \<notin> {dquote, CHR ''{'', CHR ''[''}" by blast
  then show ?case
  proof cases
    case 1
    then show ?thesis using "2.prems" s by (auto simp: parse_value.simps(2) dest: scan_string_extend)
  next
    case c: 2
    then obtain d q where d: "skip_ws cs = d # q"
      using "2.prems"(1) s by (cases "skip_ws cs") (auto simp: parse_value.simps(2))
    then show ?thesis using "2.prems"(1) s c skip_ws_extend[OF d, of t] "2.IH"(1)[OF s _ c d]
      by (auto simp: parse_value.simps(2) split: if_splits)
  next
    case c: 3
    then obtain d q where d: "skip_ws cs = d # q"
      using "2.prems"(1) s by (cases "skip_ws cs") (auto simp: parse_value.simps(2))
    then show ?thesis using "2.prems"(1) s c skip_ws_extend[OF d, of t] "2.IH"(2)[OF s _ _ c d]
      by (auto simp: parse_value.simps(2) split: if_splits)
  next
    case c: 4
    then have stop: "stops_number (r @ t)" using "2.prems"(2) s by auto
    have *: "(case scan_literal s of Some res \<Rightarrow> Some res | None \<Rightarrow> scan_number s) = Some (v, r)"
      using "2.prems"(1) c s by (auto simp: parse_value.simps(2))
    show ?thesis
    proof (cases "scan_literal s")
      case None
      then have "scan_number (s @ t) = Some (v, r @ t)" using * scan_number_extend stop by simp
      then show ?thesis using scan_number_value(1)[of "s @ t"] by simp
    next
      case (Some a)
      then show ?thesis using * c s scan_literal_extend[of s v r t] by (auto simp: parse_value.simps(2))
    qed
  qed
next
  case (4 k acc s)
  obtain cs key q1 r1 v2 r2 c3 r3 where p: "s = dquote # cs" "scan_string cs = Some (key, q1)" "skip_ws q1 = CHR '':'' # r1"
    "parse_value k (skip_ws r1) = Some (v2, r2)" "skip_ws r2 = c3 # r3"
    "if c3 = CHR ''}'' then Some (JObj (obj_put key v2 acc), r3) = Some (v, r)
     else c3 = CHR '','' \<and> parse_members k (obj_put key v2 acc) (skip_ws r3) = Some (v, r)"
    using "4.prems" by (auto simp: parse_members.simps(2) split: list.splits if_splits option.splits prod.splits)
  have stop: "stops_number (r2 @ t)" by (rule skip_ws_stops[OF p(5)]) (use p(6) in \<open>auto split: if_splits\<close>)
  obtain d q where d: "skip_ws r1 = d # q" using p(4) by (cases k; cases "skip_ws r1") (auto simp: parse_value.simps)
  have "parse_value k (skip_ws r1 @ t) = Some (v2, r2 @ t)"
    by (rule "4.IH"(1)) (use p stop in auto)
  then have v2: "parse_value k (skip_ws (r1 @ t)) = Some (v2, r2 @ t)" using skip_ws_extend[OF d, of t] d by simp
  note ext = scan_string_extend[OF p(2), of t] skip_ws_extend[OF p(3), of t] skip_ws_extend[OF p(5), of t] v2
  show ?case
  proof (cases "c3 = CHR ''}''")
    case True
    then show ?thesis using p ext by (simp add: parse_members.simps(2))
  next
    case False
    then have m: "parse_members k (obj_put key v2 acc) (skip_ws r3) = Some (v, r)" "c3 = CHR '',''" using p(6) by auto
    then obtain d' q' where d': "skip_ws r3 = d' # q'" by (cases k; cases "skip_ws r3") (auto simp: parse_members.simps)
    have "parse_members k (obj_put key v2 acc) (skip_ws r3 @ t) = Some (v, r @ t)"
      using "4.IH"(2)[OF p(1) _ p(2) refl p(3) _ p(4) refl p(5) False m(2) m(1)] by simp
    moreover have "skip_ws (r3 @ t) = skip_ws r3 @ t" using skip_ws_extend[OF d', of t] d' by simp
    ultimately show ?thesis using p(1) ext False m(2) by (simp add: parse_members.simps(2))
  qed
next
  case (6 k el s)
  obtain v2 r2 c3 r3 where p: "parse_value k s = Some (v2, r2)" "skip_ws r2 = c3 # r3"
    "if c3 = CHR '']'' then Some (JArr (el @ [v2]), r3) = Some (v, r)
     else c3 = CHR '','' \<and> parse_elements k (el @ [v2]) (skip_ws r3) = Some (v, r)"
    using "6.prems" by (auto simp: parse_elements.simps(2) split: list.splits if_splits option.splits prod.splits)
  have stop: "stops_number (r2 @ t)" by (rule skip_ws_stops[OF p(2)]) (use p(3) in \<open>auto split: if_splits\<close>)
  have "parse_value k (s @ t) = Some (v2, r2 @ t)" by (rule "6.IH"(1)) (use p stop in auto)
  note ext = this skip_ws_extend[OF p(2), of t]
  show ?case
  proof (cases "c3 = CHR '']''")
    case True
    then show ?thesis using p ext by (simp add: parse_elements.simps(2))
  next
    case False
    then have m: "parse_elements k (el @ [v2]) (skip_ws r3) = Some (v, r)" "c3 = CHR '',''" using p(3) by auto
    have "parse_value j [] = None" for j by (cases j) (simp_all add: parse_value.simps(2))
    then have "parse_elements k (el @ [v2]) [] = None" by (cases k) (simp_all add: parse_elements.simps(2))
    then have "skip_ws r3 \<noteq> []" using m(1) by auto
    then obtain d' q' where d': "skip_ws r3 = d' # q'" by (cases "skip_ws r3") auto
    have "parse_elements k (el @ [v2]) (skip_ws r3 @ t) = Some (v, r @ t)"
      using "6.IH"(2)[OF p(1) refl p(2) False m(2) m(1)] .
    moreover have "skip_ws (r3 @ t) = skip_ws r3 @ t" using skip_ws_extend[OF d', of t] d' by simp
    ultimately show ?thesis using ext False m(2) by (simp add: parse_elements.simps(2))
  qed
qed simp_all

text \<open>A proper prefix of the text of an object does not read as an object.\<close>

lemma parse_agree: "parse_value k s = Some x \<Longrightarrow> parse_value j s = Some y \<Longrightarrow> x = y"
  using parse_more_fuel(1)[of k s x j] parse_more_fuel(1)[of j s y k] by (simp add: add.commute)

lemma loads_prefix:
  assumes "loads (p @ t) = Some v" and "skip_ws (p @ t) = p @ t" and "hd (p @ t) = CHR ''{''"
    and "skip_ws t \<noteq> []"
  shows "loads p = None"
proof (rule ccontr)
  assume "loads p \<noteq> None"
  then obtain w r where w: "parse_value (Suc (length p)) (skip_ws p) = Some (w, r)" "skip_ws r = []"
    by (auto simp: loads_def split: option.splits if_splits)
  then obtain c q where c: "skip_ws p = c # q" by (cases "skip_ws p") (auto simp: parse_value.simps(2))
  have sp: "skip_ws p @ t = p @ t" using skip_ws_extend[OF c, of t] c assms(2) by simp
  then have "hd (skip_ws p) = CHR ''{''" using assms(3) c by (metis append_Cons list.sel(1))
  then have "parse_value (Suc (length p)) (p @ t) = Some (w, r @ t)"
    using parse_extend(1)[OF w(1), of t] sp by simp
  moreover obtain r' where "parse_value (Suc (length (p @ t))) (p @ t) = Some (v, r')" "skip_ws r' = []"
    using assms(1,2) by (auto simp: loads_def split: option.splits if_splits)
  ultimately have "skip_ws (r @ t) = []" using parse_agree by blast
  moreover have "skip_ws (r @ t) = skip_ws t" using w(2) by (induction r) (auto simp: skip_ws_def split: if_splits)
  ultimately show False using assms(4) by simp
qed

lemma loads_truncated_object:
  assumes "separators item_sep key_sep" and "list_all (\<lambda>m. scalar (snd m)) ms" and "distinct (map fst ms)"
    and "dumps_object ascii item_sep key_sep ms = p @ t" and "t \<noteq> []"
  shows "loads p = None"
proof (rule loads_prefix)
  show "loads (p @ t) = Some (JObj ms)" using loads_dumps_object[OF assms(1-3), of ascii] assms(4) by simp
  show "skip_ws (p @ t) = p @ t" "hd (p @ t) = CHR ''{''" unfolding assms(4)[symmetric] by (simp_all add: dumps_object_def)
  have "last t = last (p @ t)" using assms(5) by simp
  also have "\<dots> = CHR ''}''" unfolding assms(4)[symmetric] by (simp add: dumps_object_def)
  finally have "CHR ''}'' \<in> set t" using assms(5) last_in_set by fastforce
  moreover have "\<not> is_json_space CHR ''}''" by (simp add: is_json_space_def)
  ultimately show "skip_ws t \<noteq> []" by (auto simp: skip_ws_def)
qed

end
