(* ===== verification/Risk.thy ===== *)
theory Risk
  imports Paper Json_Text
begin

text \<open>
  The risk engine of \<^verbatim>\<open>radar_v08/domain/risk.py\<close>: the account envelope with the EX-1 ceilings, the
  venue rules of a pair, admission, the sizing of a long entry with its downward passes, the loss
  locks and the settlement of a long.

  A parameter annotated \<^verbatim>\<open>object\<close> is a \<open>pyval\<close>, one annotated \<^verbatim>\<open>Decimal\<close> is a \<open>decimal\<close>; the
  envelope keeps the literals it was given because its canonical text prints them. Amounts are
  exact values, rounded once per operation in the context the source installs.
\<close>

section \<open>Contexts, limits and reasons\<close>

definition RISK_CONTEXT :: ctx where
  "RISK_CONTEXT = Ctx 50 ROUND_HALF_EVEN"

definition QUANTITY_CONTEXT :: ctx where
  "QUANTITY_CONTEXT = Ctx 50 ROUND_FLOOR"

definition HUNDRED :: rat where "HUNDRED = 100"

definition ENVELOPE_POLICY_ID :: string where "ENVELOPE_POLICY_ID = ''ex1_envelope_v1''"
definition SIZING_POLICY_ID :: string where "SIZING_POLICY_ID = ''pilot_sizing_v1''"

definition EX1_PER_ENTRY_LOSS_PCT :: rat where "EX1_PER_ENTRY_LOSS_PCT = 1 / 4"
definition EX1_AGGREGATE_LOSS_PCT :: rat where "EX1_AGGREGATE_LOSS_PCT = 1 / 2"
definition EX1_GROSS_NOTIONAL_PCT :: rat where "EX1_GROSS_NOTIONAL_PCT = 10"
definition EX1_MIN_CASH_BUFFER_PCT :: rat where "EX1_MIN_CASH_BUFFER_PCT = 10"
definition EX1_DAILY_LOSS_PCT :: rat where "EX1_DAILY_LOSS_PCT = 1"
definition EX1_DRAWDOWN_PCT :: rat where "EX1_DRAWDOWN_PCT = 3"
definition EX1_MAX_POSITIONS :: int where "EX1_MAX_POSITIONS = 1"
definition EX1_LEVERAGE :: int where "EX1_LEVERAGE = 0"

definition PILOT_STRESS_EXIT_SLIPPAGE_BPS :: rat where "PILOT_STRESS_EXIT_SLIPPAGE_BPS = 50"
definition PILOT_STRESS_POLICY_ID :: string where
  "PILOT_STRESS_POLICY_ID = ''pilot_stress_exit_slippage_50bps_v1''"

definition MAX_DOWNWARD_PASSES :: nat where "MAX_DOWNWARD_PASSES = 3"
definition MAX_PAIR_DECIMALS :: int where "MAX_PAIR_DECIMALS = 18"

datatype no_trade_reason =
  UNSUPPORTED_DIRECTION | ENVELOPE_CHANGED | KILL_SWITCH_ENGAGED | DAILY_LOSS_LOCK | DRAWDOWN_LOCK |
  POSITION_ALREADY_OPEN | QUOTE_CURRENCY_MISMATCH | INVALID_QUOTE | NO_VALID_ATR |
  MISSING_PAIR_RULES | EQUITY_UNAVAILABLE | INVALID_LEVELS | STOP_INVALID_AFTER_TICK |
  NO_LOSS_BUDGET | NO_NOTIONAL_ROOM | INSUFFICIENT_CASH | BELOW_ORDER_MINIMUM |
  BELOW_COST_MINIMUM | SIZING_INCONSISTENT

datatype lock_kind = DAILY_LOSS | DRAWDOWN

datatype binding_constraint = PER_ENTRY_LOSS | AGGREGATE_LOSS | NOTIONAL | CASH

fun LOCK_REASONS :: "lock_kind \<Rightarrow> no_trade_reason" where
  "LOCK_REASONS DAILY_LOSS = DAILY_LOSS_LOCK"
| "LOCK_REASONS DRAWDOWN = DRAWDOWN_LOCK"

record no_trade =
  nt_reason :: no_trade_reason
  nt_detail :: string

abbreviation NoTrade :: "no_trade_reason \<Rightarrow> string \<Rightarrow> no_trade" where
  "NoTrade r d \<equiv> \<lparr>nt_reason = r, nt_detail = d\<rparr>"

abbreviation radd :: "rat \<Rightarrow> rat \<Rightarrow> rat" where "radd \<equiv> ctx_add RISK_CONTEXT"
abbreviation rsub :: "rat \<Rightarrow> rat \<Rightarrow> rat" where "rsub \<equiv> ctx_sub RISK_CONTEXT"
abbreviation rmul :: "rat \<Rightarrow> rat \<Rightarrow> rat" where "rmul \<equiv> ctx_mul RISK_CONTEXT"
abbreviation rdiv :: "rat \<Rightarrow> rat \<Rightarrow> py_exn + rat" where "rdiv \<equiv> ctx_div RISK_CONTEXT"

section \<open>Checked numbers\<close>

text \<open>The value of an object that is a \<^verbatim>\<open>Decimal\<close>, if it is one.\<close>

fun isinstance_decimal :: "pyval \<Rightarrow> decimal option" where
  "isinstance_decimal (PDec d) = Some (literal_decimal d)"
| "isinstance_decimal _ = None"

fun require_decimal :: "(string \<Rightarrow> py_exn) \<Rightarrow> string \<Rightarrow> decimal option \<Rightarrow> py_exn + rat" where
  "require_decimal error field (Some (DFin x)) = Inr x"
| "require_decimal error field _ = Inl (error field)"

definition require_nonnegative :: "string \<Rightarrow> decimal \<Rightarrow> py_exn + rat" where
  "require_nonnegative field v =
     bindE (require_decimal RiskInputError field (Some v)) (\<lambda>number.
       if number < 0 then Inl (RiskInputError field) else Inr number)"

definition require_positive :: "string \<Rightarrow> decimal \<Rightarrow> py_exn + rat" where
  "require_positive field v =
     bindE (require_decimal RiskInputError field (Some v)) (\<lambda>number.
       if number \<le> 0 then Inl (RiskInputError field) else Inr number)"

definition is_whole_cents :: "rat \<Rightarrow> py_exn + bool" where
  "is_whole_cents v = bindE (quantize RISK_CONTEXT ROUND_HALF_EVEN (-2) v) (\<lambda>q. Inr (v = q))"

function strip_zeros :: "int \<Rightarrow> int \<Rightarrow> int \<times> int" where
  "strip_zeros k e = (if k \<noteq> 0 \<and> k mod 10 = 0 then strip_zeros (k div 10) (e + 1) else (k, e))"
  by pat_completeness auto
termination
  by (relation "measure (\<lambda>(k, e). nat \<bar>k\<bar>)") auto

declare strip_zeros.simps [simp del]

definition normalize :: "ctx \<Rightarrow> rat \<Rightarrow> int \<times> int" where
  "normalize c x =
     (if x = 0 then (0, 0)
      else let e = adjusted x + 1 - int (prec c)
           in strip_zeros (round_int (ctx_rounding c) (x / 10 powi e)) e)"

definition plain :: "rat \<Rightarrow> string" where
  "plain v = (case normalize RISK_CONTEXT v of (c, e) \<Rightarrow> format_f c e)"

definition cents_up :: "rat \<Rightarrow> py_exn + rat" where
  "cents_up v = quantize RISK_CONTEXT ROUND_CEILING (-2) v"

definition floor_to_step :: "rat \<Rightarrow> rat \<Rightarrow> py_exn + rat" where
  "floor_to_step v step =
     bindE (ctx_div QUANTITY_CONTEXT v step) (\<lambda>q. Inr (ctx_mul QUANTITY_CONTEXT (of_int \<lfloor>q\<rfloor>) step))"

definition lot_step :: "int \<Rightarrow> rat" where
  "lot_step lot_decimals = 10 powi (- lot_decimals)"

definition floor_to_lot :: "rat \<Rightarrow> int \<Rightarrow> py_exn + rat" where
  "floor_to_lot quantity lot_decimals = quantize QUANTITY_CONTEXT ROUND_FLOOR (- lot_decimals) quantity"

section \<open>Envelope\<close>

text \<open>An argument annotated \<^verbatim>\<open>int\<close> may be a bool, which the constructor refuses.\<close>

datatype py_int = AnInt int | ABool bool

record envelope_args =
  arg_equity :: pyval
  arg_currency :: pyval
  arg_per_entry_loss_pct :: pyval
  arg_aggregate_loss_pct :: pyval
  arg_gross_notional_pct :: pyval
  arg_cash_buffer_pct :: pyval
  arg_daily_loss_pct :: pyval
  arg_drawdown_pct :: pyval
  arg_per_entry_abs_cap :: "pyval option"
  arg_max_positions :: py_int
  arg_leverage :: py_int

record envelope =
  equity :: dec_literal
  currency :: string
  per_entry_loss_pct :: dec_literal
  aggregate_loss_pct :: dec_literal
  gross_notional_pct :: dec_literal
  cash_buffer_pct :: dec_literal
  daily_loss_pct :: dec_literal
  drawdown_pct :: dec_literal
  per_entry_abs_cap :: "dec_literal option"
  max_positions :: int
  leverage :: int

fun lit_value :: "dec_literal \<Rightarrow> rat" where
  "lit_value (Lit c e) = dec_value c e"
| "lit_value _ = 0"

text \<open>A finite \<^verbatim>\<open>Decimal\<close> of the envelope: the literal that is kept, and its value.\<close>

definition envelope_decimal :: "string \<Rightarrow> pyval \<Rightarrow> py_exn + dec_literal" where
  "envelope_decimal field v =
     bindE (require_decimal EnvelopeError field (isinstance_decimal v)) (\<lambda>_.
       case v of PDec d \<Rightarrow> Inr d | _ \<Rightarrow> Inl (EnvelopeError field))"

definition envelope_amount :: "string \<Rightarrow> pyval \<Rightarrow> py_exn + dec_literal" where
  "envelope_amount field v =
     bindE (envelope_decimal field v) (\<lambda>d.
       if lit_value d \<le> 0 then Inl (EnvelopeError field)
       else bindE (is_whole_cents (lit_value d)) (\<lambda>whole.
         if whole then Inr d else Inl (EnvelopeError field)))"

definition envelope_ceiling :: "string \<Rightarrow> pyval \<Rightarrow> rat \<Rightarrow> py_exn + dec_literal" where
  "envelope_ceiling field v limit =
     bindE (envelope_decimal field v) (\<lambda>d.
       if lit_value d \<le> 0 then Inl (EnvelopeError field)
       else if limit < lit_value d then Inl (EnvelopeError field)
       else Inr d)"

fun envelope_currency :: "pyval \<Rightarrow> py_exn + string" where
  "envelope_currency (PStr s) =
     (if strip s = [] \<or> s \<noteq> strip s then Inl (EnvelopeError ''currency'') else Inr s)"
| "envelope_currency _ = Inl (EnvelopeError ''currency'')"

fun envelope_int :: "string \<Rightarrow> int \<Rightarrow> py_int \<Rightarrow> py_exn + int" where
  "envelope_int field expected (AnInt i) = (if i \<noteq> expected then Inl (EnvelopeError field) else Inr i)"
| "envelope_int field expected (ABool b) = Inl (EnvelopeError field)"

definition envelope_buffer :: "pyval \<Rightarrow> py_exn + dec_literal" where
  "envelope_buffer v =
     bindE (envelope_decimal ''cash_buffer_pct'' v) (\<lambda>d.
       if lit_value d < EX1_MIN_CASH_BUFFER_PCT then Inl (EnvelopeError ''cash_buffer_pct'')
       else if HUNDRED \<le> lit_value d then Inl (EnvelopeError ''cash_buffer_pct'')
       else Inr d)"

definition envelope_cap :: "pyval option \<Rightarrow> py_exn + dec_literal option" where
  "envelope_cap v =
     (case v of None \<Rightarrow> Inr None
      | Some c \<Rightarrow> bindE (envelope_amount ''per_entry_abs_cap'' c) (\<lambda>d. Inr (Some d)))"

definition make_envelope :: "envelope_args \<Rightarrow> py_exn + envelope" where
  "make_envelope a =
     bindE (envelope_amount ''equity'' (arg_equity a)) (\<lambda>eq.
     bindE (envelope_currency (arg_currency a)) (\<lambda>cur.
     bindE (envelope_ceiling ''per_entry_loss_pct'' (arg_per_entry_loss_pct a) EX1_PER_ENTRY_LOSS_PCT) (\<lambda>pe.
     bindE (envelope_ceiling ''aggregate_loss_pct'' (arg_aggregate_loss_pct a) EX1_AGGREGATE_LOSS_PCT) (\<lambda>ag.
     bindE (envelope_ceiling ''gross_notional_pct'' (arg_gross_notional_pct a) EX1_GROSS_NOTIONAL_PCT) (\<lambda>gn.
     bindE (envelope_ceiling ''daily_loss_pct'' (arg_daily_loss_pct a) EX1_DAILY_LOSS_PCT) (\<lambda>dl.
     bindE (envelope_ceiling ''drawdown_pct'' (arg_drawdown_pct a) EX1_DRAWDOWN_PCT) (\<lambda>dd.
     bindE (envelope_buffer (arg_cash_buffer_pct a)) (\<lambda>cb.
     bindE (envelope_cap (arg_per_entry_abs_cap a)) (\<lambda>cap.
     bindE (envelope_int ''max_positions'' EX1_MAX_POSITIONS (arg_max_positions a)) (\<lambda>mp.
     bindE (envelope_int ''leverage'' EX1_LEVERAGE (arg_leverage a)) (\<lambda>lev.
     Inr \<lparr>equity = eq, currency = cur, per_entry_loss_pct = pe, aggregate_loss_pct = ag,
          gross_notional_pct = gn, cash_buffer_pct = cb, daily_loss_pct = dl, drawdown_pct = dd,
          per_entry_abs_cap = cap, max_positions = mp, leverage = lev\<rparr>)))))))))))"

definition canonical_members :: "envelope \<Rightarrow> (string \<times> json) list" where
  "canonical_members env =
     [(''aggregate_loss_pct'', JStr (literal_str (aggregate_loss_pct env))),
      (''cash_buffer_pct'', JStr (literal_str (cash_buffer_pct env))),
      (''currency'', JStr (currency env)),
      (''daily_loss_pct'', JStr (literal_str (daily_loss_pct env))),
      (''drawdown_pct'', JStr (literal_str (drawdown_pct env))),
      (''equity'', JStr (literal_str (equity env))),
      (''gross_notional_pct'', JStr (literal_str (gross_notional_pct env))),
      (''leverage'', JInt (leverage env)),
      (''max_positions'', JInt (max_positions env)),
      (''per_entry_abs_cap'', case per_entry_abs_cap env of None \<Rightarrow> JNull | Some c \<Rightarrow> JStr (literal_str c)),
      (''per_entry_loss_pct'', JStr (literal_str (per_entry_loss_pct env))),
      (''policy_id'', JStr ENVELOPE_POLICY_ID)]"

text \<open>The dict of the values, written with sorted keys and compact separators.\<close>

definition canonical_text :: "envelope \<Rightarrow> string" where
  "canonical_text env = dumps_object True '','' '':'' (canonical_members env)"

definition percent_of :: "rat \<Rightarrow> rat \<Rightarrow> rat" where
  "percent_of base pct = ctx_fix RISK_CONTEXT (rmul base pct / HUNDRED)"

record budget_t =
  per_entry_loss_cap :: rat
  aggregate_loss_cap :: rat
  aggregate_loss_remaining :: rat
  notional_cap :: rat
  notional_remaining :: rat
  cash_buffer :: rat
  cash_room :: rat

definition budget :: "envelope \<Rightarrow> decimal \<Rightarrow> decimal \<Rightarrow> decimal \<Rightarrow> decimal \<Rightarrow> py_exn + budget_t" where
  "budget env equity_arg cash_arg open_planned_loss open_notional =
     bindE (require_positive ''equity'' equity_arg) (\<lambda>eq.
     bindE (require_decimal RiskInputError ''cash'' (Some cash_arg)) (\<lambda>csh.
     bindE (require_nonnegative ''open_planned_loss'' open_planned_loss) (\<lambda>opl.
     bindE (require_nonnegative ''open_notional'' open_notional) (\<lambda>onl.
     let per_entry0 = percent_of eq (lit_value (per_entry_loss_pct env));
         per_entry = (case per_entry_abs_cap env of
             None \<Rightarrow> per_entry0 | Some cap \<Rightarrow> min per_entry0 (lit_value cap));
         aggregate = percent_of eq (lit_value (aggregate_loss_pct env));
         notional = percent_of eq (lit_value (gross_notional_pct env));
         buffer = percent_of eq (lit_value (cash_buffer_pct env))
     in Inr \<lparr>per_entry_loss_cap = per_entry, aggregate_loss_cap = aggregate,
             aggregate_loss_remaining = rsub aggregate opl, notional_cap = notional,
             notional_remaining = rsub notional onl, cash_buffer = buffer,
             cash_room = rsub csh buffer\<rparr>))))"

section \<open>Pair rules\<close>

record pair_rules =
  lot_decimals :: int
  ordermin :: rat
  costmin :: rat
  tick :: rat
  tick_source :: string

definition lot :: "pair_rules \<Rightarrow> rat" where
  "lot rules = lot_step (lot_decimals rules)"

text \<open>A raw AssetPairs entry is \<open>None\<close> when it is not a mapping, else its keys with their values.\<close>

type_synonym pair_entry = "(string \<times> pyval) list option"

definition missing :: "string \<Rightarrow> string \<Rightarrow> no_trade" where
  "missing field problem = NoTrade MISSING_PAIR_RULES (field @ '':'' @ problem)"

definition decimals_field :: "(string \<times> pyval) list \<Rightarrow> string \<Rightarrow> no_trade + int" where
  "decimals_field entry field =
     (case map_of entry field of
        None \<Rightarrow> Inl (missing field ''missing'')
      | Some PNone \<Rightarrow> Inl (missing field ''missing'')
      | Some (PInt v) \<Rightarrow>
          if v < 0 then Inl (missing field ''negative'')
          else if MAX_PAIR_DECIMALS < v then Inl (missing field ''too_large'')
          else Inr v
      | Some _ \<Rightarrow> Inl (missing field ''not_an_integer''))"

definition finite_text_number :: "string \<Rightarrow> decimal \<Rightarrow> no_trade + rat" where
  "finite_text_number field number =
     (case number of
        DFin x \<Rightarrow> if x < 0 then Inl (missing field ''negative'') else Inr x
      | _ \<Rightarrow> Inl (missing field ''not_finite''))"

definition decimal_text_field :: "(string \<times> pyval) list \<Rightarrow> string \<Rightarrow> no_trade + rat" where
  "decimal_text_field entry field =
     (case map_of entry field of
        None \<Rightarrow> Inl (missing field ''missing'')
      | Some PNone \<Rightarrow> Inl (missing field ''missing'')
      | Some (PBool _) \<Rightarrow> Inl (missing field ''not_exact'')
      | Some (PFloat _) \<Rightarrow> Inl (missing field ''not_exact'')
      | Some (PStr s) \<Rightarrow>
          if strip s = [] then Inl (missing field ''missing'')
          else (case parse_decimal (strip s) of
                  None \<Rightarrow> Inl (missing field ''not_a_number'')
                | Some d \<Rightarrow> finite_text_number field (literal_decimal d))
      | Some (PInt i) \<Rightarrow> finite_text_number field (DFin (of_int i))
      | Some (PDec d) \<Rightarrow> finite_text_number field (literal_decimal d)
      | Some _ \<Rightarrow> Inl (missing field ''not_a_number''))"

definition tick_rule :: "(string \<times> pyval) list \<Rightarrow> no_trade + rat \<times> string" where
  "tick_rule entry =
     (if map_of entry ''tick_size'' \<noteq> None \<and> map_of entry ''tick_size'' \<noteq> Some PNone
      then bindE (decimal_text_field entry ''tick_size'') (\<lambda>t.
             if t = 0 then Inl (missing ''tick_size'' ''not_positive'') else Inr (t, ''tick_size''))
      else case decimals_field entry ''pair_decimals'' of
             Inl nt \<Rightarrow> Inl (if map_of entry ''pair_decimals'' = None
                           then missing ''tick_size'' ''missing'' else nt)
           | Inr d \<Rightarrow> Inr (lot_step d, ''pair_decimals''))"

definition parse_pair_rules :: "pair_entry \<Rightarrow> no_trade + pair_rules" where
  "parse_pair_rules entry_arg =
     (case entry_arg of
        None \<Rightarrow> Inl (missing ''entry'' ''missing'')
      | Some entry \<Rightarrow>
          bindE (decimals_field entry ''lot_decimals'') (\<lambda>ld.
          bindE (decimal_text_field entry ''ordermin'') (\<lambda>om.
          bindE (decimal_text_field entry ''costmin'') (\<lambda>cm.
          bindE (tick_rule entry) (\<lambda>(t, source).
          Inr \<lparr>lot_decimals = ld, ordermin = om, costmin = cm, tick = t, tick_source = source\<rparr>)))))"

section \<open>Admission\<close>

fun as_lock :: "pyval \<Rightarrow> lock_kind option" where
  "as_lock (PEnum cls name) =
     (if cls = ''LockKind'' \<and> name = ''DAILY_LOSS'' then Some DAILY_LOSS
      else if cls = ''LockKind'' \<and> name = ''DRAWDOWN'' then Some DRAWDOWN else None)"
| "as_lock _ = None"

fun lock_val :: "lock_kind \<Rightarrow> pyval" where
  "lock_val DAILY_LOSS = PEnum ''LockKind'' ''DAILY_LOSS''"
| "lock_val DRAWDOWN = PEnum ''LockKind'' ''DRAWDOWN''"

definition is_long :: "pyval \<Rightarrow> bool" where
  "is_long d \<longleftrightarrow> d = PStr ''LONG'' \<or> d = PEnum ''Direction'' ''LONG''"

fun nonnegative_int :: "string \<Rightarrow> pyval \<Rightarrow> py_exn + int" where
  "nonnegative_int field (PInt i) = (if i < 0 then Inl (RiskInputError field) else Inr i)"
| "nonnegative_int field _ = Inl (RiskInputError field)"

fun require_bool :: "string \<Rightarrow> pyval \<Rightarrow> py_exn + bool" where
  "require_bool field (PBool b) = Inr b"
| "require_bool field _ = Inl (RiskInputError field)"

definition admission_refusal ::
  "envelope \<Rightarrow> pyval \<Rightarrow> pyval \<Rightarrow> pyval list \<Rightarrow> pyval \<Rightarrow> py_exn + no_trade option" where
  "admission_refusal env dir kill_switch_engaged active_locks open_positions =
     bindE (require_bool ''kill_switch_engaged'' kill_switch_engaged) (\<lambda>engaged.
     bindE (nonnegative_int ''open_positions'' open_positions) (\<lambda>opens.
     bindE (guardE (list_all (\<lambda>l. as_lock l \<noteq> None) active_locks) (RiskInputError ''active_locks'')) (\<lambda>_.
     let locks = set (map (\<lambda>l. the (as_lock l)) active_locks) in
     Inr (if \<not> is_long dir then Some (NoTrade UNSUPPORTED_DIRECTION (py_str dir))
          else if engaged then Some (NoTrade KILL_SWITCH_ENGAGED [])
          else if DAILY_LOSS \<in> locks then Some (NoTrade (LOCK_REASONS DAILY_LOSS) [])
          else if DRAWDOWN \<in> locks then Some (NoTrade (LOCK_REASONS DRAWDOWN) [])
          else if max_positions env \<le> opens then Some (NoTrade POSITION_ALREADY_OPEN (show_int opens))
          else None))))"

section \<open>Sizing\<close>

record candidates_t =
  cd_per_entry_loss :: rat
  cd_aggregate_loss :: rat
  cd_notional :: rat
  cd_cash :: rat
  cd_binding :: binding_constraint

definition candidate_quantity :: "candidates_t \<Rightarrow> rat" where
  "candidate_quantity c =
     min (min (min (cd_per_entry_loss c) (cd_aggregate_loss c)) (cd_notional c)) (cd_cash c)"

record final_costs_t =
  fc_quantity :: rat
  fc_notional :: rat
  fc_entry_fee :: rat
  fc_exit_fee :: rat
  fc_planned_loss :: rat

record entry_plan =
  ep_no_trade :: "no_trade option"
  ep_fee_bps :: rat
  ep_stress_bps :: rat
  ep_stress_policy_id :: string
  ep_sizing_policy_id :: string
  ep_quote :: "quote option"
  ep_atr :: "rat option"
  ep_rules :: "pair_rules option"
  ep_levels :: "exit_levels_t option"
  ep_stop :: "rat option"
  ep_target :: "rat option"
  ep_stress_exit_price :: "rat option"
  ep_loss_per_unit :: "rat option"
  ep_budget :: "budget_t option"
  ep_candidates :: "candidates_t option"
  ep_lot_quantity :: "rat option"
  ep_passes :: nat
  ep_quantity :: "rat option"
  ep_costs :: "final_costs_t option"

definition opened :: "entry_plan \<Rightarrow> bool" where
  "opened plan \<longleftrightarrow> ep_no_trade plan = None"

definition stress_exit_price :: "rat \<Rightarrow> rat" where
  "stress_exit_price stop =
     rmul stop (rsub 1 (ctx_fix RISK_CONTEXT (PILOT_STRESS_EXIT_SLIPPAGE_BPS / BPS)))"

definition loss_per_unit :: "rat \<Rightarrow> rat \<Rightarrow> rat \<Rightarrow> rat" where
  "loss_per_unit ask_price stop fee_bps =
     (let stressed = stress_exit_price stop;
          fee = ctx_fix RISK_CONTEXT (fee_bps / BPS)
      in radd (radd (radd (rsub ask_price stop) (rsub stop stressed)) (rmul ask_price fee))
           (rmul stressed fee))"

definition final_costs :: "rat \<Rightarrow> rat \<Rightarrow> rat \<Rightarrow> rat \<Rightarrow> py_exn + final_costs_t" where
  "final_costs quantity ask_price stressed_exit fee_bps =
     (let fee = ctx_fix RISK_CONTEXT (fee_bps / BPS);
          notional = rmul quantity ask_price
      in bindE (cents_up (rmul notional fee)) (\<lambda>entry_fee.
         bindE (cents_up (rmul (rmul quantity stressed_exit) fee)) (\<lambda>exit_fee.
         Inr \<lparr>fc_quantity = quantity, fc_notional = notional, fc_entry_fee = entry_fee,
              fc_exit_fee = exit_fee,
              fc_planned_loss =
                radd (radd (rmul quantity (rsub ask_price stressed_exit)) entry_fee) exit_fee\<rparr>)))"

definition fits :: "final_costs_t \<Rightarrow> budget_t \<Rightarrow> bool" where
  "fits costs room \<longleftrightarrow>
     fc_planned_loss costs \<le> per_entry_loss_cap room
     \<and> fc_planned_loss costs \<le> aggregate_loss_remaining room
     \<and> fc_notional costs \<le> notional_remaining room
     \<and> radd (fc_notional costs) (fc_entry_fee costs) \<le> cash_room room"

definition below_minimum :: "rat \<Rightarrow> rat \<Rightarrow> pair_rules \<Rightarrow> no_trade option" where
  "below_minimum quantity ask_price rules =
     (if quantity \<le> 0 \<or> quantity < ordermin rules
      then Some (NoTrade BELOW_ORDER_MINIMUM (plain quantity @ ''<'' @ plain (ordermin rules)))
      else let cost = rmul quantity ask_price in
        if cost < costmin rules
        then Some (NoTrade BELOW_COST_MINIMUM (plain cost @ ''<'' @ plain (costmin rules)))
        else None)"

text \<open>The first of the pairs with the least number.\<close>

fun argmin :: "'a \<times> rat \<Rightarrow> ('a \<times> rat) list \<Rightarrow> 'a" where
  "argmin best [] = fst best"
| "argmin best (x # xs) = argmin (if snd x < snd best then x else best) xs"

definition candidate_quantities :: "budget_t \<Rightarrow> rat \<Rightarrow> rat \<Rightarrow> rat \<Rightarrow> py_exn + candidates_t" where
  "candidate_quantities room ask_price per_unit_loss fee_bps =
     (let fee = ctx_fix QUANTITY_CONTEXT (fee_bps / BPS) in
      bindE (ctx_div QUANTITY_CONTEXT (per_entry_loss_cap room) per_unit_loss) (\<lambda>a.
      bindE (ctx_div QUANTITY_CONTEXT (aggregate_loss_remaining room) per_unit_loss) (\<lambda>b.
      bindE (ctx_div QUANTITY_CONTEXT (notional_remaining room) ask_price) (\<lambda>c.
      bindE (ctx_div QUANTITY_CONTEXT (cash_room room)
               (ctx_mul QUANTITY_CONTEXT ask_price (ctx_add QUANTITY_CONTEXT 1 fee))) (\<lambda>d.
      Inr \<lparr>cd_per_entry_loss = a, cd_aggregate_loss = b, cd_notional = c, cd_cash = d,
           cd_binding = argmin (PER_ENTRY_LOSS, a) [(AGGREGATE_LOSS, b), (NOTIONAL, c), (CASH, d)]\<rparr>)))))"

subsection \<open>Planning a long entry\<close>

fun quote_problem_value :: "quote_problem \<Rightarrow> string" where
  "quote_problem_value MISSING = ''missing''"
| "quote_problem_value NOT_A_NUMBER = ''not_a_number''"
| "quote_problem_value NOT_FINITE = ''not_finite''"
| "quote_problem_value NOT_POSITIVE = ''not_positive''"
| "quote_problem_value CROSSED = ''crossed''"
| "quote_problem_value NOT_ONLINE = ''not_online''"

definition new_plan :: "rat \<Rightarrow> entry_plan" where
  "new_plan fee =
     \<lparr>ep_no_trade = None, ep_fee_bps = fee, ep_stress_bps = PILOT_STRESS_EXIT_SLIPPAGE_BPS,
      ep_stress_policy_id = PILOT_STRESS_POLICY_ID, ep_sizing_policy_id = SIZING_POLICY_ID,
      ep_quote = None, ep_atr = None, ep_rules = None, ep_levels = None, ep_stop = None,
      ep_target = None, ep_stress_exit_price = None, ep_loss_per_unit = None, ep_budget = None,
      ep_candidates = None, ep_lot_quantity = None, ep_passes = 0, ep_quantity = None,
      ep_costs = None\<rparr>"

definition refuse :: "entry_plan \<Rightarrow> no_trade_reason \<Rightarrow> string \<Rightarrow> entry_plan" where
  "refuse reached reason detail = reached\<lparr>ep_no_trade := Some (NoTrade reason detail)\<rparr>"

text \<open>
  The \<^verbatim>\<open>while True\<close> loop of the sizing. \<open>left\<close> counts the passes still allowed, so the pass number is
  \<open>MAX_DOWNWARD_PASSES - left\<close>. The subtraction of one lot runs outside every \<^verbatim>\<open>localcontext\<close> block,
  in the interpreter's default context of 28 digits.
\<close>

fun size_loop ::
  "nat \<Rightarrow> budget_t \<Rightarrow> rat \<Rightarrow> rat \<Rightarrow> rat \<Rightarrow> pair_rules \<Rightarrow> rat \<Rightarrow> entry_plan \<Rightarrow> py_exn + entry_plan" where
  "size_loop left room ask_price stressed fee rules quantity plan0 =
     (let passes = MAX_DOWNWARD_PASSES - left;
          plan = plan0\<lparr>ep_passes := passes, ep_quantity := Some quantity, ep_costs := None\<rparr>
      in case below_minimum quantity ask_price rules of
           Some m \<Rightarrow> Inr (refuse plan (nt_reason m) (nt_detail m))
         | None \<Rightarrow>
             bindE (final_costs quantity ask_price stressed fee) (\<lambda>costs.
             let plan' = plan\<lparr>ep_costs := Some costs\<rparr> in
             if fits costs room then Inr plan'
             else case left of
               0 \<Rightarrow> Inr (refuse plan' SIZING_INCONSISTENT (''passes:'' @ show_nat passes))
             | Suc left' \<Rightarrow> size_loop left' room ask_price stressed fee rules
                 (ctx_sub default_context quantity (lot rules)) plan'))"

declare size_loop.simps [simp del]

text \<open>The last third of the planning: the budgets, the candidates and the loop.\<close>

definition plan_size ::
  "envelope \<Rightarrow> rat \<Rightarrow> rat \<Rightarrow> decimal \<Rightarrow> decimal \<Rightarrow> rat \<Rightarrow> quote \<Rightarrow> pair_rules \<Rightarrow> rat \<Rightarrow> rat
     \<Rightarrow> entry_plan \<Rightarrow> py_exn + entry_plan" where
  "plan_size env eq csh open_planned_loss open_notional fee checked rules stressed per_unit plan0 =
     bindE (budget env (DFin eq) (DFin csh) open_planned_loss open_notional) (\<lambda>room.
     let plan = plan0\<lparr>ep_budget := Some room\<rparr> in
     if per_entry_loss_cap room \<le> 0 \<or> aggregate_loss_remaining room \<le> 0
     then Inr (refuse plan NO_LOSS_BUDGET (''remaining:'' @ plain (aggregate_loss_remaining room)))
     else if notional_remaining room \<le> 0
     then Inr (refuse plan NO_NOTIONAL_ROOM (''remaining:'' @ plain (notional_remaining room)))
     else if cash_room room \<le> 0
     then Inr (refuse plan INSUFFICIENT_CASH (''room:'' @ plain (cash_room room)))
     else
       bindE (candidate_quantities room (ask checked) per_unit fee) (\<lambda>cands.
       bindE (floor_to_lot (candidate_quantity cands) (lot_decimals rules)) (\<lambda>quantity.
       size_loop MAX_DOWNWARD_PASSES room (ask checked) stressed fee rules quantity
         (plan\<lparr>ep_candidates := Some cands, ep_lot_quantity := Some quantity\<rparr>))))"

text \<open>The middle: the EX-1 levels, their tick rounding and the stressed exit.\<close>

definition plan_levels ::
  "envelope \<Rightarrow> rat \<Rightarrow> rat \<Rightarrow> decimal \<Rightarrow> decimal \<Rightarrow> rat \<Rightarrow> quote \<Rightarrow> rat \<Rightarrow> pair_rules
     \<Rightarrow> entry_plan \<Rightarrow> py_exn + entry_plan" where
  "plan_levels env eq csh open_planned_loss open_notional fee checked checked_atr rules plan0 =
     bindE (exit_levels LONG checked (DFin checked_atr)) (\<lambda>levels_opt.
     case levels_opt of
       None \<Rightarrow> Inr (refuse plan0 INVALID_LEVELS ''level_not_positive'')
     | Some levels \<Rightarrow>
         bindE (floor_to_step (lv_stop levels) (tick rules)) (\<lambda>stop.
         bindE (floor_to_step (lv_target levels) (tick rules)) (\<lambda>target.
         let plan = plan0\<lparr>ep_levels := Some levels, ep_stop := Some stop, ep_target := Some target\<rparr> in
         if stop \<le> 0 \<or> ask checked \<le> stop
         then Inr (refuse plan STOP_INVALID_AFTER_TICK (''stop:'' @ plain stop))
         else if target \<le> ask checked
         then Inr (refuse plan INVALID_LEVELS (''target_not_above_entry:'' @ plain target))
         else
           let stressed = stress_exit_price stop;
               per_unit = loss_per_unit (ask checked) stop fee;
               plan' = plan\<lparr>ep_stress_exit_price := Some stressed, ep_loss_per_unit := Some per_unit\<rparr>
           in if stressed \<le> 0 \<or> per_unit \<le> 0
              then Inr (refuse plan' INVALID_LEVELS ''nonpositive_denominator'')
              else plan_size env eq csh open_planned_loss open_notional fee checked rules
                     stressed per_unit plan')))"

definition plan_long_entry ::
  "envelope \<Rightarrow> pyval \<Rightarrow> pyval \<Rightarrow> pyval \<Rightarrow> pyval \<Rightarrow> pyval \<Rightarrow> pair_entry \<Rightarrow> pyval \<Rightarrow> pyval
     \<Rightarrow> decimal \<Rightarrow> decimal \<Rightarrow> decimal \<Rightarrow> py_exn + entry_plan" where
  "plan_long_entry env quote_currency bid_arg ask_arg status atr pair_entry equity_arg cash_arg
       open_planned_loss open_notional fee_bps =
     bindE (require_nonnegative ''fee_bps'' fee_bps) (\<lambda>fee.
     bindE (require_nonnegative ''open_planned_loss'' open_planned_loss) (\<lambda>_.
     bindE (require_nonnegative ''open_notional'' open_notional) (\<lambda>_.
     let plan = new_plan fee in
     if quote_currency \<noteq> PStr (currency env)
     then Inr (refuse plan QUOTE_CURRENCY_MISMATCH (py_str quote_currency))
     else case validate_quote bid_arg ask_arg status of
       Inl problem \<Rightarrow> Inr (refuse plan INVALID_QUOTE (quote_problem_value problem))
     | Inr checked \<Rightarrow>
     let plan = plan\<lparr>ep_quote := Some checked\<rparr> in
     case validate_atr atr of
       Inl problem \<Rightarrow> Inr (refuse plan NO_VALID_ATR (quote_problem_value problem))
     | Inr checked_atr \<Rightarrow>
     let plan = plan\<lparr>ep_atr := Some checked_atr\<rparr> in
     case parse_pair_rules pair_entry of
       Inl nt \<Rightarrow> Inr (refuse plan (nt_reason nt) (nt_detail nt))
     | Inr rules \<Rightarrow>
     let plan = plan\<lparr>ep_rules := Some rules\<rparr> in
     case isinstance_decimal equity_arg of
       Some (DFin eq) \<Rightarrow>
         if eq \<le> 0 then Inr (refuse plan EQUITY_UNAVAILABLE ''equity:not_positive'')
         else (case isinstance_decimal cash_arg of
           Some (DFin csh) \<Rightarrow>
             plan_levels env eq csh open_planned_loss open_notional fee checked checked_atr rules plan
         | _ \<Rightarrow> Inr (refuse plan EQUITY_UNAVAILABLE ''cash:missing''))
     | _ \<Rightarrow> Inr (refuse plan EQUITY_UNAVAILABLE ''equity:missing''))))"

section \<open>Equity and locks\<close>

definition entry_cost_basis :: "decimal \<Rightarrow> decimal \<Rightarrow> decimal \<Rightarrow> py_exn + rat" where
  "entry_cost_basis quantity entry_ask fee_bps =
     bindE (require_positive ''quantity'' quantity) (\<lambda>q.
     bindE (require_positive ''entry_ask'' entry_ask) (\<lambda>a.
     bindE (require_nonnegative ''fee_bps'' fee_bps) (\<lambda>f.
     let notional = rmul q a in
     bindE (rdiv (rmul notional f) BPS) (\<lambda>x.
     bindE (cents x) (\<lambda>fee. Inr (radd notional fee))))))"

definition unrealized_mark :: "decimal \<Rightarrow> decimal \<Rightarrow> decimal \<Rightarrow> decimal \<Rightarrow> py_exn + rat" where
  "unrealized_mark quantity bid_arg cost_basis fee_bps =
     bindE (require_positive ''quantity'' quantity) (\<lambda>q.
     bindE (require_positive ''bid'' bid_arg) (\<lambda>b.
     bindE (require_positive ''cost_basis'' cost_basis) (\<lambda>cb.
     bindE (require_nonnegative ''fee_bps'' fee_bps) (\<lambda>f.
     let proceeds = rmul q b in
     bindE (rdiv (rmul proceeds f) BPS) (\<lambda>x.
     bindE (cents_up x) (\<lambda>fee. Inr (rsub (rsub proceeds fee) cb)))))))"

fun sum_from :: "string \<Rightarrow> nat \<Rightarrow> rat \<Rightarrow> decimal list \<Rightarrow> py_exn + rat" where
  "sum_from field i acc [] = Inr acc"
| "sum_from field i acc (v # rest) =
     bindE (require_decimal RiskInputError (field @ ''['' @ show_nat i @ '']'') (Some v)) (\<lambda>x.
       sum_from field (Suc i) (radd acc x) rest)"

definition risk_sum :: "string \<Rightarrow> decimal list \<Rightarrow> py_exn + rat" where
  "risk_sum field values = sum_from field 0 0 values"

definition account_equity :: "decimal \<Rightarrow> decimal list \<Rightarrow> decimal list \<Rightarrow> py_exn + rat" where
  "account_equity assigned realized_nets marks =
     bindE (require_positive ''assigned'' assigned) (\<lambda>a.
     bindE (risk_sum ''realized_nets'' realized_nets) (\<lambda>r.
     bindE (risk_sum ''marks'' marks) (\<lambda>m. Inr (radd (radd a r) m))))"

definition available_cash :: "decimal \<Rightarrow> decimal list \<Rightarrow> decimal list \<Rightarrow> py_exn + rat" where
  "available_cash assigned realized_nets open_cost_bases =
     bindE (require_positive ''assigned'' assigned) (\<lambda>a.
     bindE (risk_sum ''realized_nets'' realized_nets) (\<lambda>r.
     bindE (risk_sum ''open_cost_bases'' open_cost_bases) (\<lambda>c. Inr (rsub (radd a r) c))))"

definition daily_lock_tripped :: "envelope \<Rightarrow> decimal \<Rightarrow> decimal \<Rightarrow> py_exn + bool" where
  "daily_lock_tripped env equity_arg day_start_equity =
     bindE (require_decimal RiskInputError ''equity'' (Some equity_arg)) (\<lambda>eq.
     bindE (require_positive ''day_start_equity'' day_start_equity) (\<lambda>ds.
     Inr (rsub eq ds \<le> - percent_of ds (lit_value (daily_loss_pct env)))))"

definition drawdown_lock_tripped :: "envelope \<Rightarrow> decimal \<Rightarrow> decimal \<Rightarrow> py_exn + bool" where
  "drawdown_lock_tripped env equity_arg high_water =
     bindE (require_decimal RiskInputError ''equity'' (Some equity_arg)) (\<lambda>eq.
     bindE (require_positive ''high_water'' high_water) (\<lambda>hw.
     Inr (eq \<le> rmul hw (rsub 1 (ctx_fix RISK_CONTEXT (lit_value (drawdown_pct env) / HUNDRED))))))"

definition tripped_locks :: "envelope \<Rightarrow> decimal \<Rightarrow> decimal \<Rightarrow> decimal \<Rightarrow> py_exn + lock_kind list" where
  "tripped_locks env equity_arg day_start_equity high_water =
     bindE (daily_lock_tripped env equity_arg day_start_equity) (\<lambda>daily.
     bindE (drawdown_lock_tripped env equity_arg high_water) (\<lambda>drawdown.
     Inr ((if daily then [DAILY_LOSS] else []) @ (if drawdown then [DRAWDOWN] else []))))"

definition next_high_water :: "decimal \<Rightarrow> decimal \<Rightarrow> py_exn + rat" where
  "next_high_water high_water equity_arg =
     bindE (require_positive ''high_water'' high_water) (\<lambda>hw.
     bindE (require_decimal RiskInputError ''equity'' (Some equity_arg)) (\<lambda>eq. Inr (max hw eq)))"

section \<open>Settlement\<close>

record settlement =
  st_quantity :: rat
  st_entry_price :: rat
  st_exit_price :: rat
  st_gross :: rat
  st_entry_fee :: rat
  st_exit_fee :: rat
  st_fees :: rat
  st_net :: rat
  st_outcome :: outcome

definition settle_long :: "decimal \<Rightarrow> decimal \<Rightarrow> decimal \<Rightarrow> decimal \<Rightarrow> py_exn + settlement" where
  "settle_long quantity entry_ask exit_bid fee_bps =
     bindE (require_positive ''quantity'' quantity) (\<lambda>q.
     bindE (require_positive ''entry_ask'' entry_ask) (\<lambda>a.
     bindE (require_positive ''exit_bid'' exit_bid) (\<lambda>b.
     bindE (require_nonnegative ''fee_bps'' fee_bps) (\<lambda>f.
     bindE (rdiv f BPS) (\<lambda>fee.
     bindE (cents (rmul q (rsub b a))) (\<lambda>gross.
     bindE (cents (rmul (rmul q a) fee)) (\<lambda>entry_fee.
     bindE (cents (rmul (rmul q b) fee)) (\<lambda>exit_fee.
     let fees = radd entry_fee exit_fee;
         net = rsub gross fees
     in Inr \<lparr>st_quantity = q, st_entry_price = a, st_exit_price = b, st_gross = gross,
             st_entry_fee = entry_fee, st_exit_fee = exit_fee, st_fees = fees, st_net = net,
             st_outcome = classify net\<rparr>))))))))"

section \<open>Facts\<close>

lemma RISK_CONTEXT_simps [simp]:
  "valid_ctx RISK_CONTEXT" "prec RISK_CONTEXT = 50" "ctx_rounding RISK_CONTEXT = ROUND_HALF_EVEN"
  by (simp_all add: RISK_CONTEXT_def valid_ctx_def)

lemma QUANTITY_CONTEXT_simps [simp]:
  "valid_ctx QUANTITY_CONTEXT" "prec QUANTITY_CONTEXT = 50" "ctx_rounding QUANTITY_CONTEXT = ROUND_FLOOR"
  by (simp_all add: QUANTITY_CONTEXT_def valid_ctx_def)

lemma require_decimal_Inr: "require_decimal er f v = Inr x \<longleftrightarrow> v = Some (DFin x)"
  by (cases v; simp; cases "the v"; simp)

lemma isinstance_decimal_Some: "isinstance_decimal v = Some d \<longleftrightarrow> (\<exists>l. v = PDec l \<and> literal_decimal l = d)"
  by (cases v) auto

lemma require_nonnegative_Inr [simp]: "require_nonnegative f v = Inr x \<longleftrightarrow> v = DFin x \<and> 0 \<le> x"
  by (cases v) (auto simp: require_nonnegative_def)

lemma require_positive_Inr [simp]: "require_positive f v = Inr x \<longleftrightarrow> v = DFin x \<and> 0 < x"
  by (cases v) (auto simp: require_positive_def)

lemma refuse_not_opened [simp]: "\<not> opened (refuse p r d)"
  by (simp add: opened_def refuse_def)

lemma below_minimum_None:
  "below_minimum q a rules = None \<longleftrightarrow> 0 < q \<and> ordermin rules \<le> q \<and> costmin rules \<le> rmul q a"
  by (auto simp: below_minimum_def Let_def)

subsection \<open>The sizing loop\<close>

lemma size_loop_cases:
  assumes "size_loop left room a st fee rules q p0 = res"
  obtains (refused) r d p1 where "res = Inr (refuse p1 r d)"
  | (raised) e where "final_costs q a st fee = Inl e" "res = Inl e"
  | (fits) costs where "below_minimum q a rules = None" "final_costs q a st fee = Inr costs" "fits costs room"
      "res = Inr (p0\<lparr>ep_passes := MAX_DOWNWARD_PASSES - left, ep_quantity := Some q, ep_costs := Some costs\<rparr>)"
  | (again) left' costs where "left = Suc left'" "below_minimum q a rules = None"
      "size_loop left' room a st fee rules (ctx_sub default_context q (lot rules))
         (p0\<lparr>ep_passes := MAX_DOWNWARD_PASSES - left, ep_quantity := Some q, ep_costs := Some costs\<rparr>) = res"
proof -
  note res = assms[unfolded size_loop.simps[of left] Let_def, symmetric]
  show thesis
  proof (cases "below_minimum q a rules")
    case (Some m)
    with res show thesis by (intro refused) simp
  next
    case minimum: None
    show thesis
    proof (cases "final_costs q a st fee")
      case (Inl e)
      with res minimum show thesis by (intro raised) simp_all
    next
      case (Inr costs)
      with res minimum show thesis
        by (cases "fits costs room"; cases left) (auto intro: refused fits again)
    qed
  qed
qed

lemma size_loop_opened:
  assumes "size_loop left room a st fee rules q p0 = Inr p" and "opened p"
  shows "\<exists>n q' costs. p = p0\<lparr>ep_passes := n, ep_quantity := Some q', ep_costs := Some costs\<rparr>
    \<and> n \<le> MAX_DOWNWARD_PASSES \<and> below_minimum q' a rules = None
    \<and> final_costs q' a st fee = Inr costs \<and> fits costs room"
  using assms
proof (induction left arbitrary: q p0)
  case 0
  from 0(1) show ?case
  proof (cases rule: size_loop_cases)
    case (fits costs)
    then show ?thesis by (intro exI[of _ "MAX_DOWNWARD_PASSES - 0"] exI[of _ q] exI[of _ costs]) simp
  qed (use 0(2) in auto)
next
  case (Suc left)
  from Suc.prems(1) show ?case
  proof (cases rule: size_loop_cases)
    case (fits costs)
    then show ?thesis by (intro exI[of _ "MAX_DOWNWARD_PASSES - Suc left"] exI[of _ q] exI[of _ costs]) simp
  next
    case (again left' costs)
    then show ?thesis using Suc.IH[OF _ Suc.prems(2)] by fastforce
  qed (use Suc.prems(2) in auto)
qed

text \<open>The loop always returns: it has at most four iterations and only a fee can be out of range.\<close>

lemma final_costs_Inl: "final_costs q a st fee = Inl e \<Longrightarrow> e = InvalidOperation"
  by (auto simp: final_costs_def Let_def bindE_eq_Inl cents_up_def dest: quantize_Inl)

lemma size_loop_error: "size_loop left room a st fee rules q p0 = Inl e \<Longrightarrow> e = InvalidOperation"
proof (induction left arbitrary: q p0)
  case 0
  then show ?case by (cases rule: size_loop_cases) (auto dest: final_costs_Inl)
next
  case (Suc left)
  from Suc.prems show ?case by (cases rule: size_loop_cases) (auto dest: final_costs_Inl Suc.IH)
qed

text \<open>What a plan that opened computed, and what it checked.\<close>

lemma plan_size_opened:
  assumes "plan_size env eq csh opl onl fee checked rules stressed per_unit p0 = Inr p" and "opened p"
  obtains room cands lq n q costs where
    "budget env (DFin eq) (DFin csh) opl onl = Inr room"
    "candidate_quantities room (ask checked) per_unit fee = Inr cands"
    "floor_to_lot (candidate_quantity cands) (lot_decimals rules) = Inr lq"
    "p = p0\<lparr>ep_budget := Some room, ep_candidates := Some cands, ep_lot_quantity := Some lq,
            ep_passes := n, ep_quantity := Some q, ep_costs := Some costs\<rparr>"
    "n \<le> MAX_DOWNWARD_PASSES" "below_minimum q (ask checked) rules = None"
    "final_costs q (ask checked) stressed fee = Inr costs" "fits costs room"
proof -
  obtain room cands lq where r: "budget env (DFin eq) (DFin csh) opl onl = Inr room"
    "candidate_quantities room (ask checked) per_unit fee = Inr cands"
    "floor_to_lot (candidate_quantity cands) (lot_decimals rules) = Inr lq"
    "size_loop MAX_DOWNWARD_PASSES room (ask checked) stressed fee rules lq
       (p0\<lparr>ep_budget := Some room, ep_candidates := Some cands, ep_lot_quantity := Some lq\<rparr>) = Inr p"
    using assms by (auto simp: plan_size_def bindE_eq_Inr Let_def split: if_splits)
  from size_loop_opened[OF r(4) assms(2)] r(1-3) that show ?thesis by blast
qed

lemma plan_levels_opened:
  assumes "plan_levels env eq csh opl onl fee checked atr rules p0 = Inr p" and "opened p"
  obtains levels stop target p1 where
    "exit_levels LONG checked (DFin atr) = Inr (Some levels)"
    "floor_to_step (lv_stop levels) (tick rules) = Inr stop"
    "floor_to_step (lv_target levels) (tick rules) = Inr target"
    "0 < stop" "stop < ask checked" "ask checked < target"
    "0 < stress_exit_price stop" "0 < loss_per_unit (ask checked) stop fee"
    "p1 = p0\<lparr>ep_levels := Some levels, ep_stop := Some stop, ep_target := Some target,
       ep_stress_exit_price := Some (stress_exit_price stop),
       ep_loss_per_unit := Some (loss_per_unit (ask checked) stop fee)\<rparr>"
    "plan_size env eq csh opl onl fee checked rules (stress_exit_price stop)
       (loss_per_unit (ask checked) stop fee) p1 = Inr p"
  using assms unfolding plan_levels_def bindE_eq_Inr Let_def
  by (auto simp: bindE_eq_Inr split: if_splits option.splits)

lemma plan_long_entry_opened:
  assumes "plan_long_entry env cur b a status atr entry eqv cashv opl onl fee_bps = Inr p" and "opened p"
  obtains fee checked catr rules eq csh where
    "fee_bps = DFin fee" "0 \<le> fee" "cur = PStr (currency env)"
    "validate_quote b a status = Inr checked" "validate_atr atr = Inr catr"
    "parse_pair_rules entry = Inr rules"
    "isinstance_decimal eqv = Some (DFin eq)" "0 < eq" "isinstance_decimal cashv = Some (DFin csh)"
    "plan_levels env eq csh opl onl fee checked catr rules
       ((new_plan fee)\<lparr>ep_quote := Some checked, ep_atr := Some catr, ep_rules := Some rules\<rparr>) = Inr p"
  using assms unfolding plan_long_entry_def bindE_eq_Inr Let_def
  by (auto split: if_splits sum.splits option.splits decimal.splits)

end
