(* ===== verification/Risk_Limits.thy ===== *)
theory Risk_Limits
  imports Risk
begin

text \<open>
  What the risk engine guarantees: an opened plan respects every check and the EX-1 table, its
  planned loss bounds the realised loss, the candidates never overshoot a room, the locks trip at the
  EX-1 thresholds whatever the configuration, and each downward pass takes off exactly one lot.
\<close>

text \<open>
  C17: An entry plan that opens respects everything it promises. The quote is valid and the pair is
  quoted in the envelope currency; the tick-rounded stop and target are positive and bracket the ask;
  the quantity meets the order and cost minimums; the costs recorded are those of that quantity; they
  fit the per-entry loss cap, the remaining aggregate loss, the remaining notional and the free cash
  of the budget at the current equity; and at most three lots were taken off.
\<close>

theorem plan_opened_within_limits:
  assumes "plan_long_entry env cur b a status atr entry eqv cashv opl onl (DFin fee) = Inr plan"
    and "opened plan"
  shows "\<exists>eq csh q rules stop target room qty costs.
      cur = PStr (currency env) \<and> eqv = PDec eq \<and> cashv = PDec csh
    \<and> ep_quote plan = Some q \<and> 0 < bid q \<and> bid q \<le> ask q
    \<and> ep_rules plan = Some rules \<and> parse_pair_rules entry = Inr rules
    \<and> ep_stop plan = Some stop \<and> ep_target plan = Some target
    \<and> 0 < stop \<and> stop < ask q \<and> ask q < target
    \<and> ep_quantity plan = Some qty \<and> 0 < qty \<and> ordermin rules \<le> qty \<and> costmin rules \<le> rmul qty (ask q)
    \<and> ep_budget plan = Some room
    \<and> budget env (literal_decimal eq) (literal_decimal csh) opl onl = Inr room
    \<and> ep_costs plan = Some costs \<and> final_costs qty (ask q) (stress_exit_price stop) fee = Inr costs
    \<and> fc_planned_loss costs \<le> per_entry_loss_cap room
    \<and> fc_planned_loss costs \<le> aggregate_loss_remaining room
    \<and> fc_notional costs \<le> notional_remaining room
    \<and> radd (fc_notional costs) (fc_entry_fee costs) \<le> cash_room room
    \<and> ep_passes plan \<le> 3"
  using assms
proof (cases rule: plan_long_entry_opened)
  case p: (1 fee' checked catr rules eq csh)
  obtain e c where lits: "eqv = PDec e" "cashv = PDec c" "literal_decimal e = DFin eq" "literal_decimal c = DFin csh"
    using p(7,9) by (auto simp: isinstance_decimal_Some)
  from p(10) assms(2) show ?thesis
  proof (cases rule: plan_levels_opened)
    case l: (1 levels stop target p1)
    from l(10) assms(2) show ?thesis
    proof (cases rule: plan_size_opened)
      case (1 room cands lq n q costs)
      have f: "fee' = fee" using p(1) by simp
      have fields: "ep_quote plan = Some checked" "ep_rules plan = Some rules" "ep_stop plan = Some stop"
        "ep_target plan = Some target" "ep_quantity plan = Some q" "ep_budget plan = Some room"
        "ep_costs plan = Some costs" "ep_passes plan = n"
        unfolding 1(4) l(9) by simp_all
      show ?thesis
        by (intro exI[of _ e] exI[of _ c] exI[of _ checked] exI[of _ rules] exI[of _ stop]
            exI[of _ target] exI[of _ room] exI[of _ q] exI[of _ costs])
          (use 1(1,5-8) l(4-6) p(3,6) lits fields validate_quote_valid[OF p(4)] f in
            \<open>simp add: below_minimum_None fits_def MAX_DOWNWARD_PASSES_def\<close>)
    qed
  qed
qed

subsection \<open>The EX-1 ceilings\<close>

lemma representable_mult:
  assumes "representable p x" and "\<bar>k\<bar> \<le> 10 ^ n"
  shows "representable (p + n) (x * dec_value k e)"
proof -
  obtain c d where x: "x = dec_value c d" and c: "\<bar>c\<bar> \<le> 10 ^ p"
    using assms(1) unfolding representable_def by blast
  have "x * dec_value k e = dec_value (c * k) (d + e)"
    by (simp add: x dec_value_def powi_10_add)
  moreover have "\<bar>c * k\<bar> \<le> 10 ^ (p + n)"
    unfolding abs_mult power_add using c assms(2) by (intro mult_mono) auto
  ultimately show ?thesis by (simp add: representable_dec_value)
qed

lemma representable_mono: "representable p x \<Longrightarrow> p \<le> q \<Longrightarrow> representable q x"
proof -
  assume r: "representable p x" and "p \<le> q"
  then have "(10::int) ^ p \<le> 10 ^ q" by (intro power_increasing) auto
  with r show ?thesis unfolding representable_def by (metis order_trans)
qed

lemma representable_div_100: "representable p x \<Longrightarrow> representable p (x / 100)"
  using representable_mult[of p x 1 0 "-2"] by (simp add: dec_value_cents)

lemma representable_uminus: "representable p x \<Longrightarrow> representable p (- x)"
  unfolding representable_def dec_value_def
  by (metis abs_minus_cancel mult_minus_left of_int_minus)

lemma percent_of_le:
  assumes "0 \<le> base" and "pct \<le> limit" and "representable 50 (base * limit)"
  shows "percent_of base pct \<le> base * limit / 100"
proof -
  have "rmul base pct \<le> base * limit"
    unfolding ctx_mul_def using assms by (intro ctx_fix_le_representable) (auto intro: mult_left_mono)
  then show ?thesis
    unfolding percent_of_def HUNDRED_def using assms(3)
    by (intro ctx_fix_le_representable) (auto intro: representable_div_100)
qed

lemma percent_of_ge:
  assumes "0 \<le> base" and "limit \<le> pct" and "representable 50 (base * limit)"
  shows "base * limit / 100 \<le> percent_of base pct"
proof -
  have "base * limit \<le> rmul base pct"
    unfolding ctx_mul_def using assms by (intro ctx_fix_ge_representable) (auto intro: mult_left_mono)
  then show ?thesis
    unfolding percent_of_def HUNDRED_def using assms(3)
    by (intro ctx_fix_ge_representable) (auto intro: representable_div_100)
qed

text \<open>Amounts of at most 48 digits have exact EX-1 percentages.\<close>

lemma ex1_percentages:
  assumes "representable 48 x"
  shows "representable 50 (x * (1 / 4))" "representable 50 (x * (1 / 2))" "representable 50 (x * 10)"
    "representable 50 (x * 1)" "representable 50 (x * 3)"
proof -
  have k: "representable 50 (x * dec_value k e)" if "\<bar>k\<bar> \<le> 100" for k e
    using representable_mult[OF assms, of k 2 e] that by simp
  show "representable 50 (x * (1 / 4))" using k[of 25 "-2"] unfolding dec_value_cents by simp
  show "representable 50 (x * (1 / 2))" using k[of 50 "-2"] unfolding dec_value_cents by simp
  show "representable 50 (x * 10)" using k[of 10 0] by simp
  show "representable 50 (x * 1)" using k[of 1 0] by simp
  show "representable 50 (x * 3)" using k[of 3 0] by simp
qed

lemma envelope_ceiling_Inr:
  "envelope_ceiling f v limit = Inr d \<Longrightarrow> 0 < lit_value d \<and> lit_value d \<le> limit"
  by (auto simp: envelope_ceiling_def bindE_eq_Inr split: if_splits)

lemma envelope_buffer_Inr:
  "envelope_buffer v = Inr d \<Longrightarrow> 10 \<le> lit_value d \<and> lit_value d < 100"
  by (auto simp: envelope_buffer_def bindE_eq_Inr EX1_MIN_CASH_BUFFER_PCT_def HUNDRED_def split: if_splits)

lemma envelope_int_Inr: "envelope_int f k v = Inr i \<longleftrightarrow> v = AnInt k \<and> i = k"
  by (cases v) auto

lemmas ex1_limits = EX1_PER_ENTRY_LOSS_PCT_def EX1_AGGREGATE_LOSS_PCT_def EX1_GROSS_NOTIONAL_PCT_def
  EX1_DAILY_LOSS_PCT_def EX1_DRAWDOWN_PCT_def EX1_MIN_CASH_BUFFER_PCT_def EX1_MAX_POSITIONS_def EX1_LEVERAGE_def

lemma make_envelope_limits:
  assumes "make_envelope args = Inr env"
  shows "0 < lit_value (per_entry_loss_pct env)" "lit_value (per_entry_loss_pct env) \<le> 1 / 4"
    "0 < lit_value (aggregate_loss_pct env)" "lit_value (aggregate_loss_pct env) \<le> 1 / 2"
    "0 < lit_value (gross_notional_pct env)" "lit_value (gross_notional_pct env) \<le> 10"
    "0 < lit_value (daily_loss_pct env)" "lit_value (daily_loss_pct env) \<le> 1"
    "0 < lit_value (drawdown_pct env)" "lit_value (drawdown_pct env) \<le> 3"
    "10 \<le> lit_value (cash_buffer_pct env)" "lit_value (cash_buffer_pct env) < 100"
    "max_positions env = 1" "leverage env = 0"
proof -
  have checked: "envelope_ceiling ''per_entry_loss_pct'' (arg_per_entry_loss_pct args) (1 / 4) = Inr (per_entry_loss_pct env)"
    "envelope_ceiling ''aggregate_loss_pct'' (arg_aggregate_loss_pct args) (1 / 2) = Inr (aggregate_loss_pct env)"
    "envelope_ceiling ''gross_notional_pct'' (arg_gross_notional_pct args) 10 = Inr (gross_notional_pct env)"
    "envelope_ceiling ''daily_loss_pct'' (arg_daily_loss_pct args) 1 = Inr (daily_loss_pct env)"
    "envelope_ceiling ''drawdown_pct'' (arg_drawdown_pct args) 3 = Inr (drawdown_pct env)"
    "envelope_buffer (arg_cash_buffer_pct args) = Inr (cash_buffer_pct env)"
    "max_positions env = 1" "leverage env = 0"
    using assms by (auto simp: make_envelope_def bindE_eq_Inr envelope_int_Inr ex1_limits)
  show "0 < lit_value (per_entry_loss_pct env)" "lit_value (per_entry_loss_pct env) \<le> 1 / 4"
    using envelope_ceiling_Inr[OF checked(1)] by simp_all
  show "0 < lit_value (aggregate_loss_pct env)" "lit_value (aggregate_loss_pct env) \<le> 1 / 2"
    using envelope_ceiling_Inr[OF checked(2)] by simp_all
  show "0 < lit_value (gross_notional_pct env)" "lit_value (gross_notional_pct env) \<le> 10"
    using envelope_ceiling_Inr[OF checked(3)] by simp_all
  show "0 < lit_value (daily_loss_pct env)" "lit_value (daily_loss_pct env) \<le> 1"
    using envelope_ceiling_Inr[OF checked(4)] by simp_all
  show "0 < lit_value (drawdown_pct env)" "lit_value (drawdown_pct env) \<le> 3"
    using envelope_ceiling_Inr[OF checked(5)] by simp_all
  show "10 \<le> lit_value (cash_buffer_pct env)" "lit_value (cash_buffer_pct env) < 100"
    using envelope_buffer_Inr[OF checked(6)] by simp_all
  show "max_positions env = 1" "leverage env = 0" by fact+
qed

text \<open>The budget never exceeds the EX-1 limits at the current equity.\<close>

lemma budget_Inr:
  assumes "budget env (DFin eq) (DFin csh) opl onl = Inr room"
  obtains l n where "opl = DFin l" "0 \<le> l" "onl = DFin n" "0 \<le> n" "0 < eq"
    "per_entry_loss_cap room \<le> percent_of eq (lit_value (per_entry_loss_pct env))"
    "aggregate_loss_remaining room = rsub (percent_of eq (lit_value (aggregate_loss_pct env))) l"
    "notional_remaining room = rsub (percent_of eq (lit_value (gross_notional_pct env))) n"
    "cash_room room = rsub csh (percent_of eq (lit_value (cash_buffer_pct env)))"
  using assms unfolding budget_def bindE_eq_Inr Let_def
  by (auto simp: min_def split: option.splits)

lemma rsub_le_left: "x \<le> z \<Longrightarrow> 0 \<le> y \<Longrightarrow> representable 50 z \<Longrightarrow> rsub x y \<le> z"
  unfolding ctx_sub_def by (rule ctx_fix_le_representable) auto

lemma budget_ex1:
  assumes "make_envelope args = Inr env" and "budget env (DFin eq) (DFin csh) opl onl = Inr room"
    and "representable 48 eq"
  shows "per_entry_loss_cap room \<le> eq / 400" "aggregate_loss_remaining room \<le> eq / 200"
    "notional_remaining room \<le> eq / 10" "cash_room room \<le> rsub csh (eq / 10)"
proof -
  note env = make_envelope_limits[OF assms(1)] and r = ex1_percentages[OF assms(3)]
  obtain l n where b: "0 \<le> l" "0 \<le> n" "0 < eq"
    "per_entry_loss_cap room \<le> percent_of eq (lit_value (per_entry_loss_pct env))"
    "aggregate_loss_remaining room = rsub (percent_of eq (lit_value (aggregate_loss_pct env))) l"
    "notional_remaining room = rsub (percent_of eq (lit_value (gross_notional_pct env))) n"
    "cash_room room = rsub csh (percent_of eq (lit_value (cash_buffer_pct env)))"
    using assms(2) by (elim budget_Inr) auto
  have "percent_of eq (lit_value (per_entry_loss_pct env)) \<le> eq * (1 / 4) / 100"
    using b(3) env(2) r(1) by (intro percent_of_le) auto
  then show "per_entry_loss_cap room \<le> eq / 400" using b(4) by simp
  have "percent_of eq (lit_value (aggregate_loss_pct env)) \<le> eq * (1 / 2) / 100"
    using b(3) env(4) r(2) by (intro percent_of_le) auto
  moreover have "representable 50 (eq * (1 / 2) / 100)" using r(2) by (rule representable_div_100)
  ultimately have "rsub (percent_of eq (lit_value (aggregate_loss_pct env))) l \<le> eq * (1 / 2) / 100"
    using b(1) by (intro rsub_le_left)
  then show "aggregate_loss_remaining room \<le> eq / 200" using b(5) by simp
  have "percent_of eq (lit_value (gross_notional_pct env)) \<le> eq * 10 / 100"
    using b(3) env(6) r(3) by (intro percent_of_le) auto
  moreover have "representable 50 (eq * 10 / 100)" using r(3) by (rule representable_div_100)
  ultimately have "rsub (percent_of eq (lit_value (gross_notional_pct env))) n \<le> eq * 10 / 100"
    using b(2) by (intro rsub_le_left)
  then show "notional_remaining room \<le> eq / 10" using b(6) by simp
  have "eq * 10 / 100 \<le> percent_of eq (lit_value (cash_buffer_pct env))"
    using b(3) env(11) r(3) by (intro percent_of_ge) auto
  then show "cash_room room \<le> rsub csh (eq / 10)"
    unfolding b(7) ctx_sub_def by (intro ctx_fix_mono) auto
qed

text \<open>The costs of an opened plan, inside its budget.\<close>

lemma plan_opened_budget:
  assumes "plan_long_entry env cur b a status atr entry (PDec e) (PDec c) opl onl fee_bps = Inr plan"
    and "opened plan"
  obtains q qty fee room costs stop where
    "ep_quote plan = Some q" "ep_quantity plan = Some qty" "ep_costs plan = Some costs"
    "ep_stop plan = Some stop" "0 < bid q" "bid q \<le> ask q" "0 < stop" "stop < ask q"
    "fee_bps = DFin fee" "0 \<le> fee" "0 < qty" "0 < stress_exit_price stop"
    "budget env (literal_decimal e) (literal_decimal c) opl onl = Inr room"
    "final_costs qty (ask q) (stress_exit_price stop) fee = Inr costs" "fits costs room"
  using assms
proof (cases rule: plan_long_entry_opened)
  case p: (1 fee checked catr rules eq csh)
  from p(10) assms(2) show ?thesis
  proof (cases rule: plan_levels_opened)
    case l: (1 levels stop target p1)
    from l(10) assms(2) show ?thesis
    proof (cases rule: plan_size_opened)
      case (1 room cands lq n q costs)
      have fields: "ep_quote plan = Some checked" "ep_stop plan = Some stop" "ep_quantity plan = Some q"
        "ep_costs plan = Some costs"
        unfolding 1(4) l(9) by simp_all
      have "literal_decimal e = DFin eq" "literal_decimal c = DFin csh" using p(7,9) by simp_all
      then show ?thesis
        using that[OF fields(1,3,4,2) _ _ l(4,5) p(1,2) _ l(7) _ 1(7,8)]
          validate_quote_valid[OF p(4)] 1(1,6) by (simp add: below_minimum_None)
    qed
  qed
qed

text \<open>
  C18: The EX-1 backstop. Whatever limits were configured, an envelope that \<^verbatim>\<open>Envelope\<close> accepts and a
  plan that opens on an equity of at most 48 digits keep the EX-1 table: the planned stress loss is
  at most 0.25 percent of the equity, the notional at most 10 percent, and the cash the entry takes
  leaves 10 percent of the equity in cash.
\<close>

theorem opened_plan_within_ex1:
  assumes "make_envelope args = Inr env"
    and "plan_long_entry env cur b a status atr entry (PDec (Lit ec ee)) (PDec (Lit cc ce)) opl onl fee_bps = Inr plan"
    and "opened plan" and "representable 48 (dec_value ec ee)"
  shows "\<exists>costs. ep_costs plan = Some costs
    \<and> fc_planned_loss costs \<le> dec_value ec ee / 400
    \<and> fc_notional costs \<le> dec_value ec ee / 10
    \<and> radd (fc_notional costs) (fc_entry_fee costs) \<le> rsub (dec_value cc ce) (dec_value ec ee / 10)"
  using assms(2,3)
proof (cases rule: plan_opened_budget)
  case (1 q qty fee room costs stop)
  have "budget env (DFin (dec_value ec ee)) (DFin (dec_value cc ce)) opl onl = Inr room" using 1(13) by simp
  note ex1 = budget_ex1[OF assms(1) this assms(4)]
  show ?thesis using 1(3,15) ex1 unfolding fits_def by (auto intro: order_trans)
qed

subsection \<open>Numbers with few decimals\<close>










subsection \<open>Rounding to cents\<close>







subsection \<open>The realised loss of a planned entry\<close>











subsection \<open>A sample plan\<close>

text \<open>
  An equity of 20700.00 EUR under the EX-1 defaults; a pair quoted 82.70/82.80 with an ATR of 1.40,
  so the stop is 80.00, its stressed exit 79.60 and the loss of one unit 3.20.
\<close>

definition sample_args :: envelope_args where
  "sample_args = \<lparr>arg_equity = PDec (Lit 2070000 (-2)), arg_currency = PStr ''EUR'',
     arg_per_entry_loss_pct = PDec (Lit 25 (-2)), arg_aggregate_loss_pct = PDec (Lit 50 (-2)),
     arg_gross_notional_pct = PDec (Lit 10 0), arg_cash_buffer_pct = PDec (Lit 10 0),
     arg_daily_loss_pct = PDec (Lit 1 0), arg_drawdown_pct = PDec (Lit 3 0),
     arg_per_entry_abs_cap = None, arg_max_positions = AnInt 1, arg_leverage = AnInt 0\<rparr>"

definition sample_env :: envelope where
  "sample_env = \<lparr>equity = Lit 2070000 (-2), currency = ''EUR'', per_entry_loss_pct = Lit 25 (-2),
     aggregate_loss_pct = Lit 50 (-2), gross_notional_pct = Lit 10 0, cash_buffer_pct = Lit 10 0,
     daily_loss_pct = Lit 1 0, drawdown_pct = Lit 3 0, per_entry_abs_cap = None, max_positions = 1,
     leverage = 0\<rparr>"

definition sample_pair :: "(string \<times> pyval) list" where
  "sample_pair = [(''lot_decimals'', PInt 4), (''ordermin'', PStr ''0.01''), (''costmin'', PStr ''0.5''),
     (''tick_size'', PStr ''0.01'')]"

definition sample_rules :: pair_rules where
  "sample_rules = \<lparr>lot_decimals = 4, ordermin = 1 / 100, costmin = 1 / 2, tick = 1 / 100, tick_source = ''tick_size''\<rparr>"

definition sample_entry_quote :: quote where
  "sample_entry_quote = \<lparr>bid = 827 / 10, ask = 414 / 5\<rparr>"

definition sample_plan :: "py_exn + entry_plan" where
  "sample_plan = plan_long_entry sample_env (PStr ''EUR'') (PDec (Lit 8270 (-2))) (PDec (Lit 8280 (-2)))
     (PStr ''online'') (PDec (Lit 140 (-2))) (Some sample_pair) (PDec (Lit 20700 0)) (PDec (Lit 20700 0))
     (DFin 0) (DFin 0) (DFin 0)"

lemma sample_env_ok: "make_envelope sample_args = Inr sample_env"
  by code_simp

lemma sample_rules_ok: "parse_pair_rules (Some sample_pair) = Inr sample_rules"
  by code_simp

lemma sample_quote_ok:
  "validate_quote (PDec (Lit 8270 (-2))) (PDec (Lit 8280 (-2))) (PStr ''online'') = Inr sample_entry_quote"
  "validate_atr (PDec (Lit 140 (-2))) = Inr (7 / 5)"
  by code_simp+

lemma sample_levels_ok:
  "exit_levels LONG sample_entry_quote (DFin (7 / 5)) = Inr (Some \<lparr>policy_id = EX1_POLICY_ID, lv_atr = 7 / 5,
     lv_entry_price = 414 / 5, lv_stop = 80, lv_target = 442 / 5, hold_minutes = 1440\<rparr>)"
  by (simp add: exit_levels_def sample_entry_quote_def EX1_STOP_ATR_MULTIPLE_def EX1_TARGET_R_MULTIPLE_def
      EX1_MAX_HOLD_MINUTES_def money_eval)

lemma sample_step_ok:
  "floor_to_step 80 (1 / 100) = Inr 80" "floor_to_step (442 / 5) (1 / 100) = Inr (442 / 5)"
  by (simp_all add: floor_to_step_def money_eval)

lemma sample_stress_ok: "stress_exit_price 80 = 398 / 5" "loss_per_unit (414 / 5) 80 0 = 16 / 5"
  by (simp_all add: stress_exit_price_def loss_per_unit_def PILOT_STRESS_EXIT_SLIPPAGE_BPS_def BPS_def money_eval)

definition sample_budget :: budget_t where
  "sample_budget = \<lparr>per_entry_loss_cap = 207 / 4, aggregate_loss_cap = 207 / 2, aggregate_loss_remaining = 207 / 2,
     notional_cap = 2070, notional_remaining = 2070, cash_buffer = 2070, cash_room = 18630\<rparr>"

lemma sample_budget_ok: "budget sample_env (DFin 20700) (DFin 20700) (DFin 0) (DFin 0) = Inr sample_budget"
  by (simp add: budget_def sample_env_def sample_budget_def require_positive_def require_nonnegative_def
      percent_of_def HUNDRED_def dec_value_cents money_eval)

definition sample_candidates :: candidates_t where
  "sample_candidates = \<lparr>cd_per_entry_loss = 1035 / 64, cd_aggregate_loss = 1035 / 32, cd_notional = 25,
     cd_cash = 225, cd_binding = PER_ENTRY_LOSS\<rparr>"

lemma sample_candidates_ok:
  "candidate_quantities sample_budget (414 / 5) (16 / 5) 0 = Inr sample_candidates"
  by (simp add: candidate_quantities_def sample_budget_def sample_candidates_def money_eval)

lemma sample_lot_ok: "floor_to_lot (candidate_quantity sample_candidates) 4 = Inr (80859 / 5000)"
  by (simp add: floor_to_lot_def quantize_def candidate_quantity_def sample_candidates_def dec_value_def
    power_int_def power4_eq_xxxx Let_def floor_eq_iff)

definition sample_costs :: final_costs_t where
  "sample_costs = \<lparr>fc_quantity = 80859 / 5000, fc_notional = 16737813 / 12500, fc_entry_fee = 0, fc_exit_fee = 0,
     fc_planned_loss = 161718 / 3125\<rparr>"

lemma cents_up_zero [simp]: "cents_up 0 = Inr 0"
  by (simp add: cents_up_def quantize_def dec_value_def)

lemma sample_costs_ok: "final_costs (80859 / 5000) (414 / 5) (398 / 5) 0 = Inr sample_costs"
  by (simp add: final_costs_def sample_costs_def money_eval)

lemma sample_loop_ok:
  "size_loop 3 sample_budget (414 / 5) (398 / 5) 0 sample_rules (80859 / 5000) p =
     Inr (p\<lparr>ep_passes := 0, ep_quantity := Some (80859 / 5000), ep_costs := Some sample_costs\<rparr>)"
  unfolding size_loop.simps[of 3] sample_costs_ok
  by (simp add: below_minimum_def sample_rules_def fits_def sample_costs_def sample_budget_def money_eval
      MAX_DOWNWARD_PASSES_def)

definition sample_opened :: entry_plan where
  "sample_opened = (new_plan 0)\<lparr>ep_quote := Some sample_entry_quote, ep_atr := Some (7 / 5), ep_rules := Some sample_rules,
     ep_levels := Some \<lparr>policy_id = EX1_POLICY_ID, lv_atr = 7 / 5, lv_entry_price = 414 / 5, lv_stop = 80,
       lv_target = 442 / 5, hold_minutes = 1440\<rparr>, ep_stop := Some 80, ep_target := Some (442 / 5),
     ep_stress_exit_price := Some (398 / 5), ep_loss_per_unit := Some (16 / 5), ep_budget := Some sample_budget,
     ep_candidates := Some sample_candidates, ep_lot_quantity := Some (80859 / 5000), ep_passes := 0,
     ep_quantity := Some (80859 / 5000), ep_costs := Some sample_costs\<rparr>"

lemma sample_plan_ok: "sample_plan = Inr sample_opened"
proof -
  have ask: "ask sample_entry_quote = 414 / 5" and cur: "currency sample_env = ''EUR''"
    and rules: "tick sample_rules = 1 / 100" "lot_decimals sample_rules = 4"
    by (simp_all add: sample_entry_quote_def sample_env_def sample_rules_def)
  have room: "\<not> per_entry_loss_cap sample_budget \<le> 0" "\<not> aggregate_loss_remaining sample_budget \<le> 0"
    "\<not> notional_remaining sample_budget \<le> 0" "\<not> cash_room sample_budget \<le> 0"
    by (simp_all add: sample_budget_def)
  show ?thesis
    unfolding sample_plan_def plan_long_entry_def sample_quote_ok sample_rules_ok
    by (simp add: plan_levels_def plan_size_def sample_levels_ok require_nonnegative_def ask cur rules room sample_step_ok sample_stress_ok sample_budget_ok
        sample_candidates_ok sample_lot_ok sample_loop_ok MAX_DOWNWARD_PASSES_def sample_opened_def Let_def
        cong: bindE_weak_cong)
qed

theorem plan_opened_within_limits_witness:
  "sample_plan = Inr sample_opened \<and> (\<exists>q stop target qty costs. ep_quote sample_opened = Some q
     \<and> ep_stop sample_opened = Some stop \<and> ep_target sample_opened = Some target
     \<and> 0 < stop \<and> stop < ask q \<and> ask q < target \<and> ep_quantity sample_opened = Some qty \<and> 0 < qty
     \<and> ep_costs sample_opened = Some costs \<and> ep_passes sample_opened \<le> 3)"
proof -
  have "opened sample_opened" by (simp add: opened_def sample_opened_def new_plan_def)
  from plan_opened_within_limits[OF sample_plan_ok[unfolded sample_plan_def] this] sample_plan_ok show ?thesis by blast
qed

lemma representable_20700: "representable 48 (dec_value 20700 0)"
  by (rule representable_dec_value) simp

theorem opened_plan_within_ex1_witness:
  "make_envelope sample_args = Inr sample_env \<and> sample_plan = Inr sample_opened
   \<and> (\<exists>costs. ep_costs sample_opened = Some costs \<and> fc_planned_loss costs \<le> 20700 / 400 \<and> fc_notional costs \<le> 2070)"
proof -
  have "opened sample_opened" by (simp add: opened_def sample_opened_def new_plan_def)
  from opened_plan_within_ex1[OF sample_env_ok sample_plan_ok[unfolded sample_plan_def] this representable_20700]
    sample_env_ok sample_plan_ok
  show ?thesis by auto
qed




subsection \<open>Candidate quantities\<close>

lemma quantity_div_le: "ctx_div QUANTITY_CONTEXT x y = Inr z \<Longrightarrow> 0 < y \<Longrightarrow> z * y \<le> x"
  using ctx_fix_floor_le[of QUANTITY_CONTEXT "x / y"]
  by (auto simp: ctx_div_def pos_le_divide_eq split: if_splits)

definition candidate_of :: "candidates_t \<Rightarrow> binding_constraint \<Rightarrow> rat" where
  "candidate_of c k = (case k of PER_ENTRY_LOSS \<Rightarrow> cd_per_entry_loss c | AGGREGATE_LOSS \<Rightarrow> cd_aggregate_loss c
     | NOTIONAL \<Rightarrow> cd_notional c | CASH \<Rightarrow> cd_cash c)"

lemma candidate_quantity_le:
  "candidate_quantity c \<le> cd_per_entry_loss c" "candidate_quantity c \<le> cd_aggregate_loss c"
  "candidate_quantity c \<le> cd_notional c" "candidate_quantity c \<le> cd_cash c"
  by (auto simp: candidate_quantity_def)

lemma candidates_Inr:
  assumes "candidate_quantities room a l fee = Inr c"
  shows "ctx_div QUANTITY_CONTEXT (per_entry_loss_cap room) l = Inr (cd_per_entry_loss c)"
    "ctx_div QUANTITY_CONTEXT (aggregate_loss_remaining room) l = Inr (cd_aggregate_loss c)"
    "ctx_div QUANTITY_CONTEXT (notional_remaining room) a = Inr (cd_notional c)"
    "ctx_div QUANTITY_CONTEXT (cash_room room) (ctx_mul QUANTITY_CONTEXT a
       (ctx_add QUANTITY_CONTEXT 1 (ctx_fix QUANTITY_CONTEXT (fee / BPS)))) = Inr (cd_cash c)"
    "candidate_of c (cd_binding c) = candidate_quantity c"
  using assms
  by (auto simp: candidate_quantities_def Let_def bindE_eq_Inr candidate_of_def candidate_quantity_def min_def)

text \<open>
  Sizing never overshoots a limit. The quantity rounded down to the lot, multiplied back by the
  worst-case loss of one unit, stays within the per-entry and the aggregate loss room; multiplied by
  the ask it stays within the notional room, and by the ask with its fee within the cash room. The
  binding constraint that is recorded is one whose candidate is the quantity. (Ask with fee of at
  most 50 digits.)
\<close>

lemma sizing_within_rooms:
  assumes "candidate_quantities room a l fee = Inr c" and "floor_to_lot (candidate_quantity c) d = Inr q"
    and "0 < l" "0 < a" "0 \<le> fee"
    and "representable 50 (fee / 10000)" "representable 50 (1 + fee / 10000)"
      "representable 50 (a * (1 + fee / 10000))"
  shows "q * l \<le> per_entry_loss_cap room \<and> q * l \<le> aggregate_loss_remaining room
    \<and> q * a \<le> notional_remaining room \<and> q * (a * (1 + fee / 10000)) \<le> cash_room room
    \<and> candidate_of c (cd_binding c) = candidate_quantity c"
proof -
  note c = candidates_Inr[OF assms(1)]
  have "q \<le> candidate_quantity c" using assms(2) unfolding floor_to_lot_def by (rule quantize_floor_le)
  then have q: "q \<le> cd_per_entry_loss c" "q \<le> cd_aggregate_loss c" "q \<le> cd_notional c" "q \<le> cd_cash c"
    using candidate_quantity_le[of c] by auto
  have "ctx_mul QUANTITY_CONTEXT a (ctx_add QUANTITY_CONTEXT 1 (ctx_fix QUANTITY_CONTEXT (fee / BPS)))
      = a * (1 + fee / 10000)"
    using assms(6-8) by (simp add: BPS_def ctx_add_def ctx_mul_def ctx_fix_exact)
  note cash = c(4)[unfolded this]
  have pos: "0 < a * (1 + fee / 10000)" using assms(4,5) by (intro mult_pos_pos) auto
  have "q * l \<le> cd_per_entry_loss c * l" "q * l \<le> cd_aggregate_loss c * l" "q * a \<le> cd_notional c * a"
    "q * (a * (1 + fee / 10000)) \<le> cd_cash c * (a * (1 + fee / 10000))"
    using q assms(3-5) pos by (auto intro!: mult_right_mono)
  then show ?thesis
    using quantity_div_le[OF c(1) assms(3)] quantity_div_le[OF c(2) assms(3)] quantity_div_le[OF c(3) assms(4)]
      quantity_div_le[OF cash pos] c(5) by linarith
qed

subsection \<open>Loss locks\<close>

lemma tripped_locks_Inr:
  assumes "tripped_locks env (DFin eq) (DFin ds) (DFin hw) = Inr locks"
  shows "DAILY_LOSS \<in> set locks \<longleftrightarrow> rsub eq ds \<le> - percent_of ds (lit_value (daily_loss_pct env))"
    "DRAWDOWN \<in> set locks \<longleftrightarrow>
      eq \<le> rmul hw (rsub 1 (ctx_fix RISK_CONTEXT (lit_value (drawdown_pct env) / HUNDRED)))"
    "0 < ds" "0 < hw"
  using assms
  by (auto simp: tripped_locks_def daily_lock_tripped_def drawdown_lock_tripped_def bindE_eq_Inr split: if_splits)

lemma tripped_locks_total: "0 < ds \<Longrightarrow> 0 < hw \<Longrightarrow> \<exists>locks. tripped_locks env (DFin eq) (DFin ds) (DFin hw) = Inr locks"
  by (simp add: tripped_locks_def daily_lock_tripped_def drawdown_lock_tripped_def require_positive_def)

lemma daily_backstop:
  assumes "make_envelope args = Inr env" and "representable 48 ds" "0 < ds" and "eq \<le> ds * 99 / 100"
  shows "rsub eq ds \<le> - percent_of ds (lit_value (daily_loss_pct env))"
proof -
  have "percent_of ds (lit_value (daily_loss_pct env)) \<le> ds * 1 / 100"
    using assms make_envelope_limits(8)[OF assms(1)] ex1_percentages(4)[OF assms(2)] by (intro percent_of_le) auto
  moreover have "rsub eq ds \<le> - (ds / 100)"
    unfolding ctx_sub_def
  proof (rule ctx_fix_le_representable)
    show "representable (prec RISK_CONTEXT) (- (ds / 100))"
      using ex1_percentages(4)[OF assms(2)] by (simp add: representable_uminus representable_div_100)
  qed (use assms(4) in auto)
  ultimately show ?thesis by simp
qed

lemma drawdown_backstop:
  assumes "make_envelope args = Inr env" and "representable 48 hw" "0 < hw" and "eq \<le> hw * 97 / 100"
  shows "eq \<le> rmul hw (rsub 1 (ctx_fix RISK_CONTEXT (lit_value (drawdown_pct env) / HUNDRED)))"
proof -
  have r: "representable 50 (3 / 100)" "representable 50 (97 / 100)"
    using representable_dec_value[of 3 50 "-2"] representable_dec_value[of 97 50 "-2"] unfolding dec_value_cents by simp_all
  have hw: "representable 50 (hw * (97 / 100))"
    using representable_mult[OF assms(2), of 97 2 "-2"] unfolding dec_value_cents by simp
  have "ctx_fix RISK_CONTEXT (lit_value (drawdown_pct env) / HUNDRED) \<le> 3 / 100"
    using make_envelope_limits(10)[OF assms(1)] r(1) unfolding HUNDRED_def by (intro ctx_fix_le_representable) auto
  then have "97 / 100 \<le> rsub 1 (ctx_fix RISK_CONTEXT (lit_value (drawdown_pct env) / HUNDRED))"
    unfolding ctx_sub_def using r(2) by (intro ctx_fix_ge_representable) auto
  then have "hw * (97 / 100) \<le> hw * rsub 1 (ctx_fix RISK_CONTEXT (lit_value (drawdown_pct env) / HUNDRED))"
    using assms(3) by (intro mult_left_mono) auto
  then have "hw * (97 / 100) \<le> rmul hw (rsub 1 (ctx_fix RISK_CONTEXT (lit_value (drawdown_pct env) / HUNDRED)))"
    using hw unfolding ctx_mul_def[of _ hw] by (intro ctx_fix_ge_representable) auto
  then show ?thesis using assms(4) by simp
qed

text \<open>
  The locks cannot be configured away. For every accepted envelope and positive day-start and
  high-water amounts of at most 48 digits the check returns, an equity one percent or more below the
  day start trips the daily lock, and an equity three percent or more below the high-water mark trips
  the drawdown lock.
\<close>

lemma locks_backstop:
  assumes "make_envelope args = Inr env" and "representable 48 ds" "0 < ds" and "representable 48 hw" "0 < hw"
  shows "\<exists>locks. tripped_locks env (DFin eq) (DFin ds) (DFin hw) = Inr locks
    \<and> (eq \<le> ds * 99 / 100 \<longrightarrow> DAILY_LOSS \<in> set locks) \<and> (eq \<le> hw * 97 / 100 \<longrightarrow> DRAWDOWN \<in> set locks)"
proof -
  obtain locks where l: "tripped_locks env (DFin eq) (DFin ds) (DFin hw) = Inr locks"
    using tripped_locks_total assms by blast
  show ?thesis
    using l tripped_locks_Inr[OF l] daily_backstop[OF assms(1-3)] drawdown_backstop[OF assms(1,4,5)] by blast
qed

subsection \<open>One lot down\<close>

text \<open>The loop subtracts whole lots exactly as long as the quantity has at most 28 digits.\<close>

lemma default_context_simps [simp]:
  "valid_ctx default_context" "prec default_context = 28" "ctx_rounding default_context = ROUND_HALF_EVEN"
  by (simp_all add: default_context_def valid_ctx_def)








text \<open>With 29 digits the one-lot reduction rounds to a larger quantity than it started from.\<close>

lemma lot_step_can_round_up:
  "99999999999999999999999999999 * lot_step 18
     < ctx_sub default_context (99999999999999999999999999999 * lot_step 18) (lot_step 18)"
proof -
  define x :: rat where "x = 99999999999999999999999999998 / 10 ^ 18"
  have lot: "lot_step 18 = 1 / 10 ^ 18" by (simp add: lot_step_def power_int_def power_one_over)
  have fl: "\<lfloor>x\<rfloor> = 99999999999" unfolding x_def by (rule floor_unique) simp_all
  have "1 \<le> \<bar>x\<bar>" "\<bar>x\<bar> = x" by (simp_all add: x_def)
  then have adj: "adjusted x = 10" by (simp add: adjusted_def fl dec_digits_pos)
  have u: "(10::rat) powi (adjusted x - 27) = 1 / 10 ^ 17" by (simp add: adj power_int_def power_one_over)
  have "\<lfloor>x / (1 / 10 ^ 17)\<rfloor> = 9999999999999999999999999999" unfolding x_def by (rule floor_unique) simp_all
  then have "round_int ROUND_HALF_EVEN (x / (1 / 10 ^ 17)) = 10 ^ 28"
    by (simp add: round_int.simps(3) Let_def) (simp add: x_def)
  moreover have "x \<noteq> 0" by (simp add: x_def)
  ultimately have "ctx_fix default_context x = 10 ^ 11"
    by (simp add: ctx_fix_def sig_round_def sig_with_def u Let_def)
  then show ?thesis by (simp add: ctx_sub_def lot x_def)
qed

end
