(* ===== verification/Invocation.thy ===== *)
theory Invocation
  imports Prelude
begin

text \<open>
  The invocation domain of \<^verbatim>\<open>radar_v08/domain/invocation.py\<close>: the identity tuple and its validation,
  the budget windows and their limits, leases, and the fence that decides whether a lease holder may
  still act.

  Moments are UTC instants; the fixed-width UTC text that the store keeps orders like the instants,
  so a stored moment is the instant itself. The hour and day windows are the instants at which they
  start.
\<close>

section \<open>Enumerations and errors\<close>

datatype invocation_failure =
  INVALID_FIELD | INVALID_CLOCK | OPEN_TRANSACTION | SCHEMA_NOT_MIGRATED | BUSY | CORRUPT_ROW | STORAGE_ERROR

text \<open>What the module raises: its own error with a code, or the overflow of a datetime sum.\<close>

datatype invocation_exn = InvocationError invocation_failure | DatetimeOverflow

definition MAX_TEXT_LENGTH :: nat where "MAX_TEXT_LENGTH = 200"
definition MIN_LEASE_SECONDS :: int where "MIN_LEASE_SECONDS = 1"
definition MAX_LEASE_SECONDS :: int where "MAX_LEASE_SECONDS = 3600"
definition HASH_PREFIX :: string where "HASH_PREFIX = ''sha256:''"
definition HEX_DIGITS :: string where "HEX_DIGITS = ''0123456789abcdef''"

datatype instrument_kind = SPOT | FUTURES

datatype inv_direction = DIR_LONG | DIR_SHORT | DIR_NONE

datatype invocation_state = CLAIMED | COMPLETED | RELEASED

datatype release_reason = CANCELLED | DEADLINE_EXPIRED | FAILED

datatype window_kind = HOUR | DAY

datatype refusal_reason_t = HOURLY_BUDGET_EXHAUSTED | DAILY_BUDGET_EXHAUSTED

datatype transition_status = APPLIED | FENCED | LEASE_EXPIRED | NOT_ACTIVE | NOT_FOUND | BUDGET_EXHAUSTED

definition ACTIVE_STATES :: "invocation_state set" where
  "ACTIVE_STATES = {CLAIMED}"

fun instrument_kind_value :: "instrument_kind \<Rightarrow> string" where
  "instrument_kind_value SPOT = ''spot''"
| "instrument_kind_value FUTURES = ''futures''"

fun inv_direction_value :: "inv_direction \<Rightarrow> string" where
  "inv_direction_value DIR_LONG = ''LONG''"
| "inv_direction_value DIR_SHORT = ''SHORT''"
| "inv_direction_value DIR_NONE = ''NONE''"

fun release_reason_value :: "release_reason \<Rightarrow> string" where
  "release_reason_value CANCELLED = ''CANCELLED''"
| "release_reason_value DEADLINE_EXPIRED = ''DEADLINE_EXPIRED''"
| "release_reason_value FAILED = ''FAILED''"

section \<open>Validators\<close>

fun inv_require_text :: "pyval \<Rightarrow> invocation_exn + string" where
  "inv_require_text (PStr s) =
     (if s = [] \<or> s \<noteq> strip s then Inl (InvocationError INVALID_FIELD)
      else if MAX_TEXT_LENGTH < length s then Inl (InvocationError INVALID_FIELD)
      else if list_ex is_control s then Inl (InvocationError INVALID_FIELD)
      else Inr s)"
| "inv_require_text _ = Inl (InvocationError INVALID_FIELD)"

text \<open>A member of an enum class, looked up in the table of its members.\<close>

fun require_enum :: "string \<Rightarrow> (string \<times> 'a) list \<Rightarrow> pyval \<Rightarrow> invocation_exn + 'a" where
  "require_enum cls table (PEnum c name) =
     (if c = cls then (case map_of table name of Some m \<Rightarrow> Inr m | None \<Rightarrow> Inl (InvocationError INVALID_FIELD))
      else Inl (InvocationError INVALID_FIELD))"
| "require_enum cls table _ = Inl (InvocationError INVALID_FIELD)"

fun require_count :: "pyval \<Rightarrow> invocation_exn + int" where
  "require_count (PInt i) = (if i < 0 then Inl (InvocationError INVALID_FIELD) else Inr i)"
| "require_count _ = Inl (InvocationError INVALID_FIELD)"

fun require_aware :: "moment \<Rightarrow> invocation_exn + int" where
  "require_aware (Aware t) = Inr t"
| "require_aware Naive = Inl (InvocationError INVALID_CLOCK)"

definition require_owner :: "pyval \<Rightarrow> invocation_exn + string" where
  "require_owner v = inv_require_text v"

section \<open>Identity\<close>

record invocation_identity =
  venue :: string
  market_kind :: instrument_kind
  native_instrument :: string
  id_setup :: string
  id_direction :: inv_direction
  evidence_hash :: string
  policy_version :: string

definition instrument_kinds :: "(string \<times> instrument_kind) list" where
  "instrument_kinds = [(''SPOT'', SPOT), (''FUTURES'', FUTURES)]"

definition inv_directions :: "(string \<times> inv_direction) list" where
  "inv_directions = [(''LONG'', DIR_LONG), (''SHORT'', DIR_SHORT), (''NONE'', DIR_NONE)]"

definition is_sealed_hash :: "string \<Rightarrow> bool" where
  "is_sealed_hash h \<longleftrightarrow>
     (let starts = (take (length HASH_PREFIX) h = HASH_PREFIX);
          digest = (if starts then drop (length HASH_PREFIX) h else h)
      in starts \<and> length digest = 64 \<and> list_all (\<lambda>ch. ch \<in> set HEX_DIGITS) digest)"

definition make_identity ::
  "pyval \<Rightarrow> pyval \<Rightarrow> pyval \<Rightarrow> pyval \<Rightarrow> pyval \<Rightarrow> pyval \<Rightarrow> pyval \<Rightarrow> invocation_exn + invocation_identity" where
  "make_identity ven kind instrument stp dir hash policy =
     bindE (inv_require_text ven) (\<lambda>v.
     bindE (require_enum ''InstrumentKind'' instrument_kinds kind) (\<lambda>k.
     bindE (inv_require_text instrument) (\<lambda>i.
     bindE (inv_require_text stp) (\<lambda>s.
     bindE (require_enum ''Direction'' inv_directions dir) (\<lambda>d.
     bindE (inv_require_text policy) (\<lambda>p.
     bindE (inv_require_text hash) (\<lambda>h.
     if is_sealed_hash h
     then Inr \<lparr>venue = v, market_kind = k, native_instrument = i, id_setup = s, id_direction = d,
               evidence_hash = h, policy_version = p\<rparr>
     else Inl (InvocationError INVALID_FIELD))))))))"

definition columns :: "invocation_identity \<Rightarrow> string list" where
  "columns i = [venue i, instrument_kind_value (market_kind i), native_instrument i, id_setup i,
     inv_direction_value (id_direction i), evidence_hash i, policy_version i]"

record invocation_request =
  rq_identity :: invocation_identity
  rq_model :: string

definition make_request :: "invocation_identity \<Rightarrow> pyval \<Rightarrow> invocation_exn + invocation_request" where
  "make_request i m = bindE (inv_require_text m) (\<lambda>model. Inr \<lparr>rq_identity = i, rq_model = model\<rparr>)"

section \<open>Budgets\<close>

record model_budget =
  mb_model :: string
  hourly_limit :: int
  daily_limit :: int

definition make_budget :: "pyval \<Rightarrow> pyval \<Rightarrow> pyval \<Rightarrow> invocation_exn + model_budget" where
  "make_budget m h d =
     bindE (inv_require_text m) (\<lambda>model.
     bindE (require_count h) (\<lambda>hl.
     bindE (require_count d) (\<lambda>dl.
     Inr \<lparr>mb_model = model, hourly_limit = hl, daily_limit = dl\<rparr>)))"

record budget_windows_t =
  hour_start :: int
  day_start :: int

definition budget_windows :: "moment \<Rightarrow> invocation_exn + budget_windows_t" where
  "budget_windows now =
     bindE (require_aware now) (\<lambda>t.
       Inr \<lparr>hour_start = t - t mod seconds 3600, day_start = t - t mod seconds 86400\<rparr>)"

record budget_usage_t =
  us_model :: string
  us_windows :: budget_windows_t
  hourly_reserved :: int
  us_hourly_limit :: int
  daily_reserved :: int
  us_daily_limit :: int

record demand_counts_t =
  dc_model :: string
  dc_windows :: budget_windows_t
  hourly_observed :: int
  hourly_refused :: int
  daily_observed :: int
  daily_refused :: int

definition refusal_reason :: "budget_usage_t \<Rightarrow> refusal_reason_t option" where
  "refusal_reason usage =
     (if us_hourly_limit usage \<le> hourly_reserved usage then Some HOURLY_BUDGET_EXHAUSTED
      else if us_daily_limit usage \<le> daily_reserved usage then Some DAILY_BUDGET_EXHAUSTED
      else None)"

section \<open>Leases\<close>

fun lease_expiry :: "moment \<Rightarrow> pyval \<Rightarrow> invocation_exn + int" where
  "lease_expiry now (PInt n) =
     (if n < MIN_LEASE_SECONDS \<or> MAX_LEASE_SECONDS < n then Inl (InvocationError INVALID_FIELD)
      else bindE (require_aware now) (\<lambda>t.
        if MAX_DATETIME < t + seconds n then Inl DatetimeOverflow else Inr (t + seconds n)))"
| "lease_expiry now _ = Inl (InvocationError INVALID_FIELD)"

record lease =
  ls_invocation_id :: string
  ls_generation :: int
  ls_owner :: string
  ls_expires_at :: int

definition make_lease :: "string \<Rightarrow> int \<Rightarrow> string \<Rightarrow> int \<Rightarrow> invocation_exn + lease" where
  "make_lease i g o_arg e =
     bindE (inv_require_text (PStr i)) (\<lambda>invocation_id.
     bindE (require_count (PInt g)) (\<lambda>generation.
     if generation < 1 then Inl (InvocationError INVALID_FIELD)
     else bindE (inv_require_text (PStr o_arg)) (\<lambda>owner.
     Inr \<lparr>ls_invocation_id = invocation_id, ls_generation = generation, ls_owner = owner, ls_expires_at = e\<rparr>)))"

datatype claim_result =
    Claimed lease budget_usage_t
  | Duplicate string int
  | Refused refusal_reason_t budget_usage_t

record transition =
  tr_status :: transition_status
  tr_invocation_id :: string
  tr_attempt_count :: "int option"

definition applied :: "transition \<Rightarrow> bool" where
  "applied t \<longleftrightarrow> tr_status t = APPLIED"

record invocation_record =
  iv_invocation_id :: string
  iv_identity :: invocation_identity
  iv_model :: string
  iv_state :: invocation_state
  iv_generation :: int
  iv_lease_owner :: string
  iv_lease_expires_at :: int
  iv_demand_count :: int
  iv_attempt_count :: int
  iv_windows :: budget_windows_t
  iv_claimed_at :: int
  iv_updated_at :: int
  iv_ended_at :: "int option"
  iv_end_reason :: "string option"

definition fence_status :: "invocation_record option \<Rightarrow> lease \<Rightarrow> moment \<Rightarrow> invocation_exn + transition_status" where
  "fence_status record_opt l now =
     bindE (require_aware now) (\<lambda>t.
     Inr (case record_opt of
        None \<Rightarrow> NOT_FOUND
      | Some r \<Rightarrow>
          if iv_invocation_id r \<noteq> ls_invocation_id l then NOT_FOUND
          else if iv_state r \<notin> ACTIVE_STATES then NOT_ACTIVE
          else if iv_generation r \<noteq> ls_generation l \<or> iv_lease_owner r \<noteq> ls_owner l then FENCED
          else if iv_lease_expires_at r \<le> t then LEASE_EXPIRED
          else APPLIED))"

section \<open>Facts\<close>

lemma inv_require_text_Inr: "inv_require_text v = Inr s \<longleftrightarrow> v = PStr s \<and> plain_text 200 s"
  by (cases v) (auto simp: plain_text_def MAX_TEXT_LENGTH_def)

lemma instrument_kind_value_inj [simp]: "instrument_kind_value a = instrument_kind_value b \<longleftrightarrow> a = b"
  by (cases a; cases b) simp_all

lemma inv_direction_value_inj [simp]: "inv_direction_value a = inv_direction_value b \<longleftrightarrow> a = b"
  by (cases a; cases b) simp_all

text \<open>The stored columns determine the identity, so comparing columns compares identities.\<close>

lemma columns_inj: "columns a = columns b \<longleftrightarrow> a = b"
  by (auto simp: columns_def)

lemma fence_status_APPLIED:
  "fence_status r l (Aware t) = Inr APPLIED \<longleftrightarrow>
     (\<exists>x. r = Some x \<and> iv_invocation_id x = ls_invocation_id l \<and> iv_state x = CLAIMED
        \<and> iv_generation x = ls_generation l \<and> iv_lease_owner x = ls_owner l \<and> t < iv_lease_expires_at x)"
  by (auto simp: fence_status_def ACTIVE_STATES_def split: option.splits)

lemma refusal_reason_None:
  "refusal_reason u = None \<longleftrightarrow> hourly_reserved u < us_hourly_limit u \<and> daily_reserved u < us_daily_limit u"
  by (auto simp: refusal_reason_def)

lemma make_identity_Inr:
  assumes "make_identity ven kind instrument stp dir hash policy = Inr i"
  shows "ven = PStr (venue i) \<and> instrument = PStr (native_instrument i) \<and> stp = PStr (id_setup i)
    \<and> policy = PStr (policy_version i) \<and> hash = PStr (evidence_hash i) \<and> is_sealed_hash (evidence_hash i)
    \<and> list_all (plain_text 200) [venue i, native_instrument i, id_setup i, policy_version i, evidence_hash i]"
  using assms by (auto simp: make_identity_def bindE_eq_Inr inv_require_text_Inr split: if_splits)

end
