(* ===== verification/Scheduler.thy ===== *)
theory Scheduler
  imports Invocation "HOL-Library.Char_ord" "HOL-Library.List_Lexorder" "HOL-Library.Product_Lexorder"
begin

text \<open>
  The OC-1 deadline scheduler of \<^verbatim>\<open>radar_v08/workflow/scheduler.py\<close>: the validated policy and
  opportunity versions, the bounded queue with its two indexes, the one running slot, and the public
  operations (sweep, admit, dispatch, authorize a call, complete, fail). An operation returns its
  result and the new state; an error (\<open>Inl\<close>) leaves the state as it was. The clock reading of an
  operation is an argument.

  Python's exact-type checks on enum members, bools and the identity hold by typing. A dict is an
  association list in insertion order (the queue) or a map (the indexes).
\<close>

section \<open>Enumerations\<close>

datatype scheduler_failure =
  SF_INVALID_FIELD | SF_INVALID_POLICY | SF_INVALID_CLOCK | SF_CLOCK_WENT_BACKWARDS | SF_UNKNOWN_ITEM

datatype horizon = MIN_15 | HOUR_1 | HOUR_4 | HOUR_24

datatype band = HIGH | ELIGIBLE

datatype role = SCREENER | CHALLENGER | DEEP_ANALYST

datatype item_state =
  IS_QUEUED | IS_RUNNING | IS_COMPLETED | IS_FAILED | IS_SUPERSEDED | IS_DROPPED_BACKPRESSURE | IS_ABORT_STALE |
  IS_DETERMINISTIC_ONLY | IS_ABSTAIN | IS_NOT_ELIGIBLE | IS_INTEGRITY_INVALID | IS_INCOMPATIBLE_VERSION

datatype stale_reason = DEADLINE_PASSED | QUEUED_AGE_EXCEEDED | LATE_RESULT

datatype admission_status = ADMITTED | DUPLICATE | REFUSED

datatype idle_reason = IDLE_BUSY | IDLE_EMPTY

datatype call_refusal =
  CR_NOT_RUNNING | CR_DEADLINE_PASSED | CR_ROLE_DISABLED | CR_INPUT_OVER_ROLE_CAP | CR_INVOCATION_CAP |
  CR_REPAIR_CAP | CR_PROMPT_TOKEN_CAP | CR_OUTPUT_TOKEN_CAP | CR_DEADLINE_UNFIT

definition PRODUCTION_DISABLED_ROLES :: "role set" where
  "PRODUCTION_DISABLED_ROLES = {CHALLENGER, DEEP_ANALYST}"

definition ACTIVE_ITEM_STATES :: "item_state set" where
  "ACTIVE_ITEM_STATES = {IS_QUEUED, IS_RUNNING}"

definition SCHED_MAX_TEXT_LENGTH :: nat where "SCHED_MAX_TEXT_LENGTH = 200"

definition MAX_POLICY_SECONDS :: int where "MAX_POLICY_SECONDS = 86400"

section \<open>Validators\<close>

fun sched_require_text :: "pyval \<Rightarrow> scheduler_failure + string" where
  "sched_require_text (PStr s) =
     (if s = [] \<or> s \<noteq> strip s then Inl SF_INVALID_FIELD
      else if SCHED_MAX_TEXT_LENGTH < length s \<or> list_ex is_control s then Inl SF_INVALID_FIELD
      else Inr s)"
| "sched_require_text _ = Inl SF_INVALID_FIELD"

definition require_int :: "int \<Rightarrow> int option \<Rightarrow> int \<Rightarrow> scheduler_failure + unit" where
  "require_int minimum maximum v =
     guardE (minimum \<le> v \<and> (case maximum of None \<Rightarrow> True | Some m \<Rightarrow> v \<le> m)) SF_INVALID_POLICY"

fun sched_require_aware :: "scheduler_failure \<Rightarrow> moment \<Rightarrow> scheduler_failure + int" where
  "sched_require_aware failure (Aware t) =
     (if MIN_DATETIME \<le> t \<and> t \<le> MAX_DATETIME then Inr t else Inl failure)"
| "sched_require_aware failure Naive = Inl failure"

definition require_room :: "scheduler_failure \<Rightarrow> int \<Rightarrow> int \<Rightarrow> scheduler_failure + unit" where
  "require_room failure t n = guardE (t + seconds n \<le> MAX_DATETIME) failure"

section \<open>Policy\<close>

text \<open>An upper bound on a token amount; its basis is a label that no rule reads.\<close>

datatype token_basis = TOKENIZER_COUNT | UTF8_BYTE_UPPER_BOUND

record token_bound =
  upper_bound :: int
  basis :: token_basis

definition make_token_bound :: "int \<Rightarrow> token_basis \<Rightarrow> scheduler_failure + token_bound" where
  "make_token_bound n b = (if n < 0 then Inl SF_INVALID_FIELD else Inr \<lparr>upper_bound = n, basis = b\<rparr>)"

text \<open>Characters are code points below 256: one UTF-8 byte below 128, else two.\<close>

definition utf8_length :: "string \<Rightarrow> int" where
  "utf8_length s = sum_list (map (\<lambda>ch. if (of_char ch :: nat) < 128 then 1 else 2) s)"

definition utf8_byte_upper_bound :: "string \<Rightarrow> int \<Rightarrow> scheduler_failure + token_bound" where
  "utf8_byte_upper_bound txt special_tokens =
     (if special_tokens < 0 then Inl SF_INVALID_FIELD
      else make_token_bound (utf8_length txt + special_tokens) UTF8_BYTE_UPPER_BOUND)"

record horizon_limits =
  analysis_deadline_seconds :: int
  max_queued_age_seconds :: int

record role_profile =
  hard_timeout_seconds :: int
  max_input_tokens :: int
  output_cap_tokens :: int
  enabled :: bool

record policy =
  max_queued :: int
  high_band_min :: rat
  eligible_band_min :: rat
  fair_slot_every :: int
  finalization_reserve_seconds :: int
  max_invocations :: int
  max_repairs :: int
  max_prompt_tokens :: int
  max_output_tokens :: int
  limits_table :: "(horizon \<times> horizon_limits) list"
  profiles_table :: "(role \<times> role_profile) list"

definition OC1_HORIZON_LIMITS :: "(horizon \<times> horizon_limits) list" where
  "OC1_HORIZON_LIMITS =
     [(MIN_15, \<lparr>analysis_deadline_seconds = 60, max_queued_age_seconds = 15\<rparr>),
      (HOUR_1, \<lparr>analysis_deadline_seconds = 120, max_queued_age_seconds = 30\<rparr>),
      (HOUR_4, \<lparr>analysis_deadline_seconds = 180, max_queued_age_seconds = 45\<rparr>),
      (HOUR_24, \<lparr>analysis_deadline_seconds = 180, max_queued_age_seconds = 45\<rparr>)]"

definition OC1_ROLE_PROFILES :: "(role \<times> role_profile) list" where
  "OC1_ROLE_PROFILES =
     [(SCREENER, \<lparr>hard_timeout_seconds = 30, max_input_tokens = 2800, output_cap_tokens = 768, enabled = True\<rparr>),
      (CHALLENGER, \<lparr>hard_timeout_seconds = 45, max_input_tokens = 5600, output_cap_tokens = 1536, enabled = False\<rparr>),
      (DEEP_ANALYST, \<lparr>hard_timeout_seconds = 90, max_input_tokens = 5600, output_cap_tokens = 2048, enabled = False\<rparr>)]"

definition default_policy :: policy where
  "default_policy = \<lparr>max_queued = 16, high_band_min = 70, eligible_band_min = 50, fair_slot_every = 4,
     finalization_reserve_seconds = 10, max_invocations = 4, max_repairs = 1, max_prompt_tokens = 15000,
     max_output_tokens = 4500, limits_table = OC1_HORIZON_LIMITS, profiles_table = OC1_ROLE_PROFILES\<rparr>"

definition check_limits :: "horizon_limits \<Rightarrow> scheduler_failure + unit" where
  "check_limits l =
     bindE (require_int 1 (Some MAX_POLICY_SECONDS) (analysis_deadline_seconds l)) (\<lambda>_.
     require_int 0 (Some MAX_POLICY_SECONDS) (max_queued_age_seconds l))"

definition check_profile :: "role \<Rightarrow> role_profile \<Rightarrow> scheduler_failure + unit" where
  "check_profile r p =
     bindE (require_int 1 (Some MAX_POLICY_SECONDS) (hard_timeout_seconds p)) (\<lambda>_.
     bindE (require_int 0 None (max_input_tokens p)) (\<lambda>_.
     bindE (require_int 0 None (output_cap_tokens p)) (\<lambda>_.
     guardE (\<not> (r \<in> PRODUCTION_DISABLED_ROLES \<and> enabled p)) SF_INVALID_POLICY)))"

text \<open>The dicts of a policy have each key once and must cover the enum.\<close>

definition check_policy :: "policy \<Rightarrow> scheduler_failure + policy" where
  "check_policy p =
     bindE (require_int 1 None (max_queued p)) (\<lambda>_.
     bindE (require_int 2 None (fair_slot_every p)) (\<lambda>_.
     bindE (require_int 0 (Some MAX_POLICY_SECONDS) (finalization_reserve_seconds p)) (\<lambda>_.
     bindE (require_int 0 None (max_invocations p)) (\<lambda>_.
     bindE (require_int 0 None (max_repairs p)) (\<lambda>_.
     bindE (require_int 0 None (max_prompt_tokens p)) (\<lambda>_.
     bindE (require_int 0 None (max_output_tokens p)) (\<lambda>_.
     bindE (guardE (0 \<le> eligible_band_min p \<and> eligible_band_min p < high_band_min p \<and> high_band_min p \<le> 100)
              SF_INVALID_POLICY) (\<lambda>_.
     bindE (guardE (distinct (map fst (limits_table p)) \<and>
              set (map fst (limits_table p)) = {MIN_15, HOUR_1, HOUR_4, HOUR_24}) SF_INVALID_POLICY) (\<lambda>_.
     bindE (foldE (\<lambda>(h, l) _. check_limits l) (limits_table p) ()) (\<lambda>_.
     bindE (guardE (distinct (map fst (profiles_table p)) \<and>
              set (map fst (profiles_table p)) = {SCREENER, CHALLENGER, DEEP_ANALYST}) SF_INVALID_POLICY) (\<lambda>_.
     bindE (foldE (\<lambda>(r, q) _. check_profile r q) (profiles_table p) ()) (\<lambda>_.
     Inr p))))))))))))"

definition limits_of :: "policy \<Rightarrow> horizon \<Rightarrow> horizon_limits" where
  "limits_of p h = the (map_of (limits_table p) h)"

definition profile_of :: "policy \<Rightarrow> role \<Rightarrow> role_profile" where
  "profile_of p r = the (map_of (profiles_table p) r)"

definition max_span_seconds :: "policy \<Rightarrow> int" where
  "max_span_seconds p =
     (let path_span = sum_list (map (hard_timeout_seconds \<circ> snd) (profiles_table p)) + finalization_reserve_seconds p
      in max path_span (Max (set (map (analysis_deadline_seconds \<circ> snd) (limits_table p)))))"

definition band_of :: "policy \<Rightarrow> rat \<Rightarrow> band option" where
  "band_of p score =
     (if high_band_min p \<le> score then Some HIGH
      else if eligible_band_min p \<le> score then Some ELIGIBLE else None)"

section \<open>Versions, entries and results\<close>

record opportunity_version =
  item_id :: string
  ov_identity :: invocation_identity
  ov_horizon :: horizon
  opportunity_score :: rat
  sealed_at :: int
  integrity_valid :: bool
  deterministic_path_eligible :: bool
  requested_roles :: "role list"
  origin_sealed_at :: "int option"

fun finite_score :: "pyval \<Rightarrow> rat option" where
  "finite_score (PInt i) = Some (of_int i)"
| "finite_score (PFloat (FFin c e)) = Some (dec_value c e)"
| "finite_score _ = None"

definition make_version ::
  "pyval \<Rightarrow> invocation_identity \<Rightarrow> horizon \<Rightarrow> pyval \<Rightarrow> moment \<Rightarrow> bool \<Rightarrow> bool \<Rightarrow> role list \<Rightarrow> moment option
     \<Rightarrow> scheduler_failure + opportunity_version" where
  "make_version item ident h score_arg sealed_arg valid det roles origin_arg =
     bindE (sched_require_text item) (\<lambda>i.
     bindE (case finite_score score_arg of
              Some x \<Rightarrow> if 0 \<le> x \<and> x \<le> 100 then Inr x else Inl SF_INVALID_FIELD
            | None \<Rightarrow> Inl SF_INVALID_FIELD) (\<lambda>score.
     bindE (sched_require_aware SF_INVALID_FIELD sealed_arg) (\<lambda>sealed.
     bindE (require_room SF_INVALID_FIELD sealed MAX_POLICY_SECONDS) (\<lambda>_.
     bindE (guardE (roles \<noteq> []) SF_INVALID_FIELD) (\<lambda>_.
     bindE (guardE (distinct roles) SF_INVALID_FIELD) (\<lambda>_.
     bindE (case origin_arg of
              None \<Rightarrow> Inr None
            | Some m \<Rightarrow> bindE (sched_require_aware SF_INVALID_FIELD m) (\<lambda>origin.
                if sealed < origin then Inl SF_INVALID_FIELD else Inr (Some origin))) (\<lambda>origin.
     Inr \<lparr>item_id = i, ov_identity = ident, ov_horizon = h, opportunity_score = score, sealed_at = sealed,
          integrity_valid = valid, deterministic_path_eligible = det, requested_roles = roles,
          origin_sealed_at = origin\<rparr>)))))))"

type_synonym group = "string \<times> instrument_kind \<times> string \<times> string \<times> inv_direction"

definition group_key :: "opportunity_version \<Rightarrow> group" where
  "group_key v = (let i = ov_identity v in
     (venue i, market_kind i, native_instrument i, id_setup i, id_direction i))"

record sched_transition =
  st_item_id :: string
  st_state :: item_state
  st_at :: int
  st_related_id :: "string option"
  st_stale_reason :: "stale_reason option"

record queued_entry =
  version :: opportunity_version
  qe_band :: band
  deadline :: int
  enqueued_at :: int
  path :: "role list"
  supersedes :: "string option"

record admission_result =
  ad_status :: admission_status
  ad_item_id :: string
  ad_state :: item_state
  ad_path :: "role list"
  ad_dropped_roles :: "role list"
  ad_deadline :: "int option"
  ad_transitions :: "sched_transition list"

record dispatched =
  ds_item_id :: string
  ds_path :: "role list"
  ds_deadline :: int
  ds_slot_number :: int
  ds_fair_slot :: bool

record dispatch_result =
  dr_dispatched :: "dispatched option"
  dr_idle :: "idle_reason option"
  dr_transitions :: "sched_transition list"

record call_usage =
  cu_invocations :: int
  cu_repairs :: int
  cu_prompt_tokens :: int
  cu_output_tokens :: int

record call_decision =
  cd_item_id :: string
  cd_refusal :: "call_refusal option"
  cd_call_deadline :: "int option"
  cd_usage :: call_usage
  cd_transitions :: "sched_transition list"

record completion_result =
  co_item_id :: string
  co_state :: item_state
  co_publishable :: bool
  co_transitions :: "sched_transition list"

record running_t =
  rn_entry :: queued_entry
  dispatched_at :: int
  rn_usage :: call_usage
  aborted :: bool

record scheduler =
  sc_policy :: policy
  last_now :: "int option"
  queue :: "(string \<times> queued_entry) list"
  by_identity :: "invocation_identity \<Rightarrow> string option"
  by_group :: "group \<Rightarrow> string option"
  running :: "running_t option"
  slots_used :: int

definition new_scheduler :: "policy \<Rightarrow> scheduler" where
  "new_scheduler p = \<lparr>sc_policy = p, last_now = None, queue = [], by_identity = (\<lambda>_. None),
     by_group = (\<lambda>_. None), running = None, slots_used = 0\<rparr>"

text \<open>The ranking keys; tuples and strings compare lexicographically, characters by code point.\<close>

definition rank_key :: "queued_entry \<Rightarrow> int \<times> int \<times> int \<times> string" where
  "rank_key e = (if qe_band e = HIGH then 0 else 1, deadline e, sealed_at (version e), item_id (version e))"

definition fair_key :: "queued_entry \<Rightarrow> int \<times> int \<times> string" where
  "fair_key e = (enqueued_at e, sealed_at (version e), item_id (version e))"

section \<open>Dictionaries\<close>

definition dict_put :: "'k \<Rightarrow> 'v \<Rightarrow> ('k \<times> 'v) list \<Rightarrow> ('k \<times> 'v) list" where
  "dict_put k v d = (if k \<in> fst ` set d then map (\<lambda>(k', v'). if k' = k then (k, v) else (k', v')) d else d @ [(k, v)])"

definition dict_pop :: "'k \<Rightarrow> ('k \<times> 'v) list \<Rightarrow> ('k \<times> 'v) list" where
  "dict_pop k d = filter (\<lambda>(k', v'). k' \<noteq> k) d"

text \<open>The first least and the first greatest element of a non-empty list under a key.\<close>

fun min_by :: "('a \<Rightarrow> 'b::linorder) \<Rightarrow> 'a \<Rightarrow> 'a list \<Rightarrow> 'a" where
  "min_by f x [] = x"
| "min_by f x (y # ys) = min_by f (if f y < f x then y else x) ys"

fun max_by :: "('a \<Rightarrow> 'b::linorder) \<Rightarrow> 'a \<Rightarrow> 'a list \<Rightarrow> 'a" where
  "max_by f x [] = x"
| "max_by f x (y # ys) = max_by f (if f x < f y then y else x) ys"

section \<open>Helpers\<close>

definition read_clock :: "moment \<Rightarrow> scheduler \<Rightarrow> scheduler_failure + int" where
  "read_clock clock s =
     bindE (sched_require_aware SF_INVALID_CLOCK clock) (\<lambda>t.
     bindE (require_room SF_INVALID_CLOCK t (max_span_seconds (sc_policy s))) (\<lambda>_.
     case last_now s of
       None \<Rightarrow> Inr t
     | Some l \<Rightarrow> if t < l then Inl SF_CLOCK_WENT_BACKWARDS else Inr t))"

definition origin_of :: "opportunity_version \<Rightarrow> int" where
  "origin_of v = (case origin_sealed_at v of None \<Rightarrow> sealed_at v | Some origin \<Rightarrow> origin)"

definition deadline_of :: "policy \<Rightarrow> opportunity_version \<Rightarrow> scheduler_failure + int" where
  "deadline_of p v =
     (let d = origin_of v + seconds (analysis_deadline_seconds (limits_of p (ov_horizon v)))
      in if MAX_DATETIME < d then Inl SF_INVALID_FIELD else Inr d)"

definition enabled_path :: "policy \<Rightarrow> role list \<Rightarrow> role list \<times> role list" where
  "enabled_path p roles =
     (filter (\<lambda>r. enabled (profile_of p r)) roles, filter (\<lambda>r. \<not> enabled (profile_of p r)) roles)"

definition path_fits :: "policy \<Rightarrow> role list \<Rightarrow> int \<Rightarrow> int \<Rightarrow> bool" where
  "path_fits p pth now dl \<longleftrightarrow>
     pth \<noteq> [] \<and> int (length pth) \<le> max_invocations p
     \<and> sum_list (map (\<lambda>r. max_input_tokens (profile_of p r)) pth) \<le> max_prompt_tokens p
     \<and> sum_list (map (\<lambda>r. output_cap_tokens (profile_of p r)) pth) \<le> max_output_tokens p
     \<and> now + seconds (sum_list (map (\<lambda>r. hard_timeout_seconds (profile_of p r)) pth)
                       + finalization_reserve_seconds p) \<le> dl"

definition unfit_state :: "opportunity_version \<Rightarrow> item_state" where
  "unfit_state v = (if deterministic_path_eligible v then IS_DETERMINISTIC_ONLY else IS_ABSTAIN)"

definition remove :: "string \<Rightarrow> scheduler \<Rightarrow> scheduler" where
  "remove i s =
     (case map_of (queue s) i of
        None \<Rightarrow> s
      | Some e \<Rightarrow>
          let g = group_key (version e) in
          s\<lparr>queue := dict_pop i (queue s),
            by_identity := (by_identity s)(ov_identity (version e) := None),
            by_group := (if by_group s g = Some i then (by_group s)(g := None) else by_group s)\<rparr>)"

definition insert_entry :: "queued_entry \<Rightarrow> scheduler \<Rightarrow> scheduler" where
  "insert_entry e s =
     (let i = item_id (version e) in
      s\<lparr>queue := dict_put i e (queue s),
        by_identity := (by_identity s)(ov_identity (version e) \<mapsto> i),
        by_group := (by_group s)(group_key (version e) \<mapsto> i)\<rparr>)"

abbreviation trans :: "string \<Rightarrow> item_state \<Rightarrow> int \<Rightarrow> string option \<Rightarrow> stale_reason option \<Rightarrow> sched_transition" where
  "trans i st t rel why \<equiv>
     \<lparr>st_item_id = i, st_state = st, st_at = t, st_related_id = rel, st_stale_reason = why\<rparr>"

text \<open>What the sweep decides about one queued entry: its record, if it must leave the queue.\<close>

definition sweep_verdict :: "policy \<Rightarrow> int \<Rightarrow> queued_entry \<Rightarrow> sched_transition option" where
  "sweep_verdict p now e =
     (let i = item_id (version e);
          max_age = max_queued_age_seconds (limits_of p (ov_horizon (version e)))
      in if deadline e \<le> now then Some (trans i IS_ABORT_STALE now None (Some DEADLINE_PASSED))
         else if seconds max_age < now - enqueued_at e
         then Some (trans i IS_ABORT_STALE now None (Some QUEUED_AGE_EXCEEDED))
         else if \<not> path_fits p (path e) now (deadline e)
         then Some (trans i (unfit_state (version e)) now None None)
         else None)"

definition sweep_entry :: "int \<Rightarrow> queued_entry \<Rightarrow> scheduler \<times> sched_transition list \<Rightarrow> scheduler \<times> sched_transition list" where
  "sweep_entry now e st =
     (case st of (s, out) \<Rightarrow>
        case sweep_verdict (sc_policy s) now e of
          None \<Rightarrow> (s, out)
        | Some t \<Rightarrow> (remove (item_id (version e)) s, out @ [t]))"

text \<open>The running item past its deadline is marked aborted once; its slot stays held.\<close>

definition sweep_running :: "int \<Rightarrow> scheduler \<Rightarrow> scheduler \<times> sched_transition list" where
  "sweep_running now s =
     (case running s of
        None \<Rightarrow> (s, [])
      | Some r \<Rightarrow>
          if \<not> aborted r \<and> deadline (rn_entry r) \<le> now
          then (s\<lparr>running := Some (r\<lparr>aborted := True\<rparr>)\<rparr>,
                [trans (item_id (version (rn_entry r))) IS_ABORT_STALE now None (Some DEADLINE_PASSED)])
          else (s, []))"

definition queued :: "scheduler \<Rightarrow> queued_entry list" where
  "queued s = sort_key rank_key (map snd (queue s))"

definition sweep_state :: "int \<Rightarrow> scheduler \<Rightarrow> scheduler \<times> sched_transition list" where
  "sweep_state now s = (case sweep_running now s of st \<Rightarrow> fold (sweep_entry now) (queued (fst st)) st)"

definition begin_op :: "int \<Rightarrow> scheduler \<Rightarrow> scheduler \<times> sched_transition list" where
  "begin_op now s = sweep_state now (s\<lparr>last_now := Some now\<rparr>)"

definition active_identity :: "scheduler \<Rightarrow> string \<Rightarrow> invocation_identity option" where
  "active_identity s i =
     (case map_of (queue s) i of
        Some e \<Rightarrow> Some (ov_identity (version e))
      | None \<Rightarrow>
          (case running s of
             Some r \<Rightarrow> if item_id (version (rn_entry r)) = i then Some (ov_identity (version (rn_entry r))) else None
           | None \<Rightarrow> None))"

definition require_running :: "scheduler \<Rightarrow> string \<Rightarrow> scheduler_failure + running_t" where
  "require_running s i =
     (case running s of
        None \<Rightarrow> Inl SF_UNKNOWN_ITEM
      | Some r \<Rightarrow> if item_id (version (rn_entry r)) \<noteq> i then Inl SF_UNKNOWN_ITEM else Inr r)"

section \<open>Public operations\<close>

definition sweep :: "moment \<Rightarrow> scheduler \<Rightarrow> scheduler_failure + sched_transition list \<times> scheduler" where
  "sweep clock s = bindE (read_clock clock s) (\<lambda>now. case begin_op now s of (s', out) \<Rightarrow> Inr (out, s'))"

definition running_item :: "scheduler \<Rightarrow> string option" where
  "running_item s = map_option (\<lambda>r. item_id (version (rn_entry r))) (running s)"

text \<open>Steps 3 and 4 of an admission: the version group and the bounded queue.\<close>

definition admit_group ::
  "opportunity_version \<Rightarrow> int \<Rightarrow> scheduler \<Rightarrow> sched_transition list
     \<Rightarrow> (item_state \<times> string option) + scheduler \<times> sched_transition list \<times> string option" where
  "admit_group v now s out =
     (case by_group s (group_key v) of
        None \<Rightarrow> Inr (s, out, None)
      | Some inc \<Rightarrow>
          let incumbent = the (map_of (queue s) inc) in
          if \<not> (policy_version (ov_identity (version incumbent)) = policy_version (ov_identity v)
                 \<and> ov_horizon (version incumbent) = ov_horizon v)
          then Inl (IS_INCOMPATIBLE_VERSION, Some inc)
          else if sealed_at v \<le> sealed_at (version incumbent) then Inl (IS_SUPERSEDED, Some inc)
          else Inr (remove inc s, out @ [trans inc IS_SUPERSEDED now (Some (item_id v)) None], Some inc))"

definition admit_overflow ::
  "queued_entry \<Rightarrow> int \<Rightarrow> scheduler \<Rightarrow> sched_transition list
     \<Rightarrow> (item_state \<times> string option) + scheduler \<times> sched_transition list" where
  "admit_overflow e now s out =
     (case map snd (queue s) of
        [] \<Rightarrow> Inr (s, out)
      | x # xs \<Rightarrow>
          if int (length (queue s)) < max_queued (sc_policy s) then Inr (s, out)
          else
            let worst = max_by rank_key x xs;
                worst_id = item_id (version worst)
            in if rank_key e < rank_key worst
               then Inr (remove worst_id s,
                         out @ [trans worst_id IS_DROPPED_BACKPRESSURE now (Some (item_id (version e))) None])
               else Inl (IS_DROPPED_BACKPRESSURE, Some worst_id))"

definition refused_result ::
  "string \<Rightarrow> item_state \<Rightarrow> int \<Rightarrow> string option \<Rightarrow> stale_reason option \<Rightarrow> role list \<Rightarrow> int
     \<Rightarrow> sched_transition list \<Rightarrow> admission_result" where
  "refused_result i st now related why dropped dl out =
     \<lparr>ad_status = REFUSED, ad_item_id = i, ad_state = st, ad_path = [], ad_dropped_roles = dropped,
      ad_deadline = Some dl, ad_transitions = out @ [trans i st now related why]\<rparr>"

text \<open>The identical active item, with the state it is reported in.\<close>

definition existing_item :: "scheduler \<Rightarrow> invocation_identity \<Rightarrow> (string \<times> item_state) option" where
  "existing_item s ident =
     (case by_identity s ident of
        Some i \<Rightarrow> Some (i, IS_QUEUED)
      | None \<Rightarrow>
          (case running s of
             Some r \<Rightarrow>
               if ov_identity (version (rn_entry r)) = ident
               then Some (item_id (version (rn_entry r)), if aborted r then IS_ABORT_STALE else IS_RUNNING)
               else None
           | None \<Rightarrow> None))"

definition admit_new ::
  "opportunity_version \<Rightarrow> int \<Rightarrow> role list \<Rightarrow> role list \<Rightarrow> int \<Rightarrow> scheduler \<Rightarrow> sched_transition list
     \<Rightarrow> admission_result \<times> scheduler" where
  "admit_new v now pth dropped dl s out =
     (let p = sc_policy s; i = item_id v in
      if \<not> integrity_valid v then (refused_result i IS_INTEGRITY_INVALID now None None dropped dl out, s)
      else case band_of p (opportunity_score v) of
        None \<Rightarrow> (refused_result i IS_NOT_ELIGIBLE now None None dropped dl out, s)
      | Some b \<Rightarrow>
          if dl \<le> now then (refused_result i IS_ABORT_STALE now None (Some DEADLINE_PASSED) dropped dl out, s)
          else if \<not> path_fits p pth now dl then (refused_result i (unfit_state v) now None None dropped dl out, s)
          else case admit_group v now s out of
            Inl (st, rel) \<Rightarrow> (refused_result i st now rel None dropped dl out, s)
          | Inr (s1, out1, sup_id) \<Rightarrow>
              let e = \<lparr>version = v, qe_band = b, deadline = dl, enqueued_at = now, path = pth, supersedes = sup_id\<rparr> in
              case admit_overflow e now s1 out1 of
                Inl (st, rel) \<Rightarrow> (refused_result i st now rel None dropped dl out1, s1)
              | Inr (s2, out2) \<Rightarrow>
                  (\<lparr>ad_status = ADMITTED, ad_item_id = i, ad_state = IS_QUEUED, ad_path = pth,
                    ad_dropped_roles = dropped, ad_deadline = Some dl,
                    ad_transitions = out2 @ [trans i IS_QUEUED now sup_id None]\<rparr>, insert_entry e s2))"

text \<open>The part after the commit point: a replay of an item the sweep closed, a duplicate, or a new item.\<close>

definition admit_swept ::
  "opportunity_version \<Rightarrow> int \<Rightarrow> invocation_identity option \<Rightarrow> role list \<times> role list \<Rightarrow> int
     \<Rightarrow> scheduler \<Rightarrow> sched_transition list \<Rightarrow> admission_result \<times> scheduler" where
  "admit_swept v now current paths dl s out =
     (if current \<noteq> None \<and> active_identity s (item_id v) = None
      then (\<lparr>ad_status = REFUSED, ad_item_id = item_id v,
             ad_state = (case filter (\<lambda>t. st_item_id t = item_id v) out of [] \<Rightarrow> IS_ABORT_STALE | t # _ \<Rightarrow> st_state t),
             ad_path = [], ad_dropped_roles = [], ad_deadline = None, ad_transitions = out\<rparr>, s)
      else case existing_item s (ov_identity v) of
        Some (ex, st) \<Rightarrow>
          (\<lparr>ad_status = DUPLICATE, ad_item_id = ex, ad_state = st, ad_path = [], ad_dropped_roles = snd paths,
            ad_deadline = None, ad_transitions = out\<rparr>, s)
      | None \<Rightarrow> admit_new v now (fst paths) (snd paths) dl s out)"

definition admit :: "moment \<Rightarrow> opportunity_version \<Rightarrow> scheduler \<Rightarrow> scheduler_failure + admission_result \<times> scheduler" where
  "admit clock v s0 =
     bindE (read_clock clock s0) (\<lambda>now.
     let current = active_identity s0 (item_id v) in
     if current \<noteq> None \<and> current \<noteq> Some (ov_identity v) then Inl SF_INVALID_FIELD
     else
       bindE (deadline_of (sc_policy s0) v) (\<lambda>dl.
       case begin_op now s0 of (s, out) \<Rightarrow>
       Inr (admit_swept v now current (enabled_path (sc_policy s0) (requested_roles v)) dl s out)))"

text \<open>The entry of the next slot, and whether the reserved lower-band slot was used for it.\<close>

definition choose_entry :: "int \<Rightarrow> scheduler \<Rightarrow> queued_entry \<Rightarrow> queued_entry list \<Rightarrow> queued_entry \<times> bool" where
  "choose_entry now s x xs =
     (let slot = slots_used s + 1;
          lows = (if slot mod fair_slot_every (sc_policy s) = 0
                   then filter (\<lambda>e. qe_band e = ELIGIBLE \<and> path_fits (sc_policy s) (path e) now (deadline e)) (x # xs)
                   else [])
      in case lows of
           [] \<Rightarrow> (min_by rank_key x xs, False)
         | y # ys \<Rightarrow> (min_by fair_key y ys, True))"

definition zero_usage :: call_usage where
  "zero_usage = \<lparr>cu_invocations = 0, cu_repairs = 0, cu_prompt_tokens = 0, cu_output_tokens = 0\<rparr>"

definition dispatch :: "moment \<Rightarrow> scheduler \<Rightarrow> scheduler_failure + dispatch_result \<times> scheduler" where
  "dispatch clock s0 =
     bindE (read_clock clock s0) (\<lambda>now.
     case begin_op now s0 of (s, out) \<Rightarrow>
     Inr (if running s \<noteq> None
          then (\<lparr>dr_dispatched = None, dr_idle = Some IDLE_BUSY, dr_transitions = out\<rparr>, s)
          else case map snd (queue s) of
            [] \<Rightarrow> (\<lparr>dr_dispatched = None, dr_idle = Some IDLE_EMPTY, dr_transitions = out\<rparr>, s)
          | x # xs \<Rightarrow>
              case choose_entry now s x xs of (e, fair) \<Rightarrow>
              let slot = slots_used s + 1; i = item_id (version e) in
              (\<lparr>dr_dispatched = Some \<lparr>ds_item_id = i, ds_path = path e, ds_deadline = deadline e,
                                      ds_slot_number = slot, ds_fair_slot = fair\<rparr>,
                dr_idle = None, dr_transitions = out @ [trans i IS_RUNNING now None None]\<rparr>,
               (remove i (s\<lparr>slots_used := slot\<rparr>))
                 \<lparr>running := Some \<lparr>rn_entry = e, dispatched_at = now, rn_usage = zero_usage, aborted = False\<rparr>\<rparr>)))"

text \<open>The first ceiling a call would break.\<close>

definition call_refused :: "policy \<Rightarrow> role \<Rightarrow> bool \<Rightarrow> token_bound \<Rightarrow> int \<Rightarrow> running_t \<Rightarrow> call_refusal option" where
  "call_refused p ro repair prompt now r =
     (let prof = profile_of p ro; u = rn_usage r in
      if aborted r then Some CR_DEADLINE_PASSED
      else if \<not> enabled prof then Some CR_ROLE_DISABLED
      else if max_input_tokens prof < upper_bound prompt then Some CR_INPUT_OVER_ROLE_CAP
      else if max_invocations p < cu_invocations u + 1 then Some CR_INVOCATION_CAP
      else if repair \<and> max_repairs p < cu_repairs u + 1 then Some CR_REPAIR_CAP
      else if max_prompt_tokens p < cu_prompt_tokens u + upper_bound prompt then Some CR_PROMPT_TOKEN_CAP
      else if max_output_tokens p < cu_output_tokens u + output_cap_tokens prof then Some CR_OUTPUT_TOKEN_CAP
      else if deadline (rn_entry r)
                < now + seconds (hard_timeout_seconds prof) + seconds (finalization_reserve_seconds p)
      then Some CR_DEADLINE_UNFIT
      else None)"

definition add_usage :: "policy \<Rightarrow> role \<Rightarrow> bool \<Rightarrow> token_bound \<Rightarrow> call_usage \<Rightarrow> call_usage" where
  "add_usage p ro repair prompt u =
     \<lparr>cu_invocations = cu_invocations u + 1, cu_repairs = cu_repairs u + (if repair then 1 else 0),
      cu_prompt_tokens = cu_prompt_tokens u + upper_bound prompt,
      cu_output_tokens = cu_output_tokens u + output_cap_tokens (profile_of p ro)\<rparr>"

definition authorize_call ::
  "moment \<Rightarrow> pyval \<Rightarrow> role \<Rightarrow> bool \<Rightarrow> token_bound \<Rightarrow> scheduler \<Rightarrow> scheduler_failure + call_decision \<times> scheduler" where
  "authorize_call clock item ro repair prompt s0 =
     bindE (sched_require_text item) (\<lambda>i.
     bindE (read_clock clock s0) (\<lambda>now.
     case begin_op now s0 of (s, out) \<Rightarrow>
     Inr (case running s of
        None \<Rightarrow> (\<lparr>cd_item_id = i, cd_refusal = Some CR_NOT_RUNNING, cd_call_deadline = None, cd_usage = zero_usage,
                  cd_transitions = out\<rparr>, s)
      | Some r \<Rightarrow>
          if item_id (version (rn_entry r)) \<noteq> i
          then (\<lparr>cd_item_id = i, cd_refusal = Some CR_NOT_RUNNING, cd_call_deadline = None, cd_usage = zero_usage,
                 cd_transitions = out\<rparr>, s)
          else case call_refused (sc_policy s) ro repair prompt now r of
            Some why \<Rightarrow> (\<lparr>cd_item_id = i, cd_refusal = Some why, cd_call_deadline = None, cd_usage = rn_usage r,
                          cd_transitions = out\<rparr>, s)
          | None \<Rightarrow>
              let u = add_usage (sc_policy s) ro repair prompt (rn_usage r) in
              (\<lparr>cd_item_id = i, cd_refusal = None,
                cd_call_deadline = Some (now + seconds (hard_timeout_seconds (profile_of (sc_policy s) ro))),
                cd_usage = u, cd_transitions = out\<rparr>,
               s\<lparr>running := Some (r\<lparr>rn_usage := u\<rparr>)\<rparr>))))"

definition allowed :: "call_decision \<Rightarrow> bool" where
  "allowed d \<longleftrightarrow> cd_refusal d = None"

definition complete :: "moment \<Rightarrow> pyval \<Rightarrow> scheduler \<Rightarrow> scheduler_failure + completion_result \<times> scheduler" where
  "complete clock item s0 =
     bindE (sched_require_text item) (\<lambda>i.
     bindE (read_clock clock s0) (\<lambda>now.
     bindE (require_running s0 i) (\<lambda>r.
     let late = (\<not> aborted r \<and> deadline (rn_entry r) \<le> now);
         r' = (if late then r\<lparr>aborted := True\<rparr> else r);
         out0 = (if late then [trans i IS_ABORT_STALE now None (Some LATE_RESULT)] else [])
     in case sweep_state now (s0\<lparr>last_now := Some now, running := Some r'\<rparr>) of (s, out) \<Rightarrow>
        let s' = s\<lparr>running := None\<rparr> in
        Inr (if aborted r'
             then (\<lparr>co_item_id = i, co_state = IS_ABORT_STALE, co_publishable = False,
                    co_transitions = out0 @ out\<rparr>, s')
             else (\<lparr>co_item_id = i, co_state = IS_COMPLETED, co_publishable = True,
                    co_transitions = out0 @ out @ [trans i IS_COMPLETED now None None]\<rparr>, s')))))"

definition fail :: "moment \<Rightarrow> pyval \<Rightarrow> scheduler \<Rightarrow> scheduler_failure + completion_result \<times> scheduler" where
  "fail clock item s0 =
     bindE (sched_require_text item) (\<lambda>i.
     bindE (read_clock clock s0) (\<lambda>now.
     bindE (require_running s0 i) (\<lambda>_.
     case begin_op now s0 of (s, out) \<Rightarrow>
     let s' = s\<lparr>running := None\<rparr> in
     Inr (if (case running s of Some r \<Rightarrow> aborted r | None \<Rightarrow> False)
          then (\<lparr>co_item_id = i, co_state = IS_ABORT_STALE, co_publishable = False, co_transitions = out\<rparr>, s')
          else (\<lparr>co_item_id = i, co_state = IS_FAILED, co_publishable = False,
                 co_transitions = out @ [trans i IS_FAILED now None None]\<rparr>, s')))))"

end
