(* ===== verification/Scheduler_Safety.thy ===== *)
theory Scheduler_Safety
  imports Scheduler
begin

text \<open>
  What the scheduler guarantees. The invariant \<open>sched_inv\<close> ties the queue to its indexes and bounds it
  and the usage of the running item; every operation keeps it and accounts for the items it closes
  (\<open>sound_step\<close>), so the scheduler is a \<open>state_machine\<close> in three interpretations: for the invariant, for
  the deadlines fixed at the seal, and as a \<open>monotone_machine\<close> for the clock and the slot counter.
\<close>

section \<open>The invariant\<close>

definition index_ok :: "('k \<Rightarrow> string option) \<Rightarrow> (queued_entry \<Rightarrow> 'k) \<Rightarrow> (string \<times> queued_entry) list \<Rightarrow> bool" where
  "index_ok f key q \<longleftrightarrow> (\<forall>k i. f k = Some i \<longleftrightarrow> (\<exists>e. (i, e) \<in> set q \<and> key e = k))"

definition queue_ok :: "(string \<times> queued_entry) list \<Rightarrow> bool" where
  "queue_ok q \<longleftrightarrow> distinct (map fst q) \<and> (\<forall>(i, e) \<in> set q. item_id (version e) = i)"

definition ident :: "queued_entry \<Rightarrow> invocation_identity" where
  "ident e = ov_identity (version e)"

definition egroup :: "queued_entry \<Rightarrow> group" where
  "egroup e = group_key (version e)"

definition indexes_ok :: "scheduler \<Rightarrow> bool" where
  "indexes_ok s \<longleftrightarrow> queue_ok (queue s) \<and> index_ok (by_identity s) ident (queue s) \<and> index_ok (by_group s) egroup (queue s)"

definition usage_ok :: "policy \<Rightarrow> call_usage \<Rightarrow> bool" where
  "usage_ok p u \<longleftrightarrow> cu_invocations u \<le> max_invocations p \<and> cu_repairs u \<le> max_repairs p
     \<and> cu_prompt_tokens u \<le> max_prompt_tokens p \<and> cu_output_tokens u \<le> max_output_tokens p"

definition running_ok :: "scheduler \<Rightarrow> bool" where
  "running_ok s \<longleftrightarrow> (\<forall>r. running s = Some r \<longrightarrow>
     item_id (version (rn_entry r)) \<notin> fst ` set (queue s) \<and> by_identity s (ident (rn_entry r)) = None
     \<and> usage_ok (sc_policy s) (rn_usage r))"

definition policy_ok :: "policy \<Rightarrow> bool" where
  "policy_ok p \<longleftrightarrow> 1 \<le> max_queued p \<and> 0 \<le> max_invocations p \<and> 0 \<le> max_repairs p
     \<and> 0 \<le> max_prompt_tokens p \<and> 0 \<le> max_output_tokens p"

definition sched_inv :: "scheduler \<Rightarrow> bool" where
  "sched_inv s \<longleftrightarrow> indexes_ok s \<and> running_ok s \<and> policy_ok (sc_policy s)
     \<and> int (length (queue s)) \<le> max_queued (sc_policy s)"

section \<open>Dictionary facts\<close>

lemma dict_pop_simps [simp]:
  "set (dict_pop i q) = {(k, v) \<in> set q. k \<noteq> i}" "length (dict_pop i q) \<le> length q"
  "distinct (map fst q) \<Longrightarrow> distinct (map fst (dict_pop i q))"
  by (auto simp: dict_pop_def distinct_map intro: inj_on_subset)

lemma dict_put_new: "i \<notin> fst ` set q \<Longrightarrow> dict_put i v q = q @ [(i, v)]"
  by (simp add: dict_put_def)

lemma queue_okD:
  "queue_ok q \<Longrightarrow> (i, e) \<in> set q \<Longrightarrow> item_id (version e) = i"
  "queue_ok q \<Longrightarrow> (i, e) \<in> set q \<Longrightarrow> map_of q i = Some e"
  "queue_ok q \<Longrightarrow> (i, e) \<in> set q \<Longrightarrow> (i, e') \<in> set q \<Longrightarrow> e = e'"
  by (auto simp: queue_ok_def intro: map_of_is_SomeI) (metis eq_key_imp_eq_value)

lemma min_by_in: "min_by f x xs \<in> set (x # xs)"
  by (induction xs arbitrary: x) fastforce+

lemma min_by_le: "y \<in> set (x # xs) \<Longrightarrow> f (min_by f x xs) \<le> f y"
proof (induction xs arbitrary: x y)
  case (Cons z zs)
  let ?m = "if f z < f x then z else x"
  have m: "f (min_by f ?m zs) \<le> f ?m" by (rule Cons.IH) simp
  show ?case
  proof (cases "y \<in> set zs")
    case True
    then have "f (min_by f ?m zs) \<le> f y" by (intro Cons.IH) simp
    then show ?thesis by simp
  next
    case False
    then have "y = x \<or> y = z" using Cons.prems by auto
    then have "f ?m \<le> f y" by auto
    with m show ?thesis by simp
  qed
qed simp

lemma max_by_in: "max_by f x xs \<in> set (x # xs)"
  by (induction xs arbitrary: x) fastforce+

lemma max_by_ge: "y \<in> set (x # xs) \<Longrightarrow> f y \<le> f (max_by f x xs)"
proof (induction xs arbitrary: x y)
  case (Cons z zs)
  let ?m = "if f x < f z then z else x"
  have m: "f ?m \<le> f (max_by f ?m zs)" by (rule Cons.IH) simp
  show ?case
  proof (cases "y \<in> set zs")
    case True
    then have "f y \<le> f (max_by f ?m zs)" by (intro Cons.IH) simp
    then show ?thesis by simp
  next
    case False
    then have "y = x \<or> y = z" using Cons.prems by auto
    then have "f y \<le> f ?m" by auto
    with m show ?thesis by simp
  qed
qed simp

section \<open>Removal and insertion\<close>

lemma index_ok_pop:
  assumes "index_ok f key q" and "queue_ok q" and "(i, e) \<in> set q"
  shows "index_ok (f(key e := None)) key (dict_pop i q)"
proof -
  have uniq: "j = i" if "(j, e') \<in> set q" "key e' = key e" for j e'
    using assms(1,3) that unfolding index_ok_def by (metis option.inject)
  have same: "e' = e" if "(i, e') \<in> set q" for e' using queue_okD(3)[OF assms(2,3) that] by simp
  show ?thesis
    unfolding index_ok_def
  proof (intro allI)
    fix k j
    show "(f(key e := None)) k = Some j \<longleftrightarrow> (\<exists>e'. (j, e') \<in> set (dict_pop i q) \<and> key e' = k)"
    proof (cases "k = key e")
      case True
      then show ?thesis using uniq by auto
    next
      case False
      have "(f(key e := None)) k = Some j \<longleftrightarrow> (\<exists>e'. (j, e') \<in> set q \<and> key e' = k)"
        using assms(1) False unfolding index_ok_def by simp
      also have "\<dots> \<longleftrightarrow> (\<exists>e'. (j, e') \<in> set (dict_pop i q) \<and> key e' = k)"
        using same False by auto
      finally show ?thesis .
    qed
  qed
qed

lemma queue_ok_pop: "queue_ok q \<Longrightarrow> queue_ok (dict_pop i q)"
  by (auto simp: queue_ok_def)

lemma index_okD: "index_ok f key q \<Longrightarrow> (i, e) \<in> set q \<Longrightarrow> f (key e) = Some i"
  unfolding index_ok_def by blast

lemma remove_in:
  assumes "indexes_ok s" and "(i, e) \<in> set (queue s)"
  shows "remove i s = s\<lparr>queue := dict_pop i (queue s), by_identity := (by_identity s)(ident e := None),
    by_group := (by_group s)(egroup e := None)\<rparr>"
proof -
  have "map_of (queue s) i = Some e" using assms queue_okD(2) unfolding indexes_ok_def by blast
  moreover have "by_group s (egroup e) = Some i" using assms index_okD unfolding indexes_ok_def by blast
  ultimately show ?thesis by (simp add: remove_def Let_def ident_def egroup_def)
qed

lemma remove_notin: "i \<notin> fst ` set (queue s) \<Longrightarrow> remove i s = s"
  by (simp add: remove_def map_of_eq_None_iff[THEN iffD2])

lemma remove_indexes_ok: "indexes_ok s \<Longrightarrow> indexes_ok (remove i s)"
proof (cases "i \<in> fst ` set (queue s)")
  case True
  assume ok: "indexes_ok s"
  from True obtain e where e: "(i, e) \<in> set (queue s)" by auto
  show ?thesis
    using ok unfolding remove_in[OF ok e] indexes_ok_def
    by (simp add: index_ok_pop[OF _ _ e] queue_ok_pop)
qed (simp add: remove_notin)

lemma remove_queue: "indexes_ok s \<Longrightarrow> queue (remove i s) = dict_pop i (queue s)"
proof (cases "i \<in> fst ` set (queue s)")
  case True
  assume ok: "indexes_ok s"
  from True obtain e where e: "(i, e) \<in> set (queue s)" by auto
  show ?thesis unfolding remove_in[OF ok e] by simp
next
  case False
  then have "dict_pop i (queue s) = queue s" unfolding dict_pop_def by (intro filter_True) force
  then show ?thesis using False by (simp add: remove_notin)
qed

lemma remove_fields [simp]:
  "sc_policy (remove i s) = sc_policy s" "running (remove i s) = running s" "last_now (remove i s) = last_now s"
  "slots_used (remove i s) = slots_used s"
  by (simp_all add: remove_def Let_def split: option.split)

lemma remove_by_identity: "by_identity s k = None \<Longrightarrow> by_identity (remove i s) k = None"
  by (simp add: remove_def Let_def split: option.split)

lemma remove_inv: "sched_inv s \<Longrightarrow> sched_inv (remove i s)"
proof -
  assume inv: "sched_inv s"
  then have ok: "indexes_ok s" by (simp add: sched_inv_def)
  have "running_ok (remove i s)"
    using inv unfolding sched_inv_def running_ok_def remove_queue[OF ok]
    by (auto simp: remove_by_identity)
  moreover have "length (queue (remove i s)) \<le> length (queue s)" by (simp add: remove_queue[OF ok])
  ultimately show ?thesis using inv remove_indexes_ok[OF ok] by (simp add: sched_inv_def)
qed

lemma index_ok_put:
  assumes "index_ok f key q" and "f (key e) = None"
  shows "index_ok (f(key e \<mapsto> i)) key (q @ [(i, e)])"
proof -
  have "key e' \<noteq> key e" if "(j, e') \<in> set q" for j e' using assms that unfolding index_ok_def by (metis option.distinct(1))
  then show ?thesis using assms(1) unfolding index_ok_def by auto
qed

lemma insert_inv:
  assumes inv: "sched_inv s" and new: "item_id (version e) \<notin> fst ` set (queue s)"
    and "by_identity s (ident e) = None" "by_group s (egroup e) = None"
    and room: "int (length (queue s)) < max_queued (sc_policy s)"
    and run: "\<And>r. running s = Some r \<Longrightarrow> item_id (version (rn_entry r)) \<noteq> item_id (version e) \<and> ident (rn_entry r) \<noteq> ident e"
  shows "sched_inv (insert_entry e s)"
proof -
  note put = dict_put_new[OF new]
  have "queue_ok (queue s @ [(item_id (version e), e)])"
    using inv new by (auto simp: sched_inv_def indexes_ok_def queue_ok_def)
  then have "indexes_ok (insert_entry e s)"
    using inv index_ok_put[of "by_identity s" ident "queue s" e] index_ok_put[of "by_group s" egroup "queue s" e] assms(3,4)
    by (simp add: insert_entry_def Let_def indexes_ok_def sched_inv_def put flip: ident_def egroup_def)
  moreover have "running_ok (insert_entry e s)"
    using inv run unfolding sched_inv_def running_ok_def insert_entry_def Let_def put
    by (auto simp: ident_def)
  ultimately show ?thesis using inv room by (simp add: sched_inv_def insert_entry_def Let_def put)
qed

section \<open>The sweep\<close>

lemma sweep_entry_fold:
  "fold (sweep_entry now) es (s, out) =
     (fold (\<lambda>e. remove (item_id (version e))) (filter (\<lambda>e. sweep_verdict (sc_policy s) now e \<noteq> None) es) s,
      out @ List.map_filter (sweep_verdict (sc_policy s) now) es)"
  by (induction es arbitrary: s out) (auto simp: sweep_entry_def map_filter_simps split: option.split)

lemma fold_remove_inv: "sched_inv s \<Longrightarrow> sched_inv (fold (\<lambda>e. remove (item_id (version e))) es s)"
  by (induction es arbitrary: s) (auto intro: remove_inv)

lemma fold_remove_fields [simp]:
  "sc_policy (fold (\<lambda>e. remove (item_id (version e))) es s) = sc_policy s"
  "running (fold (\<lambda>e. remove (item_id (version e))) es s) = running s"
  "last_now (fold (\<lambda>e. remove (item_id (version e))) es s) = last_now s"
  "slots_used (fold (\<lambda>e. remove (item_id (version e))) es s) = slots_used s"
  by (induction es arbitrary: s) auto

lemma fold_remove_queue:
  "indexes_ok s \<Longrightarrow> set (queue (fold (\<lambda>e. remove (item_id (version e))) es s)) =
     {(i, e) \<in> set (queue s). i \<notin> (\<lambda>e. item_id (version e)) ` set es}"
proof (induction es arbitrary: s)
  case (Cons e es)
  have "indexes_ok (remove (item_id (version e)) s)" using Cons.prems by (rule remove_indexes_ok)
  from Cons.IH[OF this] show ?case using Cons.prems by (auto simp: remove_queue)
qed simp

lemma fold_remove_by_identity:
  "by_identity s k = None \<Longrightarrow> by_identity (fold (\<lambda>e. remove (item_id (version e))) es s) k = None"
  by (induction es arbitrary: s) (auto simp: remove_by_identity)

lemma sweep_running_cases:
  obtains (idle) "sweep_running now s = (s, [])"
      "\<And>r. running s = Some r \<Longrightarrow> aborted r \<or> now < deadline (rn_entry r)"
  | (late) r where "running s = Some r" "\<not> aborted r" "deadline (rn_entry r) \<le> now"
      "sweep_running now s = (s\<lparr>running := Some (r\<lparr>aborted := True\<rparr>)\<rparr>,
         [trans (item_id (version (rn_entry r))) IS_ABORT_STALE now None (Some DEADLINE_PASSED)])"
proof (cases "running s")
  case None
  then show ?thesis by (intro idle) (auto simp: sweep_running_def)
next
  case (Some r)
  then show ?thesis
    by (cases "\<not> aborted r \<and> deadline (rn_entry r) \<le> now")
      (auto intro: idle late simp: sweep_running_def)
qed

lemma set_queued: "set (queued s) = snd ` set (queue s)"
  by (simp add: queued_def)

lemma sweep_running_fields:
  "queue (fst (sweep_running now s)) = queue s" "sc_policy (fst (sweep_running now s)) = sc_policy s"
  "by_identity (fst (sweep_running now s)) = by_identity s" "by_group (fst (sweep_running now s)) = by_group s"
  "last_now (fst (sweep_running now s)) = last_now s" "slots_used (fst (sweep_running now s)) = slots_used s"
  by (cases rule: sweep_running_cases[of now s]; simp)+

lemma sweep_running_inv: "sched_inv s \<Longrightarrow> sched_inv (fst (sweep_running now s))"
  by (cases rule: sweep_running_cases[of now s])
    (auto simp: sched_inv_def indexes_ok_def running_ok_def)

lemma sweep_state_unfold:
  "sweep_state now s =
     (fold (\<lambda>e. remove (item_id (version e)))
        (filter (\<lambda>e. sweep_verdict (sc_policy s) now e \<noteq> None) (queued s)) (fst (sweep_running now s)),
      snd (sweep_running now s) @ List.map_filter (sweep_verdict (sc_policy s) now) (queued s))"
proof -
  have "queued (fst (sweep_running now s)) = queued s" by (simp add: queued_def sweep_running_fields)
  then show ?thesis
    using sweep_entry_fold[of now "queued s" "fst (sweep_running now s)" "snd (sweep_running now s)"]
    by (simp add: sweep_state_def sweep_running_fields)
qed

lemma sweep_state_inv: "sched_inv s \<Longrightarrow> sched_inv (fst (sweep_state now s))"
  by (simp add: sweep_state_unfold fold_remove_inv sweep_running_inv)

lemma sweep_state_fields [simp]:
  "sc_policy (fst (sweep_state now s)) = sc_policy s" "last_now (fst (sweep_state now s)) = last_now s"
  "slots_used (fst (sweep_state now s)) = slots_used s"
  "running (fst (sweep_state now s)) = running (fst (sweep_running now s))"
  by (simp_all add: sweep_state_unfold sweep_running_fields)

lemma sweep_state_by_identity: "by_identity s k = None \<Longrightarrow> by_identity (fst (sweep_state now s)) k = None"
  by (simp add: sweep_state_unfold fold_remove_by_identity sweep_running_fields)

lemma sweep_state_queue:
  assumes "indexes_ok s"
  shows "set (queue (fst (sweep_state now s))) = {(i, e) \<in> set (queue s). sweep_verdict (sc_policy s) now e = None}"
proof -
  have ok: "indexes_ok (fst (sweep_running now s))"
    using assms by (simp add: indexes_ok_def sweep_running_fields)
  have q: "queue_ok (queue s)" using assms by (simp add: indexes_ok_def)
  have "i \<in> (\<lambda>e. item_id (version e)) ` set (filter (\<lambda>e. sweep_verdict (sc_policy s) now e \<noteq> None) (queued s))
      \<longleftrightarrow> sweep_verdict (sc_policy s) now e \<noteq> None" if "(i, e) \<in> set (queue s)" for i e
  proof
    assume "i \<in> (\<lambda>e. item_id (version e)) ` set (filter (\<lambda>e. sweep_verdict (sc_policy s) now e \<noteq> None) (queued s))"
    then obtain j e' where e': "(j, e') \<in> set (queue s)" "sweep_verdict (sc_policy s) now e' \<noteq> None" "i = item_id (version e')"
      by (auto simp: set_queued)
    then have "j = i" using queue_okD(1)[OF q e'(1)] by simp
    then show "sweep_verdict (sc_policy s) now e \<noteq> None" using queue_okD(3)[OF q that] e' by metis
  next
    assume "sweep_verdict (sc_policy s) now e \<noteq> None"
    moreover have "e \<in> snd ` set (queue s)" using that by force
    ultimately show "i \<in> (\<lambda>e. item_id (version e)) ` set (filter (\<lambda>e. sweep_verdict (sc_policy s) now e \<noteq> None) (queued s))"
      using queue_okD(1)[OF q that] by (intro image_eqI[of _ _ e]) (simp_all add: set_queued)
  qed
  note iff = this
  have "set (queue (fst (sweep_state now s))) = {(i, e) \<in> set (queue s). i \<notin> (\<lambda>e. item_id (version e)) `
      set (filter (\<lambda>e. sweep_verdict (sc_policy s) now e \<noteq> None) (queued s))}"
    by (simp only: sweep_state_unfold fst_conv fold_remove_queue[OF ok] sweep_running_fields)
  also have "\<dots> = {(i, e) \<in> set (queue s). sweep_verdict (sc_policy s) now e = None}" using iff by blast
  finally show ?thesis .
qed

text \<open>The records of the sweep: one for the late running item, one per entry that leaves.\<close>

lemma sweep_state_out:
  "set (snd (sweep_state now s)) = set (snd (sweep_running now s)) \<union>
     {t. \<exists>i e. (i, e) \<in> set (queue s) \<and> sweep_verdict (sc_policy s) now e = Some t}"
  by (force simp: sweep_state_unfold map_filter_set set_queued)

lemma sweep_verdict_record:
  "sweep_verdict p now e = Some t \<Longrightarrow> st_item_id t = item_id (version e) \<and> st_state t \<notin> ACTIVE_ITEM_STATES"
  by (auto simp: sweep_verdict_def Let_def unfit_state_def ACTIVE_ITEM_STATES_def split: if_splits)

lemma sched_inv_last_now [simp]: "sched_inv (s\<lparr>last_now := x\<rparr>) = sched_inv s"
  by (simp add: sched_inv_def indexes_ok_def running_ok_def)

lemma begin_op_inv: "sched_inv s \<Longrightarrow> sched_inv (fst (begin_op now s))"
  by (simp add: begin_op_def sweep_state_inv)

lemma sweep_running_upd: "sweep_running now (s\<lparr>last_now := x\<rparr>) = (case sweep_running now s of (a, b) \<Rightarrow> (a\<lparr>last_now := x\<rparr>, b))"
  by (simp add: sweep_running_def split: option.split)

lemma begin_op_fields [simp]:
  "sc_policy (fst (begin_op now s)) = sc_policy s" "last_now (fst (begin_op now s)) = Some now"
  "slots_used (fst (begin_op now s)) = slots_used s"
  "running (fst (begin_op now s)) = running (fst (sweep_running now s))"
  by (simp_all add: begin_op_def sweep_running_upd case_prod_unfold)

lemma begin_op_queue:
  "sched_inv s \<Longrightarrow> set (queue (fst (begin_op now s))) = {(i, e) \<in> set (queue s). sweep_verdict (sc_policy s) now e = None}"
  using sweep_state_queue[of "s\<lparr>last_now := Some now\<rparr>" now]
  by (simp add: begin_op_def sched_inv_def indexes_ok_def)

lemma begin_op_out:
  "set (snd (begin_op now s)) = set (snd (sweep_running now s)) \<union>
     {t. \<exists>i e. (i, e) \<in> set (queue s) \<and> sweep_verdict (sc_policy s) now e = Some t}"
  using sweep_state_out[of now "s\<lparr>last_now := Some now\<rparr>"]
  by (simp add: begin_op_def sweep_running_upd case_prod_unfold)

lemma begin_op_by_identity: "by_identity s k = None \<Longrightarrow> by_identity (fst (begin_op now s)) k = None"
  by (simp add: begin_op_def sweep_state_by_identity)

section \<open>Admission\<close>

lemma dict_pop_less: "i \<in> fst ` set q \<Longrightarrow> length (dict_pop i q) < length q"
  unfolding dict_pop_def by (intro length_filter_less[of "(i, the (map_of q i))"]) (auto simp: rev_image_eqI, metis option.sel weak_map_of_SomeI map_of_SomeD)

lemma remove_by_group: "by_group s k = None \<Longrightarrow> by_group (remove i s) k = None"
  by (simp add: remove_def Let_def split: option.split)

lemma by_group_in_queue: "sched_inv s \<Longrightarrow> by_group s g = Some i \<Longrightarrow> \<exists>e. (i, e) \<in> set (queue s) \<and> egroup e = g"
  unfolding sched_inv_def indexes_ok_def index_ok_def by blast

lemma admit_group_Inr:
  assumes inv: "sched_inv s" and res: "admit_group v now s out = Inr (s1, out1, sup_id)"
  shows "sched_inv s1 \<and> by_group s1 (group_key v) = None
    \<and> (\<forall>k. by_identity s k = None \<longrightarrow> by_identity s1 k = None)
    \<and> running s1 = running s \<and> sc_policy s1 = sc_policy s \<and> last_now s1 = last_now s \<and> slots_used s1 = slots_used s
    \<and> (case sup_id of None \<Rightarrow> s1 = s \<and> out1 = out
       | Some j \<Rightarrow> j \<in> fst ` set (queue s) \<and> set (queue s1) = {(i, e) \<in> set (queue s). i \<noteq> j}
           \<and> out1 = out @ [trans j IS_SUPERSEDED now (Some (item_id v)) None])"
proof (cases "by_group s (group_key v)")
  case None
  then show ?thesis using inv res by (auto simp: admit_group_def)
next
  case (Some j)
  then obtain e where e: "(j, e) \<in> set (queue s)" "egroup e = group_key v" using by_group_in_queue[OF inv] by blast
  have ok: "indexes_ok s" using inv by (simp add: sched_inv_def)
  have r: "s1 = remove j s" "sup_id = Some j" "out1 = out @ [trans j IS_SUPERSEDED now (Some (item_id v)) None]"
    using res Some by (auto simp: admit_group_def Let_def split: if_splits)
  have "by_group s1 (group_key v) = None" unfolding r remove_in[OF ok e(1)] by (simp add: e(2))
  moreover have "j \<in> fst ` set (queue s)" using e(1) by force
  ultimately show ?thesis
    using r remove_inv[OF inv] remove_by_identity[of s _ j] by (simp add: remove_queue[OF ok])
qed

lemma admit_overflow_Inr:
  assumes inv: "sched_inv s" and res: "admit_overflow e now s out = Inr (s1, out1)"
  shows "sched_inv s1 \<and> int (length (queue s1)) < max_queued (sc_policy s)
    \<and> (\<forall>k. by_identity s k = None \<longrightarrow> by_identity s1 k = None)
    \<and> (\<forall>k. by_group s k = None \<longrightarrow> by_group s1 k = None)
    \<and> running s1 = running s \<and> sc_policy s1 = sc_policy s \<and> last_now s1 = last_now s \<and> slots_used s1 = slots_used s
    \<and> ((s1 = s \<and> out1 = out) \<or> (\<exists>j \<in> fst ` set (queue s). set (queue s1) = {(i, e) \<in> set (queue s). i \<noteq> j}
           \<and> out1 = out @ [trans j IS_DROPPED_BACKPRESSURE now (Some (item_id (version e))) None]))"
proof (cases "map snd (queue s)")
  case Nil
  then show ?thesis using inv res by (auto simp: admit_overflow_def sched_inv_def policy_ok_def)
next
  case (Cons x xs)
  show ?thesis
  proof (cases "int (length (queue s)) < max_queued (sc_policy s)")
    case True
    then show ?thesis using inv res Cons by (auto simp: admit_overflow_def)
  next
    case False
    define w where "w = max_by rank_key x xs"
    define j where "j = item_id (version w)"
    have ok: "indexes_ok s" using inv by (simp add: sched_inv_def)
    have "w \<in> set (map snd (queue s))" unfolding Cons w_def by (rule max_by_in)
    then obtain i where i: "(i, w) \<in> set (queue s)" by auto
    then have "i = j" using queue_okD(1) ok unfolding indexes_ok_def j_def by blast
    then have j: "j \<in> fst ` set (queue s)" using i by force
    have r: "s1 = remove j s" "out1 = out @ [trans j IS_DROPPED_BACKPRESSURE now (Some (item_id (version e))) None]"
      using res Cons False by (auto simp: admit_overflow_def Let_def j_def w_def split: if_splits)
    have "length (queue s1) < length (queue s)" unfolding r remove_queue[OF ok] using j by (rule dict_pop_less)
    moreover have "int (length (queue s)) \<le> max_queued (sc_policy s)" using inv by (simp add: sched_inv_def)
    ultimately show ?thesis
      using r remove_inv[OF inv] remove_by_identity[of s _ j] remove_by_group[of s _ j] j
      by (auto simp: remove_queue[OF ok])
  qed
qed

text \<open>The three ways an admission of a new item ends.\<close>

lemma admit_new_cases:
  assumes "admit_new v now pth dropped dl s out = (res, s')"
  obtains (refused) st rel why where "st \<notin> ACTIVE_ITEM_STATES" "s' = s"
      "res = refused_result (item_id v) st now rel why dropped dl out"
  | (dropped) s1 out1 sup_id st rel where "admit_group v now s out = Inr (s1, out1, sup_id)"
      "st \<notin> ACTIVE_ITEM_STATES" "s' = s1" "res = refused_result (item_id v) st now rel None dropped dl out1"
  | (admitted) b s1 out1 sup_id e s2 out2 where "admit_group v now s out = Inr (s1, out1, sup_id)"
      "e = \<lparr>version = v, qe_band = b, deadline = dl, enqueued_at = now, path = pth, supersedes = sup_id\<rparr>"
      "admit_overflow e now s1 out1 = Inr (s2, out2)" "s' = insert_entry e s2" "now < dl"
      "path_fits (sc_policy s) pth now dl" "band_of (sc_policy s) (opportunity_score v) = Some b"
      "ad_status res = ADMITTED" "ad_item_id res = item_id v" "ad_deadline res = Some dl" "ad_path res = pth"
      "ad_transitions res = out2 @ [trans (item_id v) IS_QUEUED now sup_id None]"
proof -
  note defs = admit_new_def Let_def
  show thesis
  proof (cases "admit_group v now s out")
    case (Inl a)
    then show thesis
      using assms that(1) by (auto simp: defs admit_group_def unfit_state_def ACTIVE_ITEM_STATES_def split: if_splits option.splits)
  next
    case (Inr b)
    then obtain s1 out1 sup_id where g: "admit_group v now s out = Inr (s1, out1, sup_id)" by (cases b) auto
    show thesis
    proof (cases "\<not> integrity_valid v \<or> band_of (sc_policy s) (opportunity_score v) = None \<or> dl \<le> now
        \<or> \<not> path_fits (sc_policy s) pth now dl")
      case True
      then show thesis
        using assms that(1)
        by (auto simp: defs unfit_state_def ACTIVE_ITEM_STATES_def split: if_splits option.splits)
    next
      case False
      then obtain bd where bd: "band_of (sc_policy s) (opportunity_score v) = Some bd" by auto
      define e where "e = \<lparr>version = v, qe_band = bd, deadline = dl, enqueued_at = now, path = pth, supersedes = sup_id\<rparr>"
      show thesis
      proof (cases "admit_overflow e now s1 out1")
        case (Inl a)
        obtain st rel where a: "a = (st, rel)" by (cases a)
        have "st \<notin> ACTIVE_ITEM_STATES"
          using Inl by (auto simp: a admit_overflow_def Let_def ACTIVE_ITEM_STATES_def split: list.splits if_splits)
        then show thesis
          using assms that(2)[OF g] False bd g Inl by (auto simp: defs a e_def)
      next
        case (Inr b)
        obtain s2 out2 where "b = (s2, out2)" by (cases b)
        then show thesis
          using assms that(3)[OF g e_def] False bd g Inr by (auto simp: defs e_def)
      qed
    qed
  qed
qed

section \<open>The machine\<close>

datatype sched_op =
    OpSweep moment
  | OpAdmit moment opportunity_version
  | OpDispatch moment
  | OpAuthorize moment pyval role bool token_bound
  | OpComplete moment pyval
  | OpFail moment pyval

text \<open>One public operation: the records it returns and the new state. An error changes nothing.\<close>

definition after :: "('r \<Rightarrow> sched_transition list) \<Rightarrow> scheduler \<Rightarrow> scheduler_failure + 'r \<times> scheduler
    \<Rightarrow> sched_transition list \<times> scheduler" where
  "after recs s m = (case m of Inl _ \<Rightarrow> ([], s) | Inr (r, s') \<Rightarrow> (recs r, s'))"

fun sched_step :: "sched_op \<Rightarrow> scheduler \<Rightarrow> sched_transition list \<times> scheduler" where
  "sched_step (OpSweep c) s = after (\<lambda>r. r) s (sweep c s)"
| "sched_step (OpAdmit c v) s = after ad_transitions s (admit c v s)"
| "sched_step (OpDispatch c) s = after dr_transitions s (dispatch c s)"
| "sched_step (OpAuthorize c i ro rep b) s = after cd_transitions s (authorize_call c i ro rep b s)"
| "sched_step (OpComplete c i) s = after co_transitions s (complete c i s)"
| "sched_step (OpFail c i) s = after co_transitions s (fail c i s)"

text \<open>Items the caller is still owed a final record for.\<close>

definition live :: "scheduler \<Rightarrow> string set" where
  "live s = fst ` set (queue s) \<union>
     {item_id (version (rn_entry r)) | r. running s = Some r \<and> \<not> aborted r}"

definition closes :: "string \<Rightarrow> sched_transition \<Rightarrow> bool" where
  "closes i t \<longleftrightarrow> st_item_id t = i \<and> st_state t \<notin> ACTIVE_ITEM_STATES"

text \<open>The accounting of one operation: an item leaves the live set exactly when a closing record is returned.\<close>

definition accounted :: "scheduler \<Rightarrow> sched_transition list \<Rightarrow> scheduler \<Rightarrow> bool" where
  "accounted s out s' \<longleftrightarrow>
     (\<forall>i \<in> live s. i \<notin> live s' \<longrightarrow> (\<exists>t \<in> set out. closes i t)) \<and> (\<forall>i. \<forall>t \<in> set out. closes i t \<longrightarrow> i \<notin> live s')"

lemma live_queue: "i \<in> live s \<longleftrightarrow> (\<exists>e. (i, e) \<in> set (queue s)) \<or> (\<exists>r. running s = Some r \<and> \<not> aborted r \<and> i = item_id (version (rn_entry r)))"
  by (force simp: live_def)

lemma queue_ids: "sched_inv s \<Longrightarrow> (i, e) \<in> set (queue s) \<Longrightarrow> item_id (version e) = i"
  unfolding sched_inv_def indexes_ok_def by (blast dest: queue_okD)

lemma running_not_queued:
  "sched_inv s \<Longrightarrow> running s = Some r \<Longrightarrow> (item_id (version (rn_entry r)), e) \<notin> set (queue s)"
  unfolding sched_inv_def running_ok_def by force

lemma begin_op_live:
  assumes inv: "sched_inv s"
  shows "accounted s (snd (begin_op now s)) (fst (begin_op now s)) \<and> live (fst (begin_op now s)) \<subseteq> live s"
proof (cases rule: sweep_running_cases[of now s])
  case idle
  then have run: "running (fst (begin_op now s)) = running s" and out: "set (snd (begin_op now s)) =
      {t. \<exists>i e. (i, e) \<in> set (queue s) \<and> sweep_verdict (sc_policy s) now e = Some t}"
    by (simp_all add: begin_op_out)
  have lv: "i \<in> live (fst (begin_op now s)) \<longleftrightarrow> (\<exists>e. (i, e) \<in> set (queue s) \<and> sweep_verdict (sc_policy s) now e = None)
      \<or> (\<exists>r. running s = Some r \<and> \<not> aborted r \<and> i = item_id (version (rn_entry r)))" for i
    unfolding live_queue run begin_op_queue[OF inv] by auto
  show ?thesis
    unfolding accounted_def
  proof (intro conjI ballI allI impI subsetI)
    fix i assume "i \<in> live s" "i \<notin> live (fst (begin_op now s))"
    then obtain e t where e: "(i, e) \<in> set (queue s)" "sweep_verdict (sc_policy s) now e = Some t"
      unfolding lv live_queue[of i s] by fastforce
    then show "\<exists>t \<in> set (snd (begin_op now s)). closes i t"
      using sweep_verdict_record[OF e(2)] queue_ids[OF inv e(1)] unfolding out closes_def by auto
  next
    fix i t assume t: "t \<in> set (snd (begin_op now s))" "closes i t"
    then obtain j e where e: "(j, e) \<in> set (queue s)" "sweep_verdict (sc_policy s) now e = Some t" unfolding out by auto
    then have "j = i" using sweep_verdict_record[OF e(2)] queue_ids[OF inv e(1)] t(2) by (auto simp: closes_def)
    then show "i \<notin> live (fst (begin_op now s))"
      using e inv running_not_queued[OF inv] queue_okD(3) unfolding lv sched_inv_def indexes_ok_def
      by (metis option.distinct(1))
  next
    fix i assume "i \<in> live (fst (begin_op now s))"
    then show "i \<in> live s" unfolding lv live_queue[of i s] by blast
  qed
next
  case (late r)
  have run: "running (fst (begin_op now s)) = Some (r\<lparr>aborted := True\<rparr>)" using late by simp
  define k where "k = item_id (version (rn_entry r))"
  have out: "set (snd (begin_op now s)) = insert (trans k IS_ABORT_STALE now None (Some DEADLINE_PASSED))
      {t. \<exists>i e. (i, e) \<in> set (queue s) \<and> sweep_verdict (sc_policy s) now e = Some t}"
    using late(4) by (simp add: begin_op_out k_def)
  have lv: "i \<in> live (fst (begin_op now s)) \<longleftrightarrow> (\<exists>e. (i, e) \<in> set (queue s) \<and> sweep_verdict (sc_policy s) now e = None)" for i
    unfolding live_queue run begin_op_queue[OF inv] by auto
  have k: "(k, e) \<notin> set (queue s)" for e using running_not_queued[OF inv late(1)] by (simp add: k_def)
  show ?thesis
    unfolding accounted_def
  proof (intro conjI ballI allI impI subsetI)
    fix i assume "i \<in> live s" "i \<notin> live (fst (begin_op now s))"
    then consider e t where "(i, e) \<in> set (queue s)" "sweep_verdict (sc_policy s) now e = Some t" | "i = k"
      unfolding lv live_queue[of i s] using late(1) k_def by fastforce
    then show "\<exists>t \<in> set (snd (begin_op now s)). closes i t"
    proof cases
      case (1 e t)
      then show ?thesis
        using sweep_verdict_record[OF 1(2)] queue_ids[OF inv 1(1)] unfolding out closes_def by auto
    next
      case 2
      then show ?thesis unfolding out closes_def by (simp add: ACTIVE_ITEM_STATES_def)
    qed
  next
    fix i t assume t: "t \<in> set (snd (begin_op now s))" "closes i t"
    then consider "i = k" | j e where "(j, e) \<in> set (queue s)" "sweep_verdict (sc_policy s) now e = Some t"
      unfolding out by (auto simp: closes_def)
    then show "i \<notin> live (fst (begin_op now s))"
    proof cases
      case 1
      then show ?thesis unfolding lv using k by blast
    next
      case (2 j e)
      then have "j = i" using sweep_verdict_record[OF 2(2)] queue_ids[OF inv 2(1)] t(2) by (auto simp: closes_def)
      then show ?thesis
        using 2 inv queue_okD(3) unfolding lv sched_inv_def indexes_ok_def by (metis option.distinct(1))
    qed
  next
    fix i assume "i \<in> live (fst (begin_op now s))"
    then show "i \<in> live s" unfolding lv live_queue[of i s] by blast
  qed
qed

text \<open>Operations that return after the common sweep.\<close>

lemma accounted_refl: "accounted s [] s"
  by (simp add: accounted_def)

lemma accounted_append:
  assumes "accounted s out s1" and "live s1 - live s2 \<subseteq> {i. \<exists>t \<in> set out2. closes i t}"
    and "\<forall>i. \<forall>t \<in> set out2. closes i t \<longrightarrow> i \<notin> live s2"
    and "live s2 - live s1 \<subseteq> {i. \<forall>t \<in> set out. \<not> closes i t}"
  shows "accounted s (out @ out2) s2"
  unfolding accounted_def
proof (intro conjI ballI allI impI)
  fix i assume i: "i \<in> live s" "i \<notin> live s2"
  show "\<exists>t \<in> set (out @ out2). closes i t"
  proof (cases "i \<in> live s1")
    case True
    then show ?thesis using i assms(2) by auto
  next
    case False
    then show ?thesis using i assms(1) unfolding accounted_def by auto
  qed
next
  fix i t assume t: "t \<in> set (out @ out2)" "closes i t"
  show "i \<notin> live s2"
  proof (cases "t \<in> set out")
    case True
    then have "i \<notin> live s1" using t assms(1) unfolding accounted_def by auto
    then show ?thesis using assms(4) True t(2) by auto
  next
    case False
    then show ?thesis using t assms(3) by auto
  qed
qed

section \<open>Every operation keeps the invariant and accounts for its items\<close>

definition sound_step :: "scheduler \<Rightarrow> sched_transition list \<times> scheduler \<Rightarrow> bool" where
  "sound_step s res \<longleftrightarrow> (sched_inv s \<longrightarrow> sched_inv (snd res) \<and> accounted s (fst res) (snd res)
     \<and> sc_policy (snd res) = sc_policy s)"

lemma sound_error: "sound_step s ([], s)"
  by (simp add: sound_step_def accounted_refl)

lemma sound_begin: "begin_op now s = (s', out) \<Longrightarrow> sound_step s (out, s')"
  using begin_op_inv[of s now] begin_op_live[of s now] by (simp add: sound_step_def) (metis begin_op_fields(1) fst_conv)

lemma sweep_sound: "sound_step s (sched_step (OpSweep c) s)"
proof (cases "read_clock c s")
  case (Inr now)
  obtain s' out where b: "begin_op now s = (s', out)" by fastforce
  then show ?thesis using sound_begin[OF b] Inr by (simp add: sweep_def after_def)
qed (simp add: sweep_def after_def sound_error)

lemma live_remove:
  "sched_inv s \<Longrightarrow> live (remove i s) = live s - {i} \<union> {item_id (version (rn_entry r)) | r. running s = Some r \<and> \<not> aborted r}"
  by (auto simp: live_def remove_queue sched_inv_def)

lemma sched_require_text_Inr: "sched_require_text v = Inr s \<longleftrightarrow> v = PStr s \<and> plain_text 200 s"
  by (cases v) (auto simp: plain_text_def SCHED_MAX_TEXT_LENGTH_def)

lemma authorize_cases:
  assumes "authorize_call c item ro rep b s = Inr (d, s')"
  obtains (refused) now out where "read_clock c s = Inr now" "begin_op now s = (s', out)"
      "cd_transitions d = out" "cd_refusal d \<noteq> None"
  | (allowed) now s1 out r where "read_clock c s = Inr now" "begin_op now s = (s1, out)" "running s1 = Some r"
      "item = PStr (item_id (version (rn_entry r)))"
      "call_refused (sc_policy s1) ro rep b now r = None"
      "s' = s1\<lparr>running := Some (r\<lparr>rn_usage := add_usage (sc_policy s1) ro rep b (rn_usage r)\<rparr>)\<rparr>"
      "cd_transitions d = out" "cd_refusal d = None"
      "cd_call_deadline d = Some (now + seconds (hard_timeout_seconds (profile_of (sc_policy s1) ro)))"
      "cd_usage d = add_usage (sc_policy s1) ro rep b (rn_usage r)"
proof -
  obtain i now where i: "sched_require_text item = Inr i" "item = PStr i" and now: "read_clock c s = Inr now"
    using assms sched_require_text_Inr unfolding authorize_call_def bindE_eq_Inr by blast
  obtain s1 out where b: "begin_op now s = (s1, out)" by fastforce
  show thesis
  proof (cases "running s1")
    case None
    then show thesis using assms i now b that(1) by (auto simp: authorize_call_def)
  next
    case (Some r)
    then show thesis
      using assms i now b that(1) that(2)[OF now b Some]
      by (auto simp: authorize_call_def Let_def split: if_splits option.splits)
  qed
qed

lemma call_refused_None:
  assumes "call_refused p ro rep b now r = None"
  shows "\<not> aborted r" "enabled (profile_of p ro)"
    and "usage_ok p (rn_usage r) \<Longrightarrow> usage_ok p (add_usage p ro rep b (rn_usage r))"
    and "now + seconds (hard_timeout_seconds (profile_of p ro)) + seconds (finalization_reserve_seconds p)
      \<le> deadline (rn_entry r)"
  using assms by (auto simp: call_refused_def Let_def usage_ok_def add_usage_def split: if_splits)

lemma live_same: "queue s = queue s' \<Longrightarrow> map_option (\<lambda>r. (rn_entry r, aborted r)) (running s) = map_option (\<lambda>r. (rn_entry r, aborted r)) (running s')
    \<Longrightarrow> live s = live s'"
  by (cases "running s"; cases "running s'") (auto simp: live_def)

lemma authorize_sound: "sound_step s (sched_step (OpAuthorize c i ro rep b) s)"
proof (cases "authorize_call c i ro rep b s")
  case (Inr a)
  obtain d s' where a: "a = (d, s')" by (cases a)
  from Inr[unfolded a] show ?thesis
  proof (cases rule: authorize_cases)
    case (refused now out)
    then show ?thesis using sound_begin[OF refused(2)] Inr a by (simp add: after_def)
  next
    case (allowed now s1 out r)
    note bs = sound_begin[OF allowed(2), unfolded sound_step_def]
    have "live s' = live s1" using allowed(3,6) by (intro live_same) auto
    moreover have "sched_inv s1 \<Longrightarrow> sched_inv s'"
      using allowed(3) call_refused_None(3)[OF allowed(5)]
      by (auto simp: allowed(6) sched_inv_def indexes_ok_def running_ok_def)
    moreover have "sc_policy s' = sc_policy s1" by (simp add: allowed(6))
    ultimately show ?thesis
      using bs allowed(7) Inr a by (simp add: sound_step_def after_def accounted_def)
  qed
qed (simp add: after_def sound_error)

text \<open>Dispatch.\<close>

lemma choose_entry_in: "fst (choose_entry now s x xs) \<in> set (x # xs)"
proof -
  define lows where "lows = (if (slots_used s + 1) mod fair_slot_every (sc_policy s) = 0
     then filter (\<lambda>e. qe_band e = ELIGIBLE \<and> path_fits (sc_policy s) (path e) now (deadline e)) (x # xs) else [])"
  have "set lows \<subseteq> set (x # xs)"
  proof (cases "(slots_used s + 1) mod fair_slot_every (sc_policy s) = 0")
    case True
    show ?thesis unfolding lows_def if_P[OF True] by (rule filter_is_subset)
  next
    case False
    show ?thesis unfolding lows_def if_not_P[OF False] by (rule empty_subsetI[folded list.set(1)])
  qed
  moreover have "choose_entry now s x xs = (case lows of [] \<Rightarrow> (min_by rank_key x xs, False) | y # ys \<Rightarrow> (min_by fair_key y ys, True))"
    unfolding choose_entry_def Let_def lows_def by (rule refl)
  ultimately show ?thesis
    using min_by_in[of rank_key x xs] min_by_in[of fair_key "hd lows" "tl lows"] by (cases lows) auto
qed

lemma dispatch_cases:
  assumes "dispatch c s = Inr (d, s')"
  obtains (idle) now out where "read_clock c s = Inr now" "begin_op now s = (s', out)" "dr_transitions d = out"
      "dr_dispatched d = None"
  | (dispatched) now s1 out x xs e fair where "read_clock c s = Inr now" "begin_op now s = (s1, out)"
      "running s1 = None" "map snd (queue s1) = x # xs" "choose_entry now s1 x xs = (e, fair)"
      "s' = (remove (item_id (version e)) (s1\<lparr>slots_used := slots_used s1 + 1\<rparr>))
         \<lparr>running := Some \<lparr>rn_entry = e, dispatched_at = now, rn_usage = zero_usage, aborted = False\<rparr>\<rparr>"
      "dr_transitions d = out @ [trans (item_id (version e)) IS_RUNNING now None None]"
      "dr_dispatched d = Some \<lparr>ds_item_id = item_id (version e), ds_path = path e, ds_deadline = deadline e,
         ds_slot_number = slots_used s1 + 1, ds_fair_slot = fair\<rparr>"
proof -
  obtain now where now: "read_clock c s = Inr now" using assms by (auto simp: dispatch_def bindE_eq_Inr)
  obtain s1 out where b: "begin_op now s = (s1, out)" by fastforce
  show thesis
  proof (cases "running s1 = None \<and> queue s1 \<noteq> []")
    case True
    then obtain x xs where q: "map snd (queue s1) = x # xs" by (cases "queue s1") auto
    obtain e fair where ch: "choose_entry now s1 x xs = (e, fair)" by fastforce
    show thesis
      using assms True that(2)[OF now b _ q ch] by (auto simp: dispatch_def now b q ch Let_def)
  next
    case False
    then show thesis using assms that(1)[OF now] by (auto simp: dispatch_def now b split: if_splits)
  qed
qed

lemma sched_inv_slots [simp]: "sched_inv (s\<lparr>slots_used := n\<rparr>) = sched_inv s"
  by (simp add: sched_inv_def indexes_ok_def running_ok_def)

lemma live_slots [simp]: "live (s\<lparr>slots_used := n\<rparr>) = live s"
  by (simp add: live_def)

lemma dispatch_sound: "sound_step s (sched_step (OpDispatch c) s)"
proof (cases "dispatch c s")
  case (Inr a)
  obtain d s' where a: "a = (d, s')" by (cases a)
  from Inr[unfolded a] show ?thesis
  proof (cases rule: dispatch_cases)
    case (idle now out)
    then show ?thesis using sound_begin[OF idle(2)] Inr a by (simp add: after_def)
  next
    case (dispatched now s1 out x xs e fair)
    note bs = sound_begin[OF dispatched(2), unfolded sound_step_def]
    let ?i = "item_id (version e)"
    have "e \<in> set (map snd (queue s1))" using choose_entry_in[of now s1 x xs] dispatched(4,5) by simp
    then obtain j where j: "(j, e) \<in> set (queue s1)" by auto
    have "sched_inv s' \<and> live s' = live s1" if inv: "sched_inv s1"
    proof
      let ?r = "remove ?i (s1\<lparr>slots_used := slots_used s1 + 1\<rparr>)"
      have ji: "j = ?i" using queue_ids[OF inv j] by simp
      have inv2: "sched_inv (s1\<lparr>slots_used := slots_used s1 + 1\<rparr>)" using inv by simp
      then have ok: "indexes_ok (s1\<lparr>slots_used := slots_used s1 + 1\<rparr>)" by (simp add: sched_inv_def)
      have q: "queue ?r = dict_pop ?i (queue s1)" using remove_queue[OF ok] by simp
      have inv3: "sched_inv ?r" using inv2 by (rule remove_inv)
      have bi: "by_identity ?r (ident e) = None" using remove_in[OF ok, of ?i e] j ji by simp
      have "usage_ok p zero_usage" if "policy_ok p" for p using that by (simp add: usage_ok_def zero_usage_def policy_ok_def)
      then show "sched_inv s'"
        using inv3 inv bi unfolding dispatched(6) sched_inv_def indexes_ok_def running_ok_def
        by (auto simp: q)
      show "live s' = live s1"
        using j ji dispatched(3) by (auto simp: live_def dispatched(6) q rev_image_eqI)
    qed
    moreover have "sc_policy s' = sc_policy s1" by (simp add: dispatched(6))
    ultimately show ?thesis
      using bs dispatched(7) Inr a
      by (auto simp: sound_step_def after_def accounted_def closes_def ACTIVE_ITEM_STATES_def)
  qed
qed (simp add: after_def sound_error)

text \<open>Completion and failure free the slot of the running item.\<close>

lemma require_running_Inr:
  "require_running s i = Inr r \<longleftrightarrow> running s = Some r \<and> item_id (version (rn_entry r)) = i"
  by (auto simp: require_running_def split: option.splits)

lemma sched_inv_free: "sched_inv s \<Longrightarrow> sched_inv (s\<lparr>running := None\<rparr>)"
  by (simp add: sched_inv_def indexes_ok_def running_ok_def)

lemma fail_cases:
  assumes "fail c item s = Inr (d, s')"
  obtains now s1 out r0 r where "read_clock c s = Inr now" "begin_op now s = (s1, out)" "running s = Some r0"
    "item = PStr (item_id (version (rn_entry r0)))"
    "running s1 = Some r" "rn_entry r = rn_entry r0" "s' = s1\<lparr>running := None\<rparr>"
    "co_transitions d = out @ (if aborted r then [] else [trans (item_id (version (rn_entry r))) IS_FAILED now None None])"
    "\<not> co_publishable d"
proof -
  obtain i now r0 where i: "sched_require_text item = Inr i" "item = PStr i" and now: "read_clock c s = Inr now"
    and r: "require_running s i = Inr r0"
    using assms sched_require_text_Inr unfolding fail_def bindE_eq_Inr by blast
  note r0 = r r[unfolded require_running_Inr, THEN conjunct1] r[unfolded require_running_Inr, THEN conjunct2]
  obtain s1 out where b: "begin_op now s = (s1, out)" by fastforce
  have "\<exists>r. running s1 = Some r \<and> rn_entry r = rn_entry r0"
    using begin_op_fields(4)[of now s] r0(2) b by (cases rule: sweep_running_cases[of now s]) auto
  then obtain r where r: "running s1 = Some r" "rn_entry r = rn_entry r0" by blast
  show thesis
    using assms by (intro that[OF now b r0(2) _ r]) (auto simp: fail_def i now r0 b r Let_def split: if_splits)
qed

lemma live_free: "running s = Some r \<Longrightarrow> aborted r \<Longrightarrow> live (s\<lparr>running := None\<rparr>) = live s"
  by (auto simp: live_def)

lemma live_free_id: "sched_inv s \<Longrightarrow> running s = Some r \<Longrightarrow> \<not> aborted r \<Longrightarrow>
    live s = insert (item_id (version (rn_entry r))) (live (s\<lparr>running := None\<rparr>))
    \<and> item_id (version (rn_entry r)) \<notin> live (s\<lparr>running := None\<rparr>)"
  by (auto simp: live_def sched_inv_def running_ok_def)

text \<open>The slot is freed: the record that closes the running item completes the account.\<close>

lemma sound_free:
  assumes "sound_step s (out, s1)" and run: "running s1 = Some r" and st: "st \<notin> ACTIVE_ITEM_STATES"
    and out2: "out2 = out @ (if aborted r then [] else [trans (item_id (version (rn_entry r))) st now None why])"
  shows "sound_step s (out2, s1\<lparr>running := None\<rparr>)"
  unfolding sound_step_def
proof (intro impI conjI)
  assume inv: "sched_inv s"
  with assms(1) have s1: "sched_inv s1" "accounted s out s1" "sc_policy s1 = sc_policy s" by (simp_all add: sound_step_def)
  show "sched_inv (snd (out2, s1\<lparr>running := None\<rparr>))" using sched_inv_free[OF s1(1)] by simp
  show "sc_policy (snd (out2, s1\<lparr>running := None\<rparr>)) = sc_policy s" using s1 by simp
  show "accounted s (fst (out2, s1\<lparr>running := None\<rparr>)) (snd (out2, s1\<lparr>running := None\<rparr>))"
  proof (cases "aborted r")
    case True
    then show ?thesis using s1(2) live_free[OF run True] by (simp add: out2 accounted_def)
  next
    case False
    note l = live_free_id[OF s1(1) run False]
    have "accounted s (out @ [trans (item_id (version (rn_entry r))) st now None why]) (s1\<lparr>running := None\<rparr>)"
      using l st by (intro accounted_append[OF s1(2)]) (auto simp: closes_def)
    then show ?thesis using False by (simp add: out2)
  qed
qed

lemma fail_sound: "sound_step s (sched_step (OpFail c i) s)"
proof (cases "fail c i s")
  case (Inr a)
  obtain d s' where a: "a = (d, s')" by (cases a)
  from Inr[unfolded a] show ?thesis
  proof (cases rule: fail_cases)
    case (1 now s1 out r0 r)
    have "sound_step s (co_transitions d, s1\<lparr>running := None\<rparr>)"
      using 1(8) by (intro sound_free[OF sound_begin[OF 1(2)] 1(5), where st = IS_FAILED]) (auto simp: ACTIVE_ITEM_STATES_def)
    then show ?thesis using Inr a 1(7) by (simp add: after_def)
  qed
qed (simp add: after_def sound_error)

text \<open>
  Completion: the late result is recorded before the sweep, which then finds the running item already
  aborted. Up to the reason of that one record it is the common sweep followed by the release.
\<close>

lemma complete_cases:
  assumes "complete c item s = Inr (d, s')"
  obtains now r0 r1 s1 out where "read_clock c s = Inr now" "running s = Some r0"
    "item = PStr (item_id (version (rn_entry r0)))"
    "r1 = (if \<not> aborted r0 \<and> deadline (rn_entry r0) \<le> now then r0\<lparr>aborted := True\<rparr> else r0)"
    "sweep_state now (s\<lparr>last_now := Some now, running := Some r1\<rparr>) = (s1, out)"
    "running s1 = Some r1" "s' = s1\<lparr>running := None\<rparr>"
    "co_transitions d =
       (if \<not> aborted r0 \<and> deadline (rn_entry r0) \<le> now
        then [trans (item_id (version (rn_entry r0))) IS_ABORT_STALE now None (Some LATE_RESULT)] else [])
       @ out @ (if aborted r1 then [] else [trans (item_id (version (rn_entry r0))) IS_COMPLETED now None None])"
    "co_publishable d \<longleftrightarrow> \<not> aborted r1" "co_state d = (if aborted r1 then IS_ABORT_STALE else IS_COMPLETED)"
proof -
  obtain i now r0 where i: "sched_require_text item = Inr i" "item = PStr i" and now: "read_clock c s = Inr now"
    and r: "require_running s i = Inr r0"
    using assms sched_require_text_Inr unfolding complete_def bindE_eq_Inr by blast
  note r0 = r r[unfolded require_running_Inr, THEN conjunct1] r[unfolded require_running_Inr, THEN conjunct2]
  define r1 where "r1 = (if \<not> aborted r0 \<and> deadline (rn_entry r0) \<le> now then r0\<lparr>aborted := True\<rparr> else r0)"
  let ?s = "s\<lparr>last_now := Some now, running := Some r1\<rparr>"
  obtain s1 out where b: "sweep_state now ?s = (s1, out)" by fastforce
  have "sweep_running now ?s = (?s, [])" by (auto simp: sweep_running_def r1_def)
  then have r1: "running s1 = Some r1" using sweep_state_fields(4)[of now ?s] b by simp
  show thesis
    using assms by (intro that[OF now r0(2) _ r1_def b r1])
      (auto simp: complete_def i now r0 b Let_def simp flip: r1_def split: if_splits)
qed

lemma accounted_trans:
  "accounted s o1 s1 \<Longrightarrow> accounted s1 o2 s2 \<Longrightarrow> live s2 \<subseteq> live s1 \<Longrightarrow> accounted s (o1 @ o2) s2"
  unfolding accounted_def by (auto; blast)

lemma complete_sound: "sound_step s (sched_step (OpComplete c i) s)"
proof (cases "complete c i s")
  case (Inr a)
  obtain d s' where a: "a = (d, s')" by (cases a)
  from Inr[unfolded a] show ?thesis
  proof (cases rule: complete_cases)
    case (1 now r0 r1 s1 out)
    let ?late = "\<not> aborted r0 \<and> deadline (rn_entry r0) \<le> now"
    let ?s = "s\<lparr>last_now := Some now, running := Some r1\<rparr>"
    define o1 where "o1 = (if ?late then [trans (item_id (version (rn_entry r0))) IS_ABORT_STALE now None (Some LATE_RESULT)] else [])"
    have "?s\<lparr>last_now := Some now\<rparr> = ?s" by (rule scheduler.equality) simp_all
    then have b: "begin_op now ?s = (s1, out)" unfolding begin_op_def using 1(5) by (simp only:)
    have "sound_step s (o1 @ out, s1)"
      unfolding sound_step_def
    proof (intro impI conjI)
      assume inv: "sched_inv s"
      have inv1: "sched_inv ?s"
        using inv 1(2,4) by (auto simp: sched_inv_def indexes_ok_def running_ok_def)
      have q: "(item_id (version (rn_entry r0)), e) \<notin> set (queue s)" for e using running_not_queued[OF inv 1(2)] .
      have "accounted s o1 ?s"
        using 1(2,4) q by (auto simp: accounted_def live_def o1_def closes_def ACTIVE_ITEM_STATES_def)
      moreover have "accounted ?s out s1" "live s1 \<subseteq> live ?s" using begin_op_live[OF inv1, of now] b by simp_all
      ultimately show "accounted s (fst (o1 @ out, s1)) (snd (o1 @ out, s1))" using accounted_trans by auto
      show "sched_inv (snd (o1 @ out, s1))" using begin_op_inv[OF inv1, of now] b by simp
      show "sc_policy (snd (o1 @ out, s1)) = sc_policy s" using begin_op_fields(1)[of now ?s] b by simp
    qed
    moreover have "rn_entry r1 = rn_entry r0" using 1(4) by simp
    ultimately have "sound_step s (co_transitions d, s1\<lparr>running := None\<rparr>)"
      using 1(8) by (intro sound_free[OF _ 1(6), where st = IS_COMPLETED and now = now and why = None])
        (auto simp: ACTIVE_ITEM_STATES_def o1_def)
    then show ?thesis using Inr a 1(7) by (simp add: after_def)
  qed
qed (simp add: after_def sound_error)

text \<open>Admission.\<close>

lemma existing_item_None:
  "existing_item s k = None \<longleftrightarrow> by_identity s k = None \<and> (\<forall>r. running s = Some r \<longrightarrow> ident (rn_entry r) \<noteq> k)"
  by (auto simp: existing_item_def ident_def split: option.splits)

lemma active_identity_None:
  "active_identity s i = None \<longleftrightarrow> i \<notin> fst ` set (queue s) \<and> (\<forall>r. running s = Some r \<longrightarrow> item_id (version (rn_entry r)) \<noteq> i)"
  by (cases "map_of (queue s) i") (auto simp: active_identity_def simp flip: map_of_eq_None_iff split: option.splits)

lemma begin_op_active:
  assumes inv: "sched_inv s" and act: "active_identity (fst (begin_op now s)) i = Some k"
  shows "active_identity s i = Some k"
proof (cases "map_of (queue (fst (begin_op now s))) i")
  case (Some e)
  then have "(i, e) \<in> set (queue s)" using begin_op_queue[OF inv, of now] map_of_SomeD[OF Some] by auto
  then have "map_of (queue s) i = Some e"
    using inv queue_okD(2) unfolding sched_inv_def indexes_ok_def by blast
  then show ?thesis using act Some by (simp add: active_identity_def)
next
  case None
  then obtain r where r: "running (fst (sweep_running now s)) = Some r" "item_id (version (rn_entry r)) = i"
    "ov_identity (version (rn_entry r)) = k"
    using act by (auto simp: active_identity_def split: option.splits if_splits)
  then obtain r0 where r0: "running s = Some r0" "rn_entry r0 = rn_entry r"
    by (cases rule: sweep_running_cases[of now s]) auto
  then have "map_of (queue s) i = None"
    using running_not_queued[OF inv r0(1)] r(2) by (metis map_of_SomeD not_None_eq)
  then show ?thesis using r r0 by (simp add: active_identity_def)
qed

lemma active_identity_Some:
  assumes "sched_inv s" and "active_identity s i = Some k"
  shows "existing_item s k \<noteq> None"
proof (cases "map_of (queue s) i")
  case (Some e)
  then have "(i, e) \<in> set (queue s)" "ident e = k" using assms(2) map_of_SomeD[of "queue s" i e]
    by (auto simp: active_identity_def ident_def)
  then have "by_identity s k = Some i"
    using assms(1) index_okD[of "by_identity s" ident] unfolding sched_inv_def indexes_ok_def by metis
  then show ?thesis by (simp add: existing_item_None)
next
  case None
  then show ?thesis
    using assms(2) by (auto simp: active_identity_def existing_item_None ident_def split: option.splits if_splits)
qed

lemma admit_cases:
  assumes "admit c v s = Inr (d, s')" and inv: "sched_inv s"
  obtains (quiet) now out where "read_clock c s = Inr now" "begin_op now s = (s', out)" "ad_transitions d = out"
      "ad_status d \<noteq> ADMITTED"
  | (fresh) now s1 out dl where "read_clock c s = Inr now" "begin_op now s = (s1, out)"
      "deadline_of (sc_policy s) v = Inr dl"
      "existing_item s1 (ov_identity v) = None" "item_id v \<notin> live s" "active_identity s1 (item_id v) = None"
      "admit_new v now (fst (enabled_path (sc_policy s) (requested_roles v)))
         (snd (enabled_path (sc_policy s) (requested_roles v))) dl s1 out = (d, s')"
proof -
  obtain now where now: "read_clock c s = Inr now" using assms(1) by (auto simp: admit_def bindE_eq_Inr)
  obtain s1 out where b: "begin_op now s = (s1, out)" by fastforce
  have inv1: "sched_inv s1" using begin_op_inv[OF inv, of now] b by simp
  let ?cur = "active_identity s (item_id v)"
  obtain dl where dl: "deadline_of (sc_policy s) v = Inr dl" and cur: "?cur = None \<or> ?cur = Some (ov_identity v)"
    using assms(1) by (auto simp: admit_def now bindE_eq_Inr Let_def split: if_splits)
  let ?paths = "enabled_path (sc_policy s) (requested_roles v)"
  have d: "admit_swept v now ?cur ?paths dl s1 out = (d, s')"
    using assms(1) cur unfolding admit_def now bindE_Inr dl b Let_def by (auto split: if_splits)
  show thesis
  proof (cases "?cur \<noteq> None \<and> active_identity s1 (item_id v) = None")
    case True
    then show thesis using d b by (intro that(1)[OF now, of out]) (auto simp: admit_swept_def)
  next
    case no: False
    show thesis
    proof (cases "existing_item s1 (ov_identity v)")
      case (Some a)
      obtain x y where "a = (x, y)" by (cases a)
      then show thesis using d b no Some by (intro that(1)[OF now, of out]) (auto simp: admit_swept_def)
    next
      case None
      have act: "active_identity s1 (item_id v) = None"
      proof (rule ccontr)
        assume "active_identity s1 (item_id v) \<noteq> None"
        then obtain k where k: "active_identity s1 (item_id v) = Some k" by blast
        have "?cur = Some k"
          using begin_op_active[OF inv, of now] k b by simp
        then have "k = ov_identity v" using cur by simp
        then show False using active_identity_Some[OF inv1 k] None by simp
      qed
      then have curN: "?cur = None" using no by blast
      then have "item_id v \<notin> live s" unfolding active_identity_None by (auto simp: live_def)
      then show thesis using that(2)[OF now b dl None _ act] d None curN by (simp add: admit_swept_def)
    qed
  qed
qed

lemma begin_op_closes:
  assumes inv: "sched_inv s" and t: "t \<in> set (snd (begin_op now s))" "closes i t"
  shows "i \<in> live s"
proof -
  from t(1) consider "t \<in> set (snd (sweep_running now s))"
    | j e where "(j, e) \<in> set (queue s)" "sweep_verdict (sc_policy s) now e = Some t"
    unfolding begin_op_out by blast
  then show ?thesis
  proof cases
    case 1
    then show ?thesis using t(2)
      by (cases rule: sweep_running_cases[of now s]) (auto simp: live_queue closes_def)
  next
    case (2 j e)
    then have "j = i" using sweep_verdict_record[OF 2(2)] queue_ids[OF inv 2(1)] t(2) by (auto simp: closes_def)
    then show ?thesis using 2(1) by (auto simp: live_queue)
  qed
qed

text \<open>Removing a queued item with its record is accounted for.\<close>

lemma accounted_remove:
  assumes acc: "accounted s out s1" and inv: "sched_inv s1" and j: "j \<in> fst ` set (queue s1)"
    and q: "set (queue s2) = {(i, e) \<in> set (queue s1). i \<noteq> j}" and run: "running s2 = running s1"
    and t: "st_item_id t = j" "st_state t \<notin> ACTIVE_ITEM_STATES"
  shows "accounted s (out @ [t]) s2 \<and> live s2 = live s1 - {j}"
proof -
  have nr: "item_id (version (rn_entry r)) \<noteq> j" if "running s1 = Some r" for r
    using running_not_queued[OF inv that] j by auto
  have l: "live s2 = live s1 - {j}" using nr by (auto simp: live_queue q run)
  have "accounted s (out @ [t]) s2"
    using t l by (intro accounted_append[OF acc]) (auto simp: closes_def)
  with l show ?thesis by blast
qed

lemma admit_group_accounted:
  assumes inv: "sched_inv s1" and g: "admit_group v now s1 out = Inr (s2, out2, sup_id)" and acc: "accounted s out s1"
  shows "accounted s out2 s2 \<and> live s2 \<subseteq> live s1 \<and> (\<forall>t \<in> set out2. t \<in> set out \<or> st_item_id t \<in> live s1)"
proof (cases sup_id)
  case None
  then show ?thesis using admit_group_Inr[OF inv g] acc by simp
next
  case (Some j)
  then have j: "j \<in> fst ` set (queue s1)" "set (queue s2) = {(i, e) \<in> set (queue s1). i \<noteq> j}" "running s2 = running s1"
    "out2 = out @ [trans j IS_SUPERSEDED now (Some (item_id v)) None]"
    using admit_group_Inr[OF inv g] by auto
  have "accounted s out2 s2 \<and> live s2 = live s1 - {j}"
    unfolding j(4) by (rule accounted_remove[OF acc inv j(1-3)]) (simp_all add: ACTIVE_ITEM_STATES_def)
  moreover have "j \<in> live s1" using j(1) by (simp add: live_def)
  ultimately show ?thesis by (auto simp: j(4))
qed

lemma admit_overflow_accounted:
  assumes inv: "sched_inv s1" and g: "admit_overflow e now s1 out = Inr (s2, out2)" and acc: "accounted s out s1"
  shows "accounted s out2 s2 \<and> live s2 \<subseteq> live s1 \<and> (\<forall>t \<in> set out2. t \<in> set out \<or> st_item_id t \<in> live s1)"
proof -
  consider "s2 = s1" "out2 = out" | j where "j \<in> fst ` set (queue s1)" "set (queue s2) = {(i, e) \<in> set (queue s1). i \<noteq> j}"
    "running s2 = running s1" "out2 = out @ [trans j IS_DROPPED_BACKPRESSURE now (Some (item_id (version e))) None]"
    using admit_overflow_Inr[OF inv g] by blast
  then show ?thesis
  proof cases
    case 1
    then show ?thesis using acc by simp
  next
    case (2 j)
    have "accounted s out2 s2 \<and> live s2 = live s1 - {j}"
      unfolding 2(4) by (rule accounted_remove[OF acc inv 2(1-3)]) (simp_all add: ACTIVE_ITEM_STATES_def)
    moreover have "j \<in> live s1" using 2(1) by (simp add: live_def)
    ultimately show ?thesis by (auto simp: 2(4))
  qed
qed

lemma accounted_refused:
  assumes "accounted s out s1" and "i \<notin> live s1" and "st_item_id t = i"
  shows "accounted s (out @ [t]) s1"
  using assms by (intro accounted_append[OF assms(1)]) (auto simp: closes_def)

lemma live_insert:
  "item_id (version e) \<notin> fst ` set (queue s) \<Longrightarrow> live (insert_entry e s) = insert (item_id (version e)) (live s)"
  by (auto simp: live_def insert_entry_def Let_def dict_put_new)

lemma admit_sound: "sound_step s (sched_step (OpAdmit c v) s)"
proof (cases "admit c v s")
  case (Inr a)
  obtain d s' where a: "a = (d, s')" by (cases a)
  have "sched_inv s' \<and> accounted s (ad_transitions d) s' \<and> sc_policy s' = sc_policy s" if inv: "sched_inv s"
    using Inr[unfolded a] inv
  proof (cases rule: admit_cases)
    case (quiet now out)
    then show ?thesis using sound_begin[OF quiet(2)] inv by (simp add: sound_step_def)
  next
    case (fresh now s1 out dl)
    have s1: "sched_inv s1" "accounted s out s1" "live s1 \<subseteq> live s" "sc_policy s1 = sc_policy s"
      using begin_op_inv[OF inv, of now] begin_op_live[OF inv, of now] begin_op_fields(1)[of now s] fresh(2) by simp_all
    have new: "item_id v \<notin> live s1" using s1(3) fresh(5) by blast
    from fresh(7) show ?thesis
    proof (cases rule: admit_new_cases)
      case (refused st rel why)
      then show ?thesis
        using s1 accounted_refused[OF s1(2) new] by (simp add: refused_result_def)
    next
      case (dropped s2 out2 sup_id st rel)
      note g = admit_group_accounted[OF s1(1) dropped(1) s1(2)] and g2 = admit_group_Inr[OF s1(1) dropped(1)]
      have "item_id v \<notin> live s2" using g new by blast
      then have "accounted s (ad_transitions d) s2"
        using g by (auto simp: dropped(4) refused_result_def intro: accounted_refused)
      then show ?thesis using g2 s1(4) dropped(3) by simp
    next
      case (admitted b s2 out2 sup_id e s3 out3)
      note g = admit_group_accounted[OF s1(1) admitted(1) s1(2)] and g2 = admit_group_Inr[OF s1(1) admitted(1)]
      have inv2: "sched_inv s2" using g2 by blast
      note o3 = admit_overflow_accounted[OF inv2 admitted(3) conjunct1[OF g]] and o2 = admit_overflow_Inr[OF inv2 admitted(3)]
      have v: "version e = v" by (simp add: admitted(2))
      have nl: "item_id v \<notin> live s3" using o3 g new by blast
      then have nq: "item_id (version e) \<notin> fst ` set (queue s3)" by (simp add: live_def v)
      have bi: "by_identity s3 (ident e) = None" "\<And>r. running s1 = Some r \<Longrightarrow> ident (rn_entry r) \<noteq> ident e"
        using fresh(4) g2 o2 by (auto simp: existing_item_None ident_def v)
      have bg: "by_group s3 (egroup e) = None" unfolding egroup_def v using g2 o2 by blast
      have run: "running s3 = running s1" "sc_policy s3 = sc_policy s" using g2 o2 s1(4) by simp_all
      have ids: "item_id (version (rn_entry r)) \<noteq> item_id (version e)" if "running s3 = Some r" for r
        using fresh(6) that run by (simp add: active_identity_None v)
      have "sched_inv s'"
        unfolding admitted(4) using o2 bi bg ids run by (intro insert_inv[OF _ nq]) auto
      moreover have "accounted s (ad_transitions d) s'"
        unfolding admitted(12) admitted(4)
      proof (rule accounted_append[OF conjunct1[OF o3]])
        have "\<not> closes (item_id v) t" if "t \<in> set out3" for t
        proof
          assume c: "closes (item_id v) t"
          then have id: "st_item_id t = item_id v" by (simp add: closes_def)
          then have "t \<in> set out" using that o3 g new by (metis subsetD)
          then show False using begin_op_closes[OF inv, of t now "item_id v"] c fresh(2,5) by simp
        qed
        then show "live (insert_entry e s3) - live s3 \<subseteq> {i. \<forall>t \<in> set out3. \<not> closes i t}"
          unfolding live_insert[OF nq] by (auto simp: v)
      qed (auto simp: live_insert[OF nq] closes_def ACTIVE_ITEM_STATES_def)
      moreover have "sc_policy s' = sc_policy s" using run by (simp add: admitted(4) insert_entry_def Let_def)
      ultimately show ?thesis by blast
    qed
  qed
  then show ?thesis using Inr a by (simp add: sound_step_def after_def)
qed (simp add: after_def sound_error)

lemma sched_step_sound: "sound_step s (sched_step op s)"
  by (cases op) (metis sweep_sound, metis admit_sound, metis dispatch_sound, metis authorize_sound,
    metis complete_sound, metis fail_sound)

section \<open>Properties of the scheduler\<close>

definition sched_next :: "sched_op \<Rightarrow> scheduler \<Rightarrow> scheduler" where
  "sched_next op s = snd (sched_step op s)"

lemma sched_next_inv: "sched_inv s \<Longrightarrow> sched_inv (sched_next op s)"
  using sched_step_sound[of s op] by (simp add: sound_step_def sched_next_def)

lemma sched_next_policy: "sched_inv s \<Longrightarrow> sc_policy (sched_next op s) = sc_policy s"
  using sched_step_sound[of s op] by (simp add: sound_step_def sched_next_def)

interpretation sched: state_machine sched_next sched_inv
  by unfold_locales (rule sched_next_inv)

lemma check_policy_ok: "check_policy p = Inr q \<Longrightarrow> p = q \<and> policy_ok p"
  by (auto simp: check_policy_def bindE_eq_Inr require_int_def policy_ok_def)

lemma new_scheduler_inv: "policy_ok p \<Longrightarrow> sched_inv (new_scheduler p)"
  by (simp add: new_scheduler_def sched_inv_def indexes_ok_def queue_ok_def index_ok_def running_ok_def policy_ok_def)

lemma run_policy: "sched_inv s \<Longrightarrow> sc_policy (fold sched_next ops s) = sc_policy s"
  by (induction ops arbitrary: s) (simp_all add: sched_next_inv sched_next_policy)

text \<open>
  C15: The scheduler state is always consistent. Whatever operations run, in whatever order and at
  whatever clock readings, starting from a new scheduler with an accepted policy: the queue never
  exceeds its bound, holds each item once under its own id, its identity and group indexes name
  exactly the queued items (so at most one queued version per identity and per group), the running
  item is not queued, and its usage is within the four per-opportunity ceilings.
\<close>

theorem scheduler_consistent:
  assumes "check_policy p = Inr p" and "s = fold sched_next ops (new_scheduler p)"
  shows "int (length (queue s)) \<le> max_queued p \<and> distinct (map fst (queue s))
    \<and> (\<forall>i e. (i, e) \<in> set (queue s) \<longrightarrow> item_id (version e) = i)
    \<and> (\<forall>k i. by_identity s k = Some i \<longleftrightarrow> (\<exists>e. (i, e) \<in> set (queue s) \<and> ov_identity (version e) = k))
    \<and> (\<forall>k i. by_group s k = Some i \<longleftrightarrow> (\<exists>e. (i, e) \<in> set (queue s) \<and> group_key (version e) = k))
    \<and> (\<forall>r. running s = Some r \<longrightarrow> item_id (version (rn_entry r)) \<notin> fst ` set (queue s)
         \<and> cu_invocations (rn_usage r) \<le> max_invocations p \<and> cu_repairs (rn_usage r) \<le> max_repairs p
         \<and> cu_prompt_tokens (rn_usage r) \<le> max_prompt_tokens p \<and> cu_output_tokens (rn_usage r) \<le> max_output_tokens p)"
proof -
  have ok: "sched_inv (new_scheduler p)" using check_policy_ok[OF assms(1)] by (simp add: new_scheduler_inv)
  then have "sched_inv s" unfolding assms(2) by (rule sched.run_inv)
  moreover have "sc_policy s = p" using run_policy[OF ok] by (simp add: assms(2) new_scheduler_def)
  ultimately show ?thesis
    unfolding sched_inv_def indexes_ok_def queue_ok_def index_ok_def running_ok_def usage_ok_def ident_def egroup_def
    by (intro conjI allI impI) blast+
qed

text \<open>
  No item is lost and none is closed twice. For every operation on a consistent state, an item
  that was queued, or running and not aborted, and no longer is, has a closing record among the
  records the operation returns; and an item with a closing record is no longer queued or running.
\<close>

lemma scheduler_accounts_for_items:
  assumes "sched_inv s" and "sched_step op s = (out, s')"
  shows "(\<forall>i \<in> live s. i \<notin> live s' \<longrightarrow> (\<exists>t \<in> set out. st_item_id t = i \<and> st_state t \<notin> ACTIVE_ITEM_STATES))
    \<and> (\<forall>t \<in> set out. st_state t \<notin> ACTIVE_ITEM_STATES \<longrightarrow> st_item_id t \<notin> live s')"
  using sched_step_sound[of s op] assms unfolding sound_step_def accounted_def closes_def by auto

section \<open>Deadlines\<close>

definition entries :: "scheduler \<Rightarrow> queued_entry set" where
  "entries s = snd ` set (queue s) \<union> {rn_entry r | r. running s = Some r}"

definition on_time :: "policy \<Rightarrow> queued_entry \<Rightarrow> bool" where
  "on_time p e \<longleftrightarrow> deadline e =
     origin_of (version e) + seconds (analysis_deadline_seconds (limits_of p (ov_horizon (version e))))"

text \<open>The entries after an operation are old ones, or the one it admitted.\<close>

lemma entries_begin: "sched_inv s \<Longrightarrow> entries (fst (begin_op now s)) \<subseteq> entries s"
  by (cases rule: sweep_running_cases[of now s]) (auto simp: entries_def begin_op_queue)

lemma entries_remove: "sched_inv s \<Longrightarrow> entries (remove i s) \<subseteq> entries s"
  by (auto simp: entries_def remove_queue sched_inv_def)

lemma entries_insert:
  "item_id (version e) \<notin> fst ` set (queue s) \<Longrightarrow> entries (insert_entry e s) = insert e (entries s)"
  by (auto simp: entries_def insert_entry_def Let_def dict_put_new)

lemma entries_free: "entries (s\<lparr>running := None\<rparr>) \<subseteq> entries s"
  by (auto simp: entries_def)

lemma entries_sub:
  "set (queue s') \<subseteq> set (queue s) \<Longrightarrow> running s' = running s \<Longrightarrow> entries s' \<subseteq> entries s"
  by (auto simp: entries_def)

lemma deadline_of_on_time:
  "deadline_of p v = Inr dl \<Longrightarrow> version e = v \<Longrightarrow> deadline e = dl \<Longrightarrow> on_time p e"
  by (auto simp: deadline_of_def on_time_def Let_def split: if_splits)

lemma admit_entries:
  assumes "admit c v s = Inr (d, s')" and inv: "sched_inv s"
  shows "\<forall>e \<in> entries s'. e \<in> entries s \<or> on_time (sc_policy s) e"
  using assms
proof (cases rule: admit_cases)
  case (quiet now out)
  then show ?thesis using entries_begin[OF inv, of now] by auto
next
  case (fresh now s1 out dl)
  have s1: "sched_inv s1" "entries s1 \<subseteq> entries s" "live s1 \<subseteq> live s"
    using begin_op_inv[OF inv, of now] entries_begin[OF inv, of now] begin_op_live[OF inv, of now] fresh(2) by simp_all
  from fresh(7) show ?thesis
  proof (cases rule: admit_new_cases)
    case (refused st rel why)
    then show ?thesis using s1 by auto
  next
    case (dropped s2 out2 sup_id st rel)
    have "entries s2 \<subseteq> entries s1"
      using admit_group_Inr[OF s1(1) dropped(1)] by (intro entries_sub) (auto split: option.splits)
    then show ?thesis using s1 dropped(3) by auto
  next
    case (admitted b s2 out2 sup_id e s3 out3)
    note g = admit_group_Inr[OF s1(1) admitted(1)]
    have inv2: "sched_inv s2" using g by blast
    note o3 = admit_overflow_Inr[OF inv2 admitted(3)]
    have q: "set (queue s2) \<subseteq> set (queue s1)" using g by (auto split: option.splits)
    have q3: "set (queue s3) \<subseteq> set (queue s2)" using o3 by auto
    have "running s2 = running s1" "running s3 = running s2" using g o3 by simp_all
    note sub = entries_sub[OF q this(1)] entries_sub[OF q3 this(2)]
    moreover have "item_id (version e) \<notin> fst ` set (queue s3)"
      using fresh(6) q q3 by (auto simp: active_identity_None admitted(2))
    moreover have "on_time (sc_policy s) e" using fresh(3) by (rule deadline_of_on_time) (simp_all add: admitted(2))
    ultimately show ?thesis using s1(2) unfolding admitted(4) by (simp add: entries_insert) blast
  qed
qed

lemma step_entries:
  assumes inv: "sched_inv s"
  shows "\<forall>e \<in> entries (sched_next op s). e \<in> entries s \<or> on_time (sc_policy s) e"
proof -
  have start: "entries s' \<subseteq> entries s" if "begin_op now s = (s', out)" for now s' out
    using entries_begin[OF inv, of now] that by simp
  show ?thesis
  proof (cases op)
    case (OpSweep c)
    then show ?thesis
      using start by (cases "read_clock c s") (auto simp: sched_next_def after_def sweep_def split: prod.splits)
  next
    case (OpAdmit c v)
    then show ?thesis
      using admit_entries[OF _ inv, of c v] by (cases "admit c v s") (simp_all add: sched_next_def after_def split: prod.split)
  next
    case (OpDispatch c)
    show ?thesis
    proof (cases "dispatch c s")
      case (Inr a)
      obtain d s' where a: "a = (d, s')" by (cases a)
      have "entries s' \<subseteq> entries s" using Inr[unfolded a]
      proof (cases rule: dispatch_cases)
        case (idle now out)
        then show ?thesis using start by blast
      next
        case (dispatched now s1 out x xs e fair)
        have inv1: "sched_inv (s1\<lparr>slots_used := slots_used s1 + 1\<rparr>)" using begin_op_inv[OF inv, of now] dispatched(2) by simp
        have "e \<in> snd ` set (queue s1)" using choose_entry_in[of now s1 x xs] dispatched(4,5) by (metis fst_conv list.set_map)
        then have "entries s' \<subseteq> entries s1"
          using inv1 by (auto simp: entries_def dispatched(6) remove_queue sched_inv_def)
        then show ?thesis using start[OF dispatched(2)] by blast
      qed
      then show ?thesis using Inr a OpDispatch by (auto simp: sched_next_def after_def)
    qed (simp add: OpDispatch sched_next_def after_def)
  next
    case (OpAuthorize c i ro rep b)
    show ?thesis
    proof (cases "authorize_call c i ro rep b s")
      case (Inr a)
      obtain d s' where a: "a = (d, s')" by (cases a)
      have "entries s' \<subseteq> entries s" using Inr[unfolded a]
      proof (cases rule: authorize_cases)
        case (refused now out)
        then show ?thesis using start by blast
      next
        case (allowed now s1 out r)
        have "entries s' \<subseteq> entries s1" using allowed(3) by (auto simp: entries_def allowed(6))
        then show ?thesis using start[OF allowed(2)] by blast
      qed
      then show ?thesis using Inr a OpAuthorize by (auto simp: sched_next_def after_def)
    qed (simp add: OpAuthorize sched_next_def after_def)
  next
    case (OpComplete c i)
    show ?thesis
    proof (cases "complete c i s")
      case (Inr a)
      obtain d s' where a: "a = (d, s')" by (cases a)
      have "entries s' \<subseteq> entries s" using Inr[unfolded a]
      proof (cases rule: complete_cases)
        case (1 now r0 r1 s1 out)
        let ?s = "s\<lparr>last_now := Some now, running := Some r1\<rparr>"
        have "indexes_ok ?s" using inv by (simp add: sched_inv_def indexes_ok_def)
        then have "set (queue s1) \<subseteq> set (queue s)" using sweep_state_queue[of ?s now] 1(5) by auto
        then show ?thesis by (auto simp: entries_def 1(7))
      qed
      then show ?thesis using Inr a OpComplete by (auto simp: sched_next_def after_def)
    qed (simp add: OpComplete sched_next_def after_def)
  next
    case (OpFail c i)
    show ?thesis
    proof (cases "fail c i s")
      case (Inr a)
      obtain d s' where a: "a = (d, s')" by (cases a)
      have "entries s' \<subseteq> entries s" using Inr[unfolded a]
      proof (cases rule: fail_cases)
        case (1 now s1 out r0 r)
        then show ?thesis using start[OF 1(2)] entries_free[of s1] by blast
      qed
      then show ?thesis using Inr a OpFail by (auto simp: sched_next_def after_def)
    qed (simp add: OpFail sched_next_def after_def)
  qed
qed

definition timed_inv :: "scheduler \<Rightarrow> bool" where
  "timed_inv s \<longleftrightarrow> sched_inv s \<and> (\<forall>e \<in> entries s. on_time (sc_policy s) e)"

lemma timed_next: "timed_inv s \<Longrightarrow> timed_inv (sched_next op s)"
  unfolding timed_inv_def using sched_next_inv sched_next_policy step_entries by metis

lemma new_scheduler_timed: "policy_ok p \<Longrightarrow> timed_inv (new_scheduler p)"
  by (simp add: timed_inv_def new_scheduler_inv) (simp add: entries_def new_scheduler_def)

interpretation timed: state_machine sched_next timed_inv
  by unfold_locales (rule timed_next)

text \<open>
  C16: Nothing is published late. In every state reachable from a new scheduler, a completion that is
  publishable was read from the clock strictly before the deadline of the running item, and that
  deadline is the one fixed by its origin seal and horizon: no wait, repair or re-observation moved it.
\<close>

theorem publish_before_deadline:
  assumes "check_policy p = Inr p" and "s = fold sched_next ops (new_scheduler p)"
    and "complete c i s = Inr (d, s')" and "co_publishable d"
  shows "\<exists>r now. running s = Some r \<and> c = Aware now \<and> now < deadline (rn_entry r) \<and> \<not> aborted r \<and> running s' = None
    \<and> deadline (rn_entry r) = origin_of (version (rn_entry r))
        + seconds (analysis_deadline_seconds (limits_of p (ov_horizon (version (rn_entry r)))))"
proof -
  have ok: "policy_ok p" using check_policy_ok[OF assms(1)] by simp
  have "timed_inv s" unfolding assms(2) by (rule timed.run_inv[OF new_scheduler_timed[OF ok]])
  moreover have "sc_policy s = p"
    using run_policy[OF new_scheduler_inv[OF ok]] by (simp add: assms(2) new_scheduler_def)
  ultimately have ot: "\<forall>e \<in> entries s. on_time p e" by (simp add: timed_inv_def)
  from assms(3) show ?thesis
  proof (cases rule: complete_cases)
    case (1 now r0 r1 s1 out)
    then have r: "\<not> aborted r0" "now < deadline (rn_entry r0)" using assms(4) by (auto split: if_splits)
    have "on_time p (rn_entry r0)" using ot 1(2) by (auto simp: entries_def)
    moreover have "c = Aware now" using 1(1) by (cases c) (auto simp: read_clock_def bindE_eq_Inr split: option.splits if_splits)
    ultimately show ?thesis using r 1(2,7) by (auto simp: on_time_def)
  qed
qed

text \<open>
  A call that is authorized fits. The running item is not aborted, the role is enabled, the call
  stopped at its hard limit and followed by the finalization reserve still ends by the deadline, one
  invocation and the whole prompt and output bounds are charged, and the charged totals stay within the
  ceilings of the policy.
\<close>

lemma authorized_call_fits:
  assumes "sched_inv s" and "authorize_call c i ro rep b s = Inr (d, s')" and "allowed d"
  shows "\<exists>r r' now. running s = Some r \<and> running s' = Some r' \<and> c = Aware now \<and> rn_entry r' = rn_entry r \<and> \<not> aborted r'
    \<and> enabled (profile_of (sc_policy s) ro)
    \<and> cd_call_deadline d = Some (now + seconds (hard_timeout_seconds (profile_of (sc_policy s) ro)))
    \<and> the (cd_call_deadline d) + seconds (finalization_reserve_seconds (sc_policy s)) \<le> deadline (rn_entry r)
    \<and> rn_usage r' = add_usage (sc_policy s) ro rep b (rn_usage r) \<and> usage_ok (sc_policy s) (rn_usage r')"
  using assms(2)
proof (cases rule: authorize_cases)
  case (refused now out)
  then show ?thesis using assms(3) by (simp add: allowed_def)
next
  case (allowed now s1 out r)
  note c = call_refused_None[OF allowed(5)]
  have pol: "sc_policy s1 = sc_policy s" and inv: "sched_inv s1"
    using begin_op_fields(1)[of now s] begin_op_inv[OF assms(1), of now] allowed(2) by simp_all
  have run: "running s1 = running (fst (sweep_running now s))" using begin_op_fields(4)[of now s] allowed(2) by simp
  have rs: "running s = Some r"
    using run allowed(3) c(1) by (cases rule: sweep_running_cases[of now s]) auto
  have "usage_ok (sc_policy s) (rn_usage r)" using inv allowed(3) pol by (simp add: sched_inv_def running_ok_def)
  then have "usage_ok (sc_policy s) (add_usage (sc_policy s) ro rep b (rn_usage r))" using c(3) pol by simp
  moreover have "c = Aware now" using allowed(1) by (cases c) (auto simp: read_clock_def bindE_eq_Inr split: option.splits if_splits)
  ultimately show ?thesis using rs allowed(6,9) c pol by auto
qed

text \<open>
  Dispatch is ranked and fair. The dispatched item was queued and survived the sweep; in a
  reserved slot that finds a fitting item of the lower band it is the one admitted earliest among
  those, and in every other slot it ranks no worse than any queued item.
\<close>

lemma dispatch_ranked_and_fair:
  assumes "sched_inv s" and "dispatch c s = Inr (d, s')" and "dr_dispatched d = Some x"
  shows "\<exists>e r now s1 out. begin_op now s = (s1, out) \<and> (ds_item_id x, e) \<in> set (queue s1) \<and> running s1 = None
    \<and> running s' = Some r \<and> rn_entry r = e \<and> ds_slot_number x = slots_used s + 1 \<and> slots_used s' = slots_used s + 1
    \<and> (let lows = {y. \<exists>i. (i, y) \<in> set (queue s1) \<and> qe_band y = ELIGIBLE \<and> path_fits (sc_policy s) (path y) now (deadline y)}
       in if (slots_used s + 1) mod fair_slot_every (sc_policy s) = 0 \<and> lows \<noteq> {}
          then ds_fair_slot x \<and> e \<in> lows \<and> (\<forall>y \<in> lows. enqueued_at e \<le> enqueued_at y)
          else \<not> ds_fair_slot x \<and> (\<forall>i y. (i, y) \<in> set (queue s1) \<longrightarrow> rank_key e \<le> rank_key y))"
  using assms(2)
proof (cases rule: dispatch_cases)
  case (idle now out)
  then show ?thesis using assms(3) by simp
next
  case (dispatched now s1 out y ys e fair)
  have inv1: "sched_inv s1" and pol: "sc_policy s1 = sc_policy s" "slots_used s1 = slots_used s"
    using begin_op_inv[OF assms(1), of now] begin_op_fields[of now s] dispatched(2) by simp_all
  have e: "e \<in> snd ` set (queue s1)" using choose_entry_in[of now s1 y ys] dispatched(4,5) by (metis fst_conv list.set_map)
  then have q: "(item_id (version e), e) \<in> set (queue s1)" using queue_ids[OF inv1] by auto
  define lows where "lows = (if (slots_used s + 1) mod fair_slot_every (sc_policy s) = 0
     then filter (\<lambda>z. qe_band z = ELIGIBLE \<and> path_fits (sc_policy s) (path z) now (deadline z)) (y # ys) else [])"
  have ch: "(e, fair) = (case lows of [] \<Rightarrow> (min_by rank_key y ys, False) | z # zs \<Rightarrow> (min_by fair_key z zs, True))"
    using dispatched(5) unfolding choose_entry_def Let_def lows_def pol by (rule sym)
  have qs: "set (y # ys) = snd ` set (queue s1)" using dispatched(4) by (metis list.set_map)
  let ?S = "{z. \<exists>i. (i, z) \<in> set (queue s1) \<and> qe_band z = ELIGIBLE \<and> path_fits (sc_policy s) (path z) now (deadline z)}"
  let ?slot = "(slots_used s + 1) mod fair_slot_every (sc_policy s) = 0"
  have S: "set lows = ?S" if ?slot
  proof -
    have "set lows = {z \<in> set (y # ys). qe_band z = ELIGIBLE \<and> path_fits (sc_policy s) (path z) now (deadline z)}"
      unfolding lows_def if_P[OF that] by (rule set_filter)
    also have "\<dots> = ?S" unfolding qs by force
    finally show ?thesis .
  qed
  have main: "if ?slot \<and> ?S \<noteq> {} then fair \<and> e \<in> ?S \<and> (\<forall>z \<in> ?S. enqueued_at e \<le> enqueued_at z)
    else \<not> fair \<and> (\<forall>i z. (i, z) \<in> set (queue s1) \<longrightarrow> rank_key e \<le> rank_key z)"
  proof (cases lows)
    case Nil
    then have "\<not> (?slot \<and> ?S \<noteq> {})" using S by auto
    moreover have "e = min_by rank_key y ys" "\<not> fair" using ch Nil by simp_all
    ultimately show ?thesis using min_by_le[of _ y ys rank_key] qs by (simp only: if_False) force
  next
    case (Cons z zs)
    then have slot: ?slot unfolding lows_def by (metis list.distinct(1))
    then have zs: "?S = set (z # zs)" using S Cons by simp
    have ef: "e = min_by fair_key z zs" fair using ch Cons by simp_all
    have "enqueued_at e \<le> enqueued_at w" if "w \<in> set (z # zs)" for w
      using min_by_le[OF that, of fair_key] unfolding ef(1) by (auto simp: fair_key_def less_eq_prod_def)
    then show ?thesis
      using slot ef min_by_in[of fair_key z zs] unfolding zs by auto
  qed
  have x: "ds_item_id x = item_id (version e)" "ds_fair_slot x = fair" "ds_slot_number x = slots_used s + 1"
    using dispatched(8) assms(3) pol by simp_all
  have s': "\<exists>r. running s' = Some r \<and> rn_entry r = e" "slots_used s' = slots_used s + 1"
    by (simp_all add: dispatched(6) pol)
  show ?thesis unfolding x Let_def using main q dispatched(2,3) s' by blast
qed

text \<open>The recorded clock and the slot counter never go back.\<close>

definition clock_le :: "scheduler \<Rightarrow> scheduler \<Rightarrow> bool" where
  "clock_le s s' \<longleftrightarrow> slots_used s \<le> slots_used s'
     \<and> (\<forall>t. last_now s = Some t \<longrightarrow> (\<exists>t'. last_now s' = Some t' \<and> t \<le> t'))"

lemma read_clock_le: "read_clock c s = Inr now \<Longrightarrow> last_now s = Some t \<Longrightarrow> t \<le> now"
  by (auto simp: read_clock_def bindE_eq_Inr split: if_splits)

lemma clock_le_begin:
  "read_clock c s = Inr now \<Longrightarrow> begin_op now s = (s', out) \<Longrightarrow> last_now s'' = last_now s' \<Longrightarrow>
     slots_used s' \<le> slots_used s'' \<Longrightarrow> clock_le s s''"
  using begin_op_fields[of now s] by (auto simp: clock_le_def dest: read_clock_le)

lemma clock_le_next: "sched_inv s \<Longrightarrow> clock_le s (sched_next op s)"
proof (cases op)
  case (OpSweep c)
  then show ?thesis
    by (cases "read_clock c s") (auto simp: sched_next_def after_def sweep_def clock_le_def[of s s] split: prod.splits
        intro: clock_le_begin)
next
  case (OpAdmit c v)
  assume inv: "sched_inv s"
  show ?thesis
  proof (cases "admit c v s")
    case (Inr a)
    obtain d s' where a: "a = (d, s')" by (cases a)
    have "clock_le s s'" using Inr[unfolded a] inv
    proof (cases rule: admit_cases)
      case (quiet now out)
      then show ?thesis by (intro clock_le_begin[OF quiet(1,2)]) auto
    next
      case (fresh now s1 out dl)
      have inv1: "sched_inv s1" using begin_op_inv[OF inv, of now] fresh(2) by simp
      have "last_now s' = last_now s1 \<and> slots_used s' = slots_used s1"
        using fresh(7)
      proof (cases rule: admit_new_cases)
        case (admitted b s2 out2 sup_id e s3 out3)
        note g = admit_group_Inr[OF inv1 admitted(1)]
        have inv2: "sched_inv s2" using g by blast
        show ?thesis using g admit_overflow_Inr[OF inv2 admitted(3)]
          by (simp add: admitted(4) insert_entry_def Let_def)
      qed (use admit_group_Inr[OF inv1] in auto)
      then show ?thesis by (intro clock_le_begin[OF fresh(1,2)]) auto
    qed
    then show ?thesis using Inr a OpAdmit by (simp add: sched_next_def after_def)
  qed (simp add: OpAdmit sched_next_def after_def clock_le_def)
next
  case (OpDispatch c)
  show ?thesis
  proof (cases "dispatch c s")
    case (Inr a)
    obtain d s' where a: "a = (d, s')" by (cases a)
    have "clock_le s s'" using Inr[unfolded a]
      by (cases rule: dispatch_cases) (auto intro!: clock_le_begin)
    then show ?thesis using Inr a OpDispatch by (simp add: sched_next_def after_def)
  qed (simp add: OpDispatch sched_next_def after_def clock_le_def)
next
  case (OpAuthorize c i ro rep b)
  show ?thesis
  proof (cases "authorize_call c i ro rep b s")
    case (Inr a)
    obtain d s' where a: "a = (d, s')" by (cases a)
    have "clock_le s s'" using Inr[unfolded a]
      by (cases rule: authorize_cases) (auto intro!: clock_le_begin)
    then show ?thesis using Inr a OpAuthorize by (simp add: sched_next_def after_def)
  qed (simp add: OpAuthorize sched_next_def after_def clock_le_def)
next
  case (OpComplete c i)
  show ?thesis
  proof (cases "complete c i s")
    case (Inr a)
    obtain d s' where a: "a = (d, s')" by (cases a)
    have "clock_le s s'" using Inr[unfolded a]
    proof (cases rule: complete_cases)
      case (1 now r0 r1 s1 out)
      then show ?thesis
        using sweep_state_fields[of now "s\<lparr>last_now := Some now, running := Some r1\<rparr>"]
        by (auto simp: clock_le_def dest: read_clock_le)
    qed
    then show ?thesis using Inr a OpComplete by (simp add: sched_next_def after_def)
  qed (simp add: OpComplete sched_next_def after_def clock_le_def)
next
  case (OpFail c i)
  show ?thesis
  proof (cases "fail c i s")
    case (Inr a)
    obtain d s' where a: "a = (d, s')" by (cases a)
    have "clock_le s s'" using Inr[unfolded a]
      by (cases rule: fail_cases) (auto intro!: clock_le_begin)
    then show ?thesis using Inr a OpFail by (simp add: sched_next_def after_def)
  qed (simp add: OpFail sched_next_def after_def clock_le_def)
qed

lemma clock_le_trans: "clock_le s t \<Longrightarrow> clock_le t u \<Longrightarrow> clock_le s u"
  unfolding clock_le_def by (meson order_trans)

lemma clock_le_refl: "clock_le s s"
  by (simp add: clock_le_def)

interpretation clock: monotone_machine sched_next sched_inv clock_le
  by unfold_locales (rule clock_le_refl, rule clock_le_trans, assumption, assumption, rule clock_le_next)

section \<open>A sample run\<close>

definition sample_identity :: "string \<Rightarrow> invocation_identity" where
  "sample_identity pair = \<lparr>venue = ''kraken'', market_kind = SPOT, native_instrument = pair, id_setup = ''breakout'',
     id_direction = DIR_LONG, evidence_hash = ''sha256:'' @ replicate 64 CHR ''0'', policy_version = ''OC-1''\<rparr>"

definition sample_version :: "string \<Rightarrow> rat \<Rightarrow> opportunity_version" where
  "sample_version pair score = \<lparr>item_id = pair, ov_identity = sample_identity pair, ov_horizon = HOUR_1, opportunity_score = score,
     sealed_at = 0, integrity_valid = True, deterministic_path_eligible = True, requested_roles = [SCREENER],
     origin_sealed_at = None\<rparr>"

definition sample_ops :: "sched_op list" where
  "sample_ops = [OpAdmit (Aware 1000000) (sample_version ''BTC'' 80), OpAdmit (Aware 2000000) (sample_version ''ETH'' 60)]"

definition sample_queue :: scheduler where
  "sample_queue = fold sched_next sample_ops (new_scheduler default_policy)"

definition sample_running :: scheduler where
  "sample_running = fold sched_next (sample_ops @ [OpDispatch (Aware 3000000)]) (new_scheduler default_policy)"

lemma default_policy_ok: "check_policy default_policy = Inr default_policy"
  by (simp add: check_policy_def default_policy_def require_int_def OC1_HORIZON_LIMITS_def OC1_ROLE_PROFILES_def
      check_limits_def check_profile_def MAX_POLICY_SECONDS_def PRODUCTION_DISABLED_ROLES_def insert_commute)

lemma sample_queue_ids: "map fst (queue sample_queue) = [''BTC'', ''ETH'']"
  by code_simp

lemma sample_running_item: "running_item sample_running = Some ''BTC'' \<and> map fst (queue sample_running) = [''ETH'']"
  by code_simp

lemma sample_inv: "sched_inv sample_queue" "sched_inv sample_running"
  unfolding sample_queue_def sample_running_def
  using check_policy_ok[OF default_policy_ok] by (simp_all only: sched.run_inv[OF new_scheduler_inv])

theorem scheduler_consistent_witness:
  "check_policy default_policy = Inr default_policy \<and> map fst (queue sample_queue) = [''BTC'', ''ETH'']
   \<and> int (length (queue sample_queue)) \<le> 16 \<and> distinct (map fst (queue sample_queue))"
  using scheduler_consistent[OF default_policy_ok sample_queue_def] default_policy_ok sample_queue_ids
  by (simp add: default_policy_def)

theorem publish_before_deadline_witness:
  "\<exists>d s' r. complete (Aware 30000000) (PStr ''BTC'') sample_running = Inr (d, s') \<and> co_publishable d
     \<and> running sample_running = Some r \<and> 30000000 < deadline (rn_entry r)"
proof -
  have "(case complete (Aware 30000000) (PStr ''BTC'') sample_running of Inr (d, s') \<Rightarrow> co_publishable d | Inl _ \<Rightarrow> False)"
    by code_simp
  then obtain d s' where d: "complete (Aware 30000000) (PStr ''BTC'') sample_running = Inr (d, s')" "co_publishable d"
    by (auto split: sum.splits)
  from publish_before_deadline[OF default_policy_ok sample_running_def d] d show ?thesis by auto
qed

end
