(* ===== verification/Trading_Mode.thy ===== *)
theory Trading_Mode
  imports Prelude
begin

text \<open>
  The trading modes of \<^verbatim>\<open>radar_v08/domain/trading_mode.py\<close>: their fixed order, the strict parser and
  the permission to read a private account.
\<close>

section \<open>Modes\<close>

datatype trading_mode =
  ANALYSIS_ONLY | RETROSPECTIVE | PAPER | SHADOW_LIVE | MICRO_LIVE | CONSTRAINED_LIVE | APPROVED_ENVELOPE

definition mode_order :: "trading_mode list" where
  "mode_order = [ANALYSIS_ONLY, RETROSPECTIVE, PAPER, SHADOW_LIVE, MICRO_LIVE, CONSTRAINED_LIVE, APPROVED_ENVELOPE]"

fun mode_value :: "trading_mode \<Rightarrow> string" where
  "mode_value ANALYSIS_ONLY = ''ANALYSIS_ONLY''"
| "mode_value RETROSPECTIVE = ''RETROSPECTIVE''"
| "mode_value PAPER = ''PAPER''"
| "mode_value SHADOW_LIVE = ''SHADOW_LIVE''"
| "mode_value MICRO_LIVE = ''MICRO_LIVE''"
| "mode_value CONSTRAINED_LIVE = ''CONSTRAINED_LIVE''"
| "mode_value APPROVED_ENVELOPE = ''APPROVED_ENVELOPE''"

fun index_of :: "'a list \<Rightarrow> 'a \<Rightarrow> nat" where
  "index_of [] x = 0"
| "index_of (y # ys) x = (if x = y then 0 else Suc (index_of ys x))"

definition rank :: "trading_mode \<Rightarrow> nat" where
  "rank m = index_of mode_order m"

definition DEFAULT_TRADING_MODE :: trading_mode where
  "DEFAULT_TRADING_MODE = ANALYSIS_ONLY"

definition PRIVATE_READ_MINIMUM_MODE :: trading_mode where
  "PRIVATE_READ_MINIMUM_MODE = SHADOW_LIVE"

text \<open>The comparisons of the enum follow the rank; they make the modes a linear order.\<close>

instantiation trading_mode :: linorder
begin

definition less_eq_trading_mode :: "trading_mode \<Rightarrow> trading_mode \<Rightarrow> bool" where
  "less_eq_trading_mode a b \<longleftrightarrow> rank a \<le> rank b"

definition less_trading_mode :: "trading_mode \<Rightarrow> trading_mode \<Rightarrow> bool" where
  "less_trading_mode a b \<longleftrightarrow> rank a < rank b"

instance
proof
  fix x y z :: trading_mode
  show "(x < y) = (x \<le> y \<and> \<not> y \<le> x)" by (auto simp: less_trading_mode_def less_eq_trading_mode_def)
  show "x \<le> x" by (simp add: less_eq_trading_mode_def)
  show "x \<le> y \<Longrightarrow> y \<le> z \<Longrightarrow> x \<le> z" by (simp add: less_eq_trading_mode_def)
  show "x \<le> y \<Longrightarrow> y \<le> x \<Longrightarrow> x = y"
    by (cases x; cases y) (simp_all add: less_eq_trading_mode_def rank_def mode_order_def)
  show "x \<le> y \<or> y \<le> x" by (auto simp: less_eq_trading_mode_def)
qed

end

section \<open>Parsing and permission\<close>

text \<open>\<open>Inl ()\<close> is the \<^verbatim>\<open>TradingModeError\<close>.\<close>

fun find_mode :: "string \<Rightarrow> trading_mode list \<Rightarrow> unit + trading_mode" where
  "find_mode v [] = Inl ()"
| "find_mode v (m # ms) = (if v = mode_value m then Inr m else find_mode v ms)"

fun parse_trading_mode :: "pyval \<Rightarrow> unit + trading_mode" where
  "parse_trading_mode (PStr s) = find_mode s mode_order"
| "parse_trading_mode _ = Inl ()"

text \<open>The argument as an object: \<open>None\<close> is a value that is not a mode.\<close>

fun allows_private_reads :: "trading_mode option \<Rightarrow> bool" where
  "allows_private_reads None = False"
| "allows_private_reads (Some m) \<longleftrightarrow> PRIVATE_READ_MINIMUM_MODE \<le> m"

section \<open>Facts\<close>

lemma find_mode_Inr: "find_mode v ms = Inr m \<Longrightarrow> v = mode_value m"
  by (induction ms) (auto split: if_splits)

lemma parse_mode_value: "parse_trading_mode (PStr (mode_value m)) = Inr m"
  by (cases m) (simp_all add: mode_order_def)

lemma rank_values: "map rank mode_order = [0, 1, 2, 3, 4, 5, 6]"
  by (simp add: rank_def mode_order_def)

text \<open>
  Modes are parsed strictly and only the live modes read accounts. A value parses to a mode
  exactly when it is the string naming it, so no other object, spelling or default can yield one; and
  the private account may be read exactly in the modes from \<^verbatim>\<open>SHADOW_LIVE\<close> up, never in the first three
  modes or the default.
\<close>

lemma parse_mode_strict:
  "(parse_trading_mode v = Inr m \<longleftrightarrow> v = PStr (mode_value m))
   \<and> (allows_private_reads (Some m) \<longleftrightarrow> m \<notin> {ANALYSIS_ONLY, RETROSPECTIVE, PAPER})
   \<and> \<not> allows_private_reads (Some DEFAULT_TRADING_MODE)"
proof -
  have "parse_trading_mode v = Inr m \<Longrightarrow> v = PStr (mode_value m)"
    by (cases v) (auto dest: find_mode_Inr)
  moreover have "allows_private_reads (Some m) \<longleftrightarrow> m \<notin> {ANALYSIS_ONLY, RETROSPECTIVE, PAPER}"
    by (cases m) (simp_all add: PRIVATE_READ_MINIMUM_MODE_def less_eq_trading_mode_def rank_def mode_order_def)
  moreover have "\<not> allows_private_reads (Some DEFAULT_TRADING_MODE)"
    by (simp add: DEFAULT_TRADING_MODE_def PRIVATE_READ_MINIMUM_MODE_def less_eq_trading_mode_def rank_def mode_order_def)
  ultimately show ?thesis using parse_mode_value by blast
qed

end
