(* ===== verification/Transactions.thy ===== *)
theory Transactions
  imports Prelude
begin

text \<open>
  The write discipline that \<^verbatim>\<open>invocation_store._write\<close> and \<^verbatim>\<open>outbox_store._write\<close> share: one
  \<^verbatim>\<open>BEGIN IMMEDIATE\<close> transaction per call, rolled back on any error, with bounded retries when SQLite
  reports the database busy or locked. The database state is a value; the faults that SQLite may
  raise at each try are an argument of the model.

  The locale \<open>write_discipline\<close> states what a store operation may rely on, and the client lemma lifts
  an invariant of the transaction body to the whole operation. Small lemmas on tables kept as lists
  follow.
\<close>

section \<open>The retry loop\<close>

text \<open>
  A try can meet a busy database or another database error, either while the migration ledger is
  checked (only the first try checks it) or in the transaction itself.
\<close>

datatype sql_fault = NoFault | LedgerBusy | LedgerError | BusyFault | OtherFault

record tx_env =
  in_transaction :: bool
  migrated :: bool
  faults :: "nat \<Rightarrow> sql_fault"

record 'e tx_codes =
  open_code :: 'e
  schema_code :: 'e
  busy_code :: 'e
  storage_code :: 'e

definition BUSY_RETRY_DELAYS :: "rat list" where
  "BUSY_RETRY_DELAYS = [1 / 20, 1 / 10, 1 / 5]"

text \<open>How one try ends: it retries, it raises, or it commits.\<close>

datatype ('e, 'r, 's) try_result = Retry | Raise 'e | Commit 'r 's

definition try_once :: "'e tx_codes \<Rightarrow> tx_env \<Rightarrow> nat \<Rightarrow> ('s \<Rightarrow> 'e + 'r \<times> 's) \<Rightarrow> 's \<Rightarrow> ('e, 'r, 's) try_result" where
  "try_once c env attempt work s =
     (if attempt = 0 \<and> faults env attempt = LedgerBusy then Retry
      else if attempt = 0 \<and> faults env attempt = LedgerError then Raise (storage_code c)
      else if attempt = 0 \<and> \<not> migrated env then Raise (schema_code c)
      else if faults env attempt = BusyFault then Retry
      else if faults env attempt = OtherFault \<or> \<not> migrated env then Raise (storage_code c)
      else case work s of Inl e \<Rightarrow> Raise e | Inr (r, s') \<Rightarrow> Commit r s')"

text \<open>The loop over the tries; it returns the delays it slept, one before each further try.\<close>

fun write_loop ::
  "'e tx_codes \<Rightarrow> tx_env \<Rightarrow> ('s \<Rightarrow> 'e + 'r \<times> 's) \<Rightarrow> nat \<Rightarrow> rat list \<Rightarrow> 's \<Rightarrow> ('e + 'r) \<times> 's \<times> rat list" where
  "write_loop c env work attempt delays s =
     (case try_once c env attempt work s of
        Commit r s' \<Rightarrow> (Inr r, s', [])
      | Raise e \<Rightarrow> (Inl e, s, [])
      | Retry \<Rightarrow>
          (case delays of
             [] \<Rightarrow> (Inl (busy_code c), s, [])
           | d # ds \<Rightarrow> (case write_loop c env work (Suc attempt) ds s of (r, s', slept) \<Rightarrow> (r, s', d # slept))))"

declare write_loop.simps [simp del]

definition write_tx :: "'e tx_codes \<Rightarrow> tx_env \<Rightarrow> ('s \<Rightarrow> 'e + 'r \<times> 's) \<Rightarrow> 's \<Rightarrow> ('e + 'r) \<times> 's \<times> rat list" where
  "write_tx c env work s =
     (if in_transaction env then (Inl (open_code c), s, [])
      else write_loop c env work 0 BUSY_RETRY_DELAYS s)"

text \<open>A read outside a transaction.\<close>

definition read_tx :: "'e tx_codes \<Rightarrow> tx_env \<Rightarrow> ('s \<Rightarrow> 'e + 'r) \<Rightarrow> 's \<Rightarrow> 'e + 'r" where
  "read_tx c env work s =
     (case faults env 0 of
        LedgerBusy \<Rightarrow> Inl (busy_code c)
      | LedgerError \<Rightarrow> Inl (storage_code c)
      | f \<Rightarrow> if \<not> migrated env then Inl (schema_code c)
             else if f = BusyFault then Inl (busy_code c)
             else if f = OtherFault then Inl (storage_code c)
             else work s)"

section \<open>The contract\<close>

locale write_discipline =
  fixes exec :: "('s \<Rightarrow> 'e + 'r \<times> 's) \<Rightarrow> 's \<Rightarrow> ('e + 'r) \<times> 's"
  assumes write_error: "exec work s = (Inl e, s') \<Longrightarrow> s' = s"
    and write_commit: "exec work s = (Inr r, s') \<Longrightarrow> work s = Inr (r, s')"
begin

lemma write_keeps:
  assumes "P s" and "\<And>r s'. work s = Inr (r, s') \<Longrightarrow> P s'"
  shows "P (snd (exec work s))"
proof (cases "exec work s")
  case (Pair res s')
  then show ?thesis using assms by (cases res) (auto dest: write_error write_commit)
qed

lemma write_relates:
  assumes "R s s" and "\<And>r s'. work s = Inr (r, s') \<Longrightarrow> R s s'"
  shows "R s (snd (exec work s))"
  using write_keeps[of "R s" s work] assms by blast

end

lemma write_loop_error: "write_loop c env work n ds s = (Inl e, s', sl) \<Longrightarrow> s' = s"
proof (induction ds arbitrary: n sl)
  case Nil
  then show ?case by (subst (asm) write_loop.simps) (auto split: try_result.splits)
next
  case (Cons d ds)
  then show ?case
    by (subst (asm) write_loop.simps) (auto split: try_result.splits prod.splits)
qed

lemma try_once_Commit: "try_once c env n work s = Commit r s' \<Longrightarrow> work s = Inr (r, s')"
  by (auto simp: try_once_def split: if_splits sum.splits)

lemma write_loop_commit: "write_loop c env work n ds s = (Inr r, s', sl) \<Longrightarrow> work s = Inr (r, s')"
proof (induction ds arbitrary: n sl)
  case Nil
  then show ?case by (subst (asm) write_loop.simps) (auto split: try_result.splits dest: try_once_Commit)
next
  case (Cons d ds)
  then show ?case
    by (subst (asm) write_loop.simps) (auto split: try_result.splits prod.splits dest: try_once_Commit)
qed

definition write_op :: "'e tx_codes \<Rightarrow> tx_env \<Rightarrow> ('s \<Rightarrow> 'e + 'r \<times> 's) \<Rightarrow> 's \<Rightarrow> ('e + 'r) \<times> 's" where
  "write_op c env work s = (case write_tx c env work s of (r, s', _) \<Rightarrow> (r, s'))"

interpretation tx: write_discipline "write_op c env"
  by unfold_locales
    (auto simp: write_op_def write_tx_def split: if_splits prod.splits dest: write_loop_error write_loop_commit)

text \<open>Argument errors are raised before the transaction.\<close>

definition with_args :: "'e + 'a \<Rightarrow> ('a \<Rightarrow> 's \<Rightarrow> ('e + 'r) \<times> 's) \<Rightarrow> 's \<Rightarrow> ('e + 'r) \<times> 's" where
  "with_args args f db = (case args of Inl e \<Rightarrow> (Inl e, db) | Inr a \<Rightarrow> f a db)"

lemma with_args_Inr: "with_args args f db = (Inr r, db') \<Longrightarrow> \<exists>a. args = Inr a \<and> f a db = (Inr r, db')"
  by (cases args) (auto simp: with_args_def)

lemma with_args_relates:
  assumes "R db db" and "\<And>a. args = Inr a \<Longrightarrow> R db (snd (f a db))"
  shows "R db (snd (with_args args f db))"
  using assms by (cases args) (auto simp: with_args_def)

lemma with_args_error:
  assumes "with_args args f db = (Inl e, db')" and "\<And>a. f a db = (Inl e, db') \<Longrightarrow> db' = db"
  shows "db' = db"
  using assms by (cases args) (auto simp: with_args_def)

text \<open>The retries are bounded: the slept delays are a prefix of the schedule.\<close>

lemma write_loop_delays: "write_loop c env work n ds s = (r, s', sl) \<Longrightarrow> \<exists>rest. ds = sl @ rest"
proof (induction ds arbitrary: n sl)
  case Nil
  then show ?case by (subst (asm) write_loop.simps) (auto split: try_result.splits)
next
  case (Cons d ds)
  then show ?case
    by (subst (asm) write_loop.simps) (auto split: try_result.splits prod.splits)
qed

section \<open>Tables\<close>

text \<open>A counter table with unique keys: read a counter, or add one to it.\<close>

definition tbl_get :: "'k \<Rightarrow> ('k \<times> int) list \<Rightarrow> int" where
  "tbl_get k t = (case map_of t k of None \<Rightarrow> 0 | Some n \<Rightarrow> n)"

definition tbl_incr :: "'k \<Rightarrow> ('k \<times> int) list \<Rightarrow> ('k \<times> int) list" where
  "tbl_incr k t =
     (if k \<in> fst ` set t then map (\<lambda>(k', n). if k' = k then (k', n + 1) else (k', n)) t else t @ [(k, 1)])"

lemma tbl_get_incr: "tbl_get k (tbl_incr k' t) = tbl_get k t + (if k = k' then 1 else 0)"
proof (cases "k' \<in> fst ` set t")
  case True
  then have "tbl_incr k' t = map (\<lambda>(k'', n). if k'' = k' then (k'', n + 1) else (k'', n)) t" by (simp add: tbl_incr_def)
  moreover have "map_of (map (\<lambda>(k'', n). if k'' = k' then (k'', n + 1) else (k'', n)) t) k =
      map_option (\<lambda>n. if k = k' then n + 1 else n) (map_of t k)" by (induction t) auto
  moreover have "map_of t k' \<noteq> None" using True by (simp add: map_of_eq_None_iff)
  ultimately show ?thesis by (auto simp: tbl_get_def split: option.splits)
next
  case False
  then have "map_of t k' = None" by (simp add: map_of_eq_None_iff)
  then show ?thesis using False by (auto simp: tbl_get_def tbl_incr_def map_add_def split: option.splits)
qed

lemma tbl_bump_fst: "map fst (map (\<lambda>(k', n). if k' = k then (k', n + 1) else (k', n)) t) = map fst t"
  by (induction t) auto

lemma tbl_incr_fst: "map fst (tbl_incr k t) = (if k \<in> fst ` set t then map fst t else map fst t @ [k])"
  by (simp only: tbl_incr_def tbl_bump_fst split: if_split) simp

lemma tbl_incr_keys: "fst ` set (tbl_incr k t) = insert k (fst ` set t)"
proof -
  have "fst ` set (tbl_incr k t) = set (map fst (tbl_incr k t))" by simp
  then show ?thesis unfolding tbl_incr_fst by auto
qed

lemma tbl_incr_distinct: "distinct (map fst t) \<Longrightarrow> distinct (map fst (tbl_incr k t))"
  unfolding tbl_incr_fst by simp

text \<open>The total of the counters whose key satisfies a condition.\<close>

definition tbl_sum :: "('k \<Rightarrow> bool) \<Rightarrow> ('k \<times> int) list \<Rightarrow> int" where
  "tbl_sum P t = sum_list (map snd (filter (P \<circ> fst) t))"

lemma tbl_sum_incr: "distinct (map fst t) \<Longrightarrow> tbl_sum P (tbl_incr k t) = tbl_sum P t + (if P k then 1 else 0)"
proof (cases "k \<in> fst ` set t")
  case False
  then show ?thesis by (simp add: tbl_incr_def tbl_sum_def)
next
  case True
  assume "distinct (map fst t)"
  then have "sum_list (map snd (filter (P \<circ> fst) (map (\<lambda>(k', n). if k' = k then (k', n + 1) else (k', n)) t))) =
      sum_list (map snd (filter (P \<circ> fst) t)) + (if P k \<and> k \<in> fst ` set t then 1 else 0)"
  proof (induction t)
    case (Cons a t)
    have "map (\<lambda>(k', n). if k' = k then (k', n + 1) else (k', n)) t = t" if "k \<notin> fst ` set t"
      using that by (induction t) auto
    then show ?case using Cons by (cases a) auto
  qed simp
  then show ?thesis using True by (simp add: tbl_incr_def tbl_sum_def)
qed

section \<open>Properties of a write\<close>

text \<open>A database that stops being busy within the schedule lets the body decide.\<close>

definition body_result :: "('s \<Rightarrow> 'e + 'r \<times> 's) \<Rightarrow> 's \<Rightarrow> ('e + 'r) \<times> 's" where
  "body_result work s = (case work s of Inl e \<Rightarrow> (Inl e, s) | Inr (r, s') \<Rightarrow> (Inr r, s'))"

lemma write_loop_step:
  "migrated env \<Longrightarrow> faults env n = NoFault \<Longrightarrow> write_loop c env work n ds s = (fst (body_result work s), snd (body_result work s), [])"
  by (subst write_loop.simps) (auto simp: try_once_def body_result_def split: sum.splits)

lemma write_loop_runs:
  assumes "migrated env" and "n + length ds \<ge> k" "n \<le> k" and "faults env k = NoFault"
    and "\<And>j. n \<le> j \<Longrightarrow> j < k \<Longrightarrow> faults env j = BusyFault"
  shows "\<exists>sl. write_loop c env work n ds s = (fst (body_result work s), snd (body_result work s), sl)"
  using assms
proof (induction ds arbitrary: n)
  case Nil
  then show ?case using write_loop_step[of env n c work "[]" s] by simp
next
  case (Cons d ds)
  show ?case
  proof (cases "n = k")
    case True
    then show ?thesis using Cons.prems write_loop_step[of env n c work "d # ds" s] by simp
  next
    case False
    then have n: "n < k" "faults env n = BusyFault" using Cons.prems by auto
    have "\<exists>sl. write_loop c env work (Suc n) ds s = (fst (body_result work s), snd (body_result work s), sl)"
      using Cons.prems n by (intro Cons.IH) auto
    moreover have "try_once c env n work s = Retry" using n Cons.prems(1) by (simp add: try_once_def)
    ultimately show ?thesis by (subst write_loop.simps) auto
  qed
qed

lemma write_op_calm:
  assumes "\<not> in_transaction env" "migrated env" "faults env 0 = NoFault"
  shows "write_op c env work s = body_result work s"
  using assms by (simp add: write_op_def write_tx_def write_loop_step)

lemma delays_sum:
  assumes "BUSY_RETRY_DELAYS = sl @ rest"
  shows "sum_list sl \<le> 7 / 20"
proof -
  have "sum_list rest \<ge> 0"
  proof (rule sum_list_nonneg)
    fix x assume "x \<in> set rest"
    then have "x \<in> set BUSY_RETRY_DELAYS" unfolding assms by simp
    then show "0 \<le> x" by (auto simp: BUSY_RETRY_DELAYS_def)
  qed
  moreover have "sum_list sl + sum_list rest = sum_list BUSY_RETRY_DELAYS" unfolding assms by simp
  moreover have "sum_list BUSY_RETRY_DELAYS = 7 / 20" by (simp add: BUSY_RETRY_DELAYS_def)
  ultimately show ?thesis by linarith
qed

lemma write_tx_delays: "write_tx c env work s = (res, s', slept) \<Longrightarrow> \<exists>rest. BUSY_RETRY_DELAYS = slept @ rest"
  by (auto simp: write_tx_def split: if_splits dest: write_loop_delays)

text \<open>
  C36: A write sleeps a prefix of the schedule 50, 100, 200 ms, so at most three times and 350 ms, and it is
  atomic: an error leaves the database as it was, and a success is exactly one commit of the body.
\<close>

theorem write_atomic_and_bounded:
  assumes "write_tx c env work s = (res, s', slept)"
  shows "(\<exists>rest. BUSY_RETRY_DELAYS = slept @ rest) \<and> length slept \<le> 3 \<and> sum_list slept \<le> 7 / 20
    \<and> (case res of Inl e \<Rightarrow> s' = s | Inr r \<Rightarrow> work s = Inr (r, s'))"
proof -
  obtain rest where rest: "BUSY_RETRY_DELAYS = slept @ rest" using write_tx_delays[OF assms] by blast
  have w: "write_op c env work s = (res, s')" using assms by (simp add: write_op_def)
  have "case res of Inl e \<Rightarrow> s' = s | Inr r \<Rightarrow> work s = Inr (r, s')"
    using w tx.write_error[of c env work s _ s'] tx.write_commit[of c env work s _ s'] by (cases res) simp_all
  moreover have "length slept \<le> 3" using arg_cong[OF rest, of length] by (simp add: BUSY_RETRY_DELAYS_def)
  ultimately show ?thesis using rest delays_sum[OF rest] by blast
qed

definition sample_codes :: "nat tx_codes" where
  "sample_codes = \<lparr>open_code = 1, schema_code = 2, busy_code = 3, storage_code = 4\<rparr>"

definition busy_twice :: tx_env where
  "busy_twice = \<lparr>in_transaction = False, migrated = True, faults = (\<lambda>n. if n < 2 then BusyFault else NoFault)\<rparr>"

theorem write_atomic_and_bounded_witness:
  "write_tx sample_codes busy_twice (\<lambda>n. Inr (n, n + 1 :: nat)) 7 = (Inr 7, 8, [1 / 20, 1 / 10])
   \<and> sum_list [1 / 20, 1 / 10 :: rat] \<le> 7 / 20"
proof -
  have w: "write_tx sample_codes busy_twice (\<lambda>n. Inr (n, n + 1 :: nat)) 7 = (Inr 7, 8, [1 / 20, 1 / 10])"
    by code_simp
  show ?thesis using w write_atomic_and_bounded[OF w] by blast
qed

text \<open>
  C37: A busy database only delays a write: when the database answers busy at up to three tries and then is
  free, the write returns and commits exactly what its body computes on the state.
\<close>

theorem write_waits_out_busy:
  assumes "\<not> in_transaction env" "migrated env" and "k \<le> 3" and "faults env k = NoFault"
    and "\<And>j. j < k \<Longrightarrow> faults env j = BusyFault"
  shows "write_op c env work s = (case work s of Inl e \<Rightarrow> (Inl e, s) | Inr (r, s') \<Rightarrow> (Inr r, s'))"
proof -
  have "\<exists>sl. write_loop c env work 0 BUSY_RETRY_DELAYS s = (fst (body_result work s), snd (body_result work s), sl)"
    using assms by (intro write_loop_runs[of env k]) (simp_all add: BUSY_RETRY_DELAYS_def)
  then show ?thesis using assms(1) by (auto simp: write_op_def write_tx_def body_result_def split: sum.splits)
qed

theorem write_waits_out_busy_witness:
  "write_op sample_codes busy_twice (\<lambda>n. Inr (n, n + 1 :: nat)) 7 = (Inr 7, 8)"
  using write_waits_out_busy[of busy_twice 2 sample_codes "\<lambda>n. Inr (n, n + 1 :: nat)" 7] by (simp add: busy_twice_def)

end
