(* ===== verification/Invocation_Store.thy ===== *)
theory Invocation_Store
  imports Invocation Transactions "HOL-Library.Char_ord" "HOL-Library.List_Lexorder" "HOL-Library.Product_Lexorder"
begin

text \<open>
  The invocation store of \<^verbatim>\<open>radar_v08/adapters/invocation_store.py\<close>: claims with their budget
  reservations, lease fencing, and the recovery of expired leases, over the three tables of ledger
  migration 3 in \<^verbatim>\<open>radar_v08/adapters/evidence_store.py\<close>.

  The database is a record of tables. A table keeps its rows in insertion order, and the primary keys,
  the partial unique index, the \<^verbatim>\<open>CHECK\<close> constraints and the guard triggers of the migration are
  conditions of the insert and update statements: a violation is an SQLite error, which the write
  loop turns into \<open>STORAGE_ERROR\<close> with the transaction rolled back.
\<close>

section \<open>Tables\<close>

type_synonym window_key = "string \<times> window_kind \<times> int"

record inv_db =
  db_invocations :: "invocation_record list"
  db_budget :: "(window_key \<times> int) list"
  db_demand :: "(window_key \<times> (int \<times> int)) list"

definition empty_db :: inv_db where
  "empty_db = \<lparr>db_invocations = [], db_budget = [], db_demand = []\<rparr>"

definition storage_error :: invocation_exn where
  "storage_error = InvocationError STORAGE_ERROR"

definition inv_codes :: "invocation_exn tx_codes" where
  "inv_codes = \<lparr>open_code = InvocationError OPEN_TRANSACTION, schema_code = InvocationError SCHEMA_NOT_MIGRATED,
     busy_code = InvocationError BUSY, storage_code = InvocationError STORAGE_ERROR\<rparr>"

text \<open>The \<^verbatim>\<open>CHECK\<close> constraints of a row, and the guard triggers of an update from one row to another.\<close>

definition row_check :: "invocation_record \<Rightarrow> bool" where
  "row_check r \<longleftrightarrow> 1 \<le> iv_generation r \<and> 1 \<le> iv_demand_count r \<and> 0 \<le> iv_attempt_count r"

definition update_allowed :: "invocation_record \<Rightarrow> invocation_record \<Rightarrow> bool" where
  "update_allowed old new \<longleftrightarrow>
     iv_state old = CLAIMED
     \<and> iv_attempt_count old \<le> iv_attempt_count new \<and> iv_demand_count old \<le> iv_demand_count new
     \<and> iv_generation old \<le> iv_generation new \<and> row_check new"

definition same_active :: "invocation_identity \<Rightarrow> invocation_record \<Rightarrow> bool" where
  "same_active i r \<longleftrightarrow> iv_state r = CLAIMED \<and> columns (iv_identity r) = columns i"

definition sql_update ::
  "(invocation_record \<Rightarrow> bool) \<Rightarrow> (invocation_record \<Rightarrow> invocation_record) \<Rightarrow> invocation_record list
    \<Rightarrow> invocation_exn + invocation_record list \<times> nat" where
  "sql_update p f rows =
     (if list_all (\<lambda>r. p r \<longrightarrow> update_allowed r (f r)) rows
      then Inr (map (\<lambda>r. if p r then f r else r) rows, length (filter p rows))
      else Inl storage_error)"

definition sql_insert ::
  "invocation_record \<Rightarrow> invocation_record list \<Rightarrow> invocation_exn + invocation_record list" where
  "sql_insert r rows =
     (if list_ex (\<lambda>x. iv_invocation_id x = iv_invocation_id r) rows then Inl storage_error
      else if iv_state r = CLAIMED \<and> list_ex (same_active (iv_identity r)) rows then Inl storage_error
      else if \<not> row_check r then Inl storage_error
      else Inr (rows @ [r]))"

definition changed_one :: "nat \<Rightarrow> invocation_exn + unit" where
  "changed_one rowcount = guardE (rowcount = 1) storage_error"

section \<open>Counters\<close>

definition window_rows :: "budget_windows_t \<Rightarrow> (window_kind \<times> int) list" where
  "window_rows w = [(HOUR, hour_start w), (DAY, day_start w)]"

definition count_cell :: "window_key \<Rightarrow> (window_key \<times> int) list \<Rightarrow> invocation_exn + int" where
  "count_cell k t =
     (case map_of t k of
        None \<Rightarrow> Inr 0
      | Some v \<Rightarrow> if v < 0 then Inl (InvocationError CORRUPT_ROW) else Inr v)"

definition usage :: "inv_db \<Rightarrow> model_budget \<Rightarrow> budget_windows_t \<Rightarrow> invocation_exn + budget_usage_t" where
  "usage db b w =
     bindE (count_cell (mb_model b, HOUR, hour_start w) (db_budget db)) (\<lambda>h.
     bindE (count_cell (mb_model b, DAY, day_start w) (db_budget db)) (\<lambda>d.
     Inr \<lparr>us_model = mb_model b, us_windows = w, hourly_reserved = h, us_hourly_limit = hourly_limit b,
          daily_reserved = d, us_daily_limit = daily_limit b\<rparr>))"

definition reserve :: "string \<Rightarrow> budget_windows_t \<Rightarrow> inv_db \<Rightarrow> inv_db" where
  "reserve model w db =
     db\<lparr>db_budget := fold (\<lambda>(kind, start) t. tbl_incr (model, kind, start) t) (window_rows w) (db_budget db)\<rparr>"

definition observe_key :: "window_key \<Rightarrow> (window_key \<times> (int \<times> int)) list \<Rightarrow> (window_key \<times> (int \<times> int)) list" where
  "observe_key k t =
     (if k \<in> fst ` set t then map (\<lambda>(k', o', r). if k' = k then (k', o' + 1, r) else (k', o', r)) t
      else t @ [(k, 1, 0)])"

definition refuse_key ::
  "window_key \<Rightarrow> (window_key \<times> (int \<times> int)) list \<Rightarrow> invocation_exn + (window_key \<times> (int \<times> int)) list" where
  "refuse_key k t =
     bindE (changed_one (length (filter (\<lambda>x. fst x = k) t))) (\<lambda>_.
     Inr (map (\<lambda>(k', o', r). if k' = k then (k', o', r + 1) else (k', o', r)) t))"

definition observe_demand :: "string \<Rightarrow> budget_windows_t \<Rightarrow> bool \<Rightarrow> inv_db \<Rightarrow> invocation_exn + inv_db" where
  "observe_demand model w refused db =
     bindE (foldE (\<lambda>(kind, start) t.
         if refused then refuse_key (model, kind, start) t else Inr (observe_key (model, kind, start) t))
       (window_rows w) (db_demand db)) (\<lambda>t.
     Inr (db\<lparr>db_demand := t\<rparr>))"

section \<open>Rows\<close>

text \<open>A stored row is validated again when it is loaded.\<close>

definition record_of_row :: "invocation_record \<Rightarrow> invocation_exn + invocation_record" where
  "record_of_row r =
     (let i = iv_identity r in
      case make_identity (PStr (venue i))
          (PEnum ''InstrumentKind'' (case market_kind i of SPOT \<Rightarrow> ''SPOT'' | FUTURES \<Rightarrow> ''FUTURES''))
          (PStr (native_instrument i)) (PStr (id_setup i))
          (PEnum ''Direction'' (inv_direction_value (id_direction i)))
          (PStr (evidence_hash i)) (PStr (policy_version i)) of
        Inl _ \<Rightarrow> Inl (InvocationError CORRUPT_ROW)
      | Inr i' \<Rightarrow> Inr (r\<lparr>iv_identity := i'\<rparr>))"

definition load_record :: "inv_db \<Rightarrow> string \<Rightarrow> invocation_exn + invocation_record option" where
  "load_record db invocation_id =
     (case find (\<lambda>r. iv_invocation_id r = invocation_id) (db_invocations db) of
        None \<Rightarrow> Inr None
      | Some r \<Rightarrow> bindE (record_of_row r) (\<lambda>x. Inr (Some x)))"

section \<open>Claim\<close>

definition claim_work ::
  "invocation_request \<Rightarrow> model_budget \<Rightarrow> string \<Rightarrow> int \<Rightarrow> int \<Rightarrow> budget_windows_t \<Rightarrow> string
    \<Rightarrow> inv_db \<Rightarrow> invocation_exn + claim_result \<times> inv_db" where
  "claim_work rq b owner t expires w new_id db =
     bindE (observe_demand (rq_model rq) w False db) (\<lambda>db1.
     case find (same_active (rq_identity rq)) (db_invocations db1) of
       Some r \<Rightarrow>
         let demand = iv_demand_count r + 1 in
         bindE (sql_update (\<lambda>x. iv_invocation_id x = iv_invocation_id r)
             (\<lambda>x. x\<lparr>iv_demand_count := demand, iv_updated_at := t\<rparr>) (db_invocations db1)) (\<lambda>(rows, n).
         bindE (changed_one n) (\<lambda>_.
         Inr (Duplicate (iv_invocation_id r) demand, db1\<lparr>db_invocations := rows\<rparr>)))
     | None \<Rightarrow>
         bindE (usage db1 b w) (\<lambda>u.
         case refusal_reason u of
           Some reason \<Rightarrow>
             bindE (observe_demand (rq_model rq) w True db1) (\<lambda>db2. Inr (Refused reason u, db2))
         | None \<Rightarrow>
             bindE (make_lease new_id 1 owner expires) (\<lambda>l.
             let db2 = reserve (rq_model rq) w db1 in
             bindE (sql_insert
                 \<lparr>iv_invocation_id = new_id, iv_identity = rq_identity rq, iv_model = rq_model rq,
                  iv_state = CLAIMED, iv_generation = 1, iv_lease_owner = owner, iv_lease_expires_at = expires,
                  iv_demand_count = 1, iv_attempt_count = 0, iv_windows = w, iv_claimed_at = t,
                  iv_updated_at = t, iv_ended_at = None, iv_end_reason = None\<rparr> (db_invocations db2)) (\<lambda>rows.
             let db3 = db2\<lparr>db_invocations := rows\<rparr> in
             bindE (usage db3 b w) (\<lambda>u'. Inr (Claimed l u', db3))))))"

definition claim_args ::
  "invocation_request \<Rightarrow> model_budget \<Rightarrow> pyval \<Rightarrow> moment \<Rightarrow> pyval
    \<Rightarrow> invocation_exn + int \<times> int \<times> string \<times> budget_windows_t" where
  "claim_args rq b owner now lease_seconds =
     bindE (guardE (mb_model b = rq_model rq) (InvocationError INVALID_FIELD)) (\<lambda>_.
     bindE (require_aware now) (\<lambda>t.
     bindE (lease_expiry now lease_seconds) (\<lambda>expires.
     bindE (require_owner owner) (\<lambda>o'.
     bindE (budget_windows now) (\<lambda>w. Inr (t, expires, o', w))))))"

definition claim_invocation ::
  "tx_env \<Rightarrow> invocation_request \<Rightarrow> model_budget \<Rightarrow> pyval \<Rightarrow> moment \<Rightarrow> pyval \<Rightarrow> string
    \<Rightarrow> inv_db \<Rightarrow> (invocation_exn + claim_result) \<times> inv_db" where
  "claim_invocation env rq b owner now lease_seconds new_id db =
     (case claim_args rq b owner now lease_seconds of
        Inl e \<Rightarrow> (Inl e, db)
      | Inr (t, expires, o', w) \<Rightarrow> write_op inv_codes env (claim_work rq b o' t expires w new_id) db)"

section \<open>Holder actions\<close>

definition holder_work ::
  "lease \<Rightarrow> moment \<Rightarrow> (invocation_record \<Rightarrow> inv_db \<Rightarrow> invocation_exn + transition \<times> inv_db)
    \<Rightarrow> inv_db \<Rightarrow> invocation_exn + transition \<times> inv_db" where
  "holder_work l now act db =
     bindE (load_record db (ls_invocation_id l)) (\<lambda>rec.
     bindE (fence_status rec l now) (\<lambda>status.
     case rec of
       None \<Rightarrow> Inr (\<lparr>tr_status = status, tr_invocation_id = ls_invocation_id l, tr_attempt_count = None\<rparr>, db)
     | Some r \<Rightarrow>
         if status \<noteq> APPLIED
         then Inr (\<lparr>tr_status = status, tr_invocation_id = ls_invocation_id l,
                    tr_attempt_count = Some (iv_attempt_count r)\<rparr>, db)
         else act r db))"

definition holder_action ::
  "tx_env \<Rightarrow> lease \<Rightarrow> moment \<Rightarrow> (int \<Rightarrow> invocation_record \<Rightarrow> inv_db \<Rightarrow> invocation_exn + transition \<times> inv_db)
    \<Rightarrow> inv_db \<Rightarrow> (invocation_exn + transition) \<times> inv_db" where
  "holder_action env l now act db =
     (case require_aware now of
        Inl e \<Rightarrow> (Inl e, db)
      | Inr t \<Rightarrow> write_op inv_codes env (holder_work l now (act t)) db)"

definition fenced_update ::
  "lease \<Rightarrow> (invocation_record \<Rightarrow> invocation_record) \<Rightarrow> inv_db \<Rightarrow> invocation_exn + inv_db" where
  "fenced_update l f db =
     bindE (sql_update
       (\<lambda>r. iv_invocation_id r = ls_invocation_id l \<and> iv_generation r = ls_generation l
          \<and> iv_lease_owner r = ls_owner l \<and> iv_state r = CLAIMED) f (db_invocations db)) (\<lambda>(rows, n).
     bindE (changed_one n) (\<lambda>_. Inr (db\<lparr>db_invocations := rows\<rparr>)))"

definition attempt_act ::
  "lease \<Rightarrow> model_budget \<Rightarrow> moment \<Rightarrow> int \<Rightarrow> invocation_record \<Rightarrow> inv_db \<Rightarrow> invocation_exn + transition \<times> inv_db" where
  "attempt_act l b now t r db =
     (if iv_model r \<noteq> mb_model b then Inl (InvocationError INVALID_FIELD)
      else
        bindE (if 1 \<le> iv_attempt_count r
               then bindE (budget_windows now) (\<lambda>w.
                    bindE (usage db b w) (\<lambda>u.
                    Inr (case refusal_reason u of Some _ \<Rightarrow> None | None \<Rightarrow> Some (reserve (iv_model r) w db))))
               else Inr (Some db)) (\<lambda>reserved.
        case reserved of
          None \<Rightarrow> Inr (\<lparr>tr_status = BUDGET_EXHAUSTED, tr_invocation_id = iv_invocation_id r,
                        tr_attempt_count = Some (iv_attempt_count r)\<rparr>, db)
        | Some db1 \<Rightarrow>
            let attempts = iv_attempt_count r + 1 in
            bindE (fenced_update l (\<lambda>x. x\<lparr>iv_attempt_count := attempts, iv_updated_at := t\<rparr>) db1) (\<lambda>db2.
            Inr (\<lparr>tr_status = APPLIED, tr_invocation_id = iv_invocation_id r,
                  tr_attempt_count = Some attempts\<rparr>, db2))))"

definition record_attempt ::
  "tx_env \<Rightarrow> lease \<Rightarrow> model_budget \<Rightarrow> moment \<Rightarrow> inv_db \<Rightarrow> (invocation_exn + transition) \<times> inv_db" where
  "record_attempt env l b now db = holder_action env l now (attempt_act l b now) db"

definition end_act ::
  "lease \<Rightarrow> invocation_state \<Rightarrow> string option \<Rightarrow> int \<Rightarrow> invocation_record \<Rightarrow> inv_db
    \<Rightarrow> invocation_exn + transition \<times> inv_db" where
  "end_act l st reason t r db =
     bindE (fenced_update l
       (\<lambda>x. x\<lparr>iv_state := st, iv_updated_at := t, iv_ended_at := Some t, iv_end_reason := reason\<rparr>) db) (\<lambda>db1.
     Inr (\<lparr>tr_status = APPLIED, tr_invocation_id = iv_invocation_id r,
           tr_attempt_count = Some (iv_attempt_count r)\<rparr>, db1))"

definition complete_invocation ::
  "tx_env \<Rightarrow> lease \<Rightarrow> moment \<Rightarrow> inv_db \<Rightarrow> (invocation_exn + transition) \<times> inv_db" where
  "complete_invocation env l now db = holder_action env l now (end_act l COMPLETED None) db"

definition release_invocation ::
  "tx_env \<Rightarrow> lease \<Rightarrow> release_reason \<Rightarrow> moment \<Rightarrow> inv_db \<Rightarrow> (invocation_exn + transition) \<times> inv_db" where
  "release_invocation env l reason now db =
     holder_action env l now (end_act l RELEASED (Some (release_reason_value reason))) db"

section \<open>Recovery\<close>

definition expired_rows :: "int \<Rightarrow> nat \<Rightarrow> invocation_record list \<Rightarrow> invocation_record list" where
  "expired_rows t limit rows =
     take limit (sort_key (\<lambda>r. (iv_lease_expires_at r, iv_invocation_id r))
       (filter (\<lambda>r. iv_state r = CLAIMED \<and> iv_lease_expires_at r \<le> t) rows))"

definition recover_row ::
  "string \<Rightarrow> int \<Rightarrow> int \<Rightarrow> invocation_record \<Rightarrow> lease list \<times> inv_db \<Rightarrow> invocation_exn + lease list \<times> inv_db" where
  "recover_row owner expires t row acc =
     (case acc of (leases, db) \<Rightarrow>
       let generation = iv_generation row + 1 in
       bindE (sql_update
         (\<lambda>r. iv_invocation_id r = iv_invocation_id row \<and> iv_generation r = generation - 1 \<and> iv_state r = CLAIMED)
         (\<lambda>r. r\<lparr>iv_generation := generation, iv_lease_owner := owner, iv_lease_expires_at := expires,
               iv_updated_at := t\<rparr>) (db_invocations db)) (\<lambda>(rows, n).
       bindE (changed_one n) (\<lambda>_.
       bindE (make_lease (iv_invocation_id row) generation owner expires) (\<lambda>l.
       Inr (leases @ [l], db\<lparr>db_invocations := rows\<rparr>)))))"

definition recover_work :: "string \<Rightarrow> int \<Rightarrow> int \<Rightarrow> nat \<Rightarrow> inv_db \<Rightarrow> invocation_exn + lease list \<times> inv_db" where
  "recover_work owner expires t limit db =
     foldE (recover_row owner expires t) (expired_rows t limit (db_invocations db)) ([], db)"

fun require_limit :: "pyval \<Rightarrow> invocation_exn + nat" where
  "require_limit (PInt n) = (if 1 \<le> n \<and> n \<le> 1000 then Inr (nat n) else Inl (InvocationError INVALID_FIELD))"
| "require_limit _ = Inl (InvocationError INVALID_FIELD)"

definition recover_args ::
  "pyval \<Rightarrow> moment \<Rightarrow> pyval \<Rightarrow> pyval \<Rightarrow> invocation_exn + int \<times> int \<times> string \<times> nat" where
  "recover_args owner now lease_seconds limit =
     bindE (require_aware now) (\<lambda>t.
     bindE (lease_expiry now lease_seconds) (\<lambda>expires.
     bindE (require_owner owner) (\<lambda>o'.
     bindE (require_limit limit) (\<lambda>n. Inr (t, expires, o', n)))))"

definition recover_expired ::
  "tx_env \<Rightarrow> pyval \<Rightarrow> moment \<Rightarrow> pyval \<Rightarrow> pyval \<Rightarrow> inv_db \<Rightarrow> (invocation_exn + lease list) \<times> inv_db" where
  "recover_expired env owner now lease_seconds limit db =
     (case recover_args owner now lease_seconds limit of
        Inl e \<Rightarrow> (Inl e, db)
      | Inr (t, expires, o', n) \<Rightarrow> write_op inv_codes env (recover_work o' expires t n) db)"

section \<open>Reads\<close>

definition load_invocation :: "tx_env \<Rightarrow> string \<Rightarrow> inv_db \<Rightarrow> invocation_exn + invocation_record option" where
  "load_invocation env invocation_id db = read_tx inv_codes env (\<lambda>s. load_record s invocation_id) db"

definition budget_usage :: "tx_env \<Rightarrow> model_budget \<Rightarrow> moment \<Rightarrow> inv_db \<Rightarrow> invocation_exn + budget_usage_t" where
  "budget_usage env b now db =
     bindE (budget_windows now) (\<lambda>w. read_tx inv_codes env (\<lambda>s. usage s b w) db)"

definition demand_cell :: "window_key \<Rightarrow> inv_db \<Rightarrow> int \<times> int" where
  "demand_cell k db = (case map_of (db_demand db) k of None \<Rightarrow> (0, 0) | Some v \<Rightarrow> v)"

definition demand_counts :: "tx_env \<Rightarrow> string \<Rightarrow> moment \<Rightarrow> inv_db \<Rightarrow> invocation_exn + demand_counts_t" where
  "demand_counts env model now db =
     bindE (budget_windows now) (\<lambda>w. read_tx inv_codes env (\<lambda>s.
       let h = demand_cell (model, HOUR, hour_start w) s; d = demand_cell (model, DAY, day_start w) s
       in Inr \<lparr>dc_model = model, dc_windows = w, hourly_observed = fst h, hourly_refused = snd h,
               daily_observed = fst d, daily_refused = snd d\<rparr>) db)"

section \<open>The store as a machine\<close>

datatype inv_op =
    ClaimOp tx_env invocation_request model_budget pyval moment pyval string
  | AttemptOp tx_env lease model_budget moment
  | CompleteOp tx_env lease moment
  | ReleaseOp tx_env lease release_reason moment
  | RecoverOp tx_env pyval moment pyval pyval

fun inv_step :: "inv_op \<Rightarrow> inv_db \<Rightarrow> inv_db" where
  "inv_step (ClaimOp env rq b owner now secs new_id) db = snd (claim_invocation env rq b owner now secs new_id db)"
| "inv_step (AttemptOp env l b now) db = snd (record_attempt env l b now db)"
| "inv_step (CompleteOp env l now) db = snd (complete_invocation env l now db)"
| "inv_step (ReleaseOp env l reason now) db = snd (release_invocation env l reason now db)"
| "inv_step (RecoverOp env owner now secs limit) db = snd (recover_expired env owner now secs limit db)"

end
