(* ===== verification/Invocation_Safety.thy ===== *)
theory Invocation_Safety
  imports Invocation_Store
begin

text \<open>
  The safety of the invocation store. The four kinds of change of \<open>inv_change\<close> are an abstract account of
  what a committed transaction can do; every operation is shown to be a sequence of them, and the
  invariants (unique ids, one active row per identity, reservations that equal the rows' units, limits,
  a history that only grows) are proved by rule induction over them and lifted to runs through the
  contract of a monotone machine. Recovery is computed exactly.
\<close>

section \<open>Statements\<close>

lemma record_of_row_same: "record_of_row r = Inr x \<Longrightarrow> x = r"
proof -
  assume a: "record_of_row r = Inr x"
  define i where "i = iv_identity r"
  obtain i' where m: "make_identity (PStr (venue i))
          (PEnum ''InstrumentKind'' (case market_kind i of SPOT \<Rightarrow> ''SPOT'' | FUTURES \<Rightarrow> ''FUTURES''))
          (PStr (native_instrument i)) (PStr (id_setup i))
          (PEnum ''Direction'' (inv_direction_value (id_direction i)))
          (PStr (evidence_hash i)) (PStr (policy_version i)) = Inr i'" and x: "x = r\<lparr>iv_identity := i'\<rparr>"
    using a by (auto simp: record_of_row_def Let_def i_def split: sum.splits)
  have "i' = i" using m
    by (cases "market_kind i"; cases "id_direction i")
      (auto simp: make_identity_def bindE_eq_Inr inv_require_text_Inr instrument_kinds_def inv_directions_def split: if_splits)
  then show ?thesis using x by (simp add: i_def)
qed

lemma load_record_Inr:
  "load_record db i = Inr rec \<Longrightarrow> rec = find (\<lambda>r. iv_invocation_id r = i) (db_invocations db)"
  by (auto simp: load_record_def bindE_eq_Inr split: option.splits dest: record_of_row_same)

lemma filter_singleE:
  assumes "length (filter p rows) = 1"
  obtains xs r ys where "rows = xs @ r # ys" "p r" "\<forall>x \<in> set xs. \<not> p x" "\<forall>x \<in> set ys. \<not> p x"
proof -
  obtain r where "filter p rows = [r]" using assms by (cases "filter p rows") auto
  then obtain xs ys where "rows = xs @ r # ys" "\<forall>x \<in> set xs. \<not> p x" "p r" "filter p ys = []"
    by (auto simp: filter_eq_Cons_iff)
  then show ?thesis using that by (auto simp: filter_empty_conv)
qed

lemma sql_update_oneE:
  assumes "sql_update p f rows = Inr (rows', n)" and "changed_one n = Inr u"
  obtains xs r ys where "rows = xs @ r # ys" "rows' = xs @ f r # ys" "p r" "update_allowed r (f r)"
    "\<forall>x \<in> set xs \<union> set ys. \<not> p x"
proof -
  have n: "length (filter p rows) = 1" and rows': "rows' = map (\<lambda>r. if p r then f r else r) rows"
    and ok: "list_all (\<lambda>r. p r \<longrightarrow> update_allowed r (f r)) rows"
    using assms by (auto simp: sql_update_def changed_one_def split: if_splits)
  obtain xs r ys where s: "rows = xs @ r # ys" "p r" "\<forall>x \<in> set xs. \<not> p x" "\<forall>x \<in> set ys. \<not> p x"
    using n by (rule filter_singleE)
  moreover have "rows' = xs @ f r # ys" using s rows' by (simp add: map_idI)
  ultimately show ?thesis using that[of xs r ys] ok by simp blast
qed

lemma sql_insert_Inr:
  "sql_insert r rows = Inr rows' \<longleftrightarrow>
     rows' = rows @ [r] \<and> (\<forall>x \<in> set rows. iv_invocation_id x \<noteq> iv_invocation_id r)
     \<and> (iv_state r = CLAIMED \<longrightarrow> (\<forall>x \<in> set rows. \<not> same_active (iv_identity r) x)) \<and> row_check r"
  by (auto simp: sql_insert_def list_ex_iff)

lemma count_cell_Inr: "count_cell k t = Inr v \<longleftrightarrow> v = tbl_get k t \<and> 0 \<le> v"
  by (auto simp: count_cell_def tbl_get_def split: option.splits if_splits)

lemma usage_Inr:
  "usage db b w = Inr u \<Longrightarrow>
     hourly_reserved u = tbl_get (mb_model b, HOUR, hour_start w) (db_budget db)
     \<and> daily_reserved u = tbl_get (mb_model b, DAY, day_start w) (db_budget db)
     \<and> us_hourly_limit u = hourly_limit b \<and> us_daily_limit u = daily_limit b
     \<and> us_model u = mb_model b \<and> us_windows u = w"
  by (auto simp: usage_def bindE_eq_Inr count_cell_Inr)

lemma observe_demand_keeps:
  "observe_demand m w refused db = Inr db' \<Longrightarrow>
     db_invocations db' = db_invocations db \<and> db_budget db' = db_budget db"
  by (auto simp: observe_demand_def bindE_eq_Inr)

lemma reserve_keeps [simp]:
  "db_invocations (reserve m w db) = db_invocations db" "db_demand (reserve m w db) = db_demand db"
  by (simp_all add: reserve_def)

lemma reserve_budget:
  "db_budget (reserve m w db) = tbl_incr (m, DAY, day_start w) (tbl_incr (m, HOUR, hour_start w) (db_budget db))"
  by (simp add: reserve_def window_rows_def)

section \<open>The changes a store operation can make\<close>

text \<open>
  An abstract account of the store: four kinds of change. Every committed transaction is a sequence
  of them, and the invariants are proved by rule induction over them. \<open>B\<close> is the set of budgets
  that the callers pass.
\<close>

definition has_room :: "model_budget \<Rightarrow> budget_windows_t \<Rightarrow> inv_db \<Rightarrow> bool" where
  "has_room b w db \<longleftrightarrow>
     tbl_get (mb_model b, HOUR, hour_start w) (db_budget db) < hourly_limit b
     \<and> tbl_get (mb_model b, DAY, day_start w) (db_budget db) < daily_limit b"

definition fresh_row :: "invocation_record \<Rightarrow> bool" where
  "fresh_row r \<longleftrightarrow> iv_state r = CLAIMED \<and> iv_generation r = 1 \<and> iv_demand_count r = 1 \<and> iv_attempt_count r = 0
     \<and> iv_ended_at r = None \<and> plain_text 200 (iv_invocation_id r)"

definition row_evolves :: "invocation_record \<Rightarrow> invocation_record \<Rightarrow> bool" where
  "row_evolves r r' \<longleftrightarrow> update_allowed r r'
     \<and> iv_invocation_id r' = iv_invocation_id r \<and> iv_identity r' = iv_identity r \<and> iv_model r' = iv_model r
     \<and> iv_windows r' = iv_windows r \<and> iv_claimed_at r' = iv_claimed_at r
     \<and> (if iv_state r' = CLAIMED then iv_ended_at r' = iv_ended_at r else iv_ended_at r' \<noteq> None)"

inductive inv_change :: "model_budget set \<Rightarrow> inv_db \<Rightarrow> inv_db \<Rightarrow> bool" for B where
  Demand: "db_invocations db' = db_invocations db \<Longrightarrow> db_budget db' = db_budget db \<Longrightarrow> inv_change B db db'"
| Insert: "\<lbrakk>db_invocations db' = db_invocations db @ [r];
     \<forall>x \<in> set (db_invocations db). iv_invocation_id x \<noteq> iv_invocation_id r \<and> \<not> same_active (iv_identity r) x;
     fresh_row r; b \<in> B; mb_model b = iv_model r; has_room b (iv_windows r) db;
     db_budget db' = db_budget (reserve (iv_model r) (iv_windows r) db)\<rbrakk> \<Longrightarrow> inv_change B db db'"
| Update: "\<lbrakk>db_invocations db = xs @ r # ys; db_invocations db' = xs @ r' # ys; row_evolves r r';
     iv_attempt_count r' = iv_attempt_count r; db_budget db' = db_budget db\<rbrakk> \<Longrightarrow> inv_change B db db'"
| Attempt: "\<lbrakk>db_invocations db = xs @ r # ys; db_invocations db' = xs @ r' # ys; row_evolves r r';
     iv_attempt_count r' = iv_attempt_count r + 1;
     if 1 \<le> iv_attempt_count r
     then b \<in> B \<and> mb_model b = iv_model r \<and> has_room b w db \<and> db_budget db' = db_budget (reserve (iv_model r) w db)
     else db_budget db' = db_budget db\<rbrakk> \<Longrightarrow> inv_change B db db'"

lemma has_roomI:
  "usage db b w = Inr u \<Longrightarrow> refusal_reason u = None \<Longrightarrow> has_room b w db"
  by (auto simp: has_room_def refusal_reason_None dest: usage_Inr)

lemma make_lease_Inr:
  "make_lease i g o' e = Inr l \<longleftrightarrow> plain_text 200 i \<and> 1 \<le> g \<and> plain_text 200 o'
     \<and> l = \<lparr>ls_invocation_id = i, ls_generation = g, ls_owner = o', ls_expires_at = e\<rparr>"
  by (auto simp: make_lease_def bindE_eq_Inr plain_text_def MAX_TEXT_LENGTH_def split: if_splits)

lemmas make_lease_plain = make_lease_Inr[THEN iffD1, THEN conjunct1]

section \<open>Every transaction is a sequence of changes\<close>

lemma claim_work_cases [consumes 1, case_names duplicate refused claimed]:
  assumes "claim_work rq b owner t expires w new_id db = Inr (res, db')"
  obtains
    xs r ys r' where "res = Duplicate (iv_invocation_id r) (iv_demand_count r')"
      "db_invocations db = xs @ r # ys" "db_invocations db' = xs @ r' # ys"
      "same_active (rq_identity rq) r" "update_allowed r r'"
      "r' = r\<lparr>iv_demand_count := iv_demand_count r + 1, iv_updated_at := t\<rparr>" "db_budget db' = db_budget db"
  | reason u where "res = Refused reason u" "usage db b w = Inr u" "refusal_reason u = Some reason"
      "db_invocations db' = db_invocations db" "db_budget db' = db_budget db"
      "\<forall>x \<in> set (db_invocations db). \<not> same_active (rq_identity rq) x"
  | l u r where "res = Claimed l u" "make_lease new_id 1 owner expires = Inr l"
      "db_invocations db' = db_invocations db @ [r]" "fresh_row r" "row_check r"
      "iv_invocation_id r = new_id" "iv_identity r = rq_identity rq" "iv_model r = rq_model rq" "iv_windows r = w"
      "iv_lease_owner r = owner" "iv_lease_expires_at r = expires"
      "\<forall>x \<in> set (db_invocations db). iv_invocation_id x \<noteq> new_id \<and> \<not> same_active (rq_identity rq) x"
      "has_room b w db" "db_budget db' = db_budget (reserve (rq_model rq) w db)" "usage db' b w = Inr u"
proof -
  obtain db1 where d1: "observe_demand (rq_model rq) w False db = Inr db1"
    using assms unfolding claim_work_def bindE_eq_Inr by blast
  note k = observe_demand_keeps[OF d1]
  note rest = assms[unfolded claim_work_def d1 bindE_Inr]
  have ub: "usage db1 b w = usage db b w" by (simp add: usage_def k)
  show thesis
  proof (cases "find (same_active (rq_identity rq)) (db_invocations db1)")
    case (Some r)
    let ?f = "\<lambda>x. x\<lparr>iv_demand_count := iv_demand_count r + 1, iv_updated_at := t\<rparr>"
    obtain rows n where u: "sql_update (\<lambda>x. iv_invocation_id x = iv_invocation_id r) ?f (db_invocations db1) = Inr (rows, n)"
      "changed_one n = Inr ()" and res: "res = Duplicate (iv_invocation_id r) (iv_demand_count r + 1)"
      and db': "db' = db1\<lparr>db_invocations := rows\<rparr>"
      using rest Some by (auto simp: Let_def bindE_eq_Inr)
    obtain xs x ys where s: "db_invocations db1 = xs @ x # ys" "rows = xs @ ?f x # ys"
      "iv_invocation_id x = iv_invocation_id r" "update_allowed x (?f x)"
      "\<forall>y \<in> set xs \<union> set ys. iv_invocation_id y \<noteq> iv_invocation_id r"
      using u by (rule sql_update_oneE)
    have "r \<in> set (db_invocations db1)" and act: "same_active (rq_identity rq) r"
      using Some by (auto simp: find_Some_iff)
    then have [simp]: "x = r" using s by auto
    show ?thesis using that(1)[of r "?f r" xs ys] s res db' act k by simp
  next
    case None
    then have na: "\<forall>x \<in> set (db_invocations db). \<not> same_active (rq_identity rq) x"
      by (simp add: find_None_iff k)
    obtain u where u: "usage db b w = Inr u" using rest None ub by (auto simp: bindE_eq_Inr)
    show ?thesis
    proof (cases "refusal_reason u")
      case (Some reason)
      then show ?thesis using rest None ub u na k that(2)[of reason u]
        by (auto simp: bindE_eq_Inr dest: observe_demand_keeps)
    next
      case rn: None
      let ?r = "\<lparr>iv_invocation_id = new_id, iv_identity = rq_identity rq, iv_model = rq_model rq,
                  iv_state = CLAIMED, iv_generation = 1, iv_lease_owner = owner, iv_lease_expires_at = expires,
                  iv_demand_count = 1, iv_attempt_count = 0, iv_windows = w, iv_claimed_at = t,
                  iv_updated_at = t, iv_ended_at = None, iv_end_reason = None\<rparr>"
      let ?d2 = "reserve (rq_model rq) w db1"
      obtain l rows u' where l: "make_lease new_id 1 owner expires = Inr l"
        and i: "sql_insert ?r (db_invocations ?d2) = Inr rows"
        and u': "usage (?d2\<lparr>db_invocations := rows\<rparr>) b w = Inr u'"
        and e: "res = Claimed l u'" "db' = ?d2\<lparr>db_invocations := rows\<rparr>"
        using rest None ub u rn by (auto simp: Let_def bindE_eq_Inr)
      have i2: "rows = db_invocations db @ [?r]" "row_check ?r"
        "\<forall>x \<in> set (db_invocations db). iv_invocation_id x \<noteq> new_id"
        using i by (auto simp: sql_insert_Inr k)
      have bud: "db_budget db' = db_budget (reserve (rq_model rq) w db)" by (simp add: e reserve_def k)
      show ?thesis using that(3)[of l u' ?r] l i2 e u' na has_roomI[OF u rn] bud
        make_lease_plain[OF l] by (simp add: fresh_row_def)
    qed
  qed
qed

lemma claim_work_change:
  assumes "claim_work rq b owner t expires w new_id db = Inr (res, db')" and "b \<in> B" "mb_model b = rq_model rq"
  shows "inv_change B db db'"
  using assms(1)
proof (cases rule: claim_work_cases)
  case (duplicate xs r ys r')
  have "row_evolves r r'" using duplicate by (simp add: row_evolves_def same_active_def)
  then show ?thesis using duplicate by (intro inv_change.Update[of db xs r ys db' r']) simp_all
next
  case (refused reason u)
  then show ?thesis by (intro inv_change.Demand) simp_all
next
  case (claimed l u r)
  then show ?thesis using assms(2,3) by (intro inv_change.Insert[of db' db r b]) simp_all
qed

lemma fenced_updateE:
  assumes "fenced_update l f db = Inr db'"
  obtains xs r ys where "db_invocations db = xs @ r # ys" "db' = db\<lparr>db_invocations := xs @ f r # ys\<rparr>"
    "iv_invocation_id r = ls_invocation_id l" "iv_generation r = ls_generation l" "iv_lease_owner r = ls_owner l"
    "iv_state r = CLAIMED" "update_allowed r (f r)"
    "\<forall>x \<in> set xs \<union> set ys. \<not> (iv_invocation_id x = ls_invocation_id l \<and> iv_generation x = ls_generation l
       \<and> iv_lease_owner x = ls_owner l \<and> iv_state x = CLAIMED)"
proof -
  obtain rows n where u: "sql_update
       (\<lambda>r. iv_invocation_id r = ls_invocation_id l \<and> iv_generation r = ls_generation l
          \<and> iv_lease_owner r = ls_owner l \<and> iv_state r = CLAIMED) f (db_invocations db) = Inr (rows, n)"
    "changed_one n = Inr ()" and db': "db' = db\<lparr>db_invocations := rows\<rparr>"
    using assms by (auto simp: fenced_update_def bindE_eq_Inr)
  show thesis using u by (rule sql_update_oneE) (use that db' in blast)
qed

text \<open>A holder action either reports why the lease does not hold, or acts on the row of the lease.\<close>

lemma holder_work_cases [consumes 1, case_names refused acted]:
  assumes "holder_work l now act db = Inr (tr, db')"
  obtains "tr_status tr \<noteq> APPLIED" "db' = db"
  | r t where "now = Aware t" "r \<in> set (db_invocations db)" "iv_invocation_id r = ls_invocation_id l" "iv_state r = CLAIMED"
      "iv_generation r = ls_generation l" "iv_lease_owner r = ls_owner l" "t < iv_lease_expires_at r"
      "act r db = Inr (tr, db')"
proof -
  obtain rec status where ld: "load_record db (ls_invocation_id l) = Inr rec"
    and fs: "fence_status rec l now = Inr status"
    and rest: "(case rec of
       None \<Rightarrow> Inr (\<lparr>tr_status = status, tr_invocation_id = ls_invocation_id l, tr_attempt_count = None\<rparr>, db)
     | Some r \<Rightarrow>
         if status \<noteq> APPLIED
         then Inr (\<lparr>tr_status = status, tr_invocation_id = ls_invocation_id l,
                    tr_attempt_count = Some (iv_attempt_count r)\<rparr>, db)
         else act r db) = Inr (tr, db')"
    using assms unfolding holder_work_def bindE_eq_Inr by blast
  obtain t where t: "now = Aware t" using fs by (cases now) (auto simp: fence_status_def)
  show thesis
  proof (cases "status = APPLIED")
    case False
    then have "tr_status tr \<noteq> APPLIED \<and> db' = db" using rest by (cases rec) auto
    then show ?thesis using that(1) by blast
  next
    case True
    then obtain r where r: "rec = Some r" "iv_invocation_id r = ls_invocation_id l" "iv_state r = CLAIMED"
      "iv_generation r = ls_generation l" "iv_lease_owner r = ls_owner l" "t < iv_lease_expires_at r"
      using fs t by (auto simp: fence_status_APPLIED)
    moreover have "r \<in> set (db_invocations db)"
      using load_record_Inr[OF ld] r(1) by (auto simp: find_Some_iff dest!: sym[of "Some r"])
    ultimately show ?thesis using that(2)[of t r] rest True t by simp
  qed
qed

lemma end_act_change:
  assumes "end_act l st reason t r db = Inr (tr, db')" and "st \<noteq> CLAIMED"
  shows "inv_change B db db'"
proof -
  let ?f = "\<lambda>x. x\<lparr>iv_state := st, iv_updated_at := t, iv_ended_at := Some t, iv_end_reason := reason\<rparr>"
  obtain db1 where f: "fenced_update l ?f db = Inr db1" and [simp]: "db' = db1"
    using assms by (auto simp: end_act_def bindE_eq_Inr)
  from f show ?thesis
  proof (rule fenced_updateE)
    fix xs x ys
    assume a: "db_invocations db = xs @ x # ys" "db1 = db\<lparr>db_invocations := xs @ ?f x # ys\<rparr>" "update_allowed x (?f x)"
    have "row_evolves x (?f x)" using a(3) assms(2) by (simp add: row_evolves_def)
    with a show ?thesis by (intro inv_change.Update[of db xs x ys db' "?f x"]) simp_all
  qed
qed

lemma attempt_act_cases [consumes 1, case_names exhausted applied]:
  assumes "attempt_act l b now t r db = Inr (tr, db')"
  obtains "tr_status tr = BUDGET_EXHAUSTED" "db' = db" "1 \<le> iv_attempt_count r"
  | db1 where "tr_status tr = APPLIED" "iv_model r = mb_model b"
      "if 1 \<le> iv_attempt_count r
       then \<exists>w. budget_windows now = Inr w \<and> has_room b w db \<and> db1 = reserve (mb_model b) w db else db1 = db"
      "fenced_update l (\<lambda>x. x\<lparr>iv_attempt_count := iv_attempt_count r + 1, iv_updated_at := t\<rparr>) db1 = Inr db'"
proof (cases "1 \<le> iv_attempt_count r")
  case False
  then show thesis using assms that(2)[of db]
    by (auto simp: attempt_act_def bindE_eq_Inr Let_def split: if_splits)
next
  case True
  note rest = assms[unfolded attempt_act_def if_P[OF True]]
  have m: "iv_model r = mb_model b" using rest by (auto split: if_splits)
  obtain w where w: "budget_windows now = Inr w" using rest m by (auto simp: bindE_eq_Inr)
  obtain u where u: "usage db b w = Inr u" using rest m w by (auto simp: bindE_eq_Inr)
  show thesis
  proof (cases "refusal_reason u")
    case None
    then show ?thesis using rest m w u True that(2)[of "reserve (mb_model b) w db"] has_roomI[OF u None]
      by (auto simp: bindE_eq_Inr Let_def)
  next
    case (Some x)
    then show ?thesis using rest m w u True that(1) by (auto simp: bindE_eq_Inr)
  qed
qed

lemma attempt_act_change:
  assumes "attempt_act l b now t r db = Inr (tr, db')" and "b \<in> B"
    and "r \<in> set (db_invocations db)" "iv_invocation_id r = ls_invocation_id l" "iv_state r = CLAIMED"
      "iv_generation r = ls_generation l" "iv_lease_owner r = ls_owner l"
  shows "inv_change B db db'"
  using assms(1)
proof (cases rule: attempt_act_cases)
  case exhausted
  then show ?thesis by (intro inv_change.Demand) simp_all
next
  case (applied db1)
  let ?f = "\<lambda>x. x\<lparr>iv_attempt_count := iv_attempt_count r + 1, iv_updated_at := t\<rparr>"
  have rows: "db_invocations db1 = db_invocations db" using applied(3) by (auto split: if_splits)
  from applied(4) show ?thesis
  proof (rule fenced_updateE)
    fix xs x ys
    assume a: "db_invocations db1 = xs @ x # ys" "db' = db1\<lparr>db_invocations := xs @ ?f x # ys\<rparr>" "update_allowed x (?f x)"
      "\<forall>x \<in> set xs \<union> set ys. \<not> (iv_invocation_id x = ls_invocation_id l \<and> iv_generation x = ls_generation l
       \<and> iv_lease_owner x = ls_owner l \<and> iv_state x = CLAIMED)"
    have [simp]: "x = r" using a(1,4) rows assms(3-7) by auto
    have ev: "row_evolves r (?f r)" using a(3) assms(5) by (simp add: row_evolves_def)
    obtain w where w: "if 1 \<le> iv_attempt_count r
       then b \<in> B \<and> mb_model b = iv_model r \<and> has_room b w db \<and> db_budget db' = db_budget (reserve (iv_model r) w db)
       else db_budget db' = db_budget db"
      using applied(2,3) a(2) assms(2) by (cases "1 \<le> iv_attempt_count r") auto
    show ?thesis using a rows ev w by (intro inv_change.Attempt[of db xs r ys db' "?f r" b B w]) simp_all
  qed
qed

lemma recover_rowE:
  assumes "recover_row owner expires t row (ls, db) = Inr (ls', db')"
  obtains xs r ys r' l where "db_invocations db = xs @ r # ys" "db' = db\<lparr>db_invocations := xs @ r' # ys\<rparr>"
    "row_evolves r r'" "iv_invocation_id r = iv_invocation_id row" "iv_generation r = iv_generation row" "iv_state r = CLAIMED"
    "r' = r\<lparr>iv_generation := iv_generation row + 1, iv_lease_owner := owner, iv_lease_expires_at := expires, iv_updated_at := t\<rparr>"
    "ls' = ls @ [l]" "l = \<lparr>ls_invocation_id = iv_invocation_id row, ls_generation = iv_generation row + 1, ls_owner = owner, ls_expires_at = expires\<rparr>"
proof -
  let ?g = "iv_generation row + 1"
  let ?f = "\<lambda>r. r\<lparr>iv_generation := ?g, iv_lease_owner := owner, iv_lease_expires_at := expires, iv_updated_at := t\<rparr>"
  obtain rows n l where u: "sql_update
         (\<lambda>r. iv_invocation_id r = iv_invocation_id row \<and> iv_generation r = ?g - 1 \<and> iv_state r = CLAIMED)
         ?f (db_invocations db) = Inr (rows, n)" "changed_one n = Inr ()"
    and l: "make_lease (iv_invocation_id row) ?g owner expires = Inr l"
    and e: "ls' = ls @ [l]" "db' = db\<lparr>db_invocations := rows\<rparr>"
    using assms by (auto simp: recover_row_def Let_def bindE_eq_Inr)
  have l': "l = \<lparr>ls_invocation_id = iv_invocation_id row, ls_generation = ?g, ls_owner = owner, ls_expires_at = expires\<rparr>"
    using l by (simp add: make_lease_Inr)
  from u show thesis
  proof (rule sql_update_oneE)
    fix xs r ys
    assume a: "db_invocations db = xs @ r # ys" "rows = xs @ ?f r # ys" "update_allowed r (?f r)"
      "iv_invocation_id r = iv_invocation_id row \<and> iv_generation r = ?g - 1 \<and> iv_state r = CLAIMED"
    have "row_evolves r (?f r)" using a by (simp add: row_evolves_def)
    moreover have "iv_generation r = iv_generation row" using a(4) by simp
    ultimately show thesis using a(1,2,4) e l' by (intro that[of xs r ys "?f r" l]) blast+
  qed
qed

lemma recover_row_change:
  assumes "recover_row owner expires t row acc = Inr acc'"
  shows "inv_change B (snd acc) (snd acc')"
proof -
  obtain ls db ls' db' where [simp]: "acc = (ls, db)" "acc' = (ls', db')" by (cases acc; cases acc') auto
  from assms[simplified] show ?thesis
  proof (rule recover_rowE)
    fix xs r ys r' l
    assume "db_invocations db = xs @ r # ys" "db' = db\<lparr>db_invocations := xs @ r' # ys\<rparr>" "row_evolves r r'"
      "r' = r\<lparr>iv_generation := iv_generation row + 1, iv_lease_owner := owner, iv_lease_expires_at := expires, iv_updated_at := t\<rparr>"
    moreover from this have "iv_attempt_count r' = iv_attempt_count r" "db_budget db' = db_budget db" by simp_all
    ultimately show ?thesis by (intro inv_change.Update[of _ xs r ys _ r']) simp_all
  qed
qed

lemma recover_work_changes:
  assumes "recover_work owner expires t limit db = Inr (leases, db')"
  shows "(inv_change B)\<^sup>*\<^sup>* db db'"
proof -
  let ?P = "\<lambda>acc. (inv_change B)\<^sup>*\<^sup>* db (snd acc)"
  have "?P (leases, db')"
    using assms[unfolded recover_work_def]
  proof (rule foldE_invariant)
    show "?P ([], db)" by simp
    show "?P acc'" if "?P acc" "recover_row owner expires t x acc = Inr acc'" for x acc acc'
      using that recover_row_change by (meson rtranclp.rtrancl_into_rtrancl)
  qed
  then show ?thesis by simp
qed

fun op_budgets :: "inv_op \<Rightarrow> model_budget set" where
  "op_budgets (ClaimOp env rq b owner now secs new_id) = {b}"
| "op_budgets (AttemptOp env l b now) = {b}"
| "op_budgets _ = {}"

lemma holder_action_changes:
  assumes "\<And>t tr r db'. act t r db = Inr (tr, db') \<Longrightarrow> r \<in> set (db_invocations db) \<Longrightarrow>
      iv_invocation_id r = ls_invocation_id l \<Longrightarrow> iv_state r = CLAIMED \<Longrightarrow>
      iv_generation r = ls_generation l \<Longrightarrow> iv_lease_owner r = ls_owner l \<Longrightarrow> inv_change B db db'"
  shows "(inv_change B)\<^sup>*\<^sup>* db (snd (holder_action env l now act db))"
proof (cases "require_aware now")
  case (Inr t)
  have "(inv_change B)\<^sup>*\<^sup>* db (snd (write_op inv_codes env (holder_work l now (act t)) db))"
  proof (rule tx.write_relates[where R = "(inv_change B)\<^sup>*\<^sup>*"])
    show "(inv_change B)\<^sup>*\<^sup>* db db'" if "holder_work l now (act t) db = Inr (tr, db')" for tr db'
      using that by (cases rule: holder_work_cases) (use assms in auto)
  qed simp
  with Inr show ?thesis by (simp add: holder_action_def)
qed (simp add: holder_action_def)

lemma inv_step_changes:
  assumes "op_budgets op \<subseteq> B"
  shows "(inv_change B)\<^sup>*\<^sup>* db (inv_step op db)"
proof (cases op)
  case (ClaimOp env rq b owner now secs new_id)
  show ?thesis
  proof (cases "claim_args rq b owner now secs")
    case (Inr a)
    obtain t expires o' w where a: "a = (t, expires, o', w)" by (cases a) auto
    have "mb_model b = rq_model rq" using Inr by (auto simp: claim_args_def bindE_eq_Inr)
    then have "(inv_change B)\<^sup>*\<^sup>* db (snd (write_op inv_codes env (claim_work rq b o' t expires w new_id) db))"
      using assms ClaimOp by (intro tx.write_relates[where R = "(inv_change B)\<^sup>*\<^sup>*"]) (auto intro!: r_into_rtranclp claim_work_change)
    then show ?thesis using ClaimOp Inr a by (simp add: claim_invocation_def)
  qed (simp add: ClaimOp claim_invocation_def)
next
  case (AttemptOp env l b now)
  then show ?thesis using assms
    by (auto simp: record_attempt_def intro!: holder_action_changes attempt_act_change)
next
  case (CompleteOp env l now)
  then show ?thesis by (auto simp: complete_invocation_def intro!: holder_action_changes end_act_change)
next
  case (ReleaseOp env l reason now)
  then show ?thesis by (auto simp: release_invocation_def intro!: holder_action_changes end_act_change)
next
  case (RecoverOp env owner now secs limit)
  show ?thesis
  proof (cases "recover_args owner now secs limit")
    case (Inr a)
    obtain t expires o' n where a: "a = (t, expires, o', n)" by (cases a) auto
    have "(inv_change B)\<^sup>*\<^sup>* db (snd (write_op inv_codes env (recover_work o' expires t n) db))"
      by (intro tx.write_relates[where R = "(inv_change B)\<^sup>*\<^sup>*"]) (auto intro: recover_work_changes)
    then show ?thesis using RecoverOp Inr a by (simp add: recover_expired_def)
  qed (simp add: RecoverOp recover_expired_def)
qed

lemma run_changes:
  "\<Union> (op_budgets ` set ops) \<subseteq> B \<Longrightarrow> (inv_change B)\<^sup>*\<^sup>* db (fold inv_step ops db)"
proof (induction ops arbitrary: db)
  case (Cons op ops)
  then have "(inv_change B)\<^sup>*\<^sup>* db (inv_step op db)" by (intro inv_step_changes) auto
  moreover have "(inv_change B)\<^sup>*\<^sup>* (inv_step op db) (fold inv_step ops (inv_step op db))" using Cons by auto
  ultimately show ?case by simp
qed simp

section \<open>The invariant\<close>

definition row_wf :: "invocation_record \<Rightarrow> bool" where
  "row_wf r \<longleftrightarrow> row_check r \<and> plain_text 200 (iv_invocation_id r) \<and> (iv_ended_at r = None \<longleftrightarrow> iv_state r = CLAIMED)"

definition active_identities :: "invocation_record list \<Rightarrow> invocation_identity list" where
  "active_identities rows = map iv_identity (filter (\<lambda>r. iv_state r = CLAIMED) rows)"

text \<open>The units that the rows of a model account for: one for the claim, one per further attempt.\<close>

definition units :: "string \<Rightarrow> invocation_record list \<Rightarrow> int" where
  "units m rows = sum_list (map (\<lambda>r. max 1 (iv_attempt_count r)) (filter (\<lambda>r. iv_model r = m) rows))"

definition reserved :: "string \<Rightarrow> window_kind \<Rightarrow> inv_db \<Rightarrow> int" where
  "reserved m k db = tbl_sum (\<lambda>(m', k', s). m' = m \<and> k' = k) (db_budget db)"

definition inv_ok :: "inv_db \<Rightarrow> bool" where
  "inv_ok db \<longleftrightarrow>
     distinct (map iv_invocation_id (db_invocations db))
     \<and> distinct (active_identities (db_invocations db))
     \<and> list_all row_wf (db_invocations db)
     \<and> distinct (map fst (db_budget db))
     \<and> (\<forall>m k. reserved m k db = units m (db_invocations db))"

lemma reserve_distinct: "distinct (map fst (db_budget db)) \<Longrightarrow> distinct (map fst (db_budget (reserve m w db)))"
  by (simp add: reserve_budget tbl_incr_distinct)

lemma reserved_reserve:
  assumes "distinct (map fst (db_budget db))" and "db_budget db' = db_budget (reserve m w db)"
  shows "reserved m' k db' = reserved m' k db + (if m' = m then 1 else 0)"
  using assms by (cases k) (auto simp: reserved_def reserve_budget tbl_sum_incr tbl_incr_distinct)

lemma reserve_get:
  "tbl_get k (db_budget (reserve m w db)) = tbl_get k (db_budget db)
     + (if k = (m, HOUR, hour_start w) \<or> k = (m, DAY, day_start w) then 1 else 0)"
  by (auto simp: reserve_budget tbl_get_incr)

lemma units_simps [simp]:
  "units m [] = 0"
  "units m (xs @ ys) = units m xs + units m ys"
  "units m (r # rows) = (if iv_model r = m then max 1 (iv_attempt_count r) else 0) + units m rows"
  by (simp_all add: units_def)

lemma row_evolves_identities:
  assumes "row_evolves r r'" and "distinct (active_identities (xs @ r # ys))"
  shows "distinct (active_identities (xs @ r' # ys))"
  using assms by (auto simp: row_evolves_def update_allowed_def active_identities_def)

lemma row_evolves_wf: "row_evolves r r' \<Longrightarrow> row_wf r \<Longrightarrow> row_wf r'"
  by (auto simp: row_evolves_def update_allowed_def row_wf_def split: if_splits)

lemma inv_ok_rows:
  assumes "inv_ok db" and "db_invocations db = xs @ r # ys" and "db_invocations db' = xs @ r' # ys" and "row_evolves r r'"
    and "distinct (map fst (db_budget db'))" and "\<And>m k. reserved m k db' = units m (db_invocations db')"
  shows "inv_ok db'"
proof -
  have "iv_invocation_id r' = iv_invocation_id r" using assms(4) by (simp add: row_evolves_def)
  then show ?thesis
    using assms row_evolves_identities[OF assms(4)] row_evolves_wf[OF assms(4)] unfolding inv_ok_def by simp
qed

lemma inv_ok_change: "inv_change B db db' \<Longrightarrow> inv_ok db \<Longrightarrow> inv_ok db'"
proof (induction rule: inv_change.induct)
  case (Demand db' db)
  then show ?case by (simp add: inv_ok_def reserved_def)
next
  case (Insert db' db r b)
  have "row_wf r" using Insert by (simp add: fresh_row_def row_wf_def row_check_def)
  moreover have "iv_identity r \<notin> set (active_identities (db_invocations db))"
    using Insert by (auto simp: active_identities_def same_active_def)
  moreover have "distinct (map fst (db_budget db'))" using Insert by (simp add: inv_ok_def reserve_distinct)
  moreover have "reserved m k db' = units m (db_invocations db')" for m k
  proof -
    have "reserved m k db' = reserved m k db + (if m = iv_model r then 1 else 0)"
      using Insert.prems Insert.hyps by (intro reserved_reserve) (simp_all add: inv_ok_def)
    then show ?thesis using Insert by (simp add: inv_ok_def fresh_row_def)
  qed
  ultimately show ?case using Insert by (auto simp: inv_ok_def active_identities_def)
next
  case (Update db xs r ys db' r')
  have "reserved m k db' = units m (db_invocations db')" for m k
    using Update by (simp add: inv_ok_def reserved_def row_evolves_def)
  then show ?case using Update by (intro inv_ok_rows[of db xs r ys db' r']) (simp_all add: inv_ok_def)
next
  case (Attempt db xs r ys db' r' b w)
  have r: "iv_model r' = iv_model r" using Attempt by (simp add: row_evolves_def)
  have z: "0 \<le> iv_attempt_count r" using Attempt by (simp add: inv_ok_def row_wf_def row_check_def)
  have d: "distinct (map fst (db_budget db'))"
    using Attempt by (auto simp: inv_ok_def reserve_distinct split: if_splits)
  have "reserved m k db' = units m (db_invocations db')" for m k
  proof -
    have "reserved m k db' = reserved m k db + (if m = iv_model r \<and> 1 \<le> iv_attempt_count r then 1 else 0)"
    proof (cases "1 \<le> iv_attempt_count r")
      case True
      then show ?thesis using Attempt reserved_reserve[of db db' "iv_model r" w m k] by (simp add: inv_ok_def)
    next
      case False
      then show ?thesis using Attempt by (simp add: reserved_def)
    qed
    then show ?thesis using Attempt r z by (auto simp: inv_ok_def)
  qed
  then show ?case using Attempt d by (intro inv_ok_rows[of db xs r ys db' r']) simp_all
qed

section \<open>History\<close>

definition row_le :: "invocation_record \<Rightarrow> invocation_record \<Rightarrow> bool" where
  "row_le r r' \<longleftrightarrow> iv_invocation_id r' = iv_invocation_id r \<and> iv_identity r' = iv_identity r
     \<and> iv_model r' = iv_model r \<and> iv_windows r' = iv_windows r \<and> iv_claimed_at r' = iv_claimed_at r
     \<and> iv_generation r \<le> iv_generation r' \<and> iv_attempt_count r \<le> iv_attempt_count r'
     \<and> iv_demand_count r \<le> iv_demand_count r' \<and> (iv_state r \<noteq> CLAIMED \<longrightarrow> r' = r)"

definition db_le :: "inv_db \<Rightarrow> inv_db \<Rightarrow> bool" where
  "db_le db db' \<longleftrightarrow> list_all2 row_le (db_invocations db) (take (length (db_invocations db)) (db_invocations db'))
     \<and> (\<forall>k. tbl_get k (db_budget db) \<le> tbl_get k (db_budget db'))"

lemma row_le_refl [simp]: "row_le r r" by (simp add: row_le_def)

lemma row_le_trans: "row_le a b \<Longrightarrow> row_le b c \<Longrightarrow> row_le a c"
  by (auto simp: row_le_def)

lemma row_evolves_le: "row_evolves r r' \<Longrightarrow> row_le r r'"
  by (auto simp: row_evolves_def row_le_def update_allowed_def)

lemma rows_le_refl [simp]: "list_all2 row_le xs xs"
  by (simp add: list_all2_refl)

lemma db_le_refl: "db_le db db" by (simp add: db_le_def)

lemma db_le_trans: "db_le a b \<Longrightarrow> db_le b c \<Longrightarrow> db_le a c"
proof -
  assume ab: "db_le a b" and bc: "db_le b c"
  let ?n = "length (db_invocations a)"
  have "?n \<le> length (db_invocations b)"
    using ab by (auto simp: db_le_def dest: list_all2_lengthD)
  then have "list_all2 row_le (take ?n (db_invocations b)) (take ?n (db_invocations c))"
    using bc list_all2_takeI[of row_le _ _ ?n] by (fastforce simp: db_le_def min_def)
  then have "list_all2 row_le (db_invocations a) (take ?n (db_invocations c))"
    using ab list_all2_trans[of row_le row_le row_le, OF row_le_trans] by (auto simp: db_le_def)
  moreover have "tbl_get k (db_budget a) \<le> tbl_get k (db_budget c)" for k
    using ab bc unfolding db_le_def by (meson order_trans)
  ultimately show ?thesis by (simp add: db_le_def)
qed

lemma reserve_le: "tbl_get k (db_budget db) \<le> tbl_get k (db_budget (reserve m w db))"
  by (simp add: reserve_get)

lemma db_le_change: "inv_change B db db' \<Longrightarrow> db_le db db'"
proof (induction rule: inv_change.induct)
  case (Attempt db xs r ys db' r' b w)
  then have "row_le r r'" by (intro row_evolves_le)
  moreover have "tbl_get k (db_budget db) \<le> tbl_get k (db_budget db')" for k
    using Attempt(5) by (cases "1 \<le> iv_attempt_count r") (auto simp: reserve_le)
  ultimately show ?case using Attempt by (simp add: db_le_def list_all2_appendI)
next
  case (Update db xs r ys db' r')
  then have "row_le r r'" by (intro row_evolves_le)
  then show ?case using Update by (simp add: db_le_def list_all2_appendI)
qed (simp_all add: db_le_def reserve_le)

lemma changes_ok_le: "(inv_change B)\<^sup>*\<^sup>* db db' \<Longrightarrow> (inv_ok db \<longrightarrow> inv_ok db') \<and> db_le db db'"
  by (induction rule: rtranclp_induct) (auto simp: db_le_refl intro: inv_ok_change db_le_change db_le_trans)

interpretation invs: monotone_machine inv_step inv_ok db_le
proof
  fix op db assume "inv_ok db"
  then show "inv_ok (inv_step op db)" using changes_ok_le[OF inv_step_changes[OF order_refl]] by blast
next
  fix op db show "db_le db (inv_step op db)" using changes_ok_le[OF inv_step_changes[OF order_refl]] by blast
qed (rule db_le_refl, rule db_le_trans, blast+)

section \<open>Results of an operation\<close>

lemma inv_ok_empty [simp]: "inv_ok empty_db"
  by (simp add: inv_ok_def empty_db_def active_identities_def reserved_def tbl_sum_def)

lemma inv_ok_run: "inv_ok (fold inv_step ops empty_db)"
  by (rule invs.run_inv) simp

lemma same_id_same_row:
  "inv_ok db \<Longrightarrow> r \<in> set (db_invocations db) \<Longrightarrow> x \<in> set (db_invocations db) \<Longrightarrow>
     iv_invocation_id r = iv_invocation_id x \<Longrightarrow> r = x"
  by (auto simp: inv_ok_def distinct_map dest: inj_onD)

lemma db_le_row:
  assumes "db_le db db'" and "r \<in> set (db_invocations db)"
  obtains r' where "r' \<in> set (db_invocations db')" "row_le r r'"
proof -
  obtain i where i: "i < length (db_invocations db)" "r = db_invocations db ! i"
    using assms(2) by (auto simp: in_set_conv_nth)
  let ?t = "take (length (db_invocations db)) (db_invocations db')"
  have l: "list_all2 row_le (db_invocations db) ?t" using assms(1) by (simp add: db_le_def)
  then have "row_le r (?t ! i)" "i < length ?t" using i list_all2_nthD list_all2_lengthD by fastforce+
  then show thesis using that[of "?t ! i"] nth_mem[of i ?t] set_take_subset by (metis subsetD)
qed

text \<open>A lease whose generation the row has passed is refused and changes nothing.\<close>

lemma holder_action_stale:
  assumes "inv_ok db" and "r \<in> set (db_invocations db)" and "iv_invocation_id r = ls_invocation_id l"
    and "iv_generation r \<noteq> ls_generation l \<or> iv_lease_owner r \<noteq> ls_owner l \<or> iv_state r \<noteq> CLAIMED"
  shows "snd (holder_action env l now act db) = db
    \<and> (case fst (holder_action env l now act db) of Inr tr \<Rightarrow> \<not> applied tr | Inl e \<Rightarrow> True)"
proof (cases "require_aware now")
  case (Inr t)
  obtain res db' where w: "write_op inv_codes env (holder_work l now (act t)) db = (res, db')" by force
  have "db' = db \<and> (case res of Inr tr \<Rightarrow> \<not> applied tr | Inl e \<Rightarrow> True)"
  proof (cases res)
    case (Inl e)
    then show ?thesis using w tx.write_error by fastforce
  next
    case (Inr tr)
    then have "holder_work l now (act t) db = Inr (tr, db')" using w tx.write_commit by fastforce
    then show ?thesis
    proof (cases rule: holder_work_cases)
      case refused
      then show ?thesis using Inr by (simp add: applied_def)
    next
      case (acted x t')
      then have "r = x" using assms(1-3) by (intro same_id_same_row[of db]) simp_all
      with acted assms(4) show ?thesis by blast
    qed
  qed
  then show ?thesis using Inr w by (simp add: holder_action_def)
qed (simp add: holder_action_def)

section \<open>Recovery\<close>

definition takeover :: "string \<Rightarrow> int \<Rightarrow> int \<Rightarrow> invocation_record \<Rightarrow> invocation_record" where
  "takeover owner expires t r =
     r\<lparr>iv_generation := iv_generation r + 1, iv_lease_owner := owner, iv_lease_expires_at := expires, iv_updated_at := t\<rparr>"

definition lease_of :: "invocation_record \<Rightarrow> lease" where
  "lease_of r = \<lparr>ls_invocation_id = iv_invocation_id r, ls_generation = iv_generation r, ls_owner = iv_lease_owner r,
     ls_expires_at = iv_lease_expires_at r\<rparr>"

lemma takeover_simps [simp]:
  "iv_invocation_id (takeover o' e t r) = iv_invocation_id r" "iv_state (takeover o' e t r) = iv_state r"
  "iv_lease_expires_at (takeover o' e t r) = e" "iv_generation (takeover o' e t r) = iv_generation r + 1"
  by (simp_all add: takeover_def)

lemma sql_update_one:
  assumes "p r" and "update_allowed r (f r)" and no: "\<And>x. x \<in> set xs \<union> set ys \<Longrightarrow> \<not> p x"
  shows "sql_update p f (xs @ r # ys) = Inr (xs @ f r # ys, 1)"
proof -
  have "map (\<lambda>r. if p r then f r else r) xs = xs" "map (\<lambda>r. if p r then f r else r) ys = ys"
    using no by (auto intro!: map_idI)
  moreover have "filter p xs = []" "filter p ys = []" using no by (auto simp: filter_empty_conv)
  ultimately show ?thesis using assms by (auto simp: sql_update_def list_all_iff)
qed

lemma recover_row_ok:
  assumes "db_invocations db = xs @ r # ys" and "\<forall>x \<in> set (xs @ ys). iv_invocation_id x \<noteq> iv_invocation_id r"
    and "iv_state r = CLAIMED" "row_wf r" "plain_text 200 owner"
  shows "recover_row owner expires t r (ls, db) =
    Inr (ls @ [lease_of (takeover owner expires t r)], db\<lparr>db_invocations := xs @ takeover owner expires t r # ys\<rparr>)"
proof -
  let ?p = "\<lambda>x. iv_invocation_id x = iv_invocation_id r \<and> iv_generation x = iv_generation r + 1 - 1 \<and> iv_state x = CLAIMED"
  let ?f = "\<lambda>x. x\<lparr>iv_generation := iv_generation r + 1, iv_lease_owner := owner, iv_lease_expires_at := expires, iv_updated_at := t\<rparr>"
  have no: "x \<in> set xs \<union> set ys \<Longrightarrow> \<not> ?p x" for x using assms(2) by auto
  have "update_allowed r (?f r)" using assms(3,4) by (auto simp: update_allowed_def row_wf_def row_check_def)
  then have "sql_update ?p ?f (db_invocations db) = Inr (xs @ ?f r # ys, 1)"
    unfolding assms(1) using no assms(3) by (intro sql_update_one) simp_all
  moreover have "make_lease (iv_invocation_id r) (iv_generation r + 1) owner expires = Inr (lease_of (takeover owner expires t r))"
    using assms(4,5) by (simp add: make_lease_Inr lease_of_def takeover_def row_wf_def row_check_def)
  ultimately show ?thesis by (simp add: recover_row_def Let_def changed_one_def takeover_def)
qed

lemma recover_fold:
  assumes "distinct (map iv_invocation_id (db_invocations db))" and "distinct (map iv_invocation_id E)"
    and "set E \<subseteq> set (db_invocations db)" and "\<forall>r \<in> set E. iv_state r = CLAIMED \<and> row_wf r" and "plain_text 200 owner"
  shows "foldE (recover_row owner expires t) E (ls, db) =
    Inr (ls @ map (lease_of \<circ> takeover owner expires t) E,
         db\<lparr>db_invocations := map (\<lambda>r. if r \<in> set E then takeover owner expires t r else r) (db_invocations db)\<rparr>)"
  using assms(1-4)
proof (induction E arbitrary: ls db)
  case (Cons r E)
  obtain xs ys where s: "db_invocations db = xs @ r # ys" using Cons.prems(3) by (auto dest: split_list)
  let ?r = "takeover owner expires t r"
  let ?db = "db\<lparr>db_invocations := xs @ ?r # ys\<rparr>"
  have fresh: "\<forall>x \<in> set (xs @ ys). iv_invocation_id x \<noteq> iv_invocation_id r"
    using Cons.prems(1) s by (auto simp: image_iff)
  have step: "recover_row owner expires t r (ls, db) = Inr (ls @ [lease_of ?r], ?db)"
    using s fresh Cons.prems(4) assms(5) by (intro recover_row_ok) simp_all
  have sub: "set E \<subseteq> set (xs @ ys)" using Cons.prems(2,3) s by force
  then have "\<forall>x \<in> set E. iv_invocation_id x \<noteq> iv_invocation_id r" using fresh by blast
  then have "?r \<notin> set E" "r \<notin> set E" by auto
  then have same: "map (\<lambda>x. if x \<in> set E then takeover owner expires t x else x) (xs @ ?r # ys) =
      map (\<lambda>x. if x \<in> set (r # E) then takeover owner expires t x else x) (xs @ r # ys)"
    using fresh by auto
  have "foldE (recover_row owner expires t) E (ls @ [lease_of ?r], ?db) =
    Inr ((ls @ [lease_of ?r]) @ map (lease_of \<circ> takeover owner expires t) E,
         ?db\<lparr>db_invocations := map (\<lambda>x. if x \<in> set E then takeover owner expires t x else x) (db_invocations ?db)\<rparr>)"
    using Cons.prems s sub by (intro Cons.IH) auto
  then show ?case using step same s by simp
qed (simp add: map_idI)

lemma expired_rows_props:
  assumes "inv_ok db"
  shows "set (expired_rows t n (db_invocations db)) \<subseteq>
      {r \<in> set (db_invocations db). iv_state r = CLAIMED \<and> iv_lease_expires_at r \<le> t}"
    and "distinct (map iv_invocation_id (expired_rows t n (db_invocations db)))"
    and "length (expired_rows t n (db_invocations db)) \<le> n"
proof -
  let ?F = "filter (\<lambda>r. iv_state r = CLAIMED \<and> iv_lease_expires_at r \<le> t) (db_invocations db)"
  let ?S = "sort_key (\<lambda>r. (iv_lease_expires_at r, iv_invocation_id r)) ?F"
  show "set (expired_rows t n (db_invocations db)) \<subseteq>
      {r \<in> set (db_invocations db). iv_state r = CLAIMED \<and> iv_lease_expires_at r \<le> t}"
    using set_take_subset[of n ?S] by (auto simp: expired_rows_def)
  have d: "distinct (db_invocations db)" "inj_on iv_invocation_id (set (db_invocations db))"
    using assms by (auto simp: inv_ok_def distinct_map)
  then have "distinct (map iv_invocation_id ?S)" by (auto simp: distinct_map intro: inj_on_subset)
  then show "distinct (map iv_invocation_id (expired_rows t n (db_invocations db)))"
    unfolding expired_rows_def take_map[symmetric] by (rule distinct_take)
qed (simp add: expired_rows_def)

lemma recover_work_result:
  fixes t :: int and n :: nat
  assumes "inv_ok db" and "plain_text 200 owner"
  defines "E \<equiv> expired_rows t n (db_invocations db)"
  shows "recover_work owner expires t n db =
    Inr (map (lease_of \<circ> takeover owner expires t) E,
         db\<lparr>db_invocations := map (\<lambda>r. if r \<in> set E then takeover owner expires t r else r) (db_invocations db)\<rparr>)"
proof -
  have "\<forall>r \<in> set E. iv_state r = CLAIMED \<and> row_wf r" "set E \<subseteq> set (db_invocations db)"
    using expired_rows_props(1)[OF assms(1)] assms(1) by (auto simp: E_def inv_ok_def list_all_iff)
  moreover have "distinct (map iv_invocation_id E)" unfolding E_def by (rule expired_rows_props(2)[OF assms(1)])
  ultimately show ?thesis
    using recover_fold[of db E owner expires t "[]"] assms(1,2) by (simp add: recover_work_def E_def inv_ok_def)
qed

lemma expired_rows_all:
  "length (filter (\<lambda>r. iv_state r = CLAIMED \<and> iv_lease_expires_at r \<le> t) rows) \<le> n \<Longrightarrow>
     set (expired_rows t n rows) = {r \<in> set rows. iv_state r = CLAIMED \<and> iv_lease_expires_at r \<le> t}"
  by (auto simp: expired_rows_def)

lemma recover_commit:
  assumes "recover_expired env owner now secs limit db = (Inr leases, db')"
  obtains t expires o' n where "recover_args owner now secs limit = Inr (t, expires, o', n)"
    "recover_work o' expires t n db = Inr (leases, db')"
proof (cases "recover_args owner now secs limit")
  case (Inr a)
  obtain t expires o' n where a: "a = (t, expires, o', n)" by (cases a) auto
  then have "write_op inv_codes env (recover_work o' expires t n) db = (Inr leases, db')"
    using assms Inr by (simp add: recover_expired_def)
  from tx.write_commit[OF this] show thesis using that Inr a by blast
qed (use assms in \<open>simp add: recover_expired_def\<close>)

lemma recover_args_Inr:
  "recover_args owner now secs limit = Inr (t, expires, o', n) \<Longrightarrow>
     now = Aware t \<and> t < expires \<and> owner = PStr o' \<and> plain_text 200 o' \<and> (\<exists>i. limit = PInt i \<and> n = nat i \<and> 1 \<le> i \<and> i \<le> 1000)"
  by (cases now; cases secs; cases limit)
    (auto simp: recover_args_def bindE_eq_Inr require_owner_def inv_require_text_Inr seconds_def MIN_LEASE_SECONDS_def
       split: if_splits)

lemma recovered_row:
  assumes "inv_ok db" and "recover_expired env owner now secs limit db = (Inr leases, db')" and "l \<in> set leases"
  shows "\<exists>r \<in> set (db_invocations db'). l = lease_of r"
  using assms(2)
proof (rule recover_commit)
  fix t expires o' n
  assume a: "recover_args owner now secs limit = Inr (t, expires, o', n)" and w: "recover_work o' expires t n db = Inr (leases, db')"
  let ?E = "expired_rows t n (db_invocations db)"
  have res: "leases = map (lease_of \<circ> takeover o' expires t) ?E"
    "db_invocations db' = map (\<lambda>r. if r \<in> set ?E then takeover o' expires t r else r) (db_invocations db)"
    using recover_work_result[OF assms(1), of o' expires t n] recover_args_Inr[OF a] w by auto
  then obtain x where x: "x \<in> set ?E" "l = lease_of (takeover o' expires t x)" using assms(3) by auto
  then have "takeover o' expires t x \<in> set (db_invocations db')"
    using expired_rows_props(1)[OF assms(1)] unfolding res(2) by force
  with x show ?thesis by blast
qed

lemma claim_error: "claim_invocation env rq b owner now secs new_id db = (Inl e, db') \<Longrightarrow> db' = db"
  by (auto simp: claim_invocation_def split: sum.splits dest: tx.write_error)

lemma claim_commit:
  assumes "claim_invocation env rq b owner now secs new_id db = (Inr res, db')"
  shows "\<exists>t expires o' w. mb_model b = rq_model rq \<and> claim_work rq b o' t expires w new_id db = Inr (res, db')"
proof (cases "claim_args rq b owner now secs")
  case (Inr a)
  obtain t expires o' w where a: "a = (t, expires, o', w)" by (cases a) auto
  then have "write_op inv_codes env (claim_work rq b o' t expires w new_id) db = (Inr res, db')"
    using assms Inr by (simp add: claim_invocation_def)
  from tx.write_commit[OF this] show ?thesis using Inr by (auto simp: claim_args_def bindE_eq_Inr)
qed (use assms in \<open>simp add: claim_invocation_def\<close>)

section \<open>Properties\<close>

lemma inv_ok_rows_ok:
  "inv_ok db \<Longrightarrow> distinct (map iv_invocation_id (db_invocations db)) \<and> distinct (active_identities (db_invocations db))
     \<and> list_all row_wf (db_invocations db)"
  by (simp add: inv_ok_def)

text \<open>
  C22: Along every sequence of claims, attempts, completions, releases and recoveries from the empty
  store, whatever the callers pass and whatever faults SQLite raises, invocation ids are unique, no
  two active (CLAIMED) rows share an identity, and every row has a generation and a demand of at least
  one, a non-negative attempt count, and an end time exactly when it is no longer active.
\<close>

theorem invocation_claims_exclusive:
  fixes ops :: "inv_op list"
  defines "rows \<equiv> db_invocations (fold inv_step ops empty_db)"
  shows "distinct (map iv_invocation_id rows) \<and> distinct (active_identities rows) \<and> list_all row_wf rows"
  unfolding rows_def by (rule inv_ok_rows_ok) (rule inv_ok_run)

lemma attempts_le_units:
  "sum_list (map iv_attempt_count (filter (\<lambda>r. iv_model r = m) rows)) \<le> units m rows"
  by (induction rows) (auto simp: units_def)

text \<open>
  C23: Reservations are never lost and never invented: after any sequence of operations, for every
  model and for both window kinds, the units reserved over all windows equal the units its rows account
  for (one for each claim and one for each attempt after the first), so the recorded model calls never
  exceed the reservations.
\<close>

theorem reservations_cover_attempts:
  fixes ops :: "inv_op list"
  defines "db \<equiv> fold inv_step ops empty_db"
  shows "reserved m k db = units m (db_invocations db)
    \<and> sum_list (map iv_attempt_count (filter (\<lambda>r. iv_model r = m) (db_invocations db))) \<le> reserved m k db"
proof -
  have "reserved m k db = units m (db_invocations db)"
    using inv_ok_run[of ops] by (simp add: db_def inv_ok_def)
  then show ?thesis using attempts_le_units[of m "db_invocations db"] by simp
qed

definition within_limits :: "string \<Rightarrow> int \<Rightarrow> int \<Rightarrow> inv_db \<Rightarrow> bool" where
  "within_limits m H D db \<longleftrightarrow>
     (\<forall>s. tbl_get (m, HOUR, s) (db_budget db) \<le> H \<and> tbl_get (m, DAY, s) (db_budget db) \<le> D)"

lemma within_limits_reserve:
  assumes "within_limits m H D db" and "has_room b w db" and "mb_model b = m \<Longrightarrow> hourly_limit b \<le> H \<and> daily_limit b \<le> D"
    and "db_budget db' = db_budget (reserve (mb_model b) w db)"
  shows "within_limits m H D db'"
proof -
  have "tbl_get (m, k, s) (db_budget db') \<le> (case k of HOUR \<Rightarrow> H | DAY \<Rightarrow> D)" for k s
  proof (cases "(m, k, s) = (mb_model b, HOUR, hour_start w) \<or> (m, k, s) = (mb_model b, DAY, day_start w)")
    case True
    then show ?thesis using assms(2-4) by (cases k) (auto simp: has_room_def reserve_get)
  next
    case False
    then show ?thesis using assms(1,4) by (cases k) (auto simp: within_limits_def reserve_get)
  qed
  from this[of HOUR] this[of DAY] show ?thesis by (simp add: within_limits_def)
qed

lemma within_limits_change:
  assumes "inv_change B db db'" and "within_limits m H D db"
    and "\<forall>b \<in> B. mb_model b = m \<longrightarrow> hourly_limit b \<le> H \<and> daily_limit b \<le> D"
  shows "within_limits m H D db'"
  using assms
proof (induction rule: inv_change.induct)
  case (Insert db' db r b)
  show ?case
  proof (rule within_limits_reserve)
    show "db_budget db' = db_budget (reserve (mb_model b) (iv_windows r) db)"
      unfolding Insert.hyps(5) by (rule Insert.hyps(7))
  qed (use Insert.prems Insert.hyps(4,6) in blast)+
next
  case (Attempt db xs r ys db' r' b w)
  show ?case
  proof (cases "1 \<le> iv_attempt_count r")
    case True
    with Attempt.hyps(5) have h: "b \<in> B" "mb_model b = iv_model r" "has_room b w db"
      "db_budget db' = db_budget (reserve (iv_model r) w db)" by simp_all
    show ?thesis
      by (rule within_limits_reserve[OF Attempt.prems(1) h(3)]) (use h Attempt.prems(2) in simp_all)
  next
    case False
    then show ?thesis using Attempt by (simp add: within_limits_def)
  qed
qed (simp_all add: within_limits_def)

lemma within_limits_run:
  assumes "\<forall>b \<in> \<Union> (op_budgets ` set ops). mb_model b = m \<longrightarrow> hourly_limit b \<le> H \<and> daily_limit b \<le> D"
    and "within_limits m H D db"
  shows "within_limits m H D (fold inv_step ops db)"
proof -
  have "(inv_change (\<Union> (op_budgets ` set ops)))\<^sup>*\<^sup>* db (fold inv_step ops db)" by (rule run_changes) simp
  then show ?thesis
  proof (induction rule: rtranclp_induct)
    case (step y z)
    then show ?case using within_limits_change assms(1) by blast
  qed (rule assms(2))
qed

definition calm_db :: tx_env where
  "calm_db = \<lparr>in_transaction = False, migrated = True, faults = (\<lambda>_. NoFault)\<rparr>"

definition invoc_identity :: "string \<Rightarrow> invocation_identity" where
  "invoc_identity stp = \<lparr>venue = ''kraken'', market_kind = SPOT, native_instrument = ''XBT/EUR'', id_setup = stp,
     id_direction = DIR_LONG, evidence_hash = HASH_PREFIX @ replicate 64 CHR ''a'', policy_version = ''v1''\<rparr>"

definition invoc_request :: "string \<Rightarrow> invocation_request" where
  "invoc_request stp = \<lparr>rq_identity = invoc_identity stp, rq_model = ''m''\<rparr>"

definition invoc_budget :: model_budget where
  "invoc_budget = \<lparr>mb_model = ''m'', hourly_limit = 1, daily_limit = 4\<rparr>"

definition invoc_claim :: "string \<Rightarrow> string \<Rightarrow> int \<Rightarrow> inv_op" where
  "invoc_claim stp new_id t = ClaimOp calm_db (invoc_request stp) invoc_budget (PStr ''w1'') (Aware t) (PInt 60) new_id"

text \<open>
  C4: A budget is a hard limit: when every budget that callers pass for a model has at most H per hour
  and D per day, no hour window of that model ever holds more than H reservations and no day window
  more than D, over any sequence of operations.
\<close>

theorem budget_never_exceeded:
  assumes "\<forall>b \<in> \<Union> (op_budgets ` set ops). mb_model b = m \<longrightarrow> hourly_limit b \<le> H \<and> daily_limit b \<le> D"
    and "0 \<le> H" and "0 \<le> D"
  shows "tbl_get (m, HOUR, s) (db_budget (fold inv_step ops empty_db)) \<le> H
    \<and> tbl_get (m, DAY, s) (db_budget (fold inv_step ops empty_db)) \<le> D"
proof -
  have "within_limits m H D empty_db" using assms(2,3) by (simp add: within_limits_def empty_db_def tbl_get_def)
  then show ?thesis using within_limits_run[OF assms(1)] by (simp add: within_limits_def)
qed

theorem budget_never_exceeded_witness:
  "tbl_get (''m'', HOUR, 0) (db_budget (fold inv_step [invoc_claim ''s'' ''a'' 5, invoc_claim ''t'' ''b'' 6] empty_db)) = 1
   \<and> tbl_get (''m'', HOUR, 0) (db_budget (fold inv_step [invoc_claim ''s'' ''a'' 5, invoc_claim ''t'' ''b'' 6] empty_db)) \<le> 1"
proof
  show "tbl_get (''m'', HOUR, 0) (db_budget (fold inv_step [invoc_claim ''s'' ''a'' 5, invoc_claim ''t'' ''b'' 6] empty_db)) = 1"
    by code_simp
  show "tbl_get (''m'', HOUR, 0) (db_budget (fold inv_step [invoc_claim ''s'' ''a'' 5, invoc_claim ''t'' ''b'' 6] empty_db)) \<le> 1"
    using budget_never_exceeded[of "[invoc_claim ''s'' ''a'' 5, invoc_claim ''t'' ''b'' 6]" "''m''" 1 4 0]
    by (simp add: invoc_claim_def invoc_budget_def)
qed

text \<open>
  C5: Fencing is permanent. Once \<^verbatim>\<open>recover_expired\<close> has handed a row to a new lease, every lease of an older
  generation of that row is dead: after any further operations its attempts, completions and releases
  change nothing and are never reported as applied.
\<close>

theorem fenced_forever:
  assumes db: "db = fold inv_step before empty_db"
    and rec: "recover_expired env owner now secs limit db = (Inr leases, db')"
    and "new \<in> set leases" and "ls_invocation_id old = ls_invocation_id new" and "ls_generation old < ls_generation new"
    and db2: "db'' = fold inv_step after db'"
  shows "snd (record_attempt env' old b now' db'') = db'' \<and> snd (complete_invocation env' old now' db'') = db''
    \<and> snd (release_invocation env' old reason now' db'') = db''
    \<and> list_all (\<lambda>res. case res of Inr tr \<Rightarrow> \<not> applied tr | Inl e \<Rightarrow> True)
        [fst (record_attempt env' old b now' db''), fst (complete_invocation env' old now' db''),
         fst (release_invocation env' old reason now' db'')]"
proof -
  have ok: "inv_ok db" unfolding db by (rule inv_ok_run)
  have ok': "inv_ok db'" using invs.step_inv[OF ok, of "RecoverOp env owner now secs limit"] rec by simp
  then have ok'': "inv_ok db''" unfolding db2 by (rule invs.run_inv)
  obtain r where r: "r \<in> set (db_invocations db')" "iv_invocation_id r = ls_invocation_id new" "iv_generation r = ls_generation new"
    using recovered_row[OF ok rec assms(3)] by (auto simp: lease_of_def)
  obtain r' where r': "r' \<in> set (db_invocations db'')" "row_le r r'"
    using invs.run_le[OF ok', of after] r(1) unfolding db2 by (rule db_le_row)
  have "iv_invocation_id r' = ls_invocation_id old" "iv_generation r' \<noteq> ls_generation old"
    using r r'(2) assms(4,5) by (auto simp: row_le_def)
  note stale = holder_action_stale[OF ok'' r'(1) this(1) disjI1[OF this(2)]]
  show ?thesis
    using stale by (simp add: record_attempt_def complete_invocation_def release_invocation_def)
qed

theorem fenced_forever_witness:
  "fst (complete_invocation calm_db \<lparr>ls_invocation_id = ''a'', ls_generation = 1, ls_owner = ''w1'', ls_expires_at = 60000005\<rparr>
      (Aware 60000010) (snd (recover_expired calm_db (PStr ''w2'') (Aware 60000005) (PInt 60) (PInt 16)
         (fold inv_step [invoc_claim ''s'' ''a'' 5] empty_db))))
    = Inr \<lparr>tr_status = FENCED, tr_invocation_id = ''a'', tr_attempt_count = Some 0\<rparr>
   \<and> snd (complete_invocation calm_db \<lparr>ls_invocation_id = ''a'', ls_generation = 1, ls_owner = ''w1'', ls_expires_at = 60000005\<rparr>
      (Aware 60000010) (snd (recover_expired calm_db (PStr ''w2'') (Aware 60000005) (PInt 60) (PInt 16)
         (fold inv_step [invoc_claim ''s'' ''a'' 5] empty_db))))
    = snd (recover_expired calm_db (PStr ''w2'') (Aware 60000005) (PInt 60) (PInt 16)
         (fold inv_step [invoc_claim ''s'' ''a'' 5] empty_db))"
proof
  let ?old = "\<lparr>ls_invocation_id = ''a'', ls_generation = 1, ls_owner = ''w1'', ls_expires_at = 60000005\<rparr>"
  let ?new = "\<lparr>ls_invocation_id = ''a'', ls_generation = 2, ls_owner = ''w2'', ls_expires_at = 120000005\<rparr>"
  let ?rec = "recover_expired calm_db (PStr ''w2'') (Aware 60000005) (PInt 60) (PInt 16)
         (fold inv_step [invoc_claim ''s'' ''a'' 5] empty_db)"
  show "fst (complete_invocation calm_db ?old (Aware 60000010) (snd ?rec))
      = Inr \<lparr>tr_status = FENCED, tr_invocation_id = ''a'', tr_attempt_count = Some 0\<rparr>" by code_simp
  have "fst ?rec = Inr [?new]" by code_simp
  then have "?rec = (Inr [?new], snd ?rec)" by (metis prod.collapse)
  from fenced_forever[OF refl this, of ?new ?old "snd ?rec" "[]"]
  show "snd (complete_invocation calm_db ?old (Aware 60000010) (snd ?rec)) = snd ?rec" by simp
qed

text \<open>
  What a claim does. An error changes nothing. A duplicate reports an active row with the same
  identity and one more demand, and reserves nothing. A refusal happens only when a window is full and
  writes neither a row nor a reservation. A success adds exactly one active row, with the lease it
  returns, for an identity that had no active row, and takes one unit in both windows, which stay within the limits.
\<close>

lemma claim_outcomes:
  fixes db :: inv_db
  defines "rows \<equiv> db_invocations db"
  shows "case claim_invocation env rq b owner now secs new_id db of
      (Inl e, db') \<Rightarrow> db' = db
    | (Inr (Duplicate i n), db') \<Rightarrow>
        db_budget db' = db_budget db \<and> map iv_invocation_id (db_invocations db') = map iv_invocation_id rows
        \<and> list_ex (\<lambda>r. same_active (rq_identity rq) r \<and> iv_invocation_id r = i \<and> n = iv_demand_count r + 1) rows
    | (Inr (Refused reason u), db') \<Rightarrow>
        db_budget db' = db_budget db \<and> db_invocations db' = rows
        \<and> \<not> list_ex (same_active (rq_identity rq)) rows
        \<and> (us_hourly_limit u \<le> hourly_reserved u \<or> us_daily_limit u \<le> daily_reserved u)
    | (Inr (Claimed l u), db') \<Rightarrow>
        (\<exists>r. db_invocations db' = rows @ [r] \<and> same_active (rq_identity rq) r \<and> l = lease_of r \<and> iv_generation r = 1)
        \<and> \<not> list_ex (same_active (rq_identity rq)) rows
        \<and> hourly_reserved u = tbl_get (mb_model b, HOUR, hour_start (us_windows u)) (db_budget db) + 1
        \<and> daily_reserved u = tbl_get (mb_model b, DAY, day_start (us_windows u)) (db_budget db) + 1
        \<and> hourly_reserved u \<le> hourly_limit b \<and> daily_reserved u \<le> daily_limit b"
proof (cases "claim_invocation env rq b owner now secs new_id db")
  case (Pair res db')
  show ?thesis
  proof (cases res)
    case (Inl e)
    then show ?thesis using Pair claim_error by fastforce
  next
    case (Inr cr)
    obtain t expires o' w where m: "mb_model b = rq_model rq"
      and c: "claim_work rq b o' t expires w new_id db = Inr (cr, db')"
      using claim_commit Pair Inr by blast
    from c show ?thesis
    proof (cases rule: claim_work_cases)
      case (duplicate xs r ys r')
      then show ?thesis using Pair Inr by (simp add: rows_def)
    next
      case (refused reason u)
      then show ?thesis using Pair Inr
        by (auto simp: rows_def refusal_reason_def list_ex_iff split: if_splits)
    next
      case (claimed l u r)
      have l: "l = lease_of r" using claimed by (simp add: make_lease_Inr lease_of_def fresh_row_def)
      have "hourly_reserved u = tbl_get (mb_model b, HOUR, hour_start w) (db_budget db) + 1"
        "daily_reserved u = tbl_get (mb_model b, DAY, day_start w) (db_budget db) + 1" "us_windows u = w"
        using usage_Inr[OF claimed(15)] claimed(14) m by (simp_all add: reserve_get)
      then show ?thesis using Pair Inr claimed l
        by (auto simp: rows_def list_ex_iff has_room_def fresh_row_def same_active_def)
    qed
  qed
qed

text \<open>
  Recovery is exact and cannot fail on a reachable store. Without a database fault it returns one lease
  per recovered row, at most the limit, each row being active with an expired lease before; a recovered row gets
  the next generation and the new lease, every other row, the budget and the demand are untouched; and
  when the expired rows fit the limit no active row is left with an expired lease.
\<close>

lemma recovery_exact:
  fixes ops :: "inv_op list"
  defines "db \<equiv> fold inv_step ops empty_db"
  assumes args: "recover_args owner now secs limit = Inr (t, expires, o', n)"
    and env: "\<not> in_transaction env" "migrated env" "faults env 0 = NoFault"
  defines "E \<equiv> expired_rows t n (db_invocations db)"
  shows "recover_expired env owner now secs limit db =
      (Inr (map (lease_of \<circ> takeover o' expires t) E),
       db\<lparr>db_invocations := map (\<lambda>r. if r \<in> set E then takeover o' expires t r else r) (db_invocations db)\<rparr>)
    \<and> length E \<le> n \<and> list_all (\<lambda>r. r \<in> set (db_invocations db) \<and> iv_state r = CLAIMED \<and> iv_lease_expires_at r \<le> t) E
    \<and> (length (filter (\<lambda>r. iv_state r = CLAIMED \<and> iv_lease_expires_at r \<le> t) (db_invocations db)) \<le> n \<longrightarrow>
       \<not> list_ex (\<lambda>r. iv_state r = CLAIMED \<and> iv_lease_expires_at r \<le> t)
         (db_invocations (snd (recover_expired env owner now secs limit db))))"
proof -
  have ok: "inv_ok db" unfolding db_def by (rule inv_ok_run)
  let ?rows = "map (\<lambda>r. if r \<in> set E then takeover o' expires t r else r) (db_invocations db)"
  have a: "t < expires" "plain_text 200 o'" using recover_args_Inr[OF args] by auto
  have w: "recover_work o' expires t n db = Inr (map (lease_of \<circ> takeover o' expires t) E, db\<lparr>db_invocations := ?rows\<rparr>)"
    using recover_work_result[OF ok a(2)] by (simp add: E_def)
  have r: "recover_expired env owner now secs limit db =
      (Inr (map (lease_of \<circ> takeover o' expires t) E), db\<lparr>db_invocations := ?rows\<rparr>)"
    by (simp add: recover_expired_def write_op_calm[OF env] body_result_def w args)
  have "\<not> list_ex (\<lambda>r. iv_state r = CLAIMED \<and> iv_lease_expires_at r \<le> t) ?rows"
    if "length (filter (\<lambda>r. iv_state r = CLAIMED \<and> iv_lease_expires_at r \<le> t) (db_invocations db)) \<le> n"
    using expired_rows_all[OF that] a(1) by (auto simp: list_ex_iff E_def)
  then show ?thesis using r expired_rows_props[OF ok] by (auto simp: E_def list_all_iff)
qed

text \<open>
  The store keeps its history: after any further operations the earlier rows are still there, in order,
  with the same id, identity, model, windows and claim time, with a generation, attempt count and demand that
  did not decrease, unchanged altogether once completed or released, and no budget counter went down.
\<close>

lemma invocation_history_kept:
  "db_le (fold inv_step ops empty_db) (fold inv_step (ops @ later) empty_db)"
  using invs.run_le[OF inv_ok_run, of ops later] by simp

end
