(* ===== verification/Envelope_Text.thy ===== *)
theory Envelope_Text
  imports Risk
begin

text \<open>
  The stored form of the account envelope: \<^verbatim>\<open>parse_envelope\<close> of \<^verbatim>\<open>radar_v08/adapters/pilot_store.py\<close> reads
  back the canonical text that \<^verbatim>\<open>Envelope.canonical_text\<close> writes, and refuses every other text.
\<close>

section \<open>Reading an envelope\<close>

datatype pilot_failure =
  INVALID_ROW | INVALID_ARGUMENT | OPEN_TRANSACTION | NO_ACCOUNT | UNKNOWN_LOCK | LOCK_ALREADY_REVIEWED |
  MALFORMED_ROW | SQLITE_ERROR

text \<open>What the store raises: its own error with a code, an error of the money code, or an integer too large for SQLite.\<close>

datatype pilot_exn = PilotStoreError pilot_failure | MoneyError py_exn | IntTooLarge

abbreviation malformed :: pilot_exn where "malformed \<equiv> PilotStoreError MALFORMED_ROW"

text \<open>
  A value that is not a JSON string never survives the comparison with the canonical text, where
  every decimal is a string, so only strings are converted.
\<close>

fun json_decimal :: "json option \<Rightarrow> pilot_exn + pyval" where
  "json_decimal (Some (JStr s)) = (case parse_decimal s of Some d \<Rightarrow> Inr (PDec d) | None \<Rightarrow> Inl malformed)"
| "json_decimal _ = Inl malformed"

fun json_cap :: "json option \<Rightarrow> pilot_exn + pyval option" where
  "json_cap (Some JNull) = Inr None"
| "json_cap v = bindE (json_decimal v) (\<lambda>d. Inr (Some d))"

fun json_int :: "json option \<Rightarrow> pilot_exn + py_int" where
  "json_int (Some (JInt i)) = Inr (AnInt i)"
| "json_int (Some (JBool b)) = Inr (ABool b)"
| "json_int _ = Inl malformed"

fun json_currency :: "json option \<Rightarrow> pilot_exn + pyval" where
  "json_currency (Some (JStr s)) = Inr (PStr s)"
| "json_currency _ = Inl malformed"

definition envelope_of_members :: "(string \<times> json) list \<Rightarrow> pilot_exn + envelope" where
  "envelope_of_members ms =
     bindE (guardE (map_of ms ''policy_id'' = Some (JStr ENVELOPE_POLICY_ID)) malformed) (\<lambda>_.
     bindE (json_cap (map_of ms ''per_entry_abs_cap'')) (\<lambda>cap.
     bindE (json_decimal (map_of ms ''equity'')) (\<lambda>eq.
     bindE (json_currency (map_of ms ''currency'')) (\<lambda>cur.
     bindE (json_decimal (map_of ms ''per_entry_loss_pct'')) (\<lambda>pe.
     bindE (json_decimal (map_of ms ''aggregate_loss_pct'')) (\<lambda>ag.
     bindE (json_decimal (map_of ms ''gross_notional_pct'')) (\<lambda>gn.
     bindE (json_decimal (map_of ms ''cash_buffer_pct'')) (\<lambda>cb.
     bindE (json_decimal (map_of ms ''daily_loss_pct'')) (\<lambda>dl.
     bindE (json_decimal (map_of ms ''drawdown_pct'')) (\<lambda>dd.
     bindE (json_int (map_of ms ''max_positions'')) (\<lambda>mp.
     bindE (json_int (map_of ms ''leverage'')) (\<lambda>lev.
     case make_envelope \<lparr>arg_equity = eq, arg_currency = cur, arg_per_entry_loss_pct = pe, arg_aggregate_loss_pct = ag,
         arg_gross_notional_pct = gn, arg_cash_buffer_pct = cb, arg_daily_loss_pct = dl, arg_drawdown_pct = dd,
         arg_per_entry_abs_cap = cap, arg_max_positions = mp, arg_leverage = lev\<rparr> of
       Inl _ \<Rightarrow> Inl malformed
     | Inr env \<Rightarrow> Inr env))))))))))))"

definition parse_envelope :: "string \<Rightarrow> pilot_exn + envelope" where
  "parse_envelope t =
     (case loads t of
        Some (JObj ms) \<Rightarrow>
          bindE (envelope_of_members ms) (\<lambda>env. if canonical_text env = t then Inr env else Inl malformed)
      | _ \<Rightarrow> Inl malformed)"

section \<open>Round trip\<close>

text \<open>The literals of an envelope that the constructor accepted are finite.\<close>

definition finite_lit :: "dec_literal \<Rightarrow> bool" where
  "finite_lit d \<longleftrightarrow> (case d of Lit _ _ \<Rightarrow> True | _ \<Rightarrow> False)"

lemma envelope_decimal_Inr: "envelope_decimal f v = Inr d \<longleftrightarrow> v = PDec d \<and> finite_lit d"
proof (cases v)
  case (PDec l)
  then show ?thesis
    by (cases l) (auto simp: envelope_decimal_def require_decimal_Inr bindE_eq_Inr finite_lit_def)
qed (auto simp: envelope_decimal_def bindE_eq_Inr)

lemma finite_lit_text: "finite_lit d \<Longrightarrow> json_decimal (Some (JStr (literal_str d))) = Inr (PDec d)"
  by (cases d) (auto simp: finite_lit_def parse_decimal_dec_str)

lemma envelope_amount_Inr: "envelope_amount f v = Inr d \<Longrightarrow> v = PDec d \<and> finite_lit d"
  by (auto simp: envelope_amount_def bindE_eq_Inr envelope_decimal_Inr split: if_splits)

lemma ceiling_arg_Inr: "envelope_ceiling f v ceil = Inr d \<Longrightarrow> v = PDec d \<and> finite_lit d"
  by (auto simp: envelope_ceiling_def bindE_eq_Inr envelope_decimal_Inr split: if_splits)

lemma buffer_arg_Inr: "envelope_buffer v = Inr d \<Longrightarrow> v = PDec d \<and> finite_lit d"
  by (auto simp: envelope_buffer_def bindE_eq_Inr envelope_decimal_Inr split: if_splits)

lemma envelope_cap_Inr:
  "envelope_cap v = Inr c \<Longrightarrow> v = map_option PDec c \<and> (case c of None \<Rightarrow> True | Some d \<Rightarrow> finite_lit d)"
  by (auto simp: envelope_cap_def bindE_eq_Inr split: option.splits dest: envelope_amount_Inr)

lemma envelope_currency_Inr: "envelope_currency v = Inr s \<Longrightarrow> v = PStr s"
  by (cases v) (auto split: if_splits)

lemma int_arg_Inr: "envelope_int f k v = Inr i \<Longrightarrow> v = AnInt i"
  by (cases v) (auto split: if_splits)

text \<open>The arguments of an accepted envelope are its fields.\<close>

definition args_of :: "envelope \<Rightarrow> envelope_args" where
  "args_of env = \<lparr>arg_equity = PDec (equity env), arg_currency = PStr (currency env),
     arg_per_entry_loss_pct = PDec (per_entry_loss_pct env), arg_aggregate_loss_pct = PDec (aggregate_loss_pct env),
     arg_gross_notional_pct = PDec (gross_notional_pct env), arg_cash_buffer_pct = PDec (cash_buffer_pct env),
     arg_daily_loss_pct = PDec (daily_loss_pct env), arg_drawdown_pct = PDec (drawdown_pct env),
     arg_per_entry_abs_cap = map_option PDec (per_entry_abs_cap env), arg_max_positions = AnInt (max_positions env),
     arg_leverage = AnInt (leverage env)\<rparr>"

definition finite_envelope :: "envelope \<Rightarrow> bool" where
  "finite_envelope env \<longleftrightarrow>
     finite_lit (equity env) \<and> finite_lit (per_entry_loss_pct env) \<and> finite_lit (aggregate_loss_pct env)
     \<and> finite_lit (gross_notional_pct env) \<and> finite_lit (cash_buffer_pct env) \<and> finite_lit (daily_loss_pct env)
     \<and> finite_lit (drawdown_pct env) \<and> (case per_entry_abs_cap env of None \<Rightarrow> True | Some d \<Rightarrow> finite_lit d)"

lemma make_envelope_args:
  assumes "make_envelope a = Inr env"
  shows "a = args_of env \<and> finite_envelope env"
proof -
  obtain eq cur pe ag gn dl dd cb cap mp lev where p:
    "envelope_amount ''equity'' (arg_equity a) = Inr eq" "envelope_currency (arg_currency a) = Inr cur"
    "envelope_ceiling ''per_entry_loss_pct'' (arg_per_entry_loss_pct a) EX1_PER_ENTRY_LOSS_PCT = Inr pe"
    "envelope_ceiling ''aggregate_loss_pct'' (arg_aggregate_loss_pct a) EX1_AGGREGATE_LOSS_PCT = Inr ag"
    "envelope_ceiling ''gross_notional_pct'' (arg_gross_notional_pct a) EX1_GROSS_NOTIONAL_PCT = Inr gn"
    "envelope_ceiling ''daily_loss_pct'' (arg_daily_loss_pct a) EX1_DAILY_LOSS_PCT = Inr dl"
    "envelope_ceiling ''drawdown_pct'' (arg_drawdown_pct a) EX1_DRAWDOWN_PCT = Inr dd"
    "envelope_buffer (arg_cash_buffer_pct a) = Inr cb" "envelope_cap (arg_per_entry_abs_cap a) = Inr cap"
    "envelope_int ''max_positions'' EX1_MAX_POSITIONS (arg_max_positions a) = Inr mp"
    "envelope_int ''leverage'' EX1_LEVERAGE (arg_leverage a) = Inr lev"
    and env: "env = \<lparr>equity = eq, currency = cur, per_entry_loss_pct = pe, aggregate_loss_pct = ag,
          gross_notional_pct = gn, cash_buffer_pct = cb, daily_loss_pct = dl, drawdown_pct = dd,
          per_entry_abs_cap = cap, max_positions = mp, leverage = lev\<rparr>"
    using assms unfolding make_envelope_def bindE_eq_Inr by blast
  note f = envelope_amount_Inr[OF p(1)] envelope_currency_Inr[OF p(2)] ceiling_arg_Inr[OF p(3)]
    ceiling_arg_Inr[OF p(4)] ceiling_arg_Inr[OF p(5)] ceiling_arg_Inr[OF p(6)]
    ceiling_arg_Inr[OF p(7)] buffer_arg_Inr[OF p(8)] envelope_cap_Inr[OF p(9)]
    int_arg_Inr[OF p(10)] int_arg_Inr[OF p(11)]
  show ?thesis using f by (cases a) (simp add: args_of_def finite_envelope_def env)
qed

lemma canonical_members_distinct: "distinct (map fst (canonical_members env))"
  by (simp add: canonical_members_def)

lemma canonical_members_scalar: "list_all (\<lambda>m. scalar (snd m)) (canonical_members env)"
  by (simp add: canonical_members_def split: option.split)

lemma canonical_map_of:
  "map_of (canonical_members env) ''policy_id'' = Some (JStr ENVELOPE_POLICY_ID)"
  "map_of (canonical_members env) ''per_entry_abs_cap'' =
     Some (case per_entry_abs_cap env of None \<Rightarrow> JNull | Some c \<Rightarrow> JStr (literal_str c))"
  "map_of (canonical_members env) ''equity'' = Some (JStr (literal_str (equity env)))"
  "map_of (canonical_members env) ''currency'' = Some (JStr (currency env))"
  "map_of (canonical_members env) ''per_entry_loss_pct'' = Some (JStr (literal_str (per_entry_loss_pct env)))"
  "map_of (canonical_members env) ''aggregate_loss_pct'' = Some (JStr (literal_str (aggregate_loss_pct env)))"
  "map_of (canonical_members env) ''gross_notional_pct'' = Some (JStr (literal_str (gross_notional_pct env)))"
  "map_of (canonical_members env) ''cash_buffer_pct'' = Some (JStr (literal_str (cash_buffer_pct env)))"
  "map_of (canonical_members env) ''daily_loss_pct'' = Some (JStr (literal_str (daily_loss_pct env)))"
  "map_of (canonical_members env) ''drawdown_pct'' = Some (JStr (literal_str (drawdown_pct env)))"
  "map_of (canonical_members env) ''max_positions'' = Some (JInt (max_positions env))"
  "map_of (canonical_members env) ''leverage'' = Some (JInt (leverage env))"
  by (simp_all add: canonical_members_def)

lemma json_cap_text:
  "(case c of None \<Rightarrow> True | Some d \<Rightarrow> finite_lit d) \<Longrightarrow>
     json_cap (Some (case c of None \<Rightarrow> JNull | Some d \<Rightarrow> JStr (literal_str d))) = Inr (map_option PDec c)"
  by (cases c) (simp_all add: finite_lit_text del: json_decimal.simps)

lemma envelope_of_canonical:
  assumes "make_envelope a = Inr env"
  shows "envelope_of_members (canonical_members env) = Inr env"
proof -
  have a: "make_envelope (args_of env) = Inr env" and fin: "finite_envelope env"
    using assms make_envelope_args[OF assms] by simp_all
  have "envelope_of_members (canonical_members env) = (case make_envelope (args_of env) of Inl _ \<Rightarrow> Inl malformed | Inr e \<Rightarrow> Inr e)"
    using fin unfolding envelope_of_members_def canonical_map_of finite_envelope_def
    by (simp add: finite_lit_text json_cap_text args_of_def del: json_decimal.simps json_cap.simps)
  then show ?thesis using a by simp
qed

lemma loads_canonical: "loads (canonical_text env) = Some (JObj (canonical_members env))"
  unfolding canonical_text_def
  by (rule loads_dumps_object) (simp_all add: separators_def canonical_members_scalar canonical_members_distinct)

lemma parse_canonical: "make_envelope a = Inr env \<Longrightarrow> parse_envelope (canonical_text env) = Inr env"
  using envelope_of_canonical[of a env] by (simp add: parse_envelope_def loads_canonical)

text \<open>
  C38: The recorded envelope reads back exactly: for every envelope that the constructor accepts,
  parsing its canonical text returns it, decimals with their exponents included, and two accepted envelopes with
  the same text are equal, so a change of any value changes the text.
\<close>

theorem envelope_text_round_trip:
  assumes "make_envelope a = Inr env"
  shows "parse_envelope (canonical_text env) = Inr env
    \<and> (make_envelope a' = Inr env' \<longrightarrow> canonical_text env' = canonical_text env \<longrightarrow> env' = env)"
  using parse_canonical[OF assms] parse_canonical[of a' env'] by auto

definition pilot_args :: envelope_args where
  "pilot_args = \<lparr>arg_equity = PDec (Lit 100000 (-2)), arg_currency = PStr ''EUR'', arg_per_entry_loss_pct = PDec (Lit 25 (-2)),
     arg_aggregate_loss_pct = PDec (Lit 5 (-1)), arg_gross_notional_pct = PDec (Lit 10 0), arg_cash_buffer_pct = PDec (Lit 10 0),
     arg_daily_loss_pct = PDec (Lit 1 0), arg_drawdown_pct = PDec (Lit 3 0), arg_per_entry_abs_cap = None,
     arg_max_positions = AnInt 1, arg_leverage = AnInt 0\<rparr>"

definition pilot_envelope :: envelope where
  "pilot_envelope = \<lparr>equity = Lit 100000 (-2), currency = ''EUR'', per_entry_loss_pct = Lit 25 (-2),
     aggregate_loss_pct = Lit 5 (-1), gross_notional_pct = Lit 10 0, cash_buffer_pct = Lit 10 0, daily_loss_pct = Lit 1 0,
     drawdown_pct = Lit 3 0, per_entry_abs_cap = None, max_positions = 1, leverage = 0\<rparr>"

lemma pilot_envelope_made: "make_envelope pilot_args = Inr pilot_envelope"
  by code_simp

theorem envelope_text_round_trip_witness:
  "parse_envelope (canonical_text pilot_envelope) = Inr pilot_envelope"
  using envelope_text_round_trip[OF pilot_envelope_made] by blast

end
