(* ===== verification/Pilot_Store.thy ===== *)
theory Pilot_Store
  imports Envelope_Text Transactions "HOL-Library.Product_Lexorder"
begin

text \<open>
  The store of the pilot account, \<^verbatim>\<open>radar_v08/adapters/pilot_store.py\<close>: nine append-only tables, the account
  and its envelope, the kill switch, the equity of the account at a moment, the loss locks with their
  marks and reviews, the admission and sizing of candidates through the risk engine, and the closing of
  positions through the EX-1 exit policy.

  The database is a record of tables. A row id is one more than the number of rows, because rows are
  never deleted. Decimal columns hold exact text, so a stored decimal is its value; stored times are
  UTC instants. \<^verbatim>\<open>CHECK\<close> constraints, unique indexes and triggers are conditions of the inserts. The spot
  snapshots of the collector are an argument, and so are the SHA-256 function and the faults of SQLite.
\<close>

section \<open>Data\<close>

datatype mark_kind = DAY_START | HIGH_WATER

datatype mark_source = ASSIGNED | EVALUATION | REVIEW

datatype lock_trigger = ENTRY | SETTLE | MARK

datatype decision_outcome = OPENED | NO_TRADE

record account_row =
  ar_envelope_json :: string
  ar_sha256 :: string
  ar_policy_id :: string
  ar_equity_cents :: int
  ar_currency :: string
  ar_recorded_at :: int

record account =
  ac_envelope :: envelope
  ac_sha256 :: string
  ac_recorded_at :: int

text \<open>A candidate time that is not aware ISO text is \<open>Naive\<close>.\<close>

record pilot_candidate =
  pc_event_id :: string
  pc_run_id :: string
  pc_asset :: string
  pc_pair :: string
  pc_quote :: string
  pc_direction :: pyval
  pc_bid :: pyval
  pc_ask :: pyval
  pc_snapshot_ts :: moment
  pc_status :: pyval
  pc_atr :: pyval
  pc_atr_pair :: pyval
  pc_pair_entry :: pair_entry

record stored_decision =
  sd_decision_id :: nat
  sd_event_id :: string
  sd_run_id :: string
  sd_asset :: string
  sd_pair :: string
  sd_quote :: string
  sd_direction :: string
  sd_snapshot_ts :: int
  sd_values :: "(string \<times> rat option) list"
  sd_atr_pair :: "string option"
  sd_tick_source :: "string option"
  sd_lot_decimals :: "int option"
  sd_binding :: "binding_constraint option"
  sd_passes :: nat
  sd_entry_fee_cents :: "int option"
  sd_exit_fee_cents :: "int option"
  sd_fee_bps :: rat
  sd_envelope_sha256 :: string
  sd_outcome :: decision_outcome
  sd_reason :: "no_trade_reason option"
  sd_detail :: string
  sd_decided_at :: int

record stored_position =
  sp_position_id :: nat
  sp_decision_id :: nat
  sp_event_id :: string
  sp_run_id :: string
  sp_asset :: string
  sp_pair :: string
  sp_quote :: string
  sp_quantity :: rat
  sp_entry_bid :: rat
  sp_entry_ask :: rat
  sp_entry_ts :: int
  sp_due_at :: int
  sp_fee_bps :: rat
  sp_exit_policy :: string
  sp_atr :: rat
  sp_stop :: rat
  sp_target :: rat
  sp_stress_exit_price :: rat
  sp_planned_loss :: rat
  sp_notional :: rat
  sp_cost_basis :: rat
  sp_opened_at :: int

record stored_close =
  sc_close_id :: nat
  sc_position_id :: nat
  sc_exit_reason :: exit_reason
  sc_exit_source :: string
  sc_exit_observation_id :: int
  sc_exit_bid :: rat
  sc_exit_ask :: rat
  sc_exit_ts :: int
  sc_record_lag :: int
  sc_quantity :: rat
  sc_gross_cents :: int
  sc_entry_fee_cents :: int
  sc_exit_fee_cents :: int
  sc_fees_cents :: int
  sc_net_cents :: int
  sc_outcome :: outcome
  sc_stop :: rat
  sc_stop_slippage :: rat
  sc_stop_slippage_bps :: rat
  sc_closed_at :: int

record exit_quote =
  xq_position_id :: nat
  xq_pair :: string
  xq_bid :: rat
  xq_ask :: rat
  xq_observed_at :: int
  xq_source :: string
  xq_recorded_at :: int

record stored_review =
  rv_lock_id :: nat
  rv_reviewer :: string
  rv_cause :: string
  rv_rebase_equity :: rat
  rv_reviewed_at :: int

record lock_row =
  lk_lock_id :: nat
  lk_kind :: lock_kind
  lk_equity :: rat
  lk_reference :: rat
  lk_limit_pct :: rat
  lk_utc_day :: int
  lk_evaluated_on :: lock_trigger
  lk_tripped_at :: int

record stored_mark =
  mk_kind :: mark_kind
  mk_utc_day :: "int option"
  mk_equity :: rat
  mk_source :: mark_source
  mk_lock_id :: "nat option"
  mk_recorded_at :: int

record kill_switch_row =
  ks_engaged :: bool
  ks_reason :: string
  ks_actor :: string
  ks_recorded_at :: int

record pilot_db =
  pd_account :: "account_row option"
  pd_decisions :: "stored_decision list"
  pd_positions :: "stored_position list"
  pd_closes :: "stored_close list"
  pd_exit_quotes :: "exit_quote list"
  pd_marks :: "stored_mark list"
  pd_locks :: "lock_row list"
  pd_reviews :: "stored_review list"
  pd_switches :: "kill_switch_row list"

definition empty_pilot :: pilot_db where
  "empty_pilot = \<lparr>pd_account = None, pd_decisions = [], pd_positions = [], pd_closes = [], pd_exit_quotes = [],
     pd_marks = [], pd_locks = [], pd_reviews = [], pd_switches = []\<rparr>"

text \<open>
  The environment of a call: whether the connection already has an open transaction, whether SQLite fails, the SHA-256
  hex digest of a text, and the \<^verbatim>\<open>repr\<close> of a value.
\<close>

record pilot_env =
  pe_in_transaction :: bool
  pe_fault :: bool
  pe_sha256 :: "string \<Rightarrow> string"
  pe_repr :: "pyval \<Rightarrow> string"

section \<open>Helpers\<close>

definition liftM :: "py_exn + 'a \<Rightarrow> pilot_exn + 'a" where
  "liftM r = (case r of Inl e \<Rightarrow> Inl (MoneyError e) | Inr x \<Rightarrow> Inr x)"

abbreviation invalid_argument :: pilot_exn where "invalid_argument \<equiv> PilotStoreError INVALID_ARGUMENT"
abbreviation sqlite_error :: pilot_exn where "sqlite_error \<equiv> PilotStoreError SQLITE_ERROR"

fun pilot_now :: "moment \<Rightarrow> pilot_exn + int" where
  "pilot_now (Aware t) = Inr t"
| "pilot_now Naive = Inl invalid_argument"

definition utc_day :: "int \<Rightarrow> int" where
  "utc_day t = t div seconds 86400"

definition envelope_sha256 :: "pilot_env \<Rightarrow> envelope \<Rightarrow> string" where
  "envelope_sha256 pe env = pe_sha256 pe (canonical_text env)"

text \<open>An integer parameter must fit 64 bits.\<close>

definition sqlite_int :: "int \<Rightarrow> pilot_exn + int" where
  "sqlite_int i = (if - (2 ^ 63) \<le> i \<and> i < 2 ^ 63 then Inr i else Inl IntTooLarge)"

text \<open>The product with 100 is taken in the interpreter's default context of 28 digits, then truncated.\<close>

definition to_cents :: "rat \<Rightarrow> pilot_exn + int" where
  "to_cents v =
     bindE (liftM (cents v)) (\<lambda>c.
     if v \<noteq> c then Inl invalid_argument
     else let p = ctx_mul default_context v HUNDRED in
       sqlite_int (if p < 0 then - \<lfloor>- p\<rfloor> else \<lfloor>p\<rfloor>))"

definition from_cents :: "int \<Rightarrow> rat" where
  "from_cents v = ctx_fix default_context (of_int v / HUNDRED)"

fun nonempty :: "pyval \<Rightarrow> pilot_exn + string" where
  "nonempty (PStr s) = (if strip s = [] then Inl invalid_argument else Inr s)"
| "nonempty _ = Inl invalid_argument"

section \<open>Reading\<close>

definition read_account :: "pilot_env \<Rightarrow> pilot_db \<Rightarrow> pilot_exn + account option" where
  "read_account pe db =
     (case pd_account db of
        None \<Rightarrow> Inr None
      | Some row \<Rightarrow>
          bindE (parse_envelope (ar_envelope_json row)) (\<lambda>env.
          if envelope_sha256 pe env \<noteq> ar_sha256 row then Inl malformed
          else Inr (Some \<lparr>ac_envelope = env, ac_sha256 = ar_sha256 row, ac_recorded_at = ar_recorded_at row\<rparr>)))"

definition read_decisions :: "pyval option \<Rightarrow> pilot_db \<Rightarrow> pilot_exn + stored_decision list" where
  "read_decisions newest db =
     (case newest of
        None \<Rightarrow> Inr (pd_decisions db)
      | Some (PInt n) \<Rightarrow> if n < 0 then Inl invalid_argument else Inr (rev (take (nat n) (rev (pd_decisions db))))
      | Some _ \<Rightarrow> Inl invalid_argument)"

definition NO_TRADE_REASONS :: "no_trade_reason list" where
  "NO_TRADE_REASONS = [UNSUPPORTED_DIRECTION, ENVELOPE_CHANGED, KILL_SWITCH_ENGAGED, DAILY_LOSS_LOCK, DRAWDOWN_LOCK,
     POSITION_ALREADY_OPEN, QUOTE_CURRENCY_MISMATCH, INVALID_QUOTE, NO_VALID_ATR, MISSING_PAIR_RULES,
     EQUITY_UNAVAILABLE, INVALID_LEVELS, STOP_INVALID_AFTER_TICK, NO_LOSS_BUDGET, NO_NOTIONAL_ROOM,
     INSUFFICIENT_CASH, BELOW_ORDER_MINIMUM, BELOW_COST_MINIMUM, SIZING_INCONSISTENT]"

definition no_trade_counts :: "pilot_db \<Rightarrow> (no_trade_reason \<times> nat) list" where
  "no_trade_counts db =
     map (\<lambda>r. (r, length (filter (\<lambda>d. sd_outcome d = NO_TRADE \<and> sd_reason d = Some r) (pd_decisions db)))) NO_TRADE_REASONS"

definition has_close :: "pilot_db \<Rightarrow> nat \<Rightarrow> bool" where
  "has_close db pid \<longleftrightarrow> list_ex (\<lambda>c. sc_position_id c = pid) (pd_closes db)"

definition read_open_positions :: "pilot_db \<Rightarrow> stored_position list" where
  "read_open_positions db = filter (\<lambda>p. \<not> has_close db (sp_position_id p)) (pd_positions db)"

definition lock_reviewed :: "pilot_db \<Rightarrow> nat \<Rightarrow> bool" where
  "lock_reviewed db i \<longleftrightarrow> list_ex (\<lambda>r. rv_lock_id r = i) (pd_reviews db)"

definition active_locks :: "pilot_db \<Rightarrow> lock_row list" where
  "active_locks db = filter (\<lambda>l. \<not> lock_reviewed db (lk_lock_id l)) (pd_locks db)"

text \<open>The last row that satisfies a condition, as \<^verbatim>\<open>ORDER BY id DESC LIMIT 1\<close> selects it.\<close>

definition last_row :: "('a \<Rightarrow> bool) \<Rightarrow> 'a list \<Rightarrow> 'a option" where
  "last_row p rows = find p (rev rows)"

definition day_start :: "pilot_db \<Rightarrow> int \<Rightarrow> rat option" where
  "day_start db day = map_option mk_equity (last_row (\<lambda>m. mk_kind m = DAY_START \<and> mk_utc_day m = Some day) (pd_marks db))"

definition high_water :: "pilot_db \<Rightarrow> rat option" where
  "high_water db = map_option mk_equity (last_row (\<lambda>m. mk_kind m = HIGH_WATER) (pd_marks db))"

definition kill_switch_engaged :: "pilot_db \<Rightarrow> bool" where
  "kill_switch_engaged db = (case last_row (\<lambda>_. True) (pd_switches db) of None \<Rightarrow> False | Some k \<Rightarrow> ks_engaged k)"

section \<open>Transactions\<close>

definition pilot_tx ::
  "pilot_env \<Rightarrow> (pilot_db \<Rightarrow> pilot_exn + 'r \<times> pilot_db) \<Rightarrow> pilot_db \<Rightarrow> (pilot_exn + 'r) \<times> pilot_db" where
  "pilot_tx pe work db =
     (if pe_in_transaction pe then (Inl (PilotStoreError OPEN_TRANSACTION), db)
      else if pe_fault pe then (Inl sqlite_error, db)
      else body_result work db)"

definition require_account :: "pilot_env \<Rightarrow> pilot_db \<Rightarrow> pilot_exn + account" where
  "require_account pe db =
     bindE (read_account pe db) (\<lambda>acc. case acc of None \<Rightarrow> Inl (PilotStoreError NO_ACCOUNT) | Some a \<Rightarrow> Inr a)"

section \<open>Account and kill switch\<close>

definition mark_conflict :: "stored_mark \<Rightarrow> stored_mark \<Rightarrow> bool" where
  "mark_conflict m x \<longleftrightarrow>
     mk_kind m = DAY_START \<and> mk_source m = EVALUATION \<and> mk_kind x = DAY_START \<and> mk_source x = EVALUATION
       \<and> mk_utc_day x = mk_utc_day m
     \<or> mk_source m = ASSIGNED \<and> mk_source x = ASSIGNED"

definition insert_mark :: "stored_mark \<Rightarrow> pilot_db \<Rightarrow> pilot_exn + pilot_db" where
  "insert_mark m db =
     (if (mk_kind m = DAY_START) \<noteq> (mk_utc_day m \<noteq> None) then Inl sqlite_error
      else if (mk_source m = REVIEW) \<noteq> (mk_lock_id m \<noteq> None) then Inl sqlite_error
      else if mk_source m = ASSIGNED \<and> mk_kind m \<noteq> HIGH_WATER then Inl sqlite_error
      else if list_ex (mark_conflict m) (pd_marks db) then Inl sqlite_error
      else Inr (db\<lparr>pd_marks := pd_marks db @ [m]\<rparr>))"

definition insert_account :: "account_row \<Rightarrow> pilot_db \<Rightarrow> pilot_exn + pilot_db" where
  "insert_account row db =
     (if pd_account db \<noteq> None then Inl sqlite_error
      else if length (ar_sha256 row) \<noteq> 64 \<or> ar_equity_cents row \<le> 0 \<or> ar_currency row = [] then Inl sqlite_error
      else Inr (db\<lparr>pd_account := Some row\<rparr>))"

definition account_work :: "pilot_env \<Rightarrow> envelope \<Rightarrow> int \<Rightarrow> pilot_db \<Rightarrow> pilot_exn + unit \<times> pilot_db" where
  "account_work pe env t db =
     bindE (read_account pe db) (\<lambda>existing.
     case existing of
       Some _ \<Rightarrow> Inr ((), db)
     | None \<Rightarrow>
         bindE (to_cents (lit_value (equity env))) (\<lambda>c.
         bindE (insert_account \<lparr>ar_envelope_json = canonical_text env, ar_sha256 = envelope_sha256 pe env,
             ar_policy_id = ENVELOPE_POLICY_ID, ar_equity_cents = c, ar_currency = currency env, ar_recorded_at = t\<rparr> db) (\<lambda>db1.
         bindE (insert_mark \<lparr>mk_kind = HIGH_WATER, mk_utc_day = None, mk_equity = lit_value (equity env),
             mk_source = ASSIGNED, mk_lock_id = None, mk_recorded_at = t\<rparr> db1) (\<lambda>db2.
         Inr ((), db2)))))"

definition ensure_account :: "pilot_env \<Rightarrow> envelope \<Rightarrow> moment \<Rightarrow> pilot_db \<Rightarrow> (pilot_exn + account) \<times> pilot_db" where
  "ensure_account pe env now =
     with_args (pilot_now now) (\<lambda>t db.
       case read_account pe db of
         Inl e \<Rightarrow> (Inl e, db)
       | Inr (Some a) \<Rightarrow> (Inr a, db)
       | Inr None \<Rightarrow>
           (case pilot_tx pe (account_work pe env t) db of
              (Inl e, db') \<Rightarrow> (Inl e, db')
            | (Inr _, db') \<Rightarrow> (require_account pe db', db')))"

definition set_kill_switch ::
  "pilot_env \<Rightarrow> bool \<Rightarrow> pyval \<Rightarrow> pyval \<Rightarrow> moment \<Rightarrow> pilot_db \<Rightarrow> (pilot_exn + bool) \<times> pilot_db" where
  "set_kill_switch pe engaged reason actor now =
     with_args (bindE (nonempty reason) (\<lambda>r. bindE (nonempty actor) (\<lambda>a. bindE (pilot_now now) (\<lambda>t. Inr (r, a, t)))))
       (\<lambda>(r, a, t). pilot_tx pe (\<lambda>db.
          let db' = db\<lparr>pd_switches := pd_switches db @ [\<lparr>ks_engaged = engaged, ks_reason = r, ks_actor = a, ks_recorded_at = t\<rparr>]\<rparr>
          in Inr (kill_switch_engaged db', db')))"

definition engage_kill_switch :: "pilot_env \<Rightarrow> pyval \<Rightarrow> pyval \<Rightarrow> moment \<Rightarrow> pilot_db \<Rightarrow> (pilot_exn + bool) \<times> pilot_db" where
  "engage_kill_switch pe reason actor now = set_kill_switch pe True reason actor now"

definition release_kill_switch :: "pilot_env \<Rightarrow> pyval \<Rightarrow> pyval \<Rightarrow> moment \<Rightarrow> pilot_db \<Rightarrow> (pilot_exn + bool) \<times> pilot_db" where
  "release_kill_switch pe reason actor now = set_kill_switch pe False reason actor now"

section \<open>Observed quotes\<close>

text \<open>
  A spot snapshot as it is read: its time is \<open>Naive\<close> when its text is not an aware time at offset zero. The text
  margin of the SQL pre-selection only widens the exact comparison of times below.
\<close>

record snapshot =
  sn_id :: int
  sn_pair :: string
  sn_ts :: moment
  sn_bid :: pyval
  sn_ask :: pyval
  sn_status :: pyval

record observed_quote =
  oq_pair :: pyval
  oq_bid :: pyval
  oq_ask :: pyval
  oq_observed_at :: moment
  oq_source :: pyval

record extra_quote =
  eq_pair :: string
  eq_bid :: pyval
  eq_ask :: pyval
  eq_observed_at :: int
  eq_source :: string

record observation =
  ob_observed_at :: int
  ob_rank :: nat
  ob_ident :: int
  ob_quote :: quote
  ob_extra :: "extra_quote option"

definition ob_order :: "observation \<Rightarrow> int \<times> nat \<times> int" where
  "ob_order ob = (ob_observed_at ob, ob_rank ob, ob_ident ob)"

definition SPOT_SNAPSHOT_SOURCE :: string where "SPOT_SNAPSHOT_SOURCE = ''spot_snapshot''"

definition in_span :: "int \<Rightarrow> int \<Rightarrow> bool \<Rightarrow> int \<Rightarrow> bool" where
  "in_span start now include_start t \<longleftrightarrow> t \<le> now \<and> start \<le> t \<and> (t = start \<longrightarrow> include_start)"

definition spot_observation :: "string \<Rightarrow> int \<Rightarrow> int \<Rightarrow> bool \<Rightarrow> snapshot \<Rightarrow> observation option" where
  "spot_observation pair start now include_start sn =
     (case sn_ts sn of
        Naive \<Rightarrow> None
      | Aware t \<Rightarrow>
          if sn_pair sn \<noteq> pair \<or> \<not> in_span start now include_start t then None
          else (case validate_quote (sn_bid sn) (sn_ask sn) (sn_status sn) of
              Inl _ \<Rightarrow> None
            | Inr q \<Rightarrow> Some \<lparr>ob_observed_at = t, ob_rank = 0, ob_ident = sn_id sn, ob_quote = q, ob_extra = None\<rparr>))"

definition spot_observations :: "snapshot list \<Rightarrow> string \<Rightarrow> int \<Rightarrow> int \<Rightarrow> bool \<Rightarrow> observation list" where
  "spot_observations snaps pair start now include_start =
     sort_key ob_order (List.map_filter (spot_observation pair start now include_start) snaps)"

definition extra_observation :: "string \<Rightarrow> int \<Rightarrow> int \<Rightarrow> bool \<Rightarrow> nat \<times> extra_quote \<Rightarrow> observation option" where
  "extra_observation pair start now include_start ie =
     (case ie of (index, e) \<Rightarrow>
        if eq_pair e \<noteq> pair \<or> \<not> in_span start now include_start (eq_observed_at e) then None
        else (case validate_quote (eq_bid e) (eq_ask e) PNone of
            Inl _ \<Rightarrow> None
          | Inr q \<Rightarrow> Some \<lparr>ob_observed_at = eq_observed_at e, ob_rank = 1, ob_ident = int index, ob_quote = q,
                           ob_extra = Some e\<rparr>))"

definition extra_observations :: "extra_quote list \<Rightarrow> string \<Rightarrow> int \<Rightarrow> int \<Rightarrow> bool \<Rightarrow> observation list" where
  "extra_observations extras pair start now include_start =
     List.map_filter (extra_observation pair start now include_start) (List.enumerate 0 extras)"

definition check_extra_quote :: "observed_quote \<Rightarrow> pilot_exn + extra_quote" where
  "check_extra_quote q =
     bindE (nonempty (oq_pair q)) (\<lambda>p.
     bindE (nonempty (oq_source q)) (\<lambda>src.
     bindE (guardE (src \<noteq> SPOT_SNAPSHOT_SOURCE) invalid_argument) (\<lambda>_.
     bindE (pilot_now (oq_observed_at q)) (\<lambda>t.
     Inr \<lparr>eq_pair = p, eq_bid = oq_bid q, eq_ask = oq_ask q, eq_observed_at = t, eq_source = src\<rparr>))))"

definition check_extra_quotes :: "observed_quote list \<Rightarrow> pilot_exn + extra_quote list" where
  "check_extra_quotes qs = mapE check_extra_quote qs"

text \<open>\<^verbatim>\<open>validate_quote\<close> of two stored decimals.\<close>

definition stored_quote :: "rat \<Rightarrow> rat \<Rightarrow> quote_problem + quote" where
  "stored_quote b a =
     bindE (positive_price b) (\<lambda>b'. bindE (positive_price a) (\<lambda>a'.
       if a' < b' then Inl CROSSED else Inr \<lparr>bid = b', ask = a'\<rparr>))"

text \<open>The first of the observations with the greatest order, as \<^verbatim>\<open>max\<close> returns it.\<close>

fun latest :: "observation \<Rightarrow> observation list \<Rightarrow> observation" where
  "latest best [] = best"
| "latest best (x # xs) = latest (if ob_order best < ob_order x then x else best) xs"

definition mark_quote :: "snapshot list \<Rightarrow> extra_quote list \<Rightarrow> int \<Rightarrow> stored_position \<Rightarrow> pilot_exn + quote" where
  "mark_quote snaps extras now p =
     (case spot_observations snaps (sp_pair p) (sp_entry_ts p) now True
         @ extra_observations extras (sp_pair p) (sp_entry_ts p) now True of
        ob # obs \<Rightarrow> Inr (ob_quote (latest ob obs))
      | [] \<Rightarrow> (case stored_quote (sp_entry_bid p) (sp_entry_ask p) of Inl _ \<Rightarrow> Inl malformed | Inr q \<Rightarrow> Inr q))"

section \<open>Equity and locks\<close>

record account_state_t =
  as_equity :: rat
  as_cash :: rat
  as_realized :: rat
  as_open_positions :: "stored_position list"
  as_open_planned_loss :: rat
  as_open_notional :: rat

definition position_mark :: "snapshot list \<Rightarrow> extra_quote list \<Rightarrow> int \<Rightarrow> stored_position \<Rightarrow> pilot_exn + rat" where
  "position_mark snaps extras now p =
     bindE (mark_quote snaps extras now p) (\<lambda>q.
     liftM (unrealized_mark (DFin (sp_quantity p)) (DFin (bid q)) (DFin (sp_cost_basis p)) (DFin (sp_fee_bps p))))"

definition rsum :: "rat list \<Rightarrow> rat" where
  "rsum xs = foldl radd 0 xs"

definition compute_state ::
  "snapshot list \<Rightarrow> extra_quote list \<Rightarrow> int \<Rightarrow> account \<Rightarrow> pilot_db \<Rightarrow> pilot_exn + account_state_t" where
  "compute_state snaps extras now acc db =
     (let nets = map (\<lambda>c. from_cents (sc_net_cents c)) (pd_closes db);
          positions = read_open_positions db;
          assigned = lit_value (equity (ac_envelope acc))
      in bindE (mapE (position_mark snaps extras now) positions) (\<lambda>marks.
         bindE (liftM (account_equity (DFin assigned) (map DFin nets) (map DFin marks))) (\<lambda>eq.
         bindE (liftM (available_cash (DFin assigned) (map DFin nets) (map (DFin \<circ> sp_cost_basis) positions))) (\<lambda>csh.
         Inr \<lparr>as_equity = eq, as_cash = csh, as_realized = rsum nets, as_open_positions = positions,
              as_open_planned_loss = rsum (map sp_planned_loss positions),
              as_open_notional = rsum (map sp_notional positions)\<rparr>))))"

definition account_state ::
  "pilot_env \<Rightarrow> snapshot list \<Rightarrow> moment \<Rightarrow> observed_quote list \<Rightarrow> pilot_db \<Rightarrow> pilot_exn + account_state_t option" where
  "account_state pe snaps now qs db =
     bindE (pilot_now now) (\<lambda>t.
     bindE (check_extra_quotes qs) (\<lambda>extras.
     bindE (read_account pe db) (\<lambda>acc.
     case acc of
       None \<Rightarrow> Inr None
     | Some a \<Rightarrow> bindE (compute_state snaps extras t a db) (\<lambda>st. Inr (Some st)))))"

record lock_evaluation =
  le_equity :: rat
  le_day_start :: rat
  le_high_water :: rat
  le_tripped :: "lock_row list"
  le_active :: "lock_row list"

definition active_kinds :: "lock_evaluation \<Rightarrow> lock_kind list" where
  "active_kinds ev = rev (remdups (rev (map lk_kind (le_active ev))))"

definition ensure_day_start :: "int \<Rightarrow> rat \<Rightarrow> pilot_db \<Rightarrow> pilot_exn + rat \<times> pilot_db" where
  "ensure_day_start t eq db =
     (case day_start db (utc_day t) of
        Some ref \<Rightarrow> Inr (ref, db)
      | None \<Rightarrow>
          bindE (insert_mark \<lparr>mk_kind = DAY_START, mk_utc_day = Some (utc_day t), mk_equity = eq,
              mk_source = EVALUATION, mk_lock_id = None, mk_recorded_at = t\<rparr> db) (\<lambda>db'. Inr (eq, db')))"

definition raise_high_water :: "int \<Rightarrow> rat \<Rightarrow> pilot_db \<Rightarrow> pilot_exn + rat \<times> pilot_db" where
  "raise_high_water t eq db =
     (case high_water db of
        None \<Rightarrow> Inl malformed
      | Some water \<Rightarrow>
          bindE (liftM (next_high_water (DFin water) (DFin eq))) (\<lambda>raised.
          if raised = water then Inr (water, db)
          else bindE (insert_mark \<lparr>mk_kind = HIGH_WATER, mk_utc_day = None, mk_equity = raised,
              mk_source = EVALUATION, mk_lock_id = None, mk_recorded_at = t\<rparr> db) (\<lambda>db'. Inr (raised, db'))))"

definition trip_lock ::
  "envelope \<Rightarrow> rat \<Rightarrow> rat \<Rightarrow> rat \<Rightarrow> int \<Rightarrow> lock_trigger \<Rightarrow> lock_kind \<Rightarrow> pilot_db \<Rightarrow> pilot_db" where
  "trip_lock env eq ref water t trigger kind db =
     db\<lparr>pd_locks := pd_locks db @ [\<lparr>lk_lock_id = Suc (length (pd_locks db)), lk_kind = kind, lk_equity = eq,
        lk_reference = (if kind = DAILY_LOSS then ref else water),
        lk_limit_pct = lit_value (if kind = DAILY_LOSS then daily_loss_pct env else drawdown_pct env),
        lk_utc_day = utc_day t, lk_evaluated_on = trigger, lk_tripped_at = t\<rparr>]\<rparr>"

definition eval_locks ::
  "account \<Rightarrow> account_state_t \<Rightarrow> int \<Rightarrow> lock_trigger \<Rightarrow> pilot_db \<Rightarrow> pilot_exn + lock_evaluation \<times> pilot_db" where
  "eval_locks acc st t trigger db =
     (let env = ac_envelope acc; eq = as_equity st in
      bindE (ensure_day_start t eq db) (\<lambda>(ref, db1).
      bindE (raise_high_water t eq db1) (\<lambda>(water, db2).
      bindE (liftM (tripped_locks env (DFin eq) (DFin ref) (DFin water))) (\<lambda>kinds.
      let already = set (map lk_kind (active_locks db2));
          fresh = filter (\<lambda>k. k \<notin> already) kinds;
          db3 = fold (trip_lock env eq ref water t trigger) fresh db2
      in Inr (\<lparr>le_equity = eq, le_day_start = ref, le_high_water = water,
               le_tripped = drop (length (pd_locks db2)) (pd_locks db3), le_active = active_locks db3\<rparr>, db3)))))"

definition evaluate_locks ::
  "pilot_env \<Rightarrow> snapshot list \<Rightarrow> moment \<Rightarrow> observed_quote list \<Rightarrow> pilot_db \<Rightarrow> (pilot_exn + lock_evaluation) \<times> pilot_db" where
  "evaluate_locks pe snaps now qs =
     with_args (bindE (pilot_now now) (\<lambda>t. bindE (check_extra_quotes qs) (\<lambda>extras. Inr (t, extras))))
       (\<lambda>(t, extras). pilot_tx pe (\<lambda>db.
          bindE (require_account pe db) (\<lambda>acc.
          bindE (compute_state snaps extras t acc db) (\<lambda>st.
          eval_locks acc st t MARK db))))"

definition insert_review :: "stored_review \<Rightarrow> pilot_db \<Rightarrow> pilot_exn + pilot_db" where
  "insert_review rv db =
     (if lock_reviewed db (rv_lock_id rv) then Inl sqlite_error
      else if \<not> list_ex (\<lambda>l. lk_lock_id l = rv_lock_id rv) (pd_locks db) then Inl sqlite_error
      else Inr (db\<lparr>pd_reviews := pd_reviews db @ [rv]\<rparr>))"

definition review_work ::
  "pilot_env \<Rightarrow> snapshot list \<Rightarrow> int \<Rightarrow> extra_quote list \<Rightarrow> int \<Rightarrow> string \<Rightarrow> string \<Rightarrow> pilot_db
    \<Rightarrow> pilot_exn + stored_review \<times> pilot_db" where
  "review_work pe snaps t extras lock_id reviewer cause db =
     bindE (require_account pe db) (\<lambda>acc.
     case find (\<lambda>l. int (lk_lock_id l) = lock_id) (pd_locks db) of
       None \<Rightarrow> Inl (PilotStoreError UNKNOWN_LOCK)
     | Some l \<Rightarrow>
         if lock_reviewed db (lk_lock_id l) then Inl (PilotStoreError LOCK_ALREADY_REVIEWED)
         else
           bindE (compute_state snaps extras t acc db) (\<lambda>st.
           let rv = \<lparr>rv_lock_id = lk_lock_id l, rv_reviewer = reviewer, rv_cause = cause,
                     rv_rebase_equity = as_equity st, rv_reviewed_at = t\<rparr>
           in bindE (insert_review rv db) (\<lambda>db1.
              bindE (insert_mark \<lparr>mk_kind = (if lk_kind l = DRAWDOWN then HIGH_WATER else DAY_START),
                  mk_utc_day = (if lk_kind l = DRAWDOWN then None else Some (utc_day t)), mk_equity = as_equity st,
                  mk_source = REVIEW, mk_lock_id = Some (lk_lock_id l), mk_recorded_at = t\<rparr> db1) (\<lambda>db2.
              Inr (rv, db2)))))"

fun require_lock_id :: "pyval \<Rightarrow> pilot_exn + int" where
  "require_lock_id (PInt i) = Inr i"
| "require_lock_id _ = Inl invalid_argument"

definition review_lock ::
  "pilot_env \<Rightarrow> snapshot list \<Rightarrow> pyval \<Rightarrow> pyval \<Rightarrow> pyval \<Rightarrow> moment \<Rightarrow> observed_quote list \<Rightarrow> pilot_db
    \<Rightarrow> (pilot_exn + stored_review) \<times> pilot_db" where
  "review_lock pe snaps lock_id reviewer cause now qs =
     with_args
       (bindE (require_lock_id lock_id) (\<lambda>i. bindE (nonempty reviewer) (\<lambda>r. bindE (nonempty cause) (\<lambda>c.
        bindE (pilot_now now) (\<lambda>t. bindE (check_extra_quotes qs) (\<lambda>extras. Inr (i, r, c, t, extras)))))))
       (\<lambda>(i, r, c, t, extras). pilot_tx pe (review_work pe snaps t extras i r c))"

section \<open>Opening\<close>

definition check_candidate :: "pilot_candidate \<Rightarrow> pilot_exn + pilot_candidate \<times> int" where
  "check_candidate c =
     bindE (guardE (list_all (\<lambda>s. strip s \<noteq> []) [pc_event_id c, pc_run_id c, pc_asset c, pc_pair c, pc_quote c])
       (PilotStoreError INVALID_ROW)) (\<lambda>_.
     case pc_snapshot_ts c of Naive \<Rightarrow> Inl (PilotStoreError INVALID_ROW) | Aware t \<Rightarrow> Inr (c, t))"

text \<open>A computed amount as the \<^verbatim>\<open>Decimal\<close> object that the sizing receives.\<close>

definition decimal_object :: "rat \<Rightarrow> pyval" where
  "decimal_object x = PDec (case normalize RISK_CONTEXT x of (c, e) \<Rightarrow> Lit c e)"

definition plan_candidate ::
  "pilot_env \<Rightarrow> pilot_candidate \<Rightarrow> envelope \<Rightarrow> account_state_t \<Rightarrow> rat \<Rightarrow> pilot_exn + entry_plan" where
  "plan_candidate pe c env st fee =
     (let same_pair = (pc_atr_pair c = PStr (pc_pair c)) in
      bindE (liftM (plan_long_entry env (PStr (pc_quote c)) (pc_bid c) (pc_ask c) (pc_status c)
          (if same_pair then pc_atr c else PNone) (pc_pair_entry c) (decimal_object (as_equity st)) (decimal_object (as_cash st))
          (DFin (as_open_planned_loss st)) (DFin (as_open_notional st)) (DFin fee))) (\<lambda>plan.
      Inr (case ep_no_trade plan of
          Some nt \<Rightarrow>
            if \<not> same_pair \<and> nt_reason nt = NO_VALID_ATR
            then (new_plan (ep_fee_bps plan))\<lparr>ep_no_trade := Some (NoTrade NO_VALID_ATR
                (''pair_mismatch:'' @ pe_repr pe (pc_atr_pair c) @ ''!='' @ pe_repr pe (PStr (pc_pair c)))),
              ep_quote := ep_quote plan\<rparr>
            else plan
        | None \<Rightarrow> plan)))"

fun direction_text :: "pilot_env \<Rightarrow> pyval \<Rightarrow> string" where
  "direction_text pe (PEnum cls name) = (if cls = ''Direction'' then name else pe_repr pe (PEnum cls name))"
| "direction_text pe (PStr s) = (if s = [] then pe_repr pe (PStr s) else s)"
| "direction_text pe v = pe_repr pe v"

definition decision_quote :: "pilot_candidate \<Rightarrow> entry_plan option \<Rightarrow> quote option" where
  "decision_quote c plan =
     (case Option.bind plan ep_quote of
        Some q \<Rightarrow> Some q
      | None \<Rightarrow> (case validate_quote (pc_bid c) (pc_ask c) (pc_status c) of Inl _ \<Rightarrow> None | Inr q \<Rightarrow> Some q))"

definition decision_atr :: "pilot_candidate \<Rightarrow> entry_plan option \<Rightarrow> rat option" where
  "decision_atr c plan =
     (case Option.bind plan ep_atr of
        Some a \<Rightarrow> Some a
      | None \<Rightarrow> (case validate_atr (pc_atr c) of Inl _ \<Rightarrow> None | Inr a \<Rightarrow> Some a))"

definition opened_costs :: "entry_plan option \<Rightarrow> final_costs_t option" where
  "opened_costs plan = (case plan of Some p \<Rightarrow> if opened p then ep_costs p else None | None \<Rightarrow> None)"

definition decision_decimals ::
  "pilot_candidate \<Rightarrow> entry_plan option \<Rightarrow> account_state_t \<Rightarrow> (string \<times> rat option) list" where
  "decision_decimals c plan st =
     (let q = decision_quote c plan; rules = Option.bind plan ep_rules; room = Option.bind plan ep_budget;
          cands = Option.bind plan ep_candidates; costs = opened_costs plan
      in [(''bid'', map_option bid q), (''ask'', map_option ask q), (''atr'', decision_atr c plan),
          (''ordermin'', map_option ordermin rules), (''costmin'', map_option costmin rules),
          (''tick'', map_option tick rules), (''equity'', Some (as_equity st)), (''cash'', Some (as_cash st)),
          (''stop_price'', Option.bind plan ep_stop), (''target_price'', Option.bind plan ep_target),
          (''stress_exit_price'', Option.bind plan ep_stress_exit_price),
          (''loss_per_unit'', Option.bind plan ep_loss_per_unit),
          (''per_entry_loss_cap'', map_option per_entry_loss_cap room),
          (''aggregate_loss_remaining'', map_option aggregate_loss_remaining room),
          (''notional_remaining'', map_option notional_remaining room), (''cash_room'', map_option cash_room room),
          (''qty_per_entry_loss'', map_option cd_per_entry_loss cands),
          (''qty_aggregate_loss'', map_option cd_aggregate_loss cands),
          (''qty_notional'', map_option cd_notional cands), (''qty_cash'', map_option cd_cash cands),
          (''lot_quantity'', Option.bind plan ep_lot_quantity), (''quantity'', map_option fc_quantity costs),
          (''notional'', map_option fc_notional costs), (''planned_loss'', map_option fc_planned_loss costs)])"

definition optional_cents :: "rat option \<Rightarrow> pilot_exn + int option" where
  "optional_cents v = (case v of None \<Rightarrow> Inr None | Some x \<Rightarrow> bindE (to_cents x) (\<lambda>c. Inr (Some c)))"

definition decision_no_trade :: "no_trade option \<Rightarrow> entry_plan option \<Rightarrow> no_trade option" where
  "decision_no_trade refusal plan = (case refusal of Some nt \<Rightarrow> Some nt | None \<Rightarrow> Option.bind plan ep_no_trade)"

definition decision_values ::
  "pilot_env \<Rightarrow> pilot_candidate \<Rightarrow> int \<Rightarrow> no_trade option \<Rightarrow> entry_plan option \<Rightarrow> account_state_t \<Rightarrow> rat \<Rightarrow> string
    \<Rightarrow> int \<Rightarrow> nat \<Rightarrow> pilot_exn + stored_decision" where
  "decision_values pe c entry_ts refusal plan st fee sha t ident =
     (let costs = opened_costs plan; nt = decision_no_trade refusal plan in
      bindE (optional_cents (map_option fc_entry_fee costs)) (\<lambda>entry_fee.
      bindE (optional_cents (map_option fc_exit_fee costs)) (\<lambda>exit_fee.
      Inr \<lparr>sd_decision_id = ident, sd_event_id = pc_event_id c, sd_run_id = pc_run_id c, sd_asset = pc_asset c,
           sd_pair = pc_pair c, sd_quote = pc_quote c, sd_direction = direction_text pe (pc_direction c),
           sd_snapshot_ts = entry_ts, sd_values = decision_decimals c plan st,
           sd_atr_pair = (case pc_atr_pair c of PStr s \<Rightarrow> if s = [] then None else Some s | _ \<Rightarrow> None),
           sd_tick_source = map_option tick_source (Option.bind plan ep_rules),
           sd_lot_decimals = map_option lot_decimals (Option.bind plan ep_rules),
           sd_binding = map_option cd_binding (Option.bind plan ep_candidates),
           sd_passes = (case plan of None \<Rightarrow> 0 | Some p \<Rightarrow> ep_passes p),
           sd_entry_fee_cents = entry_fee, sd_exit_fee_cents = exit_fee, sd_fee_bps = fee, sd_envelope_sha256 = sha,
           sd_outcome = (if nt = None then OPENED else NO_TRADE), sd_reason = map_option nt_reason nt,
           sd_detail = (case nt of None \<Rightarrow> [] | Some n \<Rightarrow> nt_detail n), sd_decided_at = t\<rparr>)))"

definition decision_value :: "stored_decision \<Rightarrow> string \<Rightarrow> rat option" where
  "decision_value d name = Option.bind (map_of (sd_values d) name) id"

definition decision_check :: "stored_decision \<Rightarrow> bool" where
  "decision_check d \<longleftrightarrow>
     sd_direction d \<noteq> [] \<and> length (sd_envelope_sha256 d) = 64
     \<and> (case sd_outcome d of
          OPENED \<Rightarrow> sd_reason d = None \<and> sd_detail d = []
            \<and> list_all (\<lambda>n. decision_value d n \<noteq> None) [''quantity'', ''notional'', ''planned_loss'', ''stop_price'', ''target_price'']
            \<and> sd_entry_fee_cents d \<noteq> None \<and> sd_exit_fee_cents d \<noteq> None
        | NO_TRADE \<Rightarrow> sd_reason d \<noteq> None)
     \<and> (case sd_lot_decimals d of None \<Rightarrow> True | Some n \<Rightarrow> 0 \<le> n)
     \<and> (case sd_entry_fee_cents d of None \<Rightarrow> True | Some c \<Rightarrow> 0 \<le> c)
     \<and> (case sd_exit_fee_cents d of None \<Rightarrow> True | Some c \<Rightarrow> 0 \<le> c)"

definition decided :: "pilot_db \<Rightarrow> string \<Rightarrow> bool" where
  "decided db event_id \<longleftrightarrow> list_ex (\<lambda>d. sd_event_id d = event_id) (pd_decisions db)"

definition insert_decision :: "stored_decision \<Rightarrow> pilot_db \<Rightarrow> pilot_exn + pilot_db" where
  "insert_decision d db =
     (if decided db (sd_event_id d) \<or> \<not> decision_check d then Inl sqlite_error
      else Inr (db\<lparr>pd_decisions := pd_decisions db @ [d]\<rparr>))"

definition insert_position :: "stored_position \<Rightarrow> pilot_db \<Rightarrow> pilot_exn + pilot_db" where
  "insert_position p db =
     (if list_ex (\<lambda>x. sp_decision_id x = sp_decision_id p \<or> sp_event_id x = sp_event_id p) (pd_positions db) then Inl sqlite_error
      else if sp_due_at p \<le> sp_entry_ts p then Inl sqlite_error
      else if \<not> list_ex (\<lambda>d. sd_decision_id d = sp_decision_id p \<and> sd_event_id d = sp_event_id p \<and> sd_outcome d = OPENED)
          (pd_decisions db) then Inl sqlite_error
      else Inr (db\<lparr>pd_positions := pd_positions db @ [p]\<rparr>))"

definition position_row ::
  "nat \<Rightarrow> pilot_candidate \<Rightarrow> int \<Rightarrow> entry_plan \<Rightarrow> int \<Rightarrow> nat \<Rightarrow> pilot_exn + stored_position" where
  "position_row decision_id c entry_ts plan t ident =
     (case (ep_quote plan, ep_levels plan, ep_costs plan, ep_stop plan, ep_target plan, ep_stress_exit_price plan) of
        (Some q, Some levels, Some costs, Some stop, Some target, Some stressed) \<Rightarrow>
          bindE (liftM (entry_cost_basis (DFin (fc_quantity costs)) (DFin (ask q)) (DFin (ep_fee_bps plan)))) (\<lambda>cost_basis.
          bindE (liftM (due_at (Aware entry_ts) (hold_minutes levels))) (\<lambda>due.
          Inr \<lparr>sp_position_id = ident, sp_decision_id = decision_id,
            sp_event_id = pc_event_id c, sp_run_id = pc_run_id c, sp_asset = pc_asset c, sp_pair = pc_pair c,
            sp_quote = pc_quote c, sp_quantity = fc_quantity costs, sp_entry_bid = bid q, sp_entry_ask = ask q,
            sp_entry_ts = entry_ts, sp_due_at = due, sp_fee_bps = ep_fee_bps plan, sp_exit_policy = policy_id levels,
            sp_atr = lv_atr levels, sp_stop = stop, sp_target = target, sp_stress_exit_price = stressed,
            sp_planned_loss = fc_planned_loss costs, sp_notional = fc_notional costs, sp_cost_basis = cost_basis,
            sp_opened_at = t\<rparr>))
      | _ \<Rightarrow> Inl invalid_argument)"

definition write_position ::
  "nat \<Rightarrow> pilot_candidate \<Rightarrow> int \<Rightarrow> entry_plan \<Rightarrow> int \<Rightarrow> pilot_db \<Rightarrow> pilot_exn + pilot_db" where
  "write_position decision_id c entry_ts plan t db =
     bindE (position_row decision_id c entry_ts plan t (Suc (length (pd_positions db)))) (\<lambda>p. insert_position p db)"

fun check_fee :: "decimal \<Rightarrow> pilot_exn + rat" where
  "check_fee (DFin x) = (if x < 0 then Inl invalid_argument else Inr x)"
| "check_fee _ = Inl invalid_argument"

text \<open>What the loop over the candidates carries, besides the database.\<close>

record open_run =
  or_decision_ids :: "nat list"
  or_already :: "string list"
  or_state :: account_state_t

definition judge ::
  "pilot_env \<Rightarrow> account \<Rightarrow> string \<Rightarrow> rat \<Rightarrow> bool \<Rightarrow> lock_kind list \<Rightarrow> account_state_t \<Rightarrow> pilot_candidate
    \<Rightarrow> pilot_exn + no_trade option \<times> entry_plan option" where
  "judge pe acc offered_sha fee engaged kinds st c =
     (let dir = direction_text pe (pc_direction c) in
      if dir \<noteq> ''LONG'' then Inr (Some (NoTrade UNSUPPORTED_DIRECTION dir), None)
      else if offered_sha \<noteq> ac_sha256 acc
      then Inr (Some (NoTrade ENVELOPE_CHANGED (''recorded:'' @ take 12 (ac_sha256 acc))), None)
      else
        bindE (liftM (admission_refusal (ac_envelope acc) (PEnum ''Direction'' ''LONG'') (PBool engaged)
            (map lock_val kinds) (PInt (int (length (as_open_positions st)))))) (\<lambda>refusal.
        case refusal of
          Some nt \<Rightarrow> Inr (Some nt, None)
        | None \<Rightarrow> bindE (plan_candidate pe c (ac_envelope acc) st fee) (\<lambda>plan. Inr (None, Some plan))))"

definition open_step ::
  "pilot_env \<Rightarrow> snapshot list \<Rightarrow> extra_quote list \<Rightarrow> account \<Rightarrow> string \<Rightarrow> rat \<Rightarrow> bool \<Rightarrow> lock_kind list \<Rightarrow> int
    \<Rightarrow> pilot_candidate \<times> int \<Rightarrow> open_run \<times> pilot_db \<Rightarrow> pilot_exn + open_run \<times> pilot_db" where
  "open_step pe snaps extras acc offered_sha fee engaged kinds t cand runs =
     (case cand of (c, entry_ts) \<Rightarrow> case runs of (run, db) \<Rightarrow>
      if decided db (pc_event_id c) then Inr (run\<lparr>or_already := or_already run @ [pc_event_id c]\<rparr>, db)
      else
        bindE (judge pe acc offered_sha fee engaged kinds (or_state run) c) (\<lambda>(refusal, plan).
        let ident = Suc (length (pd_decisions db)) in
        bindE (decision_values pe c entry_ts refusal plan (or_state run) fee offered_sha t ident) (\<lambda>d.
        bindE (insert_decision d db) (\<lambda>db1.
        let run1 = run\<lparr>or_decision_ids := or_decision_ids run @ [ident]\<rparr> in
        case plan of
          Some p \<Rightarrow>
            if opened p
            then bindE (write_position ident c entry_ts p t db1) (\<lambda>db2.
                 bindE (compute_state snaps extras t acc db2) (\<lambda>st. Inr (run1\<lparr>or_state := st\<rparr>, db2)))
            else Inr (run1, db1)
        | None \<Rightarrow> Inr (run1, db1)))))"

record open_report =
  rp_decisions :: "stored_decision list"
  rp_already_recorded :: "string list"
  rp_locks :: lock_evaluation

definition open_work ::
  "pilot_env \<Rightarrow> snapshot list \<Rightarrow> extra_quote list \<Rightarrow> string \<Rightarrow> rat \<Rightarrow> int \<Rightarrow> (pilot_candidate \<times> int) list \<Rightarrow> pilot_db
    \<Rightarrow> pilot_exn + open_report \<times> pilot_db" where
  "open_work pe snaps extras offered_sha fee t checked db =
     bindE (require_account pe db) (\<lambda>acc.
     bindE (compute_state snaps extras t acc db) (\<lambda>st.
     bindE (eval_locks acc st t ENTRY db) (\<lambda>(locks, db1).
     bindE (foldE (open_step pe snaps extras acc offered_sha fee (kill_switch_engaged db1) (active_kinds locks) t) checked
         (\<lparr>or_decision_ids = [], or_already = [], or_state = st\<rparr>, db1)) (\<lambda>(run, db2).
     Inr (\<lparr>rp_decisions = filter (\<lambda>d. sd_decision_id d \<in> set (or_decision_ids run)) (pd_decisions db2),
           rp_already_recorded = or_already run, rp_locks = locks\<rparr>, db2)))))"

definition open_candidates ::
  "pilot_env \<Rightarrow> snapshot list \<Rightarrow> pilot_candidate list \<Rightarrow> envelope \<Rightarrow> decimal \<Rightarrow> moment \<Rightarrow> observed_quote list \<Rightarrow> pilot_db
    \<Rightarrow> (pilot_exn + open_report) \<times> pilot_db" where
  "open_candidates pe snaps candidates env fee_bps now qs =
     with_args
       (bindE (pilot_now now) (\<lambda>t. bindE (check_fee fee_bps) (\<lambda>fee. bindE (check_extra_quotes qs) (\<lambda>extras.
        bindE (mapE check_candidate candidates) (\<lambda>checked. Inr (t, fee, extras, checked))))))
       (\<lambda>(t, fee, extras, checked). pilot_tx pe (open_work pe snaps extras (envelope_sha256 pe env) fee t checked))"

section \<open>Closing\<close>

record found_exit =
  fx_position :: stored_position
  fx_observation :: observation
  fx_reason :: exit_reason

fun first_exit :: "stored_position \<Rightarrow> observation list \<Rightarrow> pilot_exn + found_exit option" where
  "first_exit p [] = Inr None"
| "first_exit p (ob # obs) =
     bindE (liftM (exit_decision LONG (DFin (sp_stop p)) (DFin (sp_target p)) (Aware (sp_due_at p))
         (Aware (ob_observed_at ob)) (ob_quote ob))) (\<lambda>reason.
     case reason of
       Some r \<Rightarrow> Inr (Some \<lparr>fx_position = p, fx_observation = ob, fx_reason = r\<rparr>)
     | None \<Rightarrow> first_exit p obs)"

definition exit_observations :: "snapshot list \<Rightarrow> extra_quote list \<Rightarrow> int \<Rightarrow> stored_position \<Rightarrow> observation list" where
  "exit_observations snaps extras now p =
     sort_key ob_order (spot_observations snaps (sp_pair p) (sp_entry_ts p) now False
       @ extra_observations extras (sp_pair p) (sp_entry_ts p) now False)"

definition find_exit :: "snapshot list \<Rightarrow> extra_quote list \<Rightarrow> int \<Rightarrow> stored_position \<Rightarrow> pilot_exn + found_exit option" where
  "find_exit snaps extras now p = first_exit p (exit_observations snaps extras now p)"

definition insert_exit_quote :: "exit_quote \<Rightarrow> pilot_db \<Rightarrow> pilot_exn + nat \<times> pilot_db" where
  "insert_exit_quote x db =
     (if \<not> list_ex (\<lambda>p. sp_position_id p = xq_position_id x) (pd_positions db) then Inl sqlite_error
      else if xq_source x = [] \<or> xq_source x = SPOT_SNAPSHOT_SOURCE \<or> xq_recorded_at x < xq_observed_at x then Inl sqlite_error
      else Inr (Suc (length (pd_exit_quotes db)), db\<lparr>pd_exit_quotes := pd_exit_quotes db @ [x]\<rparr>))"

definition close_check :: "stored_close \<Rightarrow> bool" where
  "close_check c \<longleftrightarrow>
     0 \<le> sc_record_lag c \<and> 0 \<le> sc_entry_fee_cents c \<and> 0 \<le> sc_exit_fee_cents c \<and> 0 \<le> sc_fees_cents c
     \<and> sc_fees_cents c = sc_entry_fee_cents c + sc_exit_fee_cents c
     \<and> sc_net_cents c = sc_gross_cents c - sc_fees_cents c
     \<and> (case sc_outcome c of WIN \<Rightarrow> 0 < sc_net_cents c | LOSS \<Rightarrow> sc_net_cents c < 0 | FLAT \<Rightarrow> sc_net_cents c = 0)"

definition insert_close :: "stored_close \<Rightarrow> pilot_db \<Rightarrow> pilot_exn + pilot_db" where
  "insert_close c db =
     (if has_close db (sc_position_id c) \<or> \<not> list_ex (\<lambda>p. sp_position_id p = sc_position_id c) (pd_positions db)
         \<or> \<not> close_check c then Inl sqlite_error
      else Inr (db\<lparr>pd_closes := pd_closes db @ [c]\<rparr>))"

text \<open>Where the exit was observed: a spot snapshot, or a quote that is stored with the close.\<close>

definition exit_evidence :: "found_exit \<Rightarrow> int \<Rightarrow> pilot_db \<Rightarrow> pilot_exn + string \<times> int \<times> pilot_db" where
  "exit_evidence fx t db =
     (let p = fx_position fx; ob = fx_observation fx; q = ob_quote ob in
      case ob_extra ob of
        None \<Rightarrow> Inr (SPOT_SNAPSHOT_SOURCE, ob_ident ob, db)
      | Some e \<Rightarrow>
          bindE (insert_exit_quote \<lparr>xq_position_id = sp_position_id p, xq_pair = sp_pair p, xq_bid = bid q, xq_ask = ask q,
              xq_observed_at = ob_observed_at ob, xq_source = eq_source e, xq_recorded_at = t\<rparr> db) (\<lambda>(i, db').
          Inr (eq_source e, int i, db')))"

definition close_row :: "found_exit \<Rightarrow> int \<Rightarrow> settlement \<Rightarrow> string \<Rightarrow> int \<Rightarrow> nat \<Rightarrow> pilot_exn + stored_close" where
  "close_row fx t r source exit_id close_id =
     (let p = fx_position fx; ob = fx_observation fx; q = ob_quote ob; slippage = rsub (sp_stop p) (bid q) in
      bindE (liftM (rdiv slippage (sp_stop p))) (\<lambda>ratio.
      bindE (to_cents (st_gross r)) (\<lambda>gross.
      bindE (to_cents (st_entry_fee r)) (\<lambda>entry_fee.
      bindE (to_cents (st_exit_fee r)) (\<lambda>exit_fee.
      bindE (to_cents (st_fees r)) (\<lambda>fees.
      bindE (to_cents (st_net r)) (\<lambda>net.
      Inr \<lparr>sc_close_id = close_id, sc_position_id = sp_position_id p,
          sc_exit_reason = fx_reason fx, sc_exit_source = source, sc_exit_observation_id = exit_id, sc_exit_bid = bid q,
          sc_exit_ask = ask q, sc_exit_ts = ob_observed_at ob, sc_record_lag = t - ob_observed_at ob,
          sc_quantity = sp_quantity p, sc_gross_cents = gross, sc_entry_fee_cents = entry_fee,
          sc_exit_fee_cents = exit_fee, sc_fees_cents = fees, sc_net_cents = net, sc_outcome = st_outcome r,
          sc_stop = sp_stop p, sc_stop_slippage = slippage, sc_stop_slippage_bps = rmul ratio BPS,
          sc_closed_at = t\<rparr>)))))))"

definition write_close :: "found_exit \<Rightarrow> int \<Rightarrow> pilot_db \<Rightarrow> pilot_exn + nat option \<times> pilot_db" where
  "write_close fx t db =
     (let p = fx_position fx in
      if has_close db (sp_position_id p) then Inr (None, db)
      else
        bindE (liftM (settle_long (DFin (sp_quantity p)) (DFin (sp_entry_ask p)) (DFin (bid (ob_quote (fx_observation fx))))
            (DFin (sp_fee_bps p)))) (\<lambda>r.
        bindE (exit_evidence fx t db) (\<lambda>(source, exit_id, db1).
        bindE (close_row fx t r source exit_id (Suc (length (pd_closes db1)))) (\<lambda>c.
        bindE (insert_close c db1) (\<lambda>db2. Inr (Some (sc_close_id c), db2))))))"

fun check_position_ids :: "pyval list option \<Rightarrow> pilot_exn + int list option" where
  "check_position_ids None = Inr None"
| "check_position_ids (Some vs) =
     bindE (mapE (\<lambda>v. case v of PInt i \<Rightarrow> Inr i | _ \<Rightarrow> Inl invalid_argument) vs) (\<lambda>ids. Inr (Some ids))"

definition wanted :: "int list option \<Rightarrow> stored_position \<Rightarrow> bool" where
  "wanted ids p = (case ids of None \<Rightarrow> True | Some is \<Rightarrow> int (sp_position_id p) \<in> set is)"

text \<open>The read phase, before the transaction: the exits that are due, and the positions that wait for a quote.\<close>

definition collect_exit ::
  "snapshot list \<Rightarrow> extra_quote list \<Rightarrow> int \<Rightarrow> stored_position \<Rightarrow> found_exit list \<times> nat list
    \<Rightarrow> pilot_exn + found_exit list \<times> nat list" where
  "collect_exit snaps extras t p acc =
     bindE (find_exit snaps extras t p) (\<lambda>fx.
     Inr (case fx of
         Some x \<Rightarrow> (fst acc @ [x], snd acc)
       | None \<Rightarrow> if sp_due_at p \<le> t then (fst acc, snd acc @ [sp_position_id p]) else acc))"

definition collect_exits ::
  "snapshot list \<Rightarrow> extra_quote list \<Rightarrow> int \<Rightarrow> int list option \<Rightarrow> pilot_db \<Rightarrow> pilot_exn + found_exit list \<times> nat list" where
  "collect_exits snaps extras t ids db =
     foldE (collect_exit snaps extras t) (filter (wanted ids) (read_open_positions db)) ([], [])"

record close_report =
  cr_closed :: "stored_close list"
  cr_pending :: "nat list"
  cr_locks :: lock_evaluation

definition write_closes :: "found_exit list \<Rightarrow> int \<Rightarrow> pilot_db \<Rightarrow> pilot_exn + nat list \<times> pilot_db" where
  "write_closes exits t db =
     foldE (\<lambda>fx (ids, db). bindE (write_close fx t db) (\<lambda>(i, db'). Inr (case i of None \<Rightarrow> ids | Some n \<Rightarrow> ids @ [n], db')))
       exits ([], db)"

text \<open>The write phase, which may run on a database that other writers changed since the read phase.\<close>

definition close_work ::
  "pilot_env \<Rightarrow> snapshot list \<Rightarrow> extra_quote list \<Rightarrow> int \<Rightarrow> found_exit list \<times> nat list \<Rightarrow> pilot_db
    \<Rightarrow> pilot_exn + close_report \<times> pilot_db" where
  "close_work pe snaps extras t found db =
     bindE (require_account pe db) (\<lambda>acc.
     bindE (write_closes (fst found) t db) (\<lambda>(closed_ids, db1).
     bindE (compute_state snaps extras t acc db1) (\<lambda>st.
     bindE (eval_locks acc st t SETTLE db1) (\<lambda>(locks, db2).
     Inr (\<lparr>cr_closed = filter (\<lambda>c. sc_close_id c \<in> set closed_ids) (pd_closes db2), cr_pending = snd found,
           cr_locks = locks\<rparr>, db2)))))"

definition close_args ::
  "moment \<Rightarrow> observed_quote list \<Rightarrow> pyval list option \<Rightarrow> pilot_exn + int \<times> extra_quote list \<times> int list option" where
  "close_args now qs position_ids =
     bindE (pilot_now now) (\<lambda>t. bindE (check_extra_quotes qs) (\<lambda>extras.
     bindE (check_position_ids position_ids) (\<lambda>ids. Inr (t, extras, ids))))"

definition close_positions ::
  "pilot_env \<Rightarrow> snapshot list \<Rightarrow> moment \<Rightarrow> observed_quote list \<Rightarrow> pyval list option \<Rightarrow> pilot_db
    \<Rightarrow> (pilot_exn + close_report) \<times> pilot_db" where
  "close_positions pe snaps now qs position_ids =
     with_args (close_args now qs position_ids)
       (\<lambda>(t, extras, ids) db.
          if pe_in_transaction pe then (Inl (PilotStoreError OPEN_TRANSACTION), db)
          else (case collect_exits snaps extras t ids db of
              Inl e \<Rightarrow> (Inl e, db)
            | Inr found \<Rightarrow> pilot_tx pe (close_work pe snaps extras t found) db))"

end
