(* ===== verification/Pilot_Safety.thy ===== *)
theory Pilot_Safety
  imports Pilot_Store Risk_Limits
begin

text \<open>
  Safety of the pilot store. Every transaction is shown to be a sequence of elementary changes of the
  database (\<open>pilot_change\<close>), so invariants of the store are proved once, by rule induction over the changes.
  Connections are serialised by SQLite except between the read phase and the write phase of
  \<^verbatim>\<open>close_positions\<close>; the machine \<open>pilot_step\<close> keeps prepared exits so that other writers may run in between.
\<close>

section \<open>Elementary changes\<close>

text \<open>A close copies the position, the observation and the reason that were found.\<close>

definition close_of :: "found_exit \<Rightarrow> int \<Rightarrow> stored_close \<Rightarrow> bool" where
  "close_of fx t c \<longleftrightarrow>
     sc_position_id c = sp_position_id (fx_position fx) \<and> sc_quantity c = sp_quantity (fx_position fx)
     \<and> sc_exit_reason c = fx_reason fx \<and> sc_exit_bid c = bid (ob_quote (fx_observation fx))
     \<and> sc_exit_ask c = ask (ob_quote (fx_observation fx))
     \<and> sc_exit_ts c = ob_observed_at (fx_observation fx) \<and> sc_closed_at c = t \<and> sc_stop c = sp_stop (fx_position fx)
     \<and> (\<exists>r. settle_long (DFin (sp_quantity (fx_position fx))) (DFin (sp_entry_ask (fx_position fx)))
            (DFin (bid (ob_quote (fx_observation fx)))) (DFin (sp_fee_bps (fx_position fx))) = Inr r
          \<and> to_cents (st_net r) = Inr (sc_net_cents c) \<and> sc_outcome c = st_outcome r)"

text \<open>
  What an entry must satisfy: a long position with its stop below and its target above the entry, whose planned loss and
  notional stay inside the EX-1 limits of the equity that its decision records.
\<close>

definition entry_ok :: "stored_decision \<Rightarrow> stored_position \<Rightarrow> bool" where
  "entry_ok d p \<longleftrightarrow>
     0 < sp_quantity p \<and> 0 < sp_stop p \<and> sp_stop p < sp_entry_ask p \<and> sp_entry_ask p < sp_target p
     \<and> 0 < sp_entry_bid p \<and> sp_entry_bid p \<le> sp_entry_ask p
     \<and> (\<exists>eq. decision_value d ''equity'' = Some eq \<and> (representable 48 eq \<longrightarrow> sp_planned_loss p \<le> eq / 400 \<and> sp_notional p \<le> eq / 10))"

text \<open>The elementary changes, given the exits (with their record time) that closes may come from and the reviews that may be recorded.\<close>

inductive pilot_change :: "(found_exit \<times> int) set \<times> stored_review set \<Rightarrow> pilot_db \<Rightarrow> pilot_db \<Rightarrow> bool" for F where
  AccountC: "pd_account db = None \<Longrightarrow> pilot_change F db (db\<lparr>pd_account := Some row\<rparr>)"
| SwitchC: "pilot_change F db (db\<lparr>pd_switches := pd_switches db @ [k]\<rparr>)"
| MarkC: "pilot_change F db (db\<lparr>pd_marks := pd_marks db @ [m]\<rparr>)"
| LockC: "lk_lock_id l = Suc (length (pd_locks db)) \<Longrightarrow> lk_kind l \<notin> lk_kind ` set (active_locks db) \<Longrightarrow>
    pilot_change F db (db\<lparr>pd_locks := pd_locks db @ [l]\<rparr>)"
| ReviewC: "rv \<in> snd F \<Longrightarrow> \<not> lock_reviewed db (rv_lock_id rv) \<Longrightarrow> rv_lock_id rv \<in> lk_lock_id ` set (pd_locks db) \<Longrightarrow>
    pilot_change F db (db\<lparr>pd_reviews := pd_reviews db @ [rv]\<rparr>)"
| DecisionC: "sd_decision_id d = Suc (length (pd_decisions db)) \<Longrightarrow> \<not> decided db (sd_event_id d) \<Longrightarrow>
    decision_check d \<Longrightarrow> sd_outcome d = NO_TRADE \<Longrightarrow>
    pilot_change F db (db\<lparr>pd_decisions := pd_decisions db @ [d]\<rparr>)"
| OpenC: "sd_decision_id d = Suc (length (pd_decisions db)) \<Longrightarrow> \<not> decided db (sd_event_id d) \<Longrightarrow>
    decision_check d \<Longrightarrow> sd_outcome d = OPENED \<Longrightarrow>
    sp_position_id p = Suc (length (pd_positions db)) \<Longrightarrow> sp_decision_id p = sd_decision_id d \<Longrightarrow>
    sp_event_id p = sd_event_id d \<Longrightarrow> sp_entry_ts p < sp_due_at p \<Longrightarrow> entry_ok d p \<Longrightarrow>
    read_open_positions db = [] \<Longrightarrow> active_locks db = [] \<Longrightarrow> \<not> kill_switch_engaged db \<Longrightarrow>
    pilot_change F db (db\<lparr>pd_decisions := pd_decisions db @ [d], pd_positions := pd_positions db @ [p]\<rparr>)"
| ExitQuoteC: "xq_position_id x \<in> sp_position_id ` set (pd_positions db) \<Longrightarrow>
    pilot_change F db (db\<lparr>pd_exit_quotes := pd_exit_quotes db @ [x]\<rparr>)"
| CloseC: "\<not> has_close db (sc_position_id c) \<Longrightarrow> sc_position_id c \<in> sp_position_id ` set (pd_positions db) \<Longrightarrow>
    close_check c \<Longrightarrow> sc_close_id c = Suc (length (pd_closes db)) \<Longrightarrow> (fx, t) \<in> fst F \<Longrightarrow> close_of fx t c \<Longrightarrow>
    pilot_change F db (db\<lparr>pd_closes := pd_closes db @ [c]\<rparr>)"

abbreviation pilot_changes :: "(found_exit \<times> int) set \<times> stored_review set \<Rightarrow> pilot_db \<Rightarrow> pilot_db \<Rightarrow> bool" where
  "pilot_changes F \<equiv> (pilot_change F)\<^sup>*\<^sup>*"

text \<open>A transaction commits the body or leaves the database.\<close>

interpretation ptx: write_discipline "pilot_tx pe"
  by unfold_locales (auto simp: pilot_tx_def body_result_def split: if_splits sum.splits)

lemma liftM_Inr [simp]: "liftM r = Inr x \<longleftrightarrow> r = Inr x"
  by (cases r) (auto simp: liftM_def)

lemma insert_markE: "insert_mark m db = Inr db' \<Longrightarrow> db' = db\<lparr>pd_marks := pd_marks db @ [m]\<rparr>"
  by (auto simp: insert_mark_def split: if_splits)

lemma insert_mark_change: "insert_mark m db = Inr db' \<Longrightarrow> pilot_change F db db'"
  by (auto dest!: insert_markE intro: MarkC)

lemma account_work_changes: "account_work pe env t db = Inr (r, db') \<Longrightarrow> pilot_changes F db db'"
proof -
  assume w: "account_work pe env t db = Inr (r, db')"
  then obtain ex where ex: "read_account pe db = Inr ex" by (auto simp: account_work_def bindE_eq_Inr)
  show ?thesis
  proof (cases ex)
    case (Some a)
    then show ?thesis using w ex by (auto simp: account_work_def)
  next
    case None
    then obtain row db1 m where i: "insert_account row db = Inr db1" "insert_mark m db1 = Inr db'"
      using w ex by (auto simp: account_work_def bindE_eq_Inr)
    then have "pilot_change F db db1" by (auto simp: insert_account_def split: if_splits intro: AccountC)
    then show ?thesis using insert_mark_change[OF i(2)] by (meson r_into_rtranclp rtranclp.rtrancl_into_rtrancl)
  qed
qed

subsection \<open>Lock evaluation\<close>

lemma ensure_day_start_cases:
  assumes "ensure_day_start t eq db = Inr (ref, db')"
  obtains "db' = db" "day_start db (utc_day t) = Some ref"
  | m where "db' = db\<lparr>pd_marks := pd_marks db @ [m]\<rparr>" "ref = eq" "mk_kind m = DAY_START"
      "mk_utc_day m = Some (utc_day t)" "mk_equity m = eq" "day_start db (utc_day t) = None"
  using assms unfolding ensure_day_start_def
  by (auto simp: bindE_eq_Inr split: option.splits dest!: insert_markE)

lemma raise_high_water_cases:
  assumes "raise_high_water t eq db = Inr (water, db')"
  obtains "db' = db" "high_water db = Some water" "next_high_water (DFin water) (DFin eq) = Inr water"
  | m w where "db' = db\<lparr>pd_marks := pd_marks db @ [m]\<rparr>" "mk_kind m = HIGH_WATER" "mk_equity m = water"
      "high_water db = Some w" "next_high_water (DFin w) (DFin eq) = Inr water"
  using assms unfolding raise_high_water_def
  by (auto simp: bindE_eq_Inr split: option.splits if_splits dest!: insert_markE)

lemma trip_lock_other [simp]:
  "pd_account (trip_lock env eq ref water t trigger k db) = pd_account db"
  "pd_decisions (trip_lock env eq ref water t trigger k db) = pd_decisions db"
  "pd_positions (trip_lock env eq ref water t trigger k db) = pd_positions db"
  "pd_closes (trip_lock env eq ref water t trigger k db) = pd_closes db"
  "pd_reviews (trip_lock env eq ref water t trigger k db) = pd_reviews db"
  "pd_switches (trip_lock env eq ref water t trigger k db) = pd_switches db"
  "pd_marks (trip_lock env eq ref water t trigger k db) = pd_marks db"
  "pd_exit_quotes (trip_lock env eq ref water t trigger k db) = pd_exit_quotes db"
  by (simp_all add: trip_lock_def)

text \<open>What a lock evaluation leaves as it was.\<close>

definition gates_kept :: "pilot_db \<Rightarrow> pilot_db \<Rightarrow> bool" where
  "gates_kept db db' \<longleftrightarrow>
     pd_account db' = pd_account db \<and> pd_decisions db' = pd_decisions db \<and> pd_positions db' = pd_positions db
     \<and> pd_closes db' = pd_closes db \<and> pd_reviews db' = pd_reviews db \<and> pd_switches db' = pd_switches db
     \<and> pd_exit_quotes db' = pd_exit_quotes db \<and> set (active_locks db) \<subseteq> set (active_locks db')"

lemma lock_reviewed_cong: "pd_reviews db' = pd_reviews db \<Longrightarrow> lock_reviewed db' i = lock_reviewed db i"
  by (simp add: lock_reviewed_def)

lemma active_locks_trip:
  "active_locks (trip_lock env eq ref water t trigger k db) =
     active_locks db @ filter (\<lambda>l. \<not> lock_reviewed db (lk_lock_id l))
       [\<lparr>lk_lock_id = Suc (length (pd_locks db)), lk_kind = k, lk_equity = eq,
        lk_reference = (if k = DAILY_LOSS then ref else water),
        lk_limit_pct = lit_value (if k = DAILY_LOSS then daily_loss_pct env else drawdown_pct env),
        lk_utc_day = utc_day t, lk_evaluated_on = trigger, lk_tripped_at = t\<rparr>]"
  by (simp add: active_locks_def trip_lock_def lock_reviewed_def)

lemma trip_locks_changes:
  "distinct ks \<Longrightarrow> set ks \<inter> lk_kind ` set (active_locks db) = {} \<Longrightarrow>
     pilot_changes F db (fold (trip_lock env eq ref water t trigger) ks db)
     \<and> gates_kept db (fold (trip_lock env eq ref water t trigger) ks db)"
proof (induction ks arbitrary: db)
  case Nil
  then show ?case by (simp add: gates_kept_def)
next
  case (Cons k ks)
  let ?d = "trip_lock env eq ref water t trigger k db"
  have c: "pilot_change F db ?d" unfolding trip_lock_def using Cons.prems by (intro LockC) auto
  have k: "gates_kept db ?d" by (auto simp: gates_kept_def active_locks_trip)
  have "set ks \<inter> lk_kind ` set (active_locks ?d) = {}" using Cons.prems by (auto simp: active_locks_trip)
  with Cons have "pilot_changes F ?d (fold (trip_lock env eq ref water t trigger) ks ?d)"
    "gates_kept ?d (fold (trip_lock env eq ref water t trigger) ks ?d)" by auto
  then show ?case using c k by (auto simp: gates_kept_def intro: converse_rtranclp_into_rtranclp)
qed

lemma tripped_locks_distinct: "tripped_locks env eq ref water = Inr ks \<Longrightarrow> distinct ks"
  by (auto simp: tripped_locks_def bindE_eq_Inr Let_def split: if_splits)

lemma marks_kept: "gates_kept db (db\<lparr>pd_marks := ms\<rparr>)"
  by (simp add: gates_kept_def active_locks_def lock_reviewed_def)

lemma gates_kept_trans: "gates_kept a b \<Longrightarrow> gates_kept b c \<Longrightarrow> gates_kept a c"
  unfolding gates_kept_def by auto

lemma gates_kept_refl: "gates_kept db db" by (simp add: gates_kept_def)

lemma ensure_day_start_kept:
  assumes "ensure_day_start t eq db = Inr (ref, db')"
  shows "pilot_changes F db db' \<and> gates_kept db db'"
  using assms by (cases rule: ensure_day_start_cases) (auto simp: gates_kept_refl marks_kept intro: MarkC)

lemma raise_high_water_kept:
  assumes "raise_high_water t eq db = Inr (water, db')"
  shows "pilot_changes F db db' \<and> gates_kept db db'"
  using assms by (cases rule: raise_high_water_cases) (auto simp: gates_kept_refl marks_kept intro: MarkC)

lemma eval_locks_kept:
  assumes "eval_locks acc st t trigger db = Inr (ev, db')"
  shows "pilot_changes F db db' \<and> gates_kept db db' \<and> le_active ev = active_locks db'"
proof -
  obtain ref db1 water db2 ks where
    d: "ensure_day_start t (as_equity st) db = Inr (ref, db1)" and
    h: "raise_high_water t (as_equity st) db1 = Inr (water, db2)" and
    k: "tripped_locks (ac_envelope acc) (DFin (as_equity st)) (DFin ref) (DFin water) = Inr ks" and
    e: "db' = fold (trip_lock (ac_envelope acc) (as_equity st) ref water t trigger)
       (filter (\<lambda>k. k \<notin> set (map lk_kind (active_locks db2))) ks) db2" "le_active ev = active_locks db'"
    using assms by (auto simp: eval_locks_def bindE_eq_Inr Let_def)
  have "distinct (filter (\<lambda>k. k \<notin> set (map lk_kind (active_locks db2))) ks)"
    using tripped_locks_distinct[OF k] by simp
  then have "pilot_changes F db2 db' \<and> gates_kept db2 db'" unfolding e(1) by (intro trip_locks_changes) auto
  then show ?thesis using ensure_day_start_kept[OF d] raise_high_water_kept[OF h] e(2) gates_kept_trans
    by (meson rtranclp_trans)
qed

subsection \<open>Opening\<close>

text \<open>A judgement without refusal passed every gate of the account.\<close>

lemma admission_free:
  assumes "admission_refusal env (PEnum ''Direction'' ''LONG'') (PBool engaged) (map lock_val kinds) (PInt (int n)) = Inr None"
    and "max_positions env = 1"
  shows "\<not> engaged" "kinds = []" "n = 0"
proof -
  have a: "the (as_lock (lock_val k)) = k" for k by (cases k) auto
  have set: "(\<lambda>l. the (as_lock l)) ` lock_val ` set kinds = set kinds" by (simp add: image_image a)
  show "\<not> engaged" using assms by (auto simp: admission_refusal_def bindE_eq_Inr Let_def is_long_def split: if_splits)
  have "DAILY_LOSS \<notin> set kinds \<and> DRAWDOWN \<notin> set kinds"
    using assms set by (auto simp: admission_refusal_def bindE_eq_Inr Let_def is_long_def image_image a split: if_splits)
  then show "kinds = []" by (metis list.set_intros(1) lock_kind.exhaust list.exhaust)
  show "n = 0" using assms by (auto simp: admission_refusal_def bindE_eq_Inr Let_def is_long_def split: if_splits)
qed

lemma judge_cases [consumes 2, case_names refused planned]:
  assumes "judge pe acc sha fee engaged kinds st c = Inr (refusal, plan)" and "max_positions (ac_envelope acc) = 1"
  obtains nt where "refusal = Some nt" "plan = None"
  | p where "refusal = None" "plan = Some p" "plan_candidate pe c (ac_envelope acc) st fee = Inr p"
      "\<not> engaged" "kinds = []" "as_open_positions st = []" "sha = ac_sha256 acc"
      "direction_text pe (pc_direction c) = ''LONG''"
proof (cases "direction_text pe (pc_direction c) = ''LONG'' \<and> sha = ac_sha256 acc")
  case False
  then show thesis using assms(1) that(1) by (auto simp: judge_def Let_def split: if_splits)
next
  case True
  then obtain r where r: "admission_refusal (ac_envelope acc) (PEnum ''Direction'' ''LONG'') (PBool engaged)
            (map lock_val kinds) (PInt (int (length (as_open_positions st)))) = Inr r"
    and rest: "(case r of Some nt \<Rightarrow> Inr (Some nt, None)
        | None \<Rightarrow> bindE (plan_candidate pe c (ac_envelope acc) st fee) (\<lambda>plan. Inr (None, Some plan))) = Inr (refusal, plan)"
    using assms(1) by (auto simp: judge_def Let_def bindE_eq_Inr)
  show thesis
  proof (cases r)
    case (Some nt)
    then show ?thesis using rest that(1) by auto
  next
    case None
    note f = admission_free[OF r[unfolded None] assms(2)]
    show ?thesis using rest None f True that(2) by (auto simp: bindE_eq_Inr)
  qed
qed

lemma decision_valuesE:
  assumes "decision_values pe c ts refusal plan st fee sha t ident = Inr d"
  shows "sd_decision_id d = ident" "sd_event_id d = pc_event_id c"
    "sd_outcome d = (if decision_no_trade refusal plan = None then OPENED else NO_TRADE)"
    "sd_values d = decision_decimals c plan st" "sd_envelope_sha256 d = sha" "sd_pair d = pc_pair c"
    "sd_reason d = map_option nt_reason (decision_no_trade refusal plan)" "sd_decided_at d = t"
  using assms by (auto simp: decision_values_def bindE_eq_Inr Let_def)

lemma insert_decisionE:
  "insert_decision d db = Inr db' \<Longrightarrow>
     \<not> decided db (sd_event_id d) \<and> decision_check d \<and> db' = db\<lparr>pd_decisions := pd_decisions db @ [d]\<rparr>"
  by (auto simp: insert_decision_def split: if_splits)

lemma position_rowE:
  assumes "position_row ident c ts plan t n = Inr p"
  obtains q levels costs stop target stressed where
    "ep_quote plan = Some q" "ep_levels plan = Some levels" "ep_costs plan = Some costs" "ep_stop plan = Some stop"
    "ep_target plan = Some target" "ep_stress_exit_price plan = Some stressed" "sp_position_id p = n"
    "sp_decision_id p = ident" "sp_event_id p = pc_event_id c" "sp_entry_ts p = ts"
    "sp_quantity p = fc_quantity costs" "sp_stop p = stop" "sp_target p = target" "sp_entry_ask p = ask q"
    "sp_planned_loss p = fc_planned_loss costs" "sp_notional p = fc_notional costs" "sp_pair p = pc_pair c"
    "sp_opened_at p = t" "sp_fee_bps p = ep_fee_bps plan" "sp_entry_bid p = bid q"
proof -
  obtain q levels costs stop target stressed where o: "ep_quote plan = Some q" "ep_levels plan = Some levels"
    "ep_costs plan = Some costs" "ep_stop plan = Some stop" "ep_target plan = Some target" "ep_stress_exit_price plan = Some stressed"
    using assms unfolding position_row_def by (auto split: option.splits)
  show thesis using assms that[OF o] unfolding position_row_def o prod.case option.case bindE_eq_Inr by fastforce
qed

lemma insert_positionE:
  "insert_position p db = Inr db' \<Longrightarrow> sp_entry_ts p < sp_due_at p \<and> db' = db\<lparr>pd_positions := pd_positions db @ [p]\<rparr>"
  by (auto simp: insert_position_def split: if_splits)

lemma write_positionE:
  assumes "write_position ident c ts plan t db = Inr db'"
  obtains p where "position_row ident c ts plan t (Suc (length (pd_positions db))) = Inr p"
    "db' = db\<lparr>pd_positions := pd_positions db @ [p]\<rparr>" "sp_entry_ts p < sp_due_at p"
  using assms unfolding write_position_def bindE_eq_Inr by (auto dest: insert_positionE)

text \<open>One candidate: it was decided before, or it is refused, or it opens the only position.\<close>

lemma open_step_cases [consumes 2, case_names already no_trade opens]:
  assumes "open_step pe snaps extras acc sha fee engaged kinds t (c, ts) (run, db) = Inr (run', db')"
    and "max_positions (ac_envelope acc) = 1"
  obtains "decided db (pc_event_id c)" "db' = db" "run' = run\<lparr>or_already := or_already run @ [pc_event_id c]\<rparr>"
  | d refusal plan where "judge pe acc sha fee engaged kinds (or_state run) c = Inr (refusal, plan)"
      "decision_values pe c ts refusal plan (or_state run) fee sha t (Suc (length (pd_decisions db))) = Inr d"
      "sd_outcome d = NO_TRADE" "\<not> decided db (sd_event_id d)" "decision_check d"
      "db' = db\<lparr>pd_decisions := pd_decisions db @ [d]\<rparr>"
      "run' = run\<lparr>or_decision_ids := or_decision_ids run @ [sd_decision_id d]\<rparr>"
  | d pl st where "plan_candidate pe c (ac_envelope acc) (or_state run) fee = Inr pl" "opened pl"
      "decision_values pe c ts None (Some pl) (or_state run) fee sha t (Suc (length (pd_decisions db))) = Inr d"
      "sd_outcome d = OPENED" "\<not> decided db (sd_event_id d)" "decision_check d"
      "\<not> engaged" "kinds = []" "as_open_positions (or_state run) = []" "sha = ac_sha256 acc"
      "write_position (sd_decision_id d) c ts pl t (db\<lparr>pd_decisions := pd_decisions db @ [d]\<rparr>) = Inr db'"
      "compute_state snaps extras t acc db' = Inr st"
      "run' = run\<lparr>or_decision_ids := or_decision_ids run @ [sd_decision_id d], or_state := st\<rparr>"
proof (cases "decided db (pc_event_id c)")
  case True
  then have "run' = run\<lparr>or_already := or_already run @ [pc_event_id c]\<rparr> \<and> db' = db"
    using assms(1) by (simp add: open_step_def eq_commute)
  then show thesis using True that(1) by blast
next
  case False
  let ?id = "Suc (length (pd_decisions db))"
  obtain refusal plan d db1 where
    j: "judge pe acc sha fee engaged kinds (or_state run) c = Inr (refusal, plan)" and
    v: "decision_values pe c ts refusal plan (or_state run) fee sha t ?id = Inr d" and
    i: "insert_decision d db = Inr db1" and
    rest: "(let run1 = run\<lparr>or_decision_ids := or_decision_ids run @ [?id]\<rparr> in
        case plan of
          Some p \<Rightarrow>
            if opened p
            then bindE (write_position ?id c ts p t db1) (\<lambda>db2.
                 bindE (compute_state snaps extras t acc db2) (\<lambda>st. Inr (run1\<lparr>or_state := st\<rparr>, db2)))
            else Inr (run1, db1)
        | None \<Rightarrow> Inr (run1, db1)) = Inr (run', db')"
    using assms(1) False by (auto simp: open_step_def bindE_eq_Inr Let_def)
  note dv = decision_valuesE[OF v] and di = insert_decisionE[OF i]
  from j assms(2) show thesis
  proof (cases rule: judge_cases)
    case (refused nt)
    then show ?thesis using that(2)[OF j v] rest dv(1,3) di by (simp add: decision_no_trade_def)
  next
    case (planned p)
    show ?thesis
    proof (cases "opened p")
      case True
      then have "decision_no_trade refusal plan = None" using planned by (simp add: decision_no_trade_def opened_def)
      then show ?thesis using that(3)[OF planned(3) True _ _ _ _ planned(4,5,6,7)] rest dv di v True planned(1,2)
        by (auto simp: bindE_eq_Inr Let_def)
    next
      case no: False
      then have "decision_no_trade refusal plan \<noteq> None" using planned by (simp add: decision_no_trade_def opened_def)
      then show ?thesis using that(2)[OF j v] rest dv(1,3) di no planned(2) by simp
    qed
  qed
qed

subsection \<open>Entries\<close>

lemma strip_zeros_value: "(case strip_zeros k e of (c, e') \<Rightarrow> dec_value c e') = dec_value k e"
proof (induction k e rule: strip_zeros.induct)
  case (1 k e)
  show ?case
  proof (cases "k \<noteq> 0 \<and> k mod 10 = 0")
    case True
    then have "k = 10 * (k div 10)" by auto
    then have "dec_value k e = dec_value (k div 10) (e + 1)"
      unfolding dec_value_def by (subst (1) \<open>k = 10 * (k div 10)\<close>) (simp add: power_int_add)
    then show ?thesis using 1[OF True] True by (subst strip_zeros.simps) simp
  next
    case False
    then show ?thesis by (subst strip_zeros.simps) auto
  qed
qed

lemma decimal_object_value:
  assumes "decimal_object x = PDec l"
  shows "literal_decimal l = DFin (ctx_fix RISK_CONTEXT x)"
proof (cases "x = 0")
  case True
  then show ?thesis using assms
    by (auto simp: decimal_object_def normalize_def ctx_fix_def sig_round_def rm.sig_zero dec_value_def)
next
  case False
  let ?e = "adjusted x + 1 - int (prec RISK_CONTEXT)"
  obtain c e where l: "strip_zeros (round_int (ctx_rounding RISK_CONTEXT) (x / 10 powi ?e)) ?e = (c, e)" "l = Lit c e"
    using assms False by (auto simp: decimal_object_def normalize_def Let_def split: prod.splits)
  have "dec_value c e = dec_value (round_int (ctx_rounding RISK_CONTEXT) (x / 10 powi ?e)) ?e"
    using strip_zeros_value[of "round_int (ctx_rounding RISK_CONTEXT) (x / 10 powi ?e)" ?e] l(1) by simp
  then show ?thesis using False l(2) by (simp add: ctx_fix_def sig_round_def sig_with_def dec_value_def Let_def)
qed

lemma plan_candidate_opened:
  assumes "plan_candidate pe c env st fee = Inr pl" and "opened pl"
  shows "\<exists>atr. plan_long_entry env (PStr (pc_quote c)) (pc_bid c) (pc_ask c) (pc_status c) atr (pc_pair_entry c)
      (decimal_object (as_equity st)) (decimal_object (as_cash st)) (DFin (as_open_planned_loss st)) (DFin (as_open_notional st)) (DFin fee)
    = Inr pl"
  using assms
  by (auto simp: plan_candidate_def bindE_eq_Inr opened_def Let_def split: option.splits if_splits)

lemma plan_opened_target:
  assumes "plan_long_entry env cur b a status atr entry eqv cashv opl onl fee_bps = Inr plan" and "opened plan"
  shows "\<exists>q target. ep_quote plan = Some q \<and> ep_target plan = Some target \<and> ask q < target"
  using assms
proof (cases rule: plan_long_entry_opened)
  case p: (1 fee checked catr rules eq csh)
  from p(10) assms(2) show ?thesis
  proof (cases rule: plan_levels_opened)
    case l: (1 levels stop target p1)
    from l(10) assms(2) show ?thesis
      by (cases rule: plan_size_opened) (use l(6,9) in simp)
  qed
qed

lemma final_costs_quantity: "final_costs q a st fee = Inr costs \<Longrightarrow> fc_quantity costs = q"
  by (auto simp: final_costs_def bindE_eq_Inr Let_def)

lemma decision_equity:
  "sd_values d = decision_decimals c plan st \<Longrightarrow> decision_value d ''equity'' = Some (as_equity st)"
  by (simp add: decision_value_def decision_decimals_def Let_def)

lemma opened_entry_ok:
  assumes "make_envelope a = Inr env" and "plan_candidate pe c env st fee = Inr pl" and "opened pl"
    and "position_row ident c ts pl t n = Inr p" and "sd_values d = decision_decimals c plan st"
  shows "entry_ok d p"
proof -
  obtain e l where obj: "decimal_object (as_equity st) = PDec e" "decimal_object (as_cash st) = PDec l"
    by (auto simp: decimal_object_def)
  then obtain atr where pl: "plan_long_entry env (PStr (pc_quote c)) (pc_bid c) (pc_ask c) (pc_status c) atr (pc_pair_entry c)
      (PDec e) (PDec l) (DFin (as_open_planned_loss st)) (DFin (as_open_notional st)) (DFin fee) = Inr pl"
    using plan_candidate_opened[OF assms(2,3)] by auto
  note val = decimal_object_value[OF obj(1)] decimal_object_value[OF obj(2)]
  from pl assms(3) show ?thesis
  proof (cases rule: plan_opened_budget)
    case b: (1 q qty fee' room costs stop)
    obtain target where tgt: "ep_target pl = Some target" "ask q < target"
      using plan_opened_target[OF pl assms(3)] b(1) by auto
    note row = assms(4)
    have p: "sp_quantity p = qty" "sp_stop p = stop" "sp_target p = target" "sp_entry_ask p = ask q" "sp_entry_bid p = bid q"
      "sp_planned_loss p = fc_planned_loss costs" "sp_notional p = fc_notional costs"
      using row final_costs_quantity[OF b(14)] b(1,3,4) tgt(1) by (auto elim!: position_rowE)
    have limits: "fc_planned_loss costs \<le> as_equity st / 400 \<and> fc_notional costs \<le> as_equity st / 10"
      if r: "representable 48 (as_equity st)"
    proof -
      have "representable 50 (as_equity st)" using r by (rule representable_mono) simp
      then have "ctx_fix RISK_CONTEXT (as_equity st) = as_equity st" by (intro ctx_fix_exact) auto
      then have "budget env (DFin (as_equity st)) (DFin (ctx_fix RISK_CONTEXT (as_cash st))) (DFin (as_open_planned_loss st))
          (DFin (as_open_notional st)) = Inr room" using b(13) val by simp
      from budget_ex1[OF assms(1) this r] show ?thesis using b(15) by (auto simp: fits_def)
    qed
    show ?thesis unfolding entry_ok_def p using b(5-8,11) tgt(2) limits decision_equity[OF assms(5)] by auto
  qed
qed

text \<open>What the loop over the candidates keeps true.\<close>

definition open_ready :: "bool \<Rightarrow> lock_kind list \<Rightarrow> open_run \<times> pilot_db \<Rightarrow> bool" where
  "open_ready engaged kinds runs \<longleftrightarrow>
     as_open_positions (or_state (fst runs)) = read_open_positions (snd runs)
     \<and> engaged = kill_switch_engaged (snd runs) \<and> set kinds = lk_kind ` set (active_locks (snd runs))"

lemma compute_state_open: "compute_state snaps extras t acc db = Inr st \<Longrightarrow> as_open_positions st = read_open_positions db"
  by (auto simp: compute_state_def bindE_eq_Inr Let_def)

lemma gates_of_tables:
  "kill_switch_engaged (db\<lparr>pd_decisions := ds\<rparr>) = kill_switch_engaged db"
  "kill_switch_engaged (db\<lparr>pd_positions := ps\<rparr>) = kill_switch_engaged db"
  "active_locks (db\<lparr>pd_decisions := ds\<rparr>) = active_locks db"
  "active_locks (db\<lparr>pd_positions := ps\<rparr>) = active_locks db"
  "read_open_positions (db\<lparr>pd_decisions := ds\<rparr>) = read_open_positions db"
  by (simp_all add: kill_switch_engaged_def active_locks_def lock_reviewed_def read_open_positions_def has_close_def)

lemma require_account_envelope:
  assumes "require_account pe db = Inr acc"
  shows "\<exists>a. make_envelope a = Inr (ac_envelope acc)"
proof -
  obtain j where "parse_envelope j = Inr (ac_envelope acc)"
    using assms by (auto simp: require_account_def read_account_def bindE_eq_Inr split: option.splits if_splits)
  then obtain ms where "envelope_of_members ms = Inr (ac_envelope acc)"
    by (auto simp: parse_envelope_def bindE_eq_Inr split: option.splits json.splits if_splits)
  moreover have "make_envelope x = Inr e" if "(case make_envelope x of Inl _ \<Rightarrow> Inl malformed | Inr env \<Rightarrow> Inr env) = Inr e" for x e
    using that by (cases "make_envelope x") auto
  ultimately show ?thesis unfolding envelope_of_members_def bindE_eq_Inr by blast
qed

lemma open_step_changes:
  assumes "open_step pe snaps extras acc sha fee engaged kinds t cand runs = Inr runs'"
    and "make_envelope a = Inr (ac_envelope acc)" and "open_ready engaged kinds runs"
  shows "pilot_changes F (snd runs) (snd runs') \<and> open_ready engaged kinds runs'"
proof -
  obtain c ts run db run' db' where [simp]: "cand = (c, ts)" "runs = (run, db)" "runs' = (run', db')"
    by (cases cand; cases runs; cases runs') auto
  from assms(1)[simplified] make_envelope_limits(13)[OF assms(2)] show ?thesis
  proof (cases rule: open_step_cases)
    case already
    then show ?thesis using assms(3) by (simp add: open_ready_def)
  next
    case (no_trade d refusal plan)
    have "pilot_change F db db'" unfolding no_trade(6)
      using no_trade decision_valuesE(1)[OF no_trade(2)] by (intro DecisionC) auto
    then show ?thesis using assms(3) no_trade(6,7) by (simp add: open_ready_def gates_of_tables r_into_rtranclp)
  next
    case (opens d pl st)
    obtain pos where row: "position_row (sd_decision_id d) c ts pl t (Suc (length (pd_positions db))) = Inr pos"
      and pos: "db' = db\<lparr>pd_decisions := pd_decisions db @ [d], pd_positions := pd_positions db @ [pos]\<rparr>"
        "sp_entry_ts pos < sp_due_at pos"
      using opens(11) by (rule write_positionE) auto
    have ids: "sp_position_id pos = Suc (length (pd_positions db))" "sp_decision_id pos = sd_decision_id d"
      "sp_event_id pos = pc_event_id c" using row by (auto elim: position_rowE)
    note v = decision_valuesE[OF opens(3)]
    note ok = opened_entry_ok[OF assms(2) opens(1,2) row v(4)]
    have "pilot_change F db db'" unfolding pos(1)
      using opens pos ids ok v assms(3) by (intro OpenC) (auto simp: open_ready_def)
    then show ?thesis using assms(3) opens(13) compute_state_open[OF opens(12)] pos(1)
      by (simp add: open_ready_def gates_of_tables r_into_rtranclp)
  qed
qed

lemma require_account_single: "require_account pe db = Inr acc \<Longrightarrow> max_positions (ac_envelope acc) = 1"
  using require_account_envelope make_envelope_limits(13) by blast

lemma set_active_kinds: "set (active_kinds ev) = lk_kind ` set (le_active ev)"
  by (simp add: active_kinds_def)

lemma open_work_split:
  assumes "open_work pe snaps extras sha fee t checked db = Inr (rep, db')"
  obtains acc st locks db1 run where "require_account pe db = Inr acc" "compute_state snaps extras t acc db = Inr st"
    "eval_locks acc st t ENTRY db = Inr (locks, db1)"
    "foldE (open_step pe snaps extras acc sha fee (kill_switch_engaged db1) (active_kinds locks) t) checked
       (\<lparr>or_decision_ids = [], or_already = [], or_state = st\<rparr>, db1) = Inr (run, db')"
    "open_ready (kill_switch_engaged db1) (active_kinds locks) (\<lparr>or_decision_ids = [], or_already = [], or_state = st\<rparr>, db1)"
    "rp_locks rep = locks" "rp_already_recorded rep = or_already run"
    "rp_decisions rep = filter (\<lambda>d. sd_decision_id d \<in> set (or_decision_ids run)) (pd_decisions db')"
proof -
  obtain acc st locks db1 run where w: "require_account pe db = Inr acc" "compute_state snaps extras t acc db = Inr st"
    "eval_locks acc st t ENTRY db = Inr (locks, db1)"
    "foldE (open_step pe snaps extras acc sha fee (kill_switch_engaged db1) (active_kinds locks) t) checked
       (\<lparr>or_decision_ids = [], or_already = [], or_state = st\<rparr>, db1) = Inr (run, db')"
    "rp_locks rep = locks" "rp_already_recorded rep = or_already run"
    "rp_decisions rep = filter (\<lambda>d. sd_decision_id d \<in> set (or_decision_ids run)) (pd_decisions db')"
    using assms by (auto simp: open_work_def bindE_eq_Inr)
  note k = eval_locks_kept[OF w(3)]
  have "read_open_positions db1 = read_open_positions db"
    using k by (simp add: gates_kept_def read_open_positions_def has_close_def)
  then have "open_ready (kill_switch_engaged db1) (active_kinds locks) (\<lparr>or_decision_ids = [], or_already = [], or_state = st\<rparr>, db1)"
    using k compute_state_open[OF w(2)] by (simp add: open_ready_def set_active_kinds)
  then show thesis using that[OF w(1-4) _ w(5-7)] by simp
qed

lemma open_work_changes:
  assumes "open_work pe snaps extras sha fee t checked db = Inr (rep, db')"
  shows "pilot_changes F db db'"
  using assms
proof (rule open_work_split)
  fix acc st locks db1 run
  assume a: "require_account pe db = Inr acc" "eval_locks acc st t ENTRY db = Inr (locks, db1)"
    and f: "foldE (open_step pe snaps extras acc sha fee (kill_switch_engaged db1) (active_kinds locks) t) checked
       (\<lparr>or_decision_ids = [], or_already = [], or_state = st\<rparr>, db1) = Inr (run, db')"
    and r: "open_ready (kill_switch_engaged db1) (active_kinds locks) (\<lparr>or_decision_ids = [], or_already = [], or_state = st\<rparr>, db1)"
  obtain e where e: "make_envelope e = Inr (ac_envelope acc)" using require_account_envelope[OF a(1)] by blast
  let ?P = "\<lambda>runs. pilot_changes F db1 (snd runs) \<and> open_ready (kill_switch_engaged db1) (active_kinds locks) runs"
  have "?P (run, db')"
    using f
  proof (rule foldE_invariant)
    show "?P (\<lparr>or_decision_ids = [], or_already = [], or_state = st\<rparr>, db1)" using r by simp
    show "?P u" if "?P s" "open_step pe snaps extras acc sha fee (kill_switch_engaged db1) (active_kinds locks) t x s = Inr u" for x s u
      using that open_step_changes[OF that(2) e] by (meson rtranclp_trans)
  qed
  then show "pilot_changes F db db'" using eval_locks_kept[OF a(2), where F = F] by (auto intro: rtranclp_trans)
qed

subsection \<open>Closing\<close>

lemma insert_closeE:
  "insert_close c db = Inr db' \<Longrightarrow> \<not> has_close db (sc_position_id c) \<and> sc_position_id c \<in> sp_position_id ` set (pd_positions db)
     \<and> close_check c \<and> db' = db\<lparr>pd_closes := pd_closes db @ [c]\<rparr>"
  by (auto simp: insert_close_def list_ex_iff split: if_splits intro: rev_image_eqI[OF _ sym])

lemma insert_exit_quoteE:
  "insert_exit_quote x db = Inr (i, db') \<Longrightarrow> xq_position_id x \<in> sp_position_id ` set (pd_positions db)
     \<and> db' = db\<lparr>pd_exit_quotes := pd_exit_quotes db @ [x]\<rparr>"
  by (auto simp: insert_exit_quote_def list_ex_iff split: if_splits intro: rev_image_eqI[OF _ sym])

lemma close_rowE:
  assumes "close_row fx t r source exit_id ident = Inr c"
    and "settle_long (DFin (sp_quantity (fx_position fx))) (DFin (sp_entry_ask (fx_position fx)))
          (DFin (bid (ob_quote (fx_observation fx)))) (DFin (sp_fee_bps (fx_position fx))) = Inr r"
  shows "close_of fx t c \<and> sc_close_id c = ident"
  using assms(1) unfolding close_row_def Let_def bindE_eq_Inr close_of_def by (auto simp: assms(2))

lemma exit_evidenceE:
  assumes "exit_evidence fx t db = Inr (source, exit_id, db1)"
  obtains qs where "db1 = db\<lparr>pd_exit_quotes := pd_exit_quotes db @ qs\<rparr>"
    "list_all (\<lambda>x. xq_position_id x = sp_position_id (fx_position fx)) qs" "length qs \<le> 1"
proof (cases "ob_extra (fx_observation fx)")
  case None
  then show thesis using assms that[of "[]"] by (simp add: exit_evidence_def)
next
  case (Some e)
  then obtain x where "db1 = db\<lparr>pd_exit_quotes := pd_exit_quotes db @ [x]\<rparr>" "xq_position_id x = sp_position_id (fx_position fx)"
    using assms by (auto simp: exit_evidence_def bindE_eq_Inr Let_def dest!: insert_exit_quoteE)
  then show thesis using that[of "[x]"] by simp
qed

lemma write_close_cases [consumes 1, case_names skipped closed]:
  assumes "write_close fx t db = Inr (res, db')"
  obtains "has_close db (sp_position_id (fx_position fx))" "db' = db" "res = None"
  | qs c where "db' = db\<lparr>pd_exit_quotes := pd_exit_quotes db @ qs, pd_closes := pd_closes db @ [c]\<rparr>"
      "\<not> has_close db (sc_position_id c)" "sc_position_id c \<in> sp_position_id ` set (pd_positions db)"
      "close_check c" "sc_close_id c = Suc (length (pd_closes db))" "close_of fx t c" "res = Some (sc_close_id c)"
      "list_all (\<lambda>x. xq_position_id x = sc_position_id c) qs" "length qs \<le> 1"
proof (cases "has_close db (sp_position_id (fx_position fx))")
  case True
  then have "res = None \<and> db' = db" using assms by (simp add: write_close_def eq_commute)
  then show thesis using True that(1) by blast
next
  case False
  then obtain r source exit_id db1 c where
    r: "settle_long (DFin (sp_quantity (fx_position fx))) (DFin (sp_entry_ask (fx_position fx)))
          (DFin (bid (ob_quote (fx_observation fx)))) (DFin (sp_fee_bps (fx_position fx))) = Inr r" and
    q: "exit_evidence fx t db = Inr (source, exit_id, db1)" and
    row: "close_row fx t r source exit_id (Suc (length (pd_closes db1))) = Inr c" and
    i: "insert_close c db1 = Inr db'" and res: "res = Some (sc_close_id c)"
    using assms by (auto simp: write_close_def bindE_eq_Inr Let_def)
  note c = close_rowE[OF row r]
  obtain qs where qs: "db1 = db\<lparr>pd_exit_quotes := pd_exit_quotes db @ qs\<rparr>"
    "list_all (\<lambda>x. xq_position_id x = sp_position_id (fx_position fx)) qs" "length qs \<le> 1"
    using q by (rule exit_evidenceE)
  have h: "has_close db1 = has_close db" by (rule ext) (simp add: has_close_def qs(1))
  show thesis using that(2)[of c qs] insert_closeE[OF i] qs c res h by (simp add: close_of_def)
qed

lemma write_close_changes:
  assumes "write_close fx t db = Inr (res, db')" and "(fx, t) \<in> fst F"
  shows "pilot_changes F db db'"
  using assms(1)
proof (cases rule: write_close_cases)
  case skipped
  then show ?thesis by simp
next
  case (closed qs c)
  let ?d = "db\<lparr>pd_exit_quotes := pd_exit_quotes db @ qs\<rparr>"
  have "pilot_changes F db ?d"
  proof (cases qs)
    case (Cons x rest)
    then have "pilot_change F db ?d" using closed by (auto intro: ExitQuoteC)
    then show ?thesis by simp
  qed simp
  moreover have "pilot_change F ?d (?d\<lparr>pd_closes := pd_closes ?d @ [c]\<rparr>)"
    using closed assms(2) by (intro CloseC[of _ _ fx t]) (auto simp: has_close_def)
  ultimately show ?thesis using closed(1) by (auto intro: rtranclp.rtrancl_into_rtrancl)
qed

lemma write_closes_changes:
  assumes "write_closes exits t db = Inr (ids, db')" and "set exits \<times> {t} \<subseteq> fst F"
  shows "pilot_changes F db db'"
proof -
  let ?P = "\<lambda>acc. pilot_changes F db (snd acc)"
  have "?P (ids, db')"
    using assms(1)[unfolded write_closes_def]
  proof (rule foldE_invariant)
    show "?P ([], db)" by simp
    fix fx acc acc'
    assume fx: "fx \<in> set exits" and p: "?P acc" and w: "(case acc of (ids, db) \<Rightarrow> bindE (write_close fx t db)
        (\<lambda>(i, db'). Inr (case i of None \<Rightarrow> ids | Some n \<Rightarrow> ids @ [n], db'))) = Inr acc'"
    obtain i where "write_close fx t (snd acc) = Inr (i, snd acc')"
      using w by (auto simp: bindE_eq_Inr split: prod.splits)
    then have "pilot_changes F (snd acc) (snd acc')" using fx assms(2) by (intro write_close_changes) auto
    then show "?P acc'" using p by (rule rtranclp_trans[rotated])
  qed
  then show ?thesis by simp
qed

lemma close_work_split:
  assumes "close_work pe snaps extras t found db = Inr (rep, db')"
  obtains acc ids db1 st locks where "require_account pe db = Inr acc" "write_closes (fst found) t db = Inr (ids, db1)"
    "compute_state snaps extras t acc db1 = Inr st" "eval_locks acc st t SETTLE db1 = Inr (locks, db')"
    "cr_closed rep = filter (\<lambda>c. sc_close_id c \<in> set ids) (pd_closes db')" "cr_pending rep = snd found" "cr_locks rep = locks"
  using assms by (auto simp: close_work_def bindE_eq_Inr)

lemma close_work_changes:
  assumes "close_work pe snaps extras t found db = Inr (rep, db')" and "set (fst found) \<times> {t} \<subseteq> fst F"
  shows "pilot_changes F db db'"
  using assms(1)
  by (rule close_work_split) (use write_closes_changes[OF _ assms(2)] eval_locks_kept in \<open>blast intro: rtranclp_trans\<close>)

section \<open>The store as a machine\<close>

text \<open>The operations of the store, each one serialised transaction.\<close>

datatype store_op =
    EnsureAccount pilot_env envelope moment
  | SetKillSwitch pilot_env bool pyval pyval moment
  | EvaluateLocks pilot_env "snapshot list" moment "observed_quote list"
  | ReviewLock pilot_env "snapshot list" pyval pyval pyval moment "observed_quote list"
  | OpenCandidates pilot_env "snapshot list" "pilot_candidate list" envelope decimal moment "observed_quote list"
  | ClosePositions pilot_env "snapshot list" moment "observed_quote list" "pyval list option"

fun failure :: "('e + 'r) \<times> 's \<Rightarrow> 'e option \<times> 's" where
  "failure (Inl e, s) = (Some e, s)"
| "failure (Inr _, s) = (None, s)"

fun run_op :: "store_op \<Rightarrow> pilot_db \<Rightarrow> pilot_exn option \<times> pilot_db" where
  "run_op (EnsureAccount pe env now) db = failure (ensure_account pe env now db)"
| "run_op (SetKillSwitch pe engaged reason actor now) db = failure (set_kill_switch pe engaged reason actor now db)"
| "run_op (EvaluateLocks pe snaps now qs) db = failure (evaluate_locks pe snaps now qs db)"
| "run_op (ReviewLock pe snaps i reviewer cause now qs) db = failure (review_lock pe snaps i reviewer cause now qs db)"
| "run_op (OpenCandidates pe snaps cs env fee now qs) db = failure (open_candidates pe snaps cs env fee now qs db)"
| "run_op (ClosePositions pe snaps now qs ids) db = failure (close_positions pe snaps now qs ids db)"

text \<open>A closer that has read its exits and not written them yet.\<close>

record prepared_close =
  pr_snaps :: "snapshot list"
  pr_extras :: "extra_quote list"
  pr_now :: int
  pr_found :: "found_exit list \<times> nat list"

record pilot_machine =
  pm_db :: pilot_db
  pm_prepared :: "prepared_close list"

datatype machine_op =
    StoreOp store_op
  | ReadExits "snapshot list" moment "observed_quote list" "pyval list option"
  | WriteExits pilot_env nat

fun machine_step :: "machine_op \<Rightarrow> pilot_machine \<Rightarrow> pilot_machine" where
  "machine_step (StoreOp op) m = m\<lparr>pm_db := snd (run_op op (pm_db m))\<rparr>"
| "machine_step (ReadExits snaps now qs ids) m =
     (case close_args now qs ids of
        Inl _ \<Rightarrow> m
      | Inr (t, extras, wanted_ids) \<Rightarrow>
          (case collect_exits snaps extras t wanted_ids (pm_db m) of
             Inl _ \<Rightarrow> m
           | Inr found \<Rightarrow> m\<lparr>pm_prepared := pm_prepared m @
               [\<lparr>pr_snaps = snaps, pr_extras = extras, pr_now = t, pr_found = found\<rparr>]\<rparr>))"
| "machine_step (WriteExits pe i) m =
     (if i < length (pm_prepared m)
      then let pr = pm_prepared m ! i
           in m\<lparr>pm_db := snd (pilot_tx pe (close_work pe (pr_snaps pr) (pr_extras pr) (pr_now pr) (pr_found pr)) (pm_db m))\<rparr>
      else m)"

inductive pilot_reachable :: "pilot_machine \<Rightarrow> bool" where
  Start: "pilot_reachable \<lparr>pm_db = empty_pilot, pm_prepared = []\<rparr>"
| Step: "pilot_reachable m \<Longrightarrow> pilot_reachable (machine_step op m)"

lemma snd_failure [simp]: "snd (failure p) = snd p"
  by (cases p rule: failure.cases) auto

subsection \<open>Every operation is a sequence of changes\<close>

lemma tx_changes:
  assumes "\<And>r db'. work db = Inr (r, db') \<Longrightarrow> pilot_changes F db db'"
  shows "pilot_changes F db (snd (pilot_tx pe work db))"
  using assms by (intro ptx.write_relates[where R = "pilot_changes F"]) auto

lemma ensure_account_snd:
  "snd (ensure_account pe env now db) = db
   \<or> (\<exists>t. now = Aware t \<and> snd (ensure_account pe env now db) = snd (pilot_tx pe (account_work pe env t) db))"
proof (cases now)
  case (Aware t)
  then show ?thesis
    by (auto simp: ensure_account_def with_args_def split: sum.splits option.splits prod.splits)
qed (simp add: ensure_account_def with_args_def)

lemma insert_reviewE:
  "insert_review rv db = Inr db' \<Longrightarrow> \<not> lock_reviewed db (rv_lock_id rv) \<and> rv_lock_id rv \<in> lk_lock_id ` set (pd_locks db)
     \<and> db' = db\<lparr>pd_reviews := pd_reviews db @ [rv]\<rparr>"
  by (auto simp: insert_review_def list_ex_iff split: if_splits intro: rev_image_eqI[OF _ sym])

lemma review_workE:
  assumes "review_work pe snaps t extras i reviewer cause db = Inr (rv, db')"
  obtains acc l st m where "require_account pe db = Inr acc" "l \<in> set (pd_locks db)" "int (lk_lock_id l) = i"
    "\<not> lock_reviewed db (lk_lock_id l)" "compute_state snaps extras t acc db = Inr st"
    "rv = \<lparr>rv_lock_id = lk_lock_id l, rv_reviewer = reviewer, rv_cause = cause, rv_rebase_equity = as_equity st, rv_reviewed_at = t\<rparr>"
    "mk_kind m = (if lk_kind l = DRAWDOWN then HIGH_WATER else DAY_START)"
    "mk_utc_day m = (if lk_kind l = DRAWDOWN then None else Some (utc_day t))" "mk_equity m = as_equity st"
    "db' = db\<lparr>pd_reviews := pd_reviews db @ [rv], pd_marks := pd_marks db @ [m]\<rparr>"
proof -
  obtain acc where acc: "require_account pe db = Inr acc" using assms by (auto simp: review_work_def bindE_eq_Inr)
  obtain l where l: "find (\<lambda>l. int (lk_lock_id l) = i) (pd_locks db) = Some l"
    using assms acc by (auto simp: review_work_def split: option.splits)
  then have lm: "l \<in> set (pd_locks db)" "int (lk_lock_id l) = i" by (auto simp: find_Some_iff)
  have nr: "\<not> lock_reviewed db (lk_lock_id l)"
    using assms acc l by (auto simp: review_work_def split: if_splits)
  note rest = assms[unfolded review_work_def acc bindE_Inr l option.case if_not_P[OF nr] Let_def]
  obtain st db1 m where st: "compute_state snaps extras t acc db = Inr st"
    and i: "insert_review \<lparr>rv_lock_id = lk_lock_id l, rv_reviewer = reviewer, rv_cause = cause,
                     rv_rebase_equity = as_equity st, rv_reviewed_at = t\<rparr> db = Inr db1"
    and rv: "rv = \<lparr>rv_lock_id = lk_lock_id l, rv_reviewer = reviewer, rv_cause = cause,
                     rv_rebase_equity = as_equity st, rv_reviewed_at = t\<rparr>"
    and m: "insert_mark m db1 = Inr db'" "mk_kind m = (if lk_kind l = DRAWDOWN then HIGH_WATER else DAY_START)"
      "mk_utc_day m = (if lk_kind l = DRAWDOWN then None else Some (utc_day t))" "mk_equity m = as_equity st"
    using rest unfolding bindE_eq_Inr by fastforce
  show thesis using that[OF acc lm nr st rv m(2-4)] insert_reviewE[OF i] insert_markE[OF m(1)] by (simp add: rv)
qed

lemma review_work_changes:
  assumes "review_work pe snaps t extras i reviewer cause db = Inr (rv, db')" and "\<And>rv. int (rv_lock_id rv) = i \<Longrightarrow> rv \<in> snd F"
  shows "pilot_changes F db db'"
  using assms(1)
proof (rule review_workE)
  fix l st m
  assume l: "l \<in> set (pd_locks db)" "\<not> lock_reviewed db (lk_lock_id l)" "int (lk_lock_id l) = i"
    and rv: "rv = \<lparr>rv_lock_id = lk_lock_id l, rv_reviewer = reviewer, rv_cause = cause, rv_rebase_equity = as_equity st, rv_reviewed_at = t\<rparr>"
    and db': "db' = db\<lparr>pd_reviews := pd_reviews db @ [rv], pd_marks := pd_marks db @ [m]\<rparr>"
  let ?d = "db\<lparr>pd_reviews := pd_reviews db @ [rv]\<rparr>"
  have "pilot_change F db ?d" using l rv assms(2) by (intro ReviewC) auto
  moreover have "pilot_change F ?d (?d\<lparr>pd_marks := pd_marks ?d @ [m]\<rparr>)" by (rule MarkC)
  ultimately show ?thesis using db' by simp
qed

lemma ensure_account_changes: "pilot_changes F db (snd (ensure_account pe env now db))"
  using ensure_account_snd[of pe env now db] tx_changes[of "account_work pe env _" db F pe] account_work_changes
  by (metis rtranclp.rtrancl_refl)

lemma set_kill_switch_changes: "pilot_changes F db (snd (set_kill_switch pe engaged reason actor now db))"
  unfolding set_kill_switch_def
  by (rule with_args_relates) (auto split: prod.splits intro!: tx_changes simp: Let_def intro: SwitchC)

lemma evaluate_locks_changes: "pilot_changes F db (snd (evaluate_locks pe snaps now qs db))"
  unfolding evaluate_locks_def
  by (rule with_args_relates)
    (auto split: prod.splits intro!: tx_changes simp: bindE_eq_Inr dest: eval_locks_kept)

text \<open>The reviews that an operation may record: those of the lock it names.\<close>

fun op_reviews :: "store_op \<Rightarrow> stored_review set" where
  "op_reviews (ReviewLock pe snaps (PInt i) reviewer cause now qs) = {rv. int (rv_lock_id rv) = i}"
| "op_reviews _ = {}"

lemma review_lock_changes:
  "pilot_changes (X, op_reviews (ReviewLock pe snaps i reviewer cause now qs)) db (snd (review_lock pe snaps i reviewer cause now qs db))"
  unfolding review_lock_def
proof (rule with_args_relates[where R = "pilot_changes (X, op_reviews (ReviewLock pe snaps i reviewer cause now qs))"])
  fix a assume a: "bindE (require_lock_id i) (\<lambda>i. bindE (nonempty reviewer) (\<lambda>r. bindE (nonempty cause) (\<lambda>c.
        bindE (pilot_now now) (\<lambda>t. bindE (check_extra_quotes qs) (\<lambda>extras. Inr (i, r, c, t, extras)))))) = Inr a"
  then obtain k r c t extras where k: "i = PInt k" "a = (k, r, c, t, extras)"
    by (cases i) (auto simp: bindE_eq_Inr)
  show "pilot_changes (X, op_reviews (ReviewLock pe snaps i reviewer cause now qs)) db
      (snd ((\<lambda>(i, r, c, t, extras). pilot_tx pe (review_work pe snaps t extras i r c)) a db))"
    unfolding k prod.case by (rule tx_changes, erule review_work_changes) simp
qed simp

lemma open_candidates_changes: "pilot_changes F db (snd (open_candidates pe snaps cs env fee now qs db))"
  unfolding open_candidates_def
  by (rule with_args_relates) (auto split: prod.splits intro!: tx_changes dest: open_work_changes)

text \<open>The exits that a read phase found, in their own database.\<close>

definition exit_found :: "pilot_db \<Rightarrow> found_exit \<times> int \<Rightarrow> bool" where
  "exit_found db fxt \<longleftrightarrow> (case fxt of (fx, t) \<Rightarrow>
     fx_position fx \<in> set (pd_positions db)
     \<and> sp_entry_ts (fx_position fx) < ob_observed_at (fx_observation fx) \<and> ob_observed_at (fx_observation fx) \<le> t
     \<and> exit_decision LONG (DFin (sp_stop (fx_position fx))) (DFin (sp_target (fx_position fx)))
         (Aware (sp_due_at (fx_position fx))) (Aware (ob_observed_at (fx_observation fx))) (ob_quote (fx_observation fx))
       = Inr (Some (fx_reason fx)))"

lemma first_exit_Some:
  assumes "first_exit p obs = Inr (Some fx)"
  shows "\<exists>before after. obs = before @ fx_observation fx # after \<and> fx_position fx = p
    \<and> exit_decision LONG (DFin (sp_stop p)) (DFin (sp_target p)) (Aware (sp_due_at p))
         (Aware (ob_observed_at (fx_observation fx))) (ob_quote (fx_observation fx)) = Inr (Some (fx_reason fx))
    \<and> (\<forall>ob \<in> set before. exit_decision LONG (DFin (sp_stop p)) (DFin (sp_target p)) (Aware (sp_due_at p))
         (Aware (ob_observed_at ob)) (ob_quote ob) = Inr None)"
  using assms
proof (induction obs)
  case (Cons ob obs)
  obtain reason where r: "exit_decision LONG (DFin (sp_stop p)) (DFin (sp_target p)) (Aware (sp_due_at p))
         (Aware (ob_observed_at ob)) (ob_quote ob) = Inr reason"
    and rest: "(case reason of
       Some r \<Rightarrow> Inr (Some \<lparr>fx_position = p, fx_observation = ob, fx_reason = r\<rparr>)
     | None \<Rightarrow> first_exit p obs) = Inr (Some fx)"
    using Cons.prems by (auto simp: bindE_eq_Inr)
  show ?case
  proof (cases reason)
    case None
    then obtain before after where "obs = before @ fx_observation fx # after" and
      e: "fx_position fx = p" "exit_decision LONG (DFin (sp_stop p)) (DFin (sp_target p)) (Aware (sp_due_at p))
         (Aware (ob_observed_at (fx_observation fx))) (ob_quote (fx_observation fx)) = Inr (Some (fx_reason fx))"
      "\<forall>ob \<in> set before. exit_decision LONG (DFin (sp_stop p)) (DFin (sp_target p)) (Aware (sp_due_at p))
         (Aware (ob_observed_at ob)) (ob_quote ob) = Inr None"
      using Cons.IH rest by auto
    then show ?thesis using r None by (intro exI[of _ "ob # before"] exI[of _ after]) auto
  next
    case (Some x)
    then show ?thesis using r rest by (intro exI[of _ "[]"] exI[of _ obs]) auto
  qed
qed simp

lemma set_map_filter: "y \<in> set (List.map_filter f xs) \<longleftrightarrow> (\<exists>x \<in> set xs. f x = Some y)"
  by (induction xs) (auto simp: List.map_filter_simps split: option.splits)

lemma spot_observation_span: "spot_observation pair start now False sn = Some ob \<Longrightarrow> start < ob_observed_at ob \<and> ob_observed_at ob \<le> now"
  by (auto simp: spot_observation_def in_span_def split: moment.splits if_splits sum.splits)

lemma extra_observation_span: "extra_observation pair start now False ie = Some ob \<Longrightarrow> start < ob_observed_at ob \<and> ob_observed_at ob \<le> now"
  by (auto simp: extra_observation_def in_span_def split: if_splits sum.splits prod.splits)

lemma exit_observations_span:
  assumes "ob \<in> set (exit_observations snaps extras now p)"
  shows "sp_entry_ts p < ob_observed_at ob \<and> ob_observed_at ob \<le> now"
  using assms unfolding exit_observations_def spot_observations_def extra_observations_def set_sort set_append Un_iff set_map_filter
  by (auto dest: spot_observation_span extra_observation_span)

lemma find_exit_found:
  assumes "find_exit snaps extras t p = Inr (Some fx)" and "p \<in> set (pd_positions db)"
  shows "exit_found db (fx, t)"
proof -
  from first_exit_Some[OF assms(1)[unfolded find_exit_def]] obtain before after where
    o: "exit_observations snaps extras t p = before @ fx_observation fx # after" and
    f: "fx_position fx = p" "exit_decision LONG (DFin (sp_stop p)) (DFin (sp_target p)) (Aware (sp_due_at p))
         (Aware (ob_observed_at (fx_observation fx))) (ob_quote (fx_observation fx)) = Inr (Some (fx_reason fx))"
    by blast
  have "fx_observation fx \<in> set (exit_observations snaps extras t p)" unfolding o by simp
  then show ?thesis using exit_observations_span f assms(2) by (simp add: exit_found_def)
qed

lemma collect_exits_found:
  assumes "collect_exits snaps extras t ids db = Inr found" and "fx \<in> set (fst found)"
  shows "exit_found db (fx, t)"
proof -
  let ?P = "\<lambda>acc :: found_exit list \<times> nat list. \<forall>fx \<in> set (fst acc). exit_found db (fx, t)"
  have "?P found"
    using assms(1)[unfolded collect_exits_def]
  proof (rule foldE_invariant)
    show "?P ([], [])" by simp
    show "?P u" if "p \<in> set (filter (wanted ids) (read_open_positions db))" "?P s" "collect_exit snaps extras t p s = Inr u" for p s u
      using that find_exit_found[of snaps extras t p _ db]
      by (auto simp: collect_exit_def bindE_eq_Inr read_open_positions_def split: option.splits if_splits)
  qed
  then show ?thesis using assms(2) by blast
qed

lemma close_positions_changes:
  "pilot_changes ({fxt. exit_found db fxt}, X) db (snd (close_positions pe snaps now qs ids db))"
  unfolding close_positions_def
proof (rule with_args_relates[where R = "pilot_changes ({fxt. exit_found db fxt}, X)"])
  fix a assume "close_args now qs ids = Inr a"
  obtain t extras js where [simp]: "a = (t, extras, js)" by (cases a)
  show "pilot_changes ({fxt. exit_found db fxt}, X) db
      (snd ((\<lambda>(t, extras, ids) db. if pe_in_transaction pe then (Inl (PilotStoreError OPEN_TRANSACTION), db)
          else (case collect_exits snaps extras t ids db of Inl e \<Rightarrow> (Inl e, db)
            | Inr found \<Rightarrow> pilot_tx pe (close_work pe snaps extras t found) db)) a db))"
  proof (cases "pe_in_transaction pe \<or> (\<exists>e. collect_exits snaps extras t js db = Inl e)")
    case True
    then show ?thesis by auto
  next
    case False
    then obtain found where f: "collect_exits snaps extras t js db = Inr found"
      by (cases "collect_exits snaps extras t js db") auto
    have "set (fst found) \<times> {t} \<subseteq> fst ({fxt. exit_found db fxt}, X)" using collect_exits_found[OF f] by auto
    then show ?thesis using False f by (auto intro!: tx_changes close_work_changes)
  qed
qed simp

lemma pilot_change_mono: "pilot_change F db db' \<Longrightarrow> fst F \<subseteq> fst G \<Longrightarrow> snd F \<subseteq> snd G \<Longrightarrow> pilot_change G db db'"
  by (induction rule: pilot_change.induct) (auto intro: pilot_change.intros)

lemma run_op_changes: "pilot_changes ({fxt. exit_found db fxt}, op_reviews op) db (snd (run_op op db))"
proof (cases op)
  case (ReviewLock pe snaps i reviewer cause now qs)
  then show ?thesis by (simp only: run_op.simps snd_failure review_lock_changes)
qed (simp_all add: ensure_account_changes set_kill_switch_changes evaluate_locks_changes
      open_candidates_changes close_positions_changes)

fun step_reviews :: "machine_op \<Rightarrow> stored_review set" where
  "step_reviews (StoreOp op) = op_reviews op"
| "step_reviews _ = {}"

definition step_exits :: "pilot_machine \<Rightarrow> (found_exit \<times> int) set" where
  "step_exits m = {fxt. exit_found (pm_db m) fxt}
     \<union> {(fx, pr_now pr) | fx pr. pr \<in> set (pm_prepared m) \<and> fx \<in> set (fst (pr_found pr))}"

lemma machine_step_changes: "pilot_changes (step_exits m, step_reviews op) (pm_db m) (pm_db (machine_step op m))"
proof (cases op)
  case (StoreOp sop)
  have "pilot_changes ({fxt. exit_found (pm_db m) fxt}, op_reviews sop) \<le> pilot_changes (step_exits m, step_reviews op)"
    by (rule rtranclp_mono) (auto simp: step_exits_def StoreOp intro: pilot_change_mono)
  then show ?thesis using run_op_changes[of "pm_db m" sop] StoreOp by auto
next
  case (ReadExits snaps now qs ids)
  then show ?thesis by (auto split: sum.splits prod.splits)
next
  case (WriteExits pe i)
  show ?thesis
  proof (cases "i < length (pm_prepared m)")
    case True
    let ?pr = "pm_prepared m ! i"
    have "set (fst (pr_found ?pr)) \<times> {pr_now ?pr} \<subseteq> fst (step_exits m, step_reviews op)"
      using True by (auto simp: step_exits_def)
    then have "pilot_changes (step_exits m, step_reviews op) (pm_db m)
        (snd (pilot_tx pe (close_work pe (pr_snaps ?pr) (pr_extras ?pr) (pr_now ?pr) (pr_found ?pr)) (pm_db m)))"
      by (intro tx_changes close_work_changes)
    then show ?thesis using True WriteExits by (simp add: Let_def)
  qed (simp add: WriteExits)
qed

end
