(* ===== verification/Pilot_Scenario.thy ===== *)
theory Pilot_Scenario
  imports Pilot_Safety
begin

text \<open>
  One run of the pilot store, evaluated: the account is recorded, a candidate opens a position, the price falls and the
  daily loss lock trips. The properties of the store are applied to its states.
\<close>

definition scn_pe :: pilot_env where
  "scn_pe = \<lparr>pe_in_transaction = False, pe_fault = False, pe_sha256 = (\<lambda>_. replicate 64 (CHR ''a'')), pe_repr = (\<lambda>_. ''?'')\<rparr>"

definition scn_sha :: string where "scn_sha = replicate 64 (CHR ''a'')"

definition scn_account :: account where
  "scn_account = \<lparr>ac_envelope = sample_env, ac_sha256 = scn_sha, ac_recorded_at = 0\<rparr>"

definition scn_mark :: stored_mark where
  "scn_mark = \<lparr>mk_kind = HIGH_WATER, mk_utc_day = None, mk_equity = 20700, mk_source = ASSIGNED, mk_lock_id = None,
     mk_recorded_at = 0\<rparr>"

definition scn_db0 :: pilot_db where
  "scn_db0 = empty_pilot\<lparr>pd_account := Some \<lparr>ar_envelope_json = canonical_text sample_env, ar_sha256 = scn_sha,
     ar_policy_id = ENVELOPE_POLICY_ID, ar_equity_cents = 2070000, ar_currency = ''EUR'', ar_recorded_at = 0\<rparr>,
     pd_marks := [scn_mark]\<rparr>"

definition scn_start :: pilot_machine where
  "scn_start = \<lparr>pm_db = empty_pilot, pm_prepared = []\<rparr>"

definition scn_m1 :: pilot_machine where
  "scn_m1 = machine_step (StoreOp (EnsureAccount scn_pe sample_env (Aware 0))) scn_start"

lemma scn_pe_simps [simp]:
  "pe_in_transaction scn_pe = False" "pe_fault scn_pe = False" "envelope_sha256 scn_pe env = scn_sha"
  "length scn_sha = 64" "pilot_tx scn_pe work db = body_result work db"
  by (simp_all add: scn_pe_def envelope_sha256_def scn_sha_def pilot_tx_def)

lemma to_cents_eval [simp]: "to_cents 20700 = Inr 2070000" "to_cents 0 = Inr 0"
  by (simp_all add: to_cents_def liftM_def money_eval default_context_def HUNDRED_def sqlite_int_def)

lemma sample_env_simps [simp]: "lit_value (equity sample_env) = 20700" "currency sample_env = ''EUR''"
  by (simp_all add: sample_env_def dec_value_cents)

lemma scn_require: "pd_account db = pd_account scn_db0 \<Longrightarrow> require_account scn_pe db = Inr scn_account"
  by (simp add: require_account_def read_account_def scn_db0_def parse_canonical[OF sample_env_ok] scn_account_def)

lemma scn_ensure: "ensure_account scn_pe sample_env (Aware 0) empty_pilot = (Inr scn_account, scn_db0)"
proof -
  have r: "read_account scn_pe empty_pilot = Inr None" by (simp add: read_account_def empty_pilot_def)
  have "account_work scn_pe sample_env 0 empty_pilot = Inr ((), scn_db0)"
    unfolding account_work_def r
    by (simp add: insert_account_def insert_mark_def empty_pilot_def scn_db0_def scn_mark_def)
  then show ?thesis using r scn_require[of scn_db0] by (simp add: ensure_account_def with_args_def body_result_def)
qed

lemma scn_db0_tables [simp]:
  "pd_decisions scn_db0 = []" "pd_positions scn_db0 = []" "pd_closes scn_db0 = []" "pd_marks scn_db0 = [scn_mark]"
  "pd_locks scn_db0 = []" "pd_reviews scn_db0 = []" "pd_switches scn_db0 = []" "pd_exit_quotes scn_db0 = []"
  by (simp_all add: scn_db0_def empty_pilot_def)

lemma scn_m1_db: "pm_db scn_m1 = scn_db0"
  by (simp add: scn_m1_def scn_start_def scn_ensure)

lemma scn_m1_reachable: "pilot_reachable scn_m1"
  unfolding scn_m1_def scn_start_def by (intro Step Start)

section \<open>Opening\<close>

definition scn_candidate :: pilot_candidate where
  "scn_candidate = \<lparr>pc_event_id = ''e1'', pc_run_id = ''r1'', pc_asset = ''BTC'', pc_pair = ''XBTEUR'', pc_quote = ''EUR'',
     pc_direction = PStr ''LONG'', pc_bid = PDec (Lit 8270 (-2)), pc_ask = PDec (Lit 8280 (-2)), pc_snapshot_ts = Aware 1000000,
     pc_status = PStr ''online'', pc_atr = PDec (Lit 140 (-2)), pc_atr_pair = PStr ''XBTEUR'', pc_pair_entry = Some sample_pair\<rparr>"

definition scn_state :: account_state_t where
  "scn_state = \<lparr>as_equity = 20700, as_cash = 20700, as_realized = 0, as_open_positions = [], as_open_planned_loss = 0,
     as_open_notional = 0\<rparr>"

definition scn_day :: stored_mark where
  "scn_day = \<lparr>mk_kind = DAY_START, mk_utc_day = Some 0, mk_equity = 20700, mk_source = EVALUATION, mk_lock_id = None,
     mk_recorded_at = 2000000\<rparr>"

definition scn_position :: stored_position where
  "scn_position = \<lparr>sp_position_id = 1, sp_decision_id = 1, sp_event_id = ''e1'', sp_run_id = ''r1'', sp_asset = ''BTC'',
     sp_pair = ''XBTEUR'', sp_quote = ''EUR'', sp_quantity = 80859 / 5000, sp_entry_bid = 827 / 10, sp_entry_ask = 414 / 5,
     sp_entry_ts = 1000000, sp_due_at = 86401000000, sp_fee_bps = 0, sp_exit_policy = EX1_POLICY_ID, sp_atr = 7 / 5,
     sp_stop = 80, sp_target = 442 / 5, sp_stress_exit_price = 398 / 5, sp_planned_loss = 161718 / 3125,
     sp_notional = 16737813 / 12500, sp_cost_basis = 16737813 / 12500, sp_opened_at = 2000000\<rparr>"

lemma isinstance_object: "isinstance_decimal (decimal_object x) = Some (DFin (ctx_fix RISK_CONTEXT x))"
proof -
  obtain l where "decimal_object x = PDec l" by (simp add: decimal_object_def)
  then show ?thesis using decimal_object_value[of x l] by simp
qed

lemma scn_compute: "pd_closes db = [] \<Longrightarrow> pd_positions db = [] \<Longrightarrow> compute_state snaps extras t scn_account db = Inr scn_state"
  by (simp add: compute_state_def read_open_positions_def scn_account_def account_equity_def available_cash_def risk_sum_def
      require_positive_def scn_state_def rsum_def liftM_def money_eval)

lemma scn_no_locks: "tripped_locks sample_env (DFin 20700) (DFin 20700) (DFin 20700) = Inr []"
  by (simp add: tripped_locks_def daily_lock_tripped_def drawdown_lock_tripped_def require_positive_def sample_env_def percent_of_def
      HUNDRED_def dec_value_cents money_eval)

definition scn_db1 :: pilot_db where
  "scn_db1 = scn_db0\<lparr>pd_marks := [scn_mark, scn_day]\<rparr>"

definition scn_calm :: lock_evaluation where
  "scn_calm = \<lparr>le_equity = 20700, le_day_start = 20700, le_high_water = 20700, le_tripped = [], le_active = []\<rparr>"

lemma scn_eval: "eval_locks scn_account scn_state 2000000 ENTRY scn_db0 = Inr (scn_calm, scn_db1)"
  by (simp add: eval_locks_def ensure_day_start_def raise_high_water_def day_start_def high_water_def last_row_def scn_db0_def
      scn_mark_def scn_state_def scn_account_def utc_day_def insert_mark_def mark_conflict_def empty_pilot_def scn_db1_def scn_day_def
      next_high_water_def require_positive_def liftM_def scn_no_locks active_locks_def scn_calm_def seconds_def)

lemma scn_plan: "plan_candidate scn_pe scn_candidate sample_env scn_state 0 = Inr sample_opened"
proof -
  have obj: "isinstance_decimal (decimal_object 20700) = Some (DFin 20700)"
    by (simp add: isinstance_object money_eval)
  have ask: "ask sample_entry_quote = 414 / 5"
    and rules: "tick sample_rules = 1 / 100" "lot_decimals sample_rules = 4"
    by (simp_all add: sample_entry_quote_def sample_rules_def)
  have room: "\<not> per_entry_loss_cap sample_budget \<le> 0" "\<not> aggregate_loss_remaining sample_budget \<le> 0"
    "\<not> notional_remaining sample_budget \<le> 0" "\<not> cash_room sample_budget \<le> 0"
    by (simp_all add: sample_budget_def)
  have "plan_long_entry sample_env (PStr ''EUR'') (PDec (Lit 8270 (-2))) (PDec (Lit 8280 (-2)))
     (PStr ''online'') (PDec (Lit 140 (-2))) (Some sample_pair) (decimal_object 20700) (decimal_object 20700)
     (DFin 0) (DFin 0) (DFin 0) = Inr sample_opened"
    unfolding plan_long_entry_def sample_quote_ok sample_rules_ok
    by (simp add: plan_levels_def plan_size_def sample_levels_ok require_nonnegative_def ask rules room sample_step_ok sample_stress_ok sample_budget_ok
        sample_candidates_ok sample_lot_ok sample_loop_ok MAX_DOWNWARD_PASSES_def sample_opened_def Let_def obj
        cong: bindE_weak_cong)
  moreover have "ep_no_trade sample_opened = None" by (simp add: sample_opened_def new_plan_def)
  ultimately show ?thesis by (simp add: plan_candidate_def scn_candidate_def scn_state_def liftM_def)
qed

definition scn_decision :: stored_decision where
  "scn_decision = \<lparr>sd_decision_id = 1, sd_event_id = ''e1'', sd_run_id = ''r1'', sd_asset = ''BTC'', sd_pair = ''XBTEUR'',
     sd_quote = ''EUR'', sd_direction = ''LONG'', sd_snapshot_ts = 1000000,
     sd_values = decision_decimals scn_candidate (Some sample_opened) scn_state, sd_atr_pair = Some ''XBTEUR'',
     sd_tick_source = Some (tick_source sample_rules), sd_lot_decimals = Some 4, sd_binding = Some PER_ENTRY_LOSS, sd_passes = 0,
     sd_entry_fee_cents = Some 0, sd_exit_fee_cents = Some 0, sd_fee_bps = 0, sd_envelope_sha256 = scn_sha,
     sd_outcome = OPENED, sd_reason = None, sd_detail = [], sd_decided_at = 2000000\<rparr>"

lemma scn_decision_id: "sd_decision_id scn_decision = 1"
  by (simp add: scn_decision_def)

lemma scn_opened: "opened sample_opened"
  by (simp add: opened_def sample_opened_def new_plan_def)

lemma scn_decision_ok:
  "decision_values scn_pe scn_candidate 1000000 None (Some sample_opened) scn_state 0 scn_sha 2000000 1 = Inr scn_decision"
  by (simp add: decision_values_def opened_costs_def scn_opened optional_cents_def decision_no_trade_def scn_decision_def)
    (simp add: scn_candidate_def sample_opened_def new_plan_def sample_rules_def sample_candidates_def sample_costs_def optional_cents_def)

lemma scn_decision_checked: "decision_check scn_decision"
  by (simp add: decision_check_def scn_decision_def decision_value_def decision_decimals_def opened_costs_def scn_opened Let_def
      sample_opened_def new_plan_def opened_def del: not_None_eq)

lemma scn_position_ok: "position_row 1 scn_candidate 1000000 sample_opened 2000000 1 = Inr scn_position"
  by (simp add: position_row_def sample_opened_def sample_costs_def new_plan_def sample_entry_quote_def scn_position_def
      entry_cost_basis_def require_positive_def require_nonnegative_def BPS_def money_eval liftM_def scn_candidate_def
      cong: bindE_weak_cong)

definition scn_state1 :: account_state_t where
  "scn_state1 = \<lparr>as_equity = 1034919141 / 50000, as_cash = 242012187 / 12500, as_realized = 0, as_open_positions = [scn_position],
     as_open_planned_loss = 161718 / 3125, as_open_notional = 16737813 / 12500\<rparr>"

lemma scn_mark_entry: "position_mark [] [] t scn_position = Inr (- (80859 / 50000))"
  by (simp add: position_mark_def mark_quote_def spot_observations_def extra_observations_def map_filter_def stored_quote_def
      scn_position_def positive_price_def unrealized_mark_def require_positive_def require_nonnegative_def BPS_def money_eval liftM_def
      cong: bindE_weak_cong)

text \<open>The state of an account with the position open, for a given mark of the position.\<close>

lemma scn_compute_open:
  assumes "pd_closes db = []" "pd_positions db = [scn_position]" and "position_mark snaps extras t scn_position = Inr mk"
    and "radd 20700 mk = eq" and "ctx_fix RISK_CONTEXT mk = mk"
  shows "compute_state snaps extras t scn_account db = Inr (scn_state1\<lparr>as_equity := eq\<rparr>)"
proof -
  have o: "read_open_positions db = [scn_position]" using assms(1,2) by (simp add: read_open_positions_def has_close_def)
  have e: "account_equity (DFin 20700) [] [DFin mk] = Inr eq"
    using assms(4,5) by (simp add: account_equity_def risk_sum_def require_positive_def ctx_add_def money_eval)
  have c: "available_cash (DFin 20700) [] [DFin (16737813 / 12500)] = Inr (242012187 / 12500)"
    by (simp add: available_cash_def risk_sum_def require_positive_def money_eval)
  have f: "sp_cost_basis scn_position = 16737813 / 12500" "sp_planned_loss scn_position = 161718 / 3125"
    "sp_notional scn_position = 16737813 / 12500" by (simp_all add: scn_position_def)
  show ?thesis unfolding compute_state_def o
    using e c by (simp add: assms(1,3) f scn_account_def scn_state1_def rsum_def liftM_def money_eval)
qed

definition scn_db2 :: pilot_db where
  "scn_db2 = scn_db1\<lparr>pd_decisions := [scn_decision], pd_positions := [scn_position]\<rparr>"

lemma scn_admission:
  "admission_refusal sample_env (PEnum ''Direction'' ''LONG'') (PBool False) [] (PInt 0) = Inr None"
  by (simp add: admission_refusal_def is_long_def sample_env_def)

lemma scn_judge: "judge scn_pe scn_account scn_sha 0 False [] scn_state scn_candidate = Inr (None, Some sample_opened)"
proof -
  have "direction_text scn_pe (pc_direction scn_candidate) = ''LONG''" by (simp add: scn_candidate_def)
  moreover have "as_open_positions scn_state = []" by (simp add: scn_state_def)
  ultimately show ?thesis using scn_plan scn_admission by (simp add: judge_def scn_account_def liftM_def)
qed

lemma scn_open_step:
  "open_step scn_pe [] [] scn_account scn_sha 0 False [] 2000000 (scn_candidate, 1000000)
     (\<lparr>or_decision_ids = [], or_already = [], or_state = scn_state\<rparr>, scn_db1)
   = Inr (\<lparr>or_decision_ids = [1], or_already = [], or_state = scn_state1\<rparr>, scn_db2)"
proof -
  have tabs: "pd_decisions scn_db1 = []" "pd_positions scn_db1 = []"
    by (simp_all add: scn_db1_def scn_db0_def empty_pilot_def)
  have i: "insert_decision scn_decision scn_db1 = Inr (scn_db1\<lparr>pd_decisions := [scn_decision]\<rparr>)"
    using scn_decision_checked tabs by (simp add: insert_decision_def decided_def)
  have w: "write_position 1 scn_candidate 1000000 sample_opened 2000000 (scn_db1\<lparr>pd_decisions := [scn_decision]\<rparr>) = Inr scn_db2"
    using scn_position_ok tabs by (simp add: write_position_def insert_position_def scn_position_def scn_decision_def scn_db2_def)
  have c: "compute_state [] [] 2000000 scn_account scn_db2 = Inr scn_state1"
  proof -
    have "compute_state [] [] 2000000 scn_account scn_db2 = Inr (scn_state1\<lparr>as_equity := 1034919141 / 50000\<rparr>)"
      by (rule scn_compute_open[OF _ _ scn_mark_entry])
        (simp_all add: scn_db2_def scn_db1_def scn_db0_def empty_pilot_def money_eval)
    then show ?thesis by (simp add: scn_state1_def)
  qed
  show ?thesis
    using scn_judge scn_decision_ok i w c scn_opened tabs
    by (simp add: open_step_def decided_def)
qed

lemma scn_open:
  "open_candidates scn_pe [] [scn_candidate] sample_env (DFin 0) (Aware 2000000) [] scn_db0 =
     (Inr \<lparr>rp_decisions = [scn_decision], rp_already_recorded = [], rp_locks = scn_calm\<rparr>, scn_db2)"
proof -
  have k: "kill_switch_engaged scn_db1 = False" "active_kinds scn_calm = []" "pd_decisions scn_db2 = [scn_decision]"
    by (simp_all add: kill_switch_engaged_def last_row_def scn_db1_def scn_db0_def empty_pilot_def active_kinds_def scn_calm_def scn_db2_def)
  have cd: "check_candidate scn_candidate = Inr (scn_candidate, 1000000)"
    by code_simp
  have "open_work scn_pe [] [] scn_sha 0 2000000 [(scn_candidate, 1000000)] scn_db0 =
     Inr (\<lparr>rp_decisions = [scn_decision], rp_already_recorded = [], rp_locks = scn_calm\<rparr>, scn_db2)"
    using scn_require[of scn_db0] scn_eval scn_open_step k scn_decision_id
    by (simp add: open_work_def scn_compute)
  then show ?thesis using cd by (simp add: open_candidates_def with_args_def check_extra_quotes_def body_result_def)
qed

definition scn_m2 :: pilot_machine where
  "scn_m2 = machine_step (StoreOp (OpenCandidates scn_pe [] [scn_candidate] sample_env (DFin 0) (Aware 2000000) [])) scn_m1"

lemma scn_m2_db: "pm_db scn_m2 = scn_db2"
  by (simp add: scn_m2_def scn_m1_db scn_open)

lemma scn_m2_reachable: "pilot_reachable scn_m2"
  unfolding scn_m2_def by (intro Step scn_m1_reachable)

section \<open>A fall of the price\<close>

definition scn_crash :: snapshot where
  "scn_crash = \<lparr>sn_id = 7, sn_pair = ''XBTEUR'', sn_ts = Aware 3000000, sn_bid = PDec (Lit 60 0), sn_ask = PDec (Lit 61 0),
     sn_status = PStr ''online''\<rparr>"

definition scn_observation :: observation where
  "scn_observation = \<lparr>ob_observed_at = 3000000, ob_rank = 0, ob_ident = 7, ob_quote = \<lparr>bid = 60, ask = 61\<rparr>, ob_extra = None\<rparr>"

lemma scn_spot:
  "1000000 \<le> now \<Longrightarrow> 3000000 \<le> now \<Longrightarrow> spot_observations [scn_crash] ''XBTEUR'' 1000000 now incl = [scn_observation]"
proof -
  assume n: "3000000 \<le> now"
  have "validate_quote (PDec (Lit 60 0)) (PDec (Lit 61 0)) (PStr ''online'') = Inr \<lparr>bid = 60, ask = 61\<rparr>" by code_simp
  then show ?thesis using n
    by (simp add: spot_observations_def map_filter_def spot_observation_def scn_crash_def in_span_def scn_observation_def)
qed

lemma scn_position_fields [simp]:
  "sp_pair scn_position = ''XBTEUR''" "sp_entry_ts scn_position = 1000000" "sp_position_id scn_position = 1"
  "sp_quantity scn_position = 80859 / 5000" "sp_cost_basis scn_position = 16737813 / 12500" "sp_fee_bps scn_position = 0"
  "sp_stop scn_position = 80" "sp_target scn_position = 442 / 5" "sp_due_at scn_position = 86401000000" "sp_entry_ask scn_position = 414 / 5"
  by (simp_all add: scn_position_def)

lemma scn_crash_mark: "3000000 \<le> now \<Longrightarrow> position_mark [scn_crash] [] now scn_position = Inr (- (4608963 / 12500))"
  by (simp add: position_mark_def mark_quote_def scn_spot extra_observations_def map_filter_def)
    (simp add: scn_observation_def unrealized_mark_def require_positive_def require_nonnegative_def BPS_def money_eval liftM_def
      cong: bindE_weak_cong)

lemma scn_db2_tables [simp]:
  "pd_decisions scn_db2 = [scn_decision]" "pd_positions scn_db2 = [scn_position]" "pd_closes scn_db2 = []"
  "pd_marks scn_db2 = [scn_mark, scn_day]" "pd_locks scn_db2 = []" "pd_reviews scn_db2 = []" "pd_switches scn_db2 = []"
  "pd_account scn_db2 = pd_account scn_db0" "pd_exit_quotes scn_db2 = []"
  by (simp_all add: scn_db2_def scn_db1_def)

lemma scn_crash_state:
  assumes "3000000 \<le> t" "pd_closes db = []" "pd_positions db = [scn_position]"
  shows "compute_state [scn_crash] [] t scn_account db = Inr (scn_state1\<lparr>as_equity := 254141037 / 12500\<rparr>)"
  by (rule scn_compute_open[OF assms(2,3) scn_crash_mark[OF assms(1)]]) (simp_all add: money_eval)

definition scn_lock :: lock_row where
  "scn_lock = \<lparr>lk_lock_id = 1, lk_kind = DAILY_LOSS, lk_equity = 254141037 / 12500, lk_reference = 20700, lk_limit_pct = 1,
     lk_utc_day = 0, lk_evaluated_on = MARK, lk_tripped_at = 4000000\<rparr>"

definition scn_db3 :: pilot_db where
  "scn_db3 = scn_db2\<lparr>pd_locks := [scn_lock]\<rparr>"

definition scn_tripped :: lock_evaluation where
  "scn_tripped = \<lparr>le_equity = 254141037 / 12500, le_day_start = 20700, le_high_water = 20700, le_tripped = [scn_lock],
     le_active = [scn_lock]\<rparr>"

lemma scn_daily: "tripped_locks sample_env (DFin (254141037 / 12500)) (DFin 20700) (DFin 20700) = Inr [DAILY_LOSS]"
  by (simp add: tripped_locks_def daily_lock_tripped_def drawdown_lock_tripped_def require_positive_def sample_env_def percent_of_def
      HUNDRED_def dec_value_cents money_eval)

lemma scn_marks_db2: "day_start scn_db2 0 = Some 20700" "high_water scn_db2 = Some 20700"
  by (simp_all add: day_start_def high_water_def last_row_def scn_mark_def scn_day_def)

lemma scn_trip:
  "eval_locks scn_account (scn_state1\<lparr>as_equity := 254141037 / 12500\<rparr>) 4000000 MARK scn_db2 = Inr (scn_tripped, scn_db3)"
proof -
  have d: "ensure_day_start 4000000 (254141037 / 12500) scn_db2 = Inr (20700, scn_db2)"
    by (simp add: ensure_day_start_def utc_day_def seconds_def scn_marks_db2)
  have h: "raise_high_water 4000000 (254141037 / 12500) scn_db2 = Inr (20700, scn_db2)"
    by (simp add: raise_high_water_def scn_marks_db2 next_high_water_def require_positive_def liftM_def)
  have "lit_value (daily_loss_pct sample_env) = 1" by (simp add: sample_env_def dec_value_def)
  then have t: "trip_lock sample_env (254141037 / 12500) 20700 20700 4000000 MARK DAILY_LOSS scn_db2 = scn_db3"
    by (simp add: trip_lock_def scn_db3_def scn_lock_def utc_day_def seconds_def)
  show ?thesis using d h t scn_daily
    by (simp add: eval_locks_def scn_account_def liftM_def active_locks_def scn_db3_def lock_reviewed_def scn_tripped_def)
qed

definition scn_m3 :: pilot_machine where
  "scn_m3 = machine_step (StoreOp (EvaluateLocks scn_pe [scn_crash] (Aware 4000000) [])) scn_m2"

lemma scn_evaluate: "evaluate_locks scn_pe [scn_crash] (Aware 4000000) [] scn_db2 = (Inr scn_tripped, scn_db3)"
  using scn_require[of scn_db2] scn_crash_state[of 4000000 scn_db2] scn_trip
  by (simp add: evaluate_locks_def with_args_def check_extra_quotes_def body_result_def)

lemma scn_m3_db: "pm_db scn_m3 = scn_db3"
  by (simp add: scn_m3_def scn_m2_db scn_evaluate)

lemma scn_m3_reachable: "pilot_reachable scn_m3"
  unfolding scn_m3_def by (intro Step scn_m2_reachable)

lemma scn_m3_locked: "active_locks scn_db3 = [scn_lock]"
  by (simp add: active_locks_def scn_db3_def lock_reviewed_def)

definition scn_review :: stored_review where
  "scn_review = \<lparr>rv_lock_id = 1, rv_reviewer = ''ana'', rv_cause = ''gap'', rv_rebase_equity = 254141037 / 12500,
     rv_reviewed_at = 5000000\<rparr>"

definition scn_db4 :: pilot_db where
  "scn_db4 = scn_db3\<lparr>pd_reviews := [scn_review], pd_marks := [scn_mark, scn_day, \<lparr>mk_kind = DAY_START, mk_utc_day = Some 0,
     mk_equity = 254141037 / 12500, mk_source = REVIEW, mk_lock_id = Some 1, mk_recorded_at = 5000000\<rparr>]\<rparr>"

lemma scn_reviewed:
  "review_lock scn_pe [scn_crash] (PInt 1) (PStr ''ana'') (PStr ''gap'') (Aware 5000000) [] scn_db3 = (Inr scn_review, scn_db4)"
proof -
  have n: "nonempty (PStr ''ana'') = Inr ''ana''" "nonempty (PStr ''gap'') = Inr ''gap''" by code_simp+
  have st: "compute_state [scn_crash] [] 5000000 scn_account scn_db3 = Inr (scn_state1\<lparr>as_equity := 254141037 / 12500\<rparr>)"
    by (rule scn_crash_state) (simp_all add: scn_db3_def)
  have acc: "require_account scn_pe scn_db3 = Inr scn_account" by (rule scn_require) (simp add: scn_db3_def)
  have l: "pd_locks scn_db3 = [scn_lock]" "pd_reviews scn_db3 = []" "pd_marks scn_db3 = [scn_mark, scn_day]"
    "lk_lock_id scn_lock = 1" "lk_kind scn_lock = DAILY_LOSS" by (simp_all add: scn_db3_def scn_lock_def)
  have "review_work scn_pe [scn_crash] 5000000 [] 1 ''ana'' ''gap'' scn_db3 = Inr (scn_review, scn_db4)"
    using st acc l
    by (simp add: review_work_def lock_reviewed_def insert_review_def insert_mark_def mark_conflict_def scn_review_def scn_db4_def
        scn_mark_def scn_day_def utc_day_def seconds_def Let_def)
  then show ?thesis using n by (simp add: review_lock_def with_args_def check_extra_quotes_def body_result_def)
qed

section \<open>The stop\<close>

definition scn_exit :: found_exit where
  "scn_exit = \<lparr>fx_position = scn_position, fx_observation = scn_observation, fx_reason = STOP\<rparr>"

lemma scn_find_exit: "find_exit [scn_crash] [] 4000000 scn_position = Inr (Some scn_exit)"
  by (simp add: find_exit_def exit_observations_def scn_spot extra_observations_def map_filter_def)
    (simp add: scn_observation_def exit_decision_def liftM_def scn_exit_def)

definition scn_settlement :: settlement where
  "scn_settlement = \<lparr>st_quantity = 80859 / 5000, st_entry_price = 414 / 5, st_exit_price = 60, st_gross = - (9218 / 25),
     st_entry_fee = 0, st_exit_fee = 0, st_fees = 0, st_net = - (9218 / 25), st_outcome = LOSS\<rparr>"

lemma scn_settlement_ok:
  "settle_long (DFin (80859 / 5000)) (DFin (414 / 5)) (DFin 60) (DFin 0) = Inr scn_settlement"
proof -
  have "\<lfloor>- (4608963 / 125 :: rat)\<rfloor> = - 36872" by (simp add: floor_eq_iff)
  then show ?thesis
    by (simp add: settle_long_def require_positive_def require_nonnegative_def BPS_def scn_settlement_def
        classify_def money_eval cong: bindE_weak_cong)
qed

lemma to_cents_loss [simp]: "to_cents (- (9218 / 25)) = Inr (- 36872)"
  by (simp add: to_cents_def liftM_def money_eval default_context_def HUNDRED_def sqlite_int_def)

definition scn_close :: stored_close where
  "scn_close = \<lparr>sc_close_id = 1, sc_position_id = 1, sc_exit_reason = STOP, sc_exit_source = SPOT_SNAPSHOT_SOURCE,
     sc_exit_observation_id = 7, sc_exit_bid = 60, sc_exit_ask = 61, sc_exit_ts = 3000000, sc_record_lag = 1000000,
     sc_quantity = 80859 / 5000, sc_gross_cents = - 36872, sc_entry_fee_cents = 0, sc_exit_fee_cents = 0, sc_fees_cents = 0,
     sc_net_cents = - 36872, sc_outcome = LOSS, sc_stop = 80, sc_stop_slippage = 20, sc_stop_slippage_bps = 2500,
     sc_closed_at = 4000000\<rparr>"

definition scn_db5 :: pilot_db where "scn_db5 = scn_db2\<lparr>pd_closes := [scn_close]\<rparr>"

lemma scn_write: "write_close scn_exit 4000000 scn_db2 = Inr (Some 1, scn_db5)"
proof -
  have ev: "exit_evidence scn_exit 4000000 scn_db2 = Inr (SPOT_SNAPSHOT_SOURCE, 7, scn_db2)"
    by (simp add: exit_evidence_def scn_exit_def scn_observation_def)
  have row: "close_row scn_exit 4000000 scn_settlement SPOT_SNAPSHOT_SOURCE 7 1 = Inr scn_close"
    by (simp add: close_row_def scn_exit_def scn_observation_def scn_settlement_def scn_close_def liftM_def BPS_def money_eval
        cong: bindE_weak_cong)
  have ins: "insert_close scn_close scn_db2 = Inr scn_db5"
    by (simp add: insert_close_def scn_close_def has_close_def close_check_def scn_db5_def)
  show ?thesis using scn_settlement_ok ev row ins
    by (simp add: write_close_def scn_exit_def has_close_def scn_observation_def liftM_def) (simp add: scn_close_def)
qed

definition scn_state2 :: account_state_t where
  "scn_state2 = \<lparr>as_equity = 508282 / 25, as_cash = 508282 / 25, as_realized = - (9218 / 25), as_open_positions = [],
     as_open_planned_loss = 0, as_open_notional = 0\<rparr>"

lemma scn_closed_state: "compute_state [scn_crash] [] 4000000 scn_account scn_db5 = Inr scn_state2"
proof -
  have "from_cents (sc_net_cents scn_close) = - (9218 / 25)"
    by (simp add: from_cents_def scn_close_def HUNDRED_def default_context_def money_eval)
  moreover have "pd_closes scn_db5 = [scn_close]" "read_open_positions scn_db5 = []"
    by (simp_all add: scn_db5_def read_open_positions_def has_close_def) (simp_all add: scn_close_def)
  ultimately show ?thesis
    by (simp add: compute_state_def scn_account_def account_equity_def available_cash_def risk_sum_def
      require_positive_def scn_state2_def rsum_def liftM_def money_eval)
qed

definition scn_lock2 :: lock_row where
  "scn_lock2 = \<lparr>lk_lock_id = 1, lk_kind = DAILY_LOSS, lk_equity = 508282 / 25, lk_reference = 20700, lk_limit_pct = 1,
     lk_utc_day = 0, lk_evaluated_on = SETTLE, lk_tripped_at = 4000000\<rparr>"

definition scn_db6 :: pilot_db where "scn_db6 = scn_db5\<lparr>pd_locks := [scn_lock2]\<rparr>"

lemma scn_settle_lock: "\<exists>ev. eval_locks scn_account scn_state2 4000000 SETTLE scn_db5 = Inr (ev, scn_db6)"
proof -
  have m: "day_start scn_db5 0 = Some 20700" "high_water scn_db5 = Some 20700"
    by (simp_all add: day_start_def high_water_def last_row_def scn_mark_def scn_day_def scn_db5_def)
  have d: "ensure_day_start 4000000 (508282 / 25) scn_db5 = Inr (20700, scn_db5)"
    by (simp add: ensure_day_start_def utc_day_def seconds_def m)
  have h: "raise_high_water 4000000 (508282 / 25) scn_db5 = Inr (20700, scn_db5)"
    by (simp add: raise_high_water_def m next_high_water_def require_positive_def liftM_def)
  have "lit_value (daily_loss_pct sample_env) = 1" by (simp add: sample_env_def dec_value_def)
  then have t: "trip_lock sample_env (508282 / 25) 20700 20700 4000000 SETTLE DAILY_LOSS scn_db5 = scn_db6"
    by (simp add: trip_lock_def scn_db6_def scn_db5_def scn_lock2_def utc_day_def seconds_def)
  have "tripped_locks sample_env (DFin (508282 / 25)) (DFin 20700) (DFin 20700) = Inr [DAILY_LOSS]"
    by (simp add: tripped_locks_def daily_lock_tripped_def drawdown_lock_tripped_def require_positive_def sample_env_def percent_of_def
      HUNDRED_def dec_value_cents money_eval)
  moreover have "active_locks scn_db5 = []" by (simp add: active_locks_def scn_db5_def)
  ultimately show ?thesis using d h t
    by (simp add: eval_locks_def scn_account_def scn_state2_def liftM_def)
qed

lemma scn_closed: "\<exists>rep. close_positions scn_pe [scn_crash] (Aware 4000000) [] None scn_db2 = (Inr rep, scn_db6)"
proof -
  obtain ev where ev: "eval_locks scn_account scn_state2 4000000 SETTLE scn_db5 = Inr (ev, scn_db6)" using scn_settle_lock by blast
  have "collect_exits [scn_crash] [] 4000000 None scn_db2 = Inr ([scn_exit], [])"
    using scn_find_exit by (simp add: collect_exits_def read_open_positions_def has_close_def wanted_def collect_exit_def)
  moreover have "close_work scn_pe [scn_crash] [] 4000000 ([scn_exit], []) scn_db2 =
      Inr (\<lparr>cr_closed = filter (\<lambda>c. sc_close_id c \<in> {1}) (pd_closes scn_db6), cr_pending = [], cr_locks = ev\<rparr>, scn_db6)"
    using scn_require[of scn_db2] scn_write scn_closed_state ev by (simp add: close_work_def write_closes_def)
  ultimately show ?thesis by (simp add: close_positions_def with_args_def close_args_def check_extra_quotes_def body_result_def)
qed

definition scn_m5 :: pilot_machine where
  "scn_m5 = machine_step (StoreOp (ClosePositions scn_pe [scn_crash] (Aware 4000000) [] None)) scn_m2"

lemma scn_m5_db: "pm_db scn_m5 = scn_db6"
  using scn_closed by (auto simp: scn_m5_def scn_m2_db)

lemma scn_m5_reachable: "pilot_reachable scn_m5"
  unfolding scn_m5_def by (intro Step scn_m2_reachable)

lemma scn_m5_closes: "pd_closes (pm_db scn_m5) = [scn_close]"
  by (simp add: scn_m5_db scn_db6_def scn_db5_def)

section \<open>Asking again\<close>

lemma scn_reopen: "\<exists>rep db'. open_candidates scn_pe [] [scn_candidate] sample_env (DFin 0) (Aware 2000000) [] scn_db2 = (Inr rep, db')"
proof -
  let ?st = "scn_state1\<lparr>as_equity := 1034919141 / 50000\<rparr>"
  have c: "compute_state [] [] 2000000 scn_account scn_db2 = Inr ?st"
    by (rule scn_compute_open[OF _ _ scn_mark_entry]) (simp_all add: money_eval)
  have d: "ensure_day_start 2000000 (1034919141 / 50000) scn_db2 = Inr (20700, scn_db2)"
    by (simp add: ensure_day_start_def utc_day_def seconds_def scn_marks_db2)
  have h: "raise_high_water 2000000 (1034919141 / 50000) scn_db2 = Inr (20700, scn_db2)"
    by (simp add: raise_high_water_def scn_marks_db2 next_high_water_def require_positive_def liftM_def)
  have "tripped_locks sample_env (DFin (1034919141 / 50000)) (DFin 20700) (DFin 20700) = Inr []"
    by (simp add: tripped_locks_def daily_lock_tripped_def drawdown_lock_tripped_def require_positive_def sample_env_def percent_of_def
      HUNDRED_def dec_value_cents money_eval)
  then obtain ev where ev: "eval_locks scn_account ?st 2000000 ENTRY scn_db2 = Inr (ev, scn_db2)"
    using d h by (simp add: eval_locks_def scn_account_def liftM_def)
  have cd: "check_candidate scn_candidate = Inr (scn_candidate, 1000000)" by code_simp
  have "decided scn_db2 (pc_event_id scn_candidate)" by (simp add: decided_def scn_decision_def scn_candidate_def)
  then have "\<exists>rep. open_work scn_pe [] [] scn_sha 0 2000000 [(scn_candidate, 1000000)] scn_db2 = Inr (rep, scn_db2)"
    using scn_require[of scn_db2] c ev by (simp add: open_work_def open_step_def)
  then show ?thesis using cd by (auto simp: open_candidates_def with_args_def check_extra_quotes_def body_result_def)
qed

end
