(* ===== verification/Pilot_Properties.thy ===== *)
theory Pilot_Properties
  imports Pilot_Scenario "HOL-Library.Sublist"
begin

text \<open>
  The properties of the pilot store: invariants of every reachable state, proved by rule induction over the
  elementary changes, and the behaviour of single operations.
\<close>

section \<open>Invariants\<close>

text \<open>The rows keep their order and are never changed.\<close>

definition history_kept :: "pilot_db \<Rightarrow> pilot_db \<Rightarrow> bool" where
  "history_kept db db' \<longleftrightarrow>
     (pd_account db \<noteq> None \<longrightarrow> pd_account db' = pd_account db)
     \<and> prefix (pd_decisions db) (pd_decisions db') \<and> prefix (pd_positions db) (pd_positions db')
     \<and> prefix (pd_closes db) (pd_closes db') \<and> prefix (pd_exit_quotes db) (pd_exit_quotes db')
     \<and> prefix (pd_marks db) (pd_marks db') \<and> prefix (pd_locks db) (pd_locks db')
     \<and> prefix (pd_reviews db) (pd_reviews db') \<and> prefix (pd_switches db) (pd_switches db')"

lemma history_kept_refl: "history_kept db db"
  by (simp add: history_kept_def)

lemma history_kept_trans: "history_kept a b \<Longrightarrow> history_kept b c \<Longrightarrow> history_kept a c"
  unfolding history_kept_def by (auto intro: prefix_order.trans)

lemma pilot_change_history: "pilot_change F db db' \<Longrightarrow> history_kept db db'"
  by (induction rule: pilot_change.induct) (auto simp: history_kept_def)

lemma pilot_changes_history: "pilot_changes F db db' \<Longrightarrow> history_kept db db'"
  by (induction rule: rtranclp_induct) (auto intro: history_kept_refl history_kept_trans pilot_change_history)

text \<open>The decision log and the positions agree.\<close>

definition log_ok :: "pilot_db \<Rightarrow> bool" where
  "log_ok db \<longleftrightarrow>
     map sd_decision_id (pd_decisions db) = [1..<Suc (length (pd_decisions db))]
     \<and> map sp_position_id (pd_positions db) = [1..<Suc (length (pd_positions db))]
     \<and> distinct (map sd_event_id (pd_decisions db)) \<and> list_all decision_check (pd_decisions db)
     \<and> list_all2 (\<lambda>p d. sp_decision_id p = sd_decision_id d \<and> sp_event_id p = sd_event_id d \<and> entry_ok d p)
         (pd_positions db) (filter (\<lambda>d. sd_outcome d = OPENED) (pd_decisions db))"

lemma log_ok_cong:
  "pd_decisions db' = pd_decisions db \<Longrightarrow> pd_positions db' = pd_positions db \<Longrightarrow> log_ok db \<Longrightarrow> log_ok db'"
  by (simp add: log_ok_def)

lemma not_decided: "\<not> decided db e \<longleftrightarrow> e \<notin> set (map sd_event_id (pd_decisions db))"
  by (auto simp: decided_def list_ex_iff)

lemma log_ok_change: "pilot_change F db db' \<Longrightarrow> log_ok db \<Longrightarrow> log_ok db'"
proof (induction rule: pilot_change.induct)
  case (DecisionC d db)
  then show ?case by (simp add: log_ok_def not_decided)
next
  case (OpenC d db p)
  then show ?case by (auto simp: log_ok_def not_decided intro: list_all2_appendI)
qed (auto elim: log_ok_cong[rotated -1])

text \<open>Closes and open positions.\<close>

definition closes_ok :: "pilot_db \<Rightarrow> bool" where
  "closes_ok db \<longleftrightarrow>
     distinct (map sc_position_id (pd_closes db)) \<and> list_all close_check (pd_closes db)
     \<and> length (read_open_positions db) \<le> 1"

lemma open_after_close:
  "read_open_positions (db\<lparr>pd_closes := pd_closes db @ [c]\<rparr>) =
     filter (\<lambda>p. sp_position_id p \<noteq> sc_position_id c) (read_open_positions db)"
  unfolding read_open_positions_def filter_filter by (rule filter_cong) (auto simp: has_close_def)

lemma open_cong:
  "pd_positions db' = pd_positions db \<Longrightarrow> pd_closes db' = pd_closes db \<Longrightarrow> read_open_positions db' = read_open_positions db"
  by (simp add: read_open_positions_def has_close_def)

lemma closes_ok_cong:
  "pd_positions db' = pd_positions db \<Longrightarrow> pd_closes db' = pd_closes db \<Longrightarrow> closes_ok db \<Longrightarrow> closes_ok db'"
  using open_cong[of db' db] by (simp add: closes_ok_def)

lemma open_after_open:
  "read_open_positions (db\<lparr>pd_decisions := ds, pd_positions := pd_positions db @ [p]\<rparr>) =
     read_open_positions db @ filter (\<lambda>p. \<not> has_close db (sp_position_id p)) [p]"
  by (simp add: read_open_positions_def has_close_def)

lemma closes_ok_change: "pilot_change F db db' \<Longrightarrow> closes_ok db \<Longrightarrow> closes_ok db'"
proof (induction rule: pilot_change.induct)
  case (OpenC d db p)
  then show ?case by (simp add: closes_ok_def open_after_open)
next
  case (CloseC db c fx t)
  have "sc_position_id c \<notin> set (map sc_position_id (pd_closes db))"
    using CloseC.hyps(1) by (auto simp: has_close_def list_ex_iff)
  moreover have "length (read_open_positions (db\<lparr>pd_closes := pd_closes db @ [c]\<rparr>)) \<le> length (read_open_positions db)"
    by (simp add: open_after_close)
  ultimately show ?case using CloseC by (simp add: closes_ok_def)
qed (auto elim: closes_ok_cong[rotated -1])

text \<open>Locks and reviews.\<close>

definition locks_ok :: "pilot_db \<Rightarrow> bool" where
  "locks_ok db \<longleftrightarrow>
     map lk_lock_id (pd_locks db) = [1..<Suc (length (pd_locks db))]
     \<and> distinct (map rv_lock_id (pd_reviews db)) \<and> rv_lock_id ` set (pd_reviews db) \<subseteq> lk_lock_id ` set (pd_locks db)
     \<and> distinct (map lk_kind (active_locks db))"

lemma active_cong:
  "pd_locks db' = pd_locks db \<Longrightarrow> pd_reviews db' = pd_reviews db \<Longrightarrow> active_locks db' = active_locks db"
  by (simp add: active_locks_def lock_reviewed_def)

lemma locks_ok_cong:
  "pd_locks db' = pd_locks db \<Longrightarrow> pd_reviews db' = pd_reviews db \<Longrightarrow> locks_ok db \<Longrightarrow> locks_ok db'"
  using active_cong[of db' db] by (simp add: locks_ok_def)

lemma active_after_review:
  "active_locks (db\<lparr>pd_reviews := pd_reviews db @ [rv]\<rparr>) = filter (\<lambda>l. lk_lock_id l \<noteq> rv_lock_id rv) (active_locks db)"
  unfolding active_locks_def filter_filter by (rule filter_cong) (auto simp: lock_reviewed_def)

lemma active_after_lock:
  "active_locks (db\<lparr>pd_locks := pd_locks db @ [l]\<rparr>) = active_locks db @ filter (\<lambda>l. \<not> lock_reviewed db (lk_lock_id l)) [l]"
  by (simp add: active_locks_def lock_reviewed_def)

lemma not_reviewed: "\<not> lock_reviewed db i \<longleftrightarrow> i \<notin> set (map rv_lock_id (pd_reviews db))"
  by (auto simp: lock_reviewed_def list_ex_iff)

lemma distinct_map_filter: "distinct (map f xs) \<Longrightarrow> distinct (map f (filter P xs))"
  by (simp add: distinct_map inj_on_def)

lemma locks_ok_change: "pilot_change F db db' \<Longrightarrow> locks_ok db \<Longrightarrow> locks_ok db'"
proof (induction rule: pilot_change.induct)
  case (LockC l db)
  then have "distinct (map lk_kind (active_locks db @ filter (\<lambda>l. \<not> lock_reviewed db (lk_lock_id l)) [l]))"
    by (auto simp: locks_ok_def)
  then show ?case using LockC by (auto simp: locks_ok_def active_after_lock)
next
  case (ReviewC rv db)
  then show ?case by (auto simp: locks_ok_def active_after_review not_reviewed distinct_map_filter)
qed (auto elim: locks_ok_cong[rotated -1])

definition pilot_ok :: "pilot_db \<Rightarrow> bool" where
  "pilot_ok db \<longleftrightarrow> log_ok db \<and> closes_ok db \<and> locks_ok db"

lemma pilot_ok_changes: "pilot_changes F db db' \<Longrightarrow> pilot_ok db \<Longrightarrow> pilot_ok db'"
  by (induction rule: rtranclp_induct) (auto simp: pilot_ok_def dest: log_ok_change closes_ok_change locks_ok_change)

lemma pilot_ok_empty: "pilot_ok empty_pilot"
  by (simp add: pilot_ok_def log_ok_def closes_ok_def locks_ok_def empty_pilot_def read_open_positions_def active_locks_def)

lemma pilot_ok_reachable: "pilot_reachable m \<Longrightarrow> pilot_ok (pm_db m)"
  by (induction rule: pilot_reachable.induct) (auto simp: pilot_ok_empty intro: pilot_ok_changes[OF machine_step_changes])

text \<open>Every close comes from an exit that a read phase found.\<close>

definition exits_ok :: "pilot_machine \<Rightarrow> bool" where
  "exits_ok m \<longleftrightarrow>
     (\<forall>c \<in> set (pd_closes (pm_db m)). \<exists>fx t. exit_found (pm_db m) (fx, t) \<and> close_of fx t c)
     \<and> (\<forall>pr \<in> set (pm_prepared m). \<forall>fx \<in> set (fst (pr_found pr)). exit_found (pm_db m) (fx, pr_now pr))"

lemma exit_found_mono: "exit_found db fxt \<Longrightarrow> history_kept db db' \<Longrightarrow> exit_found db' fxt"
  by (auto simp: exit_found_def history_kept_def dest: set_mono_prefix)

lemma change_closes:
  "pilot_change F db db' \<Longrightarrow> \<forall>c \<in> set (pd_closes db). \<exists>fx t. (fx, t) \<in> fst F \<and> close_of fx t c \<Longrightarrow>
     \<forall>c \<in> set (pd_closes db'). \<exists>fx t. (fx, t) \<in> fst F \<and> close_of fx t c"
  by (induction rule: pilot_change.induct) auto

lemma changes_closes:
  "pilot_changes F db db' \<Longrightarrow> \<forall>c \<in> set (pd_closes db). \<exists>fx t. (fx, t) \<in> fst F \<and> close_of fx t c \<Longrightarrow>
     \<forall>c \<in> set (pd_closes db'). \<exists>fx t. (fx, t) \<in> fst F \<and> close_of fx t c"
  by (induction rule: rtranclp_induct) (blast dest: change_closes)+

lemma prepared_step: 
  "set (pm_prepared (machine_step op m)) \<subseteq> set (pm_prepared m)
   \<or> (\<exists>pr. set (pm_prepared (machine_step op m)) \<subseteq> insert pr (set (pm_prepared m)) \<and> pm_db (machine_step op m) = pm_db m
        \<and> (\<forall>fx \<in> set (fst (pr_found pr)). exit_found (pm_db m) (fx, pr_now pr)))"
proof (cases op)
  case (ReadExits snaps now qs ids)
  show ?thesis
  proof (cases "close_args now qs ids")
    case (Inr a)
    obtain t extras js where a: "a = (t, extras, js)" by (cases a)
    show ?thesis
    proof (cases "collect_exits snaps extras t js (pm_db m)")
      case found: (Inr found)
      show ?thesis using collect_exits_found[OF found] Inr a found ReadExits
        by (intro disjI2 exI[of _ "\<lparr>pr_snaps = snaps, pr_extras = extras, pr_now = t, pr_found = found\<rparr>"]) auto
    qed (use Inr a ReadExits in simp)
  qed (simp add: ReadExits)
qed (auto simp: Let_def)

lemma exits_ok_step:
  assumes "exits_ok m"
  shows "exits_ok (machine_step op m)"
proof -
  let ?m = "machine_step op m"
  note ch = machine_step_changes[of m op] and h = pilot_changes_history[OF machine_step_changes[of m op]]
  have "\<forall>c \<in> set (pd_closes (pm_db m)). \<exists>fx t. (fx, t) \<in> step_exits m \<and> close_of fx t c"
    using assms unfolding exits_ok_def step_exits_def by blast
  then have "\<forall>c \<in> set (pd_closes (pm_db ?m)). \<exists>fx t. (fx, t) \<in> step_exits m \<and> close_of fx t c"
    using changes_closes[OF ch] by simp
  moreover have "exit_found (pm_db ?m) fxt" if "fxt \<in> step_exits m" for fxt
    using that assms exit_found_mono[OF _ h] unfolding step_exits_def exits_ok_def by blast
  moreover have "exit_found (pm_db ?m) (fx, pr_now pr)" if "pr \<in> set (pm_prepared ?m)" "fx \<in> set (fst (pr_found pr))" for pr fx
    using prepared_step[of op m] that assms exit_found_mono[OF _ h] by (auto simp: exits_ok_def)
  ultimately show ?thesis unfolding exits_ok_def by blast
qed

lemma exits_ok_reachable: "pilot_reachable m \<Longrightarrow> exits_ok m"
proof (induction rule: pilot_reachable.induct)
  case Start
  then show ?case by (simp add: exits_ok_def empty_pilot_def)
qed (rule exits_ok_step)

lemma list_all2_in: "list_all2 P xs ys \<Longrightarrow> x \<in> set xs \<Longrightarrow> \<exists>y \<in> set ys. P x y"
  by (induction rule: list_all2_induct) auto

subsection \<open>Failed operations\<close>


lemma account_work_read:
  assumes "account_work pe env t db = Inr (u, db')" and "read_account pe db = Inr None" and "make_envelope a = Inr env"
  shows "require_account pe db' = Inr \<lparr>ac_envelope = env, ac_sha256 = envelope_sha256 pe env, ac_recorded_at = t\<rparr>"
proof -
  obtain row db1 m where "insert_account row db = Inr db1" "insert_mark m db1 = Inr db'"
    "ar_envelope_json row = canonical_text env" "ar_sha256 row = envelope_sha256 pe env" "ar_recorded_at row = t"
    using assms(1,2) by (fastforce simp: account_work_def bindE_eq_Inr)
  then show ?thesis using parse_canonical[OF assms(3)]
    by (auto simp: require_account_def read_account_def insert_account_def split: if_splits dest!: insert_markE)
qed




subsection \<open>Active locks\<close>




subsection \<open>Opening behind a closed gate\<close>

text \<open>What a run of the loop over the candidates has written so far behind a closed gate.\<close>

definition only_refused :: "pilot_db \<Rightarrow> open_run \<times> pilot_db \<Rightarrow> bool" where
  "only_refused db runs \<longleftrightarrow>
     pd_positions (snd runs) = pd_positions db \<and> pd_closes (snd runs) = pd_closes db
     \<and> (\<exists>ds. pd_decisions (snd runs) = pd_decisions db @ ds \<and> (\<forall>d \<in> set ds. sd_outcome d = NO_TRADE \<and> sd_reason d \<noteq> None))
     \<and> as_open_positions (or_state (fst runs)) = read_open_positions db"

lemma only_refused_step:
  assumes "open_step pe snaps extras acc sha fee engaged kinds t cand runs = Inr runs'"
    and "max_positions (ac_envelope acc) = 1" and "engaged \<or> kinds \<noteq> [] \<or> read_open_positions db \<noteq> []"
    and "only_refused db runs"
  shows "only_refused db runs'"
proof -
  obtain c ts run d run' d' where [simp]: "cand = (c, ts)" "runs = (run, d)" "runs' = (run', d')"
    by (cases cand; cases runs; cases runs') auto
  from assms(1)[simplified] assms(2) show ?thesis
  proof (cases rule: open_step_cases)
    case already
    then show ?thesis using assms(4) by (simp add: only_refused_def)
  next
    case (no_trade x refusal plan)
    obtain ds where "pd_decisions d = pd_decisions db @ ds" "\<forall>d \<in> set ds. sd_outcome d = NO_TRADE \<and> sd_reason d \<noteq> None"
      using assms(4) by (auto simp: only_refused_def)
    moreover have "sd_reason x \<noteq> None" using no_trade(3,5) by (auto simp: decision_check_def)
    ultimately have "pd_decisions d' = pd_decisions db @ (ds @ [x])"
        "\<forall>d \<in> set (ds @ [x]). sd_outcome d = NO_TRADE \<and> sd_reason d \<noteq> None" using no_trade(3,6) by auto
    then show ?thesis using assms(4) no_trade(6,7) unfolding only_refused_def by (intro conjI exI[of _ "ds @ [x]"]) auto
  next
    case (opens x pl st)
    then show ?thesis using assms(3,4) by (simp add: only_refused_def)
  qed
qed

subsection \<open>Marks and tripped locks\<close>

lemma last_row_snoc: "last_row P (xs @ [x]) = (if P x then Some x else last_row P xs)"
  by (simp add: last_row_def)







lemma first_exit_None:
  "first_exit p obs = Inr None \<Longrightarrow> \<forall>ob \<in> set obs. exit_decision LONG (DFin (sp_stop p)) (DFin (sp_target p)) (Aware (sp_due_at p))
         (Aware (ob_observed_at ob)) (ob_quote ob) = Inr None"
  by (induction obs) (auto simp: bindE_eq_Inr split: option.splits)

section \<open>Reachable states\<close>

text \<open>
  C1: Whatever operations run, and however the read and write phases of several closers interleave with them, at most one
  position is open at any time.
\<close>

theorem single_open_position:
  assumes "pilot_reachable m"
  shows "length (read_open_positions (pm_db m)) \<le> 1"
  using pilot_ok_reachable[OF assms] by (simp add: pilot_ok_def closes_ok_def)

theorem single_open_position_witness:
  "pilot_reachable scn_m2 \<and> pd_positions (pm_db scn_m2) = [scn_position] \<and> length (read_open_positions (pm_db scn_m2)) \<le> 1"
  using single_open_position[OF scn_m2_reachable] scn_m2_reachable by (simp add: scn_m2_db)

text \<open>
  C24: Every event is decided at most once, every stored decision satisfies its constraints, and the positions are exactly
  the opened decisions, one position for each, in the same order.
\<close>

theorem decisions_match_positions:
  assumes "pilot_reachable m"
  shows "distinct (map sd_event_id (pd_decisions (pm_db m)))
    \<and> (\<forall>d \<in> set (pd_decisions (pm_db m)). decision_check d)
    \<and> map (\<lambda>p. (sp_decision_id p, sp_event_id p)) (pd_positions (pm_db m)) =
        map (\<lambda>d. (sd_decision_id d, sd_event_id d)) (filter (\<lambda>d. sd_outcome d = OPENED) (pd_decisions (pm_db m)))"
proof -
  have l: "log_ok (pm_db m)" using pilot_ok_reachable[OF assms] by (simp add: pilot_ok_def)
  have "list_all2 (\<lambda>p d. sp_decision_id p = sd_decision_id d \<and> sp_event_id p = sd_event_id d) xs ys \<Longrightarrow>
      map (\<lambda>p. (sp_decision_id p, sp_event_id p)) xs = map (\<lambda>d. (sd_decision_id d, sd_event_id d)) ys" for xs ys
    by (induction rule: list_all2_induct) auto
  moreover have "list_all2 (\<lambda>p d. sp_decision_id p = sd_decision_id d \<and> sp_event_id p = sd_event_id d)
      (pd_positions (pm_db m)) (filter (\<lambda>d. sd_outcome d = OPENED) (pd_decisions (pm_db m)))"
    using l by (auto simp: log_ok_def elim: list_all2_mono)
  ultimately show ?thesis using l by (auto simp: log_ok_def list_all_iff)
qed

theorem decisions_match_positions_witness:
  "pd_decisions (pm_db scn_m2) = [scn_decision] \<and> decision_check scn_decision
   \<and> (sp_decision_id scn_position, sp_event_id scn_position) = (sd_decision_id scn_decision, sd_event_id scn_decision)"
proof -
  have "sd_outcome scn_decision = OPENED" by (simp add: scn_decision_def)
  then show ?thesis using decisions_match_positions[OF scn_m2_reachable] by (simp add: scn_m2_db)
qed

text \<open>
  C2: Every position ever opened obeys the EX-1 limits of the equity that its own decision records: a positive quantity,
  the stop below and the target above the entry ask, and, for an equity of at most 48 digits, a planned loss of at most
  0.25 percent and a notional of at most 10 percent of that equity.
\<close>

theorem entries_within_ex1:
  assumes "pilot_reachable m" and "p \<in> set (pd_positions (pm_db m))"
  shows "\<exists>d \<in> set (pd_decisions (pm_db m)). sd_decision_id d = sp_decision_id p \<and> sd_outcome d = OPENED
    \<and> 0 < sp_quantity p \<and> 0 < sp_stop p \<and> sp_stop p < sp_entry_ask p \<and> sp_entry_ask p < sp_target p
    \<and> (\<exists>eq. decision_value d ''equity'' = Some eq
         \<and> (representable 48 eq \<longrightarrow> sp_planned_loss p \<le> eq / 400 \<and> sp_notional p \<le> eq / 10))"
proof -
  have "log_ok (pm_db m)" using pilot_ok_reachable[OF assms(1)] by (simp add: pilot_ok_def)
  then obtain d where "d \<in> set (filter (\<lambda>d. sd_outcome d = OPENED) (pd_decisions (pm_db m)))"
    "sp_decision_id p = sd_decision_id d" "entry_ok d p"
    using list_all2_in[of _ "pd_positions (pm_db m)" _ p] assms(2) unfolding log_ok_def by blast
  then show ?thesis by (intro bexI[of _ d]) (auto simp: entry_ok_def)
qed

theorem entries_within_ex1_witness:
  "pd_positions (pm_db scn_m2) = [scn_position] \<and> 0 < sp_stop scn_position \<and> sp_stop scn_position < sp_entry_ask scn_position
   \<and> (\<exists>eq. decision_value scn_decision ''equity'' = Some eq
        \<and> (representable 48 eq \<longrightarrow> sp_planned_loss scn_position \<le> eq / 400 \<and> sp_notional scn_position \<le> eq / 10))"
proof -
  have "scn_position \<in> set (pd_positions (pm_db scn_m2))" by (simp add: scn_m2_db)
  from entries_within_ex1[OF scn_m2_reachable this] show ?thesis by (auto simp: scn_m2_db)
qed

text \<open>
  C7: A position is closed at most once, and every close is a real exit of its position: the full quantity, an observation
  strictly after the entry and not after the close, at which the stop, the target or the due time had triggered, with
  net result gross minus fees.
\<close>

theorem closes_are_exits:
  assumes "pilot_reachable m"
  shows "distinct (map sc_position_id (pd_closes (pm_db m)))
    \<and> (\<forall>c \<in> set (pd_closes (pm_db m)). \<exists>p \<in> set (pd_positions (pm_db m)).
         sp_position_id p = sc_position_id c \<and> sc_quantity c = sp_quantity p
         \<and> sp_entry_ts p < sc_exit_ts c \<and> sc_exit_ts c \<le> sc_closed_at c
         \<and> (case sc_exit_reason c of
              STOP \<Rightarrow> sc_exit_bid c \<le> sp_stop p
            | TARGET \<Rightarrow> sp_stop p < sc_exit_bid c \<and> sp_target p \<le> sc_exit_bid c
            | TIME \<Rightarrow> sp_stop p < sc_exit_bid c \<and> sc_exit_bid c < sp_target p \<and> sp_due_at p \<le> sc_exit_ts c)
         \<and> sc_net_cents c = sc_gross_cents c - sc_fees_cents c)"
proof -
  have ok: "closes_ok (pm_db m)" using pilot_ok_reachable[OF assms] by (simp add: pilot_ok_def)
  moreover have "\<exists>p \<in> set (pd_positions (pm_db m)).
         sp_position_id p = sc_position_id c \<and> sc_quantity c = sp_quantity p
         \<and> sp_entry_ts p < sc_exit_ts c \<and> sc_exit_ts c \<le> sc_closed_at c
         \<and> (case sc_exit_reason c of
              STOP \<Rightarrow> sc_exit_bid c \<le> sp_stop p
            | TARGET \<Rightarrow> sp_stop p < sc_exit_bid c \<and> sp_target p \<le> sc_exit_bid c
            | TIME \<Rightarrow> sp_stop p < sc_exit_bid c \<and> sc_exit_bid c < sp_target p \<and> sp_due_at p \<le> sc_exit_ts c)
         \<and> sc_net_cents c = sc_gross_cents c - sc_fees_cents c" if c: "c \<in> set (pd_closes (pm_db m))" for c
  proof -
    obtain fx t where f: "exit_found (pm_db m) (fx, t)" "close_of fx t c"
      using exits_ok_reachable[OF assms] c by (auto simp: exits_ok_def)
    moreover have "close_check c" using ok c by (auto simp: closes_ok_def list_all_iff)
    ultimately show ?thesis
      by (intro bexI[of _ "fx_position fx"])
        (auto simp: exit_found_def close_of_def close_check_def exit_decision_def bindE_eq_Inr not_le split: if_splits)
  qed
  ultimately show ?thesis unfolding closes_ok_def by blast
qed

theorem closes_are_exits_witness:
  "pd_closes (pm_db scn_m5) = [scn_close] \<and> (\<exists>p \<in> set (pd_positions (pm_db scn_m5)).
     sp_position_id p = sc_position_id scn_close \<and> sp_entry_ts p < sc_exit_ts scn_close \<and> sc_exit_bid scn_close \<le> sp_stop p)"
proof -
  have "sc_exit_reason scn_close = STOP" by (simp add: scn_close_def)
  then show ?thesis using closes_are_exits[OF scn_m5_reachable] by (auto simp: scn_m5_closes)
qed

text \<open>
  The store only appends: no step changes or removes a row of any table, and the account, once recorded, never changes.
\<close>

lemma pilot_history_append_only:
  "(pd_account (pm_db m) \<noteq> None \<longrightarrow> pd_account (pm_db (machine_step op m)) = pd_account (pm_db m))
   \<and> prefix (pd_decisions (pm_db m)) (pd_decisions (pm_db (machine_step op m)))
   \<and> prefix (pd_positions (pm_db m)) (pd_positions (pm_db (machine_step op m)))
   \<and> prefix (pd_closes (pm_db m)) (pd_closes (pm_db (machine_step op m)))
   \<and> prefix (pd_exit_quotes (pm_db m)) (pd_exit_quotes (pm_db (machine_step op m)))
   \<and> prefix (pd_marks (pm_db m)) (pd_marks (pm_db (machine_step op m)))
   \<and> prefix (pd_locks (pm_db m)) (pd_locks (pm_db (machine_step op m)))
   \<and> prefix (pd_reviews (pm_db m)) (pd_reviews (pm_db (machine_step op m)))
   \<and> prefix (pd_switches (pm_db m)) (pd_switches (pm_db (machine_step op m)))"
  using pilot_changes_history[OF machine_step_changes[of m op]] unfolding history_kept_def .



section \<open>Single operations\<close>



text \<open>
  The first account wins: recording an account on an empty store returns the given envelope, and from then on, after
  any changes, asking for an account with any other envelope returns the recorded one and writes nothing.
\<close>

lemma first_account_wins:
  assumes "ensure_account pe env now db = (Inr acc, db')" and "make_envelope a = Inr env"
    and "pilot_changes F db' db''"
  shows "(pd_account db = None \<longrightarrow> ac_envelope acc = env)
    \<and> ensure_account pe env' (Aware t') db'' = (Inr acc, db'')"
proof -
  have acc: "read_account pe db' = Inr (Some acc)" and first: "pd_account db = None \<longrightarrow> ac_envelope acc = env"
  proof -
    have "read_account pe db' = Inr (Some acc) \<and> (pd_account db = None \<longrightarrow> ac_envelope acc = env)"
    proof (cases now)
      case (Aware t)
      show ?thesis
      proof (cases "read_account pe db = Inr None")
        case None: True
        obtain u where "pilot_tx pe (account_work pe env t) db = (Inr u, db')" and req: "require_account pe db' = Inr acc"
          using assms(1) None Aware by (auto simp: ensure_account_def with_args_def split: prod.splits sum.splits)
        then have "account_work pe env t db = Inr (u, db')" by (intro ptx.write_commit)
        from account_work_read[OF this None assms(2)] req show ?thesis
          by (auto simp: require_account_def bindE_eq_Inr split: option.splits)
      next
        case False
        then show ?thesis using assms(1) Aware
          by (auto simp: ensure_account_def with_args_def read_account_def split: sum.splits option.splits)
      qed
    qed (use assms(1) in \<open>simp add: ensure_account_def with_args_def\<close>)
    then show "read_account pe db' = Inr (Some acc)" "pd_account db = None \<longrightarrow> ac_envelope acc = env" by blast+
  qed
  have "pd_account db' \<noteq> None" using acc by (cases "pd_account db'") (auto simp: read_account_def)
  then have "pd_account db'' = pd_account db'"
    using pilot_changes_history[OF assms(3)] by (simp add: history_kept_def)
  then have "read_account pe db'' = Inr (Some acc)" using acc by (simp add: read_account_def)
  then show ?thesis using first by (simp add: ensure_account_def with_args_def)
qed

text \<open>
  C3: The gates hold: when the kill switch is engaged, a loss lock is active or a position is open, opening candidates
  opens nothing, and every decision it records is a refusal; a lock that this very call trips counts.
\<close>

theorem gates_block_entries:
  assumes "open_candidates pe snaps cs env fee now qs db = (Inr rep, db')"
    and "kill_switch_engaged db \<or> active_locks db \<noteq> [] \<or> le_active (rp_locks rep) \<noteq> [] \<or> read_open_positions db \<noteq> []"
  shows "pd_positions db' = pd_positions db
    \<and> (\<exists>ds. pd_decisions db' = pd_decisions db @ ds \<and> (\<forall>d \<in> set ds. sd_outcome d = NO_TRADE \<and> sd_reason d \<noteq> None))"
proof -
  obtain t f extras checked where "pilot_tx pe (open_work pe snaps extras (envelope_sha256 pe env) f t checked) db = (Inr rep, db')"
    using with_args_Inr[OF assms(1)[unfolded open_candidates_def]] by auto
  then have "open_work pe snaps extras (envelope_sha256 pe env) f t checked db = Inr (rep, db')" by (rule ptx.write_commit)
  then show ?thesis
  proof (rule open_work_split)
    fix acc st locks db1 run
    assume a: "require_account pe db = Inr acc" "compute_state snaps extras t acc db = Inr st"
      "eval_locks acc st t ENTRY db = Inr (locks, db1)" "rp_locks rep = locks"
      and f: "foldE (open_step pe snaps extras acc (envelope_sha256 pe env) f (kill_switch_engaged db1) (active_kinds locks) t) checked
         (\<lparr>or_decision_ids = [], or_already = [], or_state = st\<rparr>, db1) = Inr (run, db')"
    note k = eval_locks_kept[OF a(3)]
    have "le_active locks \<noteq> [] \<longleftrightarrow> active_kinds locks \<noteq> []" by (simp add: active_kinds_def)
    then have gate: "kill_switch_engaged db1 \<or> active_kinds locks \<noteq> [] \<or> read_open_positions db \<noteq> []"
      using assms(2) k a(4) by (auto simp: gates_kept_def kill_switch_engaged_def)
    have "only_refused db (run, db')"
      using f
    proof (rule foldE_invariant)
      show "only_refused db (\<lparr>or_decision_ids = [], or_already = [], or_state = st\<rparr>, db1)"
        using k compute_state_open[OF a(2)] by (simp add: only_refused_def gates_kept_def)
      show "only_refused db u" if "only_refused db s"
        "open_step pe snaps extras acc (envelope_sha256 pe env) f (kill_switch_engaged db1) (active_kinds locks) t x s = Inr u" for x s u
        using only_refused_step[OF that(2) require_account_single[OF a(1)] gate that(1)] .
    qed
    then show ?thesis by (simp add: only_refused_def)
  qed
qed

theorem gates_block_entries_witness:
  "\<exists>rep db'. open_candidates scn_pe [] [scn_candidate] sample_env (DFin 0) (Aware 2000000) [] scn_db2 = (Inr rep, db')
   \<and> read_open_positions scn_db2 = [scn_position] \<and> pd_positions db' = [scn_position]"
proof -
  obtain rep db' where o: "open_candidates scn_pe [] [scn_candidate] sample_env (DFin 0) (Aware 2000000) [] scn_db2 = (Inr rep, db')"
    using scn_reopen by blast
  have r: "read_open_positions scn_db2 = [scn_position]" by (simp add: read_open_positions_def has_close_def)
  show ?thesis using gates_block_entries[OF o] o r by simp
qed



text \<open>
  A review lifts exactly the lock it names, records who reviewed it and rebases the mark of its kind to the equity of
  that moment: the high-water mark for a drawdown lock, the start of the day for a daily loss lock.
\<close>

lemma review_rebases:
  assumes "pilot_reachable m" and "review_lock pe snaps (PInt i) reviewer cause (Aware t) qs (pm_db m) = (Inr rv, db')"
  shows "\<exists>l. l \<in> set (active_locks (pm_db m)) \<and> int (lk_lock_id l) = i \<and> rv_lock_id rv = lk_lock_id l
    \<and> active_locks db' = filter (\<lambda>x. x \<noteq> l) (active_locks (pm_db m))
    \<and> (if lk_kind l = DRAWDOWN then high_water db' else day_start db' (utc_day t)) = Some (rv_rebase_equity rv)"
proof -
  let ?db = "pm_db m"
  obtain extras r c where "pilot_tx pe (review_work pe snaps t extras i r c) ?db = (Inr rv, db')"
    using with_args_Inr[OF assms(2)[unfolded review_lock_def]] by (auto simp: bindE_eq_Inr)
  then have "review_work pe snaps t extras i r c ?db = Inr (rv, db')" by (rule ptx.write_commit)
  then show ?thesis
  proof (rule review_workE)
    fix l st mk
    assume l: "l \<in> set (pd_locks ?db)" "int (lk_lock_id l) = i" "\<not> lock_reviewed ?db (lk_lock_id l)"
      and rv: "rv = \<lparr>rv_lock_id = lk_lock_id l, rv_reviewer = r, rv_cause = c, rv_rebase_equity = as_equity st, rv_reviewed_at = t\<rparr>"
      and mk: "mk_kind mk = (if lk_kind l = DRAWDOWN then HIGH_WATER else DAY_START)"
        "mk_utc_day mk = (if lk_kind l = DRAWDOWN then None else Some (utc_day t))" "mk_equity mk = as_equity st"
      and db': "db' = ?db\<lparr>pd_reviews := pd_reviews ?db @ [rv], pd_marks := pd_marks ?db @ [mk]\<rparr>"
    have "distinct (map lk_lock_id (pd_locks ?db))"
      using pilot_ok_reachable[OF assms(1)] unfolding pilot_ok_def locks_ok_def by (metis distinct_upt)
    then have inj: "lk_lock_id x = lk_lock_id l \<longleftrightarrow> x = l" if "x \<in> set (active_locks ?db)" for x
      using that l(1) by (auto simp: distinct_map inj_on_def active_locks_def)
    have "active_locks db' = active_locks (?db\<lparr>pd_reviews := pd_reviews ?db @ [rv]\<rparr>)" by (rule active_cong) (simp_all add: db')
    also have "\<dots> = filter (\<lambda>x. x \<noteq> l) (active_locks ?db)"
      unfolding active_after_review by (rule filter_cong) (use inj rv in auto)
    finally have act: "active_locks db' = filter (\<lambda>x. x \<noteq> l) (active_locks ?db)" .
    have "l \<in> set (active_locks ?db)" using l by (simp add: active_locks_def)
    moreover have "(if lk_kind l = DRAWDOWN then high_water db' else day_start db' (utc_day t)) = Some (rv_rebase_equity rv)"
      using mk by (simp add: db' rv high_water_def day_start_def last_row_snoc)
    ultimately show ?thesis using l(2) act rv by (intro exI[of _ l]) simp
  qed
qed

text \<open>
  The exit of a position is the first observation, in time order after the entry, at which stop, target or due time
  triggers; when none triggers, no exit is found.
\<close>

lemma exit_is_first_trigger:
  assumes "find_exit snaps extras now p = Inr r"
  shows "sorted (map ob_order (exit_observations snaps extras now p))
    \<and> (\<exists>before after. exit_observations snaps extras now p = before @ after
        \<and> (\<forall>ob \<in> set before. exit_decision LONG (DFin (sp_stop p)) (DFin (sp_target p)) (Aware (sp_due_at p))
             (Aware (ob_observed_at ob)) (ob_quote ob) = Inr None)
        \<and> (case r of
             None \<Rightarrow> after = []
           | Some fx \<Rightarrow> after \<noteq> [] \<and> fx_observation fx = hd after \<and> fx_position fx = p
               \<and> exit_decision LONG (DFin (sp_stop p)) (DFin (sp_target p)) (Aware (sp_due_at p))
                   (Aware (ob_observed_at (hd after))) (ob_quote (hd after)) = Inr (Some (fx_reason fx))))"
proof -
  have f: "first_exit p (exit_observations snaps extras now p) = Inr r" using assms by (simp add: find_exit_def)
  have sorted: "sorted (map ob_order (exit_observations snaps extras now p))" by (simp add: exit_observations_def)
  show ?thesis
  proof (cases r)
    case None
    then show ?thesis using sorted first_exit_None f by (intro conjI exI[of _ "exit_observations snaps extras now p"] exI[of _ "[]"]) auto
  next
    case (Some fx)
    then obtain before after where "exit_observations snaps extras now p = before @ fx_observation fx # after" and
      e: "fx_position fx = p" "exit_decision LONG (DFin (sp_stop p)) (DFin (sp_target p)) (Aware (sp_due_at p))
         (Aware (ob_observed_at (fx_observation fx))) (ob_quote (fx_observation fx)) = Inr (Some (fx_reason fx))"
      "\<forall>ob \<in> set before. exit_decision LONG (DFin (sp_stop p)) (DFin (sp_target p)) (Aware (sp_due_at p))
         (Aware (ob_observed_at ob)) (ob_quote ob) = Inr None"
      using first_exit_Some[of p _ fx] f by blast
    then show ?thesis using Some sorted by (intro conjI exI[of _ before] exI[of _ "fx_observation fx # after"]) simp_all
  qed
qed

end
