(* ===== verification/Outbox.thy ===== *)
theory Outbox
  imports Json_Text Transactions
begin

text \<open>
  The lifecycle table, the delivery outbox and the consumer cursors of
  \<^verbatim>\<open>radar_v08/adapters/outbox_store.py\<close>, with the constraints that the tables carry
  (\<^verbatim>\<open>OUTBOX_MIGRATION\<close> of \<^verbatim>\<open>radar_v08/adapters/evidence_store.py\<close>). The state \<open>outbox_db\<close> has one list
  per table, in key order; a row of the legacy table \<^verbatim>\<open>events\<close> is the list of its columns and values.
  Every operation is here except the JSONL export.
\<close>

section \<open>Kinds, states and failures\<close>

datatype outbox_kind = EVENT | LIFECYCLE | HANDOFF

datatype lifecycle_state =
  QUEUED | LOADING | RUNNING | FINISHED | FAILED | ABORT_STALE | SUPERSEDED | DROPPED_BACKPRESSURE

datatype handoff_type = DISPATCH | ACCEPT

datatype outbox_failure =
  INVALID_FIELD | INVALID_CLOCK | INVALID_TRANSITION | HANDOFF_WITHOUT_PARTIES | HANDOFF_SAME_PARTY | DELIVERY_CONFLICT |
  UNKNOWN_EVENT | CURSOR_BEYOND_OUTBOX | NO_TRANSACTION | OPEN_TRANSACTION | SCHEMA_NOT_MIGRATED | CORRUPT_ROW |
  EXPORT_FAILED | BUSY | STORAGE_ERROR

fun kind_value :: "outbox_kind \<Rightarrow> string" where
  "kind_value EVENT = ''EVENT''"
| "kind_value LIFECYCLE = ''LIFECYCLE''"
| "kind_value HANDOFF = ''HANDOFF''"

fun state_value :: "lifecycle_state \<Rightarrow> string" where
  "state_value QUEUED = ''QUEUED''"
| "state_value LOADING = ''LOADING''"
| "state_value RUNNING = ''RUNNING''"
| "state_value FINISHED = ''FINISHED''"
| "state_value FAILED = ''FAILED''"
| "state_value ABORT_STALE = ''ABORT_STALE''"
| "state_value SUPERSEDED = ''SUPERSEDED''"
| "state_value DROPPED_BACKPRESSURE = ''DROPPED_BACKPRESSURE''"

fun handoff_type_value :: "handoff_type \<Rightarrow> string" where
  "handoff_type_value DISPATCH = ''DISPATCH''"
| "handoff_type_value ACCEPT = ''ACCEPT''"

definition TERMINAL_STATES :: "lifecycle_state list" where
  "TERMINAL_STATES = [FINISHED, FAILED, ABORT_STALE, SUPERSEDED, DROPPED_BACKPRESSURE]"

definition INITIAL_STATES :: "lifecycle_state list" where
  "INITIAL_STATES = [QUEUED, SUPERSEDED, DROPPED_BACKPRESSURE, ABORT_STALE]"

definition ALLOWED_TRANSITIONS :: "lifecycle_state \<Rightarrow> lifecycle_state list" where
  "ALLOWED_TRANSITIONS s =
     (case s of
        QUEUED \<Rightarrow> [LOADING, RUNNING, SUPERSEDED, DROPPED_BACKPRESSURE, ABORT_STALE]
      | LOADING \<Rightarrow> [RUNNING, FAILED, ABORT_STALE]
      | RUNNING \<Rightarrow> [FINISHED, FAILED, ABORT_STALE]
      | _ \<Rightarrow> [])"

definition outbox_codes :: "outbox_failure tx_codes" where
  "outbox_codes = \<lparr>open_code = OPEN_TRANSACTION, schema_code = SCHEMA_NOT_MIGRATED, busy_code = BUSY, storage_code = STORAGE_ERROR\<rparr>"

section \<open>Rows\<close>

record handoff =
  communication_id :: string
  ho_run_id :: string
  ho_opportunity_id :: string
  ho_sender :: "string option"
  ho_receiver :: "string option"
  ho_handoff_type :: handoff_type
  ho_reason :: string
  ho_at :: moment
  ho_invocation_id :: "string option"
  ho_evidence_hash :: "string option"

record outbox_entry =
  oe_seq :: int
  oe_delivery_id :: string
  oe_kind :: outbox_kind
  oe_subject_id :: string
  oe_state :: "string option"
  oe_sender :: "string option"
  oe_receiver :: "string option"
  oe_payload_json :: string
  oe_recorded_at :: string

record lifecycle_item =
  li_item_id :: string
  li_state :: lifecycle_state
  li_entered_at :: string
  li_updated_at :: string

record cursor_row =
  cu_consumer :: string
  cu_position :: int
  cu_byte_offset :: "int option"
  cu_updated_at :: string

type_synonym event_row = "(string \<times> json) list"

record outbox_db =
  ob_rows :: "outbox_entry list"
  ob_items :: "lifecycle_item list"
  ob_cursors :: "cursor_row list"
  ob_events :: "event_row list"

record record_result =
  rr_entry :: outbox_entry
  rr_created :: bool

definition empty_outbox :: outbox_db where
  "empty_outbox = \<lparr>ob_rows = [], ob_items = [], ob_cursors = [], ob_events = []\<rparr>"

section \<open>Validation\<close>

text \<open>\<^verbatim>\<open>datetime.isoformat\<close> of a UTC instant: the civil date of its day, then the time of day.\<close>

definition pad :: "nat \<Rightarrow> int \<Rightarrow> string" where
  "pad k n = (let t = show_nat (nat n) in replicate (k - length t) CHR ''0'' @ t)"

definition civil_date :: "int \<Rightarrow> int \<times> int \<times> int" where
  "civil_date days =
     (let z = days + 719468;
          era = z div 146097;
          doe = z mod 146097;
          yoe = (doe - doe div 1460 + doe div 36524 - doe div 146096) div 365;
          doy = doe - (365 * yoe + yoe div 4 - yoe div 100);
          mp = (5 * doy + 2) div 153;
          m = (if mp < 10 then mp + 3 else mp - 9)
      in (yoe + era * 400 + (if m \<le> 2 then 1 else 0), m, doy - (153 * mp + 2) div 5 + 1))"

definition iso_utc :: "int \<Rightarrow> string" where
  "iso_utc t =
     (let (y, m, d) = civil_date (t div 86400000000);
          u = t mod 86400000000;
          s = u div 1000000;
          f = u mod 1000000
      in pad 4 y @ ''-'' @ pad 2 m @ ''-'' @ pad 2 d @ ''T'' @ pad 2 (s div 3600) @ '':'' @ pad 2 (s div 60 mod 60) @ '':''
         @ pad 2 (s mod 60) @ (if f = 0 then [] else ''.'' @ pad 6 f) @ ''+00:00'')"

fun utc_text :: "moment \<Rightarrow> outbox_failure + string" where
  "utc_text (Aware t) = Inr (iso_utc t)"
| "utc_text Naive = Inl INVALID_CLOCK"

definition is_lower :: "char \<Rightarrow> bool" where
  "is_lower ch \<longleftrightarrow> (let n = of_char ch :: nat in 97 \<le> n \<and> n \<le> 122)"

definition is_upper :: "char \<Rightarrow> bool" where
  "is_upper ch \<longleftrightarrow> (let n = of_char ch :: nat in 65 \<le> n \<and> n \<le> 90)"

fun identifier_text :: "string \<Rightarrow> bool" where
  "identifier_text [] = False"
| "identifier_text (c # cs) =
     ((is_lower c \<or> is_upper c \<or> is_digit c) \<and> length cs \<le> 127
      \<and> list_all (\<lambda>d. is_lower d \<or> is_upper d \<or> is_digit d \<or> d \<in> set ''._:-'') cs)"

fun role_text :: "string \<Rightarrow> bool" where
  "role_text [] = False"
| "role_text (c # cs) =
     (is_lower c \<and> length cs \<le> 63 \<and> list_all (\<lambda>d. is_lower d \<or> is_digit d \<or> d = CHR ''_'') cs)"

definition evidence_hash_text :: "string \<Rightarrow> bool" where
  "evidence_hash_text s \<longleftrightarrow>
     take 7 s = ''sha256:'' \<and> length s = 71
     \<and> list_all (\<lambda>d. is_digit d \<or> d \<in> set ''abcdef'') (drop 7 s)"

definition identifier_arg :: "string \<Rightarrow> outbox_failure + string" where
  "identifier_arg s = bindE (guardE (identifier_text s) INVALID_FIELD) (\<lambda>_. Inr s)"

definition optional :: "string option \<Rightarrow> (string \<Rightarrow> bool) \<Rightarrow> outbox_failure + string option" where
  "optional v pattern =
     (case v of
        None \<Rightarrow> Inr None
      | Some s \<Rightarrow> bindE (guardE (pattern s) INVALID_FIELD) (\<lambda>_. Inr (Some s)))"

definition reason_code :: "string \<Rightarrow> outbox_failure + string" where
  "reason_code s = bindE (guardE (role_text s) INVALID_FIELD) (\<lambda>_. Inr s)"

definition party :: "string option \<Rightarrow> outbox_failure + string" where
  "party v =
     (case v of
        None \<Rightarrow> Inl HANDOFF_WITHOUT_PARTIES
      | Some s \<Rightarrow>
          if strip s = [] then Inl HANDOFF_WITHOUT_PARTIES
          else if \<not> role_text s then Inl INVALID_FIELD
          else Inr s)"

definition consumer_name :: "string \<Rightarrow> outbox_failure + string" where
  "consumer_name s =
     (if s = [] \<or> length s > 1024 \<or> s \<noteq> strip s \<or> list_ex is_control s then Inl INVALID_FIELD else Inr s)"

definition MAX_READ_LIMIT :: int where
  "MAX_READ_LIMIT = 10000"

definition read_limit :: "int \<Rightarrow> outbox_failure + nat" where
  "read_limit n = bindE (guardE (1 \<le> n \<and> n \<le> MAX_READ_LIMIT) INVALID_FIELD) (\<lambda>_. Inr (nat n))"

fun opt_json :: "string option \<Rightarrow> json" where
  "opt_json None = JNull"
| "opt_json (Some s) = JStr s"

definition handoff_payload :: "handoff \<Rightarrow> outbox_failure + (string \<times> json) list" where
  "handoff_payload h =
     bindE (party (ho_sender h)) (\<lambda>sender.
     bindE (party (ho_receiver h)) (\<lambda>receiver.
     bindE (guardE (sender \<noteq> receiver) HANDOFF_SAME_PARTY) (\<lambda>_.
     bindE (identifier_arg (communication_id h)) (\<lambda>cid.
     bindE (utc_text (ho_at h)) (\<lambda>ts.
     bindE (reason_code (ho_reason h)) (\<lambda>reason.
     bindE (identifier_arg (ho_run_id h)) (\<lambda>run.
     bindE (identifier_arg (ho_opportunity_id h)) (\<lambda>opp.
     bindE (optional (ho_invocation_id h) identifier_text) (\<lambda>inv.
     bindE (optional (ho_evidence_hash h) evidence_hash_text) (\<lambda>ev.
     Inr [(''id'', JStr cid), (''from'', JStr sender), (''to'', JStr receiver), (''ts'', JStr ts),
          (''type'', JStr (handoff_type_value (ho_handoff_type h))), (''reason'', JStr reason), (''run_id'', JStr run),
          (''opportunity_id'', JStr opp), (''invocation_id'', opt_json inv), (''evidence_hash'', opt_json ev)]))))))))))"

definition check_transition :: "lifecycle_state option \<Rightarrow> lifecycle_state \<Rightarrow> outbox_failure + unit" where
  "check_transition current new =
     guardE (new \<in> set (case current of None \<Rightarrow> INITIAL_STATES | Some s \<Rightarrow> ALLOWED_TRANSITIONS s)) INVALID_TRANSITION"

section \<open>Table access\<close>

definition dumps :: "(string \<times> json) list \<Rightarrow> string" where
  "dumps ms = dumps_object False '', '' '': '' ms"

definition entry_payload :: "outbox_entry \<Rightarrow> outbox_failure + (string \<times> json) list" where
  "entry_payload e = (case loads (oe_payload_json e) of Some (JObj ms) \<Rightarrow> Inr ms | _ \<Rightarrow> Inl CORRUPT_ROW)"

definition obj_get :: "string \<Rightarrow> (string \<times> json) list \<Rightarrow> json" where
  "obj_get k ms = (case map_of ms k of None \<Rightarrow> JNull | Some v \<Rightarrow> v)"

definition by_delivery :: "outbox_db \<Rightarrow> string \<Rightarrow> outbox_entry option" where
  "by_delivery db d = find (\<lambda>e. oe_delivery_id e = d) (ob_rows db)"

definition last_seq :: "outbox_db \<Rightarrow> int" where
  "last_seq db = (if ob_rows db = [] then 0 else Max (set (map oe_seq (ob_rows db))))"

text \<open>
  The constraints of the table. SQLite's \<^verbatim>\<open>length\<close> stops at a NUL character, its \<^verbatim>\<open>trim\<close> removes spaces.
\<close>

definition sql_nonempty :: "string \<Rightarrow> bool" where
  "sql_nonempty s \<longleftrightarrow> s \<noteq> [] \<and> hd s \<noteq> CHR 0x00"

definition sql_trim :: "string \<Rightarrow> string" where
  "sql_trim s = rev (dropWhile (\<lambda>c. c = CHR '' '') (rev (dropWhile (\<lambda>c. c = CHR '' '') s)))"

definition entry_check :: "outbox_entry \<Rightarrow> bool" where
  "entry_check e \<longleftrightarrow>
     sql_nonempty (oe_delivery_id e) \<and> sql_nonempty (oe_subject_id e)
     \<and> (if oe_kind e = HANDOFF
        then oe_state e = None
          \<and> (case (oe_sender e, oe_receiver e) of
               (Some a, Some b) \<Rightarrow> sql_nonempty (sql_trim a) \<and> sql_nonempty (sql_trim b) \<and> a \<noteq> b
             | _ \<Rightarrow> False)
        else oe_sender e = None \<and> oe_receiver e = None \<and> oe_state e \<noteq> None)
     \<and> (oe_kind e = LIFECYCLE \<longrightarrow> oe_state e \<in> Some ` state_value ` {QUEUED, LOADING, RUNNING, FINISHED, FAILED, ABORT_STALE,
          SUPERSEDED, DROPPED_BACKPRESSURE})"

definition outbox_insert :: "outbox_entry \<Rightarrow> outbox_db \<Rightarrow> outbox_failure + outbox_entry \<times> outbox_db" where
  "outbox_insert e db =
     (let row = e\<lparr>oe_seq := last_seq db + 1\<rparr> in
      if \<not> entry_check row \<or> oe_delivery_id row \<in> oe_delivery_id ` set (ob_rows db) then Inl STORAGE_ERROR
      else Inr (row, db\<lparr>ob_rows := ob_rows db @ [row]\<rparr>))"

definition entries_after :: "outbox_db \<Rightarrow> int \<Rightarrow> nat option \<Rightarrow> outbox_entry list" where
  "entries_after db position limit =
     (let es = filter (\<lambda>e. position < oe_seq e) (ob_rows db) in case limit of None \<Rightarrow> es | Some n \<Rightarrow> take n es)"

definition cursor_of :: "outbox_db \<Rightarrow> string \<Rightarrow> outbox_failure + (int \<times> int option) option" where
  "cursor_of db consumer =
     (case find (\<lambda>c. cu_consumer c = consumer) (ob_cursors db) of
        None \<Rightarrow> Inr None
      | Some c \<Rightarrow>
          if cu_position c < 0 \<or> (case cu_byte_offset c of None \<Rightarrow> False | Some n \<Rightarrow> n < 0) then Inl CORRUPT_ROW
          else Inr (Some (cu_position c, cu_byte_offset c)))"

text \<open>The upsert of a cursor; a trigger refuses to move a cursor back.\<close>

definition save_cursor :: "string \<Rightarrow> int \<Rightarrow> int option \<Rightarrow> string \<Rightarrow> outbox_db \<Rightarrow> outbox_failure + outbox_db" where
  "save_cursor consumer position offset now_text db =
     (let row = \<lparr>cu_consumer = consumer, cu_position = position, cu_byte_offset = offset, cu_updated_at = now_text\<rparr> in
      if \<not> sql_nonempty consumer \<or> position < 0 \<or> (case offset of None \<Rightarrow> False | Some n \<Rightarrow> n < 0) then Inl STORAGE_ERROR
      else case find (\<lambda>c. cu_consumer c = consumer) (ob_cursors db) of
        None \<Rightarrow> Inr (db\<lparr>ob_cursors := ob_cursors db @ [row]\<rparr>)
      | Some c \<Rightarrow>
          if position < cu_position c then Inl STORAGE_ERROR
          else Inr (db\<lparr>ob_cursors := map (\<lambda>c. if cu_consumer c = consumer then row else c) (ob_cursors db)\<rparr>))"

section \<open>Event rows\<close>

text \<open>
  \<^verbatim>\<open>record_event_row\<close> runs in the caller's transaction. A database error while the migration ledger
  is read is not converted, so the failures have a second constructor.
\<close>

datatype event_failure = OutboxRefused outbox_failure | SqliteFailed

definition event_by_id :: "string \<Rightarrow> outbox_db \<Rightarrow> event_row option" where
  "event_by_id event_id db = find (\<lambda>r. map_of r ''event_id'' = Some (JStr event_id)) (ob_events db)"

definition event_status :: "event_row \<Rightarrow> outbox_failure + string" where
  "event_status row = (case map_of row ''status'' of Some (JStr (c # s)) \<Rightarrow> Inr (c # s) | _ \<Rightarrow> Inl CORRUPT_ROW)"

definition event_count :: "string \<Rightarrow> outbox_db \<Rightarrow> nat" where
  "event_count event_id db = length (filter (\<lambda>e. oe_kind e = EVENT \<and> oe_subject_id e = event_id) (ob_rows db))"

definition snapshot_event :: "string \<Rightarrow> string \<Rightarrow> outbox_db \<Rightarrow> outbox_failure + outbox_entry \<times> outbox_db" where
  "snapshot_event event_id recorded_at db =
     (case event_by_id event_id db of
        None \<Rightarrow> Inl UNKNOWN_EVENT
      | Some row \<Rightarrow>
          bindE (event_status row) (\<lambda>status.
          outbox_insert \<lparr>oe_seq = 0,
            oe_delivery_id = ''event:'' @ event_id @ '':'' @ show_int (int (event_count event_id db) + 1),
            oe_kind = EVENT, oe_subject_id = event_id, oe_state = Some status, oe_sender = None, oe_receiver = None,
            oe_payload_json = dumps row, oe_recorded_at = recorded_at\<rparr> db))"

definition record_event_row :: "tx_env \<Rightarrow> string \<Rightarrow> moment \<Rightarrow> outbox_db \<Rightarrow> event_failure + outbox_entry \<times> outbox_db" where
  "record_event_row env event_id now db =
     (case utc_text now of
        Inl e \<Rightarrow> Inl (OutboxRefused e)
      | Inr recorded_at \<Rightarrow>
          if \<not> in_transaction env then Inl (OutboxRefused NO_TRANSACTION)
          else if event_id = [] then Inl (OutboxRefused INVALID_FIELD)
          else if faults env 0 \<in> {LedgerBusy, LedgerError} then Inl SqliteFailed
          else if \<not> migrated env then Inl (OutboxRefused SCHEMA_NOT_MIGRATED)
          else if faults env 0 = BusyFault then Inl (OutboxRefused BUSY)
          else if faults env 0 = OtherFault then Inl (OutboxRefused STORAGE_ERROR)
          else case snapshot_event event_id recorded_at db of Inl e \<Rightarrow> Inl (OutboxRefused e) | Inr res \<Rightarrow> Inr res)"

section \<open>Lifecycle rows and handoffs\<close>

definition item_lifecycle :: "outbox_db \<Rightarrow> string \<Rightarrow> lifecycle_state option" where
  "item_lifecycle db item = map_option li_state (find (\<lambda>i. li_item_id i = item) (ob_items db))"

text \<open>The item's row is created, or moved from the state that was read.\<close>

definition move_item :: "string \<Rightarrow> lifecycle_state option \<Rightarrow> lifecycle_state \<Rightarrow> string \<Rightarrow> outbox_db \<Rightarrow> outbox_failure + outbox_db" where
  "move_item item current new now_text db =
     (case current of
        None \<Rightarrow>
          Inr (db\<lparr>ob_items := ob_items db @
            [\<lparr>li_item_id = item, li_state = new, li_entered_at = now_text, li_updated_at = now_text\<rparr>]\<rparr>)
      | Some old \<Rightarrow>
          let hit = (\<lambda>i. li_item_id i = item \<and> li_state i = old) in
          if length (filter hit (ob_items db)) \<noteq> 1 then Inl STORAGE_ERROR
          else Inr (db\<lparr>ob_items := map (\<lambda>i. if hit i then i\<lparr>li_state := new, li_updated_at := now_text\<rparr> else i) (ob_items db)\<rparr>))"

definition lifecycle_payload ::
  "string \<Rightarrow> lifecycle_state \<Rightarrow> lifecycle_state option \<Rightarrow> string \<Rightarrow> string option \<Rightarrow> string option \<Rightarrow> (string \<times> json) list" where
  "lifecycle_payload item new current now_text related code =
     [(''item_id'', JStr item), (''state'', JStr (state_value new)),
      (''previous_state'', opt_json (map_option state_value current)), (''at'', JStr now_text),
      (''related_id'', opt_json related), (''reason'', opt_json code)]"

definition lifecycle_delivery_id :: "string \<Rightarrow> lifecycle_state \<Rightarrow> string" where
  "lifecycle_delivery_id item new = ''lifecycle:'' @ item @ '':'' @ state_value new"

definition transition_work ::
  "string \<Rightarrow> lifecycle_state \<Rightarrow> string \<Rightarrow> string option \<Rightarrow> string option \<Rightarrow> outbox_db \<Rightarrow> outbox_failure + record_result \<times> outbox_db" where
  "transition_work item new now_text related code db =
     (case by_delivery db (lifecycle_delivery_id item new) of
        Some e \<Rightarrow>
          bindE (entry_payload e) (\<lambda>stored.
          bindE (guardE (obj_get ''related_id'' stored = opt_json related \<and> obj_get ''reason'' stored = opt_json code)
            DELIVERY_CONFLICT) (\<lambda>_. Inr (\<lparr>rr_entry = e, rr_created = False\<rparr>, db)))
      | None \<Rightarrow>
          (let current = item_lifecycle db item in
           bindE (check_transition current new) (\<lambda>_.
           bindE (move_item item current new now_text db) (\<lambda>db1.
           bindE (outbox_insert \<lparr>oe_seq = 0, oe_delivery_id = lifecycle_delivery_id item new, oe_kind = LIFECYCLE,
               oe_subject_id = item, oe_state = Some (state_value new), oe_sender = None, oe_receiver = None,
               oe_payload_json = dumps (lifecycle_payload item new current now_text related code),
               oe_recorded_at = now_text\<rparr> db1) (\<lambda>(e, db2).
           Inr (\<lparr>rr_entry = e, rr_created = True\<rparr>, db2))))))"

definition record_lifecycle_transition ::
  "tx_env \<Rightarrow> string \<Rightarrow> lifecycle_state \<Rightarrow> moment \<Rightarrow> string option \<Rightarrow> string option \<Rightarrow> outbox_db \<Rightarrow>
     (outbox_failure + record_result) \<times> outbox_db" where
  "record_lifecycle_transition env item_id new now related_id reason =
     with_args
       (bindE (identifier_arg item_id) (\<lambda>item.
        bindE (optional related_id identifier_text) (\<lambda>related.
        bindE (optional reason role_text) (\<lambda>code.
        bindE (utc_text now) (\<lambda>now_text. Inr (item, related, code, now_text))))))
       (\<lambda>(item, related, code, now_text). write_op outbox_codes env (transition_work item new now_text related code))"

definition handoff_work ::
  "string \<Rightarrow> handoff \<Rightarrow> string \<Rightarrow> string \<Rightarrow> outbox_db \<Rightarrow> outbox_failure + record_result \<times> outbox_db" where
  "handoff_work delivery_id h payload_json now_text db =
     (case by_delivery db delivery_id of
        Some e \<Rightarrow>
          bindE (guardE (oe_payload_json e = payload_json) DELIVERY_CONFLICT) (\<lambda>_.
          Inr (\<lparr>rr_entry = e, rr_created = False\<rparr>, db))
      | None \<Rightarrow>
          bindE (outbox_insert \<lparr>oe_seq = 0, oe_delivery_id = delivery_id, oe_kind = HANDOFF,
              oe_subject_id = ho_opportunity_id h, oe_state = None, oe_sender = ho_sender h, oe_receiver = ho_receiver h,
              oe_payload_json = payload_json, oe_recorded_at = now_text\<rparr> db) (\<lambda>(e, db1).
          Inr (\<lparr>rr_entry = e, rr_created = True\<rparr>, db1)))"

definition record_handoff :: "tx_env \<Rightarrow> handoff \<Rightarrow> moment \<Rightarrow> outbox_db \<Rightarrow> (outbox_failure + record_result) \<times> outbox_db" where
  "record_handoff env h now =
     with_args
       (bindE (handoff_payload h) (\<lambda>payload. bindE (utc_text now) (\<lambda>now_text. Inr (payload, now_text))))
       (\<lambda>(payload, now_text). write_op outbox_codes env (handoff_work (''handoff:'' @ communication_id h) h (dumps payload) now_text))"

section \<open>Consumers\<close>

definition cursor_position :: "tx_env \<Rightarrow> string \<Rightarrow> outbox_db \<Rightarrow> outbox_failure + int" where
  "cursor_position env consumer db =
     bindE (consumer_name consumer) (\<lambda>name.
     read_tx outbox_codes env (\<lambda>db.
       bindE (cursor_of db name) (\<lambda>row. Inr (case row of None \<Rightarrow> 0 | Some (p, _) \<Rightarrow> p))) db)"

definition read_pending :: "tx_env \<Rightarrow> string \<Rightarrow> int \<Rightarrow> outbox_db \<Rightarrow> outbox_failure + outbox_entry list" where
  "read_pending env consumer limit db =
     bindE (consumer_name consumer) (\<lambda>name.
     bindE (read_limit limit) (\<lambda>count.
     read_tx outbox_codes env (\<lambda>db.
       bindE (cursor_of db name) (\<lambda>row.
       Inr (entries_after db (case row of None \<Rightarrow> 0 | Some (p, _) \<Rightarrow> p) (Some count)))) db))"

definition acknowledge_work :: "string \<Rightarrow> int \<Rightarrow> string \<Rightarrow> outbox_db \<Rightarrow> outbox_failure + int \<times> outbox_db" where
  "acknowledge_work name seq now_text db =
     (if last_seq db < seq then Inl CURSOR_BEYOND_OUTBOX
      else
        bindE (cursor_of db name) (\<lambda>row.
        let current = (case row of None \<Rightarrow> 0 | Some (p, _) \<Rightarrow> p) in
        if seq \<le> current then Inr (current, db)
        else
          bindE (save_cursor name seq (case row of None \<Rightarrow> None | Some (_, off) \<Rightarrow> off) now_text db) (\<lambda>db1.
          Inr (seq, db1))))"

definition acknowledge :: "tx_env \<Rightarrow> string \<Rightarrow> int \<Rightarrow> moment \<Rightarrow> outbox_db \<Rightarrow> (outbox_failure + int) \<times> outbox_db" where
  "acknowledge env consumer seq now =
     with_args
       (bindE (consumer_name consumer) (\<lambda>name.
        bindE (guardE (0 \<le> seq) INVALID_FIELD) (\<lambda>_.
        bindE (utc_text now) (\<lambda>now_text. Inr (name, now_text)))))
       (\<lambda>(name, now_text). write_op outbox_codes env (acknowledge_work name seq now_text))"

text \<open>\<open>after\<close> is within SQLite's 64-bit integers; the driver refuses to bind a larger one.\<close>

definition load_entries :: "tx_env \<Rightarrow> int \<Rightarrow> int \<Rightarrow> outbox_kind option \<Rightarrow> outbox_db \<Rightarrow> outbox_failure + outbox_entry list" where
  "load_entries env after limit kind db =
     bindE (guardE (0 \<le> after) INVALID_FIELD) (\<lambda>_.
     bindE (read_limit limit) (\<lambda>count.
     read_tx outbox_codes env (\<lambda>db.
       Inr (case kind of
         None \<Rightarrow> entries_after db after (Some count)
       | Some k \<Rightarrow> take count (filter (\<lambda>e. after < oe_seq e \<and> oe_kind e = k) (ob_rows db)))) db))"

definition read_item_state :: "tx_env \<Rightarrow> string \<Rightarrow> outbox_db \<Rightarrow> outbox_failure + lifecycle_state option" where
  "read_item_state env item_id db =
     bindE (identifier_arg item_id) (\<lambda>item. read_tx outbox_codes env (\<lambda>db. Inr (item_lifecycle db item)) db)"

definition first_for_subject :: "tx_env \<Rightarrow> outbox_kind \<Rightarrow> string \<Rightarrow> outbox_db \<Rightarrow> outbox_failure + outbox_entry option" where
  "first_for_subject env kind subject_id db =
     bindE (identifier_arg subject_id) (\<lambda>subject.
     read_tx outbox_codes env (\<lambda>db. Inr (find (\<lambda>e. oe_kind e = kind \<and> oe_subject_id e = subject) (ob_rows db))) db)"

end
