(* ===== verification/Outbox_Export.thy ===== *)
theory Outbox_Export
  imports Outbox
begin

text \<open>
  The JSONL export of \<^verbatim>\<open>radar_v08/adapters/outbox_store.py\<close>: the pending rows are appended to a file and
  the file's cursor moves, in one write transaction. The file is outside the transaction: what
  reached it stays there when the commit fails, when the append is torn, or when the process dies.

  A file is its bytes, each a character. A path is resolved by the function \<open>file_key\<close>, which stands for
  \<^verbatim>\<open>os.path.normcase(os.path.abspath(path))\<close>: two paths are the same file when they resolve alike, and resolving
  a resolved path changes nothing.
\<close>

section \<open>Bytes\<close>

abbreviation newline :: char where "newline \<equiv> CHR 0x0A"

definition utf8_char :: "char \<Rightarrow> string" where
  "utf8_char ch =
     (let n = of_char ch :: nat in if n < 128 then [ch] else [char_of (192 + n div 64), char_of (128 + n mod 64)])"

definition utf8_encode :: "string \<Rightarrow> string" where
  "utf8_encode s = concat (map utf8_char s)"

text \<open>
  Decoding. A character is a code point below 256, so the bytes of a larger one are refused like
  malformed bytes; no line of an export has any.
\<close>

fun utf8_decode :: "string \<Rightarrow> string option" where
  "utf8_decode [] = Some []"
| "utf8_decode (b # bs) =
     (let n = of_char b :: nat in
      if n < 128 then map_option (Cons b) (utf8_decode bs)
      else case bs of
        [] \<Rightarrow> None
      | c # cs \<Rightarrow>
          let m = of_char c :: nat in
          if 194 \<le> n \<and> n \<le> 195 \<and> 128 \<le> m \<and> m \<le> 191
          then map_option (Cons (char_of ((n - 192) * 64 + (m - 128)))) (utf8_decode cs) else None)"

declare utf8_decode.simps(2) [simp del]

fun split_lines :: "string \<Rightarrow> string list" where
  "split_lines [] = [[]]"
| "split_lines (c # cs) =
     (if c = newline then [] # split_lines cs
      else case split_lines cs of [] \<Rightarrow> [[c]] | l # ls \<Rightarrow> (c # l) # ls)"

definition is_byte_space :: "char \<Rightarrow> bool" where
  "is_byte_space ch \<longleftrightarrow> (of_char ch :: nat) \<in> {9, 10, 11, 12, 13, 32}"

section \<open>Lines\<close>

definition EXPORT_SCHEMA :: int where
  "EXPORT_SCHEMA = 1"

definition line_head :: "outbox_entry \<Rightarrow> (string \<times> json) list" where
  "line_head e =
     [(''delivery_id'', JStr (oe_delivery_id e)), (''outbox_seq'', JInt (oe_seq e)), (''outbox_kind'', JStr (kind_value (oe_kind e))),
      (''outbox_schema'', JInt EXPORT_SCHEMA)]"

definition export_line :: "outbox_entry \<Rightarrow> outbox_failure + string" where
  "export_line e =
     bindE (entry_payload e) (\<lambda>payload.
     if list_ex (\<lambda>k. k \<in> fst ` set payload) (map fst (line_head e)) then Inl CORRUPT_ROW
     else Inr (dumps (line_head e @ payload)))"

text \<open>The delivery id of one line of a file, when the line is an object that has one.\<close>

definition line_id :: "string \<Rightarrow> string option" where
  "line_id raw =
     (if list_all is_byte_space raw then None
      else case utf8_decode raw of
        None \<Rightarrow> None
      | Some text \<Rightarrow>
          (case loads text of
             Some (JObj ms) \<Rightarrow> (case map_of ms ''delivery_id'' of Some (JStr d) \<Rightarrow> Some d | _ \<Rightarrow> None)
           | _ \<Rightarrow> None))"

definition delivery_ids_in :: "string option \<Rightarrow> int \<Rightarrow> string list" where
  "delivery_ids_in file offset =
     (case file of
        None \<Rightarrow> []
      | Some bytes \<Rightarrow>
          let start = (if offset \<le> int (length bytes) then nat offset else 0)
          in List.map_filter line_id (split_lines (drop start bytes)))"

section \<open>The append\<close>

text \<open>What can go wrong with the file: it cannot be read, it cannot be opened, or only some of the new bytes reach it.\<close>

datatype io_fault = IoOk | IoRead | IoOpen | IoTorn nat

record append_result =
  ar_written :: nat
  ar_skipped :: nat
  ar_size :: int

definition new_bytes :: "string \<Rightarrow> string list \<Rightarrow> string" where
  "new_bytes old lines =
     (if old \<noteq> [] \<and> last old \<noteq> newline then [newline] else []) @ concat (map (\<lambda>l. utf8_encode l @ [newline]) lines)"

text \<open>The loop over the entries: the lines to write, leaving out every id that is in the file or was just written.\<close>

fun choose_lines :: "string list \<Rightarrow> (outbox_entry \<times> string) list \<Rightarrow> string list" where
  "choose_lines seen [] = []"
| "choose_lines seen ((e, l) # rest) =
     (if oe_delivery_id e \<in> set seen then choose_lines seen rest
      else l # choose_lines (oe_delivery_id e # seen) rest)"

definition append_entries ::
  "io_fault \<Rightarrow> outbox_entry list \<Rightarrow> int \<Rightarrow> string option \<Rightarrow> (outbox_failure + append_result) \<times> string option" where
  "append_entries io entries offset file =
     (if io = IoRead then (Inl EXPORT_FAILED, file)
      else case mapE export_line entries of
        Inl e \<Rightarrow> (Inl e, file)
      | Inr lines \<Rightarrow>
          let old = (case file of None \<Rightarrow> [] | Some b \<Rightarrow> b);
              chosen = choose_lines (delivery_ids_in file offset) (zip entries lines);
              new = new_bytes old chosen
          in case io of
               IoOpen \<Rightarrow> (Inl EXPORT_FAILED, file)
             | IoTorn n \<Rightarrow> (Inl EXPORT_FAILED, Some (old @ take n new))
             | _ \<Rightarrow> (Inr \<lparr>ar_written = length chosen, ar_skipped = length entries - length chosen, ar_size = int (length (old @ new))\<rparr>,
                      Some (old @ new)))"

section \<open>The export\<close>

record export_result =
  er_written :: nat
  er_already_in_file :: nat
  er_position :: int

definition jsonl_consumer :: "(string \<Rightarrow> string) \<Rightarrow> string \<Rightarrow> string" where
  "jsonl_consumer file_key path = ''jsonl:'' @ file_key path"

definition export_work ::
  "io_fault \<Rightarrow> string \<Rightarrow> string \<Rightarrow> outbox_db \<Rightarrow> string option \<Rightarrow>
     (outbox_failure + export_result \<times> outbox_db) \<times> string option" where
  "export_work io consumer now_text db file =
     (case cursor_of db consumer of
        Inl e \<Rightarrow> (Inl e, file)
      | Inr row \<Rightarrow>
          let position = (case row of None \<Rightarrow> 0 | Some (p, _) \<Rightarrow> p);
              offset = (case row of Some (_, Some off) \<Rightarrow> off | _ \<Rightarrow> 0);
              entries = entries_after db position None
          in if entries = [] then (Inr (\<lparr>er_written = 0, er_already_in_file = 0, er_position = position\<rparr>, db), file)
             else case append_entries io entries offset file of
               (Inl e, file') \<Rightarrow> (Inl e, file')
             | (Inr a, file') \<Rightarrow>
                 (bindE (save_cursor consumer (oe_seq (last entries)) (Some (ar_size a)) now_text db) (\<lambda>db1.
                    Inr (\<lparr>er_written = ar_written a, er_already_in_file = ar_skipped a, er_position = oe_seq (last entries)\<rparr>, db1)),
                  file'))"

text \<open>
  The retry loop of \<^verbatim>\<open>_write\<close> around a body that also touches the file. Each try meets a fault before the
  body, a fault of the file, and a fault of the commit. A failed commit rolls the database back and
  leaves the file.
\<close>

record export_env =
  xe_tx :: tx_env
  xe_io :: "nat \<Rightarrow> io_fault"
  xe_commit :: "nat \<Rightarrow> sql_fault"

fun export_loop ::
  "export_env \<Rightarrow> string \<Rightarrow> string \<Rightarrow> nat \<Rightarrow> rat list \<Rightarrow> outbox_db \<Rightarrow> string option \<Rightarrow>
     (outbox_failure + export_result) \<times> outbox_db \<times> string option" where
  "export_loop xe consumer now_text attempt delays db file =
     (let again = (\<lambda>file'.
        (case delays of [] \<Rightarrow> (Inl BUSY, db, file') | _ # ds \<Rightarrow> export_loop xe consumer now_text (Suc attempt) ds db file'))
      in case try_once outbox_codes (xe_tx xe) attempt (\<lambda>u. Inr (u, ())) () of
           Retry \<Rightarrow> again file
         | Raise e \<Rightarrow> (Inl e, db, file)
         | Commit _ _ \<Rightarrow>
             (case export_work (xe_io xe attempt) consumer now_text db file of
                (Inl e, file') \<Rightarrow> (Inl e, db, file')
              | (Inr (r, db'), file') \<Rightarrow>
                  if xe_commit xe attempt = BusyFault then again file'
                  else if xe_commit xe attempt = NoFault then (Inr r, db', file')
                  else (Inl STORAGE_ERROR, db, file')))"

declare export_loop.simps [simp del]

definition export_jsonl ::
  "(string \<Rightarrow> string) \<Rightarrow> export_env \<Rightarrow> string \<Rightarrow> moment \<Rightarrow> outbox_db \<Rightarrow> (string \<Rightarrow> string option) \<Rightarrow>
     (outbox_failure + export_result) \<times> outbox_db \<times> (string \<Rightarrow> string option)" where
  "export_jsonl file_key xe path now db files =
     (case utc_text now of
        Inl e \<Rightarrow> (Inl e, db, files)
      | Inr now_text \<Rightarrow>
          if in_transaction (xe_tx xe) then (Inl OPEN_TRANSACTION, db, files)
          else
            (case export_loop xe (jsonl_consumer file_key path) now_text 0 BUSY_RETRY_DELAYS db (files (file_key path)) of
               (r, db', file') \<Rightarrow> (r, db', files(file_key path := file'))))"

section \<open>Bytes and lines\<close>

lemma utf8_char_decode: "utf8_decode (utf8_char ch @ r) = map_option (Cons ch) (utf8_decode r)"
proof (cases "(of_char ch :: nat) < 128")
  case True
  then show ?thesis by (simp add: utf8_char_def utf8_decode.simps(2))
next
  case False
  define n where "n = (of_char ch :: nat)"
  have n: "128 \<le> n" "n < 256" using False of_char_less_256[of ch] by (auto simp: n_def)
  then have "2 \<le> n div 64" "n div 64 \<le> 3" by linarith+
  moreover have "n mod 64 \<le> 63" using mod_less_divisor[of 64 n] by linarith
  moreover have "char_of (n div 64 * 64 + n mod 64) = ch" by (simp add: n_def)
  ultimately show ?thesis using n by (simp add: utf8_char_def utf8_decode.simps(2) Let_def flip: n_def)
qed

lemma utf8_encode_simps [simp]: "utf8_encode [] = []" "utf8_encode (c # s) = utf8_char c @ utf8_encode s"
  by (simp_all add: utf8_encode_def)

lemma utf8_round_trip: "utf8_decode (utf8_encode s) = Some s"
  by (induction s) (simp_all add: utf8_char_decode)

text \<open>Truncated bytes decode to a proper prefix of the text, or not at all.\<close>

lemma utf8_char_truncated:
  assumes "q @ t = utf8_char ch" "q \<noteq> []" "t \<noteq> []"
  shows "utf8_decode q = None"
proof -
  obtain b where q: "q = [b]" and big: "\<not> (of_char ch :: nat) < 128" and b: "b = char_of (192 + (of_char ch :: nat) div 64)"
    using assms by (cases q; cases "tl q") (auto simp: utf8_char_def Let_def split: if_splits)
  have "(of_char ch :: nat) div 64 < 4" using of_char_less_256[of ch] by linarith
  then show ?thesis using q b big by (simp add: utf8_decode.simps(2))
qed

lemma utf8_truncated:
  "q @ t = utf8_encode s \<Longrightarrow> t \<noteq> [] \<Longrightarrow>
     utf8_decode q = None \<or> (\<exists>s1 s2. s = s1 @ s2 \<and> s2 \<noteq> [] \<and> utf8_decode q = Some s1)"
proof (induction s arbitrary: q)
  case Nil
  then show ?case by simp
next
  case (Cons c s)
  consider "q = []" | "q \<noteq> []" "length q < length (utf8_char c)" | "length (utf8_char c) \<le> length q" by force
  then show ?case
  proof cases
    case 1
    then show ?thesis by auto
  next
    case 2
    then have "q @ drop (length q) (utf8_char c) = utf8_char c"
      using Cons.prems(1) by (auto simp: append_eq_append_conv_if split: if_splits)
        (metis append_take_drop_id)+
    then show ?thesis using utf8_char_truncated 2 by (metis drop_eq_Nil leD)
  next
    case 3
    then obtain q' where q: "q = utf8_char c @ q'" "q' @ t = utf8_encode s"
      using Cons.prems(1) by (auto simp: append_eq_append_conv_if split: if_splits)
        (metis append.assoc append_take_drop_id same_append_eq)+
    then show ?thesis using Cons.IH[OF q(2) Cons.prems(2)]
      by (auto simp: utf8_char_decode)
  qed
qed

lemma of_char_newline: "(of_char newline :: nat) = 10"
  by simp

lemma newline_utf8: "newline \<in> set (utf8_encode s) \<Longrightarrow> newline \<in> set s"
proof (induction s)
  case (Cons c s)
  have "newline \<noteq> char_of (192 + (of_char c :: nat) div 64)" "newline \<noteq> char_of (128 + (of_char c :: nat) mod 64)"
  proof -
    have "(of_char c :: nat) div 64 < 4" using of_char_less_256[of c] by linarith
    moreover have "(of_char c :: nat) mod 64 < 64" by simp
    ultimately have "(of_char (char_of (192 + (of_char c :: nat) div 64) :: char) :: nat) \<noteq> 10"
      "(of_char (char_of (128 + (of_char c :: nat) mod 64) :: char) :: nat) \<noteq> 10" by simp_all
    then show "newline \<noteq> char_of (192 + (of_char c :: nat) div 64)" "newline \<noteq> char_of (128 + (of_char c :: nat) mod 64)"
      by (metis of_char_newline)+
  qed
  then show ?case using Cons by (auto simp: utf8_char_def Let_def split: if_splits)
qed simp

lemma split_lines_nonempty [simp]: "split_lines s \<noteq> []"
  by (induction s) (auto split: list.splits)

lemma split_lines_plain: "newline \<notin> set l \<Longrightarrow> split_lines l = [l]"
  by (induction l) auto

lemma split_lines_append: "split_lines (a @ newline # b) = split_lines a @ split_lines b"
proof (induction a)
  case (Cons c a)
  then show ?case by (cases "split_lines a") auto
qed simp

lemma split_lines_after:
  assumes "a = [] \<or> last a = newline"
  shows "split_lines (a @ w) = butlast (split_lines a) @ split_lines w"
proof (cases "a = []")
  case False
  then obtain a' where "a = a' @ [newline]" using assms by (metis append_butlast_last_id)
  then show ?thesis using split_lines_append[of a' w] split_lines_append[of a' "[]"] by simp
qed simp

lemma split_lines_end: "last a = newline \<Longrightarrow> a \<noteq> [] \<Longrightarrow> last (split_lines a) = []"
  using split_lines_append[of "butlast a" "[]"] by (metis append_butlast_last_id last_snoc split_lines.simps(1))

text \<open>A torn run of lines is some whole lines and the start of the next one.\<close>

lemma split_lines_torn:
  assumes "list_all (\<lambda>l. newline \<notin> set l) ls"
  shows "\<exists>j q. split_lines (take n (concat (map (\<lambda>l. l @ [newline]) ls))) = take j ls @ [q] \<and> j \<le> length ls
    \<and> (q = [] \<or> j < length ls \<and> (\<exists>t. q @ t = ls ! j))"
  using assms
proof (induction ls arbitrary: n)
  case Nil
  then show ?case by simp
next
  case (Cons l ls)
  show ?case
  proof (cases "n \<le> length l")
    case True
    have "newline \<notin> set (take n l)" using Cons.prems by (auto dest: in_set_takeD)
    then have "split_lines (take n (concat (map (\<lambda>l. l @ [newline]) (l # ls)))) = take 0 (l # ls) @ [take n l]"
      using True split_lines_plain by simp
    then show ?thesis by (metis append_take_drop_id le0 length_Cons nth_Cons_0 zero_less_Suc)
  next
    case False
    then obtain m where m: "n = Suc (length l) + m" by (metis add_Suc less_iff_Suc_add not_le)
    obtain j q where jq: "split_lines (take m (concat (map (\<lambda>l. l @ [newline]) ls))) = take j ls @ [q]" "j \<le> length ls"
      "q = [] \<or> j < length ls \<and> (\<exists>t. q @ t = ls ! j)" using Cons.IH[of m] Cons.prems by auto
    have "split_lines (take n (concat (map (\<lambda>l. l @ [newline]) (l # ls)))) = take (Suc j) (l # ls) @ [q]"
      using m jq(1) split_lines_append[of l] split_lines_plain[of l] Cons.prems by simp
    then show ?thesis using jq(2,3) by (metis Suc_le_mono Suc_less_eq length_Cons nth_Cons_Suc)
  qed
qed

lemma split_lines_whole:
  "list_all (\<lambda>l. newline \<notin> set l) ls \<Longrightarrow> split_lines (concat (map (\<lambda>l. l @ [newline]) ls)) = ls @ [[]]"
proof (induction ls)
  case (Cons l ls)
  then show ?case using split_lines_append[of l] split_lines_plain[of l] by simp
qed simp

section \<open>The text of a line\<close>

definition float_char :: "char \<Rightarrow> bool" where
  "float_char ch \<longleftrightarrow> is_digit ch \<or> ch \<in> set ''.eE+-''"

lemma digits_number: "list_all float_char (takeWhile is_digit s)"
  by (auto simp: list_all_iff float_char_def dest: set_takeWhileD)

lemma scan_fraction_chars: "scan_fraction s = (fp, r) \<Longrightarrow> list_all float_char fp"
  using digits_number[of "tl s"] by (cases s) (auto simp: scan_fraction_def float_char_def split: if_splits)

lemma scan_exponent_chars: "scan_exponent s = (ex, r) \<Longrightarrow> list_all float_char ex"
proof (cases s)
  case (Cons c q)
  assume "scan_exponent s = (ex, r)"
  then show ?thesis using Cons digits_number[of q] digits_number[of "tl q"]
    by (cases q) (auto simp: scan_exponent_def Let_def float_char_def split: if_splits)
qed (auto simp: scan_exponent_def)

lemma float_chars: "scan_number t = Some (JFloat t, []) \<Longrightarrow> list_all float_char t"
proof -
  assume a: "scan_number t = Some (JFloat t, [])"
  define neg where "neg = (case t of c # _ \<Rightarrow> c = CHR ''-'' | [] \<Rightarrow> False)"
  define body where "body = (if neg then tl t else t)"
  obtain ip fp ex r where p: "number_parts body = (ip, fp, ex, r)" by (cases "number_parts body")
  then have t: "t = (if neg then ''-'' else []) @ ip @ fp @ ex"
    using a unfolding scan_number_parts neg_def[symmetric] Let_def body_def[symmetric] by (auto split: if_splits)
  obtain r1 where "scan_fraction (drop (length ip) body) = (fp, r1)" "scan_exponent r1 = (ex, r)"
    "ip = (if hd (takeWhile is_digit body) = CHR ''0'' then ''0'' else takeWhile is_digit body)"
    using p unfolding number_parts_def Let_def by (auto split: prod.splits)
  then have "list_all float_char fp" "list_all float_char ex" "list_all float_char ip"
    using scan_fraction_chars scan_exponent_chars digits_number[of body] by (auto simp: float_char_def)
  then show ?thesis by (subst t) (auto simp: float_char_def)
qed

lemma newline_not_number: "list_all float_char t \<Longrightarrow> newline \<notin> set t"
  by (auto simp: list_all_iff float_char_def is_digit_def)

lemma hex_digit_newline: "n < 16 \<Longrightarrow> hex_digit n \<noteq> newline"
proof
  assume "n < 16" "hex_digit n = newline"
  then have "(of_char (hex_digit n) :: nat) = 10" by simp
  then show False using \<open>n < 16\<close> by (simp add: hex_digit_def split: if_splits)
qed

lemma esc_char_newline: "newline \<notin> set (esc_char ascii ch)"
proof -
  have "(of_char ch :: nat) div 16 < 16" "(of_char ch :: nat) mod 16 < 16"
    using of_char_less_256[of ch] by (simp_all add: less_mult_imp_div_less)
  then show ?thesis using hex_digit_newline[of "of_char ch div 16"] hex_digit_newline[of "of_char ch mod 16"]
    by (auto simp: esc_char_def Let_def)
qed

lemma json_string_newline: "newline \<notin> set (json_string ascii s)"
  using esc_char_newline by (auto simp: json_string_def)

lemma show_int_newline: "newline \<notin> set (show_int i)"
proof -
  have "newline \<notin> set (show_nat n)" for n using show_nat_digits[of n] by (auto simp: list_all_iff is_digit_def)
  then show ?thesis by (simp add: show_int_def)
qed

lemma scalar_newline: "scalar v \<Longrightarrow> newline \<notin> set (scalar_text ascii v)"
  by (cases v) (auto simp: json_string_newline show_int_newline float_chars newline_not_number)

lemma dumps_newline:
  assumes "list_all (\<lambda>m. scalar (snd m)) ms"
  shows "newline \<notin> set (dumps ms)"
proof -
  have "newline \<notin> set (member_text False '': '' m)" if "scalar (snd m)" for m
    using that json_string_newline scalar_newline by (auto simp: member_text_def)
  then have "newline \<notin> set (members_text False '', '' '': '' ms)"
    using assms by (induction "False" "'', ''" "'': ''" ms rule: members_text.induct) auto
  then show ?thesis by (simp add: dumps_def dumps_object_def)
qed

text \<open>A row whose payload is a flat object that leaves the keys of the line head free.\<close>

definition payload_ok :: "outbox_entry \<Rightarrow> bool" where
  "payload_ok e \<longleftrightarrow>
     (\<exists>ms. oe_payload_json e = dumps ms \<and> list_all (\<lambda>m. scalar (snd m)) ms
       \<and> distinct ([''delivery_id'', ''outbox_seq'', ''outbox_kind'', ''outbox_schema''] @ map fst ms))"

definition line_of :: "outbox_entry \<Rightarrow> string" where
  "line_of e = (case export_line e of Inl _ \<Rightarrow> [] | Inr l \<Rightarrow> utf8_encode l)"

lemma separators_default: "separators '', '' '': ''"
  by (simp add: separators_def)

lemma payload_round_trip:
  assumes "oe_payload_json e = dumps ms" "list_all (\<lambda>m. scalar (snd m)) ms" "distinct (map fst ms)"
  shows "entry_payload e = Inr ms"
  using loads_dumps_object[OF separators_default assms(2,3), of False] assms(1) by (simp add: entry_payload_def dumps_def)

lemma line_head_keys: "map fst (line_head e) = [''delivery_id'', ''outbox_seq'', ''outbox_kind'', ''outbox_schema'']"
  by (simp add: line_head_def)

lemma export_line_ok:
  assumes "payload_ok e"
  obtains ms where "export_line e = Inr (dumps (line_head e @ ms))" "list_all (\<lambda>m. scalar (snd m)) (line_head e @ ms)"
    "distinct (map fst (line_head e @ ms))"
proof -
  obtain ms where ms: "oe_payload_json e = dumps ms" "list_all (\<lambda>m. scalar (snd m)) ms" "distinct (map fst (line_head e) @ map fst ms)"
    using assms unfolding payload_ok_def line_head_keys[of e, symmetric] by blast
  then have "entry_payload e = Inr ms" by (intro payload_round_trip) auto
  moreover have "\<not> list_ex (\<lambda>k. k \<in> fst ` set ms) (map fst (line_head e))"
    using ms(3) unfolding list_ex_iff by (auto simp: distinct_append)
  ultimately have "export_line e = Inr (dumps (line_head e @ ms))" by (simp add: export_line_def)
  moreover have "list_all (\<lambda>m. scalar (snd m)) (line_head e @ ms)" using ms(2) by (simp add: line_head_def)
  ultimately show ?thesis using that ms(3) by simp
qed

lemma line_id_line:
  assumes "payload_ok e"
  shows "line_id (line_of e) = Some (oe_delivery_id e)"
proof -
  obtain ms where ms: "export_line e = Inr (dumps (line_head e @ ms))" "list_all (\<lambda>m. scalar (snd m)) (line_head e @ ms)"
    "distinct (map fst (line_head e @ ms))" using assms by (rule export_line_ok)
  have "loads (dumps (line_head e @ ms)) = Some (JObj (line_head e @ ms))"
    using loads_dumps_object[OF separators_default ms(2,3)] by (simp add: dumps_def)
  moreover have "\<not> list_all is_byte_space (utf8_encode (dumps (line_head e @ ms)))"
    by (simp add: dumps_def dumps_object_def utf8_char_def is_byte_space_def)
  ultimately show ?thesis by (simp add: line_of_def ms(1) line_id_def utf8_round_trip) (simp add: line_head_def)
qed

lemma line_id_truncated:
  assumes "payload_ok e" and "q @ t = line_of e" and "t \<noteq> []"
  shows "line_id q = None"
proof -
  obtain ms where ms: "export_line e = Inr (dumps (line_head e @ ms))" "list_all (\<lambda>m. scalar (snd m)) (line_head e @ ms)"
    "distinct (map fst (line_head e @ ms))" using assms(1) by (rule export_line_ok)
  then have "q @ t = utf8_encode (dumps (line_head e @ ms))" using assms(2) by (simp add: line_of_def)
  from utf8_truncated[OF this assms(3)] show ?thesis
  proof (elim disjE exE conjE)
    assume "utf8_decode q = None"
    then show ?thesis by (simp add: line_id_def)
  next
    fix s1 s2 assume "dumps (line_head e @ ms) = s1 @ s2" "s2 \<noteq> []" "utf8_decode q = Some s1"
    moreover then have "loads s1 = None"
      using loads_truncated_object[OF separators_default ms(2,3), of False s1 s2] by (simp add: dumps_def)
    ultimately show ?thesis by (simp add: line_id_def)
  qed
qed

lemma line_of_plain:
  assumes "payload_ok e"
  shows "newline \<notin> set (line_of e)"
proof -
  obtain ms where ms: "export_line e = Inr (dumps (line_head e @ ms))" "list_all (\<lambda>m. scalar (snd m)) (line_head e @ ms)"
    using assms by (rule export_line_ok)
  then show ?thesis using dumps_newline[OF ms(2)] newline_utf8[of "dumps (line_head e @ ms)"] by (auto simp: line_of_def)
qed

lemma line_of_nonempty: "payload_ok e \<Longrightarrow> line_of e \<noteq> []"
  using line_id_line[of e] by (auto simp: line_id_def)

end
