(* ===== verification/Export_Files.thy ===== *)
theory Export_Files
  imports Outbox_Export
begin

text \<open>
  What an export file holds: every line is a row of the outbox or the torn start of one, each row
  that the file's cursor has passed is there exactly once, before the committed offset, and each
  other row at most once, after it. An append keeps this whether it completes or is torn.
\<close>

section \<open>The invariant of a file\<close>

definition rows_ok :: "outbox_entry list \<Rightarrow> bool" where
  "rows_ok es \<longleftrightarrow> (\<forall>e \<in> set es. payload_ok e) \<and> distinct (map oe_delivery_id es)"

definition starts_line :: "outbox_entry list \<Rightarrow> string \<Rightarrow> bool" where
  "starts_line es l \<longleftrightarrow> l = [] \<or> (\<exists>e \<in> set es. \<exists>t. l @ t = line_of e)"

definition file_ok :: "outbox_entry list \<Rightarrow> int \<Rightarrow> nat \<Rightarrow> string \<Rightarrow> bool" where
  "file_ok es p off b \<longleftrightarrow>
     off \<le> length b \<and> (take off b = [] \<or> last (take off b) = newline)
     \<and> (\<forall>l \<in> set (split_lines b). starts_line es l)
     \<and> (\<forall>e \<in> set es. count_list (split_lines (take off b)) (line_of e) = (if oe_seq e \<le> p then 1 else 0))
     \<and> (\<forall>e \<in> set es. count_list (split_lines (drop off b)) (line_of e) \<le> (if oe_seq e \<le> p then 0 else 1))"

lemma line_of_inj: "rows_ok es \<Longrightarrow> e \<in> set es \<Longrightarrow> e' \<in> set es \<Longrightarrow> line_of e = line_of e' \<Longrightarrow> e = e'"
  using line_id_line[of e] line_id_line[of e'] by (auto simp: rows_ok_def distinct_map dest: inj_onD)

lemma starts_line_id:
  assumes "rows_ok es" and "starts_line es l" and "line_id l = Some d"
  obtains e where "e \<in> set es" "l = line_of e" "oe_delivery_id e = d"
proof -
  have "l \<noteq> []" using assms(3) by (auto simp: line_id_def)
  then obtain e t where e: "e \<in> set es" "l @ t = line_of e" using assms(2) by (auto simp: starts_line_def)
  then have ok: "payload_ok e" using assms(1) by (simp add: rows_ok_def)
  then have "t = []" using line_id_truncated[OF ok e(2)] assms(3) by force
  then show ?thesis using that[of e] e line_id_line[OF ok] assms(3) by simp
qed

lemma starts_line_full:
  assumes "rows_ok es" and "starts_line es l" and "e \<in> set es" and "l @ t = line_of e'" and "e' \<in> set es" and "l = line_of e"
  shows "t = [] \<and> e = e'"
proof -
  have ok: "payload_ok e'" "payload_ok e" using assms(1,3,5) by (auto simp: rows_ok_def)
  have "t = []" using line_id_truncated[OF ok(1) assms(4)] line_id_line[OF ok(2)] assms(6) by force
  then show ?thesis using assms line_of_inj[OF assms(1,3,5)] by simp
qed

text \<open>The lines of a file are those before the offset and those after it.\<close>

lemma split_lines_at:
  assumes "take off b = [] \<or> last (take off b) = newline"
  shows "split_lines b = butlast (split_lines (take off b)) @ split_lines (drop off b)"
  using split_lines_after[OF assms, of "drop off b"] by simp

lemma split_lines_head:
  assumes "take off b = [] \<or> last (take off b) = newline"
  shows "split_lines (take off b) = butlast (split_lines (take off b)) @ [[]]"
proof (cases "take off b = []")
  case False
  then have "last (split_lines (take off b)) = []" using assms split_lines_end by blast
  then show ?thesis using append_butlast_last_id[OF split_lines_nonempty[of "take off b"]] by simp
next
  case True
  then show ?thesis by (simp only: True) simp
qed

lemma count_list_filter: "count_list xs x = length (filter (\<lambda>y. y = x) xs)"
  by (induction xs) auto

lemma count_list_append: "count_list (xs @ ys) x = count_list xs x + count_list ys x"
  by (simp add: count_list_filter)

lemma count_list_head:
  assumes "take off b = [] \<or> last (take off b) = newline" and "l \<noteq> []"
  shows "count_list (split_lines (take off b)) l = count_list (butlast (split_lines (take off b))) l"
  using assms(2) by (subst split_lines_head[OF assms(1)]) (simp add: count_list_append)

lemma count_list_file:
  assumes "take off b = [] \<or> last (take off b) = newline" and "l \<noteq> []"
  shows "count_list (split_lines b) l = count_list (split_lines (take off b)) l + count_list (split_lines (drop off b)) l"
  using count_list_head[OF assms] by (subst split_lines_at[OF assms(1)]) (simp add: count_list_append)

lemma in_file_lines:
  assumes "take off b = [] \<or> last (take off b) = newline" and "l \<noteq> []"
  shows "l \<in> set (split_lines b) \<longleftrightarrow> l \<in> set (split_lines (take off b)) \<or> l \<in> set (split_lines (drop off b))"
proof -
  have "l \<in> set (split_lines (take off b)) \<longleftrightarrow> l \<in> set (butlast (split_lines (take off b)))"
    using arg_cong[OF split_lines_head[OF assms(1)], of set] assms(2) by auto
  then show ?thesis using arg_cong[OF split_lines_at[OF assms(1)], of set] by auto
qed

lemma file_ok_empty: "rows_ok es \<Longrightarrow> \<forall>e \<in> set es. p < oe_seq e \<Longrightarrow> file_ok es p 0 []"
  using line_of_nonempty by (fastforce simp: file_ok_def starts_line_def rows_ok_def)

text \<open>A new row of the outbox is not in the file yet.\<close>

lemma file_ok_new_row:
  assumes "rows_ok (es @ [e])" and "file_ok es p off b" and "p < oe_seq e"
  shows "file_ok (es @ [e]) p off b"
proof -
  have ok: "rows_ok es" "payload_ok e" "oe_delivery_id e \<notin> oe_delivery_id ` set es" using assms(1) by (auto simp: rows_ok_def)
  have f: "take off b = [] \<or> last (take off b) = newline" "\<forall>l \<in> set (split_lines b). starts_line es l"
    using assms(2) by (simp_all add: file_ok_def)
  have new: "line_of e \<notin> set (split_lines b)"
  proof
    assume "line_of e \<in> set (split_lines b)"
    then have "starts_line es (line_of e)" using f(2) by blast
    then obtain e' where "e' \<in> set es" "oe_delivery_id e' = oe_delivery_id e"
      by (rule starts_line_id[OF ok(1) _ line_id_line[OF ok(2)]])
    then show False using ok(3) by (metis image_eqI)
  qed
  then have "count_list (split_lines (take off b)) (line_of e) = 0" "count_list (split_lines (drop off b)) (line_of e) = 0"
    using in_file_lines[OF f(1) line_of_nonempty[OF ok(2)]] by (simp_all add: count_list_0_iff)
  moreover have "starts_line (es @ [e]) l" if "starts_line es l" for l using that by (auto simp: starts_line_def)
  ultimately show ?thesis using assms(2,3) unfolding file_ok_def by simp
qed

section \<open>The ids that the exporter finds\<close>

lemma seen_iff:
  assumes "rows_ok es" and "file_ok es p off b" and "e \<in> set es"
  shows "oe_delivery_id e \<in> set (List.map_filter line_id (split_lines (drop off b))) \<longleftrightarrow> line_of e \<in> set (split_lines (drop off b))"
proof
  assume "oe_delivery_id e \<in> set (List.map_filter line_id (split_lines (drop off b)))"
  then obtain l where l: "l \<in> set (split_lines (drop off b))" "line_id l = Some (oe_delivery_id e)"
    by (auto simp: map_filter_set)
  have "l \<noteq> []" using l(2) by (auto simp: line_id_def)
  then have "starts_line es l" using assms(2) l(1) in_file_lines[of off b l] by (auto simp: file_ok_def)
  then obtain e' where "e' \<in> set es" "l = line_of e'" "oe_delivery_id e' = oe_delivery_id e"
    using starts_line_id[OF assms(1) _ l(2)] by blast
  then show "line_of e \<in> set (split_lines (drop off b))"
    using assms(1,3) l(1) by (auto simp: rows_ok_def distinct_map dest: inj_onD)
next
  assume "line_of e \<in> set (split_lines (drop off b))"
  then show "oe_delivery_id e \<in> set (List.map_filter line_id (split_lines (drop off b)))"
    using line_id_line[of e] assms(1,3) by (auto simp: map_filter_set rows_ok_def)
qed

lemma choose_lines_filter:
  "distinct (map oe_delivery_id es) \<Longrightarrow> length ls = length es \<Longrightarrow>
     choose_lines seen (zip es ls) = map snd (filter (\<lambda>(e, l). oe_delivery_id e \<notin> set seen) (zip es ls))"
proof (induction es arbitrary: seen ls)
  case (Cons e es)
  obtain l ls' where ls: "ls = l # ls'" "length ls' = length es" using Cons.prems(2) by (cases ls) auto
  have "filter (\<lambda>(e', l). oe_delivery_id e' \<notin> set (oe_delivery_id e # seen)) (zip es ls')
      = filter (\<lambda>(e', l). oe_delivery_id e' \<notin> set seen) (zip es ls')"
    using Cons.prems(1) by (intro filter_cong) (auto dest!: set_zip_leftD simp: image_iff)
  then show ?case using Cons ls by simp
qed simp

lemma export_lines_ok:
  assumes "\<forall>e \<in> set es. payload_ok e"
  obtains ls where "mapE export_line es = Inr ls" "map utf8_encode ls = map line_of es"
proof -
  have "\<exists>ls. mapE export_line es = Inr ls \<and> map utf8_encode ls = map line_of es" using assms
  proof (induction es)
    case (Cons e es)
    then obtain ms where "export_line e = Inr (dumps (line_head e @ ms))" by (auto elim: export_line_ok)
    then show ?case using Cons by (auto simp: line_of_def)
  qed simp
  then show ?thesis using that by blast
qed

lemma chosen_lines:
  assumes "length ls = length es" and "map utf8_encode ls = map line_of es" and "distinct (map oe_delivery_id es)"
  shows "map utf8_encode (choose_lines seen (zip es ls)) = map line_of (filter (\<lambda>e. oe_delivery_id e \<notin> set seen) es)"
proof -
  have "map utf8_encode (map snd (filter (\<lambda>(e, l). P e) (zip es ls))) = map line_of (filter P es)" for P
    using assms(1,2) by (induction es arbitrary: ls) (case_tac ls; auto)+
  then show ?thesis using choose_lines_filter[OF assms(3,1)] by simp
qed

section \<open>The append\<close>

text \<open>The rows that an append writes: those past the cursor whose id is not found after the offset.\<close>

definition todo_rows :: "outbox_entry list \<Rightarrow> int \<Rightarrow> nat \<Rightarrow> string \<Rightarrow> outbox_entry list" where
  "todo_rows es p off b = filter (\<lambda>e. p < oe_seq e \<and> line_of e \<notin> set (split_lines (drop off b))) es"

definition added_bytes :: "string \<Rightarrow> outbox_entry list \<Rightarrow> string" where
  "added_bytes b todo =
     (if b \<noteq> [] \<and> last b \<noteq> newline then [newline] else []) @ concat (map (\<lambda>l. l @ [newline]) (map line_of todo))"

lemma todo_lines:
  assumes "rows_ok es"
  shows "list_all (\<lambda>l. newline \<notin> set l) (map line_of (todo_rows es p off b))"
    "distinct (map line_of (todo_rows es p off b))"
proof -
  show "list_all (\<lambda>l. newline \<notin> set l) (map line_of (todo_rows es p off b))"
    using assms line_of_plain by (auto simp: list_all_iff todo_rows_def rows_ok_def)
  have "distinct es" "inj_on line_of (set es)"
    using assms line_of_inj[OF assms] by (auto simp: rows_ok_def distinct_map intro: inj_onI)
  then show "distinct (map line_of (todo_rows es p off b))"
    by (auto simp: todo_rows_def distinct_map intro: inj_on_subset)
qed

lemma count_list_distinct: "distinct xs \<Longrightarrow> count_list xs x = (if x \<in> set xs then 1 else 0)"
  by (induction xs) auto

lemma count_list_take: "count_list (take j xs) x \<le> count_list xs x"
  by (metis append_take_drop_id count_list_append le_add1)

text \<open>The lines that a torn append adds count each row to be written at most once and no other row.\<close>

lemma torn_counts:
  assumes "rows_ok es" and "set todo \<subseteq> set es" and "distinct (map line_of todo)" and "e \<in> set es"
    and "q = [] \<or> j < length todo \<and> (\<exists>t. q @ t = map line_of todo ! j)"
  shows "count_list (take j (map line_of todo) @ [q]) (line_of e) \<le> (if e \<in> set todo then 1 else 0)"
proof -
  have full: "count_list (map line_of todo) (line_of e) \<le> (if e \<in> set todo then 1 else 0)"
    using line_of_inj[OF assms(1) assms(4)] assms(2) by (auto simp: count_list_distinct[OF assms(3)])
  show ?thesis
  proof (cases "q = line_of e")
    case True
    then have "q \<noteq> []" using line_of_nonempty[of e] assms(1,4) by (auto simp: rows_ok_def)
    then obtain t where t: "j < length todo" "q @ t = line_of (todo ! j)" using assms(5) by auto
    then have "todo ! j \<in> set es" using assms(2) nth_mem by blast
    then have "t = []" using starts_line_full[OF assms(1) _ assms(4) t(2) _ True] t(2) by (auto simp: starts_line_def)
    then have "take j (map line_of todo) @ [q] = take (Suc j) (map line_of todo)"
      using t by (simp add: take_Suc_conv_app_nth)
    then show ?thesis using full count_list_take[of "Suc j" "map line_of todo" "line_of e"] by simp
  next
    case False
    then show ?thesis using full count_list_take[of j "map line_of todo" "line_of e"] by (simp add: count_list_append)
  qed
qed

text \<open>The lines after the offset, once bytes were added.\<close>

lemma drop_lines:
  assumes "file_ok es p off b" and "new = added_bytes b todo" and "list_all (\<lambda>l. newline \<notin> set l) (map line_of todo)"
  obtains "take n new = []"
  | X j q where "split_lines (drop off b @ take n new) = X @ take j (map line_of todo) @ [q]"
      "\<And>l. l \<noteq> [] \<Longrightarrow> count_list X l = count_list (split_lines (drop off b)) l" "j \<le> length todo"
      "q = [] \<or> j < length todo \<and> (\<exists>t. q @ t = map line_of todo ! j)" "length new \<le> n \<Longrightarrow> j = length todo \<and> q = []"
proof (cases "b \<noteq> [] \<and> last b \<noteq> newline")
  case True
  let ?w = "concat (map (\<lambda>l. l @ [newline]) (map line_of todo))"
  show ?thesis
  proof (cases n)
    case 0
    then show ?thesis using that(1) by simp
  next
    case (Suc m)
    obtain j q where jq: "split_lines (take m ?w) = take j (map line_of todo) @ [q]" "j \<le> length todo"
      "q = [] \<or> j < length todo \<and> (\<exists>t. q @ t = map line_of todo ! j)" using split_lines_torn[OF assms(3), of m] by auto
    show ?thesis
    proof (rule that(2)[of "split_lines (drop off b)" j q])
      show "split_lines (drop off b @ take n new) = split_lines (drop off b) @ take j (map line_of todo) @ [q]"
        using True Suc jq(1) split_lines_append[of "drop off b" "take m ?w"] by (simp add: assms(2) added_bytes_def)
      show "j = length todo \<and> q = []" if "length new \<le> n"
      proof -
        have "take m ?w = ?w" using that Suc True by (simp add: assms(2) added_bytes_def)
        then have "take j (map line_of todo) @ [q] = map line_of todo @ [[]]"
          using jq(1) split_lines_whole[OF assms(3)] by simp
        then show ?thesis using jq(2) by (metis append1_eq_conv length_map length_take min.absorb2)
      qed
    qed (use jq in auto)
  qed
next
  case False
  let ?w = "concat (map (\<lambda>l. l @ [newline]) (map line_of todo))"
  have new: "new = ?w" using False by (simp add: assms(2) added_bytes_def)
  obtain j q where jq: "split_lines (take n ?w) = take j (map line_of todo) @ [q]" "j \<le> length todo"
    "q = [] \<or> j < length todo \<and> (\<exists>t. q @ t = map line_of todo ! j)" using split_lines_torn[OF assms(3), of n] by auto
  have d: "drop off b = [] \<or> last (drop off b) = newline" using False by (cases "off < length b") auto
  show ?thesis
  proof (rule that(2)[of "butlast (split_lines (drop off b))" j q])
    show "split_lines (drop off b @ take n new) = butlast (split_lines (drop off b)) @ take j (map line_of todo) @ [q]"
      using split_lines_after[OF d, of "take n ?w"] jq(1) new by simp
    show "count_list (butlast (split_lines (drop off b))) l = count_list (split_lines (drop off b)) l" if "l \<noteq> []" for l
      using count_list_head[of "length (drop off b)" "drop off b" l] d that by simp
    show "j = length todo \<and> q = []" if "length new \<le> n"
    proof -
      have "take j (map line_of todo) @ [q] = map line_of todo @ [[]]"
        using jq(1) split_lines_whole[OF assms(3)] that new by simp
      then show ?thesis using jq(2) by (metis append1_eq_conv length_map length_take min.absorb2)
    qed
  qed (use jq in auto)
qed

lemma todo_subset: "set (todo_rows es p off b) \<subseteq> set es"
  by (auto simp: todo_rows_def)

lemma file_ok_parts:
  assumes "file_ok es p off b"
  shows "off \<le> length b" "take off b = [] \<or> last (take off b) = newline" "\<And>l. l \<in> set (split_lines b) \<Longrightarrow> starts_line es l"
    "\<And>e. e \<in> set es \<Longrightarrow> count_list (split_lines (take off b)) (line_of e) = (if oe_seq e \<le> p then 1 else 0)"
    "\<And>e. e \<in> set es \<Longrightarrow> count_list (split_lines (drop off b)) (line_of e) \<le> (if oe_seq e \<le> p then 0 else 1)"
  using assms unfolding file_ok_def by blast+

text \<open>What each row counts after the offset.\<close>

lemma todo_count:
  assumes "rows_ok es" and "file_ok es p off b" and "e \<in> set es"
  shows "count_list (split_lines (drop off b)) (line_of e) + (if e \<in> set (todo_rows es p off b) then 1 else 0)
    = (if oe_seq e \<le> p then 0 else 1)"
proof -
  have c: "count_list (split_lines (drop off b)) (line_of e) \<le> (if oe_seq e \<le> p then 0 else 1)"
    using file_ok_parts(5)[OF assms(2,3)] .
  have "count_list (split_lines (drop off b)) (line_of e) = 0 \<longleftrightarrow> line_of e \<notin> set (split_lines (drop off b))"
    by (rule count_list_0_iff)
  then show ?thesis using c assms(3) by (auto simp: todo_rows_def)
qed

lemma file_ok_torn:
  assumes "rows_ok es" and "file_ok es p off b" and "new = added_bytes b (todo_rows es p off b)"
  shows "file_ok es p off (b @ take n new)"
proof (rule drop_lines[OF assms(2,3) todo_lines(1)[OF assms(1)], of n])
  assume none: "take n new = []"
  show ?thesis unfolding none using assms(2) by simp
next
  let ?L = "map line_of (todo_rows es p off b)"
  fix X j q assume lines: "split_lines (drop off b @ take n new) = X @ take j ?L @ [q]"
    and X: "\<And>l. l \<noteq> [] \<Longrightarrow> count_list X l = count_list (split_lines (drop off b)) l" and "j \<le> length (todo_rows es p off b)"
    and q: "q = [] \<or> j < length (todo_rows es p off b) \<and> (\<exists>t. q @ t = ?L ! j)"
  note f = file_ok_parts[OF assms(2)]
  let ?b = "b @ take n new"
  have t: "take off ?b = take off b" "drop off ?b = drop off b @ take n new" using f(1) by simp_all
  have "starts_line es l" if l: "l \<in> set (split_lines ?b)" for l
  proof (cases "l = []")
    case False
    have "l \<in> set (split_lines (take off b)) \<or> l \<in> set X \<or> l \<in> set (take j ?L) \<or> l = q"
      using l in_file_lines[OF _ False, of off ?b] f(2) unfolding t lines by auto
    moreover have "l \<in> set X \<Longrightarrow> l \<in> set (split_lines (drop off b))" using X[OF False] by (metis count_list_0_iff)
    moreover have "l \<in> set (take j ?L) \<Longrightarrow> starts_line es l"
      using todo_subset by (fastforce dest: in_set_takeD simp: starts_line_def)
    moreover have "starts_line es q"
    proof (cases "q = []")
      case False
      then obtain t where "j < length (todo_rows es p off b)" "q @ t = line_of (todo_rows es p off b ! j)" using q by auto
      then show ?thesis using todo_subset nth_mem unfolding starts_line_def by blast
    qed (simp add: starts_line_def)
    ultimately show ?thesis using f(3)[of l] in_file_lines[OF f(2) False] by blast
  qed (simp add: starts_line_def)
  moreover have "count_list (split_lines (drop off ?b)) (line_of e) \<le> (if oe_seq e \<le> p then 0 else 1)" if e: "e \<in> set es" for e
  proof -
    have "count_list (X @ take j ?L @ [q]) (line_of e)
        = count_list (split_lines (drop off b)) (line_of e) + count_list (take j ?L @ [q]) (line_of e)"
      using X[of "line_of e"] line_of_nonempty[of e] assms(1) e by (simp add: count_list_append rows_ok_def)
    also have "\<dots> \<le> (if oe_seq e \<le> p then 0 else 1)"
      using torn_counts[OF assms(1) todo_subset todo_lines(2)[OF assms(1)] e q] todo_count[OF assms(1,2) e] by linarith
    finally show ?thesis unfolding t lines .
  qed
  ultimately show ?thesis using f unfolding file_ok_def t(1) by simp
qed

lemma file_ok_done:
  assumes "rows_ok es" and "file_ok es p off b" and "new = added_bytes b (todo_rows es p off b)"
    and "\<forall>e \<in> set es. oe_seq e \<le> p'"
  shows "file_ok es p' (length (b @ new)) (b @ new)"
proof -
  let ?L = "map line_of (todo_rows es p off b)"
  note f = file_ok_parts[OF assms(2)]
  have torn: "file_ok es p off (b @ new)" using file_ok_torn[OF assms(1-3), of "length new"] by simp
  have "b @ new = [] \<or> last (b @ new) = newline"
    by (cases "todo_rows es p off b" rule: rev_cases) (auto simp: assms(3) added_bytes_def)
  moreover have "count_list (split_lines (b @ new)) (line_of e) = 1" if e: "e \<in> set es" for e
  proof -
    have ne: "line_of e \<noteq> []" using line_of_nonempty[of e] assms(1) e by (simp add: rows_ok_def)
    have d: "count_list (split_lines (drop off b @ new)) (line_of e) = (if oe_seq e \<le> p then 0 else 1)"
    proof (rule drop_lines[OF assms(2,3) todo_lines(1)[OF assms(1)], of "length new"])
      assume "take (length new) new = []"
      then have "new = []" by simp
      then have "todo_rows es p off b = []" by (auto simp: assms(3) added_bytes_def split: if_splits)
      then show ?thesis using \<open>new = []\<close> todo_count[OF assms(1,2) e] by simp
    next
      fix X j q assume lines: "split_lines (drop off b @ take (length new) new) = X @ take j ?L @ [q]"
        and X: "\<And>l. l \<noteq> [] \<Longrightarrow> count_list X l = count_list (split_lines (drop off b)) l"
        and "length new \<le> length new \<Longrightarrow> j = length (todo_rows es p off b) \<and> q = []"
      then have "split_lines (drop off b @ new) = X @ ?L @ [[]]" by simp
      then have "count_list (split_lines (drop off b @ new)) (line_of e)
          = count_list (split_lines (drop off b)) (line_of e) + (if line_of e \<in> set ?L then 1 else 0)"
        using X[OF ne] ne by (simp add: count_list_append count_list_distinct[OF todo_lines(2)[OF assms(1)]])
      moreover have "line_of e \<in> set ?L \<longleftrightarrow> e \<in> set (todo_rows es p off b)"
        using line_of_inj[OF assms(1) e] todo_subset by fastforce
      ultimately show ?thesis using todo_count[OF assms(1,2) e] by simp
    qed
    then show ?thesis
      using count_list_file[OF file_ok_parts(2)[OF torn] ne] file_ok_parts(4)[OF torn e] f(1) by (simp split: if_splits)
  qed
  moreover have "count_list (split_lines []) (line_of e) = 0" if "e \<in> set es" for e
    using line_of_nonempty[of e] that assms(1) by (auto simp: rows_ok_def)
  ultimately show ?thesis using file_ok_parts(3)[OF torn] assms(4) by (simp add: file_ok_def)
qed

section \<open>The export\<close>

lemma new_bytes_added: "map utf8_encode ls = map line_of todo \<Longrightarrow> new_bytes b ls = added_bytes b todo"
proof -
  assume "map utf8_encode ls = map line_of todo"
  then have "map (\<lambda>l. l @ [newline]) (map utf8_encode ls) = map (\<lambda>l. l @ [newline]) (map line_of todo)" by simp
  then show ?thesis by (simp add: new_bytes_def added_bytes_def comp_def)
qed

definition bytes_of :: "string option \<Rightarrow> string" where
  "bytes_of file = (case file of None \<Rightarrow> [] | Some b \<Rightarrow> b)"

lemma append_entries_ok:
  assumes "rows_ok es" and "file_ok es p off (bytes_of file)"
    and "append_entries io (filter (\<lambda>e. p < oe_seq e) es) (int off) file = (res, file')"
  shows "file_ok es p off (bytes_of file')"
    and "res = Inr a \<Longrightarrow> \<forall>e \<in> set es. oe_seq e \<le> p' \<Longrightarrow> file_ok es p' (nat (ar_size a)) (bytes_of file') \<and> 0 \<le> ar_size a"
    and "\<exists>w. bytes_of file' = bytes_of file @ w"
proof -
  let ?es = "filter (\<lambda>e. p < oe_seq e) es" and ?b = "bytes_of file"
  have d: "distinct (map oe_delivery_id ?es)" using assms(1) by (simp add: rows_ok_def distinct_map_filter)
  obtain ls where ls: "mapE export_line ?es = Inr ls" "map utf8_encode ls = map line_of ?es"
    using assms(1) by (auto simp: rows_ok_def intro: export_lines_ok[of ?es])
  define seen where "seen = delivery_ids_in file (int off)"
  have seen: "set seen = set (List.map_filter line_id (split_lines (drop off ?b)))"
    using file_ok_parts(1)[OF assms(2)]
    by (cases "file") (auto simp: seen_def delivery_ids_in_def bytes_of_def List.map_filter_simps line_id_def)
  define new where "new = new_bytes ?b (choose_lines seen (zip ?es ls))"
  have "map utf8_encode (choose_lines seen (zip ?es ls)) = map line_of (filter (\<lambda>e. oe_delivery_id e \<notin> set seen) ?es)"
    using chosen_lines[OF _ ls(2) d] mapE_length[OF ls(1)] by simp
  also have "filter (\<lambda>e. oe_delivery_id e \<notin> set seen) ?es = todo_rows es p off ?b"
    using seen_iff[OF assms(1,2)] by (auto simp: todo_rows_def seen filter_filter intro!: filter_cong)
  finally have new: "new = added_bytes ?b (todo_rows es p off ?b)" unfolding new_def by (rule new_bytes_added)
  have res: "append_entries io ?es (int off) file =
      (if io = IoRead \<or> io = IoOpen then (Inl EXPORT_FAILED, file)
       else case io of
         IoTorn n \<Rightarrow> (Inl EXPORT_FAILED, Some (?b @ take n new))
       | _ \<Rightarrow> (Inr \<lparr>ar_written = length (choose_lines seen (zip ?es ls)), ar_skipped = length ?es - length (choose_lines seen (zip ?es ls)),
                ar_size = int (length (?b @ new))\<rparr>, Some (?b @ new)))"
    unfolding append_entries_def new_def seen_def bytes_of_def by (cases io) (simp_all add: ls(1) Let_def)
  have whole: "file_ok es p off (?b @ new)" using file_ok_torn[OF assms(1,2) new, of "length new"] by simp
  have torn: "file_ok es p off (?b @ take n new)" for n by (rule file_ok_torn[OF assms(1,2) new])
  show "file_ok es p off (bytes_of file')" "\<exists>w. bytes_of file' = bytes_of file @ w"
    using assms(2,3) whole torn unfolding res by (cases io; auto simp: bytes_of_def)+
  show "file_ok es p' (nat (ar_size a)) (bytes_of file') \<and> 0 \<le> ar_size a" if "res = Inr a" "\<forall>e \<in> set es. oe_seq e \<le> p'"
  proof -
    have "ar_size a = int (length (?b @ new))" "bytes_of file' = ?b @ new"
      using assms(3) that(1) unfolding res by (cases io; auto simp: bytes_of_def)+
    then have "nat (ar_size a) = length (?b @ new)" "0 \<le> ar_size a" by (simp_all only: nat_int)
    then show ?thesis using file_ok_done[OF assms(1,2) new that(2)] \<open>bytes_of file' = ?b @ new\<close> by simp
  qed
qed

end
