(* ===== verification/Event_Queue.thy ===== *)
theory Event_Queue
  imports Outbox
begin

text \<open>
  The event queue of \<^verbatim>\<open>radar_v08/store.py\<close>: the rows of the table \<^verbatim>\<open>events\<close>, the operations that change
  them, and the discipline that each change commits together with a snapshot in the outbox
  (\<^verbatim>\<open>_event_write\<close>, \<^verbatim>\<open>_record_event_outbox\<close>). A \<^verbatim>\<open>StoreError\<close> is the event failure that caused it.
  The updates by key return whether they changed a row, which the code uses for the claim only. One
  process writes the store at a time: no other writer runs between the statements of an operation.
\<close>

section \<open>Rows and columns\<close>

text \<open>The columns in the order of \<^verbatim>\<open>SELECT *\<close>: those of the table, then those its migration added.\<close>

definition EVENT_COLUMNS :: "string list" where
  "EVENT_COLUMNS =
     [''event_id'', ''dedup_key'', ''ts'', ''type'', ''asset'', ''setup_type'', ''direction'', ''market'', ''anomaly_score'',
      ''opportunity_score'', ''tradeability_score'', ''confidence'', ''model_demand'', ''reason'', ''status'', ''context_json'',
      ''attempts'', ''last_error'', ''next_attempt_at'', ''processing_started_at'', ''updated_ts'', ''notified'', ''ntfy_status'',
      ''ntfy_attempts'', ''ntfy_last_error'', ''ntfy_updated_ts'']"

text \<open>The dict that \<^verbatim>\<open>insert_event\<close> takes; a score is the text of a finite float or missing.\<close>

record new_event =
  ne_event_id :: string
  ne_dedup_key :: string
  ne_ts :: string
  ne_type :: string
  ne_asset :: string
  ne_setup_type :: "string option"
  ne_direction :: "string option"
  ne_market :: "string option"
  ne_anomaly_score :: "string option"
  ne_opportunity_score :: "string option"
  ne_tradeability_score :: "string option"
  ne_confidence :: "string option"
  ne_model_demand :: "string option"
  ne_reason :: "string option"
  ne_status :: string
  ne_context_json :: "string option"
  ne_attempts :: int
  ne_last_error :: "string option"
  ne_next_attempt_at :: "string option"
  ne_processing_started_at :: "string option"
  ne_updated_ts :: "string option option"
  ne_notified :: bool

fun opt_float :: "string option \<Rightarrow> json" where
  "opt_float None = JNull"
| "opt_float (Some t) = JFloat t"

definition event_columns_of :: "new_event \<Rightarrow> event_row" where
  "event_columns_of ev =
     zip EVENT_COLUMNS
       [JStr (ne_event_id ev), JStr (ne_dedup_key ev), JStr (ne_ts ev), JStr (ne_type ev), JStr (ne_asset ev),
        opt_json (ne_setup_type ev), opt_json (ne_direction ev), opt_json (ne_market ev), opt_float (ne_anomaly_score ev),
        opt_float (ne_opportunity_score ev), opt_float (ne_tradeability_score ev), opt_json (ne_confidence ev),
        opt_json (ne_model_demand ev), opt_json (ne_reason ev), JStr (ne_status ev), opt_json (ne_context_json ev),
        JInt (ne_attempts ev), opt_json (ne_last_error ev), opt_json (ne_next_attempt_at ev),
        opt_json (ne_processing_started_at ev),
        (case ne_updated_ts ev of None \<Rightarrow> JStr (ne_ts ev) | Some u \<Rightarrow> opt_json u), JInt (if ne_notified ev then 1 else 0),
        JNull, JInt 0, JNull, JNull]"

text \<open>The assignments of an \<^verbatim>\<open>UPDATE ... SET\<close> read the old row.\<close>

datatype assignment = Put json | AddOne

fun assigned :: "assignment \<Rightarrow> json \<Rightarrow> json" where
  "assigned (Put v) _ = v"
| "assigned AddOne (JInt n) = JInt (n + 1)"
| "assigned AddOne v = v"

definition set_columns :: "(string \<times> assignment) list \<Rightarrow> event_row \<Rightarrow> event_row" where
  "set_columns sets = map (\<lambda>(k, v). (k, case map_of sets k of None \<Rightarrow> v | Some a \<Rightarrow> assigned a v))"

definition has_id :: "string \<Rightarrow> event_row \<Rightarrow> bool" where
  "has_id event_id row \<longleftrightarrow> map_of row ''event_id'' = Some (JStr event_id)"

definition update_events :: "(event_row \<Rightarrow> bool) \<Rightarrow> (string \<times> assignment) list \<Rightarrow> outbox_db \<Rightarrow> nat \<times> outbox_db" where
  "update_events hit sets db =
     (length (filter hit (ob_events db)),
      db\<lparr>ob_events := map (\<lambda>row. if hit row then set_columns sets row else row) (ob_events db)\<rparr>)"

section \<open>The transaction of an event change\<close>

text \<open>
  The first statement of the body opens the transaction. SQLite may refuse that statement or the
  commit; the outbox row meets the faults of its own environment, in which a transaction is open.
\<close>

record event_env =
  ee_statement_ok :: bool
  ee_outbox :: tx_env
  ee_commit_ok :: bool

definition event_write ::
  "event_env \<Rightarrow> (outbox_db \<Rightarrow> event_failure + 'r \<times> outbox_db) \<Rightarrow> outbox_db \<Rightarrow> (event_failure + 'r) \<times> outbox_db" where
  "event_write ee body db =
     (if \<not> ee_statement_ok ee then (Inl SqliteFailed, db)
      else case body db of
        Inl e \<Rightarrow> (Inl e, db)
      | Inr (r, db') \<Rightarrow> if ee_commit_ok ee then (Inr r, db') else (Inl SqliteFailed, db))"

definition record_event_outbox :: "event_env \<Rightarrow> moment \<Rightarrow> string \<Rightarrow> outbox_db \<Rightarrow> event_failure + outbox_db" where
  "record_event_outbox ee now event_id db =
     bindE (record_event_row ((ee_outbox ee)\<lparr>in_transaction := True\<rparr>) event_id now db) (\<lambda>(_, db'). Inr db')"

text \<open>An update of one event by its key, with its snapshot when a row was changed.\<close>

definition change_event ::
  "event_env \<Rightarrow> moment \<Rightarrow> string \<Rightarrow> (event_row \<Rightarrow> bool) \<Rightarrow> (string \<times> assignment) list \<Rightarrow> outbox_db \<Rightarrow> event_failure + bool \<times> outbox_db" where
  "change_event ee now event_id guard sets db =
     (let (rowcount, db1) = update_events (\<lambda>row. has_id event_id row \<and> guard row) sets db in
      if rowcount = 1 then bindE (record_event_outbox ee now event_id db1) (\<lambda>db2. Inr (True, db2)) else Inr (False, db1))"

section \<open>Operations\<close>

definition insert_event :: "event_env \<Rightarrow> moment \<Rightarrow> new_event \<Rightarrow> outbox_db \<Rightarrow> (event_failure + unit) \<times> outbox_db" where
  "insert_event ee now ev =
     event_write ee (\<lambda>db.
       if list_ex (has_id (ne_event_id ev)) (ob_events db) then Inl SqliteFailed
       else bindE (record_event_outbox ee now (ne_event_id ev) (db\<lparr>ob_events := ob_events db @ [event_columns_of ev]\<rparr>))
         (\<lambda>db2. Inr ((), db2)))"

definition get_event :: "string \<Rightarrow> outbox_db \<Rightarrow> event_row option" where
  "get_event event_id db = event_by_id event_id db"

definition update_event_status :: "event_env \<Rightarrow> moment \<Rightarrow> string \<Rightarrow> string \<Rightarrow> outbox_db \<Rightarrow> (event_failure + bool) \<times> outbox_db" where
  "update_event_status ee now event_id status =
     event_write ee (change_event ee now event_id (\<lambda>_. True) [(''status'', Put (JStr status))])"

definition status_in :: "string list \<Rightarrow> event_row \<Rightarrow> bool" where
  "status_in ss row \<longleftrightarrow> map_of row ''status'' \<in> Some ` JStr ` set ss"

definition claim_event_for_processing ::
  "event_env \<Rightarrow> moment \<Rightarrow> string \<Rightarrow> string \<Rightarrow> outbox_db \<Rightarrow> (event_failure + bool) \<times> outbox_db" where
  "claim_event_for_processing ee now event_id now_iso =
     event_write ee (change_event ee now event_id (status_in [''PENDING'', ''DEFERRED''])
       [(''status'', Put (JStr ''PROCESSING'')), (''processing_started_at'', Put (JStr now_iso)), (''updated_ts'', Put (JStr now_iso))])"

definition mark_event_processed :: "event_env \<Rightarrow> moment \<Rightarrow> string \<Rightarrow> string \<Rightarrow> outbox_db \<Rightarrow> (event_failure + bool) \<times> outbox_db" where
  "mark_event_processed ee now event_id now_iso =
     event_write ee (change_event ee now event_id (\<lambda>_. True)
       [(''status'', Put (JStr ''PROCESSED'')), (''processing_started_at'', Put JNull), (''last_error'', Put JNull),
        (''next_attempt_at'', Put JNull), (''updated_ts'', Put (JStr now_iso))])"

definition mark_event_deferred ::
  "event_env \<Rightarrow> moment \<Rightarrow> string \<Rightarrow> string \<Rightarrow> string \<Rightarrow> string \<Rightarrow> outbox_db \<Rightarrow> (event_failure + bool) \<times> outbox_db" where
  "mark_event_deferred ee now event_id now_iso reason next_attempt_at =
     event_write ee (change_event ee now event_id (\<lambda>_. True)
       [(''status'', Put (JStr ''DEFERRED'')), (''attempts'', AddOne), (''last_error'', Put (JStr reason)),
        (''next_attempt_at'', Put (JStr next_attempt_at)), (''processing_started_at'', Put JNull), (''updated_ts'', Put (JStr now_iso))])"

definition mark_event_failed ::
  "event_env \<Rightarrow> moment \<Rightarrow> string \<Rightarrow> string \<Rightarrow> string \<Rightarrow> outbox_db \<Rightarrow> (event_failure + bool) \<times> outbox_db" where
  "mark_event_failed ee now event_id now_iso reason =
     event_write ee (change_event ee now event_id (\<lambda>_. True)
       [(''status'', Put (JStr ''FAILED'')), (''attempts'', AddOne), (''last_error'', Put (JStr reason)),
        (''processing_started_at'', Put JNull), (''next_attempt_at'', Put JNull), (''updated_ts'', Put (JStr now_iso))])"

definition mark_event_notified :: "event_env \<Rightarrow> moment \<Rightarrow> string \<Rightarrow> string \<Rightarrow> outbox_db \<Rightarrow> (event_failure + bool) \<times> outbox_db" where
  "mark_event_notified ee now event_id now_iso =
     event_write ee (change_event ee now event_id (\<lambda>_. True)
       [(''notified'', Put (JInt 1)), (''updated_ts'', Put (JStr now_iso))])"

text \<open>
  Recovery of events whose claim is older than a cutoff: all rows are put back, then each gets its
  snapshot, in one transaction. SQLite compares text byte by byte, which orders code points.
\<close>

fun text_before :: "string \<Rightarrow> string \<Rightarrow> bool" where
  "text_before _ [] = False"
| "text_before [] (_ # _) = True"
| "text_before (a # as) (b # bs) = (if a = b then text_before as bs else (of_char a :: nat) < of_char b)"

definition stale_ids :: "string \<Rightarrow> outbox_db \<Rightarrow> string list" where
  "stale_ids cutoff_iso db =
     concat (map (\<lambda>row.
       case (map_of row ''event_id'', map_of row ''processing_started_at'') of
         (Some (JStr i), Some (JStr t)) \<Rightarrow> if status_in [''PROCESSING''] row \<and> text_before t cutoff_iso then [i] else []
       | _ \<Rightarrow> []) (ob_events db))"

definition recovered_columns :: "string \<Rightarrow> (string \<times> assignment) list" where
  "recovered_columns now_iso =
     [(''status'', Put (JStr ''PENDING'')), (''attempts'', AddOne), (''last_error'', Put (JStr ''stale_processing_recovered'')),
      (''processing_started_at'', Put JNull), (''updated_ts'', Put (JStr now_iso))]"

definition recover_stale_processing ::
  "event_env \<Rightarrow> moment \<Rightarrow> string \<Rightarrow> string \<Rightarrow> outbox_db \<Rightarrow> (event_failure + string list) \<times> outbox_db" where
  "recover_stale_processing ee now cutoff_iso now_iso =
     event_write ee (\<lambda>db.
       let event_ids = stale_ids cutoff_iso db;
           db1 = fold (\<lambda>i d. snd (update_events (has_id i) (recovered_columns now_iso) d)) event_ids db
       in bindE (foldE (record_event_outbox ee now) event_ids db1) (\<lambda>db2. Inr (event_ids, db2)))"

text \<open>The push delivery state changes without a snapshot.\<close>

definition set_ntfy_status ::
  "event_env \<Rightarrow> string \<Rightarrow> string \<Rightarrow> string \<Rightarrow> string option \<Rightarrow> outbox_db \<Rightarrow> (event_failure + unit) \<times> outbox_db" where
  "set_ntfy_status ee event_id status now_iso error =
     event_write ee (\<lambda>db.
       Inr ((), snd (update_events (has_id event_id)
         ([(''ntfy_status'', Put (JStr status)), (''ntfy_last_error'', Put (opt_json error)), (''ntfy_updated_ts'', Put (JStr now_iso))]
          @ (if status = ''FAILED'' then [(''ntfy_attempts'', AddOne)] else [])) db)))"

section \<open>The steps of the queue\<close>

text \<open>A score of a new event has the text of a float that JSON reads back.\<close>

definition scores_ok :: "new_event \<Rightarrow> bool" where
  "scores_ok ev \<longleftrightarrow> scalar (opt_float (ne_anomaly_score ev)) \<and> scalar (opt_float (ne_opportunity_score ev))
     \<and> scalar (opt_float (ne_tradeability_score ev))"

inductive event_step :: "outbox_db \<Rightarrow> outbox_db \<Rightarrow> bool" where
  InsertEvent: "scores_ok ev \<Longrightarrow> insert_event ee now ev db = (r, db') \<Longrightarrow> event_step db db'"
| UpdateStatus: "update_event_status ee now i status db = (r, db') \<Longrightarrow> event_step db db'"
| ClaimEvent: "claim_event_for_processing ee now i now_iso db = (r, db') \<Longrightarrow> event_step db db'"
| MarkProcessed: "mark_event_processed ee now i now_iso db = (r, db') \<Longrightarrow> event_step db db'"
| MarkDeferred: "mark_event_deferred ee now i now_iso reason next_at db = (r, db') \<Longrightarrow> event_step db db'"
| MarkFailed: "mark_event_failed ee now i now_iso reason db = (r, db') \<Longrightarrow> event_step db db'"
| MarkNotified: "mark_event_notified ee now i now_iso db = (r, db') \<Longrightarrow> event_step db db'"
| RecoverStale: "recover_stale_processing ee now cutoff now_iso db = (r2, db') \<Longrightarrow> event_step db db'"
| SetNtfy: "set_ntfy_status ee i status now_iso err db = (r, db') \<Longrightarrow> event_step db db'"

inductive_cases event_stepE: "event_step db db'"

end
