(* ===== verification/Outbox_Safety.thy ===== *)
theory Outbox_Safety
  imports Export_Files Event_Queue
begin

text \<open>
  The invariant of the outbox, its consumers, its export files and the event queue, and that every
  operation keeps it: the sequence numbers, the delivery ids, the path of each lifecycle item, the
  cursors, the snapshot of each event, and the content of each export file.
\<close>

section \<open>Sequence numbers\<close>

definition seqs_ok :: "outbox_entry list \<Rightarrow> bool" where
  "seqs_ok es \<longleftrightarrow> map oe_seq es = map (\<lambda>i. int i + 1) [0..<length es]"

lemma seqs_ok_snoc: "seqs_ok (es @ [e]) \<longleftrightarrow> seqs_ok es \<and> oe_seq e = int (length es) + 1"
  by (auto simp: seqs_ok_def)

lemma seqs_ok_nth: "seqs_ok es \<Longrightarrow> i < length es \<Longrightarrow> oe_seq (es ! i) = int i + 1"
  unfolding seqs_ok_def by (metis (no_types, lifting) add.left_neutral length_map map_nth nth_map nth_upt)

lemma seqs_ok_range: "seqs_ok es \<Longrightarrow> e \<in> set es \<Longrightarrow> 1 \<le> oe_seq e \<and> oe_seq e \<le> int (length es)"
  by (auto simp: in_set_conv_nth seqs_ok_nth)

lemma last_seq_eq: "seqs_ok (ob_rows db) \<Longrightarrow> last_seq db = int (length (ob_rows db))"
proof (cases "ob_rows db" rule: rev_cases)
  case (snoc es e)
  assume ok: "seqs_ok (ob_rows db)"
  have "Max (set (map oe_seq (ob_rows db))) = int (length (ob_rows db))"
  proof (rule Max_eqI)
    show "int (length (ob_rows db)) \<in> set (map oe_seq (ob_rows db))" using ok snoc by (simp add: seqs_ok_snoc)
  qed (use seqs_ok_range[OF ok] in auto)
  then show ?thesis using snoc by (simp add: last_seq_def)
qed (simp add: last_seq_def)

text \<open>The rows after a position are the end of the table.\<close>

lemma after_eq_drop:
  assumes "seqs_ok es" and "0 \<le> p"
  shows "filter (\<lambda>e. p < oe_seq e) es = drop (nat p) es"
  using assms(1)
proof (induction es rule: rev_induct)
  case (snoc e es)
  then show ?case using assms(2) by (auto simp: seqs_ok_snoc)
qed simp

lemma last_after:
  assumes "seqs_ok es" and "filter (\<lambda>e. p < oe_seq e) es \<noteq> []"
  shows "oe_seq (last (filter (\<lambda>e. p < oe_seq e) es)) = int (length es)"
proof (cases es rule: rev_cases)
  case (snoc ds e)
  have "p < oe_seq e"
  proof -
    obtain x where "x \<in> set es" "p < oe_seq x" using assms(2) by (auto simp: filter_empty_conv)
    then show ?thesis using seqs_ok_range[OF assms(1), of x] assms(1) snoc by (auto simp: seqs_ok_snoc)
  qed
  then show ?thesis using assms(1) snoc by (simp add: seqs_ok_snoc)
qed (use assms(2) in simp)

section \<open>Cursors\<close>

definition cursor_pos :: "outbox_db \<Rightarrow> string \<Rightarrow> int" where
  "cursor_pos db c = (case find (\<lambda>r. cu_consumer r = c) (ob_cursors db) of None \<Rightarrow> 0 | Some r \<Rightarrow> cu_position r)"

definition cursor_off :: "outbox_db \<Rightarrow> string \<Rightarrow> int" where
  "cursor_off db c =
     (case find (\<lambda>r. cu_consumer r = c) (ob_cursors db) of
        None \<Rightarrow> 0 | Some r \<Rightarrow> (case cu_byte_offset r of None \<Rightarrow> 0 | Some n \<Rightarrow> n))"

definition cursors_ok :: "outbox_db \<Rightarrow> bool" where
  "cursors_ok db \<longleftrightarrow>
     distinct (map cu_consumer (ob_cursors db))
     \<and> (\<forall>r \<in> set (ob_cursors db). 0 \<le> cu_position r \<and> cu_position r \<le> int (length (ob_rows db))
          \<and> (case cu_byte_offset r of None \<Rightarrow> True | Some n \<Rightarrow> 0 \<le> n))"

lemma find_in: "find P xs = Some x \<Longrightarrow> x \<in> set xs \<and> P x"
  by (induction xs) (auto split: if_splits)

lemma cursor_of_ok:
  assumes "cursors_ok db"
  shows "\<exists>row. cursor_of db c = Inr row \<and> (case row of None \<Rightarrow> 0 | Some (p, _) \<Rightarrow> p) = cursor_pos db c
    \<and> (case row of Some (_, Some off) \<Rightarrow> off | _ \<Rightarrow> 0) = cursor_off db c"
proof (cases "find (\<lambda>r. cu_consumer r = c) (ob_cursors db)")
  case (Some r)
  then have "r \<in> set (ob_cursors db)" using find_in by fast
  then have "0 \<le> cu_position r" "case cu_byte_offset r of None \<Rightarrow> True | Some n \<Rightarrow> 0 \<le> n"
    using assms by (auto simp: cursors_ok_def)
  then show ?thesis using Some by (auto simp: cursor_of_def cursor_pos_def cursor_off_def split: option.splits)
qed (simp add: cursor_of_def cursor_pos_def cursor_off_def)

lemma cursor_bounds: "cursors_ok db \<Longrightarrow> 0 \<le> cursor_pos db c \<and> cursor_pos db c \<le> int (length (ob_rows db)) \<and> 0 \<le> cursor_off db c"
  by (auto simp: cursors_ok_def cursor_pos_def cursor_off_def split: option.splits dest: find_in)

lemma find_map_key: "(\<And>x. P (f x) = P x) \<Longrightarrow> find P (map f xs) = map_option f (find P xs)"
  by (induction xs) auto

lemma find_append: "find P (xs @ ys) = (case find P xs of None \<Rightarrow> find P ys | Some x \<Rightarrow> Some x)"
  by (induction xs) auto

lemma save_cursor_Inr:
  assumes "save_cursor c p off t db = Inr db'" and "cursors_ok db" and "p \<le> int (length (ob_rows db))"
  shows "ob_rows db' = ob_rows db" "ob_items db' = ob_items db" "ob_events db' = ob_events db" "cursors_ok db'"
    "cursor_pos db' c = p" "cursor_off db' c = (case off of None \<Rightarrow> 0 | Some n \<Rightarrow> n)" "cursor_pos db c \<le> p"
    "c' \<noteq> c \<Longrightarrow> cursor_pos db' c' = cursor_pos db c' \<and> cursor_off db' c' = cursor_off db c'"
proof -
  let ?row = "\<lparr>cu_consumer = c, cu_position = p, cu_byte_offset = off, cu_updated_at = t\<rparr>"
  have pos: "0 \<le> p" "case off of None \<Rightarrow> True | Some n \<Rightarrow> 0 \<le> n"
    using assms(1) by (auto simp: save_cursor_def Let_def split: if_splits option.splits)
  have *: "ob_rows db' = ob_rows db \<and> ob_items db' = ob_items db \<and> ob_events db' = ob_events db \<and> cursors_ok db'
    \<and> cursor_pos db' c = p \<and> cursor_off db' c = (case off of None \<Rightarrow> 0 | Some n \<Rightarrow> n) \<and> cursor_pos db c \<le> p
    \<and> (\<forall>c'. c' \<noteq> c \<longrightarrow> cursor_pos db' c' = cursor_pos db c' \<and> cursor_off db' c' = cursor_off db c')"
  proof (cases "find (\<lambda>r. cu_consumer r = c) (ob_cursors db)")
    case None
    then have "db' = db\<lparr>ob_cursors := ob_cursors db @ [?row]\<rparr>"
      using assms(1) by (auto simp: save_cursor_def Let_def split: if_splits)
    moreover have "c \<notin> cu_consumer ` set (ob_cursors db)" using None by (auto simp: find_None_iff)
    ultimately show ?thesis using None assms(2,3) pos
      by (auto simp: cursors_ok_def cursor_pos_def cursor_off_def find_append split: option.splits)
  next
    case (Some r)
    define upd where "upd = map (\<lambda>r. if cu_consumer r = c then ?row else r) (ob_cursors db)"
    have db': "db' = db\<lparr>ob_cursors := upd\<rparr>" and le: "cu_position r \<le> p"
      using assms(1) Some by (auto simp: save_cursor_def Let_def upd_def split: if_splits option.splits)
    have upd: "find (\<lambda>r. cu_consumer r = c') upd =
        map_option (\<lambda>r. if cu_consumer r = c then ?row else r) (find (\<lambda>r. cu_consumer r = c') (ob_cursors db))" for c'
      unfolding upd_def by (rule find_map_key) auto
    have same: "find (\<lambda>r. cu_consumer r = c) upd = Some ?row" using Some find_in[OF Some] upd[of c] by simp
    have other: "find (\<lambda>r. cu_consumer r = c') upd = find (\<lambda>r. cu_consumer r = c') (ob_cursors db)" if "c' \<noteq> c" for c'
      using that upd[of c'] by (cases "find (\<lambda>r. cu_consumer r = c') (ob_cursors db)") (auto dest: find_in)
    have "map cu_consumer upd = map cu_consumer (ob_cursors db)" by (simp add: upd_def)
    moreover have "\<forall>r \<in> set upd. 0 \<le> cu_position r \<and> cu_position r \<le> int (length (ob_rows db))
        \<and> (case cu_byte_offset r of None \<Rightarrow> True | Some n \<Rightarrow> 0 \<le> n)"
      using assms(2,3) pos by (auto simp: upd_def cursors_ok_def)
    ultimately have "cursors_ok db'" using assms(2) by (simp add: db' cursors_ok_def)
    then show ?thesis using Some le same other by (simp add: db' cursor_pos_def cursor_off_def)
  qed
  then show "ob_rows db' = ob_rows db" "ob_items db' = ob_items db" "ob_events db' = ob_events db" "cursors_ok db'"
    "cursor_pos db' c = p" "cursor_off db' c = (case off of None \<Rightarrow> 0 | Some n \<Rightarrow> n)" "cursor_pos db c \<le> p"
    "c' \<noteq> c \<Longrightarrow> cursor_pos db' c' = cursor_pos db c' \<and> cursor_off db' c' = cursor_off db c'" by blast+
qed

section \<open>Lifecycle paths\<close>

definition states_of :: "outbox_db \<Rightarrow> string \<Rightarrow> string list" where
  "states_of db item =
     map (\<lambda>e. the (oe_state e)) (filter (\<lambda>e. oe_kind e = LIFECYCLE \<and> oe_subject_id e = item) (ob_rows db))"

text \<open>A path starts in an initial state and follows the allowed moves.\<close>

definition lifecycle_path :: "lifecycle_state list \<Rightarrow> bool" where
  "lifecycle_path ss \<longleftrightarrow>
     (ss \<noteq> [] \<longrightarrow> hd ss \<in> set INITIAL_STATES) \<and> successively (\<lambda>a b. b \<in> set (ALLOWED_TRANSITIONS a)) ss"

definition path_end :: "lifecycle_state list \<Rightarrow> lifecycle_state option" where
  "path_end ss = (if ss = [] then None else Some (last ss))"

lemma lifecycle_path_snoc:
  "lifecycle_path (ss @ [s]) \<longleftrightarrow> lifecycle_path ss \<and> check_transition (path_end ss) s = Inr ()"
proof (cases "ss = []")
  case False
  then show ?thesis by (auto simp: lifecycle_path_def path_end_def check_transition_def successively_append_iff)
qed (simp add: lifecycle_path_def path_end_def check_transition_def)

text \<open>The allowed moves go up in rank, so a path never enters a state twice.\<close>

fun state_rank :: "lifecycle_state \<Rightarrow> nat" where
  "state_rank QUEUED = 0"
| "state_rank LOADING = 1"
| "state_rank RUNNING = 2"
| "state_rank _ = 3"

lemma allowed_rank: "b \<in> set (ALLOWED_TRANSITIONS a) \<Longrightarrow> state_rank a < state_rank b"
  by (cases a) (auto simp: ALLOWED_TRANSITIONS_def)

lemma lifecycle_path_distinct: "lifecycle_path ss \<Longrightarrow> distinct ss"
proof -
  assume "lifecycle_path ss"
  then have "successively (\<lambda>a b. state_rank a < state_rank b) ss"
    unfolding lifecycle_path_def by (auto intro: successively_mono allowed_rank)
  then have "sorted_wrt (<) (map state_rank ss)"
    by (subst (asm) successively_conv_sorted_wrt) (auto simp: transp_def sorted_wrt_map)
  then show ?thesis using strict_sorted_iff distinct_map by blast
qed

definition items_ok :: "outbox_db \<Rightarrow> bool" where
  "items_ok db \<longleftrightarrow>
     (\<forall>item. \<exists>ss. states_of db item = map state_value ss \<and> lifecycle_path ss \<and> item_lifecycle db item = path_end ss)"

lemma move_item_Inr:
  assumes "move_item item (item_lifecycle db item) new t db = Inr db'"
  shows "ob_rows db' = ob_rows db" "ob_cursors db' = ob_cursors db" "ob_events db' = ob_events db"
    "item_lifecycle db' other = (if other = item then Some new else item_lifecycle db other)"
proof -
  have *: "ob_rows db' = ob_rows db \<and> ob_cursors db' = ob_cursors db \<and> ob_events db' = ob_events db
    \<and> item_lifecycle db' other = (if other = item then Some new else item_lifecycle db other)"
  proof (cases "item_lifecycle db item")
    case None
    then show ?thesis using assms by (auto simp: move_item_def item_lifecycle_def find_append split: option.splits)
  next
    case (Some old)
    define hit where "hit i \<longleftrightarrow> li_item_id i = item \<and> li_state i = old" for i :: lifecycle_item
    have db': "db' = db\<lparr>ob_items := map (\<lambda>i. if hit i then i\<lparr>li_state := new, li_updated_at := t\<rparr> else i) (ob_items db)\<rparr>"
      using assms Some by (auto simp: move_item_def Let_def hit_def split: if_splits)
    obtain i where i: "find (\<lambda>i. li_item_id i = item) (ob_items db) = Some i" "li_state i = old"
      using Some by (auto simp: item_lifecycle_def)
    have "find (\<lambda>i. li_item_id i = other) (map (\<lambda>i. if hit i then i\<lparr>li_state := new, li_updated_at := t\<rparr> else i) (ob_items db))
        = map_option (\<lambda>i. if hit i then i\<lparr>li_state := new, li_updated_at := t\<rparr> else i) (find (\<lambda>i. li_item_id i = other) (ob_items db))"
      by (rule find_map_key) auto
    then show ?thesis using i find_in[OF i(1)]
      by (cases "find (\<lambda>i. li_item_id i = other) (ob_items db)") (auto simp: db' item_lifecycle_def hit_def dest: find_in)
  qed
  then show "ob_rows db' = ob_rows db" "ob_cursors db' = ob_cursors db" "ob_events db' = ob_events db"
    "item_lifecycle db' other = (if other = item then Some new else item_lifecycle db other)" by blast+
qed

section \<open>Inserting a row\<close>

definition rows_inv :: "outbox_db \<Rightarrow> bool" where
  "rows_inv db \<longleftrightarrow>
     seqs_ok (ob_rows db) \<and> rows_ok (ob_rows db) \<and> (\<forall>e \<in> set (ob_rows db). entry_check e) \<and> cursors_ok db"

lemma outbox_insert_Inr:
  assumes "outbox_insert e db = Inr (row, db')"
  shows "row = e\<lparr>oe_seq := last_seq db + 1\<rparr>" "db' = db\<lparr>ob_rows := ob_rows db @ [row]\<rparr>" "entry_check row"
    "oe_delivery_id e \<notin> oe_delivery_id ` set (ob_rows db)"
  using assms by (auto simp: outbox_insert_def Let_def split: if_splits)

lemma payload_ok_seq: "payload_ok (e\<lparr>oe_seq := n\<rparr>) = payload_ok e"
  by (simp add: payload_ok_def)

lemma insert_rows_inv:
  assumes "outbox_insert e db = Inr (row, db')" and "rows_inv db" and "payload_ok e"
  shows "rows_inv db'"
proof -
  note ins = outbox_insert_Inr[OF assms(1)]
  have "oe_seq row = int (length (ob_rows db)) + 1" using assms(2) last_seq_eq[of db] by (simp add: ins(1) rows_inv_def)
  moreover have "payload_ok row" using assms(3) payload_ok_seq by (simp add: ins(1))
  ultimately show ?thesis using assms(2) ins(3,4)
    by (auto simp: rows_inv_def ins(2) seqs_ok_snoc rows_ok_def cursors_ok_def ins(1) split: option.splits)
qed

lemma states_of_insert:
  "states_of (db\<lparr>ob_rows := ob_rows db @ [row]\<rparr>) item =
     states_of db item @ (if oe_kind row = LIFECYCLE \<and> oe_subject_id row = item then [the (oe_state row)] else [])"
  by (simp add: states_of_def)

lemma item_lifecycle_rows [simp]: "item_lifecycle (db\<lparr>ob_rows := es\<rparr>) item = item_lifecycle db item"
  by (simp add: item_lifecycle_def)

lemma items_ok_insert:
  assumes "items_ok db" and "oe_kind row \<noteq> LIFECYCLE"
  shows "items_ok (db\<lparr>ob_rows := ob_rows db @ [row]\<rparr>)"
  using assms by (simp add: items_ok_def states_of_insert)

section \<open>Event snapshots\<close>

definition NTFY_COLUMNS :: "string list" where
  "NTFY_COLUMNS = [''ntfy_status'', ''ntfy_attempts'', ''ntfy_last_error'', ''ntfy_updated_ts'']"

text \<open>What a snapshot shows of an event: all columns but those of the push delivery.\<close>

definition core_columns :: "event_row \<Rightarrow> event_row" where
  "core_columns row = filter (\<lambda>m. fst m \<notin> set NTFY_COLUMNS) row"

definition event_row_ok :: "event_row \<Rightarrow> bool" where
  "event_row_ok row \<longleftrightarrow> map fst row = EVENT_COLUMNS \<and> list_all (\<lambda>m. scalar (snd m)) row \<and> (\<exists>i. has_id i row)"

definition event_entries :: "outbox_db \<Rightarrow> string \<Rightarrow> outbox_entry list" where
  "event_entries db i = filter (\<lambda>e. oe_kind e = EVENT \<and> oe_subject_id e = i) (ob_rows db)"

definition mirrors :: "outbox_db \<Rightarrow> string \<Rightarrow> event_row \<Rightarrow> bool" where
  "mirrors db i row \<longleftrightarrow>
     event_entries db i \<noteq> []
     \<and> (\<exists>shot. oe_payload_json (last (event_entries db i)) = dumps shot \<and> event_row_ok shot
         \<and> event_status shot = Inr (the (oe_state (last (event_entries db i)))) \<and> core_columns shot = core_columns row)"

definition row_id :: "event_row \<Rightarrow> json option" where
  "row_id row = map_of row ''event_id''"

text \<open>Every event is mirrored, but for those of a set that an operation is still working on.\<close>

definition events_ok :: "string set \<Rightarrow> outbox_db \<Rightarrow> bool" where
  "events_ok S db \<longleftrightarrow>
     distinct (map row_id (ob_events db)) \<and> (\<forall>row \<in> set (ob_events db). event_row_ok row)
     \<and> (\<forall>row \<in> set (ob_events db). \<forall>i. has_id i row \<longrightarrow> i \<in> S \<or> mirrors db i row)"

lemma has_id_row_id: "has_id i row \<longleftrightarrow> row_id row = Some (JStr i)"
  by (simp add: has_id_def row_id_def)

lemma event_columns_distinct:
  "distinct ([''delivery_id'', ''outbox_seq'', ''outbox_kind'', ''outbox_schema''] @ EVENT_COLUMNS)"
  by (simp add: EVENT_COLUMNS_def)

lemma event_row_entry_ok: "event_row_ok row \<Longrightarrow> oe_payload_json e = dumps row \<Longrightarrow> payload_ok e"
  unfolding payload_ok_def event_row_ok_def using event_columns_distinct by (intro exI[of _ row]) simp

text \<open>The snapshot of one event settles it and leaves the others.\<close>

lemma snapshot_Inr:
  assumes "snapshot_event i t db = Inr (e, db')"
  obtains row e0 where "row \<in> set (ob_events db)" "has_id i row" "event_status row = Inr (the (oe_state e))"
    "oe_kind e = EVENT" "oe_subject_id e = i" "oe_payload_json e = dumps row" "db' = db\<lparr>ob_rows := ob_rows db @ [e]\<rparr>"
    "outbox_insert e0 db = Inr (e, db')" "oe_payload_json e0 = dumps row"
proof -
  obtain row where row: "event_by_id i db = Some row" using assms by (auto simp: snapshot_event_def split: option.splits)
  then have in_db: "row \<in> set (ob_events db)" "has_id i row" unfolding event_by_id_def has_id_def using find_in by fast+
  obtain status where st: "event_status row = Inr status" using assms row by (auto simp: snapshot_event_def bindE_eq_Inr)
  define e0 where "e0 = \<lparr>oe_seq = 0, oe_delivery_id = ''event:'' @ i @ '':'' @ show_int (int (event_count i db) + 1),
      oe_kind = EVENT, oe_subject_id = i, oe_state = Some status, oe_sender = None, oe_receiver = None,
      oe_payload_json = dumps row, oe_recorded_at = t\<rparr>"
  have "outbox_insert e0 db = Inr (e, db')" using assms row st unfolding snapshot_event_def e0_def by simp
  then have e0: "oe_kind e0 = EVENT" "oe_subject_id e0 = i" "oe_payload_json e0 = dumps row"
      "event_status row = Inr (the (oe_state e0))" "outbox_insert e0 db = Inr (e, db')" using st by (simp_all add: e0_def)
  show ?thesis
    by (rule that[OF in_db, of e0]) (use e0 outbox_insert_Inr[OF e0(5)] in simp_all)
qed

lemma mirrors_after:
  "mirrors (db\<lparr>ob_rows := ob_rows db @ [e]\<rparr>) i row \<longleftrightarrow>
     (if oe_kind e = EVENT \<and> oe_subject_id e = i
      then \<exists>shot. oe_payload_json e = dumps shot \<and> event_row_ok shot \<and> event_status shot = Inr (the (oe_state e))
        \<and> core_columns shot = core_columns row
      else mirrors db i row)"
  by (simp add: mirrors_def event_entries_def)

lemma events_ok_insert:
  assumes "events_ok S db" and "oe_kind e \<noteq> EVENT"
  shows "events_ok S (db\<lparr>ob_rows := ob_rows db @ [e]\<rparr>)"
  using assms by (simp add: events_ok_def mirrors_after)

lemma same_id_row: "events_ok S db \<Longrightarrow> r \<in> set (ob_events db) \<Longrightarrow> r' \<in> set (ob_events db) \<Longrightarrow> has_id i r \<Longrightarrow> has_id i r' \<Longrightarrow> r = r'"
  unfolding events_ok_def has_id_row_id distinct_map by (metis inj_onD)

definition db_inv :: "string set \<Rightarrow> outbox_db \<Rightarrow> bool" where
  "db_inv S db \<longleftrightarrow> rows_inv db \<and> items_ok db \<and> events_ok S db"

text \<open>What an operation may do to the outbox: append rows, keep every cursor or move it forward.\<close>

definition grows :: "outbox_db \<Rightarrow> outbox_db \<Rightarrow> bool" where
  "grows db db' \<longleftrightarrow> (\<exists>es. ob_rows db' = ob_rows db @ es) \<and> (\<forall>c. cursor_pos db c \<le> cursor_pos db' c)"

lemma grows_refl: "grows db db" and grows_trans: "grows a b \<Longrightarrow> grows b c \<Longrightarrow> grows a c"
  by (auto simp: grows_def intro: order_trans)

lemma snapshot_inv:
  assumes "snapshot_event i t db = Inr (e, db')" and "db_inv S db"
  shows "db_inv (S - {i}) db'" "db' = db\<lparr>ob_rows := ob_rows db @ [e]\<rparr>"
proof -
  obtain row e0 where row: "row \<in> set (ob_events db)" "has_id i row" "oe_kind e = EVENT" "oe_subject_id e = i"
      "oe_payload_json e = dumps row" "db' = db\<lparr>ob_rows := ob_rows db @ [e]\<rparr>"
      "outbox_insert e0 db = Inr (e, db')" "oe_payload_json e0 = dumps row" and st: "event_status row = Inr (the (oe_state e))"
    using assms(1) by (rule snapshot_Inr)
  have ok: "event_row_ok row" using assms(2) row(1) by (simp add: db_inv_def events_ok_def)
  have "rows_inv db'" using insert_rows_inv[OF row(7)] assms(2) event_row_entry_ok[OF ok row(8)] by (simp add: db_inv_def)
  moreover have "items_ok db'" using items_ok_insert[of db e] assms(2) row by (simp add: db_inv_def)
  moreover have "events_ok (S - {i}) db'"
    unfolding events_ok_def
  proof (intro conjI ballI allI impI)
    fix r j assume r: "r \<in> set (ob_events db')" "has_id j r"
    show "j \<in> S - {i} \<or> mirrors db' j r"
    proof (cases "j = i")
      case True
      then have "r = row" using same_id_row[of S db r row i] r row(1,2,6) assms(2) by (simp add: db_inv_def)
      then show ?thesis unfolding row(6) mirrors_after using True ok row(3-5) st by auto
    next
      case False
      then show ?thesis using assms(2) r row(4) unfolding row(6) mirrors_after by (auto simp: db_inv_def events_ok_def)
    qed
  qed (use assms(2) row(6) in \<open>simp_all add: db_inv_def events_ok_def\<close>)
  ultimately show "db_inv (S - {i}) db'" "db' = db\<lparr>ob_rows := ob_rows db @ [e]\<rparr>" using row(6) by (simp_all add: db_inv_def)
qed

section \<open>Changes of events\<close>

text \<open>Operations that only append rows.\<close>

definition appends :: "outbox_db \<Rightarrow> outbox_db \<Rightarrow> bool" where
  "appends db db' \<longleftrightarrow> (\<exists>es. ob_rows db' = ob_rows db @ es) \<and> ob_cursors db' = ob_cursors db"

lemma appends_refl [simp]: "appends db db"
  by (simp add: appends_def)

lemma appends_trans: "appends a b \<Longrightarrow> appends b c \<Longrightarrow> appends a c"
  by (auto simp: appends_def)

definition sets_ok :: "(string \<times> assignment) list \<Rightarrow> bool" where
  "sets_ok sets \<longleftrightarrow>
     ''event_id'' \<notin> fst ` set sets \<and> (\<forall>m \<in> set sets. case snd m of Put v \<Rightarrow> scalar v | AddOne \<Rightarrow> True)"

lemma set_columns_keys: "map fst (set_columns sets row) = map fst row"
  by (induction row) (auto simp: set_columns_def)

lemma set_columns_id: "''event_id'' \<notin> fst ` set sets \<Longrightarrow> row_id (set_columns sets row) = row_id row"
proof -
  assume "''event_id'' \<notin> fst ` set sets"
  then have "map_of sets ''event_id'' = None" by (simp add: map_of_eq_None_iff)
  then show ?thesis unfolding row_id_def by (induction row) (auto simp: set_columns_def)
qed

lemma assigned_scalar: "scalar v \<Longrightarrow> (case a of Put w \<Rightarrow> scalar w | AddOne \<Rightarrow> True) \<Longrightarrow> scalar (assigned a v)"
  by (cases "(a, v)" rule: assigned.cases) auto

lemma set_columns_ok:
  assumes "event_row_ok row" and "sets_ok sets"
  shows "event_row_ok (set_columns sets row)"
proof -
  have "scalar (snd m)" if m: "m \<in> set (set_columns sets row)" for m
  proof -
    obtain k v where kv: "(k, v) \<in> set row" "m = (k, case map_of sets k of None \<Rightarrow> v | Some a \<Rightarrow> assigned a v)"
      using m by (auto simp: set_columns_def)
    then have "scalar v" using assms(1) by (auto simp: event_row_ok_def list_all_iff)
    moreover have "case a of Put w \<Rightarrow> scalar w | AddOne \<Rightarrow> True" if "map_of sets k = Some a" for a
      using assms(2) map_of_SomeD[OF that] by (force simp: sets_ok_def)
    ultimately show ?thesis using kv(2) assigned_scalar by (auto split: option.splits)
  qed
  then show ?thesis using assms set_columns_id[of sets row]
    by (auto simp: event_row_ok_def set_columns_keys list_all_iff sets_ok_def has_id_row_id)
qed

lemma update_events_simps:
  "ob_rows (snd (update_events hit sets db)) = ob_rows db" "ob_cursors (snd (update_events hit sets db)) = ob_cursors db"
  "ob_items (snd (update_events hit sets db)) = ob_items db"
  "ob_events (snd (update_events hit sets db)) = map (\<lambda>row. if hit row then set_columns sets row else row) (ob_events db)"
  by (simp_all add: update_events_def)

lemma events_ok_update:
  assumes "events_ok S db" and "sets_ok sets"
    and "\<And>row i. row \<in> set (ob_events db) \<Longrightarrow> hit row \<Longrightarrow> has_id i row \<Longrightarrow>
      i \<in> T \<or> core_columns (set_columns sets row) = core_columns row"
  shows "events_ok (S \<union> T) (snd (update_events hit sets db))"
proof -
  let ?f = "\<lambda>row. if hit row then set_columns sets row else row" and ?db = "snd (update_events hit sets db)"
  have id: "row_id (?f row) = row_id row" for row using set_columns_id assms(2) by (simp add: sets_ok_def)
  have mir: "mirrors ?db i row = mirrors db i row" for i row
    by (simp add: mirrors_def event_entries_def update_events_simps)
  have "map row_id (ob_events ?db) = map row_id (ob_events db)" by (simp add: update_events_simps id)
  moreover have "\<forall>row \<in> set (ob_events ?db). event_row_ok row"
    using assms(1) set_columns_ok[OF _ assms(2)] by (auto simp: update_events_simps events_ok_def)
  moreover have "i \<in> S \<union> T \<or> mirrors ?db i r" if r: "r \<in> set (ob_events ?db)" "has_id i r" for r i
  proof -
    obtain row where row: "row \<in> set (ob_events db)" "r = ?f row" using r(1) by (auto simp: update_events_simps)
    then have h: "has_id i row" using r(2) id[of row] by (simp only: has_id_row_id)
    then have old: "i \<in> S \<or> mirrors db i row" using assms(1) row(1) by (auto simp: events_ok_def)
    have "i \<in> T \<or> core_columns r = core_columns row" using assms(3)[OF row(1) _ h] row(2) by auto
    then show ?thesis using old unfolding mir by (auto simp: mirrors_def)
  qed
  ultimately show ?thesis using assms(1) unfolding events_ok_def by auto
qed

lemma db_inv_update:
  assumes "db_inv S db" and "events_ok S' (snd (update_events hit sets db))"
  shows "db_inv S' (snd (update_events hit sets db))" "appends db (snd (update_events hit sets db))"
  using assms by (auto simp: db_inv_def rows_inv_def cursors_ok_def items_ok_def states_of_def item_lifecycle_def
      appends_def update_events_simps)

lemma record_event_outbox_inv:
  assumes "record_event_outbox ee now i db = Inr db'" and "db_inv S db"
  shows "db_inv (S - {i}) db'" "appends db db'" "ob_events db' = ob_events db"
proof -
  obtain e t where "snapshot_event i t db = Inr (e, db')"
    using assms(1) by (auto simp: record_event_outbox_def record_event_row_def bindE_eq_Inr split: sum.splits if_splits)
  from snapshot_inv[OF this assms(2)] show "db_inv (S - {i}) db'" "appends db db'" "ob_events db' = ob_events db"
    by (auto simp: appends_def)
qed

lemma change_event_inv:
  assumes "change_event ee now i guard sets db = Inr (b, db')" and "db_inv {} db" and "sets_ok sets"
  shows "db_inv {} db' \<and> appends db db'"
proof -
  let ?hit = "\<lambda>row. has_id i row \<and> guard row"
  define n where "n = length (filter ?hit (ob_events db))"
  define db1 where "db1 = snd (update_events ?hit sets db)"
  have "update_events ?hit sets db = (n, db1)" by (simp add: n_def db1_def update_events_def)
  then have run: "(if n = 1 then bindE (record_event_outbox ee now i db1) (\<lambda>db2. Inr (True, db2)) else Inr (False, db1)) = Inr (b, db')"
    using assms(1) by (simp add: change_event_def)
  have ev: "events_ok {} db" using assms(2) by (simp add: db_inv_def)
  show ?thesis
  proof (cases "n = 1")
    case True
    have "events_ok ({} \<union> {i}) db1" unfolding db1_def
      by (rule events_ok_update[OF ev assms(3)]) (auto simp: has_id_row_id)
    then have "db_inv {i} db1" "appends db db1" using db_inv_update[OF assms(2)] by (auto simp: db1_def)
    moreover have "record_event_outbox ee now i db1 = Inr db'" using run True by (auto simp: bindE_eq_Inr)
    ultimately show ?thesis using record_event_outbox_inv[of ee now i db1 db' "{i}"] appends_trans by auto
  next
    case False
    have "n \<le> 1"
    proof (rule ccontr)
      assume "\<not> n \<le> 1"
      then obtain r1 r2 rs where f: "filter ?hit (ob_events db) = r1 # r2 # rs"
        unfolding n_def by (cases "filter ?hit (ob_events db)"; cases "tl (filter ?hit (ob_events db))") auto
      have "distinct (filter ?hit (ob_events db))" using ev by (auto simp: events_ok_def distinct_map)
      moreover have "{r1, r2} \<subseteq> {r \<in> set (ob_events db). has_id i r}"
        using arg_cong[OF f, of set] by auto
      ultimately show False using same_id_row[OF ev, of r1 r2 i] f by auto
    qed
    then have "n = 0" using False by linarith
    then have "filter ?hit (ob_events db) = []" by (simp add: n_def)
    then have "map (\<lambda>row. if ?hit row then set_columns sets row else row) (ob_events db) = ob_events db"
      by (intro map_idI) (auto simp: filter_empty_conv)
    then have "db1 = db" by (simp add: db1_def update_events_def)
    then show ?thesis using run False assms(2) by simp
  qed
qed

lemma event_write_inv:
  assumes "event_write ee body db = (res, db')" and "db_inv {} db"
    and "\<And>r d. body db = Inr (r, d) \<Longrightarrow> db_inv {} d \<and> appends db d"
  shows "db_inv {} db' \<and> appends db db'"
  using assms by (auto simp: event_write_def split: if_splits sum.splits prod.splits)

lemma has_id_columns: "has_id i (event_columns_of ev) \<longleftrightarrow> i = ne_event_id ev"
  by (auto simp: has_id_def event_columns_of_def EVENT_COLUMNS_def)

lemma scalar_opt_json [simp]: "scalar (opt_json v)"
  by (cases v) auto

lemma event_columns_ok: "scores_ok ev \<Longrightarrow> event_row_ok (event_columns_of ev)"
  using has_id_columns by (auto simp: event_row_ok_def event_columns_of_def EVENT_COLUMNS_def scores_ok_def split: option.split)

lemma insert_event_inv:
  assumes "insert_event ee now ev db = (res, db')" and "db_inv {} db" and "scores_ok ev"
  shows "db_inv {} db' \<and> appends db db'"
  using assms(1)[unfolded insert_event_def] assms(2)
proof (rule event_write_inv)
  fix r d
  let ?i = "ne_event_id ev"
  let ?db = "db\<lparr>ob_events := ob_events db @ [event_columns_of ev]\<rparr>"
  assume "(if list_ex (has_id ?i) (ob_events db) then Inl SqliteFailed
      else bindE (record_event_outbox ee now ?i ?db) (\<lambda>db2. Inr ((), db2))) = Inr (r, d)"
  then have new: "\<not> list_ex (has_id ?i) (ob_events db)" and rec: "record_event_outbox ee now ?i ?db = Inr d"
    by (auto simp: bindE_eq_Inr split: if_splits)
  have "row_id (event_columns_of ev) = Some (JStr ?i)" using has_id_columns[of ?i ev] by (simp add: has_id_row_id)
  then have "events_ok {?i} ?db"
    using assms(2) new event_columns_ok[OF assms(3)]
    by (auto simp: db_inv_def events_ok_def list_ex_iff has_id_columns has_id_row_id mirrors_def event_entries_def)
  then have "db_inv {?i} ?db"
    using assms(2) by (auto simp: db_inv_def rows_inv_def cursors_ok_def items_ok_def states_of_def item_lifecycle_def)
  then show "db_inv {} d \<and> appends db d"
    using record_event_outbox_inv[OF rec, of "{?i}"] by (auto simp: appends_def)
qed

lemma foldE_record_inv:
  "foldE (record_event_outbox ee now) ids db = Inr db' \<Longrightarrow> db_inv S db \<Longrightarrow> db_inv (S - set ids) db' \<and> appends db db'"
proof (induction ids arbitrary: db S)
  case (Cons i ids)
  then obtain d where d: "record_event_outbox ee now i db = Inr d" "foldE (record_event_outbox ee now) ids d = Inr db'"
    by (auto simp: bindE_eq_Inr)
  have "db_inv (S - {i} - set ids) db' \<and> appends d db'"
    using Cons.IH[OF d(2)] record_event_outbox_inv(1)[OF d(1) Cons.prems(2)] by blast
  moreover have "S - {i} - set ids = S - set (i # ids)" by auto
  ultimately show ?case using record_event_outbox_inv(2)[OF d(1) Cons.prems(2)] appends_trans by auto
qed simp

lemma fold_update_inv:
  assumes "sets_ok sets"
  shows "db_inv S db \<Longrightarrow> db_inv (S \<union> set ids) (fold (\<lambda>i d. snd (update_events (has_id i) sets d)) ids db)
    \<and> appends db (fold (\<lambda>i d. snd (update_events (has_id i) sets d)) ids db)"
proof (induction ids arbitrary: db S)
  case (Cons i ids)
  let ?d = "snd (update_events (has_id i) sets db)"
  have "events_ok (S \<union> {i}) ?d"
    by (rule events_ok_update) (use Cons.prems assms in \<open>auto simp: db_inv_def has_id_row_id\<close>)
  then have d: "db_inv (S \<union> {i}) ?d" "appends db ?d" using db_inv_update[OF Cons.prems] by blast+
  have "S \<union> {i} \<union> set ids = S \<union> set (i # ids)" by auto
  then show ?case using Cons.IH[OF d(1)] d(2) appends_trans by (auto simp del: update_events_simps)
qed simp

lemma recover_inv:
  assumes "recover_stale_processing ee now cutoff now_iso db = (res, db')" and "db_inv {} db"
  shows "db_inv {} db' \<and> appends db db'"
  using assms(1)[unfolded recover_stale_processing_def] assms(2)
proof (rule event_write_inv)
  fix r d
  let ?ids = "stale_ids cutoff db"
  let ?db1 = "fold (\<lambda>i d. snd (update_events (has_id i) (recovered_columns now_iso) d)) ?ids db"
  assume "(let event_ids = ?ids; db1 = fold (\<lambda>i d. snd (update_events (has_id i) (recovered_columns now_iso) d)) event_ids db
      in bindE (foldE (record_event_outbox ee now) event_ids db1) (\<lambda>db2. Inr (event_ids, db2))) = Inr (r, d)"
  then have rec: "foldE (record_event_outbox ee now) ?ids ?db1 = Inr d" by (auto simp: Let_def bindE_eq_Inr)
  have "sets_ok (recovered_columns now_iso)" by (simp add: sets_ok_def recovered_columns_def)
  then have "db_inv ({} \<union> set ?ids) ?db1" "appends db ?db1" using fold_update_inv[OF _ assms(2)] by blast+
  then show "db_inv {} d \<and> appends db d" using foldE_record_inv[OF rec] appends_trans by fastforce
qed

lemma set_columns_core:
  assumes "fst ` set sets \<subseteq> set NTFY_COLUMNS"
  shows "core_columns (set_columns sets row) = core_columns row"
proof (induction row)
  case (Cons m row)
  obtain k v where m: "m = (k, v)" by (cases m)
  have "map_of sets k = None" if "k \<notin> set NTFY_COLUMNS" using that assms by (auto simp: map_of_eq_None_iff)
  then show ?case using Cons m by (auto simp: core_columns_def set_columns_def)
qed (simp add: core_columns_def set_columns_def)

lemma ntfy_inv:
  assumes "set_ntfy_status ee i status now_iso err db = (res, db')" and "db_inv {} db"
  shows "db_inv {} db' \<and> appends db db'"
  using assms(1)[unfolded set_ntfy_status_def] assms(2)
proof (rule event_write_inv)
  fix r d
  let ?sets = "[(''ntfy_status'', Put (JStr status)), (''ntfy_last_error'', Put (opt_json err)), (''ntfy_updated_ts'', Put (JStr now_iso))]
      @ (if status = ''FAILED'' then [(''ntfy_attempts'', AddOne)] else [])"
  assume "Inr ((), snd (update_events (has_id i) ?sets db)) = Inr (r, d)"
  then have d: "d = snd (update_events (has_id i) ?sets db)" by simp
  have "sets_ok ?sets" "fst ` set ?sets \<subseteq> set NTFY_COLUMNS" by (auto simp: sets_ok_def NTFY_COLUMNS_def)
  then have "events_ok ({} \<union> {}) d" unfolding d
    using assms(2) by (intro events_ok_update) (auto simp: db_inv_def set_columns_core)
  then show "db_inv {} d \<and> appends db d" using db_inv_update[OF assms(2)] unfolding d by auto
qed

lemmas change_ops = update_event_status_def claim_event_for_processing_def mark_event_processed_def mark_event_deferred_def
  mark_event_failed_def mark_event_notified_def

lemma change_op_inv:
  assumes "event_write ee (change_event ee now i guard sets) db = (res, db')" and "db_inv {} db" and "sets_ok sets"
  shows "db_inv {} db' \<and> appends db db'"
  using assms(1,2) by (rule event_write_inv) (use change_event_inv[OF _ assms(2,3)] in blast)

lemma event_step_inv: "event_step db db' \<Longrightarrow> db_inv {} db \<Longrightarrow> db_inv {} db' \<and> appends db db'"
  by (erule event_stepE)
    (auto simp: change_ops sets_ok_def dest: insert_event_inv recover_inv ntfy_inv elim!: change_op_inv)

section \<open>Lifecycle moves and handoffs\<close>

lemma lifecycle_entry_ok:
  "oe_payload_json e = dumps (lifecycle_payload item new current t related code) \<Longrightarrow> payload_ok e"
  unfolding payload_ok_def by (intro exI[of _ "lifecycle_payload item new current t related code"]) (simp add: lifecycle_payload_def)

lemma events_ok_same: "events_ok S db \<Longrightarrow> ob_rows db' = ob_rows db \<Longrightarrow> ob_events db' = ob_events db \<Longrightarrow> events_ok S db'"
  by (simp add: events_ok_def mirrors_def event_entries_def)

lemma transition_work_inv:
  assumes "transition_work item new t related code db = Inr (res, db')" and "db_inv {} db"
  shows "db_inv {} db' \<and> appends db db'"
proof (cases "by_delivery db (lifecycle_delivery_id item new)")
  case (Some e)
  then show ?thesis using assms by (auto simp: transition_work_def bindE_eq_Inr)
next
  case None
  let ?cur = "item_lifecycle db item"
  define e0 where "e0 = \<lparr>oe_seq = 0, oe_delivery_id = lifecycle_delivery_id item new, oe_kind = LIFECYCLE,
      oe_subject_id = item, oe_state = Some (state_value new), oe_sender = None, oe_receiver = None,
      oe_payload_json = dumps (lifecycle_payload item new ?cur t related code), oe_recorded_at = t\<rparr>"
  obtain db1 e where step: "check_transition ?cur new = Inr ()" "move_item item ?cur new t db = Inr db1"
      "outbox_insert e0 db1 = Inr (e, db')"
    using assms(1) None by (auto simp: transition_work_def Let_def bindE_eq_Inr e0_def)
  note moved = move_item_Inr[OF step(2)] and ins = outbox_insert_Inr[OF step(3)]
  have e: "oe_kind e = LIFECYCLE" "oe_subject_id e = item" "oe_state e = Some (state_value new)"
    by (simp_all add: ins(1) e0_def)
  have "rows_inv db1" using assms(2) moved(1,2) by (simp add: db_inv_def rows_inv_def cursors_ok_def)
  then have "rows_inv db'" using insert_rows_inv[OF step(3)] lifecycle_entry_ok[of e0] by (simp add: e0_def)
  moreover have "events_ok {} db'"
    using events_ok_insert[of "{}" db1 e] events_ok_same[of "{}" db db1] assms(2) moved(1,3) e(1) ins(2) by (simp add: db_inv_def)
  moreover have "items_ok db'" unfolding items_ok_def
  proof
    fix other
    obtain ss where ss: "states_of db other = map state_value ss" "lifecycle_path ss" "item_lifecycle db other = path_end ss"
      using assms(2) by (auto simp: db_inv_def items_ok_def)
    have st: "states_of db' other = states_of db other @ (if other = item then [state_value new] else [])"
      unfolding ins(2) states_of_insert using e moved(1) by (simp add: states_of_def)
    have it: "item_lifecycle db' other = (if other = item then Some new else item_lifecycle db other)"
      using moved(4)[of other] by (simp add: ins(2))
    show "\<exists>ss. states_of db' other = map state_value ss \<and> lifecycle_path ss \<and> item_lifecycle db' other = path_end ss"
    proof (cases "other = item")
      case True
      then have "lifecycle_path (ss @ [new])" using ss step(1) by (simp add: lifecycle_path_snoc)
      then show ?thesis using True st it ss(1) by (intro exI[of _ "ss @ [new]"]) (simp add: path_end_def)
    qed (use ss st it in auto)
  qed
  ultimately show ?thesis using ins(2) moved(1,2) by (auto simp: db_inv_def appends_def)
qed

lemma handoff_payload_ok: "handoff_payload h = Inr ms \<Longrightarrow> oe_payload_json e = dumps ms \<Longrightarrow> payload_ok e"
  unfolding payload_ok_def by (intro exI[of _ ms]) (auto simp: handoff_payload_def bindE_eq_Inr)

lemma handoff_work_inv:
  assumes "handoff_work d h (dumps ms) t db = Inr (res, db')" and "db_inv {} db" and "handoff_payload h = Inr ms"
  shows "db_inv {} db' \<and> appends db db'"
proof (cases "by_delivery db d")
  case (Some e)
  then show ?thesis using assms by (auto simp: handoff_work_def bindE_eq_Inr)
next
  case None
  define e0 where "e0 = \<lparr>oe_seq = 0, oe_delivery_id = d, oe_kind = HANDOFF, oe_subject_id = ho_opportunity_id h, oe_state = None,
      oe_sender = ho_sender h, oe_receiver = ho_receiver h, oe_payload_json = dumps ms, oe_recorded_at = t\<rparr>"
  obtain e where step: "outbox_insert e0 db = Inr (e, db')"
    using assms(1) None by (auto simp: handoff_work_def bindE_eq_Inr e0_def)
  note ins = outbox_insert_Inr[OF step]
  have "oe_kind e = HANDOFF" by (simp add: ins(1) e0_def)
  then have "events_ok {} db'" "items_ok db'"
    using events_ok_insert[of "{}" db e] items_ok_insert[of db e] assms(2) by (simp_all add: ins(2) db_inv_def)
  moreover have "rows_inv db'"
    using insert_rows_inv[OF step] handoff_payload_ok[OF assms(3), of e0] assms(2) by (simp add: e0_def db_inv_def)
  ultimately show ?thesis by (auto simp: db_inv_def ins(2) appends_def)
qed

section \<open>Acknowledgements\<close>

lemma db_inv_cursors:
  assumes "db_inv S db" and "ob_rows db' = ob_rows db" "ob_items db' = ob_items db" "ob_events db' = ob_events db" "cursors_ok db'"
  shows "db_inv S db'"
  using assms events_ok_same[of S db db']
  by (auto simp: db_inv_def rows_inv_def items_ok_def states_of_def item_lifecycle_def)

lemma acknowledge_work_inv:
  assumes "acknowledge_work name seq t db = Inr (res, db')" and "db_inv {} db"
  shows "db_inv {} db' \<and> ob_rows db' = ob_rows db \<and> cursor_pos db name \<le> cursor_pos db' name
    \<and> (\<forall>c. c \<noteq> name \<longrightarrow> cursor_pos db' c = cursor_pos db c \<and> cursor_off db' c = cursor_off db c)"
proof -
  have ok: "cursors_ok db" "seqs_ok (ob_rows db)" using assms(2) by (auto simp: db_inv_def rows_inv_def)
  obtain row where row: "cursor_of db name = Inr row" using cursor_of_ok[OF ok(1)] by blast
  have "seq \<le> int (length (ob_rows db))" using assms(1) last_seq_eq[OF ok(2)] by (auto simp: acknowledge_work_def split: if_splits)
  moreover have "db' = db \<or> (\<exists>off. save_cursor name seq off t db = Inr db')"
    using assms(1) row by (auto simp: acknowledge_work_def Let_def bindE_eq_Inr split: if_splits)
  ultimately show ?thesis
    using save_cursor_Inr[OF _ ok(1), of name seq _ t db'] db_inv_cursors[OF assms(2)] assms(2) by (elim disjE exE) auto
qed

end
