(* ===== verification/Outbox_Properties.thy ===== *)
theory Outbox_Properties
  imports Outbox_Safety
begin

text \<open>
  The outbox as a machine whose steps are the operations of the store, with every fault that the
  model has, and the properties of the states it can reach.
\<close>

section \<open>The export\<close>

text \<open>What an export does to the database: only the cursor of its own consumer moves, and never back.\<close>

definition exports :: "string \<Rightarrow> outbox_db \<Rightarrow> outbox_db \<Rightarrow> bool" where
  "exports c db db' \<longleftrightarrow>
     db_inv {} db' \<and> ob_rows db' = ob_rows db \<and> cursor_pos db c \<le> cursor_pos db' c
     \<and> (\<forall>c'. c' \<noteq> c \<longrightarrow> cursor_pos db' c' = cursor_pos db c' \<and> cursor_off db' c' = cursor_off db c')"

definition cursor_file_ok :: "string \<Rightarrow> outbox_db \<Rightarrow> string option \<Rightarrow> bool" where
  "cursor_file_ok c db file \<longleftrightarrow> file_ok (ob_rows db) (cursor_pos db c) (nat (cursor_off db c)) (bytes_of file)"

lemma db_inv_parts: "db_inv S db \<Longrightarrow> seqs_ok (ob_rows db)" "db_inv S db \<Longrightarrow> rows_ok (ob_rows db)" "db_inv S db \<Longrightarrow> cursors_ok db"
  by (simp_all add: db_inv_def rows_inv_def)

lemma exports_refl: "db_inv {} db \<Longrightarrow> exports c db db"
  by (simp add: exports_def)

lemma export_work_inv:
  assumes "export_work io c t db file = (res, file')" and "db_inv {} db" and "cursor_file_ok c db file"
  shows "cursor_file_ok c db file'"
    and "res = Inr (r, db') \<Longrightarrow>
      exports c db db' \<and> cursor_file_ok c db' file' \<and> cursor_pos db' c = last_seq db \<and> er_position r = last_seq db"
proof -
  note inv = db_inv_parts[OF assms(2)]
  define p off where "p = cursor_pos db c" and "off = cursor_off db c"
  define es where "es = filter (\<lambda>e. p < oe_seq e) (ob_rows db)"
  obtain row where row: "cursor_of db c = Inr row" "(case row of None \<Rightarrow> 0 | Some (p, _) \<Rightarrow> p) = p"
      "(case row of Some (_, Some off) \<Rightarrow> off | _ \<Rightarrow> 0) = off"
    using cursor_of_ok[OF inv(3), of c] unfolding p_def off_def by blast
  have b: "0 \<le> p" "p \<le> int (length (ob_rows db))" "0 \<le> off" using cursor_bounds[OF inv(3), of c] by (simp_all add: p_def off_def)
  have run: "export_work io c t db file =
     (if es = [] then (Inr (\<lparr>er_written = 0, er_already_in_file = 0, er_position = p\<rparr>, db), file)
      else case append_entries io es off file of
        (Inl e, file') \<Rightarrow> (Inl e, file')
      | (Inr a, file') \<Rightarrow>
          (bindE (save_cursor c (oe_seq (last es)) (Some (ar_size a)) t db) (\<lambda>db1.
             Inr (\<lparr>er_written = ar_written a, er_already_in_file = ar_skipped a, er_position = oe_seq (last es)\<rparr>, db1)), file'))"
    unfolding export_work_def row(1) sum.case Let_def row(2,3) entries_after_def option.case es_def by (rule refl)
  have f: "file_ok (ob_rows db) p (nat off) (bytes_of file)" using assms(3) by (simp add: cursor_file_ok_def p_def off_def)
  have "cursor_file_ok c db file' \<and> (res = Inr (r, db') \<longrightarrow>
      exports c db db' \<and> cursor_file_ok c db' file' \<and> cursor_pos db' c = last_seq db \<and> er_position r = last_seq db)"
  proof (cases "es = []")
    case True
    then have "nat p \<ge> length (ob_rows db)" using after_eq_drop[OF inv(1) b(1)] by (simp add: es_def)
    then have "p = last_seq db" using b last_seq_eq[OF inv(1)] by simp
    then show ?thesis using assms True run exports_refl by (auto simp: p_def)
  next
    case False
    have last: "oe_seq (last es) = last_seq db"
      using last_after[OF inv(1), of p] False last_seq_eq[OF inv(1)] by (simp add: es_def)
    obtain ar f1 where ap: "append_entries io es off file = (ar, f1)" by (cases "append_entries io es off file")
    have f1: "file' = f1" using assms(1) run ap False by (auto split: sum.splits)
    have ap': "append_entries io es (int (nat off)) file = (ar, f1)" using ap b(3) by simp
    note app = append_entries_ok[OF inv(2) f ap'[unfolded es_def]]
    have "exports c db db' \<and> cursor_file_ok c db' file' \<and> cursor_pos db' c = last_seq db \<and> er_position r = last_seq db"
      if res: "res = Inr (r, db')"
    proof -
      obtain a where a: "ar = Inr a" using assms(1) run ap False res by (cases ar) auto
      then have save: "save_cursor c (last_seq db) (Some (ar_size a)) t db = Inr db'" and r: "er_position r = last_seq db"
        using assms(1) run ap False res last by (auto simp: bindE_eq_Inr)
      have le: "last_seq db \<le> int (length (ob_rows db))" using last_seq_eq[OF inv(1)] by simp
      note sv = save_cursor_Inr[OF save inv(3) le]
      have "db_inv {} db'" using db_inv_cursors[OF assms(2) sv(1-4)] .
      moreover have "\<forall>e \<in> set (ob_rows db). oe_seq e \<le> last_seq db"
        using seqs_ok_range[OF inv(1)] last_seq_eq[OF inv(1)] by simp
      then have "file_ok (ob_rows db) (last_seq db) (nat (ar_size a)) (bytes_of file')" using app(2)[OF a] f1 by blast
      ultimately show ?thesis using sv(1,5-8) r by (simp add: exports_def cursor_file_ok_def)
    qed
    moreover have "cursor_file_ok c db file'" using app(1) f1 by (simp add: cursor_file_ok_def p_def off_def)
    ultimately show ?thesis by blast
  qed
  then show "cursor_file_ok c db file'"
    and "res = Inr (r, db') \<Longrightarrow>
      exports c db db' \<and> cursor_file_ok c db' file' \<and> cursor_pos db' c = last_seq db \<and> er_position r = last_seq db" by blast+
qed

lemma export_loop_inv:
  assumes "export_loop xe c t n ds db file = (res, db', file')" and "db_inv {} db" and "cursor_file_ok c db file"
  shows "exports c db db' \<and> cursor_file_ok c db' file'
    \<and> (\<forall>r. res = Inr r \<longrightarrow> cursor_pos db' c = last_seq db \<and> er_position r = last_seq db)"
  using assms(1,3)
proof (induction ds arbitrary: n "file")
  case Nil
  obtain w f1 where w: "export_work (xe_io xe n) c t db file = (w, f1)" by (cases "export_work (xe_io xe n) c t db file")
  note work = export_work_inv[OF w assms(2) Nil.prems(2)]
  show ?case using Nil work w exports_refl[OF assms(2)]
    by (subst (asm) export_loop.simps) (auto simp: Let_def split: try_result.splits sum.splits prod.splits if_splits)
next
  case (Cons d ds)
  obtain w f1 where w: "export_work (xe_io xe n) c t db file = (w, f1)" by (cases "export_work (xe_io xe n) c t db file")
  note work = export_work_inv[OF w assms(2) Cons.prems(2)]
  show ?case using Cons.prems work w exports_refl[OF assms(2)] Cons.IH[of "Suc n" "file"] Cons.IH[of "Suc n" f1]
    by (subst (asm) export_loop.simps) (auto simp: Let_def split: try_result.splits sum.splits prod.splits if_splits)
qed

text \<open>With no fault the export returns.\<close>

definition calm_export :: "export_env \<Rightarrow> bool" where
  "calm_export xe \<longleftrightarrow> \<not> in_transaction (xe_tx xe) \<and> migrated (xe_tx xe) \<and> faults (xe_tx xe) 0 = NoFault
     \<and> xe_io xe 0 = IoOk \<and> xe_commit xe 0 = NoFault"

lemma save_cursor_succeeds:
  assumes "sql_nonempty c" and "0 \<le> off" and "0 \<le> p" and "cursor_pos db c \<le> p"
  shows "\<exists>db'. save_cursor c p (Some off) t db = Inr db'"
proof (cases "find (\<lambda>r. cu_consumer r = c) (ob_cursors db)")
  case (Some r)
  then have "\<not> p < cu_position r" using assms(4) by (simp add: cursor_pos_def)
  then show ?thesis using assms Some by (simp add: save_cursor_def Let_def)
qed (use assms in \<open>simp add: save_cursor_def Let_def\<close>)

lemma append_entries_calm:
  assumes "\<forall>e \<in> set es. payload_ok e"
  shows "\<exists>a f. append_entries IoOk es off file = (Inr a, f) \<and> 0 \<le> ar_size a"
proof -
  obtain ls where "mapE export_line es = Inr ls" using assms by (rule export_lines_ok)
  then show ?thesis by (simp add: append_entries_def Let_def)
qed

lemma export_work_calm:
  assumes "db_inv {} db" and "sql_nonempty c"
  shows "\<exists>r db' f. export_work IoOk c t db file = (Inr (r, db'), f)"
proof -
  note inv = db_inv_parts[OF assms(1)]
  obtain row where row: "cursor_of db c = Inr row" "(case row of None \<Rightarrow> 0 | Some (p, _) \<Rightarrow> p) = cursor_pos db c"
    using cursor_of_ok[OF inv(3), of c] by blast
  define es where "es = entries_after db (cursor_pos db c) None"
  have sub: "set es \<subseteq> set (ob_rows db)" by (auto simp: es_def entries_after_def)
  then have "\<forall>e \<in> set es. payload_ok e" using inv(2) by (auto simp: rows_ok_def)
  then obtain a f where a: "append_entries IoOk es (case row of Some (_, Some off) \<Rightarrow> off | _ \<Rightarrow> 0) file = (Inr a, f)" "0 \<le> ar_size a"
    using append_entries_calm by blast
  have "\<exists>db'. save_cursor c (oe_seq (last es)) (Some (ar_size a)) t db = Inr db'" if "es \<noteq> []"
  proof (rule save_cursor_succeeds[OF assms(2) a(2)])
    have "last es \<in> set (ob_rows db)" "cursor_pos db c < oe_seq (last es)"
      using that sub last_in_set[OF that] by (auto simp: es_def entries_after_def)
    then show "0 \<le> oe_seq (last es)" "cursor_pos db c \<le> oe_seq (last es)" using seqs_ok_range[OF inv(1)] by fastforce+
  qed
  then show ?thesis using a(1)
    unfolding export_work_def row(1) sum.case Let_def row(2) es_def[symmetric] by (cases "es = []") auto
qed

lemma export_calm:
  assumes "calm_export xe" and "db_inv {} db"
  shows "\<exists>r db' files'. export_jsonl file_key xe path (Aware t) db files = (Inr r, db', files')"
proof -
  have "sql_nonempty (jsonl_consumer file_key path)" by (simp add: sql_nonempty_def jsonl_consumer_def)
  then obtain r db' f where "export_work IoOk (jsonl_consumer file_key path) (iso_utc t) db (files (file_key path)) = (Inr (r, db'), f)"
    using export_work_calm[OF assms(2)] by blast
  then show ?thesis using assms(1)
    by (simp add: export_jsonl_def calm_export_def export_loop.simps[of xe _ _ 0] try_once_def outbox_codes_def)
qed

section \<open>Operations that append\<close>

text \<open>The contract of an operation that appends rows, and what its clients rely on: cursors and files stay right.\<close>

locale appending_operation =
  fixes step :: "outbox_db \<Rightarrow> outbox_db \<Rightarrow> bool"
  assumes keeps: "step db db' \<Longrightarrow> db_inv {} db \<Longrightarrow> db_inv {} db' \<and> appends db db'"
begin

lemma step_inv: "step db db' \<Longrightarrow> db_inv {} db \<Longrightarrow> db_inv {} db'"
  using keeps by blast

lemma step_grows: "step db db' \<Longrightarrow> db_inv {} db \<Longrightarrow> grows db db'"
  using keeps by (fastforce simp: grows_def appends_def cursor_pos_def)

lemma step_file:
  assumes "step db db'" and "db_inv {} db" and "cursor_file_ok c db file"
  shows "cursor_file_ok c db' file"
proof -
  obtain es where es: "ob_rows db' = ob_rows db @ es" "ob_cursors db' = ob_cursors db" and inv: "db_inv {} db'"
    using keeps[OF assms(1,2)] by (auto simp: appends_def)
  have same: "cursor_pos db' c = cursor_pos db c" "cursor_off db' c = cursor_off db c"
    using es(2) by (simp_all add: cursor_pos_def cursor_off_def)
  have le: "cursor_pos db c \<le> int (length (ob_rows db))" using cursor_bounds[OF db_inv_parts(3)[OF assms(2)]] by blast
  have "rows_ok (ob_rows db @ es)" "seqs_ok (ob_rows db @ es)" using db_inv_parts[OF inv] es(1) by simp_all
  then have "file_ok (ob_rows db @ es) (cursor_pos db c) (nat (cursor_off db c)) (bytes_of file)"
  proof (induction es rule: rev_induct)
    case Nil
    then show ?case using assms(3) by (simp add: cursor_file_ok_def)
  next
    case (snoc e es)
    have ok: "rows_ok (ob_rows db @ es)" "seqs_ok (ob_rows db @ es)" "oe_seq e = int (length (ob_rows db @ es)) + 1"
      using snoc.prems seqs_ok_snoc[of "ob_rows db @ es" e] by (auto simp: rows_ok_def)
    then show ?case using file_ok_new_row[of "ob_rows db @ es" e] snoc le by simp
  qed
  then show ?thesis unfolding cursor_file_ok_def same es(1) .
qed

end

interpretation events: appending_operation event_step
  by unfold_locales (rule event_step_inv)

definition lifecycle_step :: "outbox_db \<Rightarrow> outbox_db \<Rightarrow> bool" where
  "lifecycle_step db db' \<longleftrightarrow>
     (\<exists>env item new now related reason res. record_lifecycle_transition env item new now related reason db = (res, db'))"

definition handoff_step :: "outbox_db \<Rightarrow> outbox_db \<Rightarrow> bool" where
  "handoff_step db db' \<longleftrightarrow> (\<exists>env h now res. record_handoff env h now db = (res, db'))"

text \<open>An operation whose arguments are checked first and whose body runs in one transaction.\<close>

definition writes :: "(outbox_db \<Rightarrow> bool) \<Rightarrow> outbox_db \<Rightarrow> (outbox_db \<Rightarrow> (outbox_failure + 'r) \<times> outbox_db) \<Rightarrow> bool" where
  "writes P db f \<longleftrightarrow> (\<forall>res db'. P db \<longrightarrow> f db = (res, db') \<longrightarrow> P db')"

lemma writes_op: "(\<And>r d. work db = Inr (r, d) \<Longrightarrow> P d) \<Longrightarrow> writes P db (write_op c env work)"
  unfolding writes_def using tx.write_error tx.write_commit by (metis sum.exhaust)

lemma with_args_write:
  assumes "with_args args f db = (res, db')" and "P db" and "\<And>a. args = Inr a \<Longrightarrow> writes P db (f a)"
  shows "P db'"
  using assms by (cases args) (auto simp: with_args_def writes_def)

interpretation lifecycle: appending_operation lifecycle_step
proof unfold_locales
  fix db db' assume "lifecycle_step db db'" and inv: "db_inv {} db"
  then obtain env item new now related reason res where
    "record_lifecycle_transition env item new now related reason db = (res, db')" by (auto simp: lifecycle_step_def)
  then show "db_inv {} db' \<and> appends db db'"
    unfolding record_lifecycle_transition_def
    by (rule with_args_write[where P = "\<lambda>d. db_inv {} d \<and> appends db d"])
      (use inv in \<open>auto intro!: writes_op dest: transition_work_inv\<close>)
qed

interpretation handoffs: appending_operation handoff_step
proof unfold_locales
  fix db db' assume "handoff_step db db'" and inv: "db_inv {} db"
  then obtain env h now res where "record_handoff env h now db = (res, db')" by (auto simp: handoff_step_def)
  then show "db_inv {} db' \<and> appends db db'"
    unfolding record_handoff_def
    by (rule with_args_write[where P = "\<lambda>d. db_inv {} d \<and> appends db d"])
      (use inv in \<open>auto simp: bindE_eq_Inr intro!: writes_op dest: handoff_work_inv\<close>)
qed

section \<open>The machine\<close>

text \<open>
  A state is the database and the files. A consumer other than an export acknowledges under its own
  name; the names that start with \<^verbatim>\<open>jsonl:\<close> belong to the exports.
\<close>

type_synonym outbox_machine = "outbox_db \<times> (string \<Rightarrow> string option)"

inductive outbox_step :: "(string \<Rightarrow> string) \<Rightarrow> outbox_machine \<Rightarrow> outbox_machine \<Rightarrow> bool" for file_key where
  EventChange: "event_step db db' \<Longrightarrow> outbox_step file_key (db, files) (db', files)"
| LifecycleMove: "record_lifecycle_transition env item new now related reason db = (res, db') \<Longrightarrow>
    outbox_step file_key (db, files) (db', files)"
| HandoffSent: "record_handoff env h now db = (res, db') \<Longrightarrow> outbox_step file_key (db, files) (db', files)"
| Acknowledged: "take 6 consumer \<noteq> ''jsonl:'' \<Longrightarrow> acknowledge env consumer seq now db = (ack, db') \<Longrightarrow>
    outbox_step file_key (db, files) (db', files)"
| Exported: "export_jsonl file_key xe path now db files = (er, db', files') \<Longrightarrow> outbox_step file_key (db, files) (db', files')"

inductive outbox_reachable :: "(string \<Rightarrow> string) \<Rightarrow> outbox_machine \<Rightarrow> bool" for file_key where
  Start: "outbox_reachable file_key (empty_outbox, \<lambda>_. None)"
| Then: "outbox_reachable file_key m \<Longrightarrow> outbox_step file_key m m' \<Longrightarrow> outbox_reachable file_key m'"

inductive_cases outbox_stepE: "outbox_step file_key m m'"

definition machine_inv :: "outbox_machine \<Rightarrow> bool" where
  "machine_inv m \<longleftrightarrow> db_inv {} (fst m) \<and> (\<forall>f. cursor_file_ok (''jsonl:'' @ f) (fst m) (snd m f))"

lemma consumer_name_Inr: "consumer_name s = Inr x \<Longrightarrow> x = s"
  by (simp add: consumer_name_def split: if_splits)

lemma acknowledge_inv:
  assumes "acknowledge env name seq now db = (res, db')" and "db_inv {} db"
  shows "exports name db db'"
  using assms(1)[unfolded acknowledge_def]
  by (rule with_args_write[where P = "exports name db"])
    (use assms(2) in \<open>auto simp: exports_refl exports_def bindE_eq_Inr intro!: writes_op
      dest!: consumer_name_Inr acknowledge_work_inv\<close>)

lemma exports_grows: "exports c db db' \<Longrightarrow> grows db db'"
  unfolding exports_def grows_def by (metis append_Nil2 order_refl)

lemma exports_other_file: "exports c db db' \<Longrightarrow> c' \<noteq> c \<Longrightarrow> cursor_file_ok c' db file \<Longrightarrow> cursor_file_ok c' db' file"
  by (simp add: exports_def cursor_file_ok_def)

lemma export_step_inv:
  assumes "export_jsonl file_key xe path now db files = (res, db', files')" and "machine_inv (db, files)"
  shows "machine_inv (db', files') \<and> grows db db'
    \<and> (\<forall>r. res = Inr r \<longrightarrow> cursor_pos db' (jsonl_consumer file_key path) = last_seq db \<and> er_position r = last_seq db \<and> ob_rows db' = ob_rows db)"
proof -
  let ?c = "jsonl_consumer file_key path" and ?f = "file_key path"
  have inv: "db_inv {} db" "\<And>f. cursor_file_ok (''jsonl:'' @ f) db (files f)" using assms(2) by (simp_all add: machine_inv_def)
  show ?thesis
  proof (cases "(\<exists>e. utc_text now = Inl e) \<or> in_transaction (xe_tx xe)")
    case True
    then show ?thesis using assms by (auto simp: export_jsonl_def grows_refl split: sum.splits)
  next
    case False
    then obtain t where t: "utc_text now = Inr t" by (cases "utc_text now") auto
    obtain file' where run: "export_loop xe ?c t 0 BUSY_RETRY_DELAYS db (files ?f) = (res, db', file')" "files' = files(?f := file')"
      using assms(1) False t by (auto simp: export_jsonl_def split: prod.splits)
    have "exports ?c db db' \<and> cursor_file_ok ?c db' file'
        \<and> (\<forall>r. res = Inr r \<longrightarrow> cursor_pos db' ?c = last_seq db \<and> er_position r = last_seq db)"
      using export_loop_inv[OF run(1) inv(1)] inv(2)[of ?f] by (simp add: jsonl_consumer_def)
    moreover from this have "cursor_file_ok (''jsonl:'' @ f) db' (files' f)" for f
      using exports_other_file[of ?c db db' "''jsonl:'' @ f"] inv(2)[of f] run(2) by (auto simp: jsonl_consumer_def)
    ultimately show ?thesis using exports_grows by (auto simp: machine_inv_def exports_def)
  qed
qed

lemma outbox_step_inv:
  assumes "outbox_step file_key m m'" and "machine_inv m"
  shows "machine_inv m' \<and> grows (fst m) (fst m')"
  using assms(1)
proof cases
  case (EventChange db db' files)
  then show ?thesis using assms(2) events.step_inv events.step_grows events.step_file by (auto simp: machine_inv_def)
next
  case (LifecycleMove env item new now related reason db res db' files)
  then have "lifecycle_step db db'" unfolding lifecycle_step_def by blast
  then show ?thesis using LifecycleMove assms(2) lifecycle.step_inv lifecycle.step_grows lifecycle.step_file
    by (auto simp: machine_inv_def)
next
  case (HandoffSent env h now db res db' files)
  then have "handoff_step db db'" unfolding handoff_step_def by blast
  then show ?thesis using HandoffSent assms(2) handoffs.step_inv handoffs.step_grows handoffs.step_file
    by (auto simp: machine_inv_def)
next
  case (Acknowledged consumer env seq now db ack db' files)
  then have ex: "exports consumer db db'" using acknowledge_inv assms(2) by (auto simp: machine_inv_def)
  moreover have "''jsonl:'' @ f \<noteq> consumer" for f using Acknowledged(3) by auto
  ultimately show ?thesis using Acknowledged assms(2) exports_grows[OF ex] exports_other_file[OF ex]
    by (auto simp: machine_inv_def exports_def)
next
  case (Exported xe path now db files er db' files')
  then show ?thesis using export_step_inv assms(2) by auto
qed

lemma empty_machine_inv: "machine_inv (empty_outbox, \<lambda>_. None)"
proof -
  have "file_ok [] 0 0 []" by (simp add: file_ok_def starts_line_def)
  then show ?thesis
    by (auto simp: machine_inv_def db_inv_def rows_inv_def seqs_ok_def rows_ok_def cursors_ok_def items_ok_def states_of_def
        lifecycle_path_def item_lifecycle_def path_end_def events_ok_def empty_outbox_def cursor_file_ok_def cursor_pos_def
        cursor_off_def bytes_of_def intro: exI[of _ "[]"])
qed

lemma reachable_inv: "outbox_reachable file_key m \<Longrightarrow> machine_inv m"
  by (induction rule: outbox_reachable.induct) (auto simp: empty_machine_inv dest: outbox_step_inv)

section \<open>What a reader of a file finds\<close>

definition file_ids :: "string option \<Rightarrow> string list" where
  "file_ids file = List.map_filter line_id (split_lines (bytes_of file))"

lemma map_filter_distinct:
  assumes "\<And>x y. x \<in> set xs \<Longrightarrow> f x = Some y \<Longrightarrow> count_list xs x \<le> 1"
    and "\<And>x x' y. x \<in> set xs \<Longrightarrow> x' \<in> set xs \<Longrightarrow> f x = Some y \<Longrightarrow> f x' = Some y \<Longrightarrow> x = x'"
  shows "distinct (List.map_filter f xs)"
  using assms
proof (induction xs)
  case (Cons a xs)
  have "distinct (List.map_filter f xs)"
  proof (rule Cons.IH)
    show "count_list xs x \<le> 1" if "x \<in> set xs" "f x = Some y" for x y
      using Cons.prems(1)[of x y] that by (simp split: if_splits)
  qed (use Cons.prems(2) in auto)
  moreover have "y \<notin> set (List.map_filter f xs)" if "f a = Some y" for y
  proof
    assume "y \<in> set (List.map_filter f xs)"
    then obtain x where "x \<in> set xs" "f x = Some y" by (auto simp: map_filter_set)
    then have "a \<in> set xs" using Cons.prems(2)[of a x y] that by auto
    then show False using Cons.prems(1)[of a y] that by (simp add: count_list_0_iff)
  qed
  ultimately show ?case by (simp add: List.map_filter_simps split: option.splits)
qed (simp add: List.map_filter_simps)

lemma file_ids_ok:
  assumes "rows_ok es" and "file_ok es p off (bytes_of file)"
  shows "distinct (file_ids file)" "set (file_ids file) \<subseteq> oe_delivery_id ` set es"
    "e \<in> set es \<Longrightarrow> oe_seq e \<le> p \<Longrightarrow> line_of e \<in> set (butlast (split_lines (bytes_of file))) \<and> oe_delivery_id e \<in> set (file_ids file)"
proof -
  let ?b = "bytes_of file"
  note f = file_ok_parts[OF assms(2)]
  have row: "\<exists>e \<in> set es. l = line_of e \<and> oe_delivery_id e = d" if "l \<in> set (split_lines ?b)" "line_id l = Some d" for l d
    using starts_line_id[OF assms(1) f(3)[OF that(1)] that(2)] by metis
  have count: "count_list (split_lines ?b) (line_of e) \<le> 1" if "e \<in> set es" for e
    using count_list_file[OF f(2), of "line_of e"] f(4,5)[OF that] line_of_nonempty[of e] assms(1) that
    by (auto simp: rows_ok_def split: if_splits)
  show "distinct (file_ids file)" unfolding file_ids_def
  proof (rule map_filter_distinct)
    show "count_list (split_lines ?b) l \<le> 1" if "l \<in> set (split_lines ?b)" "line_id l = Some d" for l d
      using row[OF that] count by auto
    show "l = l'" if l: "l \<in> set (split_lines ?b)" "l' \<in> set (split_lines ?b)" "line_id l = Some d" "line_id l' = Some d" for l l' d
    proof -
      obtain e e' where "e \<in> set es" "l = line_of e" "oe_delivery_id e = d" "e' \<in> set es" "l' = line_of e'" "oe_delivery_id e' = d"
        using row[OF l(1,3)] row[OF l(2,4)] by blast
      then show ?thesis using assms(1) by (auto simp: rows_ok_def distinct_map dest: inj_onD)
    qed
  qed
  show "set (file_ids file) \<subseteq> oe_delivery_id ` set es" using row by (auto simp: file_ids_def map_filter_set)
  show "line_of e \<in> set (butlast (split_lines ?b)) \<and> oe_delivery_id e \<in> set (file_ids file)" if e: "e \<in> set es" "oe_seq e \<le> p"
  proof -
    have ok: "payload_ok e" using assms(1) e(1) by (simp add: rows_ok_def)
    have "count_list (split_lines (take off ?b)) (line_of e) \<noteq> 0" using f(4)[OF e(1)] e(2) by simp
    then have "line_of e \<in> set (split_lines (take off ?b))" by (simp add: count_list_0_iff)
    then have "line_of e \<in> set (butlast (split_lines (take off ?b)))"
      using arg_cong[OF split_lines_head[OF f(2)], of set] line_of_nonempty[OF ok] by auto
    then have "line_of e \<in> set (butlast (split_lines ?b))"
      by (subst split_lines_at[OF f(2)]) (simp add: butlast_append)
    then show ?thesis using line_id_line[OF ok] in_set_butlastD[of "line_of e"] by (auto simp: file_ids_def map_filter_set)
  qed
qed

section \<open>The properties\<close>

lemma handoff_parties:
  assumes "entry_check e" and "oe_kind e = HANDOFF"
  shows "\<exists>a b. oe_sender e = Some a \<and> oe_receiver e = Some b \<and> a \<noteq> b \<and> sql_trim a \<noteq> [] \<and> sql_trim b \<noteq> []"
  using assms by (auto simp: entry_check_def sql_nonempty_def split: option.splits)

text \<open>
  C12: The outbox is a ledger. In every state that the store can reach, through any operations and any
  faults, the rows are numbered 1, 2, 3, ... in table order, no delivery id occurs twice, no cursor
  is past the last row, each lifecycle item went through allowed moves from an initial state, into
  each state at most once, and is now in the last state that its rows show, and each handoff has two
  different parties that are not blank. A further operation only appends rows, so a consumer that
  reads after its cursor misses none, and moves no cursor back.
\<close>

theorem outbox_ledger:
  assumes "outbox_reachable file_key (db, files)"
  shows "map oe_seq (ob_rows db) = map (\<lambda>i. int i + 1) [0..<length (ob_rows db)]
    \<and> distinct (map oe_delivery_id (ob_rows db))
    \<and> (\<forall>c. 0 \<le> cursor_pos db c \<and> cursor_pos db c \<le> last_seq db)
    \<and> (\<forall>item. \<exists>ss. states_of db item = map state_value ss \<and> lifecycle_path ss \<and> distinct ss \<and> item_lifecycle db item = path_end ss)
    \<and> (\<forall>e \<in> set (ob_rows db). oe_kind e = HANDOFF \<longrightarrow>
        (\<exists>a b. oe_sender e = Some a \<and> oe_receiver e = Some b \<and> a \<noteq> b \<and> sql_trim a \<noteq> [] \<and> sql_trim b \<noteq> []))
    \<and> (\<forall>db' files'. outbox_step file_key (db, files) (db', files') \<longrightarrow>
        (\<exists>es. ob_rows db' = ob_rows db @ es) \<and> (\<forall>c. cursor_pos db c \<le> cursor_pos db' c))"
proof -
  have m: "machine_inv (db, files)" using reachable_inv[OF assms] .
  then have inv: "db_inv {} db" by (simp add: machine_inv_def)
  then have "\<forall>e \<in> set (ob_rows db). entry_check e" "items_ok db" by (simp_all add: db_inv_def rows_inv_def)
  moreover have "\<forall>c. 0 \<le> cursor_pos db c \<and> cursor_pos db c \<le> last_seq db"
    using cursor_bounds[OF db_inv_parts(3)[OF inv]] last_seq_eq[OF db_inv_parts(1)[OF inv]] by simp
  moreover have "grows db db'" if "outbox_step file_key (db, files) (db', files')" for db' files'
    using outbox_step_inv[OF that m] by simp
  ultimately show ?thesis using db_inv_parts(1,2)[OF inv] handoff_parties lifecycle_path_distinct
    unfolding items_ok_def seqs_ok_def rows_ok_def grows_def by blast
qed



text \<open>
  C11: An export file never repeats or invents a delivery, and an export recovers from any crash. In every
  reachable state, after any torn append or failed commit, the delivery ids that a reader of a file
  finds are distinct and are ids of the outbox, and every row that the file's cursor has passed is
  there as a complete line. From that state an export that meets no fault returns, and then the file
  has the id of every row of the outbox exactly once and the cursor is at the last row.
\<close>

theorem export_delivers:
  assumes "outbox_reachable file_key (db, files)"
  shows "distinct (file_ids (files (file_key path)))
    \<and> set (file_ids (files (file_key path))) \<subseteq> oe_delivery_id ` set (ob_rows db)
    \<and> (\<forall>e \<in> set (ob_rows db). oe_seq e \<le> cursor_pos db (jsonl_consumer file_key path) \<longrightarrow>
        (\<exists>l. export_line e = Inr l \<and> utf8_encode l \<in> set (butlast (split_lines (bytes_of (files (file_key path)))))))
    \<and> (calm_export xe \<longrightarrow>
        (\<exists>r db' files'. export_jsonl file_key xe path (Aware t) db files = (Inr r, db', files')
          \<and> er_position r = last_seq db \<and> cursor_pos db' (jsonl_consumer file_key path) = last_seq db
          \<and> distinct (file_ids (files' (file_key path)))
          \<and> set (file_ids (files' (file_key path))) = oe_delivery_id ` set (ob_rows db)))"
proof -
  let ?c = "jsonl_consumer file_key path"
  have m: "machine_inv (db, files)" using reachable_inv[OF assms] .
  then have inv: "db_inv {} db" by (simp add: machine_inv_def)
  note ok = db_inv_parts(2)[OF inv]
  have f: "file_ok (ob_rows d) (cursor_pos d ?c) (nat (cursor_off d ?c)) (bytes_of (fs (file_key path)))" if "machine_inv (d, fs)" for d fs
    using that by (auto simp: machine_inv_def cursor_file_ok_def jsonl_consumer_def)
  note ids = file_ids_ok[OF ok f[OF m]]
  have lines: "\<exists>l. export_line e = Inr l \<and> line_of e = utf8_encode l" if "e \<in> set (ob_rows db)" for e
  proof -
    have "payload_ok e" using that ok by (simp add: rows_ok_def)
    then show ?thesis by (rule export_line_ok) (simp add: line_of_def)
  qed
  have "\<exists>r db' files'. export_jsonl file_key xe path (Aware t) db files = (Inr r, db', files')
          \<and> er_position r = last_seq db \<and> cursor_pos db' ?c = last_seq db
          \<and> distinct (file_ids (files' (file_key path)))
          \<and> set (file_ids (files' (file_key path))) = oe_delivery_id ` set (ob_rows db)" if calm: "calm_export xe"
  proof -
    obtain r db' files' where run: "export_jsonl file_key xe path (Aware t) db files = (Inr r, db', files')"
      using export_calm[OF calm inv] by blast
    have after: "machine_inv (db', files')" "er_position r = last_seq db" "cursor_pos db' ?c = last_seq db" "ob_rows db' = ob_rows db"
      using export_step_inv[OF run m] by auto
    have "\<forall>e \<in> set (ob_rows db). oe_seq e \<le> last_seq db"
      using seqs_ok_range[OF db_inv_parts(1)[OF inv]] last_seq_eq[OF db_inv_parts(1)[OF inv]] by simp
    then have "oe_delivery_id ` set (ob_rows db) \<subseteq> set (file_ids (files' (file_key path)))"
      using file_ids_ok(3)[OF ok f[OF after(1), unfolded after(3,4)]] by auto
    then show ?thesis using run after file_ids_ok(1,2)[OF ok f[OF after(1), unfolded after(3,4)]] by auto
  qed
  then show ?thesis using ids lines by metis
qed

section \<open>A run\<close>

text \<open>An event is inserted, a work item is queued and runs, an export is torn after five bytes.\<close>

definition calm_tx :: tx_env where
  "calm_tx = \<lparr>in_transaction = False, migrated = True, faults = (\<lambda>_. NoFault)\<rparr>"

definition calm_event :: event_env where
  "calm_event = \<lparr>ee_statement_ok = True, ee_outbox = calm_tx, ee_commit_ok = True\<rparr>"

definition calm_xe :: export_env where
  "calm_xe = \<lparr>xe_tx = calm_tx, xe_io = (\<lambda>_. IoOk), xe_commit = (\<lambda>_. NoFault)\<rparr>"

definition torn_xe :: export_env where
  "torn_xe = \<lparr>xe_tx = calm_tx, xe_io = (\<lambda>_. IoTorn 5), xe_commit = (\<lambda>_. NoFault)\<rparr>"

definition run_event :: new_event where
  "run_event = \<lparr>ne_event_id = ''ev1'', ne_dedup_key = ''BTC:setup'', ne_ts = ''2026-01-01T00:00:00+00:00'', ne_type = ''SETUP'', ne_asset = ''BTC'',
     ne_setup_type = None, ne_direction = Some ''LONG'', ne_market = None, ne_anomaly_score = Some ''71.5'', ne_opportunity_score = None,
     ne_tradeability_score = None, ne_confidence = None, ne_model_demand = None, ne_reason = None, ne_status = ''PENDING'',
     ne_context_json = None, ne_attempts = 0, ne_last_error = None, ne_next_attempt_at = None, ne_processing_started_at = None,
     ne_updated_ts = None, ne_notified = False\<rparr>"

definition run_row1 :: outbox_entry where
  "run_row1 = \<lparr>oe_seq = 1, oe_delivery_id = ''event:ev1:1'', oe_kind = EVENT, oe_subject_id = ''ev1'', oe_state = Some ''PENDING'',
     oe_sender = None, oe_receiver = None, oe_payload_json = dumps (event_columns_of run_event), oe_recorded_at = iso_utc 0\<rparr>"

definition run_row2 :: outbox_entry where
  "run_row2 = \<lparr>oe_seq = 2, oe_delivery_id = ''lifecycle:job:QUEUED'', oe_kind = LIFECYCLE, oe_subject_id = ''job'', oe_state = Some ''QUEUED'',
     oe_sender = None, oe_receiver = None, oe_payload_json = dumps (lifecycle_payload ''job'' QUEUED None (iso_utc 0) None None),
     oe_recorded_at = iso_utc 0\<rparr>"

definition run_row3 :: outbox_entry where
  "run_row3 = \<lparr>oe_seq = 3, oe_delivery_id = ''lifecycle:job:RUNNING'', oe_kind = LIFECYCLE, oe_subject_id = ''job'', oe_state = Some ''RUNNING'',
     oe_sender = None, oe_receiver = None, oe_payload_json = dumps (lifecycle_payload ''job'' RUNNING (Some QUEUED) (iso_utc 0) None None),
     oe_recorded_at = iso_utc 0\<rparr>"

definition run_db1 :: outbox_db where
  "run_db1 = \<lparr>ob_rows = [run_row1], ob_items = [], ob_cursors = [], ob_events = [event_columns_of run_event]\<rparr>"

definition job_item :: "lifecycle_state \<Rightarrow> lifecycle_item" where
  "job_item s = \<lparr>li_item_id = ''job'', li_state = s, li_entered_at = iso_utc 0, li_updated_at = iso_utc 0\<rparr>"

definition run_db2 :: outbox_db where
  "run_db2 = run_db1\<lparr>ob_rows := [run_row1, run_row2], ob_items := [job_item QUEUED]\<rparr>"

definition run_db3 :: outbox_db where
  "run_db3 = run_db1\<lparr>ob_rows := [run_row1, run_row2, run_row3], ob_items := [job_item RUNNING]\<rparr>"

lemmas run_defs = run_row1_def run_row2_def run_row3_def run_db1_def run_db2_def run_db3_def job_item_def calm_tx_def calm_event_def

lemma show_int_1: "show_int 1 = ''1''"
  by code_simp

lemma run_scores: "scores_ok run_event"
proof -
  have "scan_number ''71.5'' = Some (JFloat ''71.5'', [])"
    by (simp add: scan_number_def Let_def scan_fraction_def scan_exponent_def is_digit_def)
  then show ?thesis by (simp add: scores_ok_def run_event_def)
qed

lemma run_status: "event_status (event_columns_of run_event) = Inr ''PENDING''"
  by (simp add: event_status_def event_columns_of_def EVENT_COLUMNS_def run_event_def)

lemma run_step1: "insert_event calm_event (Aware 0) run_event empty_outbox = (Inr (), run_db1)"
proof -
  have id: "ne_event_id run_event = ''ev1''" by (simp add: run_event_def)
  have "map_of (event_columns_of run_event) ''event_id'' = Some (JStr ''ev1'')"
    by (simp add: event_columns_of_def EVENT_COLUMNS_def run_event_def)
  then show ?thesis
    by (simp add: insert_event_def event_write_def record_event_outbox_def record_event_row_def snapshot_event_def event_by_id_def
        id run_status outbox_insert_def entry_check_def sql_nonempty_def last_seq_def event_count_def show_int_1 empty_outbox_def run_defs Let_def)
qed

lemma run_step2: "record_lifecycle_transition calm_tx ''job'' QUEUED (Aware 0) None None run_db1 = (Inr \<lparr>rr_entry = run_row2, rr_created = True\<rparr>, run_db2)"
proof -
  have "transition_work ''job'' QUEUED (iso_utc 0) None None run_db1 = Inr (\<lparr>rr_entry = run_row2, rr_created = True\<rparr>, run_db2)"
    by (simp add: transition_work_def by_delivery_def lifecycle_delivery_id_def item_lifecycle_def check_transition_def INITIAL_STATES_def
        move_item_def outbox_insert_def entry_check_def sql_nonempty_def last_seq_def run_defs Let_def)
  moreover have "identifier_text ''job''" by (simp add: is_lower_def)
  ultimately show ?thesis
    by (simp add: record_lifecycle_transition_def with_args_def identifier_arg_def optional_def write_op_calm body_result_def calm_tx_def)
qed

lemma run_step3: "record_lifecycle_transition calm_tx ''job'' RUNNING (Aware 0) None None run_db2 = (Inr \<lparr>rr_entry = run_row3, rr_created = True\<rparr>, run_db3)"
proof -
  have "transition_work ''job'' RUNNING (iso_utc 0) None None run_db2 = Inr (\<lparr>rr_entry = run_row3, rr_created = True\<rparr>, run_db3)"
    by (simp add: transition_work_def by_delivery_def lifecycle_delivery_id_def item_lifecycle_def check_transition_def ALLOWED_TRANSITIONS_def
        move_item_def outbox_insert_def entry_check_def sql_nonempty_def last_seq_def run_defs Let_def)
  moreover have "identifier_text ''job''" by (simp add: is_lower_def)
  ultimately show ?thesis
    by (simp add: record_lifecycle_transition_def with_args_def identifier_arg_def optional_def write_op_calm body_result_def calm_tx_def)
qed

lemma run_reaches: "outbox_reachable id (run_db3, \<lambda>_. None)"
proof -
  have "outbox_reachable id (run_db1, \<lambda>_. None)"
    by (rule outbox_reachable.Then[OF outbox_reachable.Start EventChange])
      (rule InsertEvent[OF run_scores run_step1])
  then have "outbox_reachable id (run_db2, \<lambda>_. None)"
    by (rule outbox_reachable.Then) (rule LifecycleMove[OF run_step2])
  then show ?thesis by (rule outbox_reachable.Then) (rule LifecycleMove[OF run_step3])
qed

text \<open>The state after the torn export.\<close>

definition run_torn :: outbox_machine where
  "run_torn = snd (export_jsonl id torn_xe ''out.jsonl'' (Aware 0) run_db3 (\<lambda>_. None))"

lemma run_torn_reaches: "outbox_reachable id run_torn"
  using run_reaches unfolding run_torn_def
  by (rule outbox_reachable.Then)
    (cases "export_jsonl id torn_xe ''out.jsonl'' (Aware 0) run_db3 (\<lambda>_. None)", simp add: outbox_step.Exported)

theorem outbox_ledger_witness:
  "map oe_seq (ob_rows run_db3) = [1, 2, 3] \<and> distinct (map oe_delivery_id (ob_rows run_db3))
   \<and> (\<exists>ss. states_of run_db3 ''job'' = map state_value ss \<and> lifecycle_path ss \<and> item_lifecycle run_db3 ''job'' = path_end ss)"
proof -
  have "length (ob_rows run_db3) = 3" by (simp add: run_db3_def)
  then have "map oe_seq (ob_rows run_db3) = map (\<lambda>i. int i + 1) [0..<3]" using outbox_ledger[OF run_reaches] by simp
  then show ?thesis using outbox_ledger[OF run_reaches] by (auto simp: upt_rec)
qed


theorem export_delivers_witness:
  "\<exists>r db' files'. export_jsonl id calm_xe ''out.jsonl'' (Aware 1) (fst run_torn) (snd run_torn) = (Inr r, db', files')
     \<and> distinct (file_ids (files' ''out.jsonl'')) \<and> set (file_ids (files' ''out.jsonl'')) = oe_delivery_id ` set (ob_rows (fst run_torn))"
proof -
  have "calm_export calm_xe" by (simp add: calm_export_def calm_xe_def calm_tx_def)
  moreover have "outbox_reachable id (fst run_torn, snd run_torn)" using run_torn_reaches by simp
  ultimately show ?thesis using export_delivers[of id "fst run_torn" "snd run_torn" "''out.jsonl''" calm_xe 1] by auto
qed

end
