(* ===== verification/Worker.thy ===== *)
theory Worker
  imports Invocation_Safety Scheduler_Safety
begin

text \<open>
  The local inference worker of \<^verbatim>\<open>radar_v08/workflow/worker.py\<close> over the invocation ledger of
  \<^verbatim>\<open>radar_v08/worker.py\<close>: admission, dispatch, the bounded attempts with one repair, the fenced commit,
  the failure breaker, the watchdog, recovery and the two loops.

  The worker thread shares its state with the collector (\<open>Submit\<close>), the watchdog, the operator and, in
  the ledger database, with other processes. A lock section, a ledger call and a reading of the clock
  or of a flag is one atomic step; before each of them the other threads may run any operations. What
  they do, and what the clocks, the sink, SQLite and the model answer, is a stream of ticks: each step
  takes the next tick. All interleavings are the runs over all streams.

  The prompt source and the result interpreter are parameters. A mapping (a payload, a schema) is a
  value of the type \<open>'m\<close>. Monotonic readings and durations in seconds are rationals.
\<close>

section \<open>Enumerations and errors\<close>

datatype inference_failure =
  IF_TIMEOUT | IF_UNAVAILABLE | IF_HTTP_STATUS | IF_REDIRECT_REFUSED | IF_MALFORMED | IF_TOO_LARGE | IF_CANCELLED |
  IF_INVALID_REQUEST | IF_ADAPTER_ERROR | IF_LATE | IF_OUTPUT_REJECTED

datatype submit_refusal =
  SR_PROFILE_DISABLED | SR_SINK_UNAVAILABLE | SR_RESTART_REQUIRED | SR_SCHEDULER_ERROR | SR_STOPPED

datatype work_outcome =
  WO_IDLE | WO_PUBLISHED | WO_ABORT_STALE | WO_FENCED | WO_FAILED | WO_CANCELLED | WO_CONTEXT_UNFIT |
  WO_CLAIM_DUPLICATE | WO_BUDGET_REFUSED | WO_CALL_REFUSED | WO_PROFILE_DISABLED | WO_RESTART_REQUIRED |
  WO_SINK_UNAVAILABLE | WO_SCHEDULER_ERROR | WO_LEDGER_ERROR | WO_STOPPED

datatype watchdog_action = WD_NONE | WD_CANCEL | WD_TERMINATE

datatype worker_exit = WX_STOPPED | WX_RESTART_REQUIRED

text \<open>
  What can leave a method as an exception: a scheduler or ledger error, a refused configuration, the
  comparison of an aware with a naive datetime, an exception of the prompt source or of the
  interpreter, or an interrupt during a model call.
\<close>

datatype worker_exn =
    SchedulerExn scheduler_failure
  | LedgerExn invocation_exn
  | WorkerConfigError
  | NaiveClock
  | PromptRaised
  | InterpreterRaised
  | Interrupted

section \<open>Configuration\<close>

definition WORKER_MAX_TEXT_LENGTH :: nat where "WORKER_MAX_TEXT_LENGTH = 200"

fun worker_require_text :: "pyval \<Rightarrow> worker_exn + string" where
  "worker_require_text (PStr s) =
     (if s = [] \<or> s \<noteq> strip s then Inl WorkerConfigError
      else if WORKER_MAX_TEXT_LENGTH < length s \<or> list_ex is_control s then Inl WorkerConfigError
      else Inr s)"
| "worker_require_text _ = Inl WorkerConfigError"

fun require_positive_int :: "pyval \<Rightarrow> worker_exn + int" where
  "require_positive_int (PInt i) = (if i < 1 then Inl WorkerConfigError else Inr i)"
| "require_positive_int _ = Inl WorkerConfigError"

fun require_seconds :: "pyval \<Rightarrow> worker_exn + rat" where
  "require_seconds (PInt i) = (if i \<le> 0 then Inl WorkerConfigError else Inr (of_int i))"
| "require_seconds (PFloat (FFin c e)) =
     (if dec_value c e \<le> 0 then Inl WorkerConfigError else Inr (dec_value c e))"
| "require_seconds _ = Inl WorkerConfigError"

record inference_profile =
  pf_profile_id :: string
  pf_model :: string
  pf_role :: role
  pf_hard_timeout_seconds :: int
  pf_context_tokens :: int
  pf_output_cap_tokens :: int
  pf_think :: bool

definition make_inference_profile ::
  "pyval \<Rightarrow> pyval \<Rightarrow> role \<Rightarrow> pyval \<Rightarrow> pyval \<Rightarrow> pyval \<Rightarrow> bool \<Rightarrow> worker_exn + inference_profile" where
  "make_inference_profile pid model ro timeout context cap think =
     bindE (worker_require_text pid) (\<lambda>p.
     bindE (worker_require_text model) (\<lambda>m.
     bindE (guardE (ro \<notin> PRODUCTION_DISABLED_ROLES) WorkerConfigError) (\<lambda>_.
     bindE (require_positive_int timeout) (\<lambda>t.
     bindE (require_positive_int context) (\<lambda>c.
     bindE (require_positive_int cap) (\<lambda>o'.
     bindE (guardE (o' < c) WorkerConfigError) (\<lambda>_.
     Inr \<lparr>pf_profile_id = p, pf_model = m, pf_role = ro, pf_hard_timeout_seconds = t, pf_context_tokens = c,
          pf_output_cap_tokens = o', pf_think = think\<rparr>)))))))"

record 'm inference_call =
  ic_model :: string
  ic_system :: string
  ic_user :: string
  ic_response_schema :: 'm
  ic_output_cap_tokens :: int
  ic_context_tokens :: int
  ic_think :: bool
  ic_timeout_seconds :: rat

definition make_inference_call ::
  "string \<Rightarrow> string \<Rightarrow> string \<Rightarrow> 'm \<Rightarrow> int \<Rightarrow> int \<Rightarrow> bool \<Rightarrow> rat \<Rightarrow> worker_exn + 'm inference_call" where
  "make_inference_call model sys user schema cap context think timeout =
     bindE (worker_require_text (PStr model)) (\<lambda>m.
     bindE (require_positive_int (PInt cap)) (\<lambda>o'.
     bindE (require_positive_int (PInt context)) (\<lambda>c.
     bindE (guardE (0 < timeout) WorkerConfigError) (\<lambda>_.
     Inr \<lparr>ic_model = m, ic_system = sys, ic_user = user, ic_response_schema = schema, ic_output_cap_tokens = o',
          ic_context_tokens = c, ic_think = think, ic_timeout_seconds = timeout\<rparr>))))"

record 'm prepared_prompt =
  pp_system :: string
  pp_user :: string
  pp_response_schema :: 'm
  pp_prompt_bound :: token_bound

datatype 'm inference_result = InferenceReply 'm | InferenceFailed inference_failure

text \<open>How an adapter call ends: a result, a value of another type, an exception, or an interrupt.\<close>

datatype 'm answer = Answer "'m inference_result" | NotAResult | AdapterRaised | AdapterInterrupted

text \<open>What the interpreter does with a payload.\<close>

datatype 'r interpreted = Accepted 'r | Rejected | InterpreterFails

record 'r publication =
  pb_item_id :: string
  pb_invocation_id :: string
  pb_profile_id :: string
  pb_model :: string
  pb_value :: 'r

type_synonym 'r batch = "sched_transition list \<times> 'r publication option"

record work_report =
  wr_outcome :: work_outcome
  wr_item_id :: "string option"
  wr_invocation_id :: "string option"
  wr_final_state :: "item_state option"
  wr_calls :: nat
  wr_failures :: "inference_failure list"
  wr_call_refusal :: "call_refusal option"
  wr_lease_status :: "transition_status option"
  wr_ledger_failure :: "invocation_failure option"

definition new_report :: "work_outcome \<Rightarrow> work_report" where
  "new_report outcome = \<lparr>wr_outcome = outcome, wr_item_id = None, wr_invocation_id = None, wr_final_state = None,
     wr_calls = 0, wr_failures = [], wr_call_refusal = None, wr_lease_status = None, wr_ledger_failure = None\<rparr>"

record recovery_report =
  rr_recovered :: nat
  rr_released :: nat
  rr_ledger_failure :: "invocation_failure option"

section \<open>Failure breaker\<close>

record failure_policy =
  fp_max_failures :: int
  fp_window_seconds :: rat

definition make_failure_policy :: "pyval \<Rightarrow> pyval \<Rightarrow> worker_exn + failure_policy" where
  "make_failure_policy n w =
     bindE (require_positive_int n) (\<lambda>m.
     bindE (require_seconds w) (\<lambda>s. Inr \<lparr>fp_max_failures = m, fp_window_seconds = s\<rparr>))"

definition default_failure_policy :: failure_policy where
  "default_failure_policy = \<lparr>fp_max_failures = 2, fp_window_seconds = 600\<rparr>"

record profile_breaker =
  br_policy :: failure_policy
  br_failures :: "rat list"
  br_disabled :: bool

definition new_breaker :: "failure_policy \<Rightarrow> profile_breaker" where
  "new_breaker p = \<lparr>br_policy = p, br_failures = [], br_disabled = False\<rparr>"

definition record_failure :: "rat \<Rightarrow> profile_breaker \<Rightarrow> profile_breaker" where
  "record_failure now b =
     (let window = fp_window_seconds (br_policy b);
          failures = filter (\<lambda>t. now - t \<le> window) (br_failures b) @ [now]
      in b\<lparr>br_failures := failures,
           br_disabled := br_disabled b \<or> fp_max_failures (br_policy b) \<le> int (length failures)\<rparr>)"

definition review :: "profile_breaker \<Rightarrow> profile_breaker" where
  "review b = b\<lparr>br_disabled := False, br_failures := []\<rparr>"

section \<open>State\<close>

record active_call =
  ac_started :: rat
  ac_limit_seconds :: rat
  ac_cancel :: bool
  ac_timed_out :: bool

text \<open>
  The fields of the worker, then what its ports have seen: the batches the sink persisted, the ledger
  database, the calls the adapter received, and the position in the stream of ticks.
\<close>

record ('m, 'r) world =
  w_scheduler :: scheduler
  w_breaker :: profile_breaker
  w_stop :: bool
  w_versions :: "string \<Rightarrow> opportunity_version option"
  w_pending :: "'r batch list"
  w_pending_fail :: "string option"
  w_active :: "active_call option"
  w_restart_required :: bool
  w_sunk :: "'r batch list"
  w_ledger :: inv_db
  w_calls :: "'m inference_call list"
  w_pos :: nat

definition new_world :: "policy \<Rightarrow> failure_policy \<Rightarrow> inv_db \<Rightarrow> ('m, 'r) world" where
  "new_world p fp db = \<lparr>w_scheduler = new_scheduler p, w_breaker = new_breaker fp, w_stop = False,
     w_versions = (\<lambda>_. None), w_pending = [], w_pending_fail = None, w_active = None, w_restart_required = False,
     w_sunk = [], w_ledger = db, w_calls = [], w_pos = 0\<rparr>"

section \<open>Sink\<close>

text \<open>In one flush the sink accepts the next \<open>k\<close> batches and is then unavailable.\<close>

fun flush_locked :: "nat \<Rightarrow> ('m, 'r) world \<Rightarrow> bool \<times> ('m, 'r) world" where
  "flush_locked k w =
     (case w_pending w of
        [] \<Rightarrow> (True, w)
      | b # rest \<Rightarrow>
          (case k of
             0 \<Rightarrow> (False, w)
           | Suc k' \<Rightarrow> flush_locked k' (w\<lparr>w_sunk := w_sunk w @ [b], w_pending := rest\<rparr>)))"

declare flush_locked.simps [simp del]

definition pop_closed :: "sched_transition \<Rightarrow> (string \<Rightarrow> opportunity_version option) \<Rightarrow> string \<Rightarrow> opportunity_version option" where
  "pop_closed t versions = (if st_state t \<notin> ACTIVE_ITEM_STATES then versions(st_item_id t := None) else versions)"

definition emit_locked ::
  "nat \<Rightarrow> sched_transition list \<Rightarrow> 'r publication option \<Rightarrow> ('m, 'r) world \<Rightarrow> bool \<times> ('m, 'r) world" where
  "emit_locked k transitions pub w =
     flush_locked k
       (if transitions \<noteq> [] \<or> pub \<noteq> None
        then w\<lparr>w_pending := w_pending w @ [(transitions, pub)], w_versions := fold pop_closed transitions (w_versions w)\<rparr>
        else w)"

section \<open>Operations of the other threads\<close>

definition submit ::
  "opportunity_version \<Rightarrow> moment \<Rightarrow> nat \<Rightarrow> nat \<Rightarrow> ('m, 'r) world \<Rightarrow> (submit_refusal + admission_result) \<times> ('m, 'r) world" where
  "submit v now k k' w =
     (if w_restart_required w then (Inl SR_RESTART_REQUIRED, w)
      else if w_stop w then (Inl SR_STOPPED, w)
      else if br_disabled (w_breaker w) then (Inl SR_PROFILE_DISABLED, w)
      else case flush_locked k w of (ok, w1) \<Rightarrow>
        if \<not> ok then (Inl SR_SINK_UNAVAILABLE, w1)
        else case admit now v (w_scheduler w1) of
          Inl _ \<Rightarrow> (Inl SR_SCHEDULER_ERROR, w1)
        | Inr (res, s) \<Rightarrow>
            let versions = (if ad_status res = ADMITTED then (w_versions w1)(ad_item_id res \<mapsto> v) else w_versions w1)
            in (Inr res,
                snd (emit_locked k' (ad_transitions res) None (w1\<lparr>w_scheduler := s, w_versions := versions\<rparr>))))"

definition request_stop :: "('m, 'r) world \<Rightarrow> ('m, 'r) world" where
  "request_stop w = w\<lparr>w_stop := True, w_active := map_option (\<lambda>a. a\<lparr>ac_cancel := True\<rparr>) (w_active w)\<rparr>"

definition review_profile :: "('m, 'r) world \<Rightarrow> ('m, 'r) world" where
  "review_profile w = w\<lparr>w_breaker := review (w_breaker w)\<rparr>"

definition watchdog_tick :: "rat \<Rightarrow> rat \<Rightarrow> ('m, 'r) world \<Rightarrow> watchdog_action \<times> ('m, 'r) world" where
  "watchdog_tick grace now w =
     (case w_active w of
        None \<Rightarrow> (WD_NONE, w)
      | Some a \<Rightarrow>
          let elapsed = now - ac_started a; a' = a\<lparr>ac_timed_out := True, ac_cancel := True\<rparr> in
          if ac_limit_seconds a + grace \<le> elapsed
          then (WD_TERMINATE, w\<lparr>w_active := Some a', w_restart_required := True\<rparr>)
          else if ac_limit_seconds a \<le> elapsed then (WD_CANCEL, w\<lparr>w_active := Some a'\<rparr>)
          else (WD_NONE, w))"

datatype other =
    Submit opportunity_version moment nat nat
  | RequestStop
  | ReviewProfile
  | WatchdogTick rat
  | LedgerOp inv_op

fun other_step :: "rat \<Rightarrow> other \<Rightarrow> ('m, 'r) world \<Rightarrow> ('m, 'r) world" where
  "other_step grace (Submit v now k k') w = snd (submit v now k k' w)"
| "other_step grace RequestStop w = request_stop w"
| "other_step grace ReviewProfile w = review_profile w"
| "other_step grace (WatchdogTick now) w = snd (watchdog_tick grace now w)"
| "other_step grace (LedgerOp op) w = w\<lparr>w_ledger := inv_step op (w_ledger w)\<rparr>"

section \<open>Steps of the worker thread\<close>

record 'm tick =
  tk_others :: "other list"
  tk_wall :: moment
  tk_monotonic :: rat
  tk_sink :: nat
  tk_sqlite :: tx_env
  tk_new_id :: string
  tk_answer :: "'m answer"
  tk_signal :: bool

record ('m, 'r) config =
  cf_profile :: inference_profile
  cf_grace :: rat
  cf_prompts :: "opportunity_version \<Rightarrow> bool \<Rightarrow> 'm prepared_prompt option"
  cf_interpret :: "'m \<Rightarrow> 'r interpreted"
  cf_budget :: model_budget
  cf_owner :: pyval
  cf_ticks :: "nat \<Rightarrow> 'm tick"

type_synonym ('m, 'r, 'a) act = "('m, 'r) world \<Rightarrow> (worker_exn + 'a) \<times> ('m, 'r) world"

definition retW :: "'a \<Rightarrow> ('m, 'r, 'a) act" where
  "retW x w = (Inr x, w)"

definition raiseW :: "worker_exn \<Rightarrow> ('m, 'r, 'a) act" where
  "raiseW e w = (Inl e, w)"

definition bindW :: "('m, 'r, 'a) act \<Rightarrow> ('a \<Rightarrow> ('m, 'r, 'b) act) \<Rightarrow> ('m, 'r, 'b) act" where
  "bindW m f w = (case m w of (Inl e, w') \<Rightarrow> (Inl e, w') | (Inr x, w') \<Rightarrow> f x w')"

definition liftW :: "worker_exn + 'a \<Rightarrow> ('m, 'r, 'a) act" where
  "liftW r w = (r, w)"

text \<open>\<^verbatim>\<open>try: a\<close> with \<^verbatim>\<open>except InvocationError\<close>, and what follows a normal return.\<close>

definition tryW ::
  "('m, 'r, 'a) act \<Rightarrow> (invocation_failure \<Rightarrow> ('m, 'r, 'b) act) \<Rightarrow> ('a \<Rightarrow> ('m, 'r, 'b) act) \<Rightarrow> ('m, 'r, 'b) act" where
  "tryW a handler f w =
     (case a w of
        (Inl (LedgerExn (InvocationError code)), w') \<Rightarrow> handler code w'
      | (Inl e, w') \<Rightarrow> (Inl e, w')
      | (Inr x, w') \<Rightarrow> f x w')"

text \<open>A further reading inside a lock section, and a step before which the other threads run.\<close>

definition reading :: "('m, 'r) config \<Rightarrow> ('m, 'r, 'm tick) act" where
  "reading cf w = (Inr (cf_ticks cf (w_pos w)), w\<lparr>w_pos := Suc (w_pos w)\<rparr>)"

definition step :: "('m, 'r) config \<Rightarrow> ('m, 'r, 'm tick) act" where
  "step cf w =
     (let tk = cf_ticks cf (w_pos w)
      in (Inr tk, fold (other_step (cf_grace cf)) (tk_others tk) (w\<lparr>w_pos := Suc (w_pos w)\<rparr>)))"

fun aware :: "moment \<Rightarrow> worker_exn + int" where
  "aware (Aware t) = Inr t"
| "aware Naive = Inl NaiveClock"

section \<open>The ledger port over the invocation store\<close>

definition RECOVERY_LEASE_SECONDS :: int where "RECOVERY_LEASE_SECONDS = 60"

text \<open>The default bound on one recovery.\<close>

definition DEFAULT_RECOVERY_LIMIT :: int where "DEFAULT_RECOVERY_LIMIT = 16"

definition on_ledger :: "(inv_db \<Rightarrow> (invocation_exn + 'a) \<times> inv_db) \<Rightarrow> ('m, 'r, 'a) act" where
  "on_ledger f w = (case f (w_ledger w) of (res, db) \<Rightarrow> (map_sum LedgerExn (\<lambda>x. x) res, w\<lparr>w_ledger := db\<rparr>))"

definition ledger_claim ::
  "('m, 'r) config \<Rightarrow> 'm tick \<Rightarrow> invocation_identity \<Rightarrow> int \<Rightarrow> ('m, 'r, claim_result) act" where
  "ledger_claim cf tk ident_arg lease_seconds_arg =
     on_ledger (\<lambda>db.
       case make_request ident_arg (PStr (pf_model (cf_profile cf))) of
         Inl e \<Rightarrow> (Inl e, db)
       | Inr rq \<Rightarrow> claim_invocation (tk_sqlite tk) rq (cf_budget cf) (cf_owner cf) (tk_wall tk)
                     (PInt lease_seconds_arg) (tk_new_id tk) db)"

definition status_only :: "(invocation_exn + transition) \<times> inv_db \<Rightarrow> (invocation_exn + transition_status) \<times> inv_db" where
  "status_only r = (map_sum (\<lambda>e. e) tr_status (fst r), snd r)"

definition ledger_record_attempt :: "('m, 'r) config \<Rightarrow> 'm tick \<Rightarrow> lease \<Rightarrow> ('m, 'r, transition_status) act" where
  "ledger_record_attempt cf tk l =
     on_ledger (\<lambda>db. status_only (record_attempt (tk_sqlite tk) l (cf_budget cf) (tk_wall tk) db))"

definition ledger_complete :: "'m tick \<Rightarrow> lease \<Rightarrow> ('m, 'r, transition_status) act" where
  "ledger_complete tk l = on_ledger (\<lambda>db. status_only (complete_invocation (tk_sqlite tk) l (tk_wall tk) db))"

definition ledger_release :: "'m tick \<Rightarrow> lease \<Rightarrow> release_reason \<Rightarrow> ('m, 'r, transition_status) act" where
  "ledger_release tk l reason =
     on_ledger (\<lambda>db. status_only (release_invocation (tk_sqlite tk) l reason (tk_wall tk) db))"

definition ledger_recover_expired :: "('m, 'r) config \<Rightarrow> 'm tick \<Rightarrow> ('m, 'r, lease list) act" where
  "ledger_recover_expired cf tk =
     on_ledger (recover_expired (tk_sqlite tk) (cf_owner cf) (tk_wall tk) (PInt RECOVERY_LEASE_SECONDS)
       (PInt DEFAULT_RECOVERY_LIMIT))"

section \<open>Closing an item\<close>

definition fail_item_locked :: "'m tick \<Rightarrow> string \<Rightarrow> ('m, 'r) world \<Rightarrow> item_state option \<times> ('m, 'r) world" where
  "fail_item_locked tk i w =
     (case fail (tk_wall tk) (PStr i) (w_scheduler w) of
        Inl _ \<Rightarrow> (None, w\<lparr>w_pending_fail := Some i\<rparr>)
      | Inr (res, s) \<Rightarrow>
          (Some (co_state res), snd (emit_locked (tk_sink tk) (co_transitions res) None (w\<lparr>w_scheduler := s\<rparr>))))"

text \<open>The lock section that closes the item and the report that carries its final state.\<close>

definition fail_item :: "('m, 'r) config \<Rightarrow> string \<Rightarrow> ('m, 'r, item_state option) act" where
  "fail_item cf i = bindW (step cf) (\<lambda>tk w. case fail_item_locked tk i w of (st, w') \<Rightarrow> (Inr st, w'))"

text \<open>Best effort: an error of the ledger is dropped, any other exception passes.\<close>

definition release_quietly :: "('m, 'r) config \<Rightarrow> lease \<Rightarrow> release_reason \<Rightarrow> ('m, 'r, unit) act" where
  "release_quietly cf l reason =
     bindW (step cf) (\<lambda>tk. tryW (ledger_release tk l reason) (\<lambda>_. retW ()) (\<lambda>_. retW ()))"

definition abandon :: "('m, 'r) config \<Rightarrow> string \<Rightarrow> lease \<Rightarrow> release_reason \<Rightarrow> ('m, 'r, item_state option) act" where
  "abandon cf i l reason = bindW (release_quietly cf l reason) (\<lambda>_. fail_item cf i)"

section \<open>Attempts\<close>

record 'r attempted =
  at_outcome :: work_outcome
  at_calls :: nat
  at_failures :: "inference_failure list"
  at_value :: "'r option"
  at_refusal :: "call_refusal option"
  at_lease_status :: "transition_status option"
  at_release_reason :: release_reason

definition new_attempted :: "work_outcome \<Rightarrow> nat \<Rightarrow> inference_failure list \<Rightarrow> 'r attempted" where
  "new_attempted outcome calls failures = \<lparr>at_outcome = outcome, at_calls = calls, at_failures = failures, at_value = None,
     at_refusal = None, at_lease_status = None, at_release_reason = FAILED\<rparr>"

definition DEADLINE_REFUSALS :: "call_refusal set" where
  "DEADLINE_REFUSALS = {CR_DEADLINE_PASSED, CR_DEADLINE_UNFIT}"

definition total_seconds :: "int \<Rightarrow> rat" where
  "total_seconds d = of_int d / 1000000"

text \<open>The lock sections before and after an adapter call. The first reads the stop flag into the cancel signal.\<close>

definition start_call :: "rat \<Rightarrow> 'm inference_call \<Rightarrow> ('m, 'r, unit) act" where
  "start_call started c w =
     (Inr (), w\<lparr>w_active := Some \<lparr>ac_started = started, ac_limit_seconds = ic_timeout_seconds c,
                   ac_cancel = w_stop w, ac_timed_out = False\<rparr>,
                w_calls := w_calls w @ [c]\<rparr>)"

definition end_call :: "('m, 'r, bool \<times> bool) act" where
  "end_call w =
     (Inr (case w_active w of Some a \<Rightarrow> ac_timed_out a | None \<Rightarrow> False, w_restart_required w), w\<lparr>w_active := None\<rparr>)"

fun adapter_result :: "'m answer \<Rightarrow> worker_exn + 'm inference_result" where
  "adapter_result (Answer r) = Inr r"
| "adapter_result NotAResult = Inr (InferenceFailed IF_ADAPTER_ERROR)"
| "adapter_result AdapterRaised = Inr (InferenceFailed IF_ADAPTER_ERROR)"
| "adapter_result AdapterInterrupted = Inl Interrupted"

text \<open>One adapter call under the watchdog: the result, whether it timed out, whether a restart is required.\<close>

definition call :: "('m, 'r) config \<Rightarrow> 'm inference_call \<Rightarrow> ('m, 'r, 'm inference_result \<times> bool \<times> bool) act" where
  "call cf c =
     bindW (step cf) (\<lambda>tk0.
     bindW (step cf) (\<lambda>_.
     bindW (start_call (tk_monotonic tk0) c) (\<lambda>_.
     bindW (step cf) (\<lambda>tk1.
     bindW (step cf) (\<lambda>_.
     bindW end_call (\<lambda>(timed_out, restart).
     bindW (liftW (adapter_result (tk_answer tk1))) (\<lambda>result.
     bindW (step cf) (\<lambda>tk2.
     retW (result, timed_out \<or> ic_timeout_seconds c < tk_monotonic tk2 - tk_monotonic tk0, restart)))))))))"

text \<open>
  One pass of the loop: it ends the item, or a call has failed and the breaker has counted it.
\<close>

datatype 'r pass = Ended "'r attempted" | CallFailed nat "inference_failure list" inference_failure bool

definition count_failure :: "('m, 'r) config \<Rightarrow> ('m, 'r, bool) act" where
  "count_failure cf = bindW (step cf) (\<lambda>tk w.
     let b = record_failure (tk_monotonic tk) (w_breaker w) in (Inr (br_disabled b), w\<lparr>w_breaker := b\<rparr>))"

text \<open>What the reply of a call is worth: the failure, or the accepted value.\<close>

definition judge_result ::
  "('m, 'r) config \<Rightarrow> int \<Rightarrow> 'm inference_result \<Rightarrow> bool \<Rightarrow> ('m, 'r, inference_failure + 'r) act" where
  "judge_result cf call_deadline result timed_out =
     (if timed_out then retW (Inl IF_TIMEOUT)
      else case result of
        InferenceFailed f \<Rightarrow> retW (Inl f)
      | InferenceReply payload \<Rightarrow>
          bindW (step cf) (\<lambda>tk.
          bindW (liftW (aware (tk_wall tk))) (\<lambda>now.
          if call_deadline < now then retW (Inl IF_LATE)
          else case cf_interpret cf payload of
            Accepted x \<Rightarrow> retW (Inr x)
          | Rejected \<Rightarrow> retW (Inl IF_OUTPUT_REJECTED)
          | InterpreterFails \<Rightarrow> raiseW InterpreterRaised)))"

text \<open>After the call: a required restart, a cancellation, an accepted value or a counted failure.\<close>

definition settle_call ::
  "('m, 'r) config \<Rightarrow> int \<Rightarrow> nat \<Rightarrow> inference_failure list \<Rightarrow> 'm inference_result \<Rightarrow> bool \<Rightarrow> bool \<Rightarrow> ('m, 'r, 'r pass) act" where
  "settle_call cf call_deadline calls failures result timed_out restart =
     (if restart
      then bindW (count_failure cf) (\<lambda>_. retW (Ended (new_attempted WO_RESTART_REQUIRED calls (failures @ [IF_TIMEOUT]))))
      else if result = InferenceFailed IF_CANCELLED \<and> \<not> timed_out
      then retW (Ended ((new_attempted WO_CANCELLED calls failures)\<lparr>at_release_reason := CANCELLED\<rparr>))
      else bindW (judge_result cf call_deadline result timed_out) (\<lambda>verdict.
        case verdict of
          Inr x \<Rightarrow> retW (Ended ((new_attempted WO_PUBLISHED calls failures)\<lparr>at_value := Some x\<rparr>))
        | Inl f \<Rightarrow> bindW (count_failure cf) (\<lambda>disabled. retW (CallFailed calls (failures @ [f]) f disabled))))"

text \<open>From the authorization on: the ledger attempt, the limit of the call, the call.\<close>

definition attempt_call ::
  "('m, 'r) config \<Rightarrow> lease \<Rightarrow> nat \<Rightarrow> inference_failure list \<Rightarrow> 'm prepared_prompt \<Rightarrow> int \<Rightarrow> ('m, 'r, 'r pass) act" where
  "attempt_call cf l calls failures prompt call_deadline =
     (let profile = cf_profile cf in
      bindW (step cf) (\<lambda>tk.
      bindW (ledger_record_attempt cf tk l) (\<lambda>status.
      if status \<noteq> APPLIED
      then retW (Ended ((new_attempted (if status = BUDGET_EXHAUSTED then WO_BUDGET_REFUSED else WO_FENCED) calls failures)
             \<lparr>at_lease_status := Some status\<rparr>))
      else
        bindW (step cf) (\<lambda>tk2.
        bindW (liftW (aware (tk_wall tk2))) (\<lambda>now.
        let limit = min (of_int (pf_hard_timeout_seconds profile)) (total_seconds (call_deadline - now)) in
        if limit \<le> 0
        then retW (Ended ((new_attempted WO_CALL_REFUSED calls failures)
               \<lparr>at_refusal := Some CR_DEADLINE_UNFIT, at_release_reason := DEADLINE_EXPIRED\<rparr>))
        else
          bindW (liftW (make_inference_call (pf_model profile) (pp_system prompt) (pp_user prompt)
                   (pp_response_schema prompt) (pf_output_cap_tokens profile) (pf_context_tokens profile)
                   (pf_think profile) limit)) (\<lambda>c.
          bindW (call cf c) (\<lambda>(result, timed_out, restart).
          settle_call cf call_deadline (Suc calls) failures result timed_out restart)))))))"

text \<open>The authorization: a refusal ends the item, and a deadline refusal releases the lease as expired.\<close>

definition refused_call :: "bool \<Rightarrow> nat \<Rightarrow> inference_failure list \<Rightarrow> call_refusal option \<Rightarrow> 'r attempted" where
  "refused_call repair calls failures refusal =
     (new_attempted (if repair then WO_FAILED else WO_CALL_REFUSED) calls failures)
       \<lparr>at_refusal := refusal,
        at_release_reason := (if refusal \<in> Some ` DEADLINE_REFUSALS then DEADLINE_EXPIRED else FAILED)\<rparr>"

definition authorize_attempt ::
  "('m, 'r) config \<Rightarrow> string \<Rightarrow> lease \<Rightarrow> bool \<Rightarrow> nat \<Rightarrow> inference_failure list \<Rightarrow> 'm prepared_prompt
    \<Rightarrow> 'm tick \<Rightarrow> ('m, 'r, 'r pass) act" where
  "authorize_attempt cf i l repair calls failures prompt tk w =
     (case authorize_call (tk_wall tk) (PStr i) (pf_role (cf_profile cf)) repair (pp_prompt_bound prompt) (w_scheduler w) of
        Inl e \<Rightarrow> (Inl (SchedulerExn e), w)
      | Inr (decision, s) \<Rightarrow>
          let w1 = snd (emit_locked (tk_sink tk) (cd_transitions decision) None (w\<lparr>w_scheduler := s\<rparr>)) in
          case (cd_refusal decision, cd_call_deadline decision) of
            (None, Some call_deadline) \<Rightarrow> attempt_call cf l calls failures prompt call_deadline w1
          | (refusal, _) \<Rightarrow> (Inr (Ended (refused_call repair calls failures refusal)), w1))"

definition attempt_once ::
  "('m, 'r) config \<Rightarrow> string \<Rightarrow> opportunity_version \<Rightarrow> lease \<Rightarrow> bool \<Rightarrow> nat \<Rightarrow> inference_failure list
    \<Rightarrow> ('m, 'r, 'r pass) act" where
  "attempt_once cf i v l repair calls failures =
     bindW (step cf) (\<lambda>_.
     bindW (\<lambda>w. (Inr (w_stop w), w)) (\<lambda>stop.
     if stop then retW (Ended ((new_attempted WO_CANCELLED calls failures)\<lparr>at_release_reason := CANCELLED\<rparr>))
     else case cf_prompts cf v repair of
       None \<Rightarrow> raiseW PromptRaised
     | Some prompt \<Rightarrow>
         if pf_context_tokens (cf_profile cf) < upper_bound (pp_prompt_bound prompt) + pf_output_cap_tokens (cf_profile cf)
         then retW (Ended (new_attempted WO_CONTEXT_UNFIT calls failures))
         else bindW (step cf) (authorize_attempt cf i l repair calls failures prompt)))"

text \<open>The loop. Only a failed first call is repaired, so the second pass is the last one.\<close>

function attempts_loop ::
  "('m, 'r) config \<Rightarrow> string \<Rightarrow> opportunity_version \<Rightarrow> lease \<Rightarrow> bool \<Rightarrow> nat \<Rightarrow> inference_failure list
    \<Rightarrow> ('m, 'r, 'r attempted) act" where
  "attempts_loop cf i v l repair calls failures =
     bindW (attempt_once cf i v l repair calls failures) (\<lambda>p.
       case p of
         Ended a \<Rightarrow> retW a
       | CallFailed calls' failures' f disabled \<Rightarrow>
           if (f = IF_MALFORMED \<or> f = IF_OUTPUT_REJECTED) \<and> \<not> repair \<and> \<not> disabled
           then attempts_loop cf i v l True calls' failures'
           else retW (new_attempted WO_FAILED calls' failures'))"
  by pat_completeness auto
termination
  by (relation "measure (\<lambda>(cf, i, v, l, repair, calls, failures). if repair then 0 else 1)") auto

declare attempts_loop.simps [simp del]

definition attempts :: "('m, 'r) config \<Rightarrow> string \<Rightarrow> opportunity_version \<Rightarrow> lease \<Rightarrow> ('m, 'r, 'r attempted) act" where
  "attempts cf i v l = attempts_loop cf i v l False 0 []"

section \<open>Running one item\<close>

definition lease_seconds :: "int \<Rightarrow> int \<Rightarrow> int \<Rightarrow> int" where
  "lease_seconds reserve_arg dl now =
     (let remaining = total_seconds (dl - now); n = \<lceil>max remaining 0\<rceil> + reserve_arg
      in min (max n MIN_LEASE_SECONDS) MAX_LEASE_SECONDS)"

definition item_report :: "work_outcome \<Rightarrow> string \<Rightarrow> lease option \<Rightarrow> item_state option \<Rightarrow> work_report" where
  "item_report outcome i l st =
     (new_report outcome)\<lparr>wr_item_id := Some i, wr_invocation_id := map_option ls_invocation_id l, wr_final_state := st\<rparr>"

definition tell :: "'r attempted \<Rightarrow> work_report \<Rightarrow> work_report" where
  "tell a r = r\<lparr>wr_calls := at_calls a, wr_failures := at_failures a\<rparr>"

text \<open>A late result: the lease is released and the scheduler records the stale abort.\<close>

definition commit_late :: "('m, 'r) config \<Rightarrow> dispatched \<Rightarrow> lease \<Rightarrow> 'r attempted \<Rightarrow> ('m, 'r, work_report) act" where
  "commit_late cf d l a =
     (let i = ds_item_id d in
      bindW (release_quietly cf l DEADLINE_EXPIRED) (\<lambda>_.
      bindW (step cf) (\<lambda>tk w.
        case complete (tk_wall tk) (PStr i) (w_scheduler w) of
          Inl _ \<Rightarrow> (Inr (tell a (item_report WO_ABORT_STALE i (Some l) None)), w\<lparr>w_pending_fail := Some i\<rparr>)
        | Inr (late, s) \<Rightarrow>
            (Inr (tell a (item_report WO_ABORT_STALE i (Some l) (Some (co_state late)))),
             snd (emit_locked (tk_sink tk) (co_transitions late) None (w\<lparr>w_scheduler := s\<rparr>))))))"

text \<open>The completion of the item after the ledger has applied it, and the publication that goes with it.\<close>

definition commit_completed ::
  "('m, 'r) config \<Rightarrow> dispatched \<Rightarrow> lease \<Rightarrow> 'r \<Rightarrow> 'r attempted \<Rightarrow> transition_status \<Rightarrow> ('m, 'r, work_report) act" where
  "commit_completed cf d l x a status =
     (let i = ds_item_id d in
      bindW (step cf) (\<lambda>tk w.
        case complete (tk_wall tk) (PStr i) (w_scheduler w) of
          Inl _ \<Rightarrow> (Inr (tell a (item_report WO_SCHEDULER_ERROR i (Some l) None)), w\<lparr>w_pending_fail := Some i\<rparr>)
        | Inr (completion, s) \<Rightarrow>
            let pub = (if co_publishable completion
                       then Some \<lparr>pb_item_id = i, pb_invocation_id = ls_invocation_id l,
                                  pb_profile_id = pf_profile_id (cf_profile cf), pb_model = pf_model (cf_profile cf),
                                  pb_value = x\<rparr>
                       else None)
            in (Inr ((tell a (item_report (if co_publishable completion then WO_PUBLISHED else WO_ABORT_STALE) i (Some l)
                       (Some (co_state completion))))\<lparr>wr_lease_status := Some status\<rparr>),
                snd (emit_locked (tk_sink tk) (co_transitions completion) pub (w\<lparr>w_scheduler := s\<rparr>)))))"

definition commit :: "('m, 'r) config \<Rightarrow> dispatched \<Rightarrow> lease \<Rightarrow> 'r \<Rightarrow> 'r attempted \<Rightarrow> ('m, 'r, work_report) act" where
  "commit cf d l x a =
     (let i = ds_item_id d in
      bindW (step cf) (\<lambda>tk.
      bindW (liftW (aware (tk_wall tk))) (\<lambda>now.
      if ds_deadline d \<le> now then commit_late cf d l a
      else bindW (step cf) (\<lambda>tk2.
        tryW (ledger_complete tk2 l)
          (\<lambda>code. bindW (abandon cf i l FAILED) (\<lambda>st.
             retW ((tell a (item_report WO_LEDGER_ERROR i (Some l) st))\<lparr>wr_ledger_failure := Some code\<rparr>)))
          (\<lambda>status.
             if status \<noteq> APPLIED
             then bindW (fail_item cf i) (\<lambda>st.
               retW ((tell a (item_report WO_FENCED i (Some l) st))\<lparr>wr_lease_status := Some status\<rparr>))
             else commit_completed cf d l x a status)))))"

text \<open>An item that ended without a value: a plain failure after the deadline is released as expired.\<close>

definition give_up :: "('m, 'r) config \<Rightarrow> dispatched \<Rightarrow> lease \<Rightarrow> 'r attempted \<Rightarrow> ('m, 'r, work_report) act" where
  "give_up cf d l a =
     (let i = ds_item_id d in
      bindW (if at_release_reason a = FAILED
             then bindW (step cf) (\<lambda>tk.
                  bindW (liftW (aware (tk_wall tk))) (\<lambda>now.
                  retW (if ds_deadline d \<le> now then DEADLINE_EXPIRED else FAILED)))
             else retW (at_release_reason a)) (\<lambda>reason.
      bindW (abandon cf i l reason) (\<lambda>st.
      retW ((tell a (item_report (at_outcome a) i (Some l) st))
             \<lparr>wr_call_refusal := at_refusal a, wr_lease_status := at_lease_status a\<rparr>))))"

definition hold_item :: "('m, 'r) config \<Rightarrow> dispatched \<Rightarrow> opportunity_version \<Rightarrow> lease \<Rightarrow> ('m, 'r, work_report) act" where
  "hold_item cf d v l w =
     (let i = ds_item_id d in
      case attempts cf i v l w of
        (Inl (SchedulerExn _), w1) \<Rightarrow>
          bindW (abandon cf i l FAILED) (\<lambda>st. retW (item_report WO_SCHEDULER_ERROR i (Some l) st)) w1
      | (Inl (LedgerExn (InvocationError code)), w1) \<Rightarrow>
          bindW (abandon cf i l FAILED) (\<lambda>st.
            retW ((item_report WO_LEDGER_ERROR i (Some l) st)\<lparr>wr_ledger_failure := Some code\<rparr>)) w1
      | (Inl e, w1) \<Rightarrow> bindW (abandon cf i l FAILED) (\<lambda>_. raiseW e) w1
      | (Inr a, w1) \<Rightarrow> (case at_value a of None \<Rightarrow> give_up cf d l a w1 | Some x \<Rightarrow> commit cf d l x a w1))"

definition run_item :: "('m, 'r) config \<Rightarrow> dispatched \<Rightarrow> opportunity_version \<Rightarrow> ('m, 'r, work_report) act" where
  "run_item cf d v =
     (let i = ds_item_id d in
      bindW (step cf) (\<lambda>tk.
      bindW (liftW (aware (tk_wall tk))) (\<lambda>now.
      bindW (step cf) (\<lambda>tk2.
      bindW (\<lambda>w. (Inr (finalization_reserve_seconds (sc_policy (w_scheduler w))), w)) (\<lambda>reserve_seconds.
      tryW (ledger_claim cf tk2 (ov_identity v) (lease_seconds reserve_seconds (ds_deadline d) now))
        (\<lambda>code. bindW (fail_item cf i) (\<lambda>st.
           retW ((item_report WO_LEDGER_ERROR i None st)\<lparr>wr_ledger_failure := Some code\<rparr>)))
        (\<lambda>claim. case claim of
           Claimed l _ \<Rightarrow> hold_item cf d v l
         | Duplicate _ _ \<Rightarrow> bindW (fail_item cf i) (\<lambda>st. retW (item_report WO_CLAIM_DUPLICATE i None st))
         | Refused _ _ \<Rightarrow> bindW (fail_item cf i) (\<lambda>st. retW (item_report WO_BUDGET_REFUSED i None st))))))))"

definition stop_outcome :: "('m, 'r) config \<Rightarrow> dispatched \<Rightarrow> ('m, 'r) world \<Rightarrow> work_outcome option" where
  "stop_outcome cf d w =
     (if br_disabled (w_breaker w) then Some WO_PROFILE_DISABLED
      else if w_stop w then Some WO_STOPPED
      else if w_versions w (ds_item_id d) = None \<or> ds_path d \<noteq> [pf_role (cf_profile cf)] then Some WO_FAILED
      else None)"

definition dispatch_next :: "('m, 'r) config \<Rightarrow> ('m, 'r, work_report) act" where
  "dispatch_next cf =
     bindW (reading cf) (\<lambda>tk w.
       case dispatch (tk_wall tk) (w_scheduler w) of
         Inl _ \<Rightarrow> (Inr (new_report WO_SCHEDULER_ERROR), w)
       | Inr (res, s) \<Rightarrow>
           let w1 = snd (emit_locked (tk_sink tk) (dr_transitions res) None (w\<lparr>w_scheduler := s\<rparr>)) in
           case dr_dispatched res of
             None \<Rightarrow> (Inr (new_report WO_IDLE), w1)
           | Some d \<Rightarrow>
               (case (stop_outcome cf d w1, w_versions w1 (ds_item_id d)) of
                  (None, Some v) \<Rightarrow> run_item cf d v w1
                | (stop, _) \<Rightarrow>
                    bindW (reading cf) (\<lambda>tk' w2.
                      case fail_item_locked tk' (ds_item_id d) w2 of (st, w3) \<Rightarrow>
                      (Inr (item_report (case stop of None \<Rightarrow> WO_FAILED | Some x \<Rightarrow> x) (ds_item_id d) None st), w3)) w1))"

text \<open>Whether the item that could not be closed before is closed now.\<close>

definition retry_pending_fail :: "('m, 'r) config \<Rightarrow> ('m, 'r, bool) act" where
  "retry_pending_fail cf w =
     (case w_pending_fail w of
        None \<Rightarrow> (Inr True, w)
      | Some i \<Rightarrow>
          bindW (reading cf) (\<lambda>tk w1.
            case fail_item_locked tk i w1 of
              (None, w2) \<Rightarrow> (Inr False, w2)
            | (Some _, w2) \<Rightarrow> (Inr True, w2\<lparr>w_pending_fail := None\<rparr>)) w)"

definition process_next :: "('m, 'r) config \<Rightarrow> ('m, 'r, work_report) act" where
  "process_next cf =
     bindW (step cf) (\<lambda>tk w.
       if w_restart_required w then (Inr (new_report WO_RESTART_REQUIRED), w)
       else case flush_locked (tk_sink tk) w of (ok, w1) \<Rightarrow>
         if \<not> ok then (Inr (new_report WO_SINK_UNAVAILABLE), w1)
         else bindW (retry_pending_fail cf) (\<lambda>ready w2.
           if \<not> ready then (Inr ((new_report WO_SCHEDULER_ERROR)\<lparr>wr_item_id := w_pending_fail w2\<rparr>), w2)
           else dispatch_next cf w2) w1)"

section \<open>Recovery and the loops\<close>

fun release_all :: "('m, 'r) config \<Rightarrow> nat \<Rightarrow> nat \<Rightarrow> lease list \<Rightarrow> ('m, 'r, recovery_report) act" where
  "release_all cf n released [] = retW \<lparr>rr_recovered = n, rr_released = released, rr_ledger_failure = None\<rparr>"
| "release_all cf n released (l # ls) =
     bindW (step cf) (\<lambda>tk.
       tryW (ledger_release tk l DEADLINE_EXPIRED)
         (\<lambda>code. retW \<lparr>rr_recovered = n, rr_released = released, rr_ledger_failure = Some code\<rparr>)
         (\<lambda>status. release_all cf n (if status = APPLIED then Suc released else released) ls))"

definition recover :: "('m, 'r) config \<Rightarrow> ('m, 'r, recovery_report) act" where
  "recover cf =
     bindW (step cf) (\<lambda>tk.
       tryW (ledger_recover_expired cf tk)
         (\<lambda>code. retW \<lparr>rr_recovered = 0, rr_released = 0, rr_ledger_failure = Some code\<rparr>)
         (\<lambda>leases. release_all cf (length leases) 0 leases))"

definition WAITING_OUTCOMES :: "work_outcome set" where
  "WAITING_OUTCOMES = {WO_IDLE, WO_SINK_UNAVAILABLE, WO_SCHEDULER_ERROR, WO_LEDGER_ERROR}"

text \<open>The loops may run for ever: \<open>None\<close> is no result. Sleeping lets the other threads run.\<close>

partial_function (option) run_loop ::
  "('m, 'r) config \<Rightarrow> ('m, 'r) world \<Rightarrow> ((worker_exn + worker_exit) \<times> ('m, 'r) world) option" where
  "run_loop cf w =
     (let w0 = snd (step cf w) in
      if w_stop w0 then Some (Inr WX_STOPPED, w0)
      else case process_next cf w0 of
        (Inl e, w1) \<Rightarrow> Some (Inl e, w1)
      | (Inr report, w1) \<Rightarrow>
          if wr_outcome report = WO_RESTART_REQUIRED then Some (Inr WX_RESTART_REQUIRED, w1)
          else run_loop cf (if wr_outcome report \<in> WAITING_OUTCOMES then snd (step cf w1) else w1))"

definition run ::
  "('m, 'r) config \<Rightarrow> pyval \<Rightarrow> ('m, 'r) world \<Rightarrow> ((worker_exn + worker_exit) \<times> ('m, 'r) world) option" where
  "run cf idle_seconds w =
     (case require_seconds idle_seconds of
        Inl e \<Rightarrow> Some (Inl e, w)
      | Inr _ \<Rightarrow>
          (case recover cf w of
             (Inl e, w1) \<Rightarrow> Some (Inl e, w1)
           | (Inr _, w1) \<Rightarrow> run_loop cf w1))"

partial_function (option) watch_loop ::
  "('m, 'r) config \<Rightarrow> ('m, 'r) world \<Rightarrow> (watchdog_action \<times> ('m, 'r) world) option" where
  "watch_loop cf w =
     (let w0 = snd (step cf w); signal = tk_signal (cf_ticks cf (w_pos w)) in
      if signal then Some (WD_NONE, w0)
      else
        let w1 = snd (step cf w0);
            res = watchdog_tick (cf_grace cf) (tk_monotonic (cf_ticks cf (w_pos w0))) w1
        in if fst res = WD_TERMINATE then Some res
           else watch_loop cf (snd (step cf (snd res))))"

definition watch ::
  "('m, 'r) config \<Rightarrow> pyval \<Rightarrow> ('m, 'r) world \<Rightarrow> ((worker_exn + watchdog_action) \<times> ('m, 'r) world) option" where
  "watch cf poll_seconds w =
     (case require_seconds poll_seconds of
        Inl e \<Rightarrow> Some (Inl e, w)
      | Inr _ \<Rightarrow> map_option (\<lambda>(a, w'). (Inr a, w')) (watch_loop cf w))"

section \<open>Construction\<close>

definition make_worker ::
  "policy \<Rightarrow> inference_profile \<Rightarrow> pyval \<Rightarrow> failure_policy option \<Rightarrow> inv_db \<Rightarrow> worker_exn + rat \<times> ('m, 'r) world" where
  "make_worker p profile grace_arg fp db =
     (let role_prof = profile_of p (pf_role profile) in
      bindE (guardE (enabled role_prof) WorkerConfigError) (\<lambda>_.
      bindE (guardE (pf_hard_timeout_seconds profile \<le> hard_timeout_seconds role_prof) WorkerConfigError) (\<lambda>_.
      bindE (guardE (pf_output_cap_tokens profile \<le> output_cap_tokens role_prof) WorkerConfigError) (\<lambda>_.
      bindE (require_seconds grace_arg) (\<lambda>grace.
      bindE (guardE (grace \<le> of_int (finalization_reserve_seconds p)) WorkerConfigError) (\<lambda>_.
      Inr (grace, new_world p (case fp of None \<Rightarrow> default_failure_policy | Some x \<Rightarrow> x) db)))))))"

end
