(* ===== verification/Scheduler_Replay.thy ===== *)
theory Scheduler_Replay
  imports Scheduler_Safety
begin

text \<open>
  The records of the scheduler as a log. Replaying the records that an operation returns on the items
  that were live before it gives the items that are live after it, so whoever keeps the records in
  order can rebuild the set of live items. Also what each operation does to the running entry and to
  the queue, which the worker relies on.
\<close>

section \<open>Replay\<close>

definition replay_record :: "sched_transition \<Rightarrow> string set \<Rightarrow> string set" where
  "replay_record t S = (if st_state t \<in> ACTIVE_ITEM_STATES then insert (st_item_id t) S else S - {st_item_id t})"

definition replay :: "sched_transition list \<Rightarrow> string set \<Rightarrow> string set" where
  "replay ts S = fold replay_record ts S"

lemma replay_simps [simp]: "replay [] S = S" "replay (t # ts) S = replay ts (replay_record t S)"
  "replay (ts @ us) S = replay us (replay ts S)"
  by (simp_all add: replay_def)

lemma replay_opened:
  "\<forall>t \<in> set ts. \<not> closes i t \<Longrightarrow> i \<in> replay ts S \<longleftrightarrow> i \<in> S \<or> (\<exists>t \<in> set ts. st_item_id t = i)"
  by (induction ts arbitrary: S) (auto simp: replay_record_def closes_def)

lemma replay_closed:
  "\<forall>t \<in> set ts. st_item_id t = i \<longrightarrow> closes i t \<Longrightarrow> i \<in> replay ts S \<longleftrightarrow> i \<in> S \<and> (\<forall>t \<in> set ts. st_item_id t \<noteq> i)"
  by (induction ts arbitrary: S) (auto simp: replay_record_def closes_def)

text \<open>The records of an operation open only items that are live after it, and open every new one.\<close>

definition opens :: "scheduler \<Rightarrow> sched_transition list \<Rightarrow> scheduler \<Rightarrow> bool" where
  "opens s out s' \<longleftrightarrow> (\<forall>t \<in> set out. st_state t \<in> ACTIVE_ITEM_STATES \<longrightarrow> st_item_id t \<in> live s')
     \<and> (\<forall>i \<in> live s' - live s. \<exists>t \<in> set out. st_item_id t = i)"

lemma replay_accounted:
  assumes "accounted s out s'" and "opens s out s'"
  shows "replay out (live s) = live s'"
proof (rule set_eqI)
  fix i
  show "i \<in> replay out (live s) \<longleftrightarrow> i \<in> live s'"
  proof (cases "i \<in> live s'")
    case True
    then have "\<forall>t \<in> set out. \<not> closes i t" using assms(1) by (auto simp: accounted_def)
    then show ?thesis using True assms(2) replay_opened[of out i "live s"] by (auto simp: opens_def)
  next
    case False
    then have "\<forall>t \<in> set out. st_item_id t = i \<longrightarrow> closes i t" using assms(2) by (auto simp: opens_def closes_def)
    then show ?thesis
      using False assms(1) replay_closed[of out i "live s"] unfolding accounted_def closes_def by blast
  qed
qed

section \<open>The effect of an operation\<close>

text \<open>The entry in the running slot.\<close>

definition slot :: "scheduler \<Rightarrow> queued_entry option" where
  "slot s = map_option rn_entry (running s)"

lemma begin_records:
  "t \<in> set (snd (begin_op now s)) \<Longrightarrow> st_state t \<notin> ACTIVE_ITEM_STATES"
  by (cases rule: sweep_running_cases[of now s])
    (auto simp: begin_op_out sweep_verdict_def Let_def unfit_state_def ACTIVE_ITEM_STATES_def split: if_splits)

lemma begin_slot: "slot (fst (begin_op now s)) = slot s"
  by (cases rule: sweep_running_cases[of now s]) (auto simp: slot_def)

lemma begin_sub: "sched_inv s \<Longrightarrow> set (queue (fst (begin_op now s))) \<subseteq> set (queue s)"
  by (auto simp: begin_op_queue)

text \<open>
  What every operation but an admission keeps: its records replay, no item is queued by it, and the
  invariants of the scheduler hold.
\<close>

definition steady :: "scheduler \<Rightarrow> sched_transition list \<Rightarrow> scheduler \<Rightarrow> bool" where
  "steady s out s' \<longleftrightarrow> timed_inv s' \<and> sc_policy s' = sc_policy s \<and> accounted s out s'
     \<and> replay out (live s) = live s' \<and> set (queue s') \<subseteq> set (queue s)"

lemma sched_step_timed:
  assumes "timed_inv s" and "sched_step op s = (out, s')"
  shows "timed_inv s' \<and> sc_policy s' = sc_policy s \<and> accounted s out s'"
  using assms timed_next[of s op] sched_step_sound[of s op]
  by (simp add: timed_inv_def sound_step_def sched_next_def)

lemma steadyI:
  assumes "timed_inv s" and "sched_step op s = (out, s')" and "opens s out s'" and "set (queue s') \<subseteq> set (queue s)"
  shows "steady s out s'"
  using sched_step_timed[OF assms(1,2)] replay_accounted[OF _ assms(3)] assms(4) by (simp add: steady_def)

lemma timed_sched: "timed_inv s \<Longrightarrow> sched_inv s"
  by (simp add: timed_inv_def)

lemma opens_begin:
  assumes "sched_inv s" and "begin_op now s = (s', out)"
  shows "opens s out s'"
  using begin_records[of _ now s] begin_op_live[OF assms(1), of now] assms(2) by (auto simp: opens_def)

lemma opens_same_live: "opens s out s1 \<Longrightarrow> live s2 = live s1 \<Longrightarrow> opens s out s2"
  by (simp add: opens_def)

lemma opens_closing:
  "\<forall>t \<in> set out. st_state t \<notin> ACTIVE_ITEM_STATES \<Longrightarrow> live s' \<subseteq> live s \<Longrightarrow> opens s out s'"
  by (auto simp: opens_def)

lemma authorize_steady:
  assumes inv: "timed_inv s" and res: "authorize_call c i ro rep b s = Inr (d, s')"
  shows "steady s (cd_transitions d) s' \<and> slot s' = slot s"
proof -
  note sinv = timed_sched[OF inv]
  have st: "sched_step (OpAuthorize c i ro rep b) s = (cd_transitions d, s')" by (simp add: after_def res)
  from res show ?thesis
  proof (cases rule: authorize_cases)
    case (refused now out)
    then show ?thesis
      using steadyI[OF inv st] opens_begin[OF sinv refused(2)] begin_slot[of now s] begin_sub[OF sinv, of now] by simp
  next
    case (allowed now s1 out r)
    have "live s' = live s1" using allowed(3,6) by (intro live_same) auto
    then show ?thesis
      using steadyI[OF inv st] opens_same_live[OF opens_begin[OF sinv allowed(2)]] begin_slot[of now s]
        begin_sub[OF sinv, of now] allowed(2,3,6,7)
      by (simp add: slot_def)
  qed
qed

lemma dispatch_steady:
  assumes inv: "timed_inv s" and res: "dispatch c s = Inr (d, s')"
  shows "steady s (dr_transitions d) s' \<and>
    (case dr_dispatched d of
       None \<Rightarrow> slot s' = slot s
     | Some x \<Rightarrow> slot s = None \<and> (\<exists>e. slot s' = Some e \<and> (ds_item_id x, e) \<in> set (queue s)
         \<and> item_id (version e) = ds_item_id x \<and> item_id (version e) \<in> live s' \<and> ds_deadline x = deadline e \<and> ds_path x = path e))"
proof -
  note sinv = timed_sched[OF inv]
  have st: "sched_step (OpDispatch c) s = (dr_transitions d, s')" by (simp add: after_def res)
  from res show ?thesis
  proof (cases rule: dispatch_cases)
    case (idle now out)
    then show ?thesis
      using steadyI[OF inv st] opens_begin[OF sinv idle(2)] begin_slot[of now s] begin_sub[OF sinv, of now] by simp
  next
    case (dispatched now s1 out x xs e fair)
    let ?i = "item_id (version e)"
    have inv1: "sched_inv s1" using begin_op_inv[OF sinv, of now] dispatched(2) by simp
    have "e \<in> set (map snd (queue s1))" using choose_entry_in[of now s1 x xs] dispatched(4,5) by simp
    then obtain j where j: "(j, e) \<in> set (queue s1)" by auto
    have ji: "j = ?i" using queue_ids[OF inv1 j] by simp
    have q: "queue s' = dict_pop ?i (queue s1)"
      using remove_queue[of "s1\<lparr>slots_used := slots_used s1 + 1\<rparr>" ?i] inv1 by (simp add: dispatched(6) sched_inv_def indexes_ok_def)
    have lv: "live s' = live s1" using j ji dispatched(3) by (auto simp: live_def dispatched(6) q[unfolded dispatched(6)] rev_image_eqI)
    have il: "?i \<in> live s1" using j ji by (auto simp: live_def rev_image_eqI)
    have "opens s (dr_transitions d) s'"
      using opens_same_live[OF opens_begin[OF sinv dispatched(2)] lv] lv il by (auto simp: opens_def dispatched(7))
    moreover have sub: "set (queue s1) \<subseteq> set (queue s)" using begin_sub[OF sinv, of now] dispatched(2) by simp
    ultimately have "steady s (dr_transitions d) s'" using q by (intro steadyI[OF inv st]) auto
    moreover have "slot s = None" using begin_slot[of now s] dispatched(2,3) by (simp add: slot_def)
    moreover have "?i \<in> live s'" using il lv by simp
    ultimately show ?thesis using j ji sub by (auto simp: dispatched(8) dispatched(6) slot_def)
  qed
qed

lemma live_free_sub: "live (s\<lparr>running := None\<rparr>) \<subseteq> live s"
  by (auto simp: live_def)

lemma fail_steady:
  assumes inv: "timed_inv s" and res: "fail c i s = Inr (d, s')"
  shows "steady s (co_transitions d) s' \<and> slot s' = None \<and> (\<exists>e. slot s = Some e \<and> i = PStr (item_id (version e)))"
proof -
  note sinv = timed_sched[OF inv]
  have st: "sched_step (OpFail c i) s = (co_transitions d, s')" by (simp add: after_def res)
  from res show ?thesis
  proof (cases rule: fail_cases)
    case (1 now s1 out r0 r)
    have "\<forall>t \<in> set out. st_state t \<notin> ACTIVE_ITEM_STATES" using begin_records[of _ now s] 1(2) by simp
    then have "\<forall>t \<in> set (co_transitions d). st_state t \<notin> ACTIVE_ITEM_STATES"
      using 1(8) by (auto simp: ACTIVE_ITEM_STATES_def split: if_splits)
    moreover have "live s' \<subseteq> live s"
      using live_free_sub[of s1] begin_op_live[OF sinv, of now] 1(2,7) by auto
    ultimately have "opens s (co_transitions d) s'" by (rule opens_closing)
    then have "steady s (co_transitions d) s'"
      using begin_sub[OF sinv, of now] 1(2,7) by (intro steadyI[OF inv st]) auto
    then show ?thesis using 1(3,4,7) by (simp add: slot_def)
  qed
qed

lemma complete_steady:
  assumes inv: "timed_inv s" and res: "complete c i s = Inr (d, s')"
  shows "steady s (co_transitions d) s' \<and> slot s' = None
    \<and> (\<exists>e. slot s = Some e \<and> i = PStr (item_id (version e))
         \<and> (co_publishable d \<longrightarrow> (\<exists>t \<in> set (co_transitions d). st_item_id t = item_id (version e)
               \<and> st_state t = IS_COMPLETED \<and> st_at t < deadline e)))"
proof -
  note sinv = timed_sched[OF inv]
  have st: "sched_step (OpComplete c i) s = (co_transitions d, s')" by (simp add: after_def res)
  from res show ?thesis
  proof (cases rule: complete_cases)
    case (1 now r0 r1 s1 out)
    let ?s = "s\<lparr>last_now := Some now, running := Some r1\<rparr>"
    have "?s\<lparr>last_now := Some now\<rparr> = ?s" by (rule scheduler.equality) simp_all
    then have b: "begin_op now ?s = (s1, out)" unfolding begin_op_def using 1(5) by (simp only:)
    have inv1: "sched_inv ?s"
      using sinv 1(2,4) by (auto simp: sched_inv_def indexes_ok_def running_ok_def)
    have rec: "\<forall>t \<in> set (co_transitions d). st_state t \<notin> ACTIVE_ITEM_STATES"
      using begin_records[of _ now ?s] b 1(8) by (auto simp: ACTIVE_ITEM_STATES_def)
    have "live s' \<subseteq> live s1" using live_free_sub[of s1] 1(7) by simp
    also have "live s1 \<subseteq> live ?s" using begin_op_live[OF inv1, of now] b by simp
    also have "live ?s \<subseteq> live s" using 1(2,4) by (auto simp: live_def)
    finally have "opens s (co_transitions d) s'" by (rule opens_closing[OF rec])
    then have "steady s (co_transitions d) s'"
      using begin_sub[OF inv1, of now] b 1(7) by (intro steadyI[OF inv st]) auto
    moreover have "\<exists>t \<in> set (co_transitions d). st_item_id t = item_id (version (rn_entry r0))
        \<and> st_state t = IS_COMPLETED \<and> st_at t < deadline (rn_entry r0)" if "co_publishable d"
      using that 1(4,8,9) by (intro bexI[of _ "trans (item_id (version (rn_entry r0))) IS_COMPLETED now None None"])
        (auto split: if_splits)
    moreover have "slot s = Some (rn_entry r0)" "slot s' = None" using 1(2,7) by (simp_all add: slot_def)
    ultimately show ?thesis using 1(3) by blast
  qed
qed

text \<open>An admission may add the entry of the offered version.\<close>

lemma admit_steady:
  assumes inv: "timed_inv s" and res: "admit c v s = Inr (d, s')"
  shows "timed_inv s' \<and> sc_policy s' = sc_policy s \<and> accounted s (ad_transitions d) s'
    \<and> replay (ad_transitions d) (live s) = live s' \<and> slot s' = slot s
    \<and> (\<forall>(i, e) \<in> set (queue s'). (i, e) \<in> set (queue s) \<or> ad_status d = ADMITTED \<and> i = ad_item_id d \<and> version e = v)
    \<and> (ad_status d = ADMITTED \<longrightarrow> ad_item_id d \<notin> fst ` set (queue s))"
proof -
  note sinv = timed_sched[OF inv]
  have st: "sched_step (OpAdmit c v) s = (ad_transitions d, s')" by (simp add: after_def res)
  note step = sched_step_timed[OF inv st]
  have "opens s (ad_transitions d) s' \<and> slot s' = slot s
    \<and> (\<forall>(i, e) \<in> set (queue s'). (i, e) \<in> set (queue s) \<or> ad_status d = ADMITTED \<and> i = ad_item_id d \<and> version e = v)
    \<and> (ad_status d = ADMITTED \<longrightarrow> ad_item_id d \<notin> fst ` set (queue s))"
    using res sinv
  proof (cases rule: admit_cases)
    case (quiet now out)
    then show ?thesis
      using opens_begin[OF sinv quiet(2)] begin_slot[of now s] begin_sub[OF sinv, of now] by auto
  next
    case (fresh now s1 out dl)
    have s1: "sched_inv s1" "accounted s out s1" "live s1 \<subseteq> live s" "slot s1 = slot s" "set (queue s1) \<subseteq> set (queue s)"
      using begin_op_inv[OF sinv, of now] begin_op_live[OF sinv, of now] begin_slot[of now s] begin_sub[OF sinv, of now] fresh(2)
      by simp_all
    have rec: "\<forall>t \<in> set out. st_state t \<notin> ACTIVE_ITEM_STATES" using begin_records[of _ now s] fresh(2) by simp
    from fresh(7) show ?thesis
    proof (cases rule: admit_new_cases)
      case (refused st rel why)
      then show ?thesis
        using s1 rec by (auto simp: refused_result_def intro!: opens_closing)
    next
      case (dropped s2 out2 sup_id st rel)
      note g = admit_group_accounted[OF s1(1) dropped(1) s1(2)] and g2 = admit_group_Inr[OF s1(1) dropped(1)]
      have "set (queue s2) \<subseteq> set (queue s1)" "slot s2 = slot s1" using g2 by (auto simp: slot_def split: option.splits)
      moreover have "\<forall>t \<in> set out2. st_state t \<notin> ACTIVE_ITEM_STATES"
        using g2 rec by (auto simp: ACTIVE_ITEM_STATES_def split: option.splits)
      ultimately show ?thesis
        using s1 g dropped(2-4) by (auto simp: refused_result_def intro!: opens_closing)
    next
      case (admitted b s2 out2 sup_id e s3 out3)
      note g = admit_group_accounted[OF s1(1) admitted(1) s1(2)] and g2 = admit_group_Inr[OF s1(1) admitted(1)]
      have inv2: "sched_inv s2" using g2 by blast
      note o3 = admit_overflow_accounted[OF inv2 admitted(3) conjunct1[OF g]] and o2 = admit_overflow_Inr[OF inv2 admitted(3)]
      have v: "version e = v" by (simp add: admitted(2))
      have l3: "live s3 \<subseteq> live s" using o3 g s1(3) by blast
      then have nq: "item_id (version e) \<notin> fst ` set (queue s3)" using fresh(5) by (auto simp: live_def v)
      have q: "set (queue s3) \<subseteq> set (queue s)" using g2 o2 s1(5) by (auto split: option.splits)
      have "slot s3 = slot s" using g2 o2 s1(4) by (simp add: slot_def)
      moreover have "\<forall>t \<in> set out3. st_state t \<notin> ACTIVE_ITEM_STATES"
        using g2 o2 rec by (auto simp: ACTIVE_ITEM_STATES_def split: option.splits)
      ultimately show ?thesis
        using q l3 fresh(5) live_insert[OF nq] unfolding admitted(4,8,9,12)
        by (auto simp: opens_def v insert_entry_def Let_def dict_put_new nq[unfolded v] slot_def live_def)
    qed
  qed
  with step replay_accounted show ?thesis by blast
qed

end
