(* ===== verification/Worker_Safety.thy ===== *)
theory Worker_Safety
  imports Worker Scheduler_Replay
begin

text \<open>
  The invariant of the worker and what every step keeps of it: the scheduler is consistent, its live
  items are those that the recorded batches rebuild, the ledger is safe and every publication has its
  completed row in the ledger. \<open>keeps\<close> says what the steps of the other threads leave alone.
\<close>

section \<open>Emitting records\<close>

text \<open>What the worker has recorded, persisted or not, in order.\<close>

definition records :: "('m, 'r) world \<Rightarrow> 'r batch list" where
  "records w = w_sunk w @ w_pending w"

definition pubs :: "('m, 'r) world \<Rightarrow> 'r publication list" where
  "pubs w = List.map_filter snd (records w)"

lemma flush_locked_eq:
  "flush_locked k w = (length (w_pending w) \<le> k,
     w\<lparr>w_sunk := w_sunk w @ take k (w_pending w), w_pending := drop k (w_pending w)\<rparr>)"
proof (induction k arbitrary: w)
  case 0
  then show ?case by (subst flush_locked.simps) (auto split: list.splits intro: world.equality)
next
  case (Suc k)
  then show ?case by (subst flush_locked.simps) (auto split: list.splits intro: world.equality)
qed

lemma records_flush [simp]: "records (snd (flush_locked k w)) = records w"
  by (simp add: flush_locked_eq records_def)

lemma flush_fields [simp]:
  "w_scheduler (snd (flush_locked k w)) = w_scheduler w" "w_breaker (snd (flush_locked k w)) = w_breaker w"
  "w_stop (snd (flush_locked k w)) = w_stop w" "w_versions (snd (flush_locked k w)) = w_versions w"
  "w_pending_fail (snd (flush_locked k w)) = w_pending_fail w" "w_active (snd (flush_locked k w)) = w_active w"
  "w_restart_required (snd (flush_locked k w)) = w_restart_required w" "w_ledger (snd (flush_locked k w)) = w_ledger w"
  "w_calls (snd (flush_locked k w)) = w_calls w" "w_pos (snd (flush_locked k w)) = w_pos w"
  by (simp_all add: flush_locked_eq)

lemma emit_fields [simp]:
  "w_scheduler (snd (emit_locked k ts pub w)) = w_scheduler w" "w_breaker (snd (emit_locked k ts pub w)) = w_breaker w"
  "w_stop (snd (emit_locked k ts pub w)) = w_stop w" "w_pending_fail (snd (emit_locked k ts pub w)) = w_pending_fail w"
  "w_active (snd (emit_locked k ts pub w)) = w_active w"
  "w_restart_required (snd (emit_locked k ts pub w)) = w_restart_required w"
  "w_ledger (snd (emit_locked k ts pub w)) = w_ledger w" "w_calls (snd (emit_locked k ts pub w)) = w_calls w"
  "w_pos (snd (emit_locked k ts pub w)) = w_pos w"
  "w_versions (snd (emit_locked k ts pub w)) = fold pop_closed ts (w_versions w)"
  by (simp_all add: emit_locked_def)

lemma records_emit: "records (snd (emit_locked k ts pub w)) = records w @ (if ts \<noteq> [] \<or> pub \<noteq> None then [(ts, pub)] else [])"
  by (simp add: emit_locked_def) (simp add: records_def)

lemma records_frame:
  "records (w\<lparr>w_scheduler := s\<rparr>) = records w" "records (w\<lparr>w_pending_fail := pf\<rparr>) = records w" "records (w\<lparr>w_active := a\<rparr>) = records w"
  "records (w\<lparr>w_restart_required := b\<rparr>) = records w" "records (w\<lparr>w_stop := b\<rparr>) = records w" "records (w\<lparr>w_ledger := db\<rparr>) = records w"
  "records (w\<lparr>w_pos := n\<rparr>) = records w" "records (w\<lparr>w_breaker := br\<rparr>) = records w" "records (w\<lparr>w_versions := vs\<rparr>) = records w"
  "records (w\<lparr>w_calls := cs\<rparr>) = records w"
  by (simp_all add: records_def)

lemma pop_closed_keeps:
  "(\<forall>t \<in> set ts. \<not> closes i t) \<Longrightarrow> fold pop_closed ts versions i = versions i"
  by (induction ts arbitrary: versions) (auto simp: pop_closed_def closes_def)

section \<open>The invariant\<close>

definition attempts_of :: "string \<Rightarrow> inv_db \<Rightarrow> int" where
  "attempts_of m db = sum_list (map iv_attempt_count (filter (\<lambda>r. iv_model r = m) (db_invocations db)))"

text \<open>
  The record of a publication: the completed ledger row of its invocation, made for the identity of
  a version of its item, and the completion of that item before the deadline of that version.
\<close>

definition published :: "policy \<Rightarrow> string \<Rightarrow> inv_db \<Rightarrow> sched_transition list \<Rightarrow> 'r publication \<Rightarrow> bool" where
  "published p m db ts pub \<longleftrightarrow>
     (\<exists>r v t. r \<in> set (db_invocations db) \<and> iv_invocation_id r = pb_invocation_id pub \<and> iv_state r = COMPLETED
        \<and> iv_model r = m \<and> pb_model pub = m \<and> 1 \<le> iv_attempt_count r \<and> iv_identity r = ov_identity v
        \<and> item_id v = pb_item_id pub \<and> t \<in> set ts \<and> st_item_id t = pb_item_id pub \<and> st_state t = IS_COMPLETED
        \<and> st_at t < origin_of v + seconds (analysis_deadline_seconds (limits_of p (ov_horizon v))))"

definition worker_inv :: "policy \<Rightarrow> string \<Rightarrow> ('m, 'r) world \<Rightarrow> bool" where
  "worker_inv p m w \<longleftrightarrow>
     timed_inv (w_scheduler w) \<and> sc_policy (w_scheduler w) = p \<and> inv_ok (w_ledger w)
     \<and> (\<forall>(i, e) \<in> set (queue (w_scheduler w)). w_versions w i = Some (version e))
     \<and> replay (concat (map fst (records w))) {} = live (w_scheduler w)
     \<and> (\<forall>(ts, pub) \<in> set (records w). \<forall>x. pub = Some x \<longrightarrow> published p m (w_ledger w) ts x)
     \<and> distinct (map pb_invocation_id (pubs w))
     \<and> int (length (w_calls w)) \<le> attempts_of m (w_ledger w)"

lemma published_mono:
  assumes "published p m db ts pub" and "db_le db db'"
  shows "published p m db' ts pub"
proof -
  obtain r v t where r: "r \<in> set (db_invocations db)" "iv_invocation_id r = pb_invocation_id pub" "iv_state r = COMPLETED"
    "iv_model r = m" "pb_model pub = m" "1 \<le> iv_attempt_count r" "iv_identity r = ov_identity v"
    and v: "item_id v = pb_item_id pub" "t \<in> set ts" "st_item_id t = pb_item_id pub" "st_state t = IS_COMPLETED"
      "st_at t < origin_of v + seconds (analysis_deadline_seconds (limits_of p (ov_horizon v)))"
    using assms(1) unfolding published_def by blast
  obtain r' where r': "r' \<in> set (db_invocations db')" "row_le r r'" using assms(2) r(1) by (rule db_le_row)
  then have "r' = r" using r(3) by (simp add: row_le_def)
  then show ?thesis using r r' v unfolding published_def by blast
qed

lemma attempts_mono:
  assumes "db_le db db'" and "inv_ok db'"
  shows "attempts_of m db \<le> attempts_of m db'"
proof -
  let ?n = "length (db_invocations db)"
  let ?sum = "\<lambda>rows. sum_list (map iv_attempt_count (filter (\<lambda>r. iv_model r = m) rows))"
  have "list_all2 row_le (db_invocations db) (take ?n (db_invocations db'))" using assms(1) by (simp add: db_le_def)
  then have "?sum (db_invocations db) \<le> ?sum (take ?n (db_invocations db'))"
    by (induction rule: list_all2_induct) (auto simp: row_le_def)
  moreover have "0 \<le> ?sum (drop ?n (db_invocations db'))"
    using inv_ok_rows_ok[OF assms(2)]
    by (intro sum_list_nonneg) (auto simp: list_all_iff row_wf_def row_check_def dest: in_set_dropD)
  moreover have "?sum (db_invocations db') = ?sum (take ?n (db_invocations db')) + ?sum (drop ?n (db_invocations db'))"
    by (metis append_take_drop_id filter_append map_append sum_list_append)
  ultimately show ?thesis by (simp add: attempts_of_def)
qed

section \<open>Steps that keep the item\<close>

text \<open>
  What the other threads, and the worker thread between the dispatch and the end of an item, do to the
  world: the invariant is kept, the ledger only advances, and the running item, the publications, the
  calls and the item to close are left alone.
\<close>

definition keeps :: "policy \<Rightarrow> string \<Rightarrow> ('m, 'r) world \<Rightarrow> ('m, 'r) world \<Rightarrow> bool" where
  "keeps p m w w' \<longleftrightarrow> (worker_inv p m w \<longrightarrow> worker_inv p m w' \<and> slot (w_scheduler w') = slot (w_scheduler w)
     \<and> pubs w' = pubs w)
     \<and> db_le (w_ledger w) (w_ledger w') \<and> w_calls w' = w_calls w \<and> w_pending_fail w' = w_pending_fail w
     \<and> w_pos w \<le> w_pos w' \<and> (w_stop w \<longrightarrow> w_stop w') \<and> (w_restart_required w \<longrightarrow> w_restart_required w')"

lemma keeps_refl: "keeps p m w w"
  by (simp add: keeps_def db_le_refl)

lemma keeps_trans: "keeps p m a b \<Longrightarrow> keeps p m b c \<Longrightarrow> keeps p m a c"
  unfolding keeps_def using db_le_trans by (metis order_trans)

text \<open>Records are emitted after an operation of the scheduler.\<close>

lemma pubs_emit: "pubs (snd (emit_locked k ts pub w)) = pubs w @ (case pub of None \<Rightarrow> [] | Some x \<Rightarrow> [x])"
  by (cases pub) (auto simp: pubs_def records_emit List.map_filter_def)

lemma emit_inv:
  assumes inv: "worker_inv p m w" and s: "timed_inv s" "sc_policy s = sc_policy (w_scheduler w)"
    and acc: "accounted (w_scheduler w) ts s" and rep: "replay ts (live (w_scheduler w)) = live s"
    and vs: "\<forall>(i, e) \<in> set (queue s). vs i = Some (version e)"
    and pub: "\<forall>x. pub = Some x \<longrightarrow> published p m (w_ledger w) ts x \<and> pb_invocation_id x \<notin> pb_invocation_id ` set (pubs w)"
  shows "worker_inv p m (snd (emit_locked k ts pub (w\<lparr>w_scheduler := s, w_versions := vs\<rparr>)))"
proof -
  have "fold pop_closed ts vs i = Some (version e)" if "(i, e) \<in> set (queue s)" for i e
  proof -
    have "i \<in> live s" using that by (auto simp: live_def rev_image_eqI)
    then have "\<forall>t \<in> set ts. \<not> closes i t" using acc by (auto simp: accounted_def)
    then show ?thesis using pop_closed_keeps that vs by fastforce
  qed
  moreover have "replay (concat (map fst (records w @ (if ts \<noteq> [] \<or> pub \<noteq> None then [(ts, pub)] else [])))) {} = live s"
    using inv rep by (auto simp: worker_inv_def)
  ultimately show ?thesis
    using inv s pub unfolding worker_inv_def
    by (auto simp: records_emit records_frame pubs_emit split: option.splits if_splits) (auto simp: pubs_def records_frame)
qed

section \<open>The other threads\<close>

lemma slot_world: "worker_inv p m w \<Longrightarrow> timed_inv (w_scheduler w)" by (simp add: worker_inv_def)

lemma flush_keeps: "keeps p m w (snd (flush_locked k w))"
  by (auto simp: keeps_def worker_inv_def pubs_def db_le_refl)

lemma submit_keeps: "keeps p m w (snd (submit v now k k' w))"
proof -
  obtain ok w1 where f: "flush_locked k w = (ok, w1)" by force
  have k1: "keeps p m w w1" using flush_keeps[of p m w k] f by simp
  have "keeps p m w1 (snd (emit_locked k' (ad_transitions res) None (w1\<lparr>w_scheduler := s,
      w_versions := (if ad_status res = ADMITTED then (w_versions w1)(ad_item_id res \<mapsto> v) else w_versions w1)\<rparr>)))"
    (is "keeps p m w1 (snd (emit_locked k' _ _ ?w))")
    if a: "admit now v (w_scheduler w1) = Inr (res, s)" for res s
  proof -
    have "worker_inv p m (snd (emit_locked k' (ad_transitions res) None ?w)) \<and> slot s = slot (w_scheduler w1)"
      if inv: "worker_inv p m w1"
    proof -
      note ad = admit_steady[OF slot_world[OF inv] a]
      have old: "w_versions w1 i = Some (version e)" if "(i, e) \<in> set (queue (w_scheduler w1))" for i e
        using inv that by (auto simp: worker_inv_def)
      have new: "(i, e) \<in> set (queue (w_scheduler w1)) \<or> ad_status res = ADMITTED \<and> i = ad_item_id res \<and> version e = v"
        if "(i, e) \<in> set (queue s)" for i e using ad that by blast
      have "(if ad_status res = ADMITTED then (w_versions w1)(ad_item_id res \<mapsto> v) else w_versions w1) i = Some (version e)"
        if q: "(i, e) \<in> set (queue s)" for i e
      proof (cases "(i, e) \<in> set (queue (w_scheduler w1))")
        case True
        then have "ad_status res = ADMITTED \<Longrightarrow> ad_item_id res \<noteq> i" using ad by (auto simp: rev_image_eqI)
        then show ?thesis using old[OF True] by auto
      next
        case False
        then show ?thesis using new[OF q] by simp
      qed
      then have vs: "\<forall>(i, e) \<in> set (queue s). (if ad_status res = ADMITTED then (w_versions w1)(ad_item_id res \<mapsto> v)
          else w_versions w1) i = Some (version e)" by blast
      show ?thesis using emit_inv[OF inv, of s "ad_transitions res" _ None] ad vs by simp
    qed
    then show ?thesis unfolding keeps_def by (auto simp: pubs_emit db_le_refl) (auto simp: pubs_def records_frame)
  qed
  then have "keeps p m w1 (snd (case admit now v (w_scheduler w1) of
          Inl _ \<Rightarrow> (Inl SR_SCHEDULER_ERROR, w1)
        | Inr (res, s) \<Rightarrow>
            let versions = (if ad_status res = ADMITTED then (w_versions w1)(ad_item_id res \<mapsto> v) else w_versions w1)
            in (Inr res,
                snd (emit_locked k' (ad_transitions res) None (w1\<lparr>w_scheduler := s, w_versions := versions\<rparr>)))))"
    by (auto simp: keeps_refl Let_def split: sum.split prod.split)
  from keeps_trans[OF k1 this] k1 show ?thesis by (auto simp: submit_def f keeps_refl)
qed

text \<open>A field that the invariant does not mention may change.\<close>

lemma frame_inv [simp]:
  "worker_inv p m (w\<lparr>w_pos := n\<rparr>) = worker_inv p m w" "worker_inv p m (w\<lparr>w_stop := b\<rparr>) = worker_inv p m w"
  "worker_inv p m (w\<lparr>w_active := a\<rparr>) = worker_inv p m w" "worker_inv p m (w\<lparr>w_breaker := br\<rparr>) = worker_inv p m w"
  "worker_inv p m (w\<lparr>w_restart_required := b\<rparr>) = worker_inv p m w"
  "worker_inv p m (w\<lparr>w_pending_fail := pf\<rparr>) = worker_inv p m w"
  by (simp_all add: worker_inv_def records_frame pubs_def)

lemma frame_pubs [simp]:
  "pubs (w\<lparr>w_pos := n\<rparr>) = pubs w" "pubs (w\<lparr>w_stop := b\<rparr>) = pubs w" "pubs (w\<lparr>w_active := a\<rparr>) = pubs w"
  "pubs (w\<lparr>w_breaker := br\<rparr>) = pubs w" "pubs (w\<lparr>w_restart_required := b\<rparr>) = pubs w"
  "pubs (w\<lparr>w_pending_fail := pf\<rparr>) = pubs w" "pubs (w\<lparr>w_ledger := db\<rparr>) = pubs w" "pubs (w\<lparr>w_calls := cs\<rparr>) = pubs w"
  "pubs (w\<lparr>w_scheduler := s\<rparr>) = pubs w" "pubs (w\<lparr>w_versions := vs\<rparr>) = pubs w"
  by (simp_all add: records_frame pubs_def)

lemma ledger_inv:
  assumes "worker_inv p m w" and "inv_ok db" and "db_le (w_ledger w) db"
  shows "worker_inv p m (w\<lparr>w_ledger := db\<rparr>)"
proof -
  have "attempts_of m (w_ledger w) \<le> attempts_of m db" by (rule attempts_mono[OF assms(3,2)])
  moreover have "\<forall>(ts, pub) \<in> set (records w). \<forall>x. pub = Some x \<longrightarrow> published p m db ts x"
    using assms(1,3) published_mono unfolding worker_inv_def by fastforce
  ultimately show ?thesis using assms(1,2) unfolding worker_inv_def by (simp add: records_frame)
qed

lemma ledger_keeps:
  assumes "inv_ok (w_ledger w) \<Longrightarrow> inv_ok db" and "db_le (w_ledger w) db"
  shows "keeps p m w (w\<lparr>w_ledger := db\<rparr>)"
  unfolding keeps_def using assms ledger_inv[of p m w db] by (auto simp: worker_inv_def)

lemma inv_step_le: "db_le db (inv_step op db)" "inv_ok db \<Longrightarrow> inv_ok (inv_step op db)"
  using changes_ok_le[OF inv_step_changes[of op "op_budgets op" db, OF order_refl]] by blast+

lemma other_keeps: "keeps p m w (other_step g a w)"
proof (cases a)
  case (WatchdogTick now)
  then show ?thesis
    by (auto simp: watchdog_tick_def keeps_refl Let_def split: option.split) (auto simp: keeps_def db_le_refl)
next
  case RequestStop
  then show ?thesis by (simp add: request_stop_def) (simp add: keeps_def db_le_refl)
next
  case ReviewProfile
  then show ?thesis by (simp add: review_profile_def) (simp add: keeps_def db_le_refl)
qed (simp_all add: submit_keeps ledger_keeps inv_step_le)

lemma others_keep: "keeps p m w (fold (other_step g) as w)"
  by (induction as arbitrary: w) (auto simp: keeps_refl intro: keeps_trans other_keeps)

lemma step_keeps: "keeps p m w (snd (step cf w))"
proof -
  have "keeps p m w (w\<lparr>w_pos := Suc (w_pos w)\<rparr>)" by (simp add: keeps_def db_le_refl)
  then show ?thesis using others_keep keeps_trans by (fastforce simp: step_def Let_def)
qed

lemma reading_keeps: "keeps p m w (snd (reading cf w))"
  by (simp add: reading_def keeps_def db_le_refl)

end
