(* ===== verification/Worker_Items.thy ===== *)
theory Worker_Items
  imports Worker_Safety
begin

text \<open>
  What happens to one item while the worker holds it. Hoare-style triples over the actions of the worker,
  two locales for the assertions that every atomic step keeps and for the relations that every step
  extends, and their instances for the stages of an item: the item runs (\<open>busy\<close>), its lease is held
  (\<open>held\<close>), an attempt is paid (\<open>paid\<close>). Then the triple of each action from the clock reading up to the
  loop of attempts.
\<close>

section \<open>Assertions on actions\<close>

text \<open>
  From a world that satisfies \<open>P\<close>, an action ends in one that satisfies \<open>Q\<close> of its result, or \<open>E\<close> when
  it raises.
\<close>

definition triple ::
  "(('m, 'r) world \<Rightarrow> bool) \<Rightarrow> ('m, 'r, 'a) act \<Rightarrow> ('a \<Rightarrow> ('m, 'r) world \<Rightarrow> bool) \<Rightarrow> (('m, 'r) world \<Rightarrow> bool) \<Rightarrow> bool" where
  "triple P a Q E \<longleftrightarrow> (\<forall>w. P w \<longrightarrow> (case a w of (Inr x, w') \<Rightarrow> Q x w' | (Inl _, w') \<Rightarrow> E w'))"

lemma tripleI: "(\<And>w. P w \<Longrightarrow> (case a w of (Inr x, w') \<Rightarrow> Q x w' | (Inl _, w') \<Rightarrow> E w')) \<Longrightarrow> triple P a Q E"
  by (simp add: triple_def)

lemma tripleD: "triple P a Q E \<Longrightarrow> P w \<Longrightarrow> (case a w of (Inr x, w') \<Rightarrow> Q x w' | (Inl _, w') \<Rightarrow> E w')"
  by (simp add: triple_def)

lemma triple_bind:
  assumes "triple P a Q E" and "\<And>x. triple (Q x) (f x) R E"
  shows "triple P (bindW a f) R E"
proof (rule tripleI)
  fix w assume "P w"
  then have "case a w of (Inr x, w') \<Rightarrow> Q x w' | (Inl _, w') \<Rightarrow> E w'" by (rule tripleD[OF assms(1)])
  then show "case bindW a f w of (Inr x, w') \<Rightarrow> R x w' | (Inl _, w') \<Rightarrow> E w'"
    using tripleD[OF assms(2)] by (cases "a w"; cases "fst (a w)") (simp_all add: bindW_def)
qed

lemma triple_try:
  assumes a: "triple P a Q D" and "\<And>w. D w \<Longrightarrow> E w" and h: "\<And>code. triple D (h code) R E" and f: "\<And>x. triple (Q x) (f x) R E"
  shows "triple P (tryW a h f) R E"
proof (rule tripleI)
  fix w assume "P w"
  then have r: "case a w of (Inr x, w') \<Rightarrow> Q x w' | (Inl _, w') \<Rightarrow> D w'" by (rule tripleD[OF a])
  obtain res w' where e: "a w = (res, w')" by force
  show "case tryW a h f w of (Inr x, w') \<Rightarrow> R x w' | (Inl _, w') \<Rightarrow> E w'"
  proof (cases res)
    case (Inr x)
    then show ?thesis using r tripleD[OF f] by (simp add: tryW_def e)
  next
    case (Inl x)
    then have "D w'" using r e by simp
    then show ?thesis
      using tripleD[OF h] assms(2) Inl by (auto simp: tryW_def e split: worker_exn.split invocation_exn.split)
  qed
qed

lemma triple_ret: "(\<And>w. P w \<Longrightarrow> Q x w) \<Longrightarrow> triple P (retW x) Q E"
  by (simp add: triple_def retW_def)

lemma triple_raise: "(\<And>w. P w \<Longrightarrow> E w) \<Longrightarrow> triple P (raiseW e) Q E"
  by (simp add: triple_def raiseW_def)

lemma triple_lift:
  assumes "\<And>w x. P w \<Longrightarrow> r = Inr x \<Longrightarrow> Q x w" and "\<And>w. P w \<Longrightarrow> E w"
  shows "triple P (liftW r) Q E"
  using assms by (cases r) (auto simp: triple_def liftW_def)

lemma triple_conseq:
  assumes "triple P' a Q' E'" and "\<And>w. P w \<Longrightarrow> P' w" and "\<And>x w. Q' x w \<Longrightarrow> Q x w" and "\<And>w. E' w \<Longrightarrow> E w"
  shows "triple P a Q E"
proof (rule tripleI)
  fix w assume "P w"
  then have "case a w of (Inr x, w') \<Rightarrow> Q' x w' | (Inl _, w') \<Rightarrow> E' w'" using assms(1,2) by (simp add: triple_def)
  then show "case a w of (Inr x, w') \<Rightarrow> Q x w' | (Inl _, w') \<Rightarrow> E w'"
    using assms(3,4) by (auto split: prod.splits sum.splits)
qed

lemma triple_pre: "(\<And>w. P w \<Longrightarrow> triple P a Q E) \<Longrightarrow> triple P a Q E"
  by (auto simp: triple_def)

text \<open>
  The contract between the worker thread and everything that runs beside it: an assertion that the
  steps of the others keep. The actions that only keep the item then keep the assertion.
\<close>

locale stable_assertion =
  fixes p :: policy and m :: string and P :: "('m, 'r) world \<Rightarrow> bool"
  assumes stable: "keeps p m w w' \<Longrightarrow> P w \<Longrightarrow> P w'"
begin

lemma quiet:
  assumes "\<And>w. keeps p m w (snd (a w))"
  shows "triple P a (\<lambda>_. P) P"
proof (rule tripleI)
  fix w assume "P w"
  then have "P (snd (a w))" using stable assms by blast
  then show "case a w of (Inr x, w') \<Rightarrow> P w' | (Inl _, w') \<Rightarrow> P w'" by (auto split: prod.splits sum.splits)
qed

lemma quiet_step: "triple P (step cf) (\<lambda>_. P) E"
  using stable[OF step_keeps] by (auto simp: triple_def step_def Let_def)

lemma quiet_reading: "triple P (reading cf) (\<lambda>_. P) E"
  using stable[OF reading_keeps] by (auto simp: triple_def reading_def)

lemma quiet_lift: "triple P (liftW r) (\<lambda>_. P) P"
  by (rule triple_lift)

lemma step_then: "(\<And>tk. triple P (f tk) Q E) \<Longrightarrow> triple P (bindW (step cf) f) Q E"
  by (rule triple_bind[OF quiet_step])

lemma clock_then:
  assumes "\<And>now. triple P (f now) Q E" and "\<And>w. P w \<Longrightarrow> E w"
  shows "triple P (bindW (liftW r) f) Q E"
proof (rule triple_bind)
  show "triple P (liftW r) (\<lambda>_. P) E" by (rule triple_lift) (use assms(2) in blast)+
qed (rule assms(1))

end

text \<open>The contract of a reflexive and transitive relation between the worlds before and after an action.\<close>

locale effect_relation =
  fixes R :: "('m, 'r) world \<Rightarrow> ('m, 'r) world \<Rightarrow> bool"
  assumes same: "R w w" and trans: "R w w' \<Longrightarrow> R w' w'' \<Longrightarrow> R w w''"
begin

lemma pure: "R w (snd (retW x w))" "R w (snd (raiseW e w))" "R w (snd (liftW r w))"
  by (simp_all add: retW_def raiseW_def liftW_def same)

lemma bind:
  assumes "\<And>w. R w (snd (a w))" and "\<And>x w. R w (snd (f x w))"
  shows "R w (snd (bindW a f w))"
proof (cases "a w")
  case (Pair r w')
  then have k: "R w w'" using assms(1)[of w] by simp
  show ?thesis
  proof (cases r)
    case (Inr x)
    then show ?thesis using trans[OF k assms(2)] Pair by (simp add: bindW_def)
  qed (use k Pair in \<open>simp add: bindW_def\<close>)
qed

lemma lift:
  assumes "\<And>x. r = Inr x \<Longrightarrow> R w (snd (f x w))"
  shows "R w (snd (bindW (liftW r) f w))"
  using assms by (cases r) (simp_all add: bindW_def liftW_def same)

lemma attempt:
  assumes "\<And>w. R w (snd (a w))" and "\<And>x w. R w (snd (h x w))" and "\<And>x w. R w (snd (f x w))"
  shows "R w (snd (tryW a h f w))"
proof (cases "a w")
  case (Pair r w')
  then have k: "R w w'" using assms(1)[of w] by simp
  show ?thesis
  proof (cases r)
    case (Inr x)
    then show ?thesis using trans[OF k assms(3)] Pair by (simp add: tryW_def)
  next
    case (Inl e)
    then show ?thesis
      using k trans[OF k assms(2)] Pair by (auto simp: tryW_def split: worker_exn.split invocation_exn.split)
  qed
qed

end

section \<open>Actions that keep the item\<close>

interpretation kept: effect_relation "keeps p m" for p m
  by unfold_locales (rule keeps_refl, rule keeps_trans)


lemma on_ledger_keeps:
  assumes "\<And>db. db_le db (snd (f db))" and "\<And>db. inv_ok db \<Longrightarrow> inv_ok (snd (f db))"
  shows "keeps p m w (snd (on_ledger f w))"
proof -
  have "snd (on_ledger f w) = w\<lparr>w_ledger := snd (f (w_ledger w))\<rparr>" by (simp add: on_ledger_def split: prod.split)
  then show ?thesis using ledger_keeps[of w "snd (f (w_ledger w))" p m] assms by simp
qed

lemma release_keeps: "keeps p m w (snd (ledger_release tk l reason w))"
  using inv_step_le[where op = "ReleaseOp (tk_sqlite tk) l reason (tk_wall tk)"]
  by (auto simp: ledger_release_def status_only_def intro!: on_ledger_keeps)

lemma complete_keeps: "keeps p m w (snd (ledger_complete tk l w))"
  using inv_step_le[where op = "CompleteOp (tk_sqlite tk) l (tk_wall tk)"]
  by (auto simp: ledger_complete_def status_only_def intro!: on_ledger_keeps)

lemma attempt_keeps: "keeps p m w (snd (ledger_record_attempt cf tk l w))"
  using inv_step_le[where op = "AttemptOp (tk_sqlite tk) l (cf_budget cf) (tk_wall tk)"]
  by (auto simp: ledger_record_attempt_def status_only_def intro!: on_ledger_keeps)

lemma claim_keeps: "keeps p m w (snd (ledger_claim cf tk idn n w))"
proof -
  have "db_le db (snd (claim_invocation (tk_sqlite tk) rq (cf_budget cf) (cf_owner cf) (tk_wall tk) (PInt n) (tk_new_id tk) db))"
    "inv_ok db \<Longrightarrow> inv_ok (snd (claim_invocation (tk_sqlite tk) rq (cf_budget cf) (cf_owner cf) (tk_wall tk) (PInt n) (tk_new_id tk) db))"
    for rq db
    using inv_step_le[where op = "ClaimOp (tk_sqlite tk) rq (cf_budget cf) (cf_owner cf) (tk_wall tk) (PInt n) (tk_new_id tk)"]
    by auto
  then show ?thesis
    unfolding ledger_claim_def by (intro on_ledger_keeps) (auto simp: db_le_refl split: sum.split)
qed

lemma recover_keeps: "keeps p m w (snd (ledger_recover_expired cf tk w))"
  using inv_step_le[where op = "RecoverOp (tk_sqlite tk) (cf_owner cf) (tk_wall tk) (PInt RECOVERY_LEASE_SECONDS) (PInt DEFAULT_RECOVERY_LIMIT)"]
  by (auto simp: ledger_recover_expired_def intro!: on_ledger_keeps)

lemma emit_keeps:
  assumes "timed_inv (w_scheduler w) \<Longrightarrow> steady (w_scheduler w) ts s \<and> slot s = slot (w_scheduler w)"
  shows "keeps p m w (snd (emit_locked k ts None (w\<lparr>w_scheduler := s\<rparr>)))"
proof -
  have "worker_inv p m (snd (emit_locked k ts None (w\<lparr>w_scheduler := s, w_versions := w_versions w\<rparr>)))"
    if inv: "worker_inv p m w"
    using assms[OF slot_world[OF inv]] inv
    by (intro emit_inv[OF inv]) (auto simp: steady_def worker_inv_def)
  moreover have "w\<lparr>w_scheduler := s, w_versions := w_versions w\<rparr> = w\<lparr>w_scheduler := s\<rparr>" by (rule world.equality) simp_all
  ultimately show ?thesis
    using assms slot_world[of p m w] unfolding keeps_def by (auto simp: pubs_emit db_le_refl)
qed


section \<open>The item that the worker holds\<close>

definition row_of :: "string \<Rightarrow> lease \<Rightarrow> opportunity_version \<Rightarrow> nat \<Rightarrow> inv_db \<Rightarrow> bool" where
  "row_of m l v n db \<longleftrightarrow> (\<exists>r \<in> set (db_invocations db). iv_invocation_id r = ls_invocation_id l
     \<and> iv_identity r = ov_identity v \<and> iv_model r = m \<and> int n \<le> iv_attempt_count r)"

lemma row_of_mono: "row_of m l v n db \<Longrightarrow> db_le db db' \<Longrightarrow> row_of m l v n db'"
  unfolding row_of_def by (elim bexE db_le_row) (auto simp: row_le_def)

lemma row_of_less: "row_of m l v n db \<Longrightarrow> k \<le> n \<Longrightarrow> row_of m l v k db"
  unfolding row_of_def by force

text \<open>The running entry, with the calls made and the publications so far.\<close>

definition busy :: "policy \<Rightarrow> string \<Rightarrow> queued_entry \<Rightarrow> nat \<Rightarrow> 'r publication list \<Rightarrow> ('m, 'r) world \<Rightarrow> bool" where
  "busy p m e c P0 w \<longleftrightarrow> worker_inv p m w \<and> slot (w_scheduler w) = Some e \<and> w_pending_fail w = None
     \<and> length (w_calls w) = c \<and> pubs w = P0"

definition held :: "policy \<Rightarrow> string \<Rightarrow> queued_entry \<Rightarrow> lease \<Rightarrow> nat \<Rightarrow> nat \<Rightarrow> 'r publication list \<Rightarrow> ('m, 'r) world \<Rightarrow> bool" where
  "held p m e l n c P0 w \<longleftrightarrow> busy p m e c P0 w \<and> row_of m l (version e) n (w_ledger w)"

text \<open>A recorded attempt that no call has used yet.\<close>

definition credit :: "string \<Rightarrow> ('m, 'r) world \<Rightarrow> bool" where
  "credit m w \<longleftrightarrow> int (length (w_calls w)) + 1 \<le> attempts_of m (w_ledger w)"

lemma keeps_busy: "keeps p m w w' \<Longrightarrow> busy p m e c P0 w \<Longrightarrow> busy p m e c P0 w'"
  by (auto simp: keeps_def busy_def)

lemma keeps_held: "keeps p m w w' \<Longrightarrow> held p m e l n c P0 w \<Longrightarrow> held p m e l n c P0 w'"
  unfolding held_def using keeps_busy row_of_mono by (metis keeps_def)

lemma keeps_credit: "keeps p m w w' \<Longrightarrow> worker_inv p m w \<Longrightarrow> credit m w \<Longrightarrow> credit m w'"
proof -
  assume k: "keeps p m w w'" and inv: "worker_inv p m w" and cr: "credit m w"
  have "inv_ok (w_ledger w')" using k inv by (simp add: keeps_def worker_inv_def)
  then have "attempts_of m (w_ledger w) \<le> attempts_of m (w_ledger w')" using k by (intro attempts_mono) (simp_all add: keeps_def)
  then show ?thesis using cr k by (simp add: credit_def keeps_def)
qed

lemma held_inv: "held p m e l n c P0 w \<Longrightarrow> worker_inv p m w" "held p m e l n c P0 w \<Longrightarrow> busy p m e c P0 w"
  by (simp_all add: held_def busy_def)

definition paid :: "policy \<Rightarrow> string \<Rightarrow> queued_entry \<Rightarrow> lease \<Rightarrow> nat \<Rightarrow> nat \<Rightarrow> 'r publication list \<Rightarrow> ('m, 'r) world \<Rightarrow> bool" where
  "paid p m e l n c P0 w \<longleftrightarrow> held p m e l n c P0 w \<and> credit m w"

lemma keeps_paid: "keeps p m w w' \<Longrightarrow> paid p m e l n c P0 w \<Longrightarrow> paid p m e l n c P0 w'"
  unfolding paid_def using keeps_held keeps_credit held_inv(1) by metis

interpretation busy: stable_assertion p m "busy p m e c P0" for p m e c P0
  by unfold_locales (rule keeps_busy)

interpretation held: stable_assertion p m "held p m e l n c P0" for p m e l n c P0
  by unfold_locales (rule keeps_held)

interpretation paid: stable_assertion p m "paid p m e l n c P0" for p m e l n c P0
  by unfold_locales (rule keeps_paid)

section \<open>Attempts\<close>

text \<open>An applied attempt is one more on the row of the lease, and a credit for one call.\<close>

lemma attempt_applied:
  assumes ok: "inv_ok db" and row: "row_of m l v n db" and mb: "mb_model b = m"
    and res: "record_attempt env l b now db = (Inr tr, db')" and ap: "tr_status tr = APPLIED"
  shows "row_of m l v (Suc n) db' \<and> attempts_of m db' = attempts_of m db + 1"
proof -
  obtain t where t: "require_aware now = Inr t" "write_op inv_codes env (holder_work l now (attempt_act l b now t)) db = (Inr tr, db')"
    using res by (auto simp: record_attempt_def holder_action_def split: sum.splits)
  from tx.write_commit[OF t(2)] show ?thesis
  proof (cases rule: holder_work_cases)
    case refused
    then show ?thesis using ap by simp
  next
    case (acted r t')
    from acted(8) show ?thesis
    proof (cases rule: attempt_act_cases)
      case exhausted
      then show ?thesis using ap by simp
    next
      case (applied db1)
      have rows: "db_invocations db1 = db_invocations db" using applied(3) by (auto split: if_splits)
      obtain xs x ys where f: "db_invocations db1 = xs @ x # ys"
        "db' = db1\<lparr>db_invocations := xs @ x\<lparr>iv_attempt_count := iv_attempt_count r + 1, iv_updated_at := t\<rparr> # ys\<rparr>"
        "iv_invocation_id x = ls_invocation_id l" using applied(4) by (rule fenced_updateE)
      have "x = r" using f rows acted(2,3) by (intro same_id_same_row[OF ok]) auto
      moreover obtain r0 where r0: "r0 \<in> set (db_invocations db)" "iv_invocation_id r0 = ls_invocation_id l"
        "iv_identity r0 = ov_identity v" "int n \<le> iv_attempt_count r0" using row unfolding row_of_def by blast
      moreover have "r0 = r" using r0 acted(2,3) by (intro same_id_same_row[OF ok]) auto
      ultimately show ?thesis
        using f rows applied(2) mb by (auto simp: row_of_def attempts_of_def)
    qed
  qed
qed


lemma triple_attempt:
  assumes "mb_model (cf_budget cf) = m"
  shows "triple (held p m e l n c P0) (ledger_record_attempt cf tk l)
    (\<lambda>status w. if status = APPLIED then paid p m e l (Suc n) c P0 w else held p m e l n c P0 w) (held p m e l n c P0)"
proof (rule tripleI)
  fix w :: "('a, 'b) world" assume h: "held p m e l n c P0 w"
  have k: "held p m e l n c P0 (snd (ledger_record_attempt cf tk l w))" using h by (rule keeps_held[OF attempt_keeps])
  obtain res db' where r: "record_attempt (tk_sqlite tk) l (cf_budget cf) (tk_wall tk) (w_ledger w) = (res, db')" by force
  have e: "ledger_record_attempt cf tk l w = (map_sum LedgerExn tr_status res, w\<lparr>w_ledger := db'\<rparr>)"
    by (cases res) (simp_all add: ledger_record_attempt_def on_ledger_def status_only_def r)
  have "paid p m e l (Suc n) c P0 (w\<lparr>w_ledger := db'\<rparr>)" if res: "res = Inr tr" "tr_status tr = APPLIED" for tr
  proof -
    have "inv_ok (w_ledger w)" "row_of m l (version e) n (w_ledger w)" using h by (simp_all add: held_def busy_def worker_inv_def)
    from attempt_applied[OF this assms r[unfolded res(1)] res(2)]
    have "row_of m l (version e) (Suc n) db'" "attempts_of m db' = attempts_of m (w_ledger w) + 1" by auto
    then show ?thesis using k h by (auto simp: e paid_def held_def credit_def busy_def worker_inv_def)
  qed
  then show "case ledger_record_attempt cf tk l w of
      (Inr x, w') \<Rightarrow> if x = APPLIED then paid p m e l (Suc n) c P0 w' else held p m e l n c P0 w'
    | (Inl _, w') \<Rightarrow> held p m e l n c P0 w'"
    using k by (cases res) (auto simp: e)
qed

text \<open>The call uses the credit.\<close>

lemma calls_inv:
  assumes "worker_inv p m w" and "int (length cs) \<le> attempts_of m (w_ledger w)"
  shows "worker_inv p m (w\<lparr>w_calls := cs\<rparr>)"
  using assms by (simp add: worker_inv_def records_frame)

lemma triple_start_call:
  "triple (paid p m e l n c P0) (start_call t x) (\<lambda>_. held p m e l n (Suc c) P0) E"
proof (rule tripleI)
  fix w :: "('a, 'b) world" assume w: "paid p m e l n c P0 w"
  have "worker_inv p m (w\<lparr>w_active := a, w_calls := w_calls w @ [x]\<rparr>)" for a
    using w by (intro calls_inv) (auto simp: paid_def held_def busy_def credit_def)
  then show "case start_call t x w of (Inr _, w') \<Rightarrow> held p m e l n (Suc c) P0 w' | (Inl _, w') \<Rightarrow> E w'"
    using w by (simp add: start_call_def paid_def held_def busy_def)
qed

lemma end_call_keeps: "keeps p m w (snd (end_call w))"
  by (simp add: end_call_def keeps_def db_le_refl)

lemma held_weaken: "held p m e l n c P0 w \<Longrightarrow> k \<le> n \<Longrightarrow> held p m e l k c P0 w"
  unfolding held_def by (auto intro: row_of_less)

lemma paid_held: "paid p m e l n c P0 w \<Longrightarrow> held p m e l n c P0 w"
  by (simp add: paid_def)

text \<open>Where an exception leaves the item: still running, with at most the given calls made.\<close>

definition raised :: "policy \<Rightarrow> string \<Rightarrow> queued_entry \<Rightarrow> nat \<Rightarrow> nat \<Rightarrow> 'r publication list \<Rightarrow> ('m, 'r) world \<Rightarrow> bool" where
  "raised p m e lo hi P0 w \<longleftrightarrow> (\<exists>c. lo \<le> c \<and> c \<le> hi \<and> busy p m e c P0 w)"

lemma keeps_raised: "keeps p m w w' \<Longrightarrow> raised p m e lo hi P0 w \<Longrightarrow> raised p m e lo hi P0 w'"
  unfolding raised_def using keeps_busy by blast

interpretation raised: stable_assertion p m "raised p m e lo hi P0" for p m e lo hi P0
  by unfold_locales (rule keeps_raised)

lemma raisedI: "held p m e l n c P0 w \<Longrightarrow> lo \<le> c \<Longrightarrow> c \<le> hi \<Longrightarrow> raised p m e lo hi P0 w"
  unfolding raised_def held_def by blast

lemma triple_call:
  assumes "lo \<le> c" and "c < hi"
  shows "triple (paid p m e l n c P0) (call cf x) (\<lambda>_. held p m e l n (Suc c) P0) (raised p m e lo hi P0)"
  unfolding call_def
proof (rule paid.step_then, rule paid.step_then, rule triple_bind[OF triple_start_call], rule held.step_then, rule held.step_then)
  fix tk0 tk1 :: "'a tick"
  have r: "raised p m e lo hi P0 w" if "held p m e l n (Suc c) P0 w" for w :: "('a, 'b) world"
    using raisedI[OF that] assms by simp
  show "triple (held p m e l n (Suc c) P0)
     (bindW end_call (\<lambda>(timed_out, restart).
      bindW (liftW (adapter_result (tk_answer tk1))) (\<lambda>result.
      bindW (step cf) (\<lambda>tk2.
      retW (result, timed_out \<or> ic_timeout_seconds x < tk_monotonic tk2 - tk_monotonic tk0, restart)))))
     (\<lambda>_. held p m e l n (Suc c) P0) (raised p m e lo hi P0)"
  proof (rule triple_bind)
    show "triple (held p m e l n (Suc c) P0) (end_call :: ('a, 'b, _) act) (\<lambda>_. held p m e l n (Suc c) P0) (raised p m e lo hi P0)"
      using held.quiet[OF end_call_keeps] by (rule triple_conseq) (use r in auto)
    show "triple (held p m e l n (Suc c) P0)
       (case y of (timed_out, restart) \<Rightarrow>
        bindW (liftW (adapter_result (tk_answer tk1))) (\<lambda>result.
        bindW (step cf) (\<lambda>tk2.
        retW (result, timed_out \<or> ic_timeout_seconds x < tk_monotonic tk2 - tk_monotonic tk0, restart))))
       (\<lambda>_. held p m e l n (Suc c) P0) (raised p m e lo hi P0)" for y
      by (cases y) (auto intro!: held.clock_then held.step_then triple_ret r)
  qed
qed


text \<open>The failure is counted, and the reply judged, without touching the item.\<close>

lemma count_failure_keeps: "keeps p m w (snd (count_failure cf w))"
  unfolding count_failure_def by (intro kept.bind step_keeps) (simp add: Let_def keeps_def db_le_refl)

lemma judge_keeps: "keeps p m w (snd (judge_result cf dl r late w))"
  unfolding judge_result_def
  by (auto intro!: kept.bind step_keeps kept.pure split: inference_result.split interpreted.split)

lemma release_quietly_keeps: "keeps p m w (snd (release_quietly cf l reason w))"
  unfolding release_quietly_def by (intro kept.bind step_keeps kept.attempt release_keeps kept.pure)

lemma held_quiet:
  assumes "\<And>w. keeps p m w (snd (a w))" and "lo \<le> c" and "c \<le> hi"
  shows "triple (held p m e l n c P0) a (\<lambda>_. held p m e l n c P0) (raised p m e lo hi P0)"
  using held.quiet[OF assms(1)] by (rule triple_conseq) (use raisedI assms(2,3) in auto)

text \<open>
  The result of one pass: the calls it reports are the calls made, each covered by an attempt of the
  row, and a value is there only after a call.
\<close>

definition pass_post ::
  "policy \<Rightarrow> string \<Rightarrow> queued_entry \<Rightarrow> lease \<Rightarrow> nat \<Rightarrow> nat \<Rightarrow> 'r publication list \<Rightarrow> 'r attempted \<Rightarrow> ('m, 'r) world \<Rightarrow> bool" where
  "pass_post p m e l c0 hi P0 a w \<longleftrightarrow> held p m e l (at_calls a) (c0 + at_calls a) P0 w \<and> at_calls a \<le> hi
     \<and> (at_value a \<noteq> None \<longrightarrow> 1 \<le> at_calls a)
     \<and> (at_value a = None \<longrightarrow> at_outcome a \<notin> {WO_PUBLISHED, WO_SCHEDULER_ERROR, WO_LEDGER_ERROR, WO_IDLE, WO_SINK_UNAVAILABLE})"

definition step_post ::
  "policy \<Rightarrow> string \<Rightarrow> queued_entry \<Rightarrow> lease \<Rightarrow> nat \<Rightarrow> nat \<Rightarrow> 'r publication list \<Rightarrow> 'r pass \<Rightarrow> ('m, 'r) world \<Rightarrow> bool" where
  "step_post p m e l c0 n P0 x w \<longleftrightarrow>
     (case x of
        Ended a \<Rightarrow> pass_post p m e l c0 (Suc n) P0 a w
      | CallFailed calls failures f disabled \<Rightarrow> calls = Suc n \<and> held p m e l (Suc n) (c0 + Suc n) P0 w)"

lemmas ended_simps = step_post_def pass_post_def new_attempted_def

lemma triple_settle:
  assumes "lo \<le> c0" and "c0 + Suc n \<le> hi"
  shows "triple (held p m e l (Suc n) (c0 + Suc n) P0) (settle_call cf dl (Suc n) failures r late restart)
    (step_post p m e l c0 n P0) (raised p m e lo hi P0)"
proof -
  note q = triple_bind[OF held_quiet[OF _ le_trans[OF assms(1) le_add1] assms(2)]]
  show ?thesis
  proof (cases restart)
    case True
    show ?thesis
      unfolding settle_call_def if_P[OF True] by (rule q[OF count_failure_keeps], rule triple_ret) (simp add: ended_simps)
  next
    case False
    have v: "triple (held p m e l (Suc n) (c0 + Suc n) P0)
        (case verdict of
           Inr x \<Rightarrow> retW (Ended ((new_attempted WO_PUBLISHED (Suc n) failures)\<lparr>at_value := Some x\<rparr>))
         | Inl f \<Rightarrow> bindW (count_failure cf) (\<lambda>disabled. retW (CallFailed (Suc n) (failures @ [f]) f disabled)))
        (step_post p m e l c0 n P0) (raised p m e lo hi P0)" for verdict
      by (cases verdict; simp only: sum.case) (rule q[OF count_failure_keeps], (rule triple_ret, simp add: ended_simps)+)
    show ?thesis
    proof (cases "r = InferenceFailed IF_CANCELLED \<and> \<not> late")
      case True
      show ?thesis
        unfolding settle_call_def if_not_P[OF False] if_P[OF True] by (rule triple_ret) (simp add: ended_simps)
    next
      case no: False
      show ?thesis
        unfolding settle_call_def if_not_P[OF False] if_not_P[OF no] by (rule q[OF judge_keeps], rule v)
    qed
  qed
qed

text \<open>From the authorization to the end of the call.\<close>

lemma triple_attempt_call:
  assumes "lo \<le> c0" and "c0 + Suc n \<le> hi" and "mb_model (cf_budget cf) = m"
  shows "triple (held p m e l n (c0 + n) P0) (attempt_call cf l n failures prompt dl)
    (step_post p m e l c0 n P0) (raised p m e lo hi P0)"
proof -
  have lo: "lo \<le> c0 + n" and hi: "c0 + n \<le> hi" "c0 + n < hi" using assms(1,2) by simp_all
  have q: "raised p m e lo hi P0 w" if "paid p m e l (Suc n) (c0 + n) P0 w" for w :: "('a, 'b) world"
    using raisedI[OF paid_held[OF that]] lo hi by simp
  have att: "triple (held p m e l n (c0 + n) P0) (ledger_record_attempt cf tk l)
    (\<lambda>status w. if status = APPLIED then paid p m e l (Suc n) (c0 + n) P0 w else held p m e l n (c0 + n) P0 w)
    (raised p m e lo hi P0)" for tk
    using triple_attempt[OF assms(3)] by (rule triple_conseq) (use raisedI[OF _ lo hi(1)] in auto)
  have made: "triple (paid p m e l (Suc n) (c0 + n) P0)
      (bindW (call cf c) (\<lambda>(result, timed_out, restart). settle_call cf dl (Suc n) failures result timed_out restart))
      (step_post p m e l c0 n P0) (raised p m e lo hi P0)" for c
  proof (rule triple_bind[OF triple_call[OF lo hi(2)]])
    show "triple (held p m e l (Suc n) (Suc (c0 + n)) P0)
        (case x of (result, timed_out, restart) \<Rightarrow> settle_call cf dl (Suc n) failures result timed_out restart)
        (step_post p m e l c0 n P0) (raised p m e lo hi P0)" for x
      using triple_settle[OF assms(1,2)] by (cases x) simp
  qed
  have refused: "triple (held p m e l n (c0 + n) P0) (retW (Ended a)) (step_post p m e l c0 n P0) E"
    if "at_calls a = n" "at_value a = None" "at_outcome a \<in> {WO_BUDGET_REFUSED, WO_FENCED, WO_CALL_REFUSED}" for a E
    by (rule triple_ret) (use that in \<open>auto simp: step_post_def pass_post_def\<close>)
  show ?thesis
    unfolding attempt_call_def Let_def
  proof (rule held.step_then, rule triple_bind[OF att])
    fix tk :: "'a tick" and status
    show "triple (\<lambda>w. if status = APPLIED then paid p m e l (Suc n) (c0 + n) P0 w else held p m e l n (c0 + n) P0 w)
     (if status \<noteq> APPLIED
      then retW (Ended ((new_attempted (if status = BUDGET_EXHAUSTED then WO_BUDGET_REFUSED else WO_FENCED) n failures)
             \<lparr>at_lease_status := Some status\<rparr>))
      else
        bindW (step cf) (\<lambda>tk2.
        bindW (liftW (aware (tk_wall tk2))) (\<lambda>now.
        if min (of_int (pf_hard_timeout_seconds (cf_profile cf))) (total_seconds (dl - now)) \<le> 0
        then retW (Ended ((new_attempted WO_CALL_REFUSED n failures)
               \<lparr>at_refusal := Some CR_DEADLINE_UNFIT, at_release_reason := DEADLINE_EXPIRED\<rparr>))
        else
          bindW (liftW (make_inference_call (pf_model (cf_profile cf)) (pp_system prompt) (pp_user prompt)
                   (pp_response_schema prompt) (pf_output_cap_tokens (cf_profile cf)) (pf_context_tokens (cf_profile cf))
                   (pf_think (cf_profile cf))
                   (min (of_int (pf_hard_timeout_seconds (cf_profile cf))) (total_seconds (dl - now))))) (\<lambda>c.
          bindW (call cf c) (\<lambda>(result, timed_out, restart).
          settle_call cf dl (Suc n) failures result timed_out restart)))))
      (step_post p m e l c0 n P0) (raised p m e lo hi P0)"
    proof (cases "status = APPLIED")
      case True
      have "triple (paid p m e l (Suc n) (c0 + n) P0) (retW (Ended ((new_attempted WO_CALL_REFUSED n failures)
               \<lparr>at_refusal := Some CR_DEADLINE_UNFIT, at_release_reason := DEADLINE_EXPIRED\<rparr>)))
          (step_post p m e l c0 n P0) (raised p m e lo hi P0)"
        by (rule triple_ret) (auto simp: ended_simps dest!: paid_held elim: held_weaken)
      then show ?thesis using True made by (auto intro!: paid.step_then paid.clock_then q)
    next
      case False
      then show ?thesis by (auto intro!: refused simp: new_attempted_def)
    qed
  qed
qed


lemma held_peek: "triple (held p m e l n c P0) (\<lambda>w. (Inr (f w), w)) (\<lambda>_. held p m e l n c P0) E"
  by (simp add: triple_def)

lemma triple_authorize:
  assumes "lo \<le> c0" and "c0 + Suc n \<le> hi" and "mb_model (cf_budget cf) = m"
  shows "triple (held p m e l n (c0 + n) P0) (authorize_attempt cf i l repair n failures prompt tk)
    (step_post p m e l c0 n P0) (raised p m e lo hi P0)"
proof (rule tripleI)
  fix w :: "('a, 'b) world" assume h: "held p m e l n (c0 + n) P0 w"
  show "case authorize_attempt cf i l repair n failures prompt tk w of
      (Inr x, w') \<Rightarrow> step_post p m e l c0 n P0 x w' | (Inl _, w') \<Rightarrow> raised p m e lo hi P0 w'"
  proof (cases "authorize_call (tk_wall tk) (PStr i) (pf_role (cf_profile cf)) repair (pp_prompt_bound prompt) (w_scheduler w)")
    case (Inl x)
    then show ?thesis using raisedI[OF h] assms(1,2) by (simp add: authorize_attempt_def)
  next
    case (Inr x)
    obtain decision s where x: "x = (decision, s)" by (cases x)
    have "keeps p m w (snd (emit_locked (tk_sink tk) (cd_transitions decision) None (w\<lparr>w_scheduler := s\<rparr>)))"
      using authorize_steady Inr x by (intro emit_keeps) blast
    from keeps_held[OF this h] show ?thesis
      using tripleD[OF triple_attempt_call[OF assms]] unfolding authorize_attempt_def Inr x sum.case prod.case Let_def
      by (cases "cd_refusal decision"; cases "cd_call_deadline decision")
        (simp_all add: step_post_def pass_post_def refused_call_def new_attempted_def)
  qed
qed

lemma triple_attempt_once:
  assumes "lo \<le> c0" and "c0 + Suc n \<le> hi" and "mb_model (cf_budget cf) = m"
  shows "triple (held p m e l n (c0 + n) P0) (attempt_once cf i v l repair n failures)
    (step_post p m e l c0 n P0) (raised p m e lo hi P0)"
proof -
  have "c0 + n \<le> hi" "lo \<le> c0 + n" using assms(1,2) by simp_all
  then show ?thesis
    unfolding attempt_once_def
    by (intro held.step_then triple_bind[OF held_peek])
      (auto intro!: triple_ret triple_raise held.step_then triple_authorize[OF assms] raisedI
        simp: ended_simps split: option.split)
qed

text \<open>At most two passes, so at most two calls.\<close>

lemma triple_last_pass:
  assumes "lo \<le> c0" and "c0 + Suc n \<le> hi" and "mb_model (cf_budget cf) = m"
  shows "triple (held p m e l n (c0 + n) P0) (attempts_loop cf i v l True n failures)
    (pass_post p m e l c0 (Suc n) P0) (raised p m e lo hi P0)"
  by (subst attempts_loop.simps, rule triple_bind[OF triple_attempt_once[OF assms]])
    (auto intro!: triple_ret simp: ended_simps split: pass.split)

lemma triple_attempts:
  assumes "mb_model (cf_budget cf) = m"
  shows "triple (held p m e l 0 c0 P0) (attempts cf i v l) (pass_post p m e l c0 2 P0) (raised p m e c0 (c0 + 2) P0)"
proof -
  have start: "triple (held p m e l 0 c0 P0) (attempt_once cf i v l False 0 []) (step_post p m e l c0 0 P0) (raised p m e c0 (c0 + 2) P0)"
    using triple_attempt_once[of c0 c0 0 "c0 + 2" cf m] assms by simp
  have again: "triple (held p m e l 1 (c0 + 1) P0) (attempts_loop cf i v l True 1 failures) (pass_post p m e l c0 2 P0) (raised p m e c0 (c0 + 2) P0)"
    for failures using triple_last_pass[of c0 c0 1 "c0 + 2" cf m] assms by (simp add: numeral_2_eq_2)
  show ?thesis
    unfolding attempts_def attempts_loop.simps[of cf i v l False]
  proof (rule triple_bind[OF start])
    fix x :: "'b pass"
    show "triple (step_post p m e l c0 0 P0 x)
      (case x of
         Ended a \<Rightarrow> retW a
       | CallFailed calls' failures' f disabled \<Rightarrow>
           if (f = IF_MALFORMED \<or> f = IF_OUTPUT_REJECTED) \<and> \<not> False \<and> \<not> disabled
           then attempts_loop cf i v l True calls' failures'
           else retW (new_attempted WO_FAILED calls' failures')) (pass_post p m e l c0 2 P0) (raised p m e c0 (c0 + 2) P0)"
    proof (cases x)
      case (Ended a)
      then show ?thesis by (auto intro!: triple_ret simp: step_post_def pass_post_def)
    next
      case (CallFailed calls' failures' f disabled)
      show ?thesis
      proof (cases "calls' = 1")
        case True
        have post: "step_post p m e l c0 0 P0 x = held p m e l 1 (c0 + 1) P0"
          using True by (auto simp: CallFailed step_post_def fun_eq_iff)
        have "triple (held p m e l 1 (c0 + 1) P0) (retW (new_attempted WO_FAILED calls' failures') :: ('a, 'b, 'b attempted) act)
            (pass_post p m e l c0 2 P0) (raised p m e c0 (c0 + 2) P0)"
          by (rule triple_ret) (simp add: True pass_post_def new_attempted_def)
        then show ?thesis unfolding post using again True by (simp add: CallFailed)
      qed (simp add: triple_def step_post_def CallFailed)
    qed
  qed
qed

end
