(* ===== verification/Worker_Commit.thy ===== *)
theory Worker_Commit
  imports Worker_Items
begin

text \<open>
  How an item ends: the release of the lease, the failure of the item, the fenced commit and the late
  result. After each of them the running slot is free or named by the pending failure, and a result is
  published only when the ledger has accepted its completion.
\<close>

section \<open>Closing the item\<close>

text \<open>Between two items the running slot is free, or it holds the item that is still to be closed.\<close>

definition slot_ok :: "('m, 'r) world \<Rightarrow> bool" where
  "slot_ok w \<longleftrightarrow> map_option (\<lambda>e. item_id (version e)) (slot (w_scheduler w)) = w_pending_fail w"

definition settled :: "policy \<Rightarrow> string \<Rightarrow> nat \<Rightarrow> 'r publication list \<Rightarrow> ('m, 'r) world \<Rightarrow> bool" where
  "settled p m c P0 w \<longleftrightarrow> worker_inv p m w \<and> slot_ok w \<and> length (w_calls w) = c \<and> pubs w = P0"

lemma keeps_settled: "keeps p m w w' \<Longrightarrow> settled p m c P0 w \<Longrightarrow> settled p m c P0 w'"
  by (simp add: keeps_def settled_def slot_ok_def)

interpretation settled: stable_assertion p m "settled p m c P0" for p m c P0
  by unfold_locales (rule keeps_settled)

lemma steady_emit_inv:
  assumes inv: "worker_inv p m w" and st: "steady (w_scheduler w) ts s"
    and pub: "\<forall>x. pub = Some x \<longrightarrow> published p m (w_ledger w) ts x \<and> pb_invocation_id x \<notin> pb_invocation_id ` set (pubs w)"
  shows "worker_inv p m (snd (emit_locked k ts pub (w\<lparr>w_scheduler := s\<rparr>)))"
proof -
  have "worker_inv p m (snd (emit_locked k ts pub (w\<lparr>w_scheduler := s, w_versions := w_versions w\<rparr>)))"
    using st inv pub by (intro emit_inv[OF inv]) (auto simp: steady_def worker_inv_def)
  moreover have "w\<lparr>w_scheduler := s, w_versions := w_versions w\<rparr> = w\<lparr>w_scheduler := s\<rparr>" by (rule world.equality) simp_all
  ultimately show ?thesis by simp
qed

lemma fail_locked:
  assumes inv: "worker_inv p m w" and e: "slot (w_scheduler w) = Some e" "item_id (version e) = i"
    and res: "fail_item_locked tk i w = (st, w')"
  shows "worker_inv p m w' \<and> pubs w' = pubs w \<and> w_calls w' = w_calls w
    \<and> (case st of None \<Rightarrow> slot (w_scheduler w') = Some e \<and> w_pending_fail w' = Some i
       | Some x \<Rightarrow> slot (w_scheduler w') = None \<and> w_pending_fail w' = w_pending_fail w)"
proof (cases "fail (tk_wall tk) (PStr i) (w_scheduler w)")
  case (Inl x)
  then show ?thesis using assms by (auto simp: fail_item_locked_def)
next
  case (Inr x)
  obtain d s where x: "x = (d, s)" by (cases x)
  note f = fail_steady[OF slot_world[OF inv] Inr[unfolded x]]
  have "worker_inv p m (snd (emit_locked (tk_sink tk) (co_transitions d) None (w\<lparr>w_scheduler := s\<rparr>)))"
    using f by (intro steady_emit_inv[OF inv]) simp_all
  then show ?thesis using f res by (auto simp: fail_item_locked_def Inr x pubs_emit)
qed

lemma triple_fail_item:
  assumes "item_id (version e) = i"
  shows "triple (busy p m e c P0) (fail_item cf i) (\<lambda>_. settled p m c P0) E"
  unfolding fail_item_def
proof (rule busy.step_then, rule tripleI)
  fix tk :: "'a tick" and w :: "('a, 'b) world" assume b: "busy p m e c P0 w"
  obtain st w' where f: "fail_item_locked tk i w = (st, w')" by force
  have w: "worker_inv p m w" "slot (w_scheduler w) = Some e" using b by (simp_all add: busy_def)
  from fail_locked[OF w assms f] b assms
  have "settled p m c P0 w'" by (cases st) (auto simp: busy_def settled_def slot_ok_def)
  then show "case case fail_item_locked tk i w of (st, w') \<Rightarrow> (Inr st, w') of
      (Inr x, w') \<Rightarrow> settled p m c P0 w' | (Inl _, w') \<Rightarrow> E w'" by (simp add: f)
qed

text \<open>After an exception the invariant holds and nothing was published.\<close>

definition crashed :: "policy \<Rightarrow> string \<Rightarrow> nat \<Rightarrow> 'r publication list \<Rightarrow> ('m, 'r) world \<Rightarrow> bool" where
  "crashed p m c0 P0 w \<longleftrightarrow> worker_inv p m w \<and> c0 \<le> length (w_calls w) \<and> length (w_calls w) \<le> c0 + 2 \<and> pubs w = P0"

lemma busy_crashed: "busy p m e c P0 w \<Longrightarrow> c0 \<le> c \<Longrightarrow> c \<le> c0 + 2 \<Longrightarrow> crashed p m c0 P0 w"
  by (auto simp: busy_def crashed_def)

lemma settled_crashed: "settled p m c P0 w \<Longrightarrow> c0 \<le> c \<Longrightarrow> c \<le> c0 + 2 \<Longrightarrow> crashed p m c0 P0 w"
  by (auto simp: settled_def crashed_def)

lemma triple_abandon:
  assumes "item_id (version e) = i" and "c0 \<le> c" and "c \<le> c0 + 2"
  shows "triple (busy p m e c P0) (abandon cf i l reason) (\<lambda>_. settled p m c P0) (crashed p m c0 P0)"
  unfolding abandon_def
proof (rule triple_bind)
  show "triple (busy p m e c P0) (release_quietly cf l reason) (\<lambda>_. busy p m e c P0) (crashed p m c0 P0)"
    using busy.quiet[OF release_quietly_keeps] by (rule triple_conseq) (use busy_crashed assms in auto)
qed (rule triple_fail_item[OF assms(1)])

text \<open>What a report says about the world after the item.\<close>

definition item_post :: "policy \<Rightarrow> string \<Rightarrow> nat \<Rightarrow> 'r publication list \<Rightarrow> work_report \<Rightarrow> ('m, 'r) world \<Rightarrow> bool" where
  "item_post p m c0 P0 r w \<longleftrightarrow> worker_inv p m w \<and> slot_ok w \<and> c0 \<le> length (w_calls w) \<and> length (w_calls w) \<le> c0 + 2
     \<and> (wr_outcome r \<notin> {WO_SCHEDULER_ERROR, WO_LEDGER_ERROR} \<longrightarrow> length (w_calls w) = c0 + wr_calls r)
     \<and> (if wr_outcome r = WO_PUBLISHED
        then \<exists>x. pubs w = P0 @ [x] \<and> wr_item_id r = Some (pb_item_id x) \<and> wr_invocation_id r = Some (pb_invocation_id x)
        else pubs w = P0)"

lemma settled_report:
  assumes "settled p m c P0 w" and "c0 \<le> c" and "c \<le> c0 + 2" and "wr_outcome r \<noteq> WO_PUBLISHED"
    and "wr_outcome r \<notin> {WO_SCHEDULER_ERROR, WO_LEDGER_ERROR} \<Longrightarrow> c = c0 + wr_calls r"
  shows "item_post p m c0 P0 r w"
  using assms by (auto simp: settled_def item_post_def)

section \<open>Commit\<close>

definition completed_row :: "string \<Rightarrow> lease \<Rightarrow> opportunity_version \<Rightarrow> inv_db \<Rightarrow> bool" where
  "completed_row m l v db \<longleftrightarrow> (\<exists>r \<in> set (db_invocations db). iv_invocation_id r = ls_invocation_id l \<and> iv_state r = COMPLETED
     \<and> iv_model r = m \<and> 1 \<le> iv_attempt_count r \<and> iv_identity r = ov_identity v)"

lemma completed_row_mono: "completed_row m l v db \<Longrightarrow> db_le db db' \<Longrightarrow> completed_row m l v db'"
  unfolding completed_row_def by (elim bexE db_le_row) (auto simp: row_le_def)

text \<open>The ledger has applied the completion under the lease of the worker, and nothing was published for it yet.\<close>

definition won :: "policy \<Rightarrow> string \<Rightarrow> queued_entry \<Rightarrow> lease \<Rightarrow> nat \<Rightarrow> 'r publication list \<Rightarrow> ('m, 'r) world \<Rightarrow> bool" where
  "won p m e l c P0 w \<longleftrightarrow> busy p m e c P0 w \<and> completed_row m l (version e) (w_ledger w)
     \<and> ls_invocation_id l \<notin> pb_invocation_id ` set P0"

lemma keeps_won: "keeps p m w w' \<Longrightarrow> won p m e l c P0 w \<Longrightarrow> won p m e l c P0 w'"
  unfolding won_def using keeps_busy completed_row_mono by (metis keeps_def)

interpretation won: stable_assertion p m "won p m e l c P0" for p m e l c P0
  by unfold_locales (rule keeps_won)

lemma complete_applied:
  assumes ok: "inv_ok db" and row: "row_of m l v n db" and n: "1 \<le> n"
    and res: "complete_invocation env l now db = (Inr tr, db')" and ap: "tr_status tr = APPLIED"
  shows "completed_row m l v db' \<and> (\<exists>r \<in> set (db_invocations db). iv_invocation_id r = ls_invocation_id l \<and> iv_state r = CLAIMED)"
proof -
  obtain t where t: "write_op inv_codes env (holder_work l now (end_act l COMPLETED None t)) db = (Inr tr, db')"
    using res by (auto simp: complete_invocation_def holder_action_def split: sum.splits)
  from tx.write_commit[OF t] show ?thesis
  proof (cases rule: holder_work_cases)
    case refused
    then show ?thesis using ap by simp
  next
    case (acted r t')
    obtain db1 where f: "fenced_update l (\<lambda>x. x\<lparr>iv_state := COMPLETED, iv_updated_at := t, iv_ended_at := Some t,
        iv_end_reason := None\<rparr>) db = Inr db1" "db' = db1" using acted(8) by (auto simp: end_act_def bindE_eq_Inr)
    obtain xs x ys where u: "db_invocations db = xs @ x # ys"
      "db1 = db\<lparr>db_invocations := xs @ x\<lparr>iv_state := COMPLETED, iv_updated_at := t, iv_ended_at := Some t,
        iv_end_reason := None\<rparr> # ys\<rparr>" "iv_invocation_id x = ls_invocation_id l" using f(1) by (rule fenced_updateE)
    obtain r0 where r0: "r0 \<in> set (db_invocations db)" "iv_invocation_id r0 = ls_invocation_id l"
      "iv_identity r0 = ov_identity v" "iv_model r0 = m" "int n \<le> iv_attempt_count r0" using row unfolding row_of_def by blast
    have "r0 = x" using r0 u by (intro same_id_same_row[OF ok]) auto
    then show ?thesis using r0 u f(2) n acted(2-4) by (auto simp: completed_row_def)
  qed
qed

lemma triple_complete:
  assumes "1 \<le> n"
  shows "triple (held p m e l n c P0) (ledger_complete tk l)
    (\<lambda>status w. if status = APPLIED then won p m e l c P0 w else busy p m e c P0 w) (busy p m e c P0)"
proof (rule tripleI)
  fix w :: "('a, 'b) world" assume h: "held p m e l n c P0 w"
  have k: "busy p m e c P0 (snd (ledger_complete tk l w))" using held_inv(2)[OF h] by (rule keeps_busy[OF complete_keeps])
  obtain res db' where r: "complete_invocation (tk_sqlite tk) l (tk_wall tk) (w_ledger w) = (res, db')" by force
  have e: "ledger_complete tk l w = (map_sum LedgerExn tr_status res, w\<lparr>w_ledger := db'\<rparr>)"
    by (cases res) (simp_all add: ledger_complete_def on_ledger_def status_only_def r)
  have ok: "inv_ok (w_ledger w)" "row_of m l (version e) n (w_ledger w)" and P0: "pubs w = P0" and inv: "worker_inv p m w"
    using h held_inv(1)[OF h] by (auto simp: held_def busy_def worker_inv_def)
  have "won p m e l c P0 (w\<lparr>w_ledger := db'\<rparr>)" if res: "res = Inr tr" "tr_status tr = APPLIED" for tr
  proof -
    note c = complete_applied[OF ok assms r[unfolded res(1)] res(2)]
    have "ls_invocation_id l \<noteq> pb_invocation_id x" if pub: "x \<in> set P0" for x
    proof -
      obtain ts where "(ts, Some x) \<in> set (records w)" using pub unfolding P0[symmetric] pubs_def map_filter_set by force
      then have "published p m (w_ledger w) ts x" using inv by (fastforce simp: worker_inv_def)
      then obtain r where "r \<in> set (db_invocations (w_ledger w))" "iv_invocation_id r = pb_invocation_id x" "iv_state r = COMPLETED"
        unfolding published_def by blast
      then show ?thesis using c same_id_same_row[OF ok(1)] by (metis invocation_state.distinct(1))
    qed
    then show ?thesis using c k by (auto simp: won_def e)
  qed
  then show "case ledger_complete tk l w of
      (Inr x, w') \<Rightarrow> if x = APPLIED then won p m e l c P0 w' else busy p m e c P0 w' | (Inl _, w') \<Rightarrow> busy p m e c P0 w'"
    using k by (cases res) (auto simp: e)
qed


text \<open>The scheduler completes the item: the publication, if any, is recorded with it.\<close>

lemma triple_commit_completed:
  assumes e: "item_id (version e) = ds_item_id d" and c: "c = c0 + at_calls a" "at_calls a \<le> 2" and m: "pf_model (cf_profile (cf :: ('m, 'r) config)) = m"
  shows "triple (won p m e l c P0) (commit_completed cf d l x a status) (item_post p m c0 P0) (crashed p m c0 P0)"
  unfolding commit_completed_def Let_def
proof (rule won.step_then, rule tripleI)
  fix tk :: "'m tick" and w :: "('m, 'r) world" assume won: "won p m e l c P0 w"
  then have inv: "worker_inv p m w" and b: "slot (w_scheduler w) = Some e" "w_pending_fail w = None" "length (w_calls w) = c" "pubs w = P0"
    by (simp_all add: won_def busy_def)
  let ?i = "ds_item_id d"
  let ?pub = "\<lambda>completion. if co_publishable completion
    then Some \<lparr>pb_item_id = ?i, pb_invocation_id = ls_invocation_id l, pb_profile_id = pf_profile_id (cf_profile cf),
      pb_model = pf_model (cf_profile cf), pb_value = x\<rparr> else None"
  show "case case complete (tk_wall tk) (PStr ?i) (w_scheduler w) of
          Inl _ \<Rightarrow> (Inr (tell a (item_report WO_SCHEDULER_ERROR ?i (Some l) None)), w\<lparr>w_pending_fail := Some ?i\<rparr>)
        | Inr (completion, s) \<Rightarrow>
            (Inr ((tell a (item_report (if co_publishable completion then WO_PUBLISHED else WO_ABORT_STALE) ?i (Some l)
                     (Some (co_state completion))))\<lparr>wr_lease_status := Some status\<rparr>),
             snd (emit_locked (tk_sink tk) (co_transitions completion) (?pub completion) (w\<lparr>w_scheduler := s\<rparr>))) of
      (Inr r, w') \<Rightarrow> item_post p m c0 P0 r w' | (Inl _, w') \<Rightarrow> crashed p m c0 P0 w'"
  proof (cases "complete (tk_wall tk) (PStr ?i) (w_scheduler w)")
    case (Inl y)
    then show ?thesis
      using inv b c e by (auto simp: item_post_def slot_ok_def tell_def item_report_def new_report_def)
  next
    case (Inr y)
    obtain co s where y: "y = (co, s)" by (cases y)
    note cs = complete_steady[OF slot_world[OF inv] Inr[unfolded y]]
    have on: "deadline e = origin_of (version e) + seconds (analysis_deadline_seconds (limits_of p (ov_horizon (version e))))"
      using inv b(1) by (auto simp: worker_inv_def timed_inv_def entries_def slot_def on_time_def)
    have "published p m (w_ledger w) (co_transitions co) z \<and> pb_invocation_id z \<notin> pb_invocation_id ` set (pubs w)"
      if "?pub co = Some z" for z
    proof -
      have z: "co_publishable co" "pb_item_id z = ?i" "pb_invocation_id z = ls_invocation_id l" "pb_model z = m"
        using that m by (auto split: if_splits)
      obtain t where t: "t \<in> set (co_transitions co)" "st_item_id t = ?i" "st_state t = IS_COMPLETED" "st_at t < deadline e"
        using cs b(1) e z(1) by auto
      obtain r where r: "r \<in> set (db_invocations (w_ledger w))" "iv_invocation_id r = ls_invocation_id l" "iv_state r = COMPLETED"
        "iv_model r = m" "1 \<le> iv_attempt_count r" "iv_identity r = ov_identity (version e)"
        using won by (auto simp: won_def completed_row_def)
      have "published p m (w_ledger w) (co_transitions co) z"
        unfolding published_def using r t z e on by (intro exI[of _ r] exI[of _ "version e"] exI[of _ t]) simp
      then show ?thesis using won b(4) z by (simp add: won_def)
    qed
    then have "worker_inv p m (snd (emit_locked (tk_sink tk) (co_transitions co) (?pub co) (w\<lparr>w_scheduler := s\<rparr>)))"
      using cs by (intro steady_emit_inv[OF inv]) blast+
    then show ?thesis
      using b c cs unfolding Inr y sum.case prod.case
      by (simp add: item_post_def slot_ok_def tell_def item_report_def new_report_def pubs_emit)
  qed
qed

lemma triple_commit_late:
  assumes e: "item_id (version e) = ds_item_id d" and c: "c = c0 + at_calls a" "at_calls a \<le> 2"
  shows "triple (busy p m e c P0) (commit_late (cf :: ('m, 'r) config) d l a) (item_post p m c0 P0) (crashed p m c0 P0)"
  unfolding commit_late_def Let_def
proof (rule triple_bind)
  show "triple (busy p m e c P0) (release_quietly cf l DEADLINE_EXPIRED) (\<lambda>_. busy p m e c P0) (crashed p m c0 P0)"
    using busy.quiet[OF release_quietly_keeps] by (rule triple_conseq) (use busy_crashed[of p m e c P0 _ c0] c in auto)
  fix u
  show "triple (busy p m e c P0) (bindW (step cf) (\<lambda>tk w.
        case complete (tk_wall tk) (PStr (ds_item_id d)) (w_scheduler w) of
          Inl _ \<Rightarrow> (Inr (tell a (item_report WO_ABORT_STALE (ds_item_id d) (Some l) None)), w\<lparr>w_pending_fail := Some (ds_item_id d)\<rparr>)
        | Inr (late, s) \<Rightarrow>
            (Inr (tell a (item_report WO_ABORT_STALE (ds_item_id d) (Some l) (Some (co_state late)))),
             snd (emit_locked (tk_sink tk) (co_transitions late) None (w\<lparr>w_scheduler := s\<rparr>)))))
    (item_post p m c0 P0) (crashed p m c0 P0)"
  proof (rule busy.step_then, rule tripleI)
    fix tk :: "'m tick" and w :: "('m, 'r) world" assume b: "busy p m e c P0 w"
    then have inv: "worker_inv p m w" by (simp add: busy_def)
    show "case case complete (tk_wall tk) (PStr (ds_item_id d)) (w_scheduler w) of
          Inl _ \<Rightarrow> (Inr (tell a (item_report WO_ABORT_STALE (ds_item_id d) (Some l) None)), w\<lparr>w_pending_fail := Some (ds_item_id d)\<rparr>)
        | Inr (late, s) \<Rightarrow>
            (Inr (tell a (item_report WO_ABORT_STALE (ds_item_id d) (Some l) (Some (co_state late)))),
             snd (emit_locked (tk_sink tk) (co_transitions late) None (w\<lparr>w_scheduler := s\<rparr>))) of
      (Inr r, w') \<Rightarrow> item_post p m c0 P0 r w' | (Inl _, w') \<Rightarrow> crashed p m c0 P0 w'"
    proof (cases "complete (tk_wall tk) (PStr (ds_item_id d)) (w_scheduler w)")
      case (Inl y)
      then show ?thesis
        using b c e by (auto simp: busy_def item_post_def slot_ok_def tell_def item_report_def new_report_def)
    next
      case (Inr y)
      obtain co s where y: "y = (co, s)" by (cases y)
      note cs = complete_steady[OF slot_world[OF inv] Inr[unfolded y]]
      have "worker_inv p m (snd (emit_locked (tk_sink tk) (co_transitions co) None (w\<lparr>w_scheduler := s\<rparr>)))"
        using cs by (intro steady_emit_inv[OF inv]) simp_all
      then show ?thesis
        using b c cs unfolding Inr y sum.case prod.case
        by (simp add: busy_def item_post_def slot_ok_def tell_def item_report_def new_report_def pubs_emit)
    qed
  qed
qed


lemma triple_commit:
  assumes e: "item_id (version e) = ds_item_id d" and c: "1 \<le> at_calls a" "at_calls a \<le> 2"
    and m: "pf_model (cf_profile (cf :: ('m, 'r) config)) = m"
  shows "triple (held p m e l (at_calls a) (c0 + at_calls a) P0) (commit cf d l x a) (item_post p m c0 P0) (crashed p m c0 P0)"
proof -
  let ?c = "c0 + at_calls a" and ?i = "ds_item_id d"
  have cr: "crashed p m c0 P0 w" if "busy p m e ?c P0 w" for w :: "('m, 'r) world"
    using busy_crashed[OF that] c by simp
  have late: "triple (held p m e l (at_calls a) ?c P0) (commit_late cf d l a) (item_post p m c0 P0) (crashed p m c0 P0)"
    using triple_commit_late[OF e refl c(2)] by (rule triple_conseq) (use held_inv in auto)
  have report: "triple (busy p m e ?c P0) (bindW f (\<lambda>st. retW (g st))) (item_post p m c0 P0) (crashed p m c0 P0)"
    if "triple (busy p m e ?c P0) f (\<lambda>_. settled p m ?c P0) (crashed p m c0 P0)"
      "\<And>st. wr_outcome (g st) \<noteq> WO_PUBLISHED" "\<And>st. wr_calls (g st) = at_calls a"
    for f :: "('m, 'r, item_state option) act" and g
    by (rule triple_bind[OF that(1)], rule triple_ret) (use c that(2,3) in \<open>auto intro!: settled_report[where c = ?c]\<close>)
  have compl: "triple (held p m e l (at_calls a) ?c P0)
      (tryW (ledger_complete tk2 l)
          (\<lambda>code. bindW (abandon cf ?i l FAILED) (\<lambda>st.
             retW ((tell a (item_report WO_LEDGER_ERROR ?i (Some l) st))\<lparr>wr_ledger_failure := Some code\<rparr>)))
          (\<lambda>status.
             if status \<noteq> APPLIED
             then bindW (fail_item cf ?i) (\<lambda>st.
               retW ((tell a (item_report WO_FENCED ?i (Some l) st))\<lparr>wr_lease_status := Some status\<rparr>))
             else commit_completed cf d l x a status))
      (item_post p m c0 P0) (crashed p m c0 P0)" for tk2 :: "'m tick"
  proof (rule triple_try[OF triple_complete[OF c(1)] cr])
    show "triple (busy p m e ?c P0) (bindW (abandon cf ?i l FAILED) (\<lambda>st.
        retW ((tell a (item_report WO_LEDGER_ERROR ?i (Some l) st))\<lparr>wr_ledger_failure := Some code\<rparr>)))
      (item_post p m c0 P0) (crashed p m c0 P0)" for code
      using c(2) by (intro report triple_abandon[OF e]) (simp_all add: tell_def item_report_def new_report_def)
    show "triple (\<lambda>w. if status = APPLIED then won p m e l ?c P0 w else busy p m e ?c P0 w)
        (if status \<noteq> APPLIED
             then bindW (fail_item cf ?i) (\<lambda>st.
               retW ((tell a (item_report WO_FENCED ?i (Some l) st))\<lparr>wr_lease_status := Some status\<rparr>))
             else commit_completed cf d l x a status)
        (item_post p m c0 P0) (crashed p m c0 P0)" for status
    proof (cases "status = APPLIED")
      case True
      then show ?thesis using triple_commit_completed[OF e refl c(2) m] by simp
    next
      case False
      have "triple (busy p m e ?c P0) (bindW (fail_item cf ?i) (\<lambda>st.
          retW ((tell a (item_report WO_FENCED ?i (Some l) st))\<lparr>wr_lease_status := Some status\<rparr>)))
          (item_post p m c0 P0) (crashed p m c0 P0)"
        by (intro report triple_fail_item[OF e]) (simp_all add: tell_def item_report_def new_report_def)
      then show ?thesis using False by simp
    qed
  qed
  show ?thesis
    unfolding commit_def Let_def
    by (intro held.step_then held.clock_then) (auto intro!: late held.step_then compl cr held_inv)
qed

end
