(* ===== verification/Worker_Run.thy ===== *)
theory Worker_Run
  imports Worker_Commit
begin

text \<open>
  The triples of a whole item and of one call of \<^verbatim>\<open>process_next\<close>: from the claim over the attempts to the
  report, and the refusals on the way.
\<close>

section \<open>Running one item\<close>

lemma triple_report:
  assumes "triple P f (\<lambda>_. settled p m c P0) (crashed p m c0 P0)" and "c0 \<le> c" and "c \<le> c0 + 2"
    and "\<And>st. wr_outcome (g st) \<noteq> WO_PUBLISHED"
    and "\<And>st. wr_outcome (g st) \<notin> {WO_SCHEDULER_ERROR, WO_LEDGER_ERROR} \<Longrightarrow> c = c0 + wr_calls (g st)"
  shows "triple P (bindW f (\<lambda>st. retW (g st))) (item_post p m c0 P0) (crashed p m c0 P0)"
  by (rule triple_bind[OF assms(1)], rule triple_ret) (use assms(2-) in \<open>blast intro: settled_report\<close>)

lemmas report_simps = tell_def item_report_def new_report_def

lemma triple_give_up:
  assumes e: "item_id (version e) = ds_item_id d" and c: "at_calls a \<le> 2"
    and out: "at_outcome a \<notin> {WO_PUBLISHED, WO_SCHEDULER_ERROR, WO_LEDGER_ERROR, WO_IDLE, WO_SINK_UNAVAILABLE}"
  shows "triple (busy p m e (c0 + at_calls a) P0) (give_up cf d l a) (item_post p m c0 P0) (crashed p m c0 P0)"
  unfolding give_up_def Let_def
proof (rule triple_bind)
  let ?c = "c0 + at_calls a"
  show "triple (busy p m e ?c P0)
    (if at_release_reason a = FAILED
     then bindW (step cf) (\<lambda>tk. bindW (liftW (aware (tk_wall tk))) (\<lambda>now.
            retW (if ds_deadline d \<le> now then DEADLINE_EXPIRED else FAILED)))
     else retW (at_release_reason a)) (\<lambda>_. busy p m e ?c P0) (crashed p m c0 P0)"
    using c by (auto intro!: busy.step_then busy.clock_then triple_ret busy_crashed[where c = ?c])
  show "triple (busy p m e ?c P0) (bindW (abandon cf (ds_item_id d) l reason) (\<lambda>st.
      retW ((tell a (item_report (at_outcome a) (ds_item_id d) (Some l) st))
             \<lparr>wr_call_refusal := at_refusal a, wr_lease_status := at_lease_status a\<rparr>)))
    (item_post p m c0 P0) (crashed p m c0 P0)" for reason
    using c out by (intro triple_report[where c = ?c] triple_abandon[OF e]) (auto simp: report_simps)
qed

lemma triple_hold:
  assumes e: "item_id (version e) = ds_item_id d" and m: "pf_model (cf_profile (cf :: ('m, 'r) config)) = m"
    and mb: "mb_model (cf_budget cf) = m"
  shows "triple (held p m e l 0 c0 P0) (hold_item cf d v l) (item_post p m c0 P0) (crashed p m c0 P0)"
proof (rule tripleI)
  fix w :: "('m, 'r) world" assume h: "held p m e l 0 c0 P0 w"
  let ?i = "ds_item_id d"
  let ?post = "\<lambda>res. case res of (Inr r, w') \<Rightarrow> item_post p m c0 P0 r w' | (Inl _, w') \<Rightarrow> crashed p m c0 P0 w'"
  obtain res w1 where r: "attempts cf ?i v l w = (res, w1)" by force
  note at = tripleD[OF triple_attempts[OF mb] h, of ?i v, unfolded r prod.case]
  show "?post (hold_item cf d v l w)"
  proof (cases res)
    case (Inl ex)
    then obtain c where c: "c0 \<le> c" "c \<le> c0 + 2" and b: "busy p m e c P0 w1" using at by (auto simp: raised_def)
    have rep: "?post (bindW (abandon cf ?i l FAILED) (\<lambda>st. retW (g st)) w1)"
      if "\<And>st. wr_outcome (g st) \<in> {WO_SCHEDULER_ERROR, WO_LEDGER_ERROR}" for g
    proof (rule tripleD[OF triple_report[OF triple_abandon[OF e c] c] b])
      show "wr_outcome (g st) \<noteq> WO_PUBLISHED" for st using that[of st] by auto
    qed (use that in blast)
    have raise: "?post (bindW (abandon cf ?i l FAILED) (\<lambda>_. raiseW ex') w1)" for ex'
      by (rule tripleD[OF triple_bind[OF triple_abandon[OF e c]] b], rule triple_raise) (use settled_crashed c in blast)
    show ?thesis
    proof (cases ex)
      case (SchedulerExn x)
      then show ?thesis by (simp add: hold_item_def Let_def r Inl) (rule rep, simp add: report_simps)
    next
      case (LedgerExn x)
      show ?thesis
      proof (cases x)
        case (InvocationError code)
        then show ?thesis by (simp add: hold_item_def Let_def r Inl LedgerExn) (rule rep, simp add: report_simps)
      qed (use raise LedgerExn in \<open>simp add: hold_item_def Let_def r Inl\<close>)
    qed (use raise in \<open>simp_all add: hold_item_def Let_def r Inl\<close>)
  next
    case (Inr a)
    then have p: "pass_post p m e l c0 2 P0 a w1" using at by simp
    then have hw: "held p m e l (at_calls a) (c0 + at_calls a) P0 w1" "at_calls a \<le> 2" by (simp_all add: pass_post_def)
    show ?thesis
    proof (cases "at_value a")
      case None
      then show ?thesis
        using tripleD[OF triple_give_up[OF e hw(2)] held_inv(2)[OF hw(1)]] p by (simp add: hold_item_def Let_def r Inr pass_post_def)
    next
      case (Some x)
      then have "1 \<le> at_calls a" using p by (simp add: pass_post_def)
      then show ?thesis
        using tripleD[OF triple_commit[OF e _ hw(2) m] hw(1)] Some by (simp add: hold_item_def Let_def r Inr)
    qed
  qed
qed

text \<open>A successful claim gives a lease on a row made for the identity of the version.\<close>

lemma map_sum_Inr: "map_sum f g x = Inr y \<longleftrightarrow> (\<exists>z. x = Inr z \<and> y = g z)"
  by (cases x) auto

lemma claim_row:
  assumes "claim_invocation env rq b owner now secs new_id db = (Inr (Claimed l u), db')"
  shows "mb_model b = rq_model rq \<and> (\<exists>r \<in> set (db_invocations db'). iv_invocation_id r = ls_invocation_id l
    \<and> iv_identity r = rq_identity rq \<and> iv_model r = rq_model rq \<and> iv_attempt_count r = 0)"
proof -
  obtain t expires o' w where m: "mb_model b = rq_model rq" and "claim_work rq b o' t expires w new_id db = Inr (Claimed l u, db')"
    using claim_commit[OF assms] by blast
  from this(2) show ?thesis
  proof (cases rule: claim_work_cases)
    case (claimed l' u' r)
    then have "ls_invocation_id l = new_id" by (auto simp: make_lease_Inr)
    then show ?thesis using claimed m by (auto simp: fresh_row_def)
  qed simp_all
qed

definition claim_post ::
  "policy \<Rightarrow> string \<Rightarrow> string \<Rightarrow> queued_entry \<Rightarrow> nat \<Rightarrow> 'r publication list \<Rightarrow> claim_result \<Rightarrow> ('m, 'r) world \<Rightarrow> bool" where
  "claim_post p m b e c P0 claim w \<longleftrightarrow>
     (case claim of Claimed l u \<Rightarrow> b = m \<and> held p m e l 0 c P0 w | _ \<Rightarrow> busy p m e c P0 w)"

lemma triple_claim:
  assumes "pf_model (cf_profile (cf :: ('m, 'r) config)) = m"
  shows "triple (busy p m e c P0) (ledger_claim cf tk (ov_identity (version e)) n)
    (claim_post p m (mb_model (cf_budget cf)) e c P0) (busy p m e c P0)"
proof (rule tripleI)
  fix w :: "('m, 'r) world" assume b: "busy p m e c P0 w"
  obtain res w1 where r: "ledger_claim cf tk (ov_identity (version e)) n w = (res, w1)" by force
  have b1: "busy p m e c P0 w1" using keeps_busy[OF claim_keeps b, of cf tk "ov_identity (version e)" n] r by simp
  have "claim_post p m (mb_model (cf_budget cf)) e c P0 x w1" if x: "res = Inr x" for x
  proof (cases x)
    case (Claimed l u)
    obtain rq db' where q: "make_request (ov_identity (version e)) (PStr m) = Inr rq"
      "claim_invocation (tk_sqlite tk) rq (cf_budget cf) (cf_owner cf) (tk_wall tk) (PInt n) (tk_new_id tk) (w_ledger w) = (Inr (Claimed l u), db')"
      "w1 = w\<lparr>w_ledger := db'\<rparr>"
      using r x Claimed assms by (auto simp: ledger_claim_def on_ledger_def map_sum_Inr split: sum.splits prod.splits)
    have rq: "rq_identity rq = ov_identity (version e)" "rq_model rq = m" using q(1) by (auto simp: make_request_def bindE_eq_Inr split: if_splits)
    from claim_row[OF q(2)] show ?thesis
      using b1 rq q(3) by (auto simp: Claimed claim_post_def held_def row_of_def)
  qed (use b1 in \<open>simp_all add: claim_post_def\<close>)
  then show "case ledger_claim cf tk (ov_identity (version e)) n w of
      (Inr x, w') \<Rightarrow> claim_post p m (mb_model (cf_budget cf)) e c P0 x w' | (Inl _, w') \<Rightarrow> busy p m e c P0 w'"
    using b1 by (cases res) (simp_all add: r)
qed

lemma triple_run_item:
  assumes e: "item_id (version e) = ds_item_id d" and m: "pf_model (cf_profile (cf :: ('m, 'r) config)) = m"
  shows "triple (busy p m e c0 P0) (run_item cf d (version e)) (item_post p m c0 P0) (crashed p m c0 P0)"
proof -
  have cr: "crashed p m c0 P0 w" if "busy p m e c0 P0 w" for w :: "('m, 'r) world" using busy_crashed[OF that] by simp
  have rep: "triple (busy p m e c0 P0) (bindW (fail_item cf (ds_item_id d)) (\<lambda>st. retW (g st))) (item_post p m c0 P0) (crashed p m c0 P0)"
    if "\<And>st. wr_outcome (g st) \<noteq> WO_PUBLISHED" "\<And>st. wr_calls (g st) = 0" for g
    by (rule triple_report[OF triple_fail_item[OF e]]) (use that in simp_all)
  have peek: "triple (busy p m e c0 P0) (\<lambda>w. (Inr (f w), w)) (\<lambda>_. busy p m e c0 P0) (crashed p m c0 P0)"
    for f :: "('m, 'r) world \<Rightarrow> 'a" by (simp add: triple_def)
  have claimed: "triple (claim_post p m (mb_model (cf_budget cf)) e c0 P0 claim)
      (case claim of
           Claimed l _ \<Rightarrow> hold_item cf d (version e) l
         | Duplicate _ _ \<Rightarrow> bindW (fail_item cf (ds_item_id d)) (\<lambda>st. retW (item_report WO_CLAIM_DUPLICATE (ds_item_id d) None st))
         | Refused _ _ \<Rightarrow> bindW (fail_item cf (ds_item_id d)) (\<lambda>st. retW (item_report WO_BUDGET_REFUSED (ds_item_id d) None st)))
      (item_post p m c0 P0) (crashed p m c0 P0)" for claim
  proof (cases claim)
    case (Claimed l u)
    show ?thesis
    proof (cases "mb_model (cf_budget cf) = m")
      case True
      have "claim_post p m (mb_model (cf_budget cf)) e c0 P0 claim = (held p m e l 0 c0 P0 :: ('m, 'r) world \<Rightarrow> bool)"
        using True by (auto simp: Claimed claim_post_def fun_eq_iff)
      then show ?thesis using triple_hold[OF e m True] by (simp add: Claimed)
    qed (simp add: Claimed triple_def claim_post_def)
  next
    case (Duplicate i n)
    have "claim_post p m (mb_model (cf_budget cf)) e c0 P0 claim = (busy p m e c0 P0 :: ('m, 'r) world \<Rightarrow> bool)"
      by (auto simp: Duplicate claim_post_def fun_eq_iff)
    then show ?thesis using rep by (simp add: Duplicate report_simps)
  next
    case (Refused i n)
    have "claim_post p m (mb_model (cf_budget cf)) e c0 P0 claim = (busy p m e c0 P0 :: ('m, 'r) world \<Rightarrow> bool)"
      by (auto simp: Refused claim_post_def fun_eq_iff)
    then show ?thesis using rep by (simp add: Refused report_simps)
  qed
  show ?thesis
    unfolding run_item_def Let_def
  proof (rule busy.step_then, rule busy.clock_then, rule busy.step_then, rule triple_bind[OF peek])
    fix now n and tk2 :: "'m tick"
    show "triple (busy p m e c0 P0)
      (tryW (ledger_claim cf tk2 (ov_identity (version e)) (lease_seconds n (ds_deadline d) now))
        (\<lambda>code. bindW (fail_item cf (ds_item_id d)) (\<lambda>st.
           retW ((item_report WO_LEDGER_ERROR (ds_item_id d) None st)\<lparr>wr_ledger_failure := Some code\<rparr>)))
        (\<lambda>claim. case claim of
           Claimed l _ \<Rightarrow> hold_item cf d (version e) l
         | Duplicate _ _ \<Rightarrow> bindW (fail_item cf (ds_item_id d)) (\<lambda>st. retW (item_report WO_CLAIM_DUPLICATE (ds_item_id d) None st))
         | Refused _ _ \<Rightarrow> bindW (fail_item cf (ds_item_id d)) (\<lambda>st. retW (item_report WO_BUDGET_REFUSED (ds_item_id d) None st))))
      (item_post p m c0 P0) (crashed p m c0 P0)"
      by (rule triple_try[OF triple_claim[OF m] cr rep claimed]) (simp_all add: report_simps)
  qed (rule cr)
qed


section \<open>Processing\<close>

lemma slot_free: "slot_ok w \<Longrightarrow> w_pending_fail w = None \<Longrightarrow> slot (w_scheduler w) = None"
  by (simp add: slot_ok_def)

lemma triple_dispatch_next:
  assumes m: "pf_model (cf_profile (cf :: ('m, 'r) config)) = m"
  shows "triple (\<lambda>w. settled p m c0 P0 w \<and> w_pending_fail w = None) (dispatch_next cf) (item_post p m c0 P0) (crashed p m c0 P0)"
proof (rule tripleI)
  fix w0 :: "('m, 'r) world" assume s0: "settled p m c0 P0 w0 \<and> w_pending_fail w0 = None"
  let ?post = "\<lambda>res. case res of (Inr r, w') \<Rightarrow> item_post p m c0 P0 r w' | (Inl _, w') \<Rightarrow> crashed p m c0 P0 w'"
  obtain tk w where rd: "reading cf w0 = (Inr tk, w)" by (simp add: reading_def)
  have k: "keeps p m w0 w" using reading_keeps[of p m w0 cf] rd by simp
  then have st: "settled p m c0 P0 w" "w_pending_fail w = None" using s0 keeps_settled[OF k] k[unfolded keeps_def] by simp_all
  then have inv: "worker_inv p m w" and free: "slot (w_scheduler w) = None" by (auto simp: settled_def slot_free)
  have plain: "item_post p m c0 P0 r w'" if "settled p m c0 P0 w'" "wr_outcome r \<noteq> WO_PUBLISHED" "wr_calls r = 0" for r and w' :: "('m, 'r) world"
    using that by (intro settled_report) auto
  show "?post (dispatch_next cf w0)"
  proof (cases "dispatch (tk_wall tk) (w_scheduler w)")
    case (Inl x)
    then show ?thesis using plain[OF st(1)] by (simp add: dispatch_next_def bindW_def rd report_simps)
  next
    case (Inr x)
    obtain res s where x: "x = (res, s)" by (cases x)
    define w1 where "w1 = snd (emit_locked (tk_sink tk) (dr_transitions res) None (w\<lparr>w_scheduler := s\<rparr>))"
    note ds = dispatch_steady[OF slot_world[OF inv] Inr[unfolded x]]
    have inv1: "worker_inv p m w1" unfolding w1_def using ds by (intro steady_emit_inv[OF inv]) simp_all
    have f1: "w_pending_fail w1 = None" "length (w_calls w1) = c0" "pubs w1 = P0" "w_scheduler w1 = s"
      using st by (simp_all add: w1_def settled_def pubs_emit)
    show ?thesis
    proof (cases "dr_dispatched res")
      case None
      then have "settled p m c0 P0 w1" using ds free inv1 f1 by (simp add: settled_def slot_ok_def)
      then show ?thesis
        using plain None by (simp add: dispatch_next_def bindW_def rd Inr x Let_def report_simps flip: w1_def)
    next
      case (Some d)
      obtain e where e: "slot s = Some e" "(ds_item_id d, e) \<in> set (queue (w_scheduler w))" "item_id (version e) = ds_item_id d"
        using ds Some by auto
      have b: "busy p m e c0 P0 w1" using inv1 f1 e(1) by (simp add: busy_def)
      have stopped: "?post (bindW (reading cf) (\<lambda>tk' w2. case fail_item_locked tk' (ds_item_id d) w2 of (st, w3) \<Rightarrow>
            (Inr (item_report outcome (ds_item_id d) None st), w3)) w1)" if "outcome \<noteq> WO_PUBLISHED" for outcome
      proof -
        obtain tk' w2 where rd2: "reading cf w1 = (Inr tk', w2)" by (simp add: reading_def)
        have b2: "busy p m e c0 P0 w2" using keeps_busy[OF reading_keeps b, of cf] rd2 by simp
        obtain st w3 where f: "fail_item_locked tk' (ds_item_id d) w2 = (st, w3)" by force
        have "settled p m c0 P0 w3"
          using fail_locked[of p m w2 e "ds_item_id d", OF _ _ e(3) f] b2 e(3) by (cases st) (auto simp: busy_def settled_def slot_ok_def)
        then show ?thesis using plain that by (simp add: bindW_def rd2 f report_simps)
      qed
      have run: "?post (run_item cf d (version e) w1)" by (rule tripleD[OF triple_run_item[OF e(3) m] b])
      have "\<forall>t \<in> set (dr_transitions res). \<not> closes (ds_item_id d) t"
        using ds Some e by (auto simp: steady_def accounted_def)
      then have v: "w_versions w1 (ds_item_id d) = Some (version e)"
        using inv e(2) pop_closed_keeps by (fastforce simp: w1_def worker_inv_def)
      have "stop_outcome cf d w1 \<noteq> Some WO_PUBLISHED" by (simp add: stop_outcome_def)
      then have pick: "?post (case (stop_outcome cf d w1, w_versions w1 (ds_item_id d)) of
                  (None, Some v) \<Rightarrow> run_item cf d v w1
                | (stop, _) \<Rightarrow>
                    bindW (reading cf) (\<lambda>tk' w2.
                      case fail_item_locked tk' (ds_item_id d) w2 of (st, w3) \<Rightarrow>
                      (Inr (item_report (case stop of None \<Rightarrow> WO_FAILED | Some x \<Rightarrow> x) (ds_item_id d) None st), w3)) w1)"
        using stopped run v by (cases "stop_outcome cf d w1") simp_all
      show ?thesis
        unfolding dispatch_next_def bindW_def[of "reading cf" _ w0] rd prod.case sum.case Inr x Let_def Some option.case
          w1_def[symmetric] by (rule pick[unfolded prod.case option.case])
    qed
  qed
qed

text \<open>One call of \<^verbatim>\<open>process_next\<close>, from a settled world.\<close>

lemma triple_retry:
  "triple (settled p m c0 P0) (retry_pending_fail cf)
    (\<lambda>ready w. settled p m c0 P0 w \<and> (ready \<longrightarrow> w_pending_fail w = None)) E"
proof (rule tripleI)
  fix w :: "('a, 'b) world" assume s: "settled p m c0 P0 w"
  show "case retry_pending_fail cf w of
      (Inr ready, w') \<Rightarrow> settled p m c0 P0 w' \<and> (ready \<longrightarrow> w_pending_fail w' = None) | (Inl _, w') \<Rightarrow> E w'"
  proof (cases "w_pending_fail w")
    case None
    then show ?thesis using s by (simp add: retry_pending_fail_def)
  next
    case (Some i)
    obtain tk w1 where rd: "reading cf w = (Inr tk, w1)" by (simp add: reading_def)
    have k: "keeps p m w w1" using reading_keeps[of p m w cf] rd by simp
    note s1 = keeps_settled[OF k s]
    have i: "w_pending_fail w1 = Some i" using k Some by (simp add: keeps_def)
    then obtain e where e: "slot (w_scheduler w1) = Some e" "item_id (version e) = i"
      using s1 by (auto simp: settled_def slot_ok_def)
    obtain st w2 where f: "fail_item_locked tk i w1 = (st, w2)" by force
    have "worker_inv p m w1" using s1 by (simp add: settled_def)
    note fl = fail_locked[OF this e f]
    have "retry_pending_fail cf w = (Inr (st \<noteq> None), if st = None then w2 else w2\<lparr>w_pending_fail := None\<rparr>)"
      by (cases st) (simp_all add: retry_pending_fail_def Some bindW_def rd f)
    moreover have "settled p m c0 P0 (if st = None then w2 else w2\<lparr>w_pending_fail := None\<rparr>)"
      using fl s1 e by (cases st) (simp_all add: settled_def slot_ok_def)
    ultimately show ?thesis by simp
  qed
qed

lemma triple_process_next:
  assumes m: "pf_model (cf_profile (cf :: ('m, 'r) config)) = m"
  shows "triple (settled p m c0 P0) (process_next cf) (item_post p m c0 P0) (crashed p m c0 P0)"
  unfolding process_next_def
proof (rule settled.step_then, rule tripleI)
  fix tk :: "'m tick" and w :: "('m, 'r) world" assume s: "settled p m c0 P0 w"
  have plain: "item_post p m c0 P0 r w'" if "settled p m c0 P0 w'" "wr_outcome r \<noteq> WO_PUBLISHED" "wr_calls r = 0" for r and w' :: "('m, 'r) world"
    using that by (intro settled_report) auto
  obtain ok w1 where f: "flush_locked (tk_sink tk) w = (ok, w1)" by force
  have s1: "settled p m c0 P0 w1" using keeps_settled[OF flush_keeps s, of "tk_sink tk"] f by simp
  have "triple (settled p m c0 P0) (bindW (retry_pending_fail cf) (\<lambda>ready w2.
      if \<not> ready then (Inr ((new_report WO_SCHEDULER_ERROR)\<lparr>wr_item_id := w_pending_fail w2\<rparr>), w2)
      else dispatch_next cf w2)) (item_post p m c0 P0) (crashed p m c0 P0)"
  proof (rule triple_bind[OF triple_retry], rule tripleI)
    fix ready and w2 :: "('m, 'r) world" assume r: "settled p m c0 P0 w2 \<and> (ready \<longrightarrow> w_pending_fail w2 = None)"
    show "case if \<not> ready then (Inr ((new_report WO_SCHEDULER_ERROR)\<lparr>wr_item_id := w_pending_fail w2\<rparr>), w2)
      else dispatch_next cf w2 of (Inr x, w') \<Rightarrow> item_post p m c0 P0 x w' | (Inl _, w') \<Rightarrow> crashed p m c0 P0 w'"
      using r tripleD[OF triple_dispatch_next[OF m], of p c0 P0 w2] plain[of w2] by (cases ready) (auto simp: report_simps)
  qed
  note next_item = tripleD[OF this s1]
  show "case if w_restart_required w then (Inr (new_report WO_RESTART_REQUIRED), w)
       else case flush_locked (tk_sink tk) w of (ok, w1) \<Rightarrow>
         if \<not> ok then (Inr (new_report WO_SINK_UNAVAILABLE), w1)
         else bindW (retry_pending_fail cf) (\<lambda>ready w2.
           if \<not> ready then (Inr ((new_report WO_SCHEDULER_ERROR)\<lparr>wr_item_id := w_pending_fail w2\<rparr>), w2)
           else dispatch_next cf w2) w1 of
      (Inr x, w') \<Rightarrow> item_post p m c0 P0 x w' | (Inl _, w') \<Rightarrow> crashed p m c0 P0 w'"
    unfolding f prod.case using plain[OF s] plain[OF s1] next_item by (auto simp: report_simps)
qed

end
