(* ===== verification/Worker_Growth.thy ===== *)
theory Worker_Growth
  imports Worker_Items "HOL-Library.Sublist"
begin

text \<open>
  What no step of the worker undoes: persisted batches, recorded batches and their order, ledger rows,
  model calls, a requested stop and a required restart. Each atomic step uses one
  tick, so that the loop \<^verbatim>\<open>run\<close> comes to the tick from which on a stop is requested.
\<close>

section \<open>What no step undoes\<close>

text \<open>A call that the worker may make: the limits of its profile.\<close>

definition call_ok :: "('m, 'r) config \<Rightarrow> 'm inference_call \<Rightarrow> bool" where
  "call_ok cf c \<longleftrightarrow> ic_model c = pf_model (cf_profile cf) \<and> 0 < ic_timeout_seconds c
     \<and> ic_timeout_seconds c \<le> of_int (pf_hard_timeout_seconds (cf_profile cf))
     \<and> ic_output_cap_tokens c = pf_output_cap_tokens (cf_profile cf)
     \<and> ic_context_tokens c = pf_context_tokens (cf_profile cf)"

text \<open>
  Persisted batches stay, recorded batches keep their order, the ledger and the calls only grow, a
  requested stop and a required restart stay, and every step moves on in the stream of ticks.
\<close>

definition advances :: "('m, 'r) config \<Rightarrow> ('m, 'r) world \<Rightarrow> ('m, 'r) world \<Rightarrow> bool" where
  "advances cf w w' \<longleftrightarrow> prefix (w_sunk w) (w_sunk w') \<and> prefix (records w) (records w') \<and> db_le (w_ledger w) (w_ledger w')
     \<and> prefix (w_calls w) (w_calls w') \<and> (list_all (call_ok cf) (w_calls w) \<longrightarrow> list_all (call_ok cf) (w_calls w'))
     \<and> (w_stop w \<longrightarrow> w_stop w') \<and> (w_restart_required w \<longrightarrow> w_restart_required w') \<and> w_pos w \<le> w_pos w'"

lemma advances_refl: "advances cf w w"
  by (simp add: advances_def db_le_refl)

lemma advances_trans: "advances cf a b \<Longrightarrow> advances cf b c \<Longrightarrow> advances cf a c"
  unfolding advances_def by (auto intro: prefix_order.trans db_le_trans)

interpretation grown: effect_relation "advances cf" for cf
  by unfold_locales (rule advances_refl, rule advances_trans)

lemma flush_advances: "advances cf w (snd (flush_locked k w))"
  by (simp add: advances_def db_le_refl) (simp add: flush_locked_eq)

lemma emit_advances: "advances cf w (snd (emit_locked k ts pub (w\<lparr>w_scheduler := s, w_versions := vs\<rparr>)))"
  using flush_advances[of cf] by (auto simp: advances_def db_le_refl records_emit records_frame) (auto simp: emit_locked_def flush_locked_eq)


lemma emit_advances_plain: "advances cf w (snd (emit_locked k ts pub (w\<lparr>w_scheduler := s\<rparr>)))"
proof -
  have "w\<lparr>w_scheduler := s, w_versions := w_versions w\<rparr> = w\<lparr>w_scheduler := s\<rparr>" by (rule world.equality) simp_all
  then show ?thesis using emit_advances[where w = w and vs = "w_versions w"] by simp
qed

lemma frame_advances:
  "advances cf w (w\<lparr>w_active := a\<rparr>)" "advances cf w (w\<lparr>w_pending_fail := pf\<rparr>)" "advances cf w (w\<lparr>w_breaker := b\<rparr>)"
  "advances cf w (w\<lparr>w_stop := True, w_active := a\<rparr>)" "advances cf w (w\<lparr>w_active := a, w_restart_required := True\<rparr>)"
  "db_le (w_ledger w) db \<Longrightarrow> advances cf w (w\<lparr>w_ledger := db\<rparr>)"
  by (simp_all add: advances_def db_le_refl records_def)

lemma submit_advances: "advances cf w (snd (submit v now k k' w))"
proof -
  have "advances cf w w1" if "flush_locked k w = (ok, w1)" for ok w1 using flush_advances[of cf w k] that by simp
  then show ?thesis
    by (auto simp: submit_def advances_refl Let_def split: prod.split sum.split intro: advances_trans[OF _ emit_advances] advances_trans[OF _ emit_advances_plain])
qed

lemma other_advances: "advances cf w (other_step g a w)"
  by (cases a) (auto simp: submit_advances request_stop_def review_profile_def watchdog_tick_def Let_def frame_advances advances_refl
      inv_step_le split: option.split)

lemma others_grow: "advances cf w (fold (other_step g) as w)"
  by (induction as arbitrary: w) (auto simp: advances_refl intro: advances_trans other_advances)

lemma step_advances: "advances cf w (snd (step cf' w))"
proof -
  have "advances cf w (w\<lparr>w_pos := Suc (w_pos w)\<rparr>)" by (simp add: advances_def db_le_refl records_def)
  then show ?thesis using others_grow advances_trans by (fastforce simp: step_def Let_def)
qed

lemma step_pos: "w_pos w < w_pos (snd (step cf w))"
  using others_grow[of cf "w\<lparr>w_pos := Suc (w_pos w)\<rparr>"] by (simp add: step_def Let_def advances_def Suc_le_eq)

lemma reading_advances: "advances cf w (snd (reading cf' w))"
  by (simp add: reading_def advances_def db_le_refl records_def)

lemma ledger_advances:
  "advances cf w (snd (ledger_release tk l reason w))" "advances cf w (snd (ledger_complete tk l w))"
  "advances cf w (snd (ledger_record_attempt cf' tk l w))" "advances cf w (snd (ledger_claim cf' tk idn n w))"
  "advances cf w (snd (ledger_recover_expired cf' tk w))"
  using release_keeps[of _ _ w tk l reason] complete_keeps[of _ _ w tk l] attempt_keeps[of _ _ w cf' tk l] claim_keeps[of _ _ w cf' tk idn n]
    recover_keeps[of _ _ w cf' tk]
  by (auto simp: keeps_def ledger_release_def ledger_complete_def ledger_record_attempt_def ledger_claim_def
      ledger_recover_expired_def on_ledger_def split: prod.splits intro!: frame_advances(6))


section \<open>Every operation\<close>

lemma count_failure_advances: "advances cf w (snd (count_failure cf' w))"
  unfolding count_failure_def by (intro grown.bind step_advances) (simp add: Let_def frame_advances)

lemma start_call_advances: "call_ok cf c \<Longrightarrow> advances cf w (snd (start_call t c w))"
  by (simp add: start_call_def advances_def db_le_refl records_def)

lemma end_call_advances: "advances cf w (snd (end_call w))"
  by (simp add: end_call_def frame_advances)

lemma call_advances: "call_ok cf c \<Longrightarrow> advances cf w (snd (call cf' c w))"
  unfolding call_def
  by (intro grown.bind step_advances start_call_advances end_call_advances) (auto intro!: grown.bind grown.pure step_advances)

lemma judge_advances: "advances cf w (snd (judge_result cf' dl r late w))"
  unfolding judge_result_def
  by (auto intro!: grown.bind step_advances grown.pure split: inference_result.split interpreted.split)

lemma settle_advances: "advances cf w (snd (settle_call cf' dl n failures r late restart w))"
  unfolding settle_call_def
  by (auto intro!: grown.bind count_failure_advances judge_advances grown.pure split: sum.split)

lemma make_call_ok:
  assumes "make_inference_call (pf_model (cf_profile cf)) sys user schema (pf_output_cap_tokens (cf_profile cf))
      (pf_context_tokens (cf_profile cf)) think t = Inr c"
    and "0 < t" and "t \<le> of_int (pf_hard_timeout_seconds (cf_profile cf))"
  shows "call_ok cf c"
  using assms by (auto simp: make_inference_call_def bindE_eq_Inr call_ok_def split: if_splits)

lemma attempt_call_advances: "advances cf w (snd (attempt_call cf l n failures prompt dl w))"
proof -
  have made: "advances cf w (snd (bindW (liftW (make_inference_call (pf_model (cf_profile cf)) (pp_system prompt) (pp_user prompt)
        (pp_response_schema prompt) (pf_output_cap_tokens (cf_profile cf)) (pf_context_tokens (cf_profile cf))
        (pf_think (cf_profile cf)) t)) (\<lambda>c. bindW (call cf c) (\<lambda>(result, timed_out, restart).
          settle_call cf dl (Suc n) failures result timed_out restart)) w))"
    if "\<not> t \<le> 0" "t \<le> of_int (pf_hard_timeout_seconds (cf_profile cf))" for t and w :: "('a, 'b) world"
    using that by (intro grown.lift grown.bind call_advances) (auto intro: make_call_ok settle_advances split: prod.split)
  show ?thesis
    unfolding attempt_call_def Let_def
    by (intro grown.bind step_advances ledger_advances) (auto intro!: grown.bind step_advances grown.pure made)
qed

lemma attempt_once_advances: "advances cf w (snd (attempt_once cf i v l repair n failures w))"
proof -
  have "advances cf w (snd (authorize_attempt cf i l repair n failures prompt tk w))" for prompt tk and w :: "('a, 'b) world"
    by (auto simp: authorize_attempt_def Let_def advances_refl emit_advances_plain split: sum.split prod.split option.split
        intro: advances_trans[OF emit_advances_plain attempt_call_advances])
  then show ?thesis
    unfolding attempt_once_def
    by (intro grown.bind step_advances) (auto intro!: grown.bind step_advances grown.pure simp: advances_refl split: option.split)
qed

lemma attempts_loop_advances: "advances cf w (snd (attempts_loop cf i v l repair n failures w))"
proof (induction cf i v l repair n failures arbitrary: w rule: attempts_loop.induct)
  case (1 cf i v l repair calls failures)
  show ?case
    by (subst attempts_loop.simps, rule grown.bind[OF attempt_once_advances])
      (auto intro!: 1 grown.pure split: pass.split)
qed

lemma fail_item_locked_advances: "advances cf w (snd (fail_item_locked tk i w))"
  by (auto simp: fail_item_locked_def frame_advances emit_advances_plain split: sum.split)

lemma fail_item_advances: "advances cf w (snd (fail_item cf' i w))"
proof -
  have "advances cf w (snd (case fail_item_locked tk i w of (st, w') \<Rightarrow> (Inr st, w')))" for tk and w :: "('a, 'b) world"
    using fail_item_locked_advances[of cf w tk i] by (auto split: prod.split)
  then show ?thesis unfolding fail_item_def by (intro grown.bind step_advances)
qed

lemma release_quietly_advances: "advances cf w (snd (release_quietly cf' l reason w))"
  unfolding release_quietly_def by (intro grown.bind step_advances grown.attempt ledger_advances grown.pure)

lemma abandon_advances: "advances cf w (snd (abandon cf' i l reason w))"
  unfolding abandon_def by (intro grown.bind release_quietly_advances fail_item_advances)

lemma commit_advances: "advances cf w (snd (commit cf' d l x a w))"
proof -
  have late: "advances cf w (snd (commit_late cf' d l a w))" for w :: "('a, 'b) world"
    unfolding commit_late_def Let_def
    by (intro grown.bind step_advances release_quietly_advances) (auto simp: frame_advances emit_advances_plain split: sum.split)
  have completed: "advances cf w (snd (commit_completed cf' d l x a status w))" for w :: "('a, 'b) world" and status
    unfolding commit_completed_def Let_def
    by (intro grown.bind step_advances) (auto simp: frame_advances emit_advances_plain split: sum.split)
  show ?thesis
    unfolding commit_def Let_def
    by (intro grown.bind step_advances grown.pure)
      (auto intro!: late completed grown.bind grown.attempt step_advances ledger_advances grown.pure abandon_advances fail_item_advances)
qed

lemma give_up_advances: "advances cf w (snd (give_up cf' d l a w))"
  unfolding give_up_def Let_def by (auto intro!: grown.bind step_advances grown.pure abandon_advances)

lemma hold_item_advances: "advances cf w (snd (hold_item cf d v l w))"
proof -
  obtain res w1 where r: "attempts cf (ds_item_id d) v l w = (res, w1)" by force
  have g: "advances cf w w1" using attempts_loop_advances[of cf w "ds_item_id d" v l False 0 "[]"] r by (simp add: attempts_def)
  have "advances cf w1 (snd (bindW (abandon cf (ds_item_id d) l FAILED) f w1))" if "\<And>st w. advances cf w (snd (f st w))"
    for f :: "item_state option \<Rightarrow> ('a, 'b, work_report) act" using that by (intro grown.bind abandon_advances)
  then have "advances cf w1 (snd (hold_item cf d v l w))"
    by (auto simp: hold_item_def Let_def r give_up_advances commit_advances grown.pure
        split: sum.split worker_exn.split invocation_exn.split option.split)
  then show ?thesis by (rule advances_trans[OF g])
qed

lemma run_item_advances: "advances cf w (snd (run_item cf d v w))"
  unfolding run_item_def Let_def
  by (intro grown.bind step_advances grown.pure grown.attempt ledger_advances fail_item_advances)
    (auto intro!: grown.bind grown.pure hold_item_advances fail_item_advances simp: advances_refl split: claim_result.split)

lemma dispatch_next_advances: "advances cf w (snd (dispatch_next cf w))"
proof -
  have closed: "advances cf w (snd (bindW (reading cf) (\<lambda>tk' w2. case fail_item_locked tk' i w2 of (st, w3) \<Rightarrow> (Inr (g st), w3)) w))"
    for i and g :: "item_state option \<Rightarrow> work_report" and w :: "('a, 'b) world"
  proof (rule grown.bind[OF reading_advances])
    show "advances cf w (snd (case fail_item_locked tk i w of (st, w3) \<Rightarrow> (Inr (g st), w3)))" for tk and w :: "('a, 'b) world"
      using fail_item_locked_advances[of cf w tk i] by (auto split: prod.split)
  qed
  show ?thesis
    unfolding dispatch_next_def
    by (rule grown.bind[OF reading_advances])
      (auto simp: Let_def advances_refl emit_advances_plain split: sum.split prod.split option.split
        intro: advances_trans[OF emit_advances_plain run_item_advances] advances_trans[OF emit_advances_plain closed])
qed

lemma retry_advances: "advances cf w (snd (retry_pending_fail cf w))"
proof -
  have "advances cf w (snd (case fail_item_locked tk i w of
      (None, w2) \<Rightarrow> (Inr False, w2) | (Some _, w2) \<Rightarrow> (Inr True, w2\<lparr>w_pending_fail := None\<rparr>)))" for tk i and w :: "('a, 'b) world"
    using fail_item_locked_advances[of cf w tk i] advances_trans[OF _ frame_advances(2)] by (auto split: prod.split option.split)
  then show ?thesis
    by (auto simp: retry_pending_fail_def advances_refl split: option.split intro!: grown.bind reading_advances)
qed

lemma process_next_advances: "advances cf w (snd (process_next cf w))"
proof -
  let ?rest = "bindW (retry_pending_fail cf) (\<lambda>ready w2.
      if \<not> ready then (Inr ((new_report WO_SCHEDULER_ERROR)\<lparr>wr_item_id := w_pending_fail w2\<rparr>), w2)
      else dispatch_next cf w2)"
  have rest: "advances cf w (snd (?rest w))" for w by (intro grown.bind retry_advances) (auto simp: advances_refl dispatch_next_advances)
  have flushed: "advances cf w w1 \<and> advances cf w (snd (?rest w1))" if "flush_locked k w = (ok, w1)" for k ok w w1
    using flush_advances[of cf w k] that advances_trans[OF _ rest] by simp
  show ?thesis
    unfolding process_next_def
    by (intro grown.bind step_advances) (auto simp: advances_refl flushed split: prod.split)
qed

lemma release_all_advances: "advances cf w (snd (release_all cf' n k ls w))"
proof (induction ls arbitrary: k w)
  case (Cons l ls)
  show ?case by (simp, intro grown.bind step_advances grown.attempt ledger_advances grown.pure Cons)
qed (simp add: grown.pure)

lemma recover_advances: "advances cf w (snd (recover cf' w))"
  unfolding recover_def by (intro grown.bind step_advances grown.attempt ledger_advances grown.pure release_all_advances)

end
