(* ===== verification/Worker_Scenario.thy ===== *)
theory Worker_Scenario
  imports Worker
begin

text \<open>A run of the worker, evaluated: it shows that the hypotheses of the properties of the worker can hold.\<close>

section \<open>A service run\<close>

text \<open>
  One version is submitted before the first step; the first reply of the model is malformed, the repair
  is accepted and published.
\<close>

definition quiet_tick :: "string tick" where
  "quiet_tick = \<lparr>tk_others = [], tk_wall = Aware 2000000, tk_monotonic = 0, tk_sink = 9, tk_sqlite = calm_db,
     tk_new_id = ''inv-1'', tk_answer = Answer (InferenceReply ''KEEP''), tk_signal = False\<rparr>"

definition demo_tick :: "nat \<Rightarrow> string tick" where
  "demo_tick n =
     (if n = 0 then quiet_tick\<lparr>tk_others := [Submit (sample_version ''BTC'' 80) (Aware 1000000) 9 9]\<rparr>
      else if n = 10 then quiet_tick\<lparr>tk_answer := Answer (InferenceFailed IF_MALFORMED)\<rparr>
      else quiet_tick)"

definition demo_config :: "(string, string) config" where
  "demo_config = \<lparr>cf_profile = \<lparr>pf_profile_id = ''p1'', pf_model = ''m'', pf_role = SCREENER, pf_hard_timeout_seconds = 30,
       pf_context_tokens = 4096, pf_output_cap_tokens = 768, pf_think = False\<rparr>,
     cf_grace = 5,
     cf_prompts = (\<lambda>v repair. Some \<lparr>pp_system = ''s'', pp_user = ''u'', pp_response_schema = '''',
       pp_prompt_bound = \<lparr>upper_bound = 1000, basis = TOKENIZER_COUNT\<rparr>\<rparr>),
     cf_interpret = (\<lambda>payload. if payload = ''KEEP'' then Accepted payload else Rejected),
     cf_budget = \<lparr>mb_model = ''m'', hourly_limit = 3, daily_limit = 9\<rparr>, cf_owner = PStr ''w1'', cf_ticks = demo_tick\<rparr>"

definition demo_start :: "(string, string) world" where
  "demo_start = new_world default_policy default_failure_policy empty_db"

lemma demo_run:
  "case process_next demo_config demo_start of
     (Inr r, w) \<Rightarrow> wr_outcome r = WO_PUBLISHED \<and> wr_calls r = 2 \<and> wr_failures r = [IF_MALFORMED] \<and> length (w_calls w) = 2
       \<and> map (map_option pb_value \<circ> snd) (w_sunk w) = [None, None, Some ''KEEP''] \<and> w_pending w = []
   | (Inl _, w) \<Rightarrow> False"
  by code_simp

end
