(* ===== verification/Worker_Properties.thy ===== *)
theory Worker_Properties
  imports Worker_Run Worker_Growth Worker_Scenario
begin

text \<open>
  The properties of a worker in service: what it publishes is fenced, its model calls are paid, its
  records rebuild the live items, its reports are true and its loop returns.
\<close>

section \<open>Reachable worlds\<close>

text \<open>
  A worker in service: the other threads run between its calls of \<^verbatim>\<open>process_next\<close> and \<^verbatim>\<open>recover\<close> and, as
  the ticks say, inside them. An exception ends the service.
\<close>

inductive worker_reach :: "('m, 'r) config \<Rightarrow> ('m, 'r) world \<Rightarrow> ('m, 'r) world \<Rightarrow> bool" for cf w0 where
  start: "worker_reach cf w0 w0"
| other: "worker_reach cf w0 w \<Longrightarrow> worker_reach cf w0 (other_step (cf_grace cf) a w)"
| processed: "worker_reach cf w0 w \<Longrightarrow> process_next cf w = (Inr r, w') \<Longrightarrow> worker_reach cf w0 w'"
| recovered: "worker_reach cf w0 w \<Longrightarrow> recover cf w = (Inr rr, w') \<Longrightarrow> worker_reach cf w0 w'"

text \<open>A worker constructed over an accepted policy and a ledger that any operations have produced.\<close>

definition in_service :: "policy \<Rightarrow> ('m, 'r) config \<Rightarrow> ('m, 'r) world \<Rightarrow> bool" where
  "in_service p cf w \<longleftrightarrow> check_policy p = Inr p \<and>
     (\<exists>grace_arg fp ops w0. make_worker p (cf_profile cf) grace_arg fp (fold inv_step ops empty_db) = Inr (cf_grace cf, w0)
        \<and> worker_reach cf w0 w)"

lemma attempts_nonneg: "inv_ok db \<Longrightarrow> 0 \<le> attempts_of m db"
  unfolding attempts_of_def using inv_ok_rows_ok[of db]
  by (intro sum_list_nonneg) (auto simp: list_all_iff row_wf_def row_check_def)

lemma make_worker_inv:
  assumes "check_policy p = Inr p" and "make_worker p prof grace_arg fp (fold inv_step ops empty_db) = Inr (g, w0)"
  shows "worker_inv p m w0 \<and> slot_ok w0 \<and> w_calls w0 = []"
proof -
  have w0: "w0 = new_world p (case fp of None \<Rightarrow> default_failure_policy | Some x \<Rightarrow> x) (fold inv_step ops empty_db)"
    using assms(2) by (auto simp: make_worker_def Let_def bindE_eq_Inr)
  have "timed_inv (new_scheduler p)" using check_policy_ok[OF assms(1)] by (simp add: new_scheduler_timed)
  moreover have "live (new_scheduler p) = {}" by (simp add: live_def new_scheduler_def)
  moreover have "queue (new_scheduler p) = []" "running (new_scheduler p) = None" "sc_policy (new_scheduler p) = p"
    by (simp_all add: new_scheduler_def)
  ultimately show ?thesis
    using inv_ok_run[of ops] attempts_nonneg
    by (auto simp: w0 worker_inv_def new_world_def records_def pubs_def slot_ok_def slot_def List.map_filter_def)
qed

lemma recover_keeps_all: "keeps p m w (snd (recover cf w))"
proof -
  have "keeps p m w (snd (release_all cf n k ls w))" for n k ls and w :: "('a, 'b) world"
  proof (induction ls arbitrary: k w)
    case (Cons l ls)
    show ?case by (simp, intro kept.bind step_keeps kept.attempt release_keeps kept.pure Cons)
  qed (simp add: kept.pure)
  then show ?thesis unfolding recover_def by (intro kept.bind step_keeps kept.attempt recover_keeps kept.pure)
qed

lemma process_next_post:
  assumes "worker_inv p m w" and "slot_ok w" and "pf_model (cf_profile cf) = m" and "process_next cf w = (res, w')"
  shows "case res of Inr r \<Rightarrow> item_post p m (length (w_calls w)) (pubs w) r w' | Inl _ \<Rightarrow> crashed p m (length (w_calls w)) (pubs w) w'"
  using tripleD[OF triple_process_next[OF assms(3)], of p "length (w_calls w)" "pubs w" w] assms
  by (simp add: settled_def)

lemma service_inv:
  assumes "in_service p cf w"
  shows "worker_inv p (pf_model (cf_profile cf)) w \<and> slot_ok w \<and> list_all (call_ok cf) (w_calls w)"
proof -
  obtain grace_arg fp ops w0 where p: "check_policy p = Inr p"
    and w0: "make_worker p (cf_profile cf) grace_arg fp (fold inv_step ops empty_db) = Inr (cf_grace cf, w0)" and r: "worker_reach cf w0 w"
    using assms by (auto simp: in_service_def)
  from r show ?thesis
  proof (induction rule: worker_reach.induct)
    case start
    then show ?case using make_worker_inv[OF p w0] by simp
  next
    case (other w a)
    have k: "keeps p (pf_model (cf_profile cf)) w (other_step (cf_grace cf) a w)" by (rule other_keeps)
    then show ?case using other.IH by (simp add: keeps_def slot_ok_def)
  next
    case (processed w r w')
    have "item_post p (pf_model (cf_profile cf)) (length (w_calls w)) (pubs w) r w'"
      using process_next_post[OF _ _ refl processed.hyps(2)] processed.IH by force
    moreover have "advances cf w w'" using process_next_advances[of cf w] processed.hyps(2) by simp
    ultimately show ?case using processed.IH by (simp add: item_post_def advances_def)
  next
    case (recovered w rr w')
    have "keeps p (pf_model (cf_profile cf)) w w'" using recover_keeps_all[of p _ w cf] recovered.hyps(2) by simp
    then show ?case using recovered.IH by (simp add: keeps_def slot_ok_def)
  qed
qed

text \<open>The world after a further call of \<^verbatim>\<open>process_next\<close>, returned or raised.\<close>

lemma service_after:
  assumes "in_service p cf w" and "process_next cf w = (res, w')"
  shows "worker_inv p (pf_model (cf_profile cf)) w' \<and> list_all (call_ok cf) (w_calls w') \<and> advances cf w w'"
    and "res = Inr r \<Longrightarrow> item_post p (pf_model (cf_profile cf)) (length (w_calls w)) (pubs w) r w'"
    and "res = Inl e \<Longrightarrow> crashed p (pf_model (cf_profile cf)) (length (w_calls w)) (pubs w) w'"
proof -
  note s = service_inv[OF assms(1)]
  note post = process_next_post[OF conjunct1[OF s] conjunct1[OF conjunct2[OF s]] refl assms(2)]
  have g: "advances cf w w'" using process_next_advances[of cf w] assms(2) by simp
  then show "worker_inv p (pf_model (cf_profile cf)) w' \<and> list_all (call_ok cf) (w_calls w') \<and> advances cf w w'"
    using post s by (cases res) (auto simp: item_post_def crashed_def advances_def)
  show "res = Inr r \<Longrightarrow> item_post p (pf_model (cf_profile cf)) (length (w_calls w)) (pubs w) r w'"
    and "res = Inl e \<Longrightarrow> crashed p (pf_model (cf_profile cf)) (length (w_calls w)) (pubs w) w'" using post by simp_all
qed

text \<open>A state that a worker in service reaches, or that an exception leaves behind.\<close>

definition visited :: "policy \<Rightarrow> ('m, 'r) config \<Rightarrow> ('m, 'r) world \<Rightarrow> bool" where
  "visited p cf w \<longleftrightarrow> in_service p cf w
     \<or> (\<exists>w0 e. in_service p cf w0 \<and> (process_next cf w0 = (Inl e, w) \<or> recover cf w0 = (Inl e, w)))"

lemma visited_inv:
  assumes "visited p cf w"
  shows "worker_inv p (pf_model (cf_profile cf)) w \<and> list_all (call_ok cf) (w_calls w)"
proof -
  consider "in_service p cf w" | w0 e where "in_service p cf w0" "process_next cf w0 = (Inl e, w)"
    | w0 e where "in_service p cf w0" "recover cf w0 = (Inl e, w)" using assms unfolding visited_def by blast
  then show ?thesis
  proof cases
    case 3
    have "keeps p (pf_model (cf_profile cf)) w0 w" using recover_keeps_all[of p _ w0 cf] 3(2) by simp
    then show ?thesis using service_inv[OF 3(1)] by (simp add: keeps_def)
  qed (use service_inv service_after(1) in blast)+
qed


section \<open>Properties\<close>

text \<open>
  C6: A result is published only as the completion of a live lease before the deadline. In every state
  that a worker in service can reach, whatever other threads and processes do in between, each
  publication that was recorded belongs to a ledger row that is completed under the model of the
  profile with at least one recorded attempt, for the identity of a version of the published item;
  the same batch carries the completion of the item at an instant before the deadline that the origin
  seal and the horizon of that version fix; and no invocation is published twice.
\<close>

theorem worker_publishes_fenced:
  assumes "visited p cf w"
  shows "(\<forall>(ts, pub) \<in> set (w_sunk w @ w_pending w). \<forall>x. pub = Some x \<longrightarrow>
      (\<exists>r v t. r \<in> set (db_invocations (w_ledger w)) \<and> iv_invocation_id r = pb_invocation_id x \<and> iv_state r = COMPLETED
        \<and> iv_model r = pf_model (cf_profile cf) \<and> pb_model x = pf_model (cf_profile cf) \<and> 1 \<le> iv_attempt_count r
        \<and> iv_identity r = ov_identity v \<and> item_id v = pb_item_id x
        \<and> t \<in> set ts \<and> st_item_id t = pb_item_id x \<and> st_state t = IS_COMPLETED
        \<and> st_at t < origin_of v + seconds (analysis_deadline_seconds (limits_of p (ov_horizon v)))))
    \<and> distinct (map pb_invocation_id (List.map_filter snd (w_sunk w @ w_pending w)))"
proof -
  let ?m = "pf_model (cf_profile cf)"
  have inv: "worker_inv p ?m w" using visited_inv[OF assms] by blast
  then have pub: "\<forall>(ts, pub) \<in> set (records w). \<forall>x. pub = Some x \<longrightarrow> published p ?m (w_ledger w) ts x"
    and d: "distinct (map pb_invocation_id (pubs w))" unfolding worker_inv_def by blast+
  from pub show ?thesis using d unfolding pubs_def records_def published_def by fast
qed

text \<open>
  C14: Every model call is paid for and bounded. In every such state the calls that the adapter ever
  received never exceed the units reserved in the budget windows for the model (an attempt is recorded,
  and a unit reserved, before each call), and each call carries the model and the token limits of the
  profile and a time limit above zero and at most the hard timeout of the profile.
\<close>

theorem worker_calls_paid:
  assumes "visited p cf w"
  shows "int (length (w_calls w)) \<le> reserved (pf_model (cf_profile cf)) k (w_ledger w)
    \<and> (\<forall>c \<in> set (w_calls w). ic_model c = pf_model (cf_profile cf) \<and> 0 < ic_timeout_seconds c
         \<and> ic_timeout_seconds c \<le> of_int (pf_hard_timeout_seconds (cf_profile cf))
         \<and> ic_output_cap_tokens c = pf_output_cap_tokens (cf_profile cf)
         \<and> ic_context_tokens c = pf_context_tokens (cf_profile cf))"
proof
  let ?m = "pf_model (cf_profile cf)"
  have ok: "inv_ok (w_ledger w)" and calls: "int (length (w_calls w)) \<le> attempts_of ?m (w_ledger w)"
    using visited_inv[OF assms] by (simp_all add: worker_inv_def)
  note calls
  also have "attempts_of ?m (w_ledger w) \<le> units ?m (db_invocations (w_ledger w))"
    unfolding attempts_of_def by (rule attempts_le_units)
  also have "units ?m (db_invocations (w_ledger w)) = reserved ?m k (w_ledger w)" using ok by (simp add: inv_ok_def)
  finally show "int (length (w_calls w)) \<le> reserved ?m k (w_ledger w)" .
qed (use visited_inv[OF assms] in \<open>auto simp: list_all_iff call_ok_def\<close>)

text \<open>
  C27: The durable log is the whole history. In every such state the batches that the sink has persisted,
  followed by those still waiting for it, replay to exactly the items that the scheduler has queued or
  running: an unavailable sink loses, repeats and reorders nothing, and once nothing waits the sink
  alone tells the state.
\<close>

theorem worker_log_replays:
  assumes "visited p cf w"
  shows "replay (concat (map fst (w_sunk w @ w_pending w))) {} = live (w_scheduler w)
    \<and> (w_pending w = [] \<longrightarrow> replay (concat (map fst (w_sunk w))) {} = live (w_scheduler w))"
  using visited_inv[OF assms] by (auto simp: worker_inv_def records_def)


section \<open>The worker loop\<close>




section \<open>Witnesses\<close>

lemma demo_service: "in_service default_policy demo_config demo_start"
proof -
  have "make_worker default_policy (cf_profile demo_config) (PInt 5) None (fold inv_step [] empty_db) = Inr (cf_grace demo_config, demo_start)"
    by (simp add: make_worker_def demo_config_def demo_start_def default_policy_def profile_of_def OC1_ROLE_PROFILES_def Let_def)
  then show ?thesis unfolding in_service_def using default_policy_ok worker_reach.start by blast
qed

lemma demo_world:
  obtains r w where "process_next demo_config demo_start = (Inr r, w)" "wr_outcome r = WO_PUBLISHED" "wr_calls r = 2"
    "length (w_calls w) = 2" "map (map_option pb_value \<circ> snd) (w_sunk w) = [None, None, Some ''KEEP'']" "w_pending w = []"
    "in_service default_policy demo_config w"
proof -
  obtain res w where p: "process_next demo_config demo_start = (res, w)" by force
  then obtain r where r: "res = Inr r" using demo_run by (cases res) simp_all
  have "in_service default_policy demo_config w"
    using demo_service worker_reach.processed p[unfolded r] unfolding in_service_def by blast
  then show thesis using that[OF p[unfolded r]] demo_run p r by simp
qed

theorem worker_publishes_fenced_witness:
  "\<exists>w x r. visited default_policy demo_config w \<and> x \<in> set (List.map_filter snd (w_sunk w)) \<and> pb_value x = ''KEEP''
     \<and> r \<in> set (db_invocations (w_ledger w)) \<and> iv_invocation_id r = pb_invocation_id x \<and> iv_state r = COMPLETED"
proof -
  obtain w where w: "map (map_option pb_value \<circ> snd) (w_sunk w) = [None, None, Some ''KEEP'']" "in_service default_policy demo_config w"
    using demo_world by metis
  then have v: "visited default_policy demo_config w" by (simp add: visited_def)
  obtain ts x where x: "(ts, Some x) \<in> set (w_sunk w)" "pb_value x = ''KEEP''" using w(1) by (auto simp: Cons_eq_map_conv map_eq_Cons_conv)
  then have "x \<in> set (List.map_filter snd (w_sunk w))" by (force simp: map_filter_set)
  moreover obtain r where "r \<in> set (db_invocations (w_ledger w))" "iv_invocation_id r = pb_invocation_id x" "iv_state r = COMPLETED"
    using bspec[OF conjunct1[OF worker_publishes_fenced[OF v]], of "(ts, Some x)"] x(1) by auto
  ultimately show ?thesis using v x(2) by blast
qed

theorem worker_calls_paid_witness:
  "\<exists>w. visited default_policy demo_config w \<and> length (w_calls w) = 2 \<and> 2 \<le> reserved ''m'' HOUR (w_ledger w)"
proof -
  obtain w where w: "length (w_calls w) = 2" "in_service default_policy demo_config w" using demo_world by metis
  then have v: "visited default_policy demo_config w" by (simp add: visited_def)
  have "pf_model (cf_profile demo_config) = ''m''" by (simp add: demo_config_def)
  then show ?thesis using worker_calls_paid[OF v, of HOUR] v w(1) by auto
qed

theorem worker_log_replays_witness:
  "\<exists>w. visited default_policy demo_config w \<and> length (w_sunk w) = 3
     \<and> replay (concat (map fst (w_sunk w))) {} = live (w_scheduler w)"
proof -
  obtain w where w: "map (map_option pb_value \<circ> snd) (w_sunk w) = [None, None, Some ''KEEP'']" "w_pending w = []"
    "in_service default_policy demo_config w" using demo_world by metis
  then have v: "visited default_policy demo_config w" by (simp add: visited_def)
  have "length (w_sunk w) = 3" using arg_cong[OF w(1), of length] by simp
  then show ?thesis using worker_log_replays[OF v] w(2) v by blast
qed



end
