(* ===== verification/Profile_Breaker.thy ===== *)
theory Profile_Breaker
  imports Worker
begin

text \<open>
  The failure breaker of the worker against a reference: it is open exactly when, since the last
  review, as many failures as the policy allows lie within one window.
\<close>

text \<open>What happens to a breaker, and the failures recorded since the last review.\<close>

datatype breaker_event = FailureAt rat | Reviewed

fun breaker_step :: "breaker_event \<Rightarrow> profile_breaker \<Rightarrow> profile_breaker" where
  "breaker_step (FailureAt t) b = record_failure t b"
| "breaker_step Reviewed b = review b"

fun since_review :: "breaker_event list \<Rightarrow> rat list \<Rightarrow> rat list" where
  "since_review [] acc = acc"
| "since_review (FailureAt t # es) acc = since_review es (acc @ [t])"
| "since_review (Reviewed # es) acc = since_review es []"

text \<open>The reference: some failures in a row, as many as the policy allows, lie within one window.\<close>

definition too_many :: "failure_policy \<Rightarrow> rat list \<Rightarrow> bool" where
  "too_many p ts \<longleftrightarrow> (\<exists>i < length ts. i + nat (fp_max_failures p) \<le> length ts
     \<and> ts ! (i + nat (fp_max_failures p) - 1) - ts ! i \<le> fp_window_seconds p)"

lemma sorted_count:
  fixes xs :: "rat list"
  assumes "sorted xs" and "1 \<le> n"
  shows "n \<le> length (filter (\<lambda>t. c \<le> t) xs) \<longleftrightarrow> n \<le> length xs \<and> c \<le> xs ! (length xs - n)"
proof (cases "n \<le> length xs")
  case True
  let ?k = "length xs - n"
  show ?thesis
  proof (cases "c \<le> xs ! ?k")
    case ok: True
    have "c \<le> t" if t: "t \<in> set (drop ?k xs)" for t
    proof -
      obtain j where "?k + j < length xs" "t = xs ! (?k + j)" using t by (auto simp: in_set_conv_nth) (metis add.commute less_diff_conv)
      then show ?thesis using ok sorted_nth_mono[OF assms(1), of ?k "?k + j"] by linarith
    qed
    then have "filter (\<lambda>t. c \<le> t) (drop ?k xs) = drop ?k xs" by (simp add: filter_id_conv)
    moreover have "length (filter (\<lambda>t. c \<le> t) xs) = length (filter (\<lambda>t. c \<le> t) (take ?k xs)) + length (filter (\<lambda>t. c \<le> t) (drop ?k xs))"
      by (metis append_take_drop_id filter_append length_append)
    ultimately show ?thesis using True ok by simp
  next
    case no: False
    have "\<not> c \<le> t" if t: "t \<in> set (take (Suc ?k) xs)" for t
    proof -
      obtain j where "j \<le> ?k" "t = xs ! j" using t by (auto simp: in_set_conv_nth less_Suc_eq_le)
      moreover have "?k < length xs" using assms(2) True by simp
      ultimately have "t \<le> xs ! ?k" using sorted_nth_mono[OF assms(1), of j ?k] by simp
      then show ?thesis using no by linarith
    qed
    then have "filter (\<lambda>t. c \<le> t) (take (Suc ?k) xs) = []" by (simp add: filter_empty_conv)
    moreover have "length (filter (\<lambda>t. c \<le> t) xs) = length (filter (\<lambda>t. c \<le> t) (take (Suc ?k) xs)) + length (filter (\<lambda>t. c \<le> t) (drop (Suc ?k) xs))"
      by (metis append_take_drop_id filter_append length_append)
    moreover have "length (filter (\<lambda>t. c \<le> t) (drop (Suc ?k) xs)) \<le> n - 1"
      using length_filter_le[of "\<lambda>t. c \<le> t" "drop (Suc ?k) xs"] True assms(2) by simp
    ultimately show ?thesis using no assms(2) True by simp
  qed
next
  case False
  then show ?thesis using length_filter_le[of "\<lambda>t. c \<le> t" xs] by linarith
qed

lemma too_many_snoc:
  assumes "1 \<le> fp_max_failures p"
  shows "too_many p (ts @ [t]) \<longleftrightarrow> too_many p ts
    \<or> nat (fp_max_failures p) \<le> Suc (length ts) \<and> t - (ts @ [t]) ! (Suc (length ts) - nat (fp_max_failures p)) \<le> fp_window_seconds p"
proof -
  define n where "n = nat (fp_max_failures p)"
  have n: "1 \<le> n" using assms by (simp add: n_def)
  have split: "(\<exists>i < Suc L. i + n \<le> Suc L \<and> P i) \<longleftrightarrow> (\<exists>i < L. i + n \<le> L \<and> P i) \<or> n \<le> Suc L \<and> P (Suc L - n)" for L P
  proof
    assume "\<exists>i < Suc L. i + n \<le> Suc L \<and> P i"
    then obtain i where i: "i < Suc L" "i + n \<le> Suc L" "P i" by blast
    show "(\<exists>i < L. i + n \<le> L \<and> P i) \<or> n \<le> Suc L \<and> P (Suc L - n)"
    proof (cases "i + n = Suc L")
      case True
      then have "i = Suc L - n" by simp
      then show ?thesis using i by auto
    next
      case False
      then have "i + n \<le> L" "i < L" using i(2) n by simp_all
      then show ?thesis using i(3) by blast
    qed
  next
    assume "(\<exists>i < L. i + n \<le> L \<and> P i) \<or> n \<le> Suc L \<and> P (Suc L - n)"
    then show "\<exists>i < Suc L. i + n \<le> Suc L \<and> P i"
    proof
      assume "\<exists>i < L. i + n \<le> L \<and> P i"
      then show ?thesis by (meson le_SucI less_SucI)
    next
      assume "n \<le> Suc L \<and> P (Suc L - n)"
      then show ?thesis using n by (intro exI[of _ "Suc L - n"]) simp
    qed
  qed
  have "(ts @ [t]) ! (i + n - 1) - (ts @ [t]) ! i = ts ! (i + n - 1) - ts ! i" if "i < length ts" "i + n \<le> length ts" for i
  proof -
    have "i + n - 1 < length ts" using that(2) n by linarith
    then show ?thesis using that(1) by (simp add: nth_append)
  qed
  moreover have "(ts @ [t]) ! (Suc (length ts) - n + n - 1) = t" if "n \<le> Suc (length ts)" using that by simp
  ultimately show ?thesis unfolding too_many_def n_def[symmetric] length_append_singleton split by auto
qed

lemma breaker_state:
  assumes "1 \<le> fp_max_failures p" and "0 \<le> fp_window_seconds p" and "sorted ts"
    and "br_policy b = p" and "br_disabled b = too_many p []" and "br_failures b = []"
  shows "let b' = fold record_failure ts b in br_policy b' = p \<and> br_disabled b' = too_many p ts
    \<and> br_failures b' = (if ts = [] then [] else filter (\<lambda>t. last ts - t \<le> fp_window_seconds p) ts)"
  using assms(3)
proof (induction ts rule: rev_induct)
  case Nil
  then show ?case using assms by simp
next
  case (snoc t ts)
  let ?w = "fp_window_seconds p"
  have st: "sorted ts" "\<forall>x \<in> set ts. x \<le> t" using snoc.prems by (simp_all add: sorted_append)
  define b' where "b' = fold record_failure ts b"
  have IH: "br_policy b' = p" "br_disabled b' = too_many p ts"
    "br_failures b' = (if ts = [] then [] else filter (\<lambda>t. last ts - t \<le> ?w) ts)"
    using snoc.IH[OF st(1)] by (simp_all add: b'_def Let_def)
  have f: "filter (\<lambda>x. t - x \<le> ?w) (br_failures b') @ [t] = filter (\<lambda>x. t - x \<le> ?w) (ts @ [t])"
  proof (cases "ts = []")
    case False
    have "last ts \<le> t" using st(2) last_in_set[OF False] by blast
    then have "filter (\<lambda>x. t - x \<le> ?w) (filter (\<lambda>x. last ts - x \<le> ?w) ts) = filter (\<lambda>x. t - x \<le> ?w) ts"
      unfolding filter_filter by (intro filter_cong) auto
    then show ?thesis using False assms(2) by (simp add: IH(3))
  qed (use assms(2) in \<open>simp add: IH(3)\<close>)
  have "fp_max_failures p \<le> int (length (filter (\<lambda>x. t - x \<le> ?w) (ts @ [t])))
      \<longleftrightarrow> nat (fp_max_failures p) \<le> length (filter (\<lambda>x. t - ?w \<le> x) (ts @ [t]))"
    by (simp add: nat_le_iff algebra_simps)
  also have "\<dots> \<longleftrightarrow> nat (fp_max_failures p) \<le> Suc (length ts) \<and> t - ?w \<le> (ts @ [t]) ! (Suc (length ts) - nat (fp_max_failures p))"
    using sorted_count[OF snoc.prems, of "nat (fp_max_failures p)" "t - ?w"] assms(1) by simp
  finally have "fp_max_failures p \<le> int (length (filter (\<lambda>x. t - x \<le> ?w) (ts @ [t]))) \<or> too_many p ts \<longleftrightarrow> too_many p (ts @ [t])"
    unfolding too_many_snoc[OF assms(1)] by (auto simp: algebra_simps)
  moreover have "fold record_failure (ts @ [t]) b = record_failure t b'" by (simp add: b'_def)
  moreover have "br_disabled (record_failure t b') \<longleftrightarrow> too_many p ts \<or> fp_max_failures p \<le> int (length (filter (\<lambda>x. t - x \<le> ?w) (ts @ [t])))"
    "br_failures (record_failure t b') = filter (\<lambda>x. t - x \<le> ?w) (ts @ [t])" "br_policy (record_failure t b') = p"
    unfolding record_failure_def Let_def IH(1) f using IH(1,2) by simp_all
  ultimately show ?case unfolding Let_def by (auto simp del: filter.simps filter_append)
qed


lemma breaker_fresh: "1 \<le> fp_max_failures p \<Longrightarrow> \<not> too_many p []"
  by (simp add: too_many_def)

lemma fold_failures: "fold breaker_step (map FailureAt ts) b = fold record_failure ts b"
  by (induction ts arbitrary: b) simp_all

text \<open>The events up to the last review, and the failures after it.\<close>

lemma events_split:
  "\<exists>ts. since_review es acc = ts \<and> (es = map FailureAt (drop (length acc) ts) \<and> take (length acc) ts = acc
     \<or> (\<exists>es'. es = es' @ Reviewed # map FailureAt ts))"
proof (induction es arbitrary: acc)
  case Nil
  then show ?case by simp
next
  case (Cons e es)
  show ?case
  proof (cases e)
    case (FailureAt t)
    have "take (length acc) (since_review es (acc @ [t])) = acc \<and>
        drop (length acc) (since_review es (acc @ [t])) = t # drop (Suc (length acc)) (since_review es (acc @ [t]))"
      if "take (Suc (length acc)) (since_review es (acc @ [t])) = acc @ [t]"
      using that by (metis append_take_drop_id append_eq_conv_conj append_Cons append_assoc append_Nil)
    then show ?thesis using Cons.IH[of "acc @ [t]"] FailureAt by (auto simp: Cons_eq_append_conv)
  next
    case Reviewed
    then show ?thesis using Cons.IH[of "[]"] by (auto simp: Cons_eq_append_conv)
  qed
qed

lemma positive_int_Inr: "require_positive_int x = Inr n \<Longrightarrow> 1 \<le> n"
  by (cases x) (auto split: if_splits)

lemma seconds_Inr: "require_seconds x = Inr s \<Longrightarrow> 0 < s"
  by (cases x rule: require_seconds.cases) (auto split: if_splits)

text \<open>
  C34: The failure breaker of the worker is open exactly when it should be. For a policy of at least one failure
  and a window above zero, and failures recorded at non-decreasing monotonic times, after any sequence
  of failures and reviews the profile is disabled if and only if, among the failures since the last
  review, the allowed number of consecutive failures lies within one window. So spread failures never
  disable a profile, a burst always does, and only a review re-enables it.
\<close>

theorem breaker_is_window_count:
  assumes "make_failure_policy a w = Inr p" and "sorted (since_review es [])"
  shows "br_disabled (fold breaker_step es (new_breaker p)) \<longleftrightarrow> too_many p (since_review es [])"
proof -
  have p: "1 \<le> fp_max_failures p" "0 \<le> fp_window_seconds p"
    using assms(1) by (auto simp: make_failure_policy_def bindE_eq_Inr dest: positive_int_Inr seconds_Inr)
  have pol: "br_policy (fold breaker_step es b) = br_policy b" for es b
  proof (induction es arbitrary: b)
    case (Cons e es)
    then show ?case by (cases e) (simp_all add: record_failure_def review_def Let_def)
  qed simp
  define ts where "ts = since_review es []"
  from events_split[of es "[]"] consider "es = map FailureAt ts" | es' where "es = es' @ Reviewed # map FailureAt ts"
    by (auto simp: ts_def)
  then obtain b where b: "fold breaker_step es (new_breaker p) = fold record_failure ts b" "br_policy b = p" "br_failures b = []"
    "\<not> br_disabled b"
  proof cases
    case 1
    then show ?thesis using that[of "new_breaker p"] by (simp add: fold_failures new_breaker_def)
  next
    case (2 es')
    then show ?thesis
      using that[of "review (fold breaker_step es' (new_breaker p))"] pol[of es' "new_breaker p"]
      by (simp add: fold_failures review_def new_breaker_def)
  qed
  then show ?thesis
    using breaker_state[OF p, of ts b] assms(2) breaker_fresh[OF p(1)] by (simp add: ts_def Let_def)
qed

theorem breaker_is_window_count_witness:
  "make_failure_policy (PInt 2) (PInt 600) = Inr default_failure_policy
   \<and> br_disabled (fold breaker_step [FailureAt 0, FailureAt 700, FailureAt 1300] (new_breaker default_failure_policy))
   \<and> \<not> br_disabled (fold breaker_step [FailureAt 0, FailureAt 700, Reviewed, FailureAt 1300] (new_breaker default_failure_policy))"
proof -
  have p: "make_failure_policy (PInt 2) (PInt 600) = Inr default_failure_policy"
    by (simp add: make_failure_policy_def default_failure_policy_def)
  have "too_many default_failure_policy [0, 700, 1300]"
    unfolding too_many_def by (intro exI[of _ 1]) (simp add: default_failure_policy_def)
  moreover have "\<not> too_many default_failure_policy [1300]" by (simp add: too_many_def default_failure_policy_def)
  ultimately show ?thesis
    using p breaker_is_window_count[OF p, of "[FailureAt 0, FailureAt 700, FailureAt 1300]"]
      breaker_is_window_count[OF p, of "[FailureAt 0, FailureAt 700, Reviewed, FailureAt 1300]"] by simp
qed

end
