(* ===== verification/Paper_Store.thy ===== *)
theory Paper_Store
  imports Pilot_Store "HOL-Library.List_Lexorder"
begin

text \<open>
  The store of the paper game, \<^verbatim>\<open>radar_v08/adapters/paper_store.py\<close>: one pretend wallet, its plays, their
  closes and the outside quotes that closed a play, in four append-only tables; and the step of
  \<^verbatim>\<open>radar_v08/paper_game.py\<close> over it.

  As in \<open>Pilot_Store\<close> the database is a record of tables, a row id is one more than the number of rows, a
  stored decimal is its value and a stored time an instant; \<^verbatim>\<open>CHECK\<close> constraints, unique indexes and triggers
  are conditions of the inserts. The code that reads quotes out of the spot snapshots is the same in both
  stores, so \<open>spot_observations\<close> and \<open>extra_observations\<close> are used here too. Rows of earlier versions have no exit
  levels (\<open>None\<close>). The schema is current: creating tables and adding columns is not modelled.
\<close>

section \<open>Data\<close>

datatype paper_failure =
  PF_INVALID_ROW | PF_INVALID_ARGUMENT | PF_OPEN_TRANSACTION | PF_NO_WALLET | PF_MALFORMED_ROW | PF_SQLITE_ERROR

text \<open>What the store raises: its own error with a code, an error of the money code, or an integer too large for SQLite.\<close>

datatype paper_exn = PaperStoreError paper_failure | PaperMoneyError py_exn | PaperIntTooLarge

text \<open>
  The recorded facts of a candidate: a mapping that \<^verbatim>\<open>json.dumps\<close> accepts, or anything else (not a mapping, a
  number that is not finite, a value of another type).
\<close>

datatype why_arg = WhyObject "(string \<times> json) list" | WhyRefused

text \<open>A candidate time that is not aware ISO text is \<open>Naive\<close>.\<close>

record paper_candidate =
  pa_event_id :: string
  pa_run_id :: string
  pa_asset :: string
  pa_pair :: string
  pa_quote :: string
  pa_direction :: pyval
  pa_bid :: pyval
  pa_ask :: pyval
  pa_snapshot_ts :: moment
  pa_status :: pyval
  pa_why :: why_arg
  pa_atr :: pyval
  pa_atr_pair :: pyval

record play_terms =
  tm_stake :: decimal
  tm_fee_bps :: decimal
  tm_max_open :: pyval

record wallet_row =
  wl_start_balance_cents :: int
  wl_currency :: string
  wl_recorded_at :: int

record wallet =
  wa_start_balance :: rat
  wa_currency :: string
  wa_recorded_at :: int

record stored_play =
  pl_play_id :: nat
  pl_event_id :: string
  pl_run_id :: string
  pl_asset :: string
  pl_pair :: string
  pl_quote :: string
  pl_direction :: direction
  pl_stake_cents :: int
  pl_fee_bps :: rat
  pl_hold_minutes :: int
  pl_entry_bid :: rat
  pl_entry_ask :: rat
  pl_entry_ts :: int
  pl_due_at :: int
  pl_why_json :: string
  pl_opened_at :: int
  pl_exit_policy :: "string option"
  pl_atr :: "rat option"
  pl_stop :: "rat option"
  pl_target :: "rat option"

record play_close =
  cl_close_id :: nat
  cl_play_id :: nat
  cl_exit_bid :: rat
  cl_exit_ask :: rat
  cl_exit_ts :: int
  cl_exit_snapshot_id :: int
  cl_due_at :: int
  cl_delay :: int
  cl_gross_mid_cents :: int
  cl_spread_cost_cents :: int
  cl_fees_cents :: int
  cl_net_cents :: int
  cl_outcome :: outcome
  cl_closed_at :: int
  cl_exit_reason :: "exit_reason option"
  cl_exit_source :: "string option"
  cl_record_lag :: "int option"

record play_quote =
  pq_play_id :: nat
  pq_pair :: string
  pq_bid :: rat
  pq_ask :: rat
  pq_observed_at :: int
  pq_source :: string
  pq_recorded_at :: int

record paper_db =
  pb_wallet :: "wallet_row option"
  pb_plays :: "stored_play list"
  pb_closes :: "play_close list"
  pb_exit_quotes :: "play_quote list"

definition empty_paper :: paper_db where
  "empty_paper = \<lparr>pb_wallet = None, pb_plays = [], pb_closes = [], pb_exit_quotes = []\<rparr>"

text \<open>
  Why a candidate did not open a play, with the problem of the quote or of the ATR where there is one; the two
  descriptive details (a pair mismatch, a level that is not positive) are left out.
\<close>

record skip =
  sk_event_id :: string
  sk_reason :: skip_reason
  sk_detail :: "quote_problem option"

record play_open_report =
  orp_opened :: "stored_play list"
  orp_skipped :: "skip list"

record settle_report =
  srp_closed :: "play_close list"
  srp_pending :: "nat list"

text \<open>
  The environment of a call: whether the connection already has an open transaction, and whether SQLite
  fails in a read before the transaction, in the transaction, or in the read back after the commit.
\<close>

record paper_env =
  qe_in_transaction :: bool
  qe_read_fault :: bool
  qe_write_fault :: bool
  qe_read_back_fault :: bool

section \<open>Helpers\<close>

definition liftP :: "py_exn + 'a \<Rightarrow> paper_exn + 'a" where
  "liftP r = (case r of Inl e \<Rightarrow> Inl (PaperMoneyError e) | Inr x \<Rightarrow> Inr x)"

fun paper_now :: "moment \<Rightarrow> paper_exn + int" where
  "paper_now (Aware t) = Inr t"
| "paper_now Naive = Inl (PaperStoreError PF_INVALID_ARGUMENT)"

definition MAX_AMOUNT :: rat where "MAX_AMOUNT = 1000000000"

text \<open>The product with 100 is taken in the interpreter's default context of 28 digits, then truncated; SQLite takes 64 bits.\<close>

definition play_cents :: "rat \<Rightarrow> paper_exn + int" where
  "play_cents v =
     (let p = ctx_mul default_context v HUNDRED; i = (if p < 0 then - \<lfloor>- p\<rfloor> else \<lfloor>p\<rfloor>)
      in if - (2 ^ 63) \<le> i \<and> i < 2 ^ 63 then Inr i else Inl PaperIntTooLarge)"

fun whole_cents_arg :: "decimal \<Rightarrow> paper_exn + rat" where
  "whole_cents_arg (DFin v) =
     (if 0 < v \<and> v \<le> MAX_AMOUNT
      then bindE (liftP (cents v)) (\<lambda>c. if v = c then Inr v else Inl (PaperStoreError PF_INVALID_ARGUMENT))
      else Inl (PaperStoreError PF_INVALID_ARGUMENT))"
| "whole_cents_arg _ = Inl (PaperStoreError PF_INVALID_ARGUMENT)"

text \<open>The text of a JSON value as \<^verbatim>\<open>json.dumps\<close> writes it with sorted keys and without escaping non-ASCII text.\<close>

fun joined :: "string \<Rightarrow> string list \<Rightarrow> string" where
  "joined sep [] = []"
| "joined sep [x] = x"
| "joined sep (x # xs) = x @ sep @ joined sep xs"

definition code_points :: "string \<Rightarrow> nat list" where
  "code_points s = map of_char s"

fun json_text :: "json \<Rightarrow> string" where
  "json_text (JArr vs) = ''['' @ joined '', '' (map json_text vs) @ '']''"
| "json_text (JObj ms) =
     ''{'' @ joined '', '' (map (\<lambda>(k, t). json_string False k @ '': '' @ t)
       (sort_key (\<lambda>m. code_points (fst m)) (map (\<lambda>(k, v). (k, json_text v)) ms))) @ ''}''"
| "json_text v = scalar_text False v"

section \<open>Reading\<close>

definition read_wallet :: "paper_db \<Rightarrow> wallet option" where
  "read_wallet db = map_option (\<lambda>r. \<lparr>wa_start_balance = from_cents (wl_start_balance_cents r), wa_currency = wl_currency r,
     wa_recorded_at = wl_recorded_at r\<rparr>) (pb_wallet db)"

definition play_closed :: "paper_db \<Rightarrow> nat \<Rightarrow> bool" where
  "play_closed db i \<longleftrightarrow> list_ex (\<lambda>c. cl_play_id c = i) (pb_closes db)"

definition read_open_plays :: "paper_db \<Rightarrow> stored_play list" where
  "read_open_plays db = filter (\<lambda>p. \<not> play_closed db (pl_play_id p)) (pb_plays db)"

definition play_stake :: "stored_play \<Rightarrow> rat" where
  "play_stake p = from_cents (pl_stake_cents p)"

definition wallet_balance :: "wallet \<Rightarrow> paper_db \<Rightarrow> paper_exn + rat" where
  "wallet_balance w db =
     liftP (balance (DFin (wa_start_balance w)) (map (\<lambda>c. DFin (from_cents (cl_net_cents c))) (pb_closes db)))"

definition current_balance :: "paper_db \<Rightarrow> paper_exn + rat option" where
  "current_balance db =
     (case read_wallet db of
        None \<Rightarrow> Inr None
      | Some w \<Rightarrow> bindE (wallet_balance w db) (\<lambda>b. Inr (Some b)))"

section \<open>Transactions\<close>

definition paper_tx ::
  "paper_env \<Rightarrow> (paper_db \<Rightarrow> paper_exn + 'r \<times> paper_db) \<Rightarrow> paper_db \<Rightarrow> (paper_exn + 'r) \<times> paper_db" where
  "paper_tx pe work db =
     (if qe_in_transaction pe then (Inl (PaperStoreError PF_OPEN_TRANSACTION), db)
      else if qe_write_fault pe then (Inl (PaperStoreError PF_SQLITE_ERROR), db)
      else body_result work db)"

text \<open>What is read after the commit; an error of SQLite is raised although the rows are committed.\<close>

definition read_back ::
  "paper_env \<Rightarrow> ('a \<Rightarrow> paper_db \<Rightarrow> paper_exn + 'r) \<Rightarrow> (paper_exn + 'a) \<times> paper_db \<Rightarrow> (paper_exn + 'r) \<times> paper_db" where
  "read_back pe f res =
     (case res of
        (Inl e, db) \<Rightarrow> (Inl e, db)
      | (Inr x, db) \<Rightarrow> (if qe_read_back_fault pe then Inl (PaperStoreError PF_SQLITE_ERROR) else f x db, db))"

section \<open>Wallet\<close>

fun currency_arg :: "pyval \<Rightarrow> paper_exn + string" where
  "currency_arg (PStr s) = (if strip s = [] then Inl (PaperStoreError PF_INVALID_ARGUMENT) else Inr s)"
| "currency_arg _ = Inl (PaperStoreError PF_INVALID_ARGUMENT)"

definition wallet_args :: "decimal \<Rightarrow> pyval \<Rightarrow> moment \<Rightarrow> paper_exn + rat \<times> string \<times> int" where
  "wallet_args start cur now =
     bindE (whole_cents_arg start) (\<lambda>s. bindE (currency_arg cur) (\<lambda>c. bindE (paper_now now) (\<lambda>t. Inr (s, c, t))))"

definition insert_wallet :: "rat \<Rightarrow> string \<Rightarrow> int \<Rightarrow> paper_db \<Rightarrow> paper_exn + unit \<times> paper_db" where
  "insert_wallet start cur t db =
     bindE (play_cents start) (\<lambda>c.
     if pb_wallet db \<noteq> None then Inr ((), db)
     else if c \<le> 0 \<or> cur = [] then Inl (PaperStoreError PF_SQLITE_ERROR)
     else Inr ((), db\<lparr>pb_wallet := Some \<lparr>wl_start_balance_cents = c, wl_currency = cur, wl_recorded_at = t\<rparr>\<rparr>))"

definition ensure_wallet ::
  "paper_env \<Rightarrow> decimal \<Rightarrow> pyval \<Rightarrow> moment \<Rightarrow> paper_db \<Rightarrow> (paper_exn + wallet) \<times> paper_db" where
  "ensure_wallet pe start cur now =
     with_args (wallet_args start cur now) (\<lambda>(s, c, t) db.
       if qe_read_fault pe then (Inl (PaperStoreError PF_SQLITE_ERROR), db)
       else case read_wallet db of
         Some w \<Rightarrow> (Inr w, db)
       | None \<Rightarrow>
           read_back pe (\<lambda>_ db'. case read_wallet db' of
               None \<Rightarrow> Inl (PaperStoreError PF_NO_WALLET) | Some w \<Rightarrow> Inr w)
             (paper_tx pe (insert_wallet s c t) db))"

section \<open>Opening\<close>

record checked_candidate =
  ck_candidate :: paper_candidate
  ck_entry_ts :: int
  ck_why_json :: string

definition check_paper_candidate :: "paper_candidate \<Rightarrow> paper_exn + checked_candidate" where
  "check_paper_candidate c =
     bindE (guardE (list_all (\<lambda>s. strip s \<noteq> []) [pa_event_id c, pa_run_id c, pa_asset c, pa_pair c, pa_quote c])
       (PaperStoreError PF_INVALID_ROW)) (\<lambda>_.
     case (pa_snapshot_ts c, pa_why c) of
       (Aware t, WhyObject ms) \<Rightarrow> Inr \<lparr>ck_candidate = c, ck_entry_ts = t, ck_why_json = json_text (JObj ms)\<rparr>
     | _ \<Rightarrow> Inl (PaperStoreError PF_INVALID_ROW))"

record checked_terms =
  ct_stake :: rat
  ct_fee_bps :: rat
  ct_max_open :: int

definition check_terms :: "play_terms \<Rightarrow> paper_exn + checked_terms" where
  "check_terms tm =
     bindE (whole_cents_arg (tm_stake tm)) (\<lambda>s.
     case (tm_fee_bps tm, tm_max_open tm) of
       (DFin f, PInt n) \<Rightarrow>
         if f < 0 \<or> n \<le> 0 then Inl (PaperStoreError PF_INVALID_ARGUMENT)
         else Inr \<lparr>ct_stake = s, ct_fee_bps = f, ct_max_open = n\<rparr>
     | _ \<Rightarrow> Inl (PaperStoreError PF_INVALID_ARGUMENT))"

fun direction_value :: "direction \<Rightarrow> string" where
  "direction_value LONG = ''LONG''"
| "direction_value SHORT = ''SHORT''"

definition exit_plan ::
  "paper_candidate \<Rightarrow> direction \<Rightarrow> quote \<Rightarrow> paper_exn + (skip + exit_levels_t)" where
  "exit_plan c dir q =
     (case validate_atr (pa_atr c) of
        Inl problem \<Rightarrow> Inr (Inl \<lparr>sk_event_id = pa_event_id c, sk_reason = SKIP_NO_VALID_ATR, sk_detail = Some problem\<rparr>)
      | Inr atr \<Rightarrow>
          if pa_atr_pair c \<noteq> PStr (pa_pair c)
          then Inr (Inl \<lparr>sk_event_id = pa_event_id c, sk_reason = SKIP_NO_VALID_ATR, sk_detail = None\<rparr>)
          else bindE (liftP (exit_levels dir q (DFin atr))) (\<lambda>levels.
            Inr (case levels of
                None \<Rightarrow> Inl \<lparr>sk_event_id = pa_event_id c, sk_reason = SKIP_INVALID_LEVELS, sk_detail = None\<rparr>
              | Some lv \<Rightarrow> Inr lv)))"

definition play_check :: "stored_play \<Rightarrow> bool" where
  "play_check p \<longleftrightarrow>
     pl_event_id p \<noteq> [] \<and> pl_run_id p \<noteq> [] \<and> pl_asset p \<noteq> [] \<and> pl_pair p \<noteq> [] \<and> pl_quote p \<noteq> []
     \<and> 0 < pl_stake_cents p \<and> 0 < pl_hold_minutes p \<and> pl_entry_ts p < pl_due_at p
     \<and> (pl_exit_policy p \<noteq> Some [])"

definition insert_play :: "stored_play \<Rightarrow> paper_db \<Rightarrow> paper_exn + paper_db" where
  "insert_play p db =
     (if list_ex (\<lambda>x. pl_event_id x = pl_event_id p) (pb_plays db) \<or> \<not> play_check p then Inl (PaperStoreError PF_SQLITE_ERROR)
      else Inr (db\<lparr>pb_plays := pb_plays db @ [p]\<rparr>))"

definition play_row :: "checked_terms \<Rightarrow> int \<Rightarrow> checked_candidate \<Rightarrow> direction \<Rightarrow> quote \<Rightarrow> exit_levels_t \<Rightarrow> nat \<Rightarrow> paper_exn + stored_play" where
  "play_row tm t item dir q lv play_id =
     (let c = ck_candidate item in
      bindE (liftP (due_at (Aware (ck_entry_ts item)) (hold_minutes lv))) (\<lambda>due.
      bindE (play_cents (ct_stake tm)) (\<lambda>stake.
      Inr \<lparr>pl_play_id = play_id, pl_event_id = pa_event_id c, pl_run_id = pa_run_id c, pl_asset = pa_asset c,
          pl_pair = pa_pair c, pl_quote = pa_quote c, pl_direction = dir, pl_stake_cents = stake,
          pl_fee_bps = ct_fee_bps tm, pl_hold_minutes = hold_minutes lv, pl_entry_bid = bid q, pl_entry_ask = ask q,
          pl_entry_ts = ck_entry_ts item, pl_due_at = due, pl_why_json = ck_why_json item, pl_opened_at = t,
          pl_exit_policy = Some (policy_id lv), pl_atr = Some (lv_atr lv), pl_stop = Some (lv_stop lv),
          pl_target = Some (lv_target lv)\<rparr>)))"

text \<open>The variables of the loop over the candidates.\<close>

record open_loop =
  ol_opened :: "nat list"
  ol_skipped :: "skip list"
  ol_positions :: "open_position list"
  ol_recorded :: "string list"

definition skip_play :: "open_loop \<Rightarrow> skip \<Rightarrow> open_loop" where
  "skip_play lp s = lp\<lparr>ol_skipped := ol_skipped lp @ [s]\<rparr>"

definition add_play :: "open_loop \<Rightarrow> paper_candidate \<Rightarrow> rat \<Rightarrow> nat \<Rightarrow> open_loop" where
  "add_play lp c stake i = lp\<lparr>ol_opened := ol_opened lp @ [i], ol_recorded := pa_event_id c # ol_recorded lp,
     ol_positions := ol_positions lp @ [\<lparr>op_asset = pa_asset c, op_stake = stake\<rparr>]\<rparr>"

text \<open>What is decided about a candidate before anything is written: a skip, or the quote and the levels of its play.\<close>

definition judge_play ::
  "checked_terms \<Rightarrow> rat \<Rightarrow> checked_candidate \<Rightarrow> open_loop \<Rightarrow> paper_exn + (skip + direction \<times> quote \<times> exit_levels_t)" where
  "judge_play tm bal item lp =
     (let c = ck_candidate item;
          skipped = (\<lambda>r d. Inr (Inl \<lparr>sk_event_id = pa_event_id c, sk_reason = r, sk_detail = d\<rparr>)) in
      if pa_event_id c \<in> set (ol_recorded lp) then skipped ALREADY_RECORDED None
      else case parse_direction (pa_direction c) of
        None \<Rightarrow> skipped NO_DIRECTION None
      | Some dir \<Rightarrow>
          (case validate_quote (pa_bid c) (pa_ask c) (pa_status c) of
             Inl problem \<Rightarrow> skipped INVALID_PRICE (Some problem)
           | Inr q \<Rightarrow>
               bindE (exit_plan c dir q) (\<lambda>plan.
               case plan of
                 Inl s \<Rightarrow> Inr (Inl s)
               | Inr lv \<Rightarrow>
                   bindE (liftP (admit (PStr (direction_value dir)) (pa_asset c) (ol_positions lp) bal (DFin (ct_stake tm)) (ct_max_open tm)))
                     (\<lambda>refusal.
                     case refusal of
                       Some r \<Rightarrow> skipped r None
                     | None \<Rightarrow> Inr (Inr (dir, q, lv))))))"

definition open_play_step ::
  "checked_terms \<Rightarrow> rat \<Rightarrow> int \<Rightarrow> checked_candidate \<Rightarrow> open_loop \<times> paper_db \<Rightarrow> paper_exn + open_loop \<times> paper_db" where
  "open_play_step tm bal t item st =
     (case st of (lp, db) \<Rightarrow>
        bindE (judge_play tm bal item lp) (\<lambda>verdict.
        case verdict of
          Inl s \<Rightarrow> Inr (skip_play lp s, db)
        | Inr (dir, q, lv) \<Rightarrow>
            bindE (play_row tm t item dir q lv (Suc (length (pb_plays db)))) (\<lambda>p.
            bindE (insert_play p db) (\<lambda>db'.
            Inr (add_play lp (ck_candidate item) (ct_stake tm) (pl_play_id p), db')))))"

definition start_loop :: "paper_db \<Rightarrow> open_loop" where
  "start_loop db = \<lparr>ol_opened = [], ol_skipped = [],
     ol_positions = map (\<lambda>p. \<lparr>op_asset = pl_asset p, op_stake = play_stake p\<rparr>) (read_open_plays db),
     ol_recorded = map pl_event_id (pb_plays db)\<rparr>"

definition open_plays_work ::
  "checked_terms \<Rightarrow> int \<Rightarrow> checked_candidate list \<Rightarrow> paper_db \<Rightarrow> paper_exn + open_loop \<times> paper_db" where
  "open_plays_work tm t checked db =
     (case read_wallet db of
        None \<Rightarrow> Inl (PaperStoreError PF_NO_WALLET)
      | Some w \<Rightarrow>
          bindE (wallet_balance w db) (\<lambda>bal. foldE (open_play_step tm bal t) checked (start_loop db, db)))"

definition open_args ::
  "paper_candidate list \<Rightarrow> play_terms \<Rightarrow> moment \<Rightarrow> paper_exn + int \<times> checked_terms \<times> checked_candidate list" where
  "open_args candidates terms now =
     bindE (paper_now now) (\<lambda>t.
     bindE (check_terms terms) (\<lambda>tm.
     bindE (mapE check_paper_candidate candidates) (\<lambda>checked. Inr (t, tm, checked))))"

definition open_plays ::
  "paper_env \<Rightarrow> paper_candidate list \<Rightarrow> play_terms \<Rightarrow> moment \<Rightarrow> paper_db \<Rightarrow> (paper_exn + play_open_report) \<times> paper_db" where
  "open_plays pe candidates terms now =
     with_args (open_args candidates terms now) (\<lambda>(t, tm, checked) db.
       if checked = [] then (Inr \<lparr>orp_opened = [], orp_skipped = []\<rparr>, db)
       else read_back pe (\<lambda>lp db'. Inr \<lparr>orp_opened = filter (\<lambda>p. pl_play_id p \<in> set (ol_opened lp)) (pb_plays db'),
                orp_skipped = ol_skipped lp\<rparr>)
              (paper_tx pe (open_plays_work tm t checked) db))"

section \<open>Closing\<close>

definition check_play_quote :: "observed_quote \<Rightarrow> paper_exn + extra_quote" where
  "check_play_quote q =
     (case (oq_pair q, oq_source q, oq_observed_at q) of
        (PStr p, PStr s, Aware t) \<Rightarrow>
          if strip p = [] \<or> strip s = [] \<or> s = SPOT_SNAPSHOT_SOURCE then Inl (PaperStoreError PF_INVALID_ARGUMENT)
          else Inr \<lparr>eq_pair = p, eq_bid = oq_bid q, eq_ask = oq_ask q, eq_observed_at = t, eq_source = s\<rparr>
      | _ \<Rightarrow> Inl (PaperStoreError PF_INVALID_ARGUMENT))"

fun check_play_ids :: "pyval list option \<Rightarrow> paper_exn + int list option" where
  "check_play_ids None = Inr None"
| "check_play_ids (Some vs) =
     bindE (mapE (\<lambda>v. case v of PInt i \<Rightarrow> Inr i | _ \<Rightarrow> Inl (PaperStoreError PF_INVALID_ARGUMENT)) vs) (\<lambda>ids. Inr (Some ids))"

record play_exit =
  px_play :: stored_play
  px_observation :: observation
  px_reason :: "exit_reason option"

fun first_play_exit :: "stored_play \<Rightarrow> rat \<Rightarrow> rat \<Rightarrow> observation list \<Rightarrow> paper_exn + play_exit option" where
  "first_play_exit p stop target [] = Inr None"
| "first_play_exit p stop target (ob # obs) =
     bindE (liftP (exit_decision (pl_direction p) (DFin stop) (DFin target) (Aware (pl_due_at p))
         (Aware (ob_observed_at ob)) (ob_quote ob))) (\<lambda>reason.
     case reason of
       Some r \<Rightarrow> Inr (Some \<lparr>px_play = p, px_observation = ob, px_reason = Some r\<rparr>)
     | None \<Rightarrow> first_play_exit p stop target obs)"

definition play_observations :: "snapshot list \<Rightarrow> extra_quote list \<Rightarrow> int \<Rightarrow> stored_play \<Rightarrow> observation list" where
  "play_observations snaps extras now p =
     sort_key ob_order (spot_observations snaps (pl_pair p) (pl_entry_ts p) now False
       @ extra_observations extras (pl_pair p) (pl_entry_ts p) now False)"

definition find_play_exit :: "snapshot list \<Rightarrow> extra_quote list \<Rightarrow> int \<Rightarrow> stored_play \<Rightarrow> paper_exn + play_exit option" where
  "find_play_exit snaps extras now p =
     (case (pl_stop p, pl_target p) of
        (Some stop, Some target) \<Rightarrow> first_play_exit p stop target (play_observations snaps extras now p)
      | _ \<Rightarrow>
          if now < pl_due_at p then Inr None
          else (case spot_observations snaps (pl_pair p) (pl_due_at p) now True of
              [] \<Rightarrow> Inr None
            | ob # _ \<Rightarrow> Inr (Some \<lparr>px_play = p, px_observation = ob, px_reason = None\<rparr>)))"

definition insert_play_quote :: "play_quote \<Rightarrow> paper_db \<Rightarrow> paper_exn + nat \<times> paper_db" where
  "insert_play_quote x db =
     (if pq_pair x = [] \<or> pq_source x = [] \<or> pq_source x = SPOT_SNAPSHOT_SOURCE \<or> pq_recorded_at x < pq_observed_at x
      then Inl (PaperStoreError PF_SQLITE_ERROR)
      else Inr (Suc (length (pb_exit_quotes db)), db\<lparr>pb_exit_quotes := pb_exit_quotes db @ [x]\<rparr>))"

definition play_close_check :: "play_close \<Rightarrow> bool" where
  "play_close_check c \<longleftrightarrow>
     cl_due_at c \<le> cl_exit_ts c \<and> 0 \<le> cl_delay c \<and> 0 \<le> cl_spread_cost_cents c \<and> 0 \<le> cl_fees_cents c
     \<and> cl_net_cents c = cl_gross_mid_cents c - cl_spread_cost_cents c - cl_fees_cents c
     \<and> (case cl_outcome c of WIN \<Rightarrow> 0 < cl_net_cents c | LOSS \<Rightarrow> cl_net_cents c < 0 | FLAT \<Rightarrow> cl_net_cents c = 0)
     \<and> cl_exit_source c \<noteq> Some [] \<and> (\<forall>lag \<in> set_option (cl_record_lag c). 0 \<le> lag)"

definition insert_play_close :: "play_close \<Rightarrow> paper_db \<Rightarrow> paper_exn + paper_db" where
  "insert_play_close c db =
     (if play_closed db (cl_play_id c) \<or> \<not> list_ex (\<lambda>p. pl_play_id p = cl_play_id c) (pb_plays db) \<or> \<not> play_close_check c
      then Inl (PaperStoreError PF_SQLITE_ERROR)
      else Inr (db\<lparr>pb_closes := pb_closes db @ [c]\<rparr>))"

text \<open>The source and the id of the closing quote; an outside quote is stored first. A legacy close has no source.\<close>

definition play_evidence :: "play_exit \<Rightarrow> int \<Rightarrow> paper_db \<Rightarrow> paper_exn + string option \<times> int \<times> paper_db" where
  "play_evidence x t db =
     (let p = px_play x; ob = px_observation x; q = ob_quote ob in
      case px_reason x of
        None \<Rightarrow> Inr (None, ob_ident ob, db)
      | Some _ \<Rightarrow>
          (case ob_extra ob of
             None \<Rightarrow> Inr (Some SPOT_SNAPSHOT_SOURCE, ob_ident ob, db)
           | Some e \<Rightarrow>
               bindE (insert_play_quote \<lparr>pq_play_id = pl_play_id p, pq_pair = pl_pair p, pq_bid = bid q, pq_ask = ask q,
                   pq_observed_at = ob_observed_at ob, pq_source = eq_source e, pq_recorded_at = t\<rparr> db) (\<lambda>(i, db').
               Inr (Some (eq_source e), int i, db'))))"

text \<open>The close row. A stop or target exit is due when it was touched.\<close>

definition play_close_row :: "play_exit \<Rightarrow> int \<Rightarrow> play_result \<Rightarrow> string option \<Rightarrow> int \<Rightarrow> nat \<Rightarrow> paper_exn + play_close" where
  "play_close_row x t r source exit_id close_id =
     (let p = px_play x; ob = px_observation x; q = ob_quote ob; seen = ob_observed_at ob;
          touched = (px_reason x = Some STOP \<or> px_reason x = Some TARGET);
          due = (if touched then seen else pl_due_at p); delay = (if touched then 0 else seen - pl_due_at p) in
      bindE (play_cents (gross_mid r)) (\<lambda>gross.
      bindE (play_cents (spread_cost r)) (\<lambda>spread.
      bindE (play_cents (pr_fees r)) (\<lambda>fees.
      bindE (play_cents (pr_net r)) (\<lambda>net.
      Inr \<lparr>cl_close_id = close_id, cl_play_id = pl_play_id p, cl_exit_bid = bid q, cl_exit_ask = ask q, cl_exit_ts = seen,
          cl_exit_snapshot_id = exit_id, cl_due_at = due, cl_delay = delay, cl_gross_mid_cents = gross,
          cl_spread_cost_cents = spread, cl_fees_cents = fees, cl_net_cents = net, cl_outcome = pr_outcome r,
          cl_closed_at = t, cl_exit_reason = px_reason x, cl_exit_source = source,
          cl_record_lag = (if px_reason x = None then None else Some (t - seen))\<rparr>)))))"

definition write_play_close :: "play_exit \<Rightarrow> int \<Rightarrow> paper_db \<Rightarrow> paper_exn + nat option \<times> paper_db" where
  "write_play_close x t db =
     (let p = px_play x in
      if play_closed db (pl_play_id p) then Inr (None, db)
      else (case stored_quote (pl_entry_bid p) (pl_entry_ask p) of
          Inl _ \<Rightarrow> Inl (PaperStoreError PF_MALFORMED_ROW)
        | Inr entry \<Rightarrow>
            bindE (liftP (settle (pl_direction p) (DFin (play_stake p)) (DFin (pl_fee_bps p)) entry
                (ob_quote (px_observation x)))) (\<lambda>r.
            bindE (play_evidence x t db) (\<lambda>(source, exit_id, db1).
            bindE (play_close_row x t r source exit_id (Suc (length (pb_closes db1)))) (\<lambda>c.
            bindE (insert_play_close c db1) (\<lambda>db2. Inr (Some (cl_close_id c), db2)))))))"

definition wanted_play :: "int list option \<Rightarrow> stored_play \<Rightarrow> bool" where
  "wanted_play ids p = (case ids of None \<Rightarrow> True | Some is \<Rightarrow> int (pl_play_id p) \<in> set is)"

text \<open>The read phase, before the transaction: the exits that are due, and the plays that wait for a quote.\<close>

definition collect_play ::
  "snapshot list \<Rightarrow> extra_quote list \<Rightarrow> int \<Rightarrow> stored_play \<Rightarrow> play_exit list \<times> nat list \<Rightarrow> paper_exn + play_exit list \<times> nat list" where
  "collect_play snaps extras t p acc =
     bindE (find_play_exit snaps extras t p) (\<lambda>x.
     Inr (case x of
         Some e \<Rightarrow> (fst acc @ [e], snd acc)
       | None \<Rightarrow> if pl_due_at p \<le> t then (fst acc, snd acc @ [pl_play_id p]) else acc))"

definition collect_plays ::
  "snapshot list \<Rightarrow> extra_quote list \<Rightarrow> int \<Rightarrow> int list option \<Rightarrow> paper_db \<Rightarrow> paper_exn + play_exit list \<times> nat list" where
  "collect_plays snaps extras t ids db =
     foldE (collect_play snaps extras t) (filter (wanted_play ids) (read_open_plays db)) ([], [])"

text \<open>The write phase, which may run on a database that other writers changed since the read phase.\<close>

definition write_play_closes :: "play_exit list \<Rightarrow> int \<Rightarrow> paper_db \<Rightarrow> paper_exn + nat list \<times> paper_db" where
  "write_play_closes exits t db =
     foldE (\<lambda>x (ids, db). bindE (write_play_close x t db) (\<lambda>(i, db'). Inr (case i of None \<Rightarrow> ids | Some n \<Rightarrow> ids @ [n], db')))
       exits ([], db)"

definition write_phase ::
  "paper_env \<Rightarrow> int \<Rightarrow> play_exit list \<times> nat list \<Rightarrow> paper_db \<Rightarrow> (paper_exn + settle_report) \<times> paper_db" where
  "write_phase pe t found db =
     (if fst found = [] then (Inr \<lparr>srp_closed = [], srp_pending = snd found\<rparr>, db)
      else read_back pe (\<lambda>ids db'. Inr \<lparr>srp_closed = filter (\<lambda>c. cl_close_id c \<in> set ids) (pb_closes db'), srp_pending = snd found\<rparr>)
             (paper_tx pe (write_play_closes (fst found) t) db))"

definition close_plays_args ::
  "moment \<Rightarrow> observed_quote list \<Rightarrow> pyval list option \<Rightarrow> paper_exn + int \<times> extra_quote list \<times> int list option" where
  "close_plays_args now qs play_ids =
     bindE (paper_now now) (\<lambda>t. bindE (mapE check_play_quote qs) (\<lambda>extras.
     bindE (check_play_ids play_ids) (\<lambda>ids. Inr (t, extras, ids))))"

definition close_plays ::
  "paper_env \<Rightarrow> snapshot list \<Rightarrow> moment \<Rightarrow> observed_quote list \<Rightarrow> pyval list option \<Rightarrow> paper_db
    \<Rightarrow> (paper_exn + settle_report) \<times> paper_db" where
  "close_plays pe snaps now qs play_ids =
     with_args (close_plays_args now qs play_ids) (\<lambda>(t, extras, ids) db.
       if qe_in_transaction pe then (Inl (PaperStoreError PF_OPEN_TRANSACTION), db)
       else if qe_read_fault pe then (Inl (PaperStoreError PF_SQLITE_ERROR), db)
       else (case collect_plays snaps extras t ids db of
           Inl e \<Rightarrow> (Inl e, db)
         | Inr found \<Rightarrow> write_phase pe t found db))"

definition settle_due :: "paper_env \<Rightarrow> snapshot list \<Rightarrow> moment \<Rightarrow> paper_db \<Rightarrow> (paper_exn + settle_report) \<times> paper_db" where
  "settle_due pe snaps now = close_plays pe snaps now [] None"

section \<open>The step of the game\<close>

text \<open>The start balance, the currency and the terms of the configuration are arguments.\<close>

record paper_config =
  pg_start_balance :: decimal
  pg_currency :: pyval
  pg_terms :: play_terms

definition prepare :: "paper_env \<Rightarrow> paper_config \<Rightarrow> moment \<Rightarrow> paper_db \<Rightarrow> (paper_exn + wallet) \<times> paper_db" where
  "prepare pe cfg now = ensure_wallet pe (pg_start_balance cfg) (pg_currency cfg) now"

definition prepared ::
  "paper_env \<Rightarrow> paper_config \<Rightarrow> moment \<Rightarrow> (paper_db \<Rightarrow> (paper_exn + 'r) \<times> paper_db) \<Rightarrow> paper_db \<Rightarrow> (paper_exn + 'r) \<times> paper_db" where
  "prepared pe cfg now f db = (case prepare pe cfg now db of (Inl e, db1) \<Rightarrow> (Inl e, db1) | (Inr _, db1) \<Rightarrow> f db1)"

record play_counts =
  pn_opened :: nat
  pn_closed :: nat
  pn_pending :: nat
  pn_skipped :: "skip_reason \<Rightarrow> nat"

definition settle_counts :: "settle_report \<Rightarrow> play_counts" where
  "settle_counts rep = \<lparr>pn_opened = 0, pn_closed = length (srp_closed rep), pn_pending = length (srp_pending rep),
     pn_skipped = (\<lambda>_. 0)\<rparr>"

definition open_counts :: "play_open_report \<Rightarrow> play_counts" where
  "open_counts rep = \<lparr>pn_opened = length (orp_opened rep), pn_closed = 0, pn_pending = 0,
     pn_skipped = (\<lambda>r. length (filter (\<lambda>s. sk_reason s = r) (orp_skipped rep)))\<rparr>"

definition game_settle ::
  "paper_env \<Rightarrow> paper_env \<Rightarrow> paper_config \<Rightarrow> snapshot list \<Rightarrow> moment \<Rightarrow> paper_db \<Rightarrow> (paper_exn + play_counts) \<times> paper_db" where
  "game_settle pe pe' cfg snaps now =
     prepared pe cfg now (\<lambda>db. apfst (map_sum id settle_counts) (settle_due pe' snaps now db))"

definition open_for_events ::
  "paper_env \<Rightarrow> paper_env \<Rightarrow> paper_config \<Rightarrow> paper_candidate list \<Rightarrow> moment \<Rightarrow> play_terms option \<Rightarrow> paper_db
    \<Rightarrow> (paper_exn + play_counts) \<times> paper_db" where
  "open_for_events pe pe' cfg candidates now terms =
     prepared pe cfg now (\<lambda>db. apfst (map_sum id open_counts)
       (open_plays pe' candidates (case terms of None \<Rightarrow> pg_terms cfg | Some tm \<Rightarrow> tm) now db))"

end
