(* ===== verification/Paper_Safety.thy ===== *)
theory Paper_Safety
  imports Paper_Store Pilot_Safety "HOL-Library.Sublist"
begin

text \<open>
  Safety of the paper store. Every transaction is a sequence of elementary changes of the database
  (\<open>paper_change\<close>), so what holds of the tables is proved once over the changes. The database may start
  with any rows that the constraints of the tables allow, so rows of earlier versions are included. Between the
  read phase and the write phase of \<^verbatim>\<open>close_plays\<close> other writers may run.
\<close>

section \<open>Cents\<close>

lemma whole_cents_of_int [simp]: "whole_cents (of_int k / 100)"
  unfolding whole_cents_def by blast

lemma from_cents_exact:
  assumes "\<bar>i\<bar> \<le> 10 ^ 28"
  shows "from_cents i = of_int i / 100"
proof -
  have "representable 28 (of_int i / 100)"
    using representable_dec_value[of i 28 "-2"] assms by (simp only: dec_value_cents)
  then show ?thesis by (simp add: from_cents_def HUNDRED_def ctx_fix_exact)
qed

lemma play_cents_exact:
  assumes "play_cents v = Inr i" and "whole_cents v"
  shows "v = of_int i / 100" "\<bar>i\<bar> \<le> 2 ^ 63"
proof -
  obtain k :: int where k: "v = of_int k / 100" using assms(2) by (auto simp: whole_cents_def)
  let ?p = "ctx_mul default_context v HUNDRED"
  have p: "?p = ctx_fix default_context (of_int k)" by (simp add: ctx_mul_def HUNDRED_def k)
  have b: "- (2 ^ 63) \<le> i" "i < 2 ^ 63" "i = (if ?p < 0 then - \<lfloor>- ?p\<rfloor> else \<lfloor>?p\<rfloor>)"
    using assms(1) by (auto simp: play_cents_def Let_def split: if_splits)
  then show "\<bar>i\<bar> \<le> 2 ^ 63" by linarith
  have small: "\<bar>?p\<bar> < 10 ^ 20"
  proof -
    have "\<bar>?p\<bar> \<le> of_int (\<bar>i\<bar> + 1)"
      using b(3) by (auto split: if_splits) linarith+
    moreover have "\<bar>i\<bar> + 1 < 10 ^ 20" using b(1,2) by simp
    then have "(of_int (\<bar>i\<bar> + 1) :: rat) < of_int (10 ^ 20)" by (simp only: of_int_less_iff)
    ultimately show ?thesis by simp
  qed
  have rep: "representable (prec default_context) (of_int m :: rat)" if "\<bar>m\<bar> \<le> 10 ^ 28" for m :: int
    using representable_dec_value[of m 28 0] that by (simp add: dec_value_def)
  have "\<bar>k\<bar> \<le> 10 ^ 28"
  proof (rule ccontr)
    assume "\<not> \<bar>k\<bar> \<le> 10 ^ 28"
    then consider "10 ^ 28 \<le> k" | "k \<le> - (10 ^ 28)" by linarith
    then have "(10 ^ 28 :: rat) \<le> \<bar>?p\<bar>"
    proof cases
      case 1
      then have "(of_int (10 ^ 28) :: rat) \<le> of_int k" by (simp only: of_int_le_iff)
      then have "of_int (10 ^ 28) \<le> ?p"
        unfolding p by (rule ctx_fix_ge_representable[OF default_context_simps(1) rep, rotated]) simp
      then show ?thesis by simp
    next
      case 2
      then have "(of_int k :: rat) \<le> of_int (- (10 ^ 28))" by (simp only: of_int_le_iff)
      then have "?p \<le> of_int (- (10 ^ 28))"
        unfolding p by (rule ctx_fix_le_representable[OF default_context_simps(1) rep, rotated]) simp
      then show ?thesis by simp
    qed
    then show False using small by simp
  qed
  then have "?p = of_int k" unfolding p by (rule ctx_fix_exact[OF default_context_simps(1) rep])
  then have "i = k" using b(3) by (auto split: if_splits)
  then show "v = of_int i / 100" by (simp add: k)
qed

lemma liftP_Inr [simp]: "liftP r = Inr x \<longleftrightarrow> r = Inr x"
  by (cases r) (auto simp: liftP_def)

lemma whole_cents_arg_Inr:
  "whole_cents_arg d = Inr v \<Longrightarrow> d = DFin v \<and> whole_cents v \<and> 0 < v \<and> v \<le> MAX_AMOUNT"
  by (cases d) (auto simp: bindE_eq_Inr split: if_splits dest: cents_whole_cents)

section \<open>The tables\<close>

text \<open>What the constraints of the tables, and 64-bit integers, give.\<close>

definition paper_ok :: "paper_db \<Rightarrow> bool" where
  "paper_ok db \<longleftrightarrow>
     (\<forall>w \<in> set_option (pb_wallet db). 0 < wl_start_balance_cents w \<and> wl_start_balance_cents w \<le> 2 ^ 63)
     \<and> map pl_play_id (pb_plays db) = [1..<Suc (length (pb_plays db))]
     \<and> distinct (map pl_event_id (pb_plays db))
     \<and> (\<forall>p \<in> set (pb_plays db). play_check p \<and> pl_stake_cents p \<le> 2 ^ 63)
     \<and> map cl_close_id (pb_closes db) = [1..<Suc (length (pb_closes db))]
     \<and> distinct (map cl_play_id (pb_closes db))
     \<and> (\<forall>c \<in> set (pb_closes db). cl_play_id c \<in> pl_play_id ` set (pb_plays db) \<and> play_close_check c \<and> \<bar>cl_net_cents c\<bar> \<le> 2 ^ 63)"

text \<open>The cash in cents: the start balance and the nets, less the stakes of the open plays.\<close>

definition cash_cents :: "paper_db \<Rightarrow> int" where
  "cash_cents db = (case pb_wallet db of None \<Rightarrow> 0 | Some w \<Rightarrow> wl_start_balance_cents w)
     + sum_list (map cl_net_cents (pb_closes db)) - sum_list (map pl_stake_cents (read_open_plays db))"

text \<open>A bound on the number of rows under which sums in a context of 50 digits are exact.\<close>

definition few_rows :: "paper_db \<Rightarrow> bool" where
  "few_rows db \<longleftrightarrow> length (pb_plays db) \<le> 10 ^ 20 \<and> length (pb_closes db) \<le> 10 ^ 20"

section \<open>Elementary changes\<close>

text \<open>A play with the EX-1 levels of its own entry quote.\<close>

definition play_true :: "stored_play \<Rightarrow> bool" where
  "play_true p \<longleftrightarrow> 0 < pl_entry_bid p \<and> pl_entry_bid p \<le> pl_entry_ask p \<and> 0 \<le> pl_fee_bps p
     \<and> pl_exit_policy p = Some EX1_POLICY_ID \<and> pl_due_at p = pl_entry_ts p + seconds 86400
     \<and> (\<exists>atr lv. pl_atr p = Some atr \<and> pl_stop p = Some (lv_stop lv) \<and> pl_target p = Some (lv_target lv)
          \<and> exit_levels (pl_direction p) \<lparr>bid = pl_entry_bid p, ask = pl_entry_ask p\<rparr> (DFin atr) = Inr (Some lv))"

text \<open>A close copies the play, the observation and the reason that were found and the amounts of the settlement.\<close>

definition close_from :: "play_exit \<Rightarrow> int \<Rightarrow> play_close \<Rightarrow> bool" where
  "close_from x t c \<longleftrightarrow>
     cl_play_id c = pl_play_id (px_play x) \<and> cl_exit_reason c = px_reason x
     \<and> cl_exit_bid c = bid (ob_quote (px_observation x)) \<and> cl_exit_ask c = ask (ob_quote (px_observation x))
     \<and> cl_exit_ts c = ob_observed_at (px_observation x) \<and> cl_closed_at c = t
     \<and> (\<exists>r. settle (pl_direction (px_play x)) (DFin (play_stake (px_play x))) (DFin (pl_fee_bps (px_play x)))
            \<lparr>bid = pl_entry_bid (px_play x), ask = pl_entry_ask (px_play x)\<rparr> (ob_quote (px_observation x)) = Inr r
          \<and> gross_mid r = of_int (cl_gross_mid_cents c) / 100 \<and> spread_cost r = of_int (cl_spread_cost_cents c) / 100
          \<and> pr_fees r = of_int (cl_fees_cents c) / 100 \<and> pr_net r = of_int (cl_net_cents c) / 100
          \<and> cl_outcome c = pr_outcome r)"

inductive paper_change :: "(play_exit \<times> int) set \<Rightarrow> int \<Rightarrow> paper_db \<Rightarrow> paper_db \<Rightarrow> bool" for F N where
  WalletP: "pb_wallet db = None \<Longrightarrow> 0 < wl_start_balance_cents w \<Longrightarrow> wl_start_balance_cents w \<le> 2 ^ 63 \<Longrightarrow>
    paper_change F N db (db\<lparr>pb_wallet := Some w\<rparr>)"
| PlayP: "pl_play_id p = Suc (length (pb_plays db)) \<Longrightarrow> pl_event_id p \<notin> pl_event_id ` set (pb_plays db) \<Longrightarrow>
    play_check p \<Longrightarrow> pl_stake_cents p \<le> 2 ^ 63 \<Longrightarrow> play_true p \<Longrightarrow>
    pl_asset p \<notin> pl_asset ` set (read_open_plays db) \<Longrightarrow> int (length (read_open_plays db)) < N \<Longrightarrow>
    (few_rows db \<Longrightarrow> pl_stake_cents p \<le> cash_cents db) \<Longrightarrow>
    paper_change F N db (db\<lparr>pb_plays := pb_plays db @ [p]\<rparr>)"
| QuoteP: "paper_change F N db (db\<lparr>pb_exit_quotes := pb_exit_quotes db @ [q]\<rparr>)"
| CloseP: "\<not> play_closed db (cl_play_id c) \<Longrightarrow> cl_play_id c \<in> pl_play_id ` set (pb_plays db) \<Longrightarrow> play_close_check c \<Longrightarrow>
    \<bar>cl_net_cents c\<bar> \<le> 2 ^ 63 \<Longrightarrow> cl_close_id c = Suc (length (pb_closes db)) \<Longrightarrow> (x, t) \<in> F \<Longrightarrow> close_from x t c \<Longrightarrow>
    paper_change F N db (db\<lparr>pb_closes := pb_closes db @ [c]\<rparr>)"

abbreviation paper_changes :: "(play_exit \<times> int) set \<Rightarrow> int \<Rightarrow> paper_db \<Rightarrow> paper_db \<Rightarrow> bool" where
  "paper_changes F N \<equiv> (paper_change F N)\<^sup>*\<^sup>*"

lemma paper_ok_change: "paper_change F N db db' \<Longrightarrow> paper_ok db \<Longrightarrow> paper_ok db'"
proof (induction rule: paper_change.induct)
  case (PlayP p db)
  then show ?case unfolding paper_ok_def by (auto simp: image_iff)
next
  case (CloseP db c x t)
  then have "cl_play_id c \<notin> set (map cl_play_id (pb_closes db))" by (auto simp: play_closed_def list_ex_iff)
  then show ?case using CloseP unfolding paper_ok_def by (auto simp: image_iff)
qed (auto simp: paper_ok_def)

lemma paper_ok_changes: "paper_changes F N db db' \<Longrightarrow> paper_ok db \<Longrightarrow> paper_ok db'"
  by (induction rule: rtranclp_induct) (auto intro: paper_ok_change)

text \<open>Rows are only appended.\<close>

definition appended :: "paper_db \<Rightarrow> paper_db \<Rightarrow> bool" where
  "appended db db' \<longleftrightarrow> (pb_wallet db \<noteq> None \<longrightarrow> pb_wallet db' = pb_wallet db) \<and> prefix (pb_plays db) (pb_plays db')
     \<and> prefix (pb_closes db) (pb_closes db') \<and> prefix (pb_exit_quotes db) (pb_exit_quotes db')"

lemma appended_refl [simp]: "appended db db"
  by (simp add: appended_def)

lemma appended_trans: "appended a b \<Longrightarrow> appended b c \<Longrightarrow> appended a c"
  unfolding appended_def by (auto intro: prefix_order.trans)

lemma appended_change: "paper_change F N db db' \<Longrightarrow> appended db db'"
  by (induction rule: paper_change.induct) (auto simp: appended_def)

lemma appended_changes: "paper_changes F N db db' \<Longrightarrow> appended db db'"
  by (induction rule: rtranclp_induct) (auto intro: appended_trans appended_change)

section \<open>Transactions\<close>

interpretation papertx: write_discipline "paper_tx pe"
  by unfold_locales (auto simp: paper_tx_def body_result_def split: if_splits sum.splits)

lemma snd_read_back [simp]: "snd (read_back pe f res) = snd res"
  by (auto simp: read_back_def split: prod.split sum.split)

lemma paper_tx_changes:
  assumes "\<And>r db'. work db = Inr (r, db') \<Longrightarrow> paper_changes F N db db'"
  shows "paper_changes F N db (snd (paper_tx pe work db))"
  using assms by (intro papertx.write_relates[where R = "paper_changes F N"]) auto

subsection \<open>Wallet\<close>

lemma play_cents_pos: "play_cents s = Inr c \<Longrightarrow> whole_cents s \<Longrightarrow> 0 < s \<Longrightarrow> 0 < c \<and> c \<le> 2 ^ 63"
  using play_cents_exact[of s c] by auto

lemma insert_wallet_changes:
  assumes "insert_wallet s c t db = Inr (r, db')" and "whole_cents s"
  shows "paper_changes F N db db'"
  using assms play_cents_exact[of s] by (auto simp: insert_wallet_def bindE_eq_Inr split: if_splits intro!: WalletP)

lemma ensure_wallet_changes: "paper_changes F N db (snd (ensure_wallet pe start cur now db))"
proof (cases "wallet_args start cur now")
  case (Inr a)
  then obtain s c t where a: "a = (s, c, t)" "whole_cents s"
    by (auto simp: wallet_args_def bindE_eq_Inr dest: whole_cents_arg_Inr)
  show ?thesis
    using insert_wallet_changes[OF _ a(2)] Inr
    by (auto simp: a(1) ensure_wallet_def with_args_def split: option.split intro!: paper_tx_changes)
qed (simp add: ensure_wallet_def with_args_def)

subsection \<open>Opening\<close>

lemma sum_nets_exact:
  assumes "\<forall>k \<in> set ks. \<bar>k\<bar> \<le> 2 ^ 63" and "\<bar>m\<bar> + int (length ks) * 2 ^ 63 \<le> 10 ^ 46"
  shows "sum_nets (of_int m / 100) i (map (\<lambda>k. DFin (of_int k / 100)) ks) = Inr (of_int (m + sum_list ks) / 100)"
  using assms
proof (induction ks arbitrary: m i)
  case (Cons k ks)
  have "\<bar>m + k\<bar> + int (length ks) * 2 ^ 63 \<le> \<bar>m\<bar> + int (length (k # ks)) * 2 ^ 63"
    using Cons.prems(1) abs_triangle_ineq[of m k] by (simp add: distrib_right)
  then have b: "\<bar>m + k\<bar> + int (length ks) * 2 ^ 63 \<le> 10 ^ 46" using Cons.prems(2) by linarith
  have ih: "sum_nets (of_int (m + k) / 100) (Suc i) (map (\<lambda>k. DFin (of_int k / 100)) ks) = Inr (of_int (m + k + sum_list ks) / 100)"
    using Cons.prems(1) b by (intro Cons.IH) auto
  have "\<bar>m + k\<bar> \<le> 10 ^ 46" using b by (smt (verit) of_nat_0_le_iff zero_le_mult_iff zero_le_power)
  then have "(of_int \<bar>m + k\<bar> :: rat) \<le> of_int (10 ^ 46)" by (simp only: of_int_le_iff)
  then have "padd (of_int m / 100) (of_int k / 100) = of_int (m + k) / 100"
    by (subst padd_cents) (simp_all add: add_divide_distrib[symmetric])
  then show ?case by (simp only: list.map sum_nets.simps ih sum_list.Cons add.assoc)
qed simp

lemma sum_list_bound:
  fixes xs :: "int list"
  assumes "\<forall>x \<in> set xs. \<bar>x\<bar> \<le> b"
  shows "\<bar>sum_list xs\<bar> \<le> int (length xs) * b"
  using assms
proof (induction xs)
  case (Cons x xs)
  then have "\<bar>sum_list xs\<bar> \<le> int (length xs) * b" "\<bar>x\<bar> \<le> b" by auto
  then have "\<bar>x + sum_list xs\<bar> \<le> b + int (length xs) * b" by linarith
  then show ?case by (simp add: distrib_right)
qed simp

lemma few_rows_closes: "few_rows db \<Longrightarrow> int (length (pb_closes db)) * 2 ^ 63 \<le> 10 ^ 20 * 2 ^ 63"
  by (intro mult_right_mono) (auto simp: few_rows_def)

lemma wallet_balance_exact:
  assumes ok: "paper_ok db" and few: "few_rows db" and w: "pb_wallet db = Some wr" "read_wallet db = Some w"
    and b: "wallet_balance w db = Inr bal"
  shows "bal = of_int (wl_start_balance_cents wr + sum_list (map cl_net_cents (pb_closes db))) / 100"
    "\<bar>bal\<bar> \<le> 10 ^ 46"
proof -
  let ?m = "wl_start_balance_cents wr" and ?ks = "map cl_net_cents (pb_closes db)"
  have m: "0 < ?m" "?m \<le> 2 ^ 63" and ks: "\<forall>k \<in> set ?ks. \<bar>k\<bar> \<le> 2 ^ 63" using ok w(1) by (auto simp: paper_ok_def)
  have n: "\<bar>?m\<bar> + int (length ?ks) * 2 ^ 63 \<le> 10 ^ 46" using m few_rows_closes[OF few] by simp
  have start: "from_cents ?m = of_int ?m / 100" using m by (intro from_cents_exact) simp
  have "from_cents k = of_int k / 100" if "k \<in> set ?ks" for k
    using ks that by (intro from_cents_exact) fastforce
  then have nets: "map (\<lambda>c. DFin (from_cents (cl_net_cents c))) (pb_closes db) = map (\<lambda>k. DFin (of_int k / 100)) ?ks"
    unfolding map_map comp_def by (intro map_cong refl) simp
  have "balance (DFin (from_cents ?m)) (map (\<lambda>c. DFin (from_cents (cl_net_cents c))) (pb_closes db)) = Inr (of_int (?m + sum_list ?ks) / 100)"
    unfolding nets start balance_def using m sum_nets_exact[OF ks n] by simp
  moreover have "wa_start_balance w = from_cents ?m" using w by (auto simp: read_wallet_def)
  ultimately show bal: "bal = of_int (?m + sum_list ?ks) / 100"
    using b by (simp add: wallet_balance_def)
  have "\<bar>?m + sum_list ?ks\<bar> \<le> 10 ^ 46" using sum_list_bound[OF ks] n by linarith
  then have "(of_int \<bar>?m + sum_list ?ks\<bar> :: rat) \<le> of_int (10 ^ 46)" by (simp only: of_int_le_iff)
  then show "\<bar>bal\<bar> \<le> 10 ^ 46" by (simp add: bal)
qed

definition position_of :: "stored_play \<Rightarrow> open_position" where
  "position_of p = \<lparr>op_asset = pl_asset p, op_stake = play_stake p\<rparr>"

lemma play_stake_exact: "paper_ok db \<Longrightarrow> p \<in> set (pb_plays db) \<Longrightarrow> play_stake p = of_int (pl_stake_cents p) / 100 \<and> 0 < pl_stake_cents p"
  unfolding play_stake_def paper_ok_def play_check_def by (intro conjI from_cents_exact) (auto intro: order.trans)

lemma open_subset: "p \<in> set (read_open_plays db) \<Longrightarrow> p \<in> set (pb_plays db)"
  by (simp add: read_open_plays_def)

lemma length_open: "length (read_open_plays db) \<le> length (pb_plays db)"
  by (simp add: read_open_plays_def)

lemma open_stakes_exact:
  assumes ok: "paper_ok db" and few: "few_rows db"
  shows "sum_list (map op_stake (map position_of (read_open_plays db))) = of_int (sum_list (map pl_stake_cents (read_open_plays db))) / 100"
    "sum_list (map op_stake (map position_of (read_open_plays db))) \<le> 10 ^ 46"
proof -
  let ?ps = "read_open_plays db"
  have "sum_list (map op_stake (map position_of ps)) = of_int (sum_list (map pl_stake_cents ps)) / 100" if "set ps \<subseteq> set (pb_plays db)" for ps
    using that
  proof (induction ps)
    case (Cons p ps)
    then have "op_stake (position_of p) = of_int (pl_stake_cents p) / 100" using play_stake_exact[OF ok, of p] by (simp add: position_of_def)
    then show ?case using Cons by (simp only: list.map sum_list.Cons of_int_add add_divide_distrib) simp
  qed simp
  then show eq: "sum_list (map op_stake (map position_of ?ps)) = of_int (sum_list (map pl_stake_cents ?ps)) / 100"
    using open_subset by blast
  have "\<bar>sum_list (map pl_stake_cents ?ps)\<bar> \<le> int (length (map pl_stake_cents ?ps)) * 2 ^ 63"
    using ok open_subset by (intro sum_list_bound) (fastforce simp: paper_ok_def play_check_def)
  also have "\<dots> \<le> 10 ^ 20 * 2 ^ 63"
    using length_open[of db] few by (intro mult_right_mono) (auto simp: few_rows_def)
  finally have "sum_list (map pl_stake_cents ?ps) \<le> 10 ^ 46" by simp
  then have "(of_int (sum_list (map pl_stake_cents ?ps)) :: rat) \<le> of_int (10 ^ 46)" by (simp only: of_int_le_iff)
  then show "sum_list (map op_stake (map position_of ?ps)) \<le> 10 ^ 46" unfolding eq by simp
qed

lemma exit_plan_levels:
  assumes "exit_plan c dir q = Inr (Inr lv)"
  obtains atr where "exit_levels dir q (DFin atr) = Inr (Some lv)" "lv_atr lv = atr"
  using assms by (auto simp: exit_plan_def bindE_eq_Inr split: sum.splits if_splits option.splits dest: exit_levels_Some)

lemma judge_play_opens:
  assumes "judge_play tm bal item lp = Inr (Inr (dir, q, lv))"
  shows "pa_event_id (ck_candidate item) \<notin> set (ol_recorded lp)"
    "validate_quote (pa_bid (ck_candidate item)) (pa_ask (ck_candidate item)) (pa_status (ck_candidate item)) = Inr q"
    "exit_plan (ck_candidate item) dir q = Inr (Inr lv)"
    "admit (PStr (direction_value dir)) (pa_asset (ck_candidate item)) (ol_positions lp) bal (DFin (ct_stake tm)) (ct_max_open tm) = Inr None"
proof -
  let ?c = "ck_candidate item"
  obtain d q' where d: "pa_event_id ?c \<notin> set (ol_recorded lp)" "parse_direction (pa_direction ?c) = Some d"
    "validate_quote (pa_bid ?c) (pa_ask ?c) (pa_status ?c) = Inr q'"
    using assms by (auto simp: judge_play_def Let_def split: if_splits option.splits sum.splits)
  then obtain plan where plan: "exit_plan ?c d q' = Inr plan" using assms by (auto simp: judge_play_def Let_def bindE_eq_Inr)
  then obtain lv' where "plan = Inr lv'" using assms d by (cases plan) (auto simp: judge_play_def Let_def)
  then show "pa_event_id ?c \<notin> set (ol_recorded lp)" "validate_quote (pa_bid ?c) (pa_ask ?c) (pa_status ?c) = Inr q"
    "exit_plan ?c dir q = Inr (Inr lv)" "admit (PStr (direction_value dir)) (pa_asset ?c) (ol_positions lp) bal (DFin (ct_stake tm)) (ct_max_open tm) = Inr None"
    using assms d plan by (auto simp: judge_play_def Let_def bindE_eq_Inr split: option.splits)
qed

lemma play_row_true:
  assumes "play_row tm t item dir q lv i = Inr p" and "exit_plan (ck_candidate item) dir q = Inr (Inr lv)"
    and "validate_quote b a st = Inr q" and "0 \<le> ct_fee_bps tm"
  shows "play_true p" "pl_play_id p = i" "pl_event_id p = pa_event_id (ck_candidate item)" "pl_asset p = pa_asset (ck_candidate item)"
    "play_cents (ct_stake tm) = Inr (pl_stake_cents p)"
proof -
  obtain atr where lv: "exit_levels dir q (DFin atr) = Inr (Some lv)" "lv_atr lv = atr" using assms(2) by (rule exit_plan_levels)
  have h: "hold_minutes lv = 1440" "policy_id lv = EX1_POLICY_ID"
    using lv(1) by (auto simp: exit_levels_def bindE_eq_Inr Let_def EX1_MAX_HOLD_MINUTES_def split: if_splits)
  note p = assms(1)[unfolded play_row_def Let_def bindE_eq_Inr]
  show "pl_play_id p = i" "pl_event_id p = pa_event_id (ck_candidate item)" "pl_asset p = pa_asset (ck_candidate item)"
    "play_cents (ct_stake tm) = Inr (pl_stake_cents p)" using p by auto
  have eta: "\<lparr>bid = bid q, ask = ask q\<rparr> = q" by simp
  have "exit_levels dir \<lparr>bid = bid q, ask = ask q\<rparr> (DFin (lv_atr lv)) = Inr (Some lv)" unfolding eta lv(2) by (rule lv(1))
  then show "play_true p"
    using p h assms(4) validate_quote_valid[OF assms(3)] by (auto simp: play_true_def seconds_def intro!: exI[of _ lv])
qed

text \<open>The variables of the opening loop describe the tables.\<close>

definition loop_ok :: "paper_db \<Rightarrow> open_loop \<times> paper_db \<Rightarrow> bool" where
  "loop_ok db0 st \<longleftrightarrow> (case st of (lp, db) \<Rightarrow>
     paper_ok db \<and> pb_wallet db = pb_wallet db0 \<and> pb_closes db = pb_closes db0 \<and> prefix (pb_plays db0) (pb_plays db)
     \<and> ol_positions lp = map position_of (read_open_plays db) \<and> set (ol_recorded lp) = pl_event_id ` set (pb_plays db))"


lemma play_ids: "paper_ok db \<Longrightarrow> p \<in> set (pb_plays db) \<Longrightarrow> pl_play_id p \<le> length (pb_plays db)"
proof -
  assume ok: "paper_ok db" and p: "p \<in> set (pb_plays db)"
  then have "pl_play_id p \<in> set (map pl_play_id (pb_plays db))" by simp
  then show ?thesis using ok unfolding paper_ok_def by (metis atLeastLessThan_iff atLeastLessThan_upt less_Suc_eq_le)
qed

lemma fresh_not_closed: "paper_ok db \<Longrightarrow> length (pb_plays db) < i \<Longrightarrow> \<not> play_closed db i"
  using play_ids[of db] by (fastforce simp: play_closed_def list_ex_iff paper_ok_def)

lemma read_open_snoc:
  assumes "paper_ok db" and "pl_play_id p = Suc (length (pb_plays db))"
  shows "read_open_plays (db\<lparr>pb_plays := pb_plays db @ [p]\<rparr>) = read_open_plays db @ [p]"
  using fresh_not_closed[OF assms(1), of "Suc (length (pb_plays db))"] assms(2)
  by (simp add: read_open_plays_def play_closed_def)

text \<open>The terms of a call, and the balance that its loop uses.\<close>

definition terms_ok :: "checked_terms \<Rightarrow> bool" where
  "terms_ok tm \<longleftrightarrow> whole_cents (ct_stake tm) \<and> 0 < ct_stake tm \<and> 0 \<le> ct_fee_bps tm"

lemma check_terms_ok: "check_terms terms = Inr tm \<Longrightarrow> terms_ok tm \<and> 0 < ct_max_open tm \<and> tm_max_open terms = PInt (ct_max_open tm)"
  by (cases "tm_fee_bps terms"; cases "tm_max_open terms")
    (auto simp: check_terms_def terms_ok_def bindE_eq_Inr split: if_splits dest!: whole_cents_arg_Inr)

definition balance_of :: "paper_db \<Rightarrow> rat \<Rightarrow> bool" where
  "balance_of db bal \<longleftrightarrow> (\<exists>w. read_wallet db = Some w \<and> wallet_balance w db = Inr bal)"

lemma admitted_cash:
  assumes ok: "paper_ok db" and bal: "balance_of db bal" and few: "few_rows db"
    and adm: "admit d asset (map position_of (read_open_plays db)) bal (DFin stake) n = Inr None" and s: "stake = of_int k / 100"
  shows "k \<le> cash_cents db"
proof -
  obtain w wr where w: "pb_wallet db = Some wr" "read_wallet db = Some w" "wallet_balance w db = Inr bal"
    using bal by (auto simp: balance_of_def read_wallet_def)
  note b = wallet_balance_exact[OF ok few w] and o = open_stakes_exact[OF ok few]
  have whole: "\<forall>p \<in> set (map position_of (read_open_plays db)). whole_cents (op_stake p) \<and> 0 \<le> op_stake p"
  proof
    fix x assume "x \<in> set (map position_of (read_open_plays db))"
    then obtain p where "p \<in> set (pb_plays db)" "x = position_of p" using open_subset by auto
    then show "whole_cents (op_stake x) \<and> 0 \<le> op_stake x" using play_stake_exact[OF ok, of p] by (simp add: position_of_def)
  qed
  have "stake \<le> paper_available_cash bal (map position_of (read_open_plays db))"
    using adm by (auto simp: admit_def bindE_eq_Inr split: if_splits)
  also have "\<dots> = bal - sum_list (map op_stake (map position_of (read_open_plays db)))"
  proof (rule available_cash_exact[OF whole])
    show "whole_cents bal" unfolding b(1) by (rule whole_cents_of_int)
    show "\<bar>bal\<bar> \<le> 10 ^ 47" using b(2) by (rule order.trans) simp
    show "sum_list (map op_stake (map position_of (read_open_plays db))) \<le> 10 ^ 47" using o(2) by (rule order.trans) simp
  qed
  also have "\<dots> = of_int (cash_cents db) / 100"
    unfolding b(1) o(1) cash_cents_def w(1) by (simp add: diff_divide_distrib add_divide_distrib)
  finally show ?thesis unfolding s by (simp add: divide_le_cancel)
qed

lemma balance_cong: "pb_wallet db' = pb_wallet db \<Longrightarrow> pb_closes db' = pb_closes db \<Longrightarrow> balance_of db' bal = balance_of db bal"
  by (simp add: balance_of_def read_wallet_def wallet_balance_def)

lemma open_play_step_ok:
  assumes step: "open_play_step tm bal t item (lp, db) = Inr (lp', db')" and ok: "loop_ok db0 (lp, db)"
    and tm: "terms_ok tm" and bal: "balance_of db0 bal"
  shows "paper_changes F (ct_max_open tm) db db' \<and> loop_ok db0 (lp', db')"
proof -
  obtain verdict where v: "judge_play tm bal item lp = Inr verdict" using step by (auto simp: open_play_step_def bindE_eq_Inr)
  show ?thesis
  proof (cases verdict)
    case (Inl s)
    then show ?thesis using step v ok by (auto simp: open_play_step_def skip_play_def loop_ok_def)
  next
    case (Inr pair)
    obtain dir q lv where [simp]: "pair = (dir, q, lv)" by (cases pair)
    obtain p where p: "play_row tm t item dir q lv (Suc (length (pb_plays db))) = Inr p" "insert_play p db = Inr db'"
      and lp': "lp' = add_play lp (ck_candidate item) (ct_stake tm) (pl_play_id p)"
      using step v Inr by (auto simp: open_play_step_def bindE_eq_Inr)
    note j = judge_play_opens[OF v[unfolded Inr, simplified]]
    have fee: "0 \<le> ct_fee_bps tm" using tm by (simp add: terms_ok_def)
    note row = play_row_true[OF p(1) j(3) j(2) fee]
    have pok: "paper_ok db" and pos: "ol_positions lp = map position_of (read_open_plays db)"
      and rec: "set (ol_recorded lp) = pl_event_id ` set (pb_plays db)" and b: "balance_of db bal"
      using ok bal balance_cong[of db db0 bal] by (simp_all add: loop_ok_def)
    have stake: "ct_stake tm = of_int (pl_stake_cents p) / 100" "pl_stake_cents p \<le> 2 ^ 63"
      using play_cents_exact[of "ct_stake tm" "pl_stake_cents p"] row tm by (auto simp: terms_ok_def)
    have ins: "play_check p" "db' = db\<lparr>pb_plays := pb_plays db @ [p]\<rparr>" using p(2) by (auto simp: insert_play_def split: if_splits)
    have adm: "pl_asset p \<notin> pl_asset ` set (read_open_plays db)" "int (length (read_open_plays db)) < ct_max_open tm"
      using j(4) row tm by (auto simp: pos admit_def position_of_def list_ex_iff split: if_splits)
    have "pl_stake_cents p \<le> cash_cents db" if "few_rows db"
      using admitted_cash[OF pok b that j(4)[unfolded pos] stake(1)] .
    then have change: "paper_change F (ct_max_open tm) db db'"
      unfolding ins(2) using row tm j(1) rec stake ins adm by (intro PlayP) (auto simp: terms_ok_def)
    have "play_stake p = ct_stake tm"
      unfolding play_stake_def stake(1) using stake(2) ins(1) by (intro from_cents_exact) (auto simp: play_check_def)
    then have "loop_ok db0 (lp', db')"
      using ok paper_ok_change[OF change pok] row tm read_open_snoc[OF pok]
      by (auto simp: loop_ok_def lp' add_play_def ins(2) position_of_def terms_ok_def)
    then show ?thesis using change by blast
  qed
qed

lemma open_plays_work_ok:
  assumes "open_plays_work tm t checked db = Inr (lp, db')" and "paper_ok db" and "terms_ok tm"
  shows "paper_changes F (ct_max_open tm) db db' \<and> loop_ok db (lp, db')"
proof -
  obtain w bal where w: "read_wallet db = Some w" "wallet_balance w db = Inr bal"
    and f: "foldE (open_play_step tm bal t) checked (start_loop db, db) = Inr (lp, db')"
    using assms(1) by (auto simp: open_plays_work_def bindE_eq_Inr split: option.splits)
  let ?P = "\<lambda>st. paper_changes F (ct_max_open tm) db (snd st) \<and> loop_ok db st"
  have "?P (lp, db')"
    using f
  proof (rule foldE_invariant)
    show "?P (start_loop db, db)" using assms(2) by (simp add: loop_ok_def start_loop_def position_of_def)
    fix item st st' assume "?P st" "open_play_step tm bal t item st = Inr st'"
    moreover have "balance_of db bal" using w by (auto simp: balance_of_def)
    ultimately show "?P st'"
      using open_play_step_ok[of tm bal t item "fst st" "snd st" "fst st'" "snd st'" db F] assms(3) by (auto intro: rtranclp_trans)
  qed
  then show ?thesis by simp
qed

lemma open_plays_changes:
  assumes "paper_ok db" and "N = (case tm_max_open terms of PInt n \<Rightarrow> n | _ \<Rightarrow> 0)"
  shows "paper_changes F N db (snd (open_plays pe cs terms now db))"
proof (cases "open_args cs terms now")
  case (Inr a)
  then obtain t tm checked where a: "a = (t, tm, checked)" "check_terms terms = Inr tm" by (auto simp: open_args_def bindE_eq_Inr)
  then have "paper_changes F N db (snd (paper_tx pe (open_plays_work tm t checked) db))"
    using check_terms_ok[OF a(2)] open_plays_work_ok[OF _ assms(1)] by (intro paper_tx_changes) (simp add: assms(2))
  then show ?thesis using Inr a by (simp add: open_plays_def with_args_def)
qed (simp add: open_plays_def with_args_def)


subsection \<open>Closing\<close>

text \<open>The exits that a read phase found, in their own database.\<close>

definition exit_of :: "stored_play \<Rightarrow> int \<Rightarrow> quote \<Rightarrow> exit_reason option \<Rightarrow> bool" where
  "exit_of p seen q reason \<longleftrightarrow> 0 < bid q \<and> bid q \<le> ask q
     \<and> (case (pl_stop p, pl_target p) of
          (Some stop, Some target) \<Rightarrow> pl_entry_ts p < seen \<and> reason \<noteq> None
            \<and> exit_decision (pl_direction p) (DFin stop) (DFin target) (Aware (pl_due_at p)) (Aware seen) q = Inr reason
        | _ \<Rightarrow> pl_due_at p \<le> seen \<and> reason = None)"

definition play_exit_found :: "paper_db \<Rightarrow> play_exit \<times> int \<Rightarrow> bool" where
  "play_exit_found db xt \<longleftrightarrow> (case xt of (x, t) \<Rightarrow>
     px_play x \<in> set (pb_plays db) \<and> ob_observed_at (px_observation x) \<le> t
     \<and> exit_of (px_play x) (ob_observed_at (px_observation x)) (ob_quote (px_observation x)) (px_reason x))"

definition valid_at :: "int \<Rightarrow> int \<Rightarrow> bool \<Rightarrow> observation \<Rightarrow> bool" where
  "valid_at start now inc ob \<longleftrightarrow> start \<le> ob_observed_at ob \<and> (ob_observed_at ob = start \<longrightarrow> inc) \<and> ob_observed_at ob \<le> now
     \<and> 0 < bid (ob_quote ob) \<and> bid (ob_quote ob) \<le> ask (ob_quote ob)"

lemma spot_observation_valid: "spot_observation pair start now inc sn = Some ob \<Longrightarrow> valid_at start now inc ob"
  by (auto simp: spot_observation_def in_span_def valid_at_def split: moment.splits if_splits sum.splits dest: validate_quote_valid)

lemma extra_observation_valid: "extra_observation pair start now inc ie = Some ob \<Longrightarrow> valid_at start now inc ob"
  by (auto simp: extra_observation_def in_span_def valid_at_def split: prod.splits if_splits sum.splits dest: validate_quote_valid)

lemma spot_observations_valid: "ob \<in> set (spot_observations snaps pair start now inc) \<Longrightarrow> valid_at start now inc ob"
  unfolding spot_observations_def set_sort set_map_filter by (auto dest: spot_observation_valid)

lemma extra_observations_valid: "ob \<in> set (extra_observations extras pair start now inc) \<Longrightarrow> valid_at start now inc ob"
  unfolding extra_observations_def set_map_filter by (auto dest: extra_observation_valid)

lemma first_play_exit_Some:
  assumes "first_play_exit p stop target obs = Inr (Some x)"
  shows "px_play x = p \<and> px_observation x \<in> set obs \<and> px_reason x \<noteq> None
    \<and> exit_decision (pl_direction p) (DFin stop) (DFin target) (Aware (pl_due_at p)) (Aware (ob_observed_at (px_observation x)))
        (ob_quote (px_observation x)) = Inr (px_reason x)"
  using assms
proof (induction obs)
  case (Cons ob obs)
  obtain reason where e: "exit_decision (pl_direction p) (DFin stop) (DFin target) (Aware (pl_due_at p)) (Aware (ob_observed_at ob))
      (ob_quote ob) = Inr reason"
    and rest: "(case reason of Some r \<Rightarrow> Inr (Some \<lparr>px_play = p, px_observation = ob, px_reason = Some r\<rparr>)
      | None \<Rightarrow> first_play_exit p stop target obs) = Inr (Some x)"
    using Cons.prems by (auto simp: bindE_eq_Inr)
  show ?case
  proof (cases reason)
    case None
    then show ?thesis using Cons.IH rest by simp
  next
    case (Some r)
    then have "x = \<lparr>px_play = p, px_observation = ob, px_reason = Some r\<rparr>" using rest by simp
    then show ?thesis using e Some by simp
  qed
qed simp

lemma find_play_exit_found:
  assumes "find_play_exit snaps extras t p = Inr (Some x)" and "p \<in> set (pb_plays db)"
  shows "play_exit_found db (x, t)" "px_play x = p"
proof -
  have "play_exit_found db (x, t) \<and> px_play x = p"
  proof (cases "\<exists>stop target. pl_stop p = Some stop \<and> pl_target p = Some target")
    case True
    then obtain stop target where l: "pl_stop p = Some stop" "pl_target p = Some target" by blast
    then have f: "first_play_exit p stop target (play_observations snaps extras t p) = Inr (Some x)"
      using assms(1) by (simp add: find_play_exit_def)
    note fx = first_play_exit_Some[OF f]
    then have "px_observation x \<in> set (spot_observations snaps (pl_pair p) (pl_entry_ts p) t False)
        \<union> set (extra_observations extras (pl_pair p) (pl_entry_ts p) t False)"
      by (simp add: play_observations_def)
    then show ?thesis
      using fx l assms(2) by (auto simp: play_exit_found_def exit_of_def valid_at_def dest!: spot_observations_valid extra_observations_valid)
  next
    case False
    then have "px_play x = p" "px_reason x = None" "px_observation x \<in> set (spot_observations snaps (pl_pair p) (pl_due_at p) t True)"
      using assms(1) by (auto simp: find_play_exit_def split: option.splits if_splits list.splits)
    then show ?thesis
      using False assms(2) by (auto simp: play_exit_found_def exit_of_def valid_at_def split: option.splits dest!: spot_observations_valid)
  qed
  then show "play_exit_found db (x, t)" "px_play x = p" by blast+
qed

text \<open>The read phase is a filter: the exits of the wanted open plays, in order, and the due plays without one.\<close>

lemma collect_plays_fold:
  assumes "foldE (collect_play snaps extras t) ps acc = Inr found"
  shows "(\<forall>p \<in> set ps. \<exists>r. find_play_exit snaps extras t p = Inr r)
    \<and> fst found = fst acc @ List.map_filter (\<lambda>p. case find_play_exit snaps extras t p of Inr r \<Rightarrow> r | _ \<Rightarrow> None) ps
    \<and> snd found = snd acc @ map pl_play_id (filter (\<lambda>p. find_play_exit snaps extras t p = Inr None \<and> pl_due_at p \<le> t) ps)"
  using assms
proof (induction ps arbitrary: acc)
  case (Cons p ps)
  then obtain acc' where a: "collect_play snaps extras t p acc = Inr acc'" "foldE (collect_play snaps extras t) ps acc' = Inr found"
    by (auto simp: bindE_eq_Inr)
  then obtain r where r: "find_play_exit snaps extras t p = Inr r" by (auto simp: collect_play_def bindE_eq_Inr)
  show ?case using Cons.IH[OF a(2)] a(1) r by (auto simp: collect_play_def List.map_filter_simps split: option.splits if_splits)
qed (simp add: List.map_filter_simps)

lemmas collect_plays_eq = collect_plays_fold[where acc = "([], [])", folded collect_plays_def, simplified]

lemma collect_plays_found:
  assumes "collect_plays snaps extras t ids db = Inr found" and "x \<in> set (fst found)"
  shows "play_exit_found db (x, t)"
proof -
  obtain p where "p \<in> set (read_open_plays db)" "(case find_play_exit snaps extras t p of Inr r \<Rightarrow> r | _ \<Rightarrow> None) = Some x"
    using collect_plays_fold[OF assms(1)[unfolded collect_plays_def]] assms(2) by (auto simp: set_map_filter)
  then show ?thesis using find_play_exit_found(1)[of snaps extras t p x db] open_subset by (auto split: sum.splits)
qed

lemma stored_quote_Inr: "stored_quote b a = Inr q \<Longrightarrow> q = \<lparr>bid = b, ask = a\<rparr>"
  by (auto simp: stored_quote_def positive_price_def bindE_eq_Inr split: if_splits)

lemma play_evidence_cases:
  assumes "play_evidence x t db = Inr (source, i, db1)"
  shows "db1 = db \<or> (\<exists>q. db1 = db\<lparr>pb_exit_quotes := pb_exit_quotes db @ [q]\<rparr>)"
  using assms by (auto simp: play_evidence_def Let_def bindE_eq_Inr insert_play_quote_def split: option.splits if_splits)

lemma psub_whole_cents: "whole_cents x \<Longrightarrow> whole_cents y \<Longrightarrow> \<bar>x - y\<bar> \<le> 10 ^ 48 \<Longrightarrow> whole_cents (psub x y)"
  by (simp add: psub_cents whole_cents_diff)

lemma play_close_row_from:
  assumes "play_close_row x t r source i k = Inr c"
    and s: "settle (pl_direction (px_play x)) (DFin (play_stake (px_play x))) (DFin (pl_fee_bps (px_play x)))
        \<lparr>bid = pl_entry_bid (px_play x), ask = pl_entry_ask (px_play x)\<rparr> (ob_quote (px_observation x)) = Inr r"
  shows "close_from x t c \<and> cl_close_id c = k \<and> \<bar>cl_net_cents c\<bar> \<le> 2 ^ 63"
proof -
  have w: "whole_cents (gross_mid r)" "whole_cents (spread_cost r)" "whole_cents (pr_fees r)" "pr_net r = psub (psub (gross_mid r) (spread_cost r)) (pr_fees r)"
    using settle_parts[OF s] by auto
  obtain g sp fe n where c: "play_cents (gross_mid r) = Inr g" "play_cents (spread_cost r) = Inr sp" "play_cents (pr_fees r) = Inr fe"
      "play_cents (pr_net r) = Inr n"
    and f: "cl_gross_mid_cents c = g" "cl_spread_cost_cents c = sp" "cl_fees_cents c = fe" "cl_net_cents c = n" "cl_close_id c = k"
      "cl_play_id c = pl_play_id (px_play x)" "cl_exit_reason c = px_reason x" "cl_exit_bid c = bid (ob_quote (px_observation x))"
      "cl_exit_ask c = ask (ob_quote (px_observation x))" "cl_exit_ts c = ob_observed_at (px_observation x)" "cl_closed_at c = t"
      "cl_outcome c = pr_outcome r"
    using assms(1) by (auto simp: play_close_row_def Let_def bindE_eq_Inr)
  note e = play_cents_exact[OF c(1) w(1)] play_cents_exact[OF c(2) w(2)] play_cents_exact[OF c(3) w(3)]
  have small: "\<bar>of_int m / 100 :: rat\<bar> \<le> 10 ^ 47" if "\<bar>m\<bar> \<le> 2 ^ 63" for m :: int
  proof -
    have "(of_int \<bar>m\<bar> :: rat) \<le> of_int (2 ^ 63)" using that by (simp only: of_int_le_iff)
    then show ?thesis by simp
  qed
  have "pr_net r = gross_mid r - spread_cost r - pr_fees r"
    unfolding w(4) by (rule psub_psub_cents[OF w(1-3)]) (simp_all only: e(1,3,5) small[OF e(2)] small[OF e(4)] small[OF e(6)])
  then have "whole_cents (pr_net r)" using w by (auto intro!: whole_cents_diff)
  note en = play_cents_exact[OF c(4) this]
  show ?thesis using f e en s unfolding close_from_def by auto
qed

lemma write_play_close_cases [consumes 1, case_names skipped closed]:
  assumes "write_play_close x t db = Inr (res, db')"
  obtains "play_closed db (pl_play_id (px_play x))" "db' = db" "res = None"
  | db1 c where "db1 = db \<or> (\<exists>q. db1 = db\<lparr>pb_exit_quotes := pb_exit_quotes db @ [q]\<rparr>)"
      "db' = db1\<lparr>pb_closes := pb_closes db @ [c]\<rparr>" "\<not> play_closed db (cl_play_id c)"
      "cl_play_id c \<in> pl_play_id ` set (pb_plays db)" "play_close_check c" "\<bar>cl_net_cents c\<bar> \<le> 2 ^ 63"
      "cl_close_id c = Suc (length (pb_closes db))" "close_from x t c" "res = Some (cl_close_id c)"
proof (cases "play_closed db (pl_play_id (px_play x))")
  case True
  then have "res = None \<and> db' = db" using assms by (auto simp: write_play_close_def)
  then show thesis using True that(1) by blast
next
  case False
  obtain entry r source i db1 c where e: "stored_quote (pl_entry_bid (px_play x)) (pl_entry_ask (px_play x)) = Inr entry"
    and s: "settle (pl_direction (px_play x)) (DFin (play_stake (px_play x))) (DFin (pl_fee_bps (px_play x))) entry
        (ob_quote (px_observation x)) = Inr r"
    and ev: "play_evidence x t db = Inr (source, i, db1)" and row: "play_close_row x t r source i (Suc (length (pb_closes db1))) = Inr c"
    and ins: "insert_play_close c db1 = Inr db'" and res: "res = Some (cl_close_id c)"
    using assms False by (auto simp: write_play_close_def Let_def bindE_eq_Inr split: sum.splits)
  have db1: "db1 = db \<or> (\<exists>q. db1 = db\<lparr>pb_exit_quotes := pb_exit_quotes db @ [q]\<rparr>)" using ev by (rule play_evidence_cases)
  then have same: "pb_plays db1 = pb_plays db" "pb_closes db1 = pb_closes db" "play_closed db1 = play_closed db"
    by (auto simp: play_closed_def fun_eq_iff)
  note from_row = play_close_row_from[OF row s[unfolded stored_quote_Inr[OF e]]]
  have "\<not> play_closed db (cl_play_id c)" "play_close_check c" "db' = db1\<lparr>pb_closes := pb_closes db @ [c]\<rparr>"
    "\<exists>p \<in> set (pb_plays db). pl_play_id p = cl_play_id c"
    using ins by (simp_all add: insert_play_close_def same list_ex_iff split: if_splits)
  then show thesis using that(2)[OF db1, of c] from_row res same(2) by (simp add: image_iff eq_commute)
qed

lemma write_play_close_changes:
  assumes "write_play_close x t db = Inr (res, db')" and "(x, t) \<in> F"
  shows "paper_changes F N db db'"
  using assms(1)
proof (cases rule: write_play_close_cases)
  case (closed db1 c)
  have "paper_changes F N db db1" using closed(1) QuoteP[of F N db] by auto
  moreover have "paper_change F N db1 (db1\<lparr>pb_closes := pb_closes db1 @ [c]\<rparr>)"
    using closed assms(2) by (intro CloseP[of _ _ x t]) (auto simp: play_closed_def)
  ultimately show ?thesis using closed(1,2) by (auto intro: rtranclp.rtrancl_into_rtrancl)
qed simp

lemma write_play_closes_changes:
  assumes "write_play_closes exits t db = Inr (ids, db')" and "set exits \<times> {t} \<subseteq> F"
  shows "paper_changes F N db db'"
proof -
  let ?P = "\<lambda>acc. paper_changes F N db (snd acc)"
  have "?P (ids, db')"
    using assms(1)[unfolded write_play_closes_def]
  proof (rule foldE_invariant)
    show "?P ([], db)" by simp
    fix x acc acc'
    assume x: "x \<in> set exits" and p: "?P acc" and w: "(case acc of (ids, db) \<Rightarrow> bindE (write_play_close x t db)
        (\<lambda>(i, db'). Inr (case i of None \<Rightarrow> ids | Some n \<Rightarrow> ids @ [n], db'))) = Inr acc'"
    obtain i where "write_play_close x t (snd acc) = Inr (i, snd acc')" using w by (auto simp: bindE_eq_Inr split: prod.splits)
    then have "paper_changes F N (snd acc) (snd acc')" using x assms(2) by (intro write_play_close_changes) auto
    then show "?P acc'" using p by (rule rtranclp_trans[rotated])
  qed
  then show ?thesis by simp
qed

lemma write_phase_changes:
  "set (fst found) \<times> {t} \<subseteq> F \<Longrightarrow> paper_changes F N db (snd (write_phase pe t found db))"
  by (auto simp: write_phase_def intro!: paper_tx_changes intro: write_play_closes_changes)

lemma close_plays_changes: "paper_changes {xt. play_exit_found db xt} N db (snd (close_plays pe snaps now qs ids db))"
proof (cases "close_plays_args now qs ids")
  case (Inr a)
  obtain t extras js where [simp]: "a = (t, extras, js)" by (cases a)
  have "set (fst found) \<times> {t} \<subseteq> {xt. play_exit_found db xt}" if "collect_plays snaps extras t js db = Inr found" for found
    using collect_plays_found[OF that] by auto
  then show ?thesis
    using Inr by (auto simp: close_plays_def with_args_def split: sum.split intro!: write_phase_changes)
qed (simp add: close_plays_def with_args_def)

end
