(* ===== verification/Paper_Repeat.thy ===== *)
theory Paper_Repeat
  imports Paper_Safety
begin

text \<open>
  The step of the paper game is idempotent, as \<^verbatim>\<open>paper_game.py\<close> promises: repeating a call that returned, with the
  same inputs, opens and closes nothing. What a candidate was refused for stays true when later candidates have opened
  plays, because open plays and spent cash only grow inside a call; and a play whose exit was found is closed.
\<close>

section \<open>Opening again\<close>

lemma ctx_fix_representable:
  assumes "0 < x" and "valid_ctx c"
  shows "representable (prec c) (ctx_fix c x)"
proof -
  define u where "u = (10::rat) powi (adjusted x + 1 - int (prec c))"
  define k where "k = round_int (ctx_rounding c) (x / u)"
  have f: "ctx_fix c x = of_int k * u" using assms by (simp add: ctx_fix_def sig_round_def sig_with_def u_def k_def Let_def)
  have u: "0 < u" by (simp add: u_def)
  have "ctx_fix c x \<le> 10 powi (adjusted x + 1)"
    using rm.sig_bracket_pos(2)[OF assms(1), of "prec c" "ctx_rounding c"] assms(2) by (simp add: ctx_fix_def sig_round_def valid_ctx_def)
  also have "\<dots> = 10 powi ((adjusted x + 1 - int (prec c)) + int (prec c))" by simp
  also have "\<dots> = of_int (10 ^ prec c) * u" unfolding powi_10_add u_def by simp
  finally have "k \<le> 10 ^ prec c" using u unfolding f by (metis mult_le_cancel_right_pos of_int_le_iff)
  moreover have "0 \<le> k"
  proof -
    have "0 < of_int k * u" using ctx_fix_pos[OF assms(2,1)] f by simp
    then show ?thesis using u by (simp add: zero_less_mult_iff)
  qed
  ultimately show ?thesis using representable_dec_value[of k "prec c" "adjusted x + 1 - int (prec c)"] f by (simp add: dec_value_def u_def)
qed

lemma padd_grows:
  assumes "0 \<le> a" and "a = 0 \<or> representable 50 a" and "0 \<le> x"
  shows "a \<le> padd a x" "padd a x = 0 \<or> representable 50 (padd a x)"
proof -
  show "a \<le> padd a x"
  proof (cases "a = 0")
    case False
    then show ?thesis using assms unfolding ctx_add_def by (intro ctx_fix_ge_representable) auto
  qed (use assms in \<open>simp add: padd_nonneg\<close>)
  show "padd a x = 0 \<or> representable 50 (padd a x)"
    using ctx_fix_representable[of "a + x" PAPER_CONTEXT] assms by (cases "a + x = 0") (auto simp: ctx_add_def)
qed

lemma foldl_stakes_grow:
  assumes "\<forall>p \<in> set ps. 0 \<le> op_stake p" and "0 \<le> a" and "a = 0 \<or> representable 50 a"
  shows "a \<le> foldl (\<lambda>acc p. padd acc (op_stake p)) a ps \<and> 0 \<le> foldl (\<lambda>acc p. padd acc (op_stake p)) a ps
    \<and> (foldl (\<lambda>acc p. padd acc (op_stake p)) a ps = 0 \<or> representable 50 (foldl (\<lambda>acc p. padd acc (op_stake p)) a ps))"
  using assms
proof (induction ps arbitrary: a)
  case (Cons p ps)
  then have g: "a \<le> padd a (op_stake p)" "padd a (op_stake p) = 0 \<or> representable 50 (padd a (op_stake p))"
    using padd_grows[of a "op_stake p"] by auto
  then have "0 \<le> padd a (op_stake p)" using Cons.prems(2) by linarith
  then show ?case using Cons.IH[of "padd a (op_stake p)"] Cons.prems(1) g by auto
qed simp

lemma cash_shrinks:
  assumes "\<forall>p \<in> set (ps @ qs). 0 \<le> op_stake p"
  shows "paper_available_cash bal (ps @ qs) \<le> paper_available_cash bal ps"
proof -
  let ?f = "foldl (\<lambda>acc p. padd acc (op_stake p))"
  have "0 \<le> ?f 0 ps \<and> (?f 0 ps = 0 \<or> representable 50 (?f 0 ps))" using foldl_stakes_grow[of ps 0] assms by simp
  then have "?f 0 ps \<le> ?f (?f 0 ps) qs" using foldl_stakes_grow[of qs "?f 0 ps"] assms by simp
  then have "bal - ?f 0 (ps @ qs) \<le> bal - ?f 0 ps" by simp
  then show ?thesis unfolding paper_available_cash_def ctx_sub_def by (intro ctx_fix_mono) simp_all
qed

text \<open>Later loop variables: more events are recorded and more plays are open.\<close>

definition loop_le :: "open_loop \<Rightarrow> open_loop \<Rightarrow> bool" where
  "loop_le a b \<longleftrightarrow> set (ol_recorded a) \<subseteq> set (ol_recorded b)
     \<and> (\<exists>later. ol_positions b = ol_positions a @ later) \<and> (\<forall>p \<in> set (ol_positions b). 0 \<le> op_stake p)"

lemma loop_le_trans: "loop_le a b \<Longrightarrow> loop_le b c \<Longrightarrow> loop_le a c"
  unfolding loop_le_def by fastforce

lemma admit_refuses:
  assumes "admit d asset opens bal s n = Inr (Some r)" and "\<forall>p \<in> set (opens @ later). 0 \<le> op_stake p"
  shows "\<exists>r'. admit d asset (opens @ later) bal s n = Inr (Some r')"
proof -
  obtain x where x: "require_amount ''stake'' False s = Inr x" using assms(1) by (auto simp: admit_def bindE_eq_Inr)
  show ?thesis using assms(1) cash_shrinks[OF assms(2), of bal] by (auto simp: admit_def x split: if_splits)
qed

lemma judge_skips:
  assumes "judge_play tm bal item lp = Inr (Inl s)" and "loop_le lp lp'"
  shows "\<exists>s'. judge_play tm bal item lp' = Inr (Inl s')"
proof (cases "pa_event_id (ck_candidate item) \<in> set (ol_recorded lp')")
  case True
  then show ?thesis by (simp add: judge_play_def Let_def)
next
  case False
  let ?c = "ck_candidate item"
  have lp: "pa_event_id ?c \<notin> set (ol_recorded lp)" using False assms(2) by (auto simp: loop_le_def)
  obtain later where later: "ol_positions lp' = ol_positions lp @ later" "\<forall>p \<in> set (ol_positions lp @ later). 0 \<le> op_stake p"
    using assms(2) by (auto simp: loop_le_def)
  show ?thesis
  proof (cases "\<exists>dir q lv. parse_direction (pa_direction ?c) = Some dir
      \<and> validate_quote (pa_bid ?c) (pa_ask ?c) (pa_status ?c) = Inr q \<and> exit_plan ?c dir q = Inr (Inr lv)")
    case True
    then obtain dir q lv where d: "parse_direction (pa_direction ?c) = Some dir"
      "validate_quote (pa_bid ?c) (pa_ask ?c) (pa_status ?c) = Inr q" "exit_plan ?c dir q = Inr (Inr lv)" by blast
    then obtain r where "admit (PStr (direction_value dir)) (pa_asset ?c) (ol_positions lp) bal (DFin (ct_stake tm)) (ct_max_open tm) = Inr (Some r)"
      using assms(1) lp by (auto simp: judge_play_def Let_def bindE_eq_Inr split: option.splits)
    then obtain r' where "admit (PStr (direction_value dir)) (pa_asset ?c) (ol_positions lp') bal (DFin (ct_stake tm)) (ct_max_open tm) = Inr (Some r')"
      using admit_refuses[OF _ later(2)] unfolding later(1) by blast
    then show ?thesis using d False by (simp add: judge_play_def Let_def liftP_def)
  next
    case never: False
    then have "judge_play tm bal item lp' = judge_play tm bal item lp"
      using lp False by (auto simp: judge_play_def Let_def split: option.split sum.split intro!: bindE_cong)
    then show ?thesis using assms(1) by (intro exI[of _ s]) simp
  qed
qed

lemma step_le:
  assumes "open_play_step tm bal t item (lp, db) = Inr (lp', db')" and "loop_le lp lp" and "terms_ok tm"
  shows "loop_le lp lp' \<and> loop_le lp' lp' \<and> (\<exists>s. judge_play tm bal item lp' = Inr (Inl s))"
proof -
  obtain verdict where v: "judge_play tm bal item lp = Inr verdict" using assms(1) by (auto simp: open_play_step_def bindE_eq_Inr)
  show ?thesis
  proof (cases verdict)
    case (Inl s)
    then have "lp' = skip_play lp s" using assms(1) v by (simp add: open_play_step_def)
    then have le: "loop_le lp lp'" "loop_le lp' lp'" using assms(2) by (auto simp: loop_le_def skip_play_def)
    then show ?thesis using judge_skips[OF v[unfolded Inl]] by blast
  next
    case (Inr x)
    then obtain i where lp': "lp' = add_play lp (ck_candidate item) (ct_stake tm) i"
      using assms(1) v by (auto simp: open_play_step_def bindE_eq_Inr split: prod.splits)
    then have "loop_le lp lp'" "loop_le lp' lp'" using assms(2,3) by (auto simp: loop_le_def add_play_def terms_ok_def)
    moreover have "\<exists>s. judge_play tm bal item lp' = Inr (Inl s)" by (simp add: lp' judge_play_def add_play_def Let_def)
    ultimately show ?thesis by blast
  qed
qed

lemma loop_skips_all:
  assumes "foldE (open_play_step tm bal t) items (lp, db) = Inr (lp', db')" and "loop_le lp lp" and "terms_ok tm"
  shows "loop_le lp lp' \<and> (\<forall>item \<in> set items. \<exists>s. judge_play tm bal item lp' = Inr (Inl s))"
  using assms(1,2)
proof (induction items arbitrary: lp db)
  case (Cons item items)
  then obtain lp1 db1 where st: "open_play_step tm bal t item (lp, db) = Inr (lp1, db1)"
    "foldE (open_play_step tm bal t) items (lp1, db1) = Inr (lp', db')" by (auto simp: bindE_eq_Inr)
  note a = step_le[OF st(1) Cons.prems(2) assms(3)]
  note b = Cons.IH[OF st(2)]
  show ?case using a b judge_skips[of tm bal item lp1 _ lp'] loop_le_trans[of lp lp1 lp'] by auto
qed simp

lemma judge_cong:
  "set (ol_recorded a) = set (ol_recorded b) \<Longrightarrow> ol_positions a = ol_positions b \<Longrightarrow> judge_play tm bal item a = judge_play tm bal item b"
  unfolding judge_play_def Let_def by (simp only:)

lemma skipping_loop:
  assumes "\<forall>item \<in> set items. \<exists>s. judge_play tm bal item lp = Inr (Inl s)"
  shows "\<exists>skips. foldE (open_play_step tm bal t) items (lp, db) = Inr (lp\<lparr>ol_skipped := ol_skipped lp @ skips\<rparr>, db)"
  using assms
proof (induction items arbitrary: lp)
  case Nil
  show ?case by (rule exI[of _ "[]"]) simp
next
  case (Cons item items)
  then obtain s where s: "judge_play tm bal item lp = Inr (Inl s)" by auto
  have "judge_play tm bal x (skip_play lp s) = judge_play tm bal x lp" for x by (rule judge_cong) (simp_all add: skip_play_def)
  then obtain skips where "foldE (open_play_step tm bal t) items (skip_play lp s, db) =
      Inr ((skip_play lp s)\<lparr>ol_skipped := ol_skipped (skip_play lp s) @ skips\<rparr>, db)"
    using Cons.IH[of "skip_play lp s"] Cons.prems by auto
  moreover have "open_play_step tm bal t item (lp, db) = Inr (skip_play lp s, db)" using s by (simp add: open_play_step_def)
  ultimately show ?case by (intro exI[of _ "s # skips"]) (simp add: skip_play_def)
qed

definition calm_paper :: "paper_env \<Rightarrow> bool" where
  "calm_paper pe \<longleftrightarrow> \<not> qe_in_transaction pe \<and> \<not> qe_read_fault pe \<and> \<not> qe_write_fault pe \<and> \<not> qe_read_back_fault pe"

lemma paper_tx_calm: "calm_paper pe \<Longrightarrow> paper_tx pe work db = body_result work db"
  by (simp add: calm_paper_def paper_tx_def)

lemma read_back_Inr: "read_back pe f res = (Inr y, db) \<Longrightarrow> \<exists>x. res = (Inr x, db)"
  by (auto simp: read_back_def split: prod.splits sum.splits)

lemma open_again:
  assumes ok: "paper_ok db" and tm: "terms_ok tm" and w: "open_plays_work tm t checked db = Inr (lp, db')"
  shows "\<exists>lp2. open_plays_work tm t' checked db' = Inr (lp2, db') \<and> ol_opened lp2 = []"
proof -
  have l: "loop_ok db (lp, db')" using open_plays_work_ok[OF w ok tm] by blast
  obtain wl bal where wl: "read_wallet db = Some wl" "wallet_balance wl db = Inr bal"
    and f: "foldE (open_play_step tm bal t) checked (start_loop db, db) = Inr (lp, db')"
    using w by (auto simp: open_plays_work_def bindE_eq_Inr split: option.splits)
  have wl': "read_wallet db' = Some wl" "wallet_balance wl db' = Inr bal"
    using l wl by (simp_all add: loop_ok_def read_wallet_def wallet_balance_def)
  have nn: "0 \<le> play_stake p" if "p \<in> set (pb_plays db)" for p using play_stake_exact[OF ok that] by simp
  have "loop_le (start_loop db) (start_loop db)"
    using nn open_subset by (auto simp: loop_le_def start_loop_def)
  then have "\<forall>item \<in> set checked. \<exists>s. judge_play tm bal item lp = Inr (Inl s)" using loop_skips_all[OF f _ tm] by blast
  moreover have "judge_play tm bal item (start_loop db') = judge_play tm bal item lp" for item
    using l by (intro judge_cong) (auto simp: loop_ok_def start_loop_def position_of_def)
  ultimately obtain skips where "foldE (open_play_step tm bal t') checked (start_loop db', db') =
      Inr ((start_loop db')\<lparr>ol_skipped := ol_skipped (start_loop db') @ skips\<rparr>, db')"
    using skipping_loop[of checked tm bal "start_loop db'" t' db'] by auto
  then show ?thesis using wl' by (simp add: open_plays_work_def start_loop_def)
qed

lemma open_plays_again:
  assumes ok: "paper_ok db" and o: "open_plays pe cs terms now db = (Inr rep, db')" and calm: "calm_paper pe'" and now: "now' = Aware t'"
  shows "\<exists>rep'. open_plays pe' cs terms now' db' = (Inr rep', db') \<and> orp_opened rep' = []"
proof -
  obtain t tm checked where a: "open_args cs terms now = Inr (t, tm, checked)"
    using o by (cases "open_args cs terms now") (auto simp: open_plays_def with_args_def)
  then have a': "open_args cs terms now' = Inr (t', tm, checked)" and tm: "terms_ok tm"
    using now check_terms_ok by (auto simp: open_args_def bindE_eq_Inr)
  show ?thesis
  proof (cases "checked = []")
    case True
    then show ?thesis using o a a' by (auto simp: open_plays_def with_args_def)
  next
    case False
    then obtain lp where "paper_tx pe (open_plays_work tm t checked) db = (Inr lp, db')"
      using o a by (auto simp: open_plays_def with_args_def dest!: read_back_Inr)
    then have "open_plays_work tm t checked db = Inr (lp, db')" by (rule papertx.write_commit)
    from open_again[OF ok tm this, of t'] obtain lp2 where "open_plays_work tm t' checked db' = Inr (lp2, db')" "ol_opened lp2 = []" by blast
    then show ?thesis
      using False a' calm by (simp add: open_plays_def with_args_def paper_tx_calm body_result_def read_back_def calm_paper_def)
  qed
qed

section \<open>Closing again\<close>

lemma write_play_close_closes:
  assumes "write_play_close x t db = Inr (res, db')"
  shows "pb_plays db' = pb_plays db \<and> (\<forall>i. play_closed db' i \<longleftrightarrow> play_closed db i \<or> i = pl_play_id (px_play x))"
  using assms by (cases rule: write_play_close_cases) (auto simp: play_closed_def close_from_def)

lemma write_play_closes_closed:
  assumes "write_play_closes exits t db = Inr (ids, db')"
  shows "pb_plays db' = pb_plays db \<and> (\<forall>i. play_closed db' i \<longleftrightarrow> play_closed db i \<or> i \<in> (pl_play_id \<circ> px_play) ` set exits)"
proof -
  let ?f = "\<lambda>x (ids, db). bindE (write_play_close x t db) (\<lambda>(i, db'). Inr (case i of None \<Rightarrow> ids | Some n \<Rightarrow> ids @ [n], db'))"
  have "foldE ?f exits (js, db) = Inr (ids, db') \<Longrightarrow> ?thesis" for js
  proof (induction exits arbitrary: js db)
    case (Cons x xs)
    then obtain i db1 where w: "write_play_close x t db = Inr (i, db1)" and
      f: "foldE ?f xs (case i of None \<Rightarrow> js | Some n \<Rightarrow> js @ [n], db1) = Inr (ids, db')" by (auto simp: bindE_eq_Inr)
    show ?case using write_play_close_closes[OF w] Cons.IH[OF f] by auto
  qed simp
  then show ?thesis using assms by (simp add: write_play_closes_def)
qed

lemma collect_nothing:
  assumes "\<forall>p \<in> set ps. find_play_exit snaps extras t p = Inr None"
  shows "foldE (collect_play snaps extras t) ps acc = Inr (fst acc, snd acc @ map pl_play_id (filter (\<lambda>p. pl_due_at p \<le> t) ps))"
  using assms by (induction ps arbitrary: acc) (auto simp: collect_play_def)

text \<open>After the write phase the wanted open plays are those for which no exit was found.\<close>

lemma still_open:
  assumes ok: "paper_ok db" and c: "collect_plays snaps extras t js db = Inr found"
    and w: "write_play_closes (fst found) t db = Inr (ids, db')"
  shows "filter (wanted_play js) (read_open_plays db') =
    filter (\<lambda>p. find_play_exit snaps extras t p = Inr None) (filter (wanted_play js) (read_open_plays db))"
proof -
  have found: "(\<forall>p \<in> set (filter (wanted_play js) (read_open_plays db)). \<exists>r. find_play_exit snaps extras t p = Inr r)"
    "fst found = List.map_filter (\<lambda>p. case find_play_exit snaps extras t p of Inr r \<Rightarrow> r | _ \<Rightarrow> None) (filter (wanted_play js) (read_open_plays db))"
    using collect_plays_fold[OF c[unfolded collect_plays_def]] by simp_all
  have exits: "(pl_play_id \<circ> px_play) ` set (fst found) =
      {pl_play_id p | p. p \<in> set (read_open_plays db) \<and> wanted_play js p \<and> (\<exists>x. find_play_exit snaps extras t p = Inr (Some x))}"
    (is "?L = ?R")
  proof
    show "?L \<subseteq> ?R"
    proof
      fix i assume "i \<in> ?L"
      then obtain x where x: "x \<in> set (fst found)" "i = pl_play_id (px_play x)" by auto
      then obtain p where "p \<in> set (read_open_plays db)" "wanted_play js p" "find_play_exit snaps extras t p = Inr (Some x)"
        unfolding found(2) by (auto simp: set_map_filter split: sum.splits) (metis Inr_Inl_False obj_sumE)
      then show "i \<in> ?R" using x(2) find_play_exit_found(2)[OF _ open_subset] by blast
    qed
    show "?R \<subseteq> ?L"
    proof
      fix i assume "i \<in> ?R"
      then obtain p x where p: "i = pl_play_id p" "p \<in> set (read_open_plays db)" "wanted_play js p" "find_play_exit snaps extras t p = Inr (Some x)" by blast
      then have "x \<in> set (fst found)" unfolding found(2) by (force simp: set_map_filter)
      then show "i \<in> ?L" using p(1) find_play_exit_found(2)[OF p(4) open_subset[OF p(2)]] by force
    qed
  qed
  have inj: "p = q" if "p \<in> set (pb_plays db)" "q \<in> set (pb_plays db)" "pl_play_id p = pl_play_id q" for p q
    using ok that unfolding paper_ok_def by (metis distinct_map distinct_upt inj_onD)
  have "(wanted_play js p \<and> \<not> play_closed db' (pl_play_id p)) =
      (wanted_play js p \<and> \<not> play_closed db (pl_play_id p) \<and> find_play_exit snaps extras t p = Inr None)" if "p \<in> set (pb_plays db)" for p
  proof (cases "wanted_play js p \<and> \<not> play_closed db (pl_play_id p)")
    case True
    then have p: "p \<in> set (read_open_plays db)" using that by (simp add: read_open_plays_def)
    then obtain r where r: "find_play_exit snaps extras t p = Inr r" using found(1) True by auto
    have "play_closed db' (pl_play_id p) \<longleftrightarrow> pl_play_id p \<in> (pl_play_id \<circ> px_play) ` set (fst found)"
      using write_play_closes_closed[OF w] True by blast
    also have "\<dots> \<longleftrightarrow> (\<exists>x. find_play_exit snaps extras t p = Inr (Some x))"
      unfolding exits using inj[OF that] p True open_subset by blast
    also have "\<dots> \<longleftrightarrow> r \<noteq> None" by (simp add: r)
    finally show ?thesis using True r by simp
  qed (use write_play_closes_closed[OF w] in auto)
  then have "filter (\<lambda>p. wanted_play js p \<and> \<not> play_closed db' (pl_play_id p)) (pb_plays db) =
      filter (\<lambda>p. wanted_play js p \<and> \<not> play_closed db (pl_play_id p) \<and> find_play_exit snaps extras t p = Inr None) (pb_plays db)"
    by (rule filter_cong[OF refl])
  then show ?thesis using write_play_closes_closed[OF w] by (simp add: read_open_plays_def conj_ac)
qed

lemma close_plays_again:
  assumes ok: "paper_ok db" and c: "close_plays pe snaps now qs ids db = (Inr rep, db')" and calm: "calm_paper pe'"
  shows "close_plays pe' snaps now qs ids db' = (Inr (rep\<lparr>srp_closed := []\<rparr>), db')"
proof -
  obtain t extras js where a: "close_plays_args now qs ids = Inr (t, extras, js)"
    using c by (cases "close_plays_args now qs ids") (auto simp: close_plays_def with_args_def)
  obtain found where f: "collect_plays snaps extras t js db = Inr found" and ph: "write_phase pe t found db = (Inr rep, db')"
    using c a by (auto simp: close_plays_def with_args_def split: if_splits sum.splits)
  have "collect_plays snaps extras t js db' = Inr ([], snd found) \<and> srp_pending rep = snd found"
  proof (cases "fst found = []")
    case True
    then show ?thesis using ph f by (cases found) (auto simp: write_phase_def)
  next
    case False
    then obtain ws where "paper_tx pe (write_play_closes (fst found) t) db = (Inr ws, db')" "srp_pending rep = snd found"
      using ph by (auto simp: write_phase_def read_back_def split: prod.splits sum.splits if_splits)
    moreover from this have w: "write_play_closes (fst found) t db = Inr (ws, db')" by (intro papertx.write_commit)
    moreover have "snd found = map pl_play_id (filter (\<lambda>p. pl_due_at p \<le> t) (filter (wanted_play js) (read_open_plays db')))"
      using collect_plays_fold[OF f[unfolded collect_plays_def]] unfolding still_open[OF ok f w] by (simp add: conj_ac)
    moreover have "\<forall>p \<in> set (filter (wanted_play js) (read_open_plays db')). find_play_exit snaps extras t p = Inr None"
      unfolding still_open[OF ok f w] by simp
    ultimately show ?thesis unfolding collect_plays_def by (subst collect_nothing) auto
  qed
  then show ?thesis using a calm by (simp add: close_plays_def with_args_def calm_paper_def write_phase_def)
qed

section \<open>The step again\<close>

lemma prepared_Inr:
  assumes "prepared pe cfg now f db = (Inr n, db')" and "paper_ok db"
  obtains db1 where "f db1 = (Inr n, db')" "paper_ok db1" "pb_wallet db1 \<noteq> None"
    "\<exists>s c t. wallet_args (pg_start_balance cfg) (pg_currency cfg) now = Inr (s, c, t)"
proof -
  obtain w db1 where p: "prepare pe cfg now db = (Inr w, db1)" "f db1 = (Inr n, db')"
    using assms(1) by (auto simp: prepared_def split: prod.splits sum.splits)
  have "paper_changes {} 0 db (snd (prepare pe cfg now db))" unfolding prepare_def by (rule ensure_wallet_changes)
  then have "paper_ok db1" using paper_ok_changes assms(2) p(1) by fastforce
  moreover obtain a where a: "wallet_args (pg_start_balance cfg) (pg_currency cfg) now = Inr a"
    using p(1) by (cases "wallet_args (pg_start_balance cfg) (pg_currency cfg) now") (auto simp: prepare_def ensure_wallet_def with_args_def)
  moreover have "pb_wallet db1 \<noteq> None"
    using p(1) a by (cases a) (auto simp: prepare_def ensure_wallet_def with_args_def read_back_def read_wallet_def
        split: if_splits option.splits prod.splits sum.splits)
  ultimately show thesis using p(2) that by (metis prod_cases3)
qed

lemma prepared_again:
  assumes "wallet_args (pg_start_balance cfg) (pg_currency cfg) now = Inr (s, c, t)" and "pb_wallet db \<noteq> None" and "calm_paper pe"
  shows "prepared pe cfg now f db = f db"
  using assms by (auto simp: prepared_def prepare_def ensure_wallet_def with_args_def calm_paper_def read_wallet_def)

lemma wallet_kept: "paper_changes F N db db' \<Longrightarrow> pb_wallet db \<noteq> None \<Longrightarrow> pb_wallet db' \<noteq> None"
  by (induction rule: rtranclp_induct) (auto elim: paper_change.cases)

lemma settle_step_again:
  assumes ok: "paper_ok db" and g: "game_settle pe pe' cfg snaps now db = (Inr n, db')" and "calm_paper e" and "calm_paper e'"
  shows "game_settle e e' cfg snaps now db' = (Inr (n\<lparr>pn_closed := 0\<rparr>), db')"
proof -
  from prepared_Inr[OF g[unfolded game_settle_def] ok] obtain db1 s c t
    where d: "apfst (map_sum id settle_counts) (settle_due pe' snaps now db1) = (Inr n, db')" "paper_ok db1" "pb_wallet db1 \<noteq> None"
    and w: "wallet_args (pg_start_balance cfg) (pg_currency cfg) now = Inr (s, c, t)" by metis
  obtain rep where r: "settle_due pe' snaps now db1 = (Inr rep, db')" "n = settle_counts rep"
    using d(1) by (cases "settle_due pe' snaps now db1"; cases "fst (settle_due pe' snaps now db1)") auto
  have "pb_wallet db' \<noteq> None"
    using wallet_kept[OF close_plays_changes[of db1 0 pe' snaps now "[]" None] d(3)] r(1) by (simp add: settle_due_def)
  moreover have "settle_due e' snaps now db' = (Inr (rep\<lparr>srp_closed := []\<rparr>), db')"
    using close_plays_again[OF d(2) _ assms(4)] r(1) unfolding settle_due_def by blast
  ultimately show ?thesis
    unfolding game_settle_def by (subst prepared_again[OF w _ assms(3)]) (simp_all add: r(2) settle_counts_def)
qed

lemma open_step_again:
  assumes ok: "paper_ok db" and g: "open_for_events pe pe' cfg cs now terms db = (Inr n, db')" and "calm_paper e" and "calm_paper e'"
  shows "\<exists>n'. open_for_events e e' cfg cs (Aware t') terms db' = (Inr n', db') \<and> pn_opened n' = 0"
proof -
  let ?tm = "case terms of None \<Rightarrow> pg_terms cfg | Some tm \<Rightarrow> tm"
  from prepared_Inr[OF g[unfolded open_for_events_def] ok] obtain db1 s c t
    where d: "apfst (map_sum id open_counts) (open_plays pe' cs ?tm now db1) = (Inr n, db')" "paper_ok db1" "pb_wallet db1 \<noteq> None"
    and w: "wallet_args (pg_start_balance cfg) (pg_currency cfg) now = Inr (s, c, t)" by metis
  obtain rep where r: "open_plays pe' cs ?tm now db1 = (Inr rep, db')"
    using d(1) by (cases "open_plays pe' cs ?tm now db1"; cases "fst (open_plays pe' cs ?tm now db1)") auto
  have "pb_wallet db' \<noteq> None"
    using wallet_kept[OF open_plays_changes[OF d(2) refl, of "{}" ?tm pe' cs now] d(3)] r by simp
  moreover have "wallet_args (pg_start_balance cfg) (pg_currency cfg) (Aware t') = Inr (s, c, t')"
    using w by (auto simp: wallet_args_def bindE_eq_Inr)
  moreover obtain rep' where "open_plays e' cs ?tm (Aware t') db' = (Inr rep', db')" "orp_opened rep' = []"
    using open_plays_again[OF d(2) r assms(4) refl] by blast
  ultimately show ?thesis
    unfolding open_for_events_def by (subst prepared_again[OF _ _ assms(3)]) (simp_all add: open_counts_def)
qed

end
