(* ===== verification/Paper_Scenario.thy ===== *)
theory Paper_Scenario
  imports Paper_Repeat
begin

text \<open>
  One run of the paper store, evaluated: the wallet is funded, a candidate opens a play, the price falls and the play
  closes at its stop. The properties of the store are applied to its states.
\<close>

section \<open>A run\<close>

definition pp_env :: paper_env where
  "pp_env = \<lparr>qe_in_transaction = False, qe_read_fault = False, qe_write_fault = False, qe_read_back_fault = False\<rparr>"

definition pp_cfg :: paper_config where
  "pp_cfg = \<lparr>pg_start_balance = DFin 1000, pg_currency = PStr ''EUR'',
     pg_terms = \<lparr>tm_stake = DFin 50, tm_fee_bps = DFin 20, tm_max_open = PInt 3\<rparr>\<rparr>"

definition pp_candidate :: paper_candidate where
  "pp_candidate = \<lparr>pa_event_id = ''e1'', pa_run_id = ''r1'', pa_asset = ''BTC'', pa_pair = ''XBTEUR'', pa_quote = ''EUR'',
     pa_direction = PStr ''LONG'', pa_bid = PDec (Lit 100 0), pa_ask = PDec (Lit 100 0), pa_snapshot_ts = Aware 1000000,
     pa_status = PStr ''online'', pa_why = WhyObject [], pa_atr = PDec (Lit 2 0), pa_atr_pair = PStr ''XBTEUR''\<rparr>"

definition pp_drop :: snapshot where
  "pp_drop = \<lparr>sn_id = 7, sn_pair = ''XBTEUR'', sn_ts = Aware 3000000, sn_bid = PDec (Lit 90 0), sn_ask = PDec (Lit 90 0),
     sn_status = PStr ''online''\<rparr>"

definition pp_play :: stored_play where
  "pp_play = \<lparr>pl_play_id = 1, pl_event_id = ''e1'', pl_run_id = ''r1'', pl_asset = ''BTC'', pl_pair = ''XBTEUR'', pl_quote = ''EUR'',
     pl_direction = LONG, pl_stake_cents = 5000, pl_fee_bps = 20, pl_hold_minutes = 1440, pl_entry_bid = 100, pl_entry_ask = 100,
     pl_entry_ts = 1000000, pl_due_at = 86401000000, pl_why_json = ''{}'', pl_opened_at = 2000000,
     pl_exit_policy = Some EX1_POLICY_ID, pl_atr = Some 2, pl_stop = Some 96, pl_target = Some 108\<rparr>"

definition pp_close :: play_close where
  "pp_close = \<lparr>cl_close_id = 1, cl_play_id = 1, cl_exit_bid = 90, cl_exit_ask = 90, cl_exit_ts = 3000000, cl_exit_snapshot_id = 7,
     cl_due_at = 3000000, cl_delay = 0, cl_gross_mid_cents = - 500, cl_spread_cost_cents = 0, cl_fees_cents = 19, cl_net_cents = - 519,
     cl_outcome = LOSS, cl_closed_at = 4000000, cl_exit_reason = Some STOP, cl_exit_source = Some SPOT_SNAPSHOT_SOURCE,
     cl_record_lag = Some 1000000\<rparr>"

definition pp_db1 :: paper_db where
  "pp_db1 = empty_paper\<lparr>pb_wallet := Some \<lparr>wl_start_balance_cents = 100000, wl_currency = ''EUR'', wl_recorded_at = 0\<rparr>\<rparr>"

definition pp_db2 :: paper_db where "pp_db2 = pp_db1\<lparr>pb_plays := [pp_play]\<rparr>"

definition pp_db3 :: paper_db where "pp_db3 = pp_db2\<lparr>pb_closes := [pp_close]\<rparr>"

lemma pp_env_simps [simp]:
  "paper_tx pp_env work db = body_result work db" "qe_in_transaction pp_env = False" "qe_read_fault pp_env = False"
  "qe_read_back_fault pp_env = False" "calm_paper pp_env"
  by (simp_all add: pp_env_def paper_tx_def calm_paper_def)

lemma play_cents_eval [simp]:
  "play_cents 1000 = Inr 100000" "play_cents 50 = Inr 5000" "play_cents 0 = Inr 0" "play_cents (- 5) = Inr (- 500)"
  "play_cents (19 / 100) = Inr 19" "play_cents (- (519 / 100)) = Inr (- 519)"
  by (simp_all add: play_cents_def money_eval default_context_def HUNDRED_def)

lemma from_cents_eval [simp]: "from_cents 100000 = 1000" "from_cents 5000 = 50"
  by (simp_all add: from_cents_def HUNDRED_def default_context_def money_eval)

lemma whole_cents_eval [simp]: "whole_cents_arg (DFin 1000) = Inr 1000" "whole_cents_arg (DFin 50) = Inr 50"
  by (simp_all add: MAX_AMOUNT_def liftP_def money_eval)

lemma pp_db_simps [simp]:
  "pb_plays pp_db1 = []" "pb_closes pp_db1 = []" "pb_exit_quotes pp_db1 = []" "pb_wallet pp_db2 = pb_wallet pp_db1"
  "pb_plays pp_db2 = [pp_play]" "pb_closes pp_db2 = []" "pb_plays pp_db3 = [pp_play]" "pb_closes pp_db3 = [pp_close]"
  "pb_wallet pp_db1 = Some \<lparr>wl_start_balance_cents = 100000, wl_currency = ''EUR'', wl_recorded_at = 0\<rparr>"
  by (simp_all add: pp_db1_def pp_db2_def pp_db3_def empty_paper_def)

lemma pp_args: "wallet_args (DFin 1000) (PStr ''EUR'') (Aware t) = Inr (1000, ''EUR'', t)"
proof -
  have "currency_arg (PStr ''EUR'') = Inr ''EUR''" by code_simp
  then show ?thesis by (simp add: wallet_args_def del: whole_cents_arg.simps currency_arg.simps)
qed

lemma pp_funds: "ensure_wallet pp_env (DFin 1000) (PStr ''EUR'') (Aware 0) empty_paper =
    (Inr \<lparr>wa_start_balance = 1000, wa_currency = ''EUR'', wa_recorded_at = 0\<rparr>, pp_db1)"
  by (simp add: ensure_wallet_def pp_args with_args_def read_wallet_def insert_wallet_def body_result_def empty_paper_def read_back_def pp_db1_def)

lemma pp_checked: "check_paper_candidate pp_candidate = Inr \<lparr>ck_candidate = pp_candidate, ck_entry_ts = 1000000, ck_why_json = ''{}''\<rparr>"
  by code_simp

definition pp_terms :: checked_terms where "pp_terms = \<lparr>ct_stake = 50, ct_fee_bps = 20, ct_max_open = 3\<rparr>"

lemma pp_terms_ok: "check_terms (pg_terms pp_cfg) = Inr pp_terms"
  by (simp add: check_terms_def pp_cfg_def pp_terms_def del: whole_cents_arg.simps)

definition pp_quote :: quote where "pp_quote = \<lparr>bid = 100, ask = 100\<rparr>"

definition pp_levels :: exit_levels_t where
  "pp_levels = \<lparr>policy_id = EX1_POLICY_ID, lv_atr = 2, lv_entry_price = 100, lv_stop = 96, lv_target = 108, hold_minutes = 1440\<rparr>"

lemma pp_levels_ok: "exit_levels LONG pp_quote (DFin 2) = Inr (Some pp_levels)"
  by (simp add: exit_levels_def pp_quote_def pp_levels_def EX1_STOP_ATR_MULTIPLE_def EX1_TARGET_R_MULTIPLE_def
      EX1_MAX_HOLD_MINUTES_def money_eval)

lemma pp_quotes:
  "validate_quote (pa_bid pp_candidate) (pa_ask pp_candidate) (pa_status pp_candidate) = Inr pp_quote"
  "validate_atr (pa_atr pp_candidate) = Inr 2" "parse_direction (pa_direction pp_candidate) = Some LONG"
  "validate_quote (PDec (Lit 90 0)) (PDec (Lit 90 0)) (PStr ''online'') = Inr \<lparr>bid = 90, ask = 90\<rparr>"
  by code_simp+

lemma pp_candidate_fields [simp]:
  "pa_event_id pp_candidate = ''e1''" "pa_run_id pp_candidate = ''r1''" "pa_asset pp_candidate = ''BTC''"
  "pa_pair pp_candidate = ''XBTEUR''" "pa_quote pp_candidate = ''EUR''" "pa_atr_pair pp_candidate = PStr ''XBTEUR''"
  "pa_direction pp_candidate = PStr ''LONG''"
  by (simp_all add: pp_candidate_def)

lemma pp_judge:
  "judge_play pp_terms 1000 \<lparr>ck_candidate = pp_candidate, ck_entry_ts = 1000000, ck_why_json = ''{}''\<rparr> (start_loop pp_db1) =
     Inr (Inr (LONG, pp_quote, pp_levels))"
proof -
  have "exit_plan pp_candidate LONG pp_quote = Inr (Inr pp_levels)"
    by (simp add: exit_plan_def pp_quotes pp_levels_ok liftP_def)
  moreover have "admit (PStr ''LONG'') ''BTC'' [] 1000 (DFin 50) 3 = Inr None"
    by (simp add: admit_def paper_available_cash_def money_eval)
  moreover have "ol_recorded (start_loop pp_db1) = []" "ol_positions (start_loop pp_db1) = []" "ct_stake pp_terms = 50" "ct_max_open pp_terms = 3"
    by (simp_all add: start_loop_def read_open_plays_def pp_terms_def)
  ultimately show ?thesis using pp_quotes by (simp add: judge_play_def liftP_def)
qed

lemma pp_play_ok: "play_check pp_play"
  by (simp add: play_check_def pp_play_def EX1_POLICY_ID_def)

lemma pp_play_row:
  "play_row pp_terms 2000000 \<lparr>ck_candidate = pp_candidate, ck_entry_ts = 1000000, ck_why_json = ''{}''\<rparr> LONG pp_quote pp_levels 1 = Inr pp_play"
  by (simp add: play_row_def pp_terms_def pp_levels_def pp_quote_def pp_play_def liftP_def)

abbreviation pp_item :: checked_candidate where
  "pp_item \<equiv> \<lparr>ck_candidate = pp_candidate, ck_entry_ts = 1000000, ck_why_json = ''{}''\<rparr>"

lemma pp_open_work: "open_plays_work pp_terms 2000000 [pp_item] pp_db1 = Inr (add_play (start_loop pp_db1) pp_candidate 50 1, pp_db2)"
proof -
  have "insert_play pp_play pp_db1 = Inr pp_db2" using pp_play_ok by (simp add: insert_play_def pp_db2_def)
  moreover have "pl_play_id pp_play = 1" by (simp add: pp_play_def)
  ultimately show ?thesis
    using pp_judge pp_play_row by (simp add: open_plays_work_def read_wallet_def wallet_balance_def balance_def liftP_def open_play_step_def pp_terms_def)
qed

lemma pp_open_args: "open_args [pp_candidate] (pg_terms pp_cfg) (Aware 2000000) = Inr (2000000, pp_terms, [pp_item])"
  by (simp add: open_args_def pp_terms_ok pp_checked)

lemma pp_opens: "open_plays pp_env [pp_candidate] (pg_terms pp_cfg) (Aware 2000000) pp_db1 =
    (Inr \<lparr>orp_opened = [pp_play], orp_skipped = []\<rparr>, pp_db2)"
  using pp_open_work pp_open_args
  by (simp add: open_plays_def with_args_def body_result_def read_back_def add_play_def start_loop_def pp_play_def)

definition pp_observation :: observation where
  "pp_observation = \<lparr>ob_observed_at = 3000000, ob_rank = 0, ob_ident = 7, ob_quote = \<lparr>bid = 90, ask = 90\<rparr>, ob_extra = None\<rparr>"

definition pp_exit :: play_exit where
  "pp_exit = \<lparr>px_play = pp_play, px_observation = pp_observation, px_reason = Some STOP\<rparr>"

lemma pp_play_fields [simp]:
  "pl_play_id pp_play = 1" "pl_pair pp_play = ''XBTEUR''" "pl_entry_ts pp_play = 1000000" "pl_due_at pp_play = 86401000000"
  "pl_stop pp_play = Some 96" "pl_target pp_play = Some 108" "pl_direction pp_play = LONG" "pl_fee_bps pp_play = 20"
  "play_stake pp_play = 50" "pl_entry_bid pp_play = 100" "pl_entry_ask pp_play = 100" "pl_stake_cents pp_play = 5000"
  by (simp_all add: pp_play_def play_stake_def)

lemma pp_find: "find_play_exit [pp_drop] [] 4000000 pp_play = Inr (Some pp_exit)"
proof -
  have "play_observations [pp_drop] [] 4000000 pp_play = [pp_observation]"
    by (simp add: play_observations_def spot_observations_def extra_observations_def map_filter_def spot_observation_def pp_drop_def
        in_span_def pp_quotes pp_observation_def)
  then show ?thesis by (simp add: find_play_exit_def exit_decision_def pp_observation_def liftP_def pp_exit_def)
qed

definition pp_result :: play_result where
  "pp_result = \<lparr>pr_entry_price = 100, pr_exit_price = 90, gross_mid = - 5, spread_cost = 0, pr_fees = 19 / 100,
     pr_net = - (519 / 100), pr_outcome = LOSS\<rparr>"

lemma pp_settle: "settle LONG (DFin 50) (DFin 20) \<lparr>bid = 100, ask = 100\<rparr> \<lparr>bid = 90, ask = 90\<rparr> = Inr pp_result"
  by (simp add: settle_def play_entry_price_def play_exit_price_def play_gross_def play_price_result_def mid_def BPS_def classify_def
      pp_result_def money_eval cong: bindE_weak_cong)

lemma pp_write: "write_play_close pp_exit 4000000 pp_db2 = Inr (Some 1, pp_db3)"
proof -
  have "play_close_row pp_exit 4000000 pp_result (Some SPOT_SNAPSHOT_SOURCE) 7 1 = Inr pp_close"
    by (simp add: play_close_row_def pp_exit_def pp_observation_def pp_result_def pp_close_def)
  moreover have "play_evidence pp_exit 4000000 pp_db2 = Inr (Some SPOT_SNAPSHOT_SOURCE, 7, pp_db2)"
    by (simp add: play_evidence_def pp_exit_def pp_observation_def)
  moreover have "insert_play_close pp_close pp_db2 = Inr pp_db3"
    by (simp add: insert_play_close_def play_closed_def play_close_check_def pp_close_def SPOT_SNAPSHOT_SOURCE_def) (simp add: pp_db3_def pp_close_def SPOT_SNAPSHOT_SOURCE_def)
  moreover have "px_play pp_exit = pp_play" "ob_quote (px_observation pp_exit) = \<lparr>bid = 90, ask = 90\<rparr>" "cl_close_id pp_close = 1"
    by (simp_all add: pp_exit_def pp_observation_def pp_close_def)
  moreover have "stored_quote 100 100 = Inr \<lparr>bid = 100, ask = 100\<rparr>" by (simp add: stored_quote_def positive_price_def)
  ultimately show ?thesis using pp_settle by (simp add: write_play_close_def play_closed_def liftP_def)
qed

lemma pp_closes: "close_plays pp_env [pp_drop] (Aware 4000000) [] None pp_db2 =
    (Inr \<lparr>srp_closed = [pp_close], srp_pending = []\<rparr>, pp_db3)"
proof -
  have "read_open_plays pp_db2 = [pp_play]" by (simp add: read_open_plays_def play_closed_def)
  then have "collect_plays [pp_drop] [] 4000000 None pp_db2 = Inr ([pp_exit], [])"
    by (simp add: collect_plays_def collect_play_def wanted_play_def pp_find)
  moreover have "write_play_closes [pp_exit] 4000000 pp_db2 = Inr ([1], pp_db3)" by (simp add: write_play_closes_def pp_write)
  moreover have "cl_close_id pp_close = 1" by (simp add: pp_close_def)
  ultimately show ?thesis
    by (simp add: close_plays_def close_plays_args_def with_args_def write_phase_def body_result_def read_back_def)
qed

end
