(* ===== verification/Paper_Properties.thy ===== *)
theory Paper_Properties
  imports Paper_Scenario
begin

text \<open>
  The properties of the paper game: what every reachable database says about its plays and closes, the
  abstract ledger of pretend money that the operations refine, and that repeating a step writes nothing.
\<close>

section \<open>The store as a machine\<close>

datatype paper_op =
    EnsureWallet paper_env decimal pyval moment
  | OpenPlays paper_env "paper_candidate list" play_terms moment
  | ClosePlays paper_env "snapshot list" moment "observed_quote list" "pyval list option"
  | ReadPlayExits "snapshot list" moment "observed_quote list" "pyval list option"
  | WritePlayExits paper_env nat

text \<open>The database, and the closers that have read their exits and not written them yet.\<close>

record paper_machine =
  qm_db :: paper_db
  qm_prepared :: "(int \<times> play_exit list \<times> nat list) list"

fun paper_step :: "paper_op \<Rightarrow> paper_machine \<Rightarrow> paper_machine" where
  "paper_step (EnsureWallet pe start cur now) m = m\<lparr>qm_db := snd (ensure_wallet pe start cur now (qm_db m))\<rparr>"
| "paper_step (OpenPlays pe cs terms now) m = m\<lparr>qm_db := snd (open_plays pe cs terms now (qm_db m))\<rparr>"
| "paper_step (ClosePlays pe snaps now qs ids) m = m\<lparr>qm_db := snd (close_plays pe snaps now qs ids (qm_db m))\<rparr>"
| "paper_step (ReadPlayExits snaps now qs ids) m =
     (case close_plays_args now qs ids of
        Inl _ \<Rightarrow> m
      | Inr (t, extras, js) \<Rightarrow>
          (case collect_plays snaps extras t js (qm_db m) of
             Inl _ \<Rightarrow> m
           | Inr found \<Rightarrow> m\<lparr>qm_prepared := qm_prepared m @ [(t, found)]\<rparr>))"
| "paper_step (WritePlayExits pe i) m =
     (if i < length (qm_prepared m)
      then m\<lparr>qm_db := snd (write_phase pe (fst (qm_prepared m ! i)) (snd (qm_prepared m ! i)) (qm_db m))\<rparr>
      else m)"

inductive paper_reach :: "paper_db \<Rightarrow> paper_machine \<Rightarrow> bool" for db0 where
  Start: "paper_reach db0 \<lparr>qm_db = db0, qm_prepared = []\<rparr>"
| Step: "paper_reach db0 m \<Longrightarrow> paper_reach db0 (paper_step op m)"

fun op_limit :: "paper_op \<Rightarrow> int" where
  "op_limit (OpenPlays pe cs terms now) = (case tm_max_open terms of PInt n \<Rightarrow> n | _ \<Rightarrow> 0)"
| "op_limit _ = 0"

abbreviation found_now :: "paper_db \<Rightarrow> (play_exit \<times> int) set" where
  "found_now db \<equiv> {xt. play_exit_found db xt}"

definition prepared_ok :: "paper_machine \<Rightarrow> bool" where
  "prepared_ok m \<longleftrightarrow> (\<forall>(t, found) \<in> set (qm_prepared m). set (fst found) \<times> {t} \<subseteq> found_now (qm_db m))"

lemma paper_step_changes:
  assumes "paper_ok (qm_db m)" and "prepared_ok m"
  shows "paper_changes (found_now (qm_db m)) (op_limit op) (qm_db m) (qm_db (paper_step op m))"
proof (cases op)
  case (WritePlayExits pe i)
  show ?thesis
  proof (cases "i < length (qm_prepared m)")
    case True
    obtain t found where i: "qm_prepared m ! i = (t, found)" by (cases "qm_prepared m ! i")
    then have "(t, found) \<in> set (qm_prepared m)" using True nth_mem by force
    then have "set (fst found) \<times> {t} \<subseteq> found_now (qm_db m)" using assms(2) unfolding prepared_ok_def by fast
    then show ?thesis using WritePlayExits True i write_phase_changes by simp
  qed (simp add: WritePlayExits)
qed (auto simp: ensure_wallet_changes open_plays_changes[OF assms(1)] close_plays_changes split: sum.split prod.split)

lemma found_mono: "appended db db' \<Longrightarrow> found_now db \<subseteq> found_now db'"
  by (auto simp: appended_def play_exit_found_def dest: set_mono_prefix)

lemma paper_step_prepared:
  assumes "paper_ok (qm_db m)" and "prepared_ok m"
  shows "prepared_ok (paper_step op m)"
proof -
  have app: "appended (qm_db m) (qm_db (paper_step op m))" by (rule appended_changes[OF paper_step_changes[OF assms]])
  have "(t, found) \<in> set (qm_prepared (paper_step op m)) \<Longrightarrow>
      (t, found) \<in> set (qm_prepared m) \<or> set (fst found) \<times> {t} \<subseteq> found_now (qm_db m)" for t found
    using collect_plays_found by (cases op) (auto split: sum.splits prod.splits if_splits)
  then show ?thesis using assms(2) found_mono[OF app] unfolding prepared_ok_def by fast
qed

section \<open>Rows\<close>

text \<open>The close of a play: a triggered exit after the entry, and the settlement of the terms frozen on the play.\<close>

definition close_true :: "stored_play \<Rightarrow> play_close \<Rightarrow> bool" where
  "close_true p c \<longleftrightarrow> cl_exit_ts c \<le> cl_closed_at c
     \<and> exit_of p (cl_exit_ts c) \<lparr>bid = cl_exit_bid c, ask = cl_exit_ask c\<rparr> (cl_exit_reason c)
     \<and> (\<exists>r. settle (pl_direction p) (DFin (play_stake p)) (DFin (pl_fee_bps p)) \<lparr>bid = pl_entry_bid p, ask = pl_entry_ask p\<rparr>
            \<lparr>bid = cl_exit_bid c, ask = cl_exit_ask c\<rparr> = Inr r
          \<and> gross_mid r = of_int (cl_gross_mid_cents c) / 100 \<and> spread_cost r = of_int (cl_spread_cost_cents c) / 100
          \<and> pr_fees r = of_int (cl_fees_cents c) / 100 \<and> pr_net r = of_int (cl_net_cents c) / 100
          \<and> cl_outcome c = pr_outcome r)"

lemma close_from_true:
  assumes "close_from x t c" and "play_exit_found db (x, t)"
  shows "px_play x \<in> set (pb_plays db) \<and> pl_play_id (px_play x) = cl_play_id c \<and> close_true (px_play x) c"
proof -
  have q: "\<lparr>bid = cl_exit_bid c, ask = cl_exit_ask c\<rparr> = ob_quote (px_observation x)" using assms(1) by (simp add: close_from_def)
  show ?thesis using assms unfolding close_true_def q by (auto simp: close_from_def play_exit_found_def)
qed

definition new_plays :: "paper_db \<Rightarrow> paper_db \<Rightarrow> stored_play list" where
  "new_plays db0 db = drop (length (pb_plays db0)) (pb_plays db)"

definition new_closes :: "paper_db \<Rightarrow> paper_db \<Rightarrow> play_close list" where
  "new_closes db0 db = drop (length (pb_closes db0)) (pb_closes db)"

definition rows_true :: "paper_db \<Rightarrow> paper_db \<Rightarrow> bool" where
  "rows_true db0 db \<longleftrightarrow> appended db0 db \<and> (\<forall>p \<in> set (new_plays db0 db). play_true p)
     \<and> (\<forall>c \<in> set (new_closes db0 db). \<exists>p \<in> set (pb_plays db). pl_play_id p = cl_play_id c \<and> close_true p c)"

lemma appended_lengths: "appended db db' \<Longrightarrow> length (pb_plays db) \<le> length (pb_plays db') \<and> length (pb_closes db) \<le> length (pb_closes db')"
  by (auto simp: appended_def prefix_length_le)

lemma rows_true_change:
  assumes "paper_change F N db db'" and "F \<subseteq> found_now db" and "rows_true db0 db"
  shows "rows_true db0 db'"
proof -
  have app: "appended db0 db'" using assms appended_change appended_trans unfolding rows_true_def by blast
  have len: "length (pb_plays db0) \<le> length (pb_plays db)" "length (pb_closes db0) \<le> length (pb_closes db)"
    using assms(3) appended_lengths by (auto simp: rows_true_def)
  from assms(1) show ?thesis
  proof cases
    case (CloseP c x t)
    then have "px_play x \<in> set (pb_plays db) \<and> pl_play_id (px_play x) = cl_play_id c \<and> close_true (px_play x) c"
      using assms(2) by (intro close_from_true) auto
    then have "\<exists>p \<in> set (pb_plays db). pl_play_id p = cl_play_id c \<and> close_true p c" by blast
    then show ?thesis using assms(3) app CloseP(1) len by (auto simp: rows_true_def new_plays_def new_closes_def)
  qed (use assms(3) app len in \<open>auto simp: rows_true_def new_plays_def new_closes_def\<close>)
qed

lemma rows_true_changes:
  assumes "paper_changes F N db db'" and "F \<subseteq> found_now db" and "rows_true db0 db"
  shows "rows_true db0 db'"
  using assms(1)
proof (induction rule: rtranclp_induct)
  case (step b c)
  have "appended db b" by (rule appended_changes[OF step(1)])
  then have "F \<subseteq> found_now b" using assms(2) found_mono by blast
  then show ?case by (rule rows_true_change[OF step.hyps(2) _ step.IH])
qed (rule assms(3))

lemma reach_inv:
  assumes "paper_reach db0 m" and "paper_ok db0"
  shows "paper_ok (qm_db m) \<and> prepared_ok m \<and> rows_true db0 (qm_db m)"
  using assms(1)
proof (induction rule: paper_reach.induct)
  case Start
  then show ?case using assms(2) by (simp add: prepared_ok_def rows_true_def new_plays_def new_closes_def)
next
  case (Step m op)
  then have ch: "paper_changes (found_now (qm_db m)) (op_limit op) (qm_db m) (qm_db (paper_step op m))" by (intro paper_step_changes) auto
  then show ?case using Step.IH paper_ok_changes[OF ch] rows_true_changes[OF ch] paper_step_prepared by blast
qed

text \<open>
  C9: The rows of the paper game are true. Start from any database that the constraints of the tables allow
  (rows of earlier versions included) and run any operations, with other writers between the read and the
  write phase of a close. Rows are only appended; every new play has a valid entry quote, the EX-1 stop and target of
  that quote and a due time of 24 hours; no event has two plays and no play two closes; and every new
  close belongs to a play, at a valid quote that triggers its exit (for a play without levels: at or
  after its due time), not later than its record, with the cent amounts of the settlement of the frozen
  stake and fee, where the net is gain less spread cost less fees.
\<close>

theorem paper_rows_true:
  assumes "paper_reach db0 m" and "paper_ok db0"
  shows "appended db0 (qm_db m) \<and> (\<forall>p \<in> set (new_plays db0 (qm_db m)). play_true p)
    \<and> distinct (map pl_event_id (pb_plays (qm_db m))) \<and> distinct (map cl_play_id (pb_closes (qm_db m)))
    \<and> (\<forall>c \<in> set (new_closes db0 (qm_db m)). \<exists>p \<in> set (pb_plays (qm_db m)). pl_play_id p = cl_play_id c \<and> close_true p c
         \<and> cl_net_cents c = cl_gross_mid_cents c - cl_spread_cost_cents c - cl_fees_cents c)"
proof -
  note inv = reach_inv[OF assms]
  have "cl_net_cents c = cl_gross_mid_cents c - cl_spread_cost_cents c - cl_fees_cents c" if "c \<in> set (new_closes db0 (qm_db m))" for c
    using inv that by (auto simp: paper_ok_def new_closes_def play_close_check_def dest!: in_set_dropD)
  then show ?thesis using inv unfolding rows_true_def paper_ok_def by blast
qed

definition pp_m1 :: paper_machine where
  "pp_m1 = paper_step (EnsureWallet pp_env (DFin 1000) (PStr ''EUR'') (Aware 0)) \<lparr>qm_db = empty_paper, qm_prepared = []\<rparr>"

definition pp_m2 :: paper_machine where
  "pp_m2 = paper_step (OpenPlays pp_env [pp_candidate] (pg_terms pp_cfg) (Aware 2000000)) pp_m1"

definition pp_m3 :: paper_machine where
  "pp_m3 = paper_step (ClosePlays pp_env [pp_drop] (Aware 4000000) [] None) pp_m2"

lemma pp_run: "qm_db pp_m1 = pp_db1" "qm_db pp_m2 = pp_db2" "qm_db pp_m3 = pp_db3"
  by (simp_all add: pp_m1_def pp_m2_def pp_m3_def pp_funds pp_opens pp_closes)

lemma pp_reached: "paper_reach empty_paper pp_m1" "paper_reach empty_paper pp_m3" "paper_ok empty_paper"
  unfolding pp_m1_def pp_m2_def pp_m3_def
  by (intro paper_reach.intros | simp add: paper_ok_def empty_paper_def)+

theorem paper_rows_true_witness:
  "pb_plays (qm_db pp_m3) = [pp_play] \<and> pb_closes (qm_db pp_m3) = [pp_close] \<and> play_true pp_play \<and> close_true pp_play pp_close"
proof -
  have n: "new_plays empty_paper pp_db3 = [pp_play]" "new_closes empty_paper pp_db3 = [pp_close]"
    by (simp_all add: new_plays_def new_closes_def empty_paper_def)
  show ?thesis using paper_rows_true[OF pp_reached(2,3), unfolded pp_run n] by (simp add: pp_run)
qed

section \<open>The ledger of pretend money\<close>

text \<open>
  The abstract specification: cash in cents and the open plays with their stakes. Money enters once; a play
  takes its stake out of the cash, at most one per asset and below a limit; a close gives the stake
  back with its net.
\<close>

record ledger =
  lg_funded :: bool
  lg_cash :: int
  lg_open :: "(nat \<times> string \<times> int) list"

inductive ledger_move :: "int \<Rightarrow> ledger \<Rightarrow> ledger \<Rightarrow> bool" for N where
  Fund: "\<not> lg_funded l \<Longrightarrow> 0 < a \<Longrightarrow> ledger_move N l (l\<lparr>lg_funded := True, lg_cash := lg_cash l + a\<rparr>)"
| Reserve: "0 < s \<Longrightarrow> s \<le> lg_cash l \<Longrightarrow> a \<notin> fst ` snd ` set (lg_open l) \<Longrightarrow> int (length (lg_open l)) < N \<Longrightarrow>
    ledger_move N l (l\<lparr>lg_cash := lg_cash l - s, lg_open := lg_open l @ [(i, a, s)]\<rparr>)"
| Release: "(i, a, s) \<in> set (lg_open l) \<Longrightarrow>
    ledger_move N l (l\<lparr>lg_cash := lg_cash l + s + net, lg_open := filter (\<lambda>e. fst e \<noteq> i) (lg_open l)\<rparr>)"

abbreviation ledger_moves :: "int \<Rightarrow> ledger \<Rightarrow> ledger \<Rightarrow> bool" where
  "ledger_moves N \<equiv> (ledger_move N)\<^sup>*\<^sup>*"

definition ledger_of :: "paper_db \<Rightarrow> ledger" where
  "ledger_of db = \<lparr>lg_funded = (pb_wallet db \<noteq> None), lg_cash = cash_cents db,
     lg_open = map (\<lambda>p. (pl_play_id p, pl_asset p, pl_stake_cents p)) (read_open_plays db)\<rparr>"

lemma read_open_close:
  "read_open_plays (db\<lparr>pb_closes := pb_closes db @ [c]\<rparr>) = filter (\<lambda>p. pl_play_id p \<noteq> cl_play_id c) (read_open_plays db)"
  by (auto simp: read_open_plays_def play_closed_def intro: filter_cong)

lemma read_open_frame [simp]:
  "read_open_plays (db\<lparr>pb_wallet := w\<rparr>) = read_open_plays db" "read_open_plays (db\<lparr>pb_exit_quotes := qs\<rparr>) = read_open_plays db"
  by (simp_all add: read_open_plays_def play_closed_def)

lemma sum_without:
  assumes "distinct (map f ps)" and "p \<in> set ps"
  shows "sum_list (map g ps) = (g p :: int) + sum_list (map g (filter (\<lambda>x. f x \<noteq> f p) ps))"
  using assms
proof (induction ps)
  case (Cons x ps)
  show ?case
  proof (cases "x = p")
    case True
    then have "filter (\<lambda>x. f x \<noteq> f p) ps = ps" using Cons.prems(1) by (auto simp: filter_id_conv image_iff)
    then show ?thesis using True by simp
  next
    case False
    then have "f x \<noteq> f p" using Cons.prems by auto
    then show ?thesis using False Cons by simp
  qed
qed simp

lemma distinct_open: "paper_ok db \<Longrightarrow> distinct (map pl_play_id (read_open_plays db))"
  unfolding paper_ok_def read_open_plays_def by (metis distinct_map_filter distinct_upt)

lemma ledger_change:
  assumes "paper_change F N db db'" and ok: "paper_ok db" and few: "few_rows db"
  shows "ledger_moves N (ledger_of db) (ledger_of db')"
  using assms(1)
proof cases
  case (WalletP w)
  have "ledger_of db' = (ledger_of db)\<lparr>lg_funded := True, lg_cash := lg_cash (ledger_of db) + wl_start_balance_cents w\<rparr>"
    using WalletP by (simp add: ledger_of_def cash_cents_def)
  then show ?thesis using WalletP Fund[of "ledger_of db" "wl_start_balance_cents w" N] by (simp add: ledger_of_def r_into_rtranclp)
next
  case (PlayP p)
  have r: "read_open_plays db' = read_open_plays db @ [p]" unfolding PlayP(1) by (rule read_open_snoc[OF ok PlayP(2)])
  have "ledger_of db' = (ledger_of db)\<lparr>lg_cash := lg_cash (ledger_of db) - pl_stake_cents p,
      lg_open := lg_open (ledger_of db) @ [(pl_play_id p, pl_asset p, pl_stake_cents p)]\<rparr>"
    using r by (simp add: ledger_of_def cash_cents_def PlayP(1))
  moreover have "ledger_move N (ledger_of db) \<dots>"
    using PlayP few by (intro Reserve) (auto simp: ledger_of_def play_check_def image_image)
  ultimately show ?thesis by (simp add: r_into_rtranclp)
next
  case (QuoteP q)
  then show ?thesis by (simp add: ledger_of_def cash_cents_def)
next
  case (CloseP c x t)
  obtain p where p: "p \<in> set (read_open_plays db)" "pl_play_id p = cl_play_id c"
    using CloseP by (auto simp: read_open_plays_def)
  note r = read_open_close[of db c, folded CloseP(1)]
  have s: "sum_list (map pl_stake_cents (read_open_plays db)) = pl_stake_cents p + sum_list (map pl_stake_cents (read_open_plays db'))"
    using sum_without[OF distinct_open[OF ok] p(1), of pl_stake_cents] by (simp only: r p(2))
  have "ledger_of db' = (ledger_of db)\<lparr>lg_cash := lg_cash (ledger_of db) + pl_stake_cents p + cl_net_cents c,
      lg_open := filter (\<lambda>e. fst e \<noteq> cl_play_id c) (lg_open (ledger_of db))\<rparr>"
    using s r by (simp add: ledger_of_def cash_cents_def CloseP(1) filter_map comp_def)
  moreover have "ledger_move N (ledger_of db) \<dots>"
    using p by (intro Release[of _ "pl_asset p"]) (force simp: ledger_of_def)
  ultimately show ?thesis by (simp add: r_into_rtranclp)
qed

lemma few_rows_back: "appended db db' \<Longrightarrow> few_rows db' \<Longrightarrow> few_rows db"
  using appended_lengths[of db db'] by (auto simp: few_rows_def)

lemma ledger_changes:
  assumes "paper_changes F N db db'" and "paper_ok db" and "few_rows db'"
  shows "ledger_moves N (ledger_of db) (ledger_of db')"
  using assms(1,3)
proof (induction rule: rtranclp_induct)
  case (step b c)
  have few: "few_rows b" using step.hyps(2) step.prems appended_change few_rows_back by blast
  have "paper_ok b" by (rule paper_ok_changes[OF step.hyps(1) assms(2)])
  then show ?case using ledger_change[OF step.hyps(2) _ few] step.IH[OF few] by (metis rtranclp_trans)
qed simp

text \<open>
  C8: The paper store implements a ledger of pretend money. Reading the database as exact cents, every step of
  every writer is a sequence of ledger moves: the wallet is funded once, a play takes its stake only out of
  cash that is there, for an asset with no open play and below the limit of the call, and a close returns
  the stake with its net once. Only opening candidates can reserve. The bound on the number of rows
  keeps the sums of the 50-digit context exact; SQLite could not store as many.
\<close>

theorem paper_refines_ledger:
  assumes "paper_reach db0 m" and "paper_ok db0" and "few_rows (qm_db (paper_step op m))"
  shows "ledger_moves (op_limit op) (ledger_of (qm_db m)) (ledger_of (qm_db (paper_step op m)))"
  using ledger_changes[OF paper_step_changes] reach_inv[OF assms(1,2)] assms(3) by blast

theorem paper_refines_ledger_witness:
  "ledger_moves 3 (ledger_of pp_db1) (ledger_of pp_db2) \<and> lg_cash (ledger_of pp_db1) = 100000
   \<and> lg_cash (ledger_of pp_db2) = 95000 \<and> lg_open (ledger_of pp_db2) = [(1, ''BTC'', 5000)]"
proof -
  have few: "few_rows (qm_db pp_m2)" by (simp add: pp_run few_rows_def)
  have open1: "read_open_plays pp_db1 = []" "read_open_plays pp_db2 = [pp_play]" "pl_asset pp_play = ''BTC''"
    by (simp_all add: read_open_plays_def play_closed_def pp_play_def)
  show ?thesis
    using paper_refines_ledger[OF pp_reached(1,3) few[unfolded pp_m2_def], folded pp_m2_def]
    by (simp add: pp_run ledger_of_def cash_cents_def open1) (simp add: pp_cfg_def)
qed

section \<open>Errors after the commit\<close>

text \<open>
  The class comment of \<^verbatim>\<open>PaperStoreError\<close> says that nothing was written, or that it was rolled back. The rows that an
  operation reports are read after its commit: when SQLite fails there, the error is raised and the play is recorded.
\<close>

lemma error_after_commit:
  "open_plays (pp_env\<lparr>qe_read_back_fault := True\<rparr>) [pp_candidate] (pg_terms pp_cfg) (Aware 2000000) pp_db1 =
     (Inl (PaperStoreError PF_SQLITE_ERROR), pp_db2) \<and> pb_plays pp_db1 = [] \<and> pb_plays pp_db2 = [pp_play]"
  using pp_open_work pp_open_args by (simp add: open_plays_def with_args_def paper_tx_def body_result_def read_back_def pp_env_def)

section \<open>Repeating a step\<close>

text \<open>
  C26: The steps of the paper game are idempotent. On a consistent database, after a step that opened
  candidates has returned, the same step with the same candidates, at any later time, opens nothing and leaves
  the database as it is; and after a step that settled has returned, the same step at the same time over the
  same quotes closes nothing, leaves the database as it is and reports the same pending plays. What a candidate was
  refused for stays true, because plays and spent cash only grow in a call, rounding included.
\<close>

theorem paper_steps_repeat:
  assumes "paper_ok db" and "calm_paper e" and "calm_paper e'"
  shows "(open_for_events pe pe' cfg cs now terms db = (Inr n, db') \<longrightarrow>
      (\<exists>n'. open_for_events e e' cfg cs (Aware t) terms db' = (Inr n', db') \<and> pn_opened n' = 0))
    \<and> (game_settle pe pe' cfg snaps now db = (Inr n, db') \<longrightarrow>
      game_settle e e' cfg snaps now db' = (Inr (n\<lparr>pn_closed := 0\<rparr>), db'))"
  using open_step_again[OF assms(1) _ assms(2,3)] settle_step_again[OF assms(1) _ assms(2,3)] by blast

lemma pp_prepared: "pb_wallet db = pb_wallet pp_db1 \<Longrightarrow> prepared pp_env pp_cfg (Aware t) f db = f db"
  by (rule prepared_again[where c = "''EUR''" and s = 1000 and t = t]) (simp_all add: pp_cfg_def pp_args)

theorem paper_steps_repeat_witness:
  "(\<exists>n. open_for_events pp_env pp_env pp_cfg [pp_candidate] (Aware 2000000) None pp_db1 = (Inr n, pp_db2) \<and> pn_opened n = 1)
   \<and> (\<exists>n. open_for_events pp_env pp_env pp_cfg [pp_candidate] (Aware 5000000) None pp_db2 = (Inr n, pp_db2) \<and> pn_opened n = 0)
   \<and> (\<exists>n. game_settle pp_env pp_env pp_cfg [pp_drop] (Aware 4000000) pp_db2 = (Inr n, pp_db3) \<and> pn_closed n = 1)
   \<and> (\<exists>n. game_settle pp_env pp_env pp_cfg [pp_drop] (Aware 4000000) pp_db3 = (Inr n, pp_db3) \<and> pn_closed n = 0)"
proof -
  have ok: "paper_ok pp_db1" "paper_ok pp_db2"
    using pp_play_ok by (simp_all add: paper_ok_def)
  have o: "open_for_events pp_env pp_env pp_cfg [pp_candidate] (Aware 2000000) None pp_db1 =
      (Inr (open_counts \<lparr>orp_opened = [pp_play], orp_skipped = []\<rparr>), pp_db2)"
    by (simp add: open_for_events_def pp_prepared pp_opens)
  have g: "game_settle pp_env pp_env pp_cfg [pp_drop] (Aware 4000000) pp_db2 =
      (Inr (settle_counts \<lparr>srp_closed = [pp_close], srp_pending = []\<rparr>), pp_db3)"
    by (simp add: game_settle_def pp_prepared settle_due_def pp_closes)
  show ?thesis
    using o g paper_steps_repeat[OF ok(1), of pp_env pp_env] paper_steps_repeat[OF ok(2), of pp_env pp_env]
    by (fastforce simp: open_counts_def settle_counts_def)
qed

end
