(* ===== verification/Costs.thy ===== *)
theory Costs
  imports Risk Invocation
begin

text \<open>
  Exact round-trip cost scenarios, \<^verbatim>\<open>radar_v08/domain/costs.py\<close>: validated inputs, the pricing of the two legs with
  its lines, total, money and cashflow, and the lower bound from the fees alone.

  Every arithmetic operation runs in a context of 200 digits in which \<^verbatim>\<open>Inexact\<close> is trapped, so it returns
  the exact value or raises; \<open>exact\<close> is one such operation. The limits of the exponent are not modelled. An enum
  argument is a value of its datatype; decimals, texts and counts are checked as Python values. The composed
  detail text of a slippage that the book did not cover is left out (\<open>None\<close>).
\<close>

section \<open>Vocabulary\<close>

datatype cost_error_code =
    CE_NOT_DECIMAL | CE_NON_FINITE | CE_OUT_OF_RANGE | CE_EMPTY_FIELD | CE_DOUBLE_COUNTED_SPREAD | CE_CONVENTION_MISMATCH
  | CE_SIZE_MISMATCH | CE_CURRENCY_MISMATCH | CE_FUNDING_NOT_APPLICABLE | CE_PRECISION_EXCEEDED

datatype cost_bound_code = CB_NOT_A_SCENARIO | CB_FEE_MISSING | CB_FEE_NEGATIVE | CB_COMPONENT_OBSERVED | CB_FUNDING_NOT_BOUNDED

text \<open>The errors of the module, a failed \<^verbatim>\<open>assert\<close>, a missing key of a dict, and the error of \<^verbatim>\<open>quantize\<close>.\<close>

datatype cost_exn =
    CostInputError cost_error_code string
  | CostBoundError cost_bound_code string
  | CostAssertion
  | CostKeyError
  | CostArithmetic py_exn

datatype cost_side = SIDE_LONG | SIDE_SHORT

datatype leg = ENTRY_LEG | EXIT_LEG

datatype trade_direction = BUY | SELL

datatype cost_component = SPREAD | SLIPPAGE | FEE | FUNDING | FX

datatype cost_status = COST_COMPLETE | COST_INCOMPLETE

datatype spread_convention = HALF_SPREAD_PLUS_TOUCH_SLIPPAGE | SLIPPAGE_FROM_MID

datatype slippage_basis = FROM_TOUCH | FROM_MID

datatype depth_coverage = FULL_DEPTH | PARTIAL_DEPTH

datatype fee_basis = UNCALIBRATED_ASSUMPTION | PUBLISHED_SCHEDULE

datatype size_provenance = REFERENCE_CONFIG | HYPOTHETICAL_MANUAL

datatype cost_missing_reason =
  NOT_OBSERVED | SIZE_NOT_COVERED | FEE_UNKNOWN | FUNDING_SEMANTICS_UNVERIFIED | FX_RATE_UNAVAILABLE

datatype not_applicable_reason =
  SPREAD_INCLUDED_IN_SLIPPAGE_FROM_MID | SPOT_HAS_NO_FUNDING | ZERO_FUNDING_INTERVALS | REPORT_IN_QUOTE_CURRENCY | NO_MONEY_PROJECTION

datatype money_unavailable_reason = SCENARIO_INCOMPLETE | QUOTE_CURRENCY_UNIDENTIFIED

fun leg_direction :: "cost_side \<Rightarrow> leg \<Rightarrow> trade_direction" where
  "leg_direction SIDE_LONG ENTRY_LEG = BUY"
| "leg_direction SIDE_LONG EXIT_LEG = SELL"
| "leg_direction SIDE_SHORT ENTRY_LEG = SELL"
| "leg_direction SIDE_SHORT EXIT_LEG = BUY"

fun direction_field :: "trade_direction \<Rightarrow> string" where
  "direction_field BUY = ''buy''"
| "direction_field SELL = ''sell''"

fun leg_field :: "leg \<Rightarrow> string" where
  "leg_field ENTRY_LEG = ''entry''"
| "leg_field EXIT_LEG = ''exit''"

fun fee_basis_value :: "fee_basis \<Rightarrow> string" where
  "fee_basis_value UNCALIBRATED_ASSUMPTION = ''uncalibrated_assumption''"
| "fee_basis_value PUBLISHED_SCHEDULE = ''published_schedule''"

section \<open>Inputs\<close>

fun cost_decimal :: "pyval \<Rightarrow> string \<Rightarrow> cost_exn + rat" where
  "cost_decimal (PDec (Lit c e)) field = Inr (dec_value c e)"
| "cost_decimal (PDec _) field = Inl (CostInputError CE_NON_FINITE field)"
| "cost_decimal _ field = Inl (CostInputError CE_NOT_DECIMAL field)"

fun cost_text :: "pyval \<Rightarrow> string \<Rightarrow> cost_exn + string" where
  "cost_text (PStr s) field = (if strip s = [] then Inl (CostInputError CE_EMPTY_FIELD field) else Inr s)"
| "cost_text _ field = Inl (CostInputError CE_EMPTY_FIELD field)"

definition cost_optional_text :: "pyval \<Rightarrow> string \<Rightarrow> cost_exn + string option" where
  "cost_optional_text v field = (if v = PNone then Inr None else bindE (cost_text v field) (\<lambda>s. Inr (Some s)))"

text \<open>A value that is known, or the reason why it is missing with a detail.\<close>

datatype 'a known = Known 'a | Missing cost_missing_reason string

record cost_instrument =
  ci_kind :: instrument_kind
  ci_symbol :: "string option"
  ci_quote_currency :: "string option"

record scenario_size =
  sz_notional :: rat
  sz_provenance :: size_provenance

record spread_input =
  spi_bps :: rat
  spi_source :: string

record slippage_input =
  sli_bps :: rat
  sli_basis :: slippage_basis
  sli_measured_notional :: rat
  sli_coverage :: depth_coverage
  sli_source :: string

record fee_input =
  fei_bps :: rat
  fei_basis :: fee_basis
  fei_source :: string

record funding_input =
  fui_bps_per_interval :: rat
  fui_source :: string

record fx_rate =
  fxr_from_currency :: string
  fxr_to_currency :: string
  fxr_rate :: rat
  fxr_source :: string

abbreviation out_of_range :: "string \<Rightarrow> cost_exn" where
  "out_of_range field \<equiv> CostInputError CE_OUT_OF_RANGE field"

definition make_cost_instrument :: "instrument_kind \<Rightarrow> pyval \<Rightarrow> pyval \<Rightarrow> cost_exn + cost_instrument" where
  "make_cost_instrument kind symbol cur =
     bindE (cost_optional_text symbol ''CostInstrument.symbol'') (\<lambda>sy.
     bindE (cost_optional_text cur ''CostInstrument.quote_currency'') (\<lambda>cu.
     Inr \<lparr>ci_kind = kind, ci_symbol = sy, ci_quote_currency = cu\<rparr>))"

definition make_scenario_size :: "pyval \<Rightarrow> size_provenance \<Rightarrow> cost_exn + scenario_size" where
  "make_scenario_size notional provenance =
     bindE (cost_decimal notional ''ScenarioSize.notional'') (\<lambda>n.
     bindE (guardE (0 < n) (out_of_range ''ScenarioSize.notional'')) (\<lambda>_.
     Inr \<lparr>sz_notional = n, sz_provenance = provenance\<rparr>))"

definition make_spread :: "pyval \<Rightarrow> pyval \<Rightarrow> cost_exn + spread_input" where
  "make_spread bps source =
     bindE (cost_decimal bps ''SpreadInput.bps'') (\<lambda>v.
     bindE (guardE (0 \<le> v \<and> v < 20000) (out_of_range ''SpreadInput.bps'')) (\<lambda>_.
     bindE (cost_text source ''SpreadInput.source'') (\<lambda>src.
     Inr \<lparr>spi_bps = v, spi_source = src\<rparr>)))"

definition make_slippage ::
  "pyval \<Rightarrow> slippage_basis \<Rightarrow> pyval \<Rightarrow> depth_coverage \<Rightarrow> pyval \<Rightarrow> cost_exn + slippage_input" where
  "make_slippage bps basis notional coverage source =
     bindE (cost_decimal bps ''SlippageInput.bps'') (\<lambda>v.
     bindE (guardE (0 \<le> v \<and> v < BPS) (out_of_range ''SlippageInput.bps'')) (\<lambda>_.
     bindE (cost_decimal notional ''SlippageInput.measured_notional'') (\<lambda>n.
     bindE (guardE (0 < n) (out_of_range ''SlippageInput.measured_notional'')) (\<lambda>_.
     bindE (cost_text source ''SlippageInput.source'') (\<lambda>src.
     Inr \<lparr>sli_bps = v, sli_basis = basis, sli_measured_notional = n, sli_coverage = coverage, sli_source = src\<rparr>)))))"

text \<open>The magnitude of a fee or a funding rate is taken in the interpreter's default context.\<close>

definition make_fee :: "pyval \<Rightarrow> fee_basis \<Rightarrow> pyval \<Rightarrow> cost_exn + fee_input" where
  "make_fee bps basis source =
     bindE (cost_decimal bps ''FeeInput.bps'') (\<lambda>v.
     bindE (guardE (ctx_fix default_context \<bar>v\<bar> < BPS) (out_of_range ''FeeInput.bps'')) (\<lambda>_.
     bindE (cost_text source ''FeeInput.source'') (\<lambda>src.
     Inr \<lparr>fei_bps = v, fei_basis = basis, fei_source = src\<rparr>)))"

definition make_funding :: "pyval \<Rightarrow> pyval \<Rightarrow> cost_exn + funding_input" where
  "make_funding bps source =
     bindE (cost_decimal bps ''FundingInput.bps_per_interval'') (\<lambda>v.
     bindE (guardE (ctx_fix default_context \<bar>v\<bar> < BPS) (out_of_range ''FundingInput.bps_per_interval'')) (\<lambda>_.
     bindE (cost_text source ''FundingInput.source'') (\<lambda>src.
     Inr \<lparr>fui_bps_per_interval = v, fui_source = src\<rparr>)))"

definition make_fx_rate :: "pyval \<Rightarrow> pyval \<Rightarrow> pyval \<Rightarrow> pyval \<Rightarrow> cost_exn + fx_rate" where
  "make_fx_rate from_cur to_cur rate source =
     bindE (cost_text from_cur ''FxRate.from_currency'') (\<lambda>f.
     bindE (cost_text to_cur ''FxRate.to_currency'') (\<lambda>t.
     bindE (cost_decimal rate ''FxRate.rate'') (\<lambda>r.
     bindE (guardE (0 < r) (out_of_range ''FxRate.rate'')) (\<lambda>_.
     bindE (cost_text source ''FxRate.source'') (\<lambda>src.
     Inr \<lparr>fxr_from_currency = f, fxr_to_currency = t, fxr_rate = r, fxr_source = src\<rparr>)))))"

record cost_scenario_input =
  csi_instrument :: cost_instrument
  csi_side :: cost_side
  csi_size :: scenario_size
  csi_spread_convention :: spread_convention
  csi_spread :: "spread_input known option"
  csi_buy_slippage :: "slippage_input known"
  csi_sell_slippage :: "slippage_input known"
  csi_entry_fee :: "fee_input known"
  csi_exit_fee :: "fee_input known"
  csi_funding_intervals :: int
  csi_funding :: "funding_input known option"
  csi_report_currency :: "string option"
  csi_fx :: "fx_rate known option"

text \<open>The last checks of a scenario: its count of funding intervals and its report currency, both given as Python values.\<close>

definition make_scenario :: "pyval \<Rightarrow> pyval \<Rightarrow> cost_scenario_input \<Rightarrow> cost_exn + cost_scenario_input" where
  "make_scenario intervals report s =
     bindE (case intervals of PInt n \<Rightarrow> if n < 0 then Inl (out_of_range ''CostScenarioInput.funding_intervals'') else Inr n
            | _ \<Rightarrow> Inl (out_of_range ''CostScenarioInput.funding_intervals'')) (\<lambda>n.
     bindE (cost_optional_text report ''CostScenarioInput.report_currency'') (\<lambda>cu.
     Inr (s\<lparr>csi_funding_intervals := n, csi_report_currency := cu\<rparr>)))"

section \<open>Outputs\<close>

record money =
  mo_amount :: rat
  mo_currency :: string

record cost_line =
  cln_component :: cost_component
  cln_leg :: "leg option"
  cln_direction :: "trade_direction option"
  cln_fraction :: rat
  cln_source :: string

record missing_line =
  ml_component :: cost_component
  ml_leg :: "leg option"
  ml_reason :: cost_missing_reason
  ml_detail :: "string option"

record not_applicable_line =
  na_component :: cost_component
  na_leg :: "leg option"
  na_reason :: not_applicable_reason

record hypothetical_cashflow =
  hc_entry_trade :: money
  hc_entry_fee :: money
  hc_exit_trade :: money
  hc_exit_fee :: money
  hc_funding :: money
  hc_net :: money

record cost_scenario =
  cs_policy_version :: string
  cs_instrument :: cost_instrument
  cs_side :: cost_side
  cs_size :: scenario_size
  cs_spread_convention :: spread_convention
  cs_funding_intervals :: int
  cs_status :: cost_status
  cs_lines :: "cost_line list"
  cs_missing :: "missing_line list"
  cs_not_applicable :: "not_applicable_line list"
  cs_total_fraction :: "rat option"
  cs_total_quote :: "money option"
  cs_total_report :: "money option"
  cs_cashflow :: "hypothetical_cashflow option"
  cs_money_unavailable :: "money_unavailable_reason option"

section \<open>Arithmetic\<close>

definition COST_POLICY_VERSION :: string where "COST_POLICY_VERSION = ''COST-1''"

definition COST_CONTEXT :: ctx where "COST_CONTEXT = Ctx 200 ROUND_HALF_EVEN"

definition exact :: "string \<Rightarrow> rat \<Rightarrow> cost_exn + rat" where
  "exact field v = (if ctx_fix COST_CONTEXT v = v then Inr v else Inl (CostInputError CE_PRECISION_EXCEEDED field))"

text \<open>A chain of operations, each of them exact, from a first operand.\<close>

fun exactly :: "string \<Rightarrow> rat \<Rightarrow> (rat \<Rightarrow> rat) list \<Rightarrow> cost_exn + rat" where
  "exactly field v [] = Inr v"
| "exactly field v (f # fs) = bindE (exact field (f v)) (\<lambda>x. exactly field x fs)"

definition sum_exact :: "string \<Rightarrow> rat list \<Rightarrow> cost_exn + rat" where
  "sum_exact field xs = foldE (\<lambda>x acc. exact field (acc + x)) xs 0"

definition line_bps :: "cost_line \<Rightarrow> cost_exn + rat" where
  "line_bps l = exact ''CostLine.bps'' (cln_fraction l * BPS)"

definition total_bps :: "cost_scenario \<Rightarrow> cost_exn + rat option" where
  "total_bps r =
     (case cs_total_fraction r of
        None \<Rightarrow> Inr None
      | Some f \<Rightarrow> bindE (exact ''CostScenario.total_bps'' (f * BPS)) (\<lambda>b. Inr (Some b)))"

definition present :: "pyval \<Rightarrow> pyval \<Rightarrow> cost_exn + rat" where
  "present v places =
     bindE (cost_decimal v ''present.value'') (\<lambda>x.
     case places of
       PInt n \<Rightarrow>
         if n < 0 then Inl (out_of_range ''present.places'')
         else (case quantize COST_CONTEXT ROUND_CEILING (- n) x of Inl e \<Rightarrow> Inl (CostArithmetic e) | Inr y \<Rightarrow> Inr y)
     | _ \<Rightarrow> Inl (out_of_range ''present.places''))"

section \<open>Pricing\<close>

record fill =
  fl_notional_fraction :: rat
  fl_spread :: "rat option"
  fl_slippage :: rat

definition trade_sign :: "trade_direction \<Rightarrow> rat" where
  "trade_sign d = (if d = BUY then 1 else - 1)"

definition cost_fill :: "trade_direction \<Rightarrow> spread_convention \<Rightarrow> rat option \<Rightarrow> rat \<Rightarrow> cost_exn + fill" where
  "cost_fill d conv half slip =
     (let sign = trade_sign d in
      if conv = SLIPPAGE_FROM_MID
      then bindE (exactly ''fill'' sign [\<lambda>x. x * slip, \<lambda>x. 1 + x]) (\<lambda>f.
        Inr \<lparr>fl_notional_fraction = f, fl_spread = None, fl_slippage = slip\<rparr>)
      else (case half of
          None \<Rightarrow> Inl CostAssertion
        | Some h \<Rightarrow>
            bindE (exactly ''touch'' sign [\<lambda>x. x * h, \<lambda>x. 1 + x]) (\<lambda>touch.
            bindE (exactly ''fill'' sign [\<lambda>x. x * slip, \<lambda>x. 1 + x, \<lambda>x. touch * x]) (\<lambda>f.
            bindE (exact ''slip'' (touch * slip)) (\<lambda>s.
            Inr \<lparr>fl_notional_fraction = f, fl_spread = Some h, fl_slippage = s\<rparr>)))))"

text \<open>What the pricing has collected so far.\<close>

record cost_work =
  cw_lines :: "cost_line list"
  cw_missing :: "missing_line list"
  cw_not_applicable :: "not_applicable_line list"
  cw_half_spread :: "rat option"
  cw_spread_missing :: bool
  cw_fills :: "leg \<Rightarrow> fill option"
  cw_fees :: "leg \<Rightarrow> rat option"
  cw_funding :: rat
  cw_fx :: "rat option"

definition no_work :: cost_work where
  "no_work = \<lparr>cw_lines = [], cw_missing = [], cw_not_applicable = [], cw_half_spread = None, cw_spread_missing = False,
     cw_fills = (\<lambda>_. None), cw_fees = (\<lambda>_. None), cw_funding = 0, cw_fx = None\<rparr>"

definition add_line :: "cost_component \<Rightarrow> leg option \<Rightarrow> trade_direction option \<Rightarrow> rat \<Rightarrow> string \<Rightarrow> cost_work \<Rightarrow> cost_work" where
  "add_line c l d f src w = w\<lparr>cw_lines := cw_lines w @ [\<lparr>cln_component = c, cln_leg = l, cln_direction = d, cln_fraction = f, cln_source = src\<rparr>]\<rparr>"

definition add_missing :: "cost_component \<Rightarrow> leg option \<Rightarrow> cost_missing_reason \<Rightarrow> string option \<Rightarrow> cost_work \<Rightarrow> cost_work" where
  "add_missing c l r d w = w\<lparr>cw_missing := cw_missing w @ [\<lparr>ml_component = c, ml_leg = l, ml_reason = r, ml_detail = d\<rparr>]\<rparr>"

definition add_not_applicable :: "cost_component \<Rightarrow> leg option \<Rightarrow> not_applicable_reason \<Rightarrow> cost_work \<Rightarrow> cost_work" where
  "add_not_applicable c l r w = w\<lparr>cw_not_applicable := cw_not_applicable w @ [\<lparr>na_component = c, na_leg = l, na_reason = r\<rparr>]\<rparr>"

text \<open>The reason and detail of a value that is not known; one that was not supplied has a default.\<close>

definition missing_of :: "'a known option \<Rightarrow> cost_missing_reason \<Rightarrow> string \<Rightarrow> cost_missing_reason \<times> string" where
  "missing_of v reason detail = (case v of Some (Missing r d) \<Rightarrow> (r, d) | _ \<Rightarrow> (reason, detail))"

definition price_spread :: "cost_scenario_input \<Rightarrow> cost_work \<Rightarrow> cost_exn + cost_work" where
  "price_spread s w =
     (case (csi_spread_convention s, csi_spread s) of
        (SLIPPAGE_FROM_MID, Some (Known _)) \<Rightarrow> Inl (CostInputError CE_DOUBLE_COUNTED_SPREAD ''spread'')
      | (SLIPPAGE_FROM_MID, _) \<Rightarrow>
          Inr (add_not_applicable SPREAD (Some EXIT_LEG) SPREAD_INCLUDED_IN_SLIPPAGE_FROM_MID
            (add_not_applicable SPREAD (Some ENTRY_LEG) SPREAD_INCLUDED_IN_SLIPPAGE_FROM_MID w))
      | (_, Some (Known sp)) \<Rightarrow>
          bindE (exactly ''spread'' (spi_bps sp) [\<lambda>x. x / 2, \<lambda>x. x / BPS]) (\<lambda>h. Inr (w\<lparr>cw_half_spread := Some h\<rparr>))
      | (_, v) \<Rightarrow>
          (case missing_of v NOT_OBSERVED ''spread not supplied'' of (r, d) \<Rightarrow>
             Inr (add_missing SPREAD (Some EXIT_LEG) r (Some d)
               (add_missing SPREAD (Some ENTRY_LEG) r (Some d) (w\<lparr>cw_spread_missing := True\<rparr>)))))"

definition slippage_of :: "cost_scenario_input \<Rightarrow> trade_direction \<Rightarrow> slippage_input known" where
  "slippage_of s d = (if d = BUY then csi_buy_slippage s else csi_sell_slippage s)"

definition expected_basis :: "spread_convention \<Rightarrow> slippage_basis" where
  "expected_basis conv = (if conv = SLIPPAGE_FROM_MID then FROM_MID else FROM_TOUCH)"

definition check_slippage :: "cost_scenario_input \<Rightarrow> trade_direction \<Rightarrow> cost_exn + unit" where
  "check_slippage s d =
     (case slippage_of s d of
        Missing _ _ \<Rightarrow> Inr ()
      | Known v \<Rightarrow>
          if sli_basis v \<noteq> expected_basis (csi_spread_convention s)
          then Inl (CostInputError CE_CONVENTION_MISMATCH (direction_field d @ ''_slippage''))
          else if sli_measured_notional v \<noteq> sz_notional (csi_size s)
          then Inl (CostInputError CE_SIZE_MISMATCH (direction_field d @ ''_slippage''))
          else Inr ())"

definition spread_source :: "cost_scenario_input \<Rightarrow> string" where
  "spread_source s = (case csi_spread s of Some (Known sp) \<Rightarrow> spi_source sp | _ \<Rightarrow> [])"

definition price_leg :: "cost_scenario_input \<Rightarrow> leg \<Rightarrow> cost_work \<Rightarrow> cost_exn + cost_work" where
  "price_leg s l w =
     (let d = leg_direction (csi_side s) l in
      case slippage_of s d of
        Missing r detail \<Rightarrow> Inr (add_missing SLIPPAGE (Some l) r (Some detail) w)
      | Known slip \<Rightarrow>
          if sli_coverage slip = PARTIAL_DEPTH then Inr (add_missing SLIPPAGE (Some l) SIZE_NOT_COVERED None w)
          else if cw_spread_missing w then Inr w
          else
            bindE (exact ''slippage'' (sli_bps slip / BPS)) (\<lambda>fraction.
            bindE (cost_fill d (csi_spread_convention s) (cw_half_spread w) fraction) (\<lambda>f.
            let w1 = w\<lparr>cw_fills := (cw_fills w)(l := Some f)\<rparr>;
                w2 = (case fl_spread f of None \<Rightarrow> w1 | Some h \<Rightarrow> add_line SPREAD (Some l) (Some d) h (spread_source s) w1)
            in Inr (add_line SLIPPAGE (Some l) (Some d) (fl_slippage f) (sli_source slip) w2))))"

definition fee_of :: "cost_scenario_input \<Rightarrow> leg \<Rightarrow> fee_input known" where
  "fee_of s l = (if l = ENTRY_LEG then csi_entry_fee s else csi_exit_fee s)"

definition price_fee :: "cost_scenario_input \<Rightarrow> leg \<Rightarrow> cost_work \<Rightarrow> cost_exn + cost_work" where
  "price_fee s l w =
     (case fee_of s l of
        Missing r d \<Rightarrow> Inr (add_missing FEE (Some l) r (Some d) w)
      | Known fee \<Rightarrow>
          (case cw_fills w l of
             None \<Rightarrow> Inr w
           | Some f \<Rightarrow>
               bindE (exactly ''fee'' (fei_bps fee) [\<lambda>x. x / BPS, \<lambda>x. x * fl_notional_fraction f]) (\<lambda>v.
               Inr (add_line FEE (Some l) (Some (leg_direction (csi_side s) l)) v
                 (fee_basis_value (fei_basis fee) @ '': '' @ fei_source fee) (w\<lparr>cw_fees := (cw_fees w)(l := Some v)\<rparr>)))))"

definition side_sign :: "cost_side \<Rightarrow> rat" where
  "side_sign sd = (if sd = SIDE_LONG then 1 else - 1)"

definition price_funding :: "cost_scenario_input \<Rightarrow> cost_work \<Rightarrow> cost_exn + cost_work" where
  "price_funding s w =
     (if ci_kind (csi_instrument s) = SPOT
      then (case csi_funding s of
          Some (Known _) \<Rightarrow> Inl (CostInputError CE_FUNDING_NOT_APPLICABLE ''funding'')
        | _ \<Rightarrow> Inr (add_not_applicable FUNDING None SPOT_HAS_NO_FUNDING w))
      else if csi_funding_intervals s = 0 then Inr (add_not_applicable FUNDING None ZERO_FUNDING_INTERVALS w)
      else (case csi_funding s of
          Some (Known fu) \<Rightarrow>
            bindE (exactly ''funding'' (side_sign (csi_side s))
                [\<lambda>x. x * fui_bps_per_interval fu, \<lambda>x. x / BPS, \<lambda>x. x * of_int (csi_funding_intervals s)]) (\<lambda>v.
            Inr (add_line FUNDING None None v (fui_source fu) (w\<lparr>cw_funding := v\<rparr>)))
        | v \<Rightarrow> (case missing_of v NOT_OBSERVED ''funding not supplied'' of (r, d) \<Rightarrow> Inr (add_missing FUNDING None r (Some d) w))))"

definition price_fx :: "cost_scenario_input \<Rightarrow> cost_work \<Rightarrow> cost_exn + cost_work" where
  "price_fx s w =
     (case (csi_report_currency s, ci_quote_currency (csi_instrument s)) of
        (Some rep, Some cur) \<Rightarrow>
          if rep = cur then Inr (add_not_applicable FX None REPORT_IN_QUOTE_CURRENCY w)
          else (case csi_fx s of
              Some (Known x) \<Rightarrow>
                if fxr_from_currency x \<noteq> cur \<or> fxr_to_currency x \<noteq> rep then Inl (CostInputError CE_CURRENCY_MISMATCH ''fx'')
                else Inr (w\<lparr>cw_fx := Some (fxr_rate x)\<rparr>)
            | v \<Rightarrow> (case missing_of v FX_RATE_UNAVAILABLE (''no '' @ cur @ ''->'' @ rep @ '' rate'') of (r, d) \<Rightarrow>
                Inr (add_missing FX None r (Some d) w)))
      | _ \<Rightarrow> Inr (add_not_applicable FX None NO_MONEY_PROJECTION w))"

definition to_money :: "cost_scenario_input \<Rightarrow> string \<Rightarrow> string \<Rightarrow> rat \<Rightarrow> cost_exn + money" where
  "to_money s cur field v =
     bindE (exact field (v * sz_notional (csi_size s))) (\<lambda>a. Inr \<lparr>mo_amount = a, mo_currency = cur\<rparr>)"

definition trade_cash :: "cost_scenario_input \<Rightarrow> cost_work \<Rightarrow> leg \<Rightarrow> cost_exn + rat" where
  "trade_cash s w l =
     (case cw_fills w l of
        None \<Rightarrow> Inl CostAssertion
      | Some f \<Rightarrow> exact ''trade'' (- trade_sign (leg_direction (csi_side s) l) * fl_notional_fraction f))"

definition fee_cash :: "cost_work \<Rightarrow> leg \<Rightarrow> cost_exn + rat" where
  "fee_cash w l = (case cw_fees w l of None \<Rightarrow> Inl CostKeyError | Some v \<Rightarrow> exact (leg_field l @ ''_fee'') (- v))"

definition cashflow :: "cost_scenario_input \<Rightarrow> cost_work \<Rightarrow> string \<Rightarrow> cost_exn + hypothetical_cashflow" where
  "cashflow s w cur =
     bindE (trade_cash s w ENTRY_LEG) (\<lambda>entry.
     bindE (trade_cash s w EXIT_LEG) (\<lambda>exit.
     bindE (fee_cash w ENTRY_LEG) (\<lambda>entry_fee.
     bindE (fee_cash w EXIT_LEG) (\<lambda>exit_fee.
     bindE (exact ''funding_cash'' (- cw_funding w)) (\<lambda>funding.
     bindE (exactly ''net'' entry [\<lambda>x. x + exit, \<lambda>x. x + entry_fee, \<lambda>x. x + exit_fee, \<lambda>x. x + funding]) (\<lambda>net.
     bindE (to_money s cur ''entry_trade'' entry) (\<lambda>m1.
     bindE (to_money s cur ''entry_fee'' entry_fee) (\<lambda>m2.
     bindE (to_money s cur ''exit_trade'' exit) (\<lambda>m3.
     bindE (to_money s cur ''exit_fee'' exit_fee) (\<lambda>m4.
     bindE (to_money s cur ''funding'' funding) (\<lambda>m5.
     bindE (to_money s cur ''net'' net) (\<lambda>m6.
     Inr \<lparr>hc_entry_trade = m1, hc_entry_fee = m2, hc_exit_trade = m3, hc_exit_fee = m4, hc_funding = m5, hc_net = m6\<rparr>))))))))))))"

definition scenario_result :: "cost_scenario_input \<Rightarrow> cost_work \<Rightarrow> cost_status \<Rightarrow> cost_scenario" where
  "scenario_result s w status =
     \<lparr>cs_policy_version = COST_POLICY_VERSION, cs_instrument = csi_instrument s, cs_side = csi_side s, cs_size = csi_size s,
       cs_spread_convention = csi_spread_convention s, cs_funding_intervals = csi_funding_intervals s, cs_status = status,
       cs_lines = cw_lines w, cs_missing = cw_missing w, cs_not_applicable = cw_not_applicable w, cs_total_fraction = None,
       cs_total_quote = None, cs_total_report = None, cs_cashflow = None, cs_money_unavailable = Some SCENARIO_INCOMPLETE\<rparr>"

definition report_money :: "cost_scenario_input \<Rightarrow> cost_work \<Rightarrow> string \<Rightarrow> money \<Rightarrow> cost_exn + money option" where
  "report_money s w cur tq =
     (case csi_report_currency s of
        None \<Rightarrow> Inr None
      | Some rep \<Rightarrow>
          (case cw_fx w of
             None \<Rightarrow> Inr (Some \<lparr>mo_amount = mo_amount tq, mo_currency = cur\<rparr>)
           | Some rate \<Rightarrow>
               bindE (exact ''total_report'' (mo_amount tq * rate)) (\<lambda>a. Inr (Some \<lparr>mo_amount = a, mo_currency = rep\<rparr>))))"

definition complete_scenario :: "cost_scenario_input \<Rightarrow> cost_work \<Rightarrow> cost_exn + cost_scenario" where
  "complete_scenario s w =
     bindE (sum_exact ''total'' (map cln_fraction (cw_lines w))) (\<lambda>total.
     let r = (scenario_result s w COST_COMPLETE)\<lparr>cs_total_fraction := Some total\<rparr> in
     case ci_quote_currency (csi_instrument s) of
       None \<Rightarrow> Inr (r\<lparr>cs_money_unavailable := Some QUOTE_CURRENCY_UNIDENTIFIED\<rparr>)
     | Some cur \<Rightarrow>
         bindE (to_money s cur ''total_quote'' total) (\<lambda>tq.
         bindE (report_money s w cur tq) (\<lambda>tr.
         bindE (cashflow s w cur) (\<lambda>cf.
         Inr (r\<lparr>cs_total_quote := Some tq, cs_total_report := tr, cs_cashflow := Some cf, cs_money_unavailable := None\<rparr>)))))"

definition price_components :: "cost_scenario_input \<Rightarrow> cost_exn + cost_work" where
  "price_components s =
     bindE (price_spread s no_work) (\<lambda>w0.
     bindE (check_slippage s BUY) (\<lambda>_.
     bindE (check_slippage s SELL) (\<lambda>_.
     bindE (foldE (price_leg s) [ENTRY_LEG, EXIT_LEG] w0) (\<lambda>w1.
     bindE (foldE (price_fee s) [ENTRY_LEG, EXIT_LEG] w1) (\<lambda>w2.
     bindE (price_funding s w2) (\<lambda>w3. price_fx s w3))))))"

definition price_round_trip :: "cost_scenario_input \<Rightarrow> cost_exn + cost_scenario" where
  "price_round_trip s =
     bindE (price_components s) (\<lambda>w.
     if cw_missing w \<noteq> [] then Inr (scenario_result s w COST_INCOMPLETE) else complete_scenario s w)"

section \<open>Lower bound\<close>

record cost_lower_bound =
  lb_policy_version :: string
  lb_status :: cost_status
  lb_instrument :: cost_instrument
  lb_side :: cost_side
  lb_size :: scenario_size
  lb_spread_convention :: spread_convention
  lb_fee_lines :: "cost_line list"
  lb_fees :: "fee_input list"
  lb_missing :: "missing_line list"
  lb_not_applicable :: "not_applicable_line list"
  lb_fraction :: rat

definition bound_spread :: "cost_scenario_input \<Rightarrow> cost_work \<Rightarrow> cost_exn + cost_work" where
  "bound_spread s w =
     (case (csi_spread_convention s, csi_spread s) of
        (HALF_SPREAD_PLUS_TOUCH_SLIPPAGE, Some (Known _)) \<Rightarrow> Inl (CostBoundError CB_COMPONENT_OBSERVED ''spread'')
      | _ \<Rightarrow> price_spread s w)"

definition bound_slippage :: "cost_scenario_input \<Rightarrow> leg \<Rightarrow> cost_work \<Rightarrow> cost_exn + cost_work" where
  "bound_slippage s l w =
     (let d = leg_direction (csi_side s) l in
      case slippage_of s d of
        Known _ \<Rightarrow> Inl (CostBoundError CB_COMPONENT_OBSERVED (direction_field d @ ''_slippage''))
      | Missing r detail \<Rightarrow> Inr (add_missing SLIPPAGE (Some l) r (Some detail) w))"

definition bound_fee :: "cost_scenario_input \<Rightarrow> leg \<Rightarrow> cost_work \<times> fee_input list \<Rightarrow> cost_exn + cost_work \<times> fee_input list" where
  "bound_fee s l st =
     (case fee_of s l of
        Missing _ _ \<Rightarrow> Inl (CostBoundError CB_FEE_MISSING (leg_field l @ ''_fee''))
      | Known fee \<Rightarrow>
          if fei_bps fee < 0 then Inl (CostBoundError CB_FEE_NEGATIVE (leg_field l @ ''_fee''))
          else bindE (exact ''fee_lower_bound'' (fei_bps fee / BPS)) (\<lambda>v.
            Inr (add_line FEE (Some l) (Some (leg_direction (csi_side s) l)) v (fee_basis_value (fei_basis fee) @ '': '' @ fei_source fee) (fst st),
              snd st @ [fee])))"

definition bound_funding :: "cost_scenario_input \<Rightarrow> cost_work \<Rightarrow> cost_exn + cost_work" where
  "bound_funding s w =
     (if ci_kind (csi_instrument s) = SPOT \<or> csi_funding_intervals s = 0 then price_funding s w
      else Inl (CostBoundError CB_FUNDING_NOT_BOUNDED ''funding''))"

definition round_trip_cost_lower_bound :: "cost_scenario_input \<Rightarrow> cost_exn + cost_lower_bound" where
  "round_trip_cost_lower_bound s =
     bindE (bound_spread s no_work) (\<lambda>w0.
     bindE (foldE (bound_slippage s) [ENTRY_LEG, EXIT_LEG] w0) (\<lambda>w1.
     bindE (foldE (bound_fee s) [ENTRY_LEG, EXIT_LEG] (w1, [])) (\<lambda>(w2, fees).
     bindE (bound_funding s w2) (\<lambda>w3.
     let w = add_not_applicable FX None NO_MONEY_PROJECTION w3 in
     bindE (sum_exact ''lower_bound'' (map cln_fraction (cw_lines w))) (\<lambda>b.
     Inr \<lparr>lb_policy_version = COST_POLICY_VERSION, lb_status = COST_INCOMPLETE, lb_instrument = csi_instrument s, lb_side = csi_side s,
       lb_size = csi_size s, lb_spread_convention = csi_spread_convention s, lb_fee_lines = cw_lines w, lb_fees = fees,
       lb_missing = cw_missing w, lb_not_applicable = cw_not_applicable w, lb_fraction = b\<rparr>)))))"

definition lower_bound_bps :: "cost_lower_bound \<Rightarrow> cost_exn + rat" where
  "lower_bound_bps b = exact ''CostLowerBound.lower_bound_bps'' (lb_fraction b * BPS)"

end
