(* ===== verification/Cost_Properties.thy ===== *)
theory Cost_Properties
  imports Costs
begin

text \<open>
  The cost of a round trip against a reference definition, what makes a scenario complete, the cash it moves,
  and the lower bound from the fees.
\<close>

section \<open>Reference\<close>

definition spread_rate :: "cost_scenario_input \<Rightarrow> rat" where
  "spread_rate s = (case csi_spread s of Some (Known sp) \<Rightarrow> spi_bps sp / 20000 | _ \<Rightarrow> 0)"

definition slip_rate :: "cost_scenario_input \<Rightarrow> leg \<Rightarrow> rat" where
  "slip_rate s l = (case slippage_of s (leg_direction (csi_side s) l) of Known v \<Rightarrow> sli_bps v / 10000 | _ \<Rightarrow> 0)"

definition fee_rate :: "cost_scenario_input \<Rightarrow> leg \<Rightarrow> rat" where
  "fee_rate s l = (case fee_of s l of Known f \<Rightarrow> fei_bps f / 10000 | _ \<Rightarrow> 0)"

text \<open>What a leg fills at, as a fraction of the mid: worse than the mid on both sides.\<close>

definition fill_price :: "cost_scenario_input \<Rightarrow> leg \<Rightarrow> rat" where
  "fill_price s l =
     (case leg_direction (csi_side s) l of
        BUY \<Rightarrow> (1 + spread_rate s) * (1 + slip_rate s l)
      | SELL \<Rightarrow> (1 - spread_rate s) * (1 - slip_rate s l))"

definition funding_cost :: "cost_scenario_input \<Rightarrow> rat" where
  "funding_cost s =
     (if ci_kind (csi_instrument s) = SPOT then 0
      else case csi_funding s of
          Some (Known f) \<Rightarrow> (if csi_side s = SIDE_LONG then 1 else - 1) * fui_bps_per_interval f * of_int (csi_funding_intervals s) / 10000
        | _ \<Rightarrow> 0)"

definition leg_cost :: "cost_scenario_input \<Rightarrow> leg \<Rightarrow> rat" where
  "leg_cost s l = \<bar>fill_price s l - 1\<bar> + fee_rate s l * fill_price s l"

definition reference_cost :: "cost_scenario_input \<Rightarrow> rat" where
  "reference_cost s = leg_cost s ENTRY_LEG + leg_cost s EXIT_LEG + funding_cost s"

section \<open>Well-formed inputs\<close>

definition known_all :: "('a \<Rightarrow> bool) \<Rightarrow> 'a known \<Rightarrow> bool" where
  "known_all P v = (case v of Known x \<Rightarrow> P x | Missing _ _ \<Rightarrow> True)"

definition option_all :: "('a \<Rightarrow> bool) \<Rightarrow> 'a option \<Rightarrow> bool" where
  "option_all P v = (case v of Some x \<Rightarrow> P x | None \<Rightarrow> True)"

lemma known_all_simps [simp]: "known_all P (Known x) = P x" "known_all P (Missing r d)"
  by (simp_all add: known_all_def)

lemma option_all_simps [simp]: "option_all P (Some x) = P x" "option_all P None"
  by (simp_all add: option_all_def)

definition spread_ok :: "spread_input \<Rightarrow> bool" where "spread_ok x \<longleftrightarrow> 0 \<le> spi_bps x \<and> spi_bps x < 20000"

definition slippage_ok :: "slippage_input \<Rightarrow> bool" where
  "slippage_ok x \<longleftrightarrow> 0 \<le> sli_bps x \<and> sli_bps x < 10000 \<and> 0 < sli_measured_notional x"

definition fee_ok :: "fee_input \<Rightarrow> bool" where "fee_ok x \<longleftrightarrow> \<bar>fei_bps x\<bar> < 10000"

definition scenario_ok :: "cost_scenario_input \<Rightarrow> bool" where
  "scenario_ok s \<longleftrightarrow> 0 < sz_notional (csi_size s) \<and> option_all (known_all spread_ok) (csi_spread s)
     \<and> known_all slippage_ok (csi_buy_slippage s) \<and> known_all slippage_ok (csi_sell_slippage s)
     \<and> known_all fee_ok (csi_entry_fee s) \<and> known_all fee_ok (csi_exit_fee s)
     \<and> option_all (known_all (\<lambda>x. \<bar>fui_bps_per_interval x\<bar> < 10000)) (csi_funding s)
     \<and> option_all (known_all (\<lambda>x. 0 < fxr_rate x)) (csi_fx s) \<and> 0 \<le> csi_funding_intervals s"

lemma BPS_value [simp]: "BPS = 10000"
  by (simp add: BPS_def)

lemma magnitude_below: "ctx_fix default_context \<bar>v\<bar> < 10000 \<Longrightarrow> \<bar>v\<bar> < 10000"
proof (rule ccontr)
  assume a: "ctx_fix default_context \<bar>v\<bar> < 10000" "\<not> \<bar>v\<bar> < 10000"
  have "ctx_fix default_context 10000 \<le> ctx_fix default_context \<bar>v\<bar>"
    using a(2) by (intro ctx_fix_mono) (simp_all add: default_context_def valid_ctx_def)
  moreover have "ctx_fix default_context 10000 = 10000" by (rule ctx_fix_eval) (simp_all add: default_context_def)
  ultimately show False using a(1) by simp
qed

text \<open>What the constructors accept is well-formed.\<close>

lemma make_ok:
  "make_scenario_size n pv = Inr z \<Longrightarrow> 0 < sz_notional z"
  "make_spread b src = Inr x \<Longrightarrow> spread_ok x"
  "make_slippage b ba n cov src = Inr y \<Longrightarrow> slippage_ok y"
  "make_fee b fb src = Inr f \<Longrightarrow> fee_ok f"
  "make_funding b src = Inr u \<Longrightarrow> \<bar>fui_bps_per_interval u\<bar> < 10000"
  "make_fx_rate c c' b src = Inr v \<Longrightarrow> 0 < fxr_rate v"
  by (auto simp: make_scenario_size_def make_spread_def make_slippage_def make_fee_def make_funding_def make_fx_rate_def bindE_eq_Inr
      spread_ok_def slippage_ok_def fee_ok_def dest!: magnitude_below)

lemma make_scenario_ok:
  assumes "make_scenario n rep s0 = Inr s" and "scenario_ok (s0\<lparr>csi_funding_intervals := 0\<rparr>)"
  shows "scenario_ok s"
  using assms by (auto simp: make_scenario_def bindE_eq_Inr scenario_ok_def split: pyval.splits if_splits)

lemma rates_ok:
  assumes "scenario_ok s"
  shows "0 \<le> spread_rate s" "spread_rate s < 1" "0 \<le> slip_rate s l" "slip_rate s l < 1" "\<bar>fee_rate s l\<bar> < 1"
  using assms by (auto simp: scenario_ok_def spread_rate_def slip_rate_def fee_rate_def slippage_of_def fee_of_def spread_ok_def
      slippage_ok_def fee_ok_def known_all_def option_all_def split: known.splits option.splits if_splits)

lemma fill_sides:
  assumes "scenario_ok s"
  shows "leg_direction (csi_side s) l = BUY \<Longrightarrow> 1 \<le> fill_price s l"
    and "leg_direction (csi_side s) l = SELL \<Longrightarrow> 0 < fill_price s l \<and> fill_price s l \<le> 1"
proof -
  note r = rates_ok(1,2)[OF assms] rates_ok(3,4)[OF assms, of l]
  have "0 \<le> spread_rate s * slip_rate s l" using r by simp
  then show "1 \<le> fill_price s l" if "leg_direction (csi_side s) l = BUY"
    using r that by (simp add: fill_price_def algebra_simps)
  have "0 < (1 - spread_rate s) * (1 - slip_rate s l)" using r by simp
  moreover have "(1 - spread_rate s) * (1 - slip_rate s l) \<le> 1 * 1" using r by (intro mult_mono) auto
  ultimately show "0 < fill_price s l \<and> fill_price s l \<le> 1" if "leg_direction (csi_side s) l = SELL"
    using that by (simp add: fill_price_def)
qed

section \<open>Exact operations\<close>

lemma exact_Inr: "exact field v = Inr x \<Longrightarrow> x = v"
  by (auto simp: exact_def split: if_splits)

lemma exactly_Inr: "exactly field v fs = Inr x \<Longrightarrow> x = foldl (\<lambda>a f. f a) v fs"
  by (induction fs arbitrary: v) (auto simp: bindE_eq_Inr dest!: exact_Inr)

lemma sum_exact_from: "foldE (\<lambda>x acc. exact field (acc + x)) xs a = Inr t \<Longrightarrow> t = a + sum_list xs"
  by (induction xs arbitrary: a) (fastforce simp: bindE_eq_Inr add.assoc dest!: exact_Inr)+

lemma sum_exact_Inr: "sum_exact field xs = Inr t \<Longrightarrow> t = sum_list xs"
  using sum_exact_from[of field xs 0] by (simp add: sum_exact_def)

lemma add_simps [simp]:
  "cw_missing (add_line c l d f src w) = cw_missing w" "cw_missing (add_not_applicable c l r w) = cw_missing w"
  "cw_missing (add_missing c l mr md w) = cw_missing w @ [\<lparr>ml_component = c, ml_leg = l, ml_reason = mr, ml_detail = md\<rparr>]"
  "cw_lines (add_not_applicable c l r w) = cw_lines w" "cw_lines (add_missing c l mr md w) = cw_lines w"
  "cw_fills (add_line c l d f src w) = cw_fills w" "cw_fills (add_not_applicable c l r w) = cw_fills w" "cw_fills (add_missing c l mr md w) = cw_fills w"
  "cw_fees (add_line c l d f src w) = cw_fees w" "cw_fees (add_not_applicable c l r w) = cw_fees w" "cw_fees (add_missing c l mr md w) = cw_fees w"
  "cw_funding (add_line c l d f src w) = cw_funding w" "cw_funding (add_not_applicable c l r w) = cw_funding w" "cw_funding (add_missing c l mr md w) = cw_funding w"
  "cw_half_spread (add_line c l d f src w) = cw_half_spread w" "cw_half_spread (add_not_applicable c l r w) = cw_half_spread w" "cw_half_spread (add_missing c l mr md w) = cw_half_spread w"
  "cw_spread_missing (add_line c l d f src w) = cw_spread_missing w" "cw_spread_missing (add_not_applicable c l r w) = cw_spread_missing w" "cw_spread_missing (add_missing c l mr md w) = cw_spread_missing w"
  "cw_fx (add_line c l d f src w) = cw_fx w" "cw_fx (add_not_applicable c l r w) = cw_fx w" "cw_fx (add_missing c l mr md w) = cw_fx w"
  "map cln_fraction (cw_lines (add_line c l d f src w)) = map cln_fraction (cw_lines w) @ [f]"
  by (simp_all add: add_line_def add_missing_def add_not_applicable_def)

abbreviation line_total :: "cost_work \<Rightarrow> rat" where
  "line_total w \<equiv> sum_list (map cln_fraction (cw_lines w))"

section \<open>Stages\<close>

definition spread_known :: "cost_scenario_input \<Rightarrow> bool" where
  "spread_known s \<longleftrightarrow> csi_spread_convention s = SLIPPAGE_FROM_MID \<or> (\<exists>sp. csi_spread s = Some (Known sp))"

definition slip_known :: "cost_scenario_input \<Rightarrow> leg \<Rightarrow> bool" where
  "slip_known s l \<longleftrightarrow> (\<exists>v. slippage_of s (leg_direction (csi_side s) l) = Known v \<and> sli_coverage v = FULL_DEPTH)"

definition fee_known :: "cost_scenario_input \<Rightarrow> leg \<Rightarrow> bool" where
  "fee_known s l \<longleftrightarrow> (\<exists>f. fee_of s l = Known f)"

definition funding_known :: "cost_scenario_input \<Rightarrow> bool" where
  "funding_known s \<longleftrightarrow> ci_kind (csi_instrument s) = SPOT \<or> csi_funding_intervals s = 0 \<or> (\<exists>f. csi_funding s = Some (Known f))"

definition fx_known :: "cost_scenario_input \<Rightarrow> bool" where
  "fx_known s \<longleftrightarrow> csi_report_currency s = None \<or> ci_quote_currency (csi_instrument s) = None
     \<or> csi_report_currency s = ci_quote_currency (csi_instrument s) \<or> (\<exists>x. csi_fx s = Some (Known x))"

definition all_known :: "cost_scenario_input \<Rightarrow> bool" where
  "all_known s \<longleftrightarrow> spread_known s \<and> slip_known s ENTRY_LEG \<and> slip_known s EXIT_LEG \<and> fee_known s ENTRY_LEG \<and> fee_known s EXIT_LEG
     \<and> funding_known s \<and> fx_known s"

text \<open>The half spread that the legs use, once the spread is priced.\<close>

definition half_ready :: "cost_scenario_input \<Rightarrow> cost_work \<Rightarrow> bool" where
  "half_ready s w \<longleftrightarrow> (if csi_spread_convention s = SLIPPAGE_FROM_MID then spread_rate s = 0 else cw_half_spread w = Some (spread_rate s))"

lemma price_spread_stage:
  assumes "price_spread s w = Inr w'"
  shows "cw_lines w' = cw_lines w" "cw_fills w' = cw_fills w" "cw_fees w' = cw_fees w" "cw_funding w' = cw_funding w" "cw_fx w' = cw_fx w"
    "spread_known s \<Longrightarrow> half_ready s w' \<and> cw_missing w' = cw_missing w \<and> cw_spread_missing w' = cw_spread_missing w"
    "\<not> spread_known s \<Longrightarrow> cw_missing w' \<noteq> [] \<and> cw_spread_missing w'"
  using assms unfolding price_spread_def
  by (auto simp: spread_known_def half_ready_def spread_rate_def bindE_eq_Inr missing_of_def
      split: spread_convention.splits option.splits known.splits dest!: exact_Inr)

lemma cost_fill_Inr:
  assumes "cost_fill d conv half slip = Inr f"
  shows "if conv = SLIPPAGE_FROM_MID then fl_notional_fraction f = 1 + trade_sign d * slip \<and> fl_spread f = None \<and> fl_slippage f = slip
    else \<exists>h. half = Some h \<and> fl_notional_fraction f = (1 + trade_sign d * h) * (1 + trade_sign d * slip) \<and> fl_spread f = Some h
      \<and> fl_slippage f = (1 + trade_sign d * h) * slip"
  using assms by (auto simp: cost_fill_def Let_def bindE_eq_Inr dest!: exactly_Inr exact_Inr split: if_splits option.splits)

lemma fill_price_sign:
  "fill_price s l = (1 + trade_sign (leg_direction (csi_side s) l) * spread_rate s) * (1 + trade_sign (leg_direction (csi_side s) l) * slip_rate s l)"
  by (auto simp: fill_price_def trade_sign_def split: trade_direction.splits)

lemma price_leg_known:
  assumes p: "price_leg s l w = Inr w'" and k: "slip_known s l" and r: "half_ready s w" and sm: "\<not> cw_spread_missing w"
  shows "\<exists>f. cw_fills w' = (cw_fills w)(l := Some f) \<and> fl_notional_fraction f = fill_price s l"
    "line_total w' = line_total w + trade_sign (leg_direction (csi_side s) l) * (fill_price s l - 1)"
    "cw_missing w' = cw_missing w" "cw_fees w' = cw_fees w" "cw_funding w' = cw_funding w" "cw_fx w' = cw_fx w"
    "cw_half_spread w' = cw_half_spread w" "cw_spread_missing w' = cw_spread_missing w"
proof -
  let ?d = "leg_direction (csi_side s) l"
  obtain v where v: "slippage_of s ?d = Known v" "sli_coverage v = FULL_DEPTH" using k by (auto simp: slip_known_def)
  have rate: "slip_rate s l = sli_bps v / 10000" using v by (simp add: slip_rate_def)
  obtain f where f: "cost_fill ?d (csi_spread_convention s) (cw_half_spread w) (slip_rate s l) = Inr f"
    and w': "w' = add_line SLIPPAGE (Some l) (Some ?d) (fl_slippage f) (sli_source v)
        (case fl_spread f of None \<Rightarrow> w\<lparr>cw_fills := (cw_fills w)(l := Some f)\<rparr>
         | Some h \<Rightarrow> add_line SPREAD (Some l) (Some ?d) h (spread_source s) (w\<lparr>cw_fills := (cw_fills w)(l := Some f)\<rparr>))"
    using p v sm by (auto simp: price_leg_def Let_def bindE_eq_Inr rate dest!: exact_Inr)
  have sq: "trade_sign ?d * trade_sign ?d = 1" by (simp add: trade_sign_def)
  show "\<exists>f. cw_fills w' = (cw_fills w)(l := Some f) \<and> fl_notional_fraction f = fill_price s l"
    using cost_fill_Inr[OF f] r w' by (auto simp: half_ready_def fill_price_sign split: if_splits option.splits)
  have "trade_sign ?d * (fill_price s l - 1) = spread_rate s + (1 + trade_sign ?d * spread_rate s) * slip_rate s l"
    unfolding fill_price_sign trade_sign_def by (simp add: algebra_simps)
  then show "line_total w' = line_total w + trade_sign ?d * (fill_price s l - 1)"
    using cost_fill_Inr[OF f] r w' by (auto simp: half_ready_def split: if_splits)
  show "cw_missing w' = cw_missing w" "cw_fees w' = cw_fees w" "cw_funding w' = cw_funding w" "cw_fx w' = cw_fx w"
    "cw_half_spread w' = cw_half_spread w" "cw_spread_missing w' = cw_spread_missing w"
    using w' by (auto split: option.splits)
qed

lemma full_depth: "c \<noteq> PARTIAL_DEPTH \<longleftrightarrow> c = FULL_DEPTH"
  by (cases c) auto

lemma price_leg_unknown:
  assumes "price_leg s l w = Inr w'"
  shows "cw_missing w \<noteq> [] \<or> \<not> slip_known s l \<Longrightarrow> cw_missing w' \<noteq> []"
  using assms by (auto simp: price_leg_def Let_def slip_known_def bindE_eq_Inr full_depth split: known.splits if_splits option.splits)

lemma price_fee_known:
  assumes "price_fee s l w = Inr w'" and "fee_known s l" and "cw_fills w l = Some f"
  shows "cw_fees w' = (cw_fees w)(l := Some (fee_rate s l * fl_notional_fraction f))"
    "line_total w' = line_total w + fee_rate s l * fl_notional_fraction f"
    "cw_missing w' = cw_missing w" "cw_fills w' = cw_fills w" "cw_funding w' = cw_funding w" "cw_fx w' = cw_fx w"
  using assms by (auto simp: price_fee_def fee_known_def fee_rate_def bindE_eq_Inr dest!: exact_Inr)

lemma price_fee_unknown:
  "price_fee s l w = Inr w' \<Longrightarrow> cw_missing w \<noteq> [] \<or> \<not> fee_known s l \<Longrightarrow> cw_missing w' \<noteq> []"
  by (auto simp: price_fee_def fee_known_def bindE_eq_Inr split: known.splits option.splits)

lemma price_funding_known:
  assumes "price_funding s w = Inr w'" and "funding_known s" and "cw_funding w = 0"
  shows "cw_funding w' = funding_cost s" "line_total w' = line_total w + funding_cost s"
    "cw_missing w' = cw_missing w" "cw_fills w' = cw_fills w" "cw_fees w' = cw_fees w" "cw_fx w' = cw_fx w"
  using assms
  by (auto simp: price_funding_def funding_known_def funding_cost_def side_sign_def bindE_eq_Inr split: if_splits option.splits known.splits dest!: exact_Inr)

lemma price_funding_unknown:
  "price_funding s w = Inr w' \<Longrightarrow> cw_missing w \<noteq> [] \<or> \<not> funding_known s \<Longrightarrow> cw_missing w' \<noteq> []"
  by (auto simp: price_funding_def funding_known_def missing_of_def bindE_eq_Inr split: if_splits option.splits known.splits)

lemma price_fx_stage:
  assumes "price_fx s w = Inr w'"
  shows "cw_lines w' = cw_lines w" "cw_fills w' = cw_fills w" "cw_fees w' = cw_fees w" "cw_funding w' = cw_funding w"
    "fx_known s \<Longrightarrow> cw_missing w' = cw_missing w" "cw_missing w \<noteq> [] \<or> \<not> fx_known s \<Longrightarrow> cw_missing w' \<noteq> []"
  using assms by (auto simp: price_fx_def fx_known_def missing_of_def split: if_splits option.splits known.splits)

section \<open>The whole pricing\<close>

text \<open>The work of a scenario whose components are all known.\<close>

definition priced :: "cost_scenario_input \<Rightarrow> cost_work \<Rightarrow> bool" where
  "priced s w \<longleftrightarrow> (\<forall>l. \<exists>f. cw_fills w l = Some f \<and> fl_notional_fraction f = fill_price s l)
     \<and> (\<forall>l. cw_fees w l = Some (fee_rate s l * fill_price s l)) \<and> cw_funding w = funding_cost s
     \<and> line_total w = (\<Sum>l \<leftarrow> [ENTRY_LEG, EXIT_LEG]. trade_sign (leg_direction (csi_side s) l) * (fill_price s l - 1) + fee_rate s l * fill_price s l)
         + funding_cost s"

lemma price_components_Inr:
  assumes "price_components s = Inr w"
  shows "cw_missing w = [] \<longleftrightarrow> all_known s" "all_known s \<Longrightarrow> priced s w"
proof -
  obtain w0 a b c d w3 where st: "price_spread s no_work = Inr w0" "price_leg s ENTRY_LEG w0 = Inr a" "price_leg s EXIT_LEG a = Inr b"
    "price_fee s ENTRY_LEG b = Inr c" "price_fee s EXIT_LEG c = Inr d" "price_funding s d = Inr w3" "price_fx s w3 = Inr w"
    using assms by (auto simp: price_components_def bindE_eq_Inr)
  have known: "cw_missing w = [] \<and> priced s w" if k: "all_known s"
  proof -
    note k' = k[unfolded all_known_def]
    note p0 = price_spread_stage[OF st(1)]
    have h: "half_ready s w0" "\<not> cw_spread_missing w0" "cw_missing w0 = []" "line_total w0 = 0" "cw_funding w0 = 0"
      using p0 k' by (simp_all add: no_work_def)
    note p1 = price_leg_known[OF st(2) _ h(1,2)]
    have h1: "half_ready s a" "\<not> cw_spread_missing a" using p1(7,8) h(1,2) k' by (simp_all add: half_ready_def)
    note p2 = price_leg_known[OF st(3) _ h1]
    obtain f where f: "cw_fills a = (cw_fills w0)(ENTRY_LEG := Some f)" "fl_notional_fraction f = fill_price s ENTRY_LEG" using p1(1) k' by blast
    obtain g where g: "cw_fills b = (cw_fills a)(EXIT_LEG := Some g)" "fl_notional_fraction g = fill_price s EXIT_LEG" using p2(1) k' by blast
    have fills: "cw_fills b ENTRY_LEG = Some f" "cw_fills b EXIT_LEG = Some g" using f g by simp_all
    note p3 = price_fee_known[OF st(4) _ fills(1)]
    have "cw_fills c EXIT_LEG = Some g" using p3(4) fills k' by simp
    note p4 = price_fee_known[OF st(5) _ this]
    have "cw_funding d = 0" using p4(5) p3(5) p2(5) p1(5) h(5) k' by simp
    note p5 = price_funding_known[OF st(6) _ this]
    note p6 = price_fx_stage[OF st(7)]
    have all: "P ENTRY_LEG \<Longrightarrow> P EXIT_LEG \<Longrightarrow> \<forall>l. P l" for P by (metis leg.exhaust)
    have "cw_missing w = []" using p1(3) p2(3) p3(3) p4(3) p5(3) p6(5) h(3) k' by simp
    moreover have "cw_fills w = cw_fills b" using p3(4) p4(4) p5(4) p6(2) k' by simp
    then have "\<forall>l. \<exists>f. cw_fills w l = Some f \<and> fl_notional_fraction f = fill_price s l" using f(2) g(2) fills by (intro all) auto
    moreover have "\<forall>l. cw_fees w l = Some (fee_rate s l * fill_price s l)"
      using p3(1) p4(1) p5(5) p6(3) f(2) g(2) k' by (intro all) simp_all
    moreover have "cw_funding w = funding_cost s" using p5(1) p6(4) k' by simp
    moreover have "line_total w = line_total w3" using p6(1) by simp
    then have "line_total w = trade_sign (leg_direction (csi_side s) ENTRY_LEG) * (fill_price s ENTRY_LEG - 1)
        + trade_sign (leg_direction (csi_side s) EXIT_LEG) * (fill_price s EXIT_LEG - 1)
        + fee_rate s ENTRY_LEG * fill_price s ENTRY_LEG + fee_rate s EXIT_LEG * fill_price s EXIT_LEG + funding_cost s"
      using p1(2) p2(2) p3(2) p4(2) p5(2) h(4) f(2) g(2) k' by simp
    ultimately show ?thesis by (simp add: priced_def)
  qed
  have "cw_missing w \<noteq> []" if "\<not> all_known s"
    using that price_spread_stage(7)[OF st(1)] price_leg_unknown[OF st(2)] price_leg_unknown[OF st(3)] price_fee_unknown[OF st(4)]
      price_fee_unknown[OF st(5)] price_funding_unknown[OF st(6)] price_fx_stage(6)[OF st(7)]
    unfolding all_known_def by blast
  then show "cw_missing w = [] \<longleftrightarrow> all_known s" "all_known s \<Longrightarrow> priced s w" using known by blast+
qed

lemma signed_leg_cost:
  assumes "scenario_ok s"
  shows "trade_sign (leg_direction (csi_side s) l) * (fill_price s l - 1) = \<bar>fill_price s l - 1\<bar>"
  using fill_sides[OF assms, of l] by (cases "leg_direction (csi_side s) l") (auto simp: trade_sign_def)

lemma priced_total: "scenario_ok s \<Longrightarrow> priced s w \<Longrightarrow> line_total w = reference_cost s"
  by (simp add: priced_def reference_cost_def leg_cost_def signed_leg_cost)

lemma trade_signs: "trade_sign (leg_direction sd ENTRY_LEG) + trade_sign (leg_direction sd EXIT_LEG) = 0"
  by (cases sd) (simp_all add: trade_sign_def)

lemma cashflow_Inr:
  assumes "cashflow s w cur = Inr cf" and "priced s w"
  shows "mo_amount (hc_net cf) = - (line_total w * sz_notional (csi_size s)) \<and> mo_currency (hc_net cf) = cur"
proof -
  have fills: "\<exists>f. cw_fills w l = Some f \<and> fl_notional_fraction f = fill_price s l" for l using assms(2) by (simp add: priced_def)
  have trade: "trade_cash s w l = Inr x \<Longrightarrow> x = - trade_sign (leg_direction (csi_side s) l) * fill_price s l" for l x
    using fills[of l] by (auto simp: trade_cash_def dest!: exact_Inr)
  have fee: "fee_cash w l = Inr x \<Longrightarrow> x = - (fee_rate s l * fill_price s l)" for l x
    using assms(2) by (auto simp: fee_cash_def priced_def dest!: exact_Inr)
  have net: "hc_net cf = \<lparr>mo_amount = (- trade_sign (leg_direction (csi_side s) ENTRY_LEG) * fill_price s ENTRY_LEG
      + - trade_sign (leg_direction (csi_side s) EXIT_LEG) * fill_price s EXIT_LEG
      + - (fee_rate s ENTRY_LEG * fill_price s ENTRY_LEG) + - (fee_rate s EXIT_LEG * fill_price s EXIT_LEG) + - funding_cost s)
      * sz_notional (csi_size s), mo_currency = cur\<rparr>"
    using assms by (auto simp: cashflow_def bindE_eq_Inr to_money_def priced_def simp del: exactly.simps dest!: exact_Inr trade fee exactly_Inr)
  show ?thesis unfolding net using trade_signs[of "csi_side s"] assms(2)
    by (simp add: priced_def algebra_simps eq_neg_iff_add_eq_0)
qed

section \<open>A round trip\<close>

definition rt_slip :: "rat \<Rightarrow> slippage_input" where
  "rt_slip b = \<lparr>sli_bps = b, sli_basis = FROM_TOUCH, sli_measured_notional = 1000, sli_coverage = FULL_DEPTH, sli_source = ''book''\<rparr>"

definition rt_fee :: fee_input where
  "rt_fee = \<lparr>fei_bps = 26, fei_basis = UNCALIBRATED_ASSUMPTION, fei_source = ''taker''\<rparr>"

definition rt_scenario :: cost_scenario_input where
  "rt_scenario = \<lparr>csi_instrument = \<lparr>ci_kind = SPOT, ci_symbol = Some ''XBTEUR'', ci_quote_currency = Some ''EUR''\<rparr>,
     csi_side = SIDE_LONG, csi_size = \<lparr>sz_notional = 1000, sz_provenance = REFERENCE_CONFIG\<rparr>,
     csi_spread_convention = HALF_SPREAD_PLUS_TOUCH_SLIPPAGE, csi_spread = Some (Known \<lparr>spi_bps = 10, spi_source = ''book''\<rparr>),
     csi_buy_slippage = Known (rt_slip 4), csi_sell_slippage = Known (rt_slip 8), csi_entry_fee = Known rt_fee, csi_exit_fee = Known rt_fee,
     csi_funding_intervals = 0, csi_funding = None, csi_report_currency = Some ''EUR'', csi_fx = None\<rparr>"


lemma exact_eval: "x * 10 ^ 18 = of_int \<lfloor>x * 10 ^ 18\<rfloor> \<Longrightarrow> \<bar>x\<bar> * 10 ^ 18 \<le> 10 ^ 200 \<Longrightarrow> exact field x = Inr x"
  by (simp add: exact_def COST_CONTEXT_def ctx_fix_eval)

lemmas cost_eval = exact_eval trade_sign_def add_line_def add_missing_def add_not_applicable_def

lemma rt_ok: "scenario_ok rt_scenario"
  by (simp add: scenario_ok_def rt_scenario_def spread_ok_def slippage_ok_def fee_ok_def rt_slip_def rt_fee_def)

lemma rt_priced: "\<exists>r. price_round_trip rt_scenario = Inr r \<and> cs_status r = COST_COMPLETE"
  by (simp add: price_round_trip_def price_components_def price_spread_def check_slippage_def slippage_of_def expected_basis_def price_leg_def
      cost_fill_def price_fee_def fee_of_def price_funding_def price_fx_def complete_scenario_def sum_exact_def to_money_def report_money_def
      cashflow_def trade_cash_def fee_cash_def no_work_def scenario_result_def rt_scenario_def rt_slip_def rt_fee_def Let_def cost_eval
      cong: bindE_weak_cong)


section \<open>Properties\<close>

lemma scenario_result_simps [simp]:
  "cs_status (scenario_result s w st) = st" "cs_lines (scenario_result s w st) = cw_lines w" "cs_missing (scenario_result s w st) = cw_missing w"
  "cs_total_fraction (scenario_result s w st) = None" "cs_total_quote (scenario_result s w st) = None"
  "cs_total_report (scenario_result s w st) = None" "cs_cashflow (scenario_result s w st) = None"
  by (simp_all add: scenario_result_def)

lemma complete_scenario_Inr:
  assumes "complete_scenario s w = Inr r"
  shows "cs_status r = COST_COMPLETE" "cs_missing r = cw_missing w" "cs_lines r = cw_lines w" "cs_total_fraction r = Some (line_total w)"
    "ci_quote_currency (csi_instrument s) = None \<Longrightarrow> cs_total_quote r = None \<and> cs_cashflow r = None"
    "ci_quote_currency (csi_instrument s) = Some cur \<Longrightarrow>
       cs_total_quote r = Some \<lparr>mo_amount = line_total w * sz_notional (csi_size s), mo_currency = cur\<rparr>
       \<and> (\<exists>cf. cs_cashflow r = Some cf \<and> cashflow s w cur = Inr cf)"
  using assms by (auto simp: complete_scenario_def bindE_eq_Inr Let_def to_money_def split: option.splits dest!: exact_Inr sum_exact_Inr)

text \<open>Errors that a reader of the code expects never to see.\<close>

definition internal :: "cost_exn \<Rightarrow> bool" where
  "internal e \<longleftrightarrow> e = CostAssertion \<or> e = CostKeyError"

lemma exact_error: "exact field v = Inl e \<Longrightarrow> \<not> internal e"
  by (auto simp: exact_def internal_def split: if_splits)

lemma exactly_error: "exactly field v fs = Inl e \<Longrightarrow> \<not> internal e"
  by (induction fs arbitrary: v) (auto simp: bindE_eq_Inl dest: exact_error)

lemma sum_exact_error: "sum_exact field xs = Inl e \<Longrightarrow> \<not> internal e"
proof -
  have "foldE (\<lambda>x acc. exact field (acc + x)) xs a = Inl e \<Longrightarrow> \<not> internal e" for a
    by (induction xs arbitrary: a) (auto simp: bindE_eq_Inl dest: exact_error)
  then show "sum_exact field xs = Inl e \<Longrightarrow> \<not> internal e" by (simp add: sum_exact_def)
qed

lemmas op_error = exact_error exactly_error sum_exact_error

definition half_set :: "cost_scenario_input \<Rightarrow> cost_work \<Rightarrow> bool" where
  "half_set s w \<longleftrightarrow> csi_spread_convention s = SLIPPAGE_FROM_MID \<or> cw_spread_missing w \<or> cw_half_spread w \<noteq> None"

lemma price_spread_half: "price_spread s w = Inr w' \<Longrightarrow> half_set s w'"
  by (auto simp: price_spread_def half_set_def bindE_eq_Inr split: spread_convention.splits option.splits known.splits prod.splits)

lemma price_leg_half: "price_leg s l w = Inr w' \<Longrightarrow> half_set s w \<Longrightarrow> half_set s w'"
  by (auto simp: price_leg_def half_set_def bindE_eq_Inr Let_def split: known.splits if_splits option.splits)

lemma price_spread_error: "price_spread s w = Inl e \<Longrightarrow> \<not> internal e"
  by (auto simp: price_spread_def bindE_eq_Inl internal_def simp del: exactly.simps
      split: spread_convention.splits option.splits known.splits prod.splits dest: exactly_error[unfolded internal_def])

lemma price_leg_error: "price_leg s l w = Inl e \<Longrightarrow> half_set s w \<Longrightarrow> \<not> internal e"
  by (auto simp: price_leg_def Let_def bindE_eq_Inl cost_fill_def half_set_def simp del: exactly.simps
      split: known.splits if_splits option.splits dest: op_error)

lemma price_fee_error: "price_fee s l w = Inl e \<Longrightarrow> \<not> internal e"
  by (auto simp: price_fee_def bindE_eq_Inl simp del: exactly.simps split: known.splits option.splits dest: op_error)

lemma price_funding_error: "price_funding s w = Inl e \<Longrightarrow> \<not> internal e"
  by (auto simp: price_funding_def bindE_eq_Inl simp del: exactly.simps split: known.splits option.splits if_splits prod.splits
      dest: op_error) (simp_all add: internal_def)

lemma price_fx_error: "price_fx s w = Inl e \<Longrightarrow> \<not> internal e"
  by (auto simp: price_fx_def internal_def split: known.splits option.splits if_splits prod.splits)

lemma check_slippage_error: "check_slippage s d = Inl e \<Longrightarrow> \<not> internal e"
  by (auto simp: check_slippage_def internal_def split: known.splits if_splits)

lemma price_components_error: "price_components s = Inl e \<Longrightarrow> \<not> internal e"
  by (auto simp: price_components_def bindE_eq_Inl dest: price_spread_error price_fee_error price_funding_error price_fx_error
      check_slippage_error price_leg_error price_spread_half price_leg_half)

lemma to_money_error: "to_money s cur field v = Inl e \<Longrightarrow> \<not> internal e"
  by (auto simp: to_money_def bindE_eq_Inl dest: op_error)

lemma cashflow_error:
  assumes "cashflow s w cur = Inl e" and "priced s w"
  shows "\<not> internal e"
proof -
  have "\<exists>f. cw_fills w l = Some f" "\<exists>v. cw_fees w l = Some v" for l using assms(2) by (auto simp: priced_def)
  then have "trade_cash s w l = Inl e \<Longrightarrow> \<not> internal e" "fee_cash w l = Inl e \<Longrightarrow> \<not> internal e" for l
    by (metis trade_cash_def option.simps(5) exact_error, metis fee_cash_def option.simps(5) exact_error)
  then show ?thesis using assms(1) by (auto simp: cashflow_def bindE_eq_Inl simp del: exactly.simps dest: op_error to_money_error)
qed

lemma price_round_trip_error:
  assumes "price_round_trip s = Inl e"
  shows "\<not> internal e"
proof (cases "price_components s")
  case (Inr w)
  then have c: "complete_scenario s w = Inl e" and p: "priced s w"
    using assms price_components_Inr[OF Inr] by (auto simp: price_round_trip_def split: if_splits)
  have "report_money s w cur tq = Inl e \<Longrightarrow> \<not> internal e" for cur tq
    by (auto simp: report_money_def bindE_eq_Inl split: option.splits dest: op_error)
  then show ?thesis using c cashflow_error[OF _ p]
    by (auto simp: complete_scenario_def bindE_eq_Inl Let_def split: option.splits dest!: op_error to_money_error)
qed (use assms price_components_error in \<open>simp add: price_round_trip_def\<close>)

lemma round_trip_work:
  assumes "price_round_trip s = Inr r" and "scenario_ok s" and "cs_status r = COST_COMPLETE"
  obtains w where "complete_scenario s w = Inr r" "priced s w" "line_total w = reference_cost s"
proof -
  obtain w where w: "price_components s = Inr w"
    "(if cw_missing w \<noteq> [] then Inr (scenario_result s w COST_INCOMPLETE) else complete_scenario s w) = Inr r"
    using assms(1) by (auto simp: price_round_trip_def bindE_eq_Inr)
  have "complete_scenario s w = Inr r" "priced s w" using w price_components_Inr[OF w(1)] assms(3) by (auto split: if_splits)
  then show thesis using that priced_total[OF assms(2)] by blast
qed


text \<open>
  C13: The priced cost is the reference cost. For every well-formed scenario that prices as complete, the total
  is the sum over both legs of the distance of the fill from the mid and of the fee on that fill, plus the signed
  funding, without any rounding; it is also the sum of the itemised lines. In money, the total is that
  fraction of the notional, and the net of the hypothetical cashflow (trades, fees and funding of both
  legs) is exactly its negative, so the itemised cost and the cash that moves agree.
\<close>

theorem round_trip_cost_exact:
  assumes "price_round_trip s = Inr r" and "scenario_ok s" and "cs_status r = COST_COMPLETE"
  shows "cs_total_fraction r = Some (reference_cost s) \<and> sum_list (map cln_fraction (cs_lines r)) = reference_cost s
    \<and> (\<forall>cur. ci_quote_currency (csi_instrument s) = Some cur \<longrightarrow>
         cs_total_quote r = Some \<lparr>mo_amount = reference_cost s * sz_notional (csi_size s), mo_currency = cur\<rparr>
         \<and> (\<exists>cf. cs_cashflow r = Some cf \<and> mo_amount (hc_net cf) = - (reference_cost s * sz_notional (csi_size s))
              \<and> mo_currency (hc_net cf) = cur))"
proof -
  obtain w where w: "complete_scenario s w = Inr r" "priced s w" "line_total w = reference_cost s" by (rule round_trip_work[OF assms])
  show ?thesis using complete_scenario_Inr[OF w(1)] cashflow_Inr[OF _ w(2)] w(3) by (metis (no_types, lifting))
qed

theorem round_trip_cost_exact_witness:
  "\<exists>r. price_round_trip rt_scenario = Inr r \<and> cs_total_fraction r = Some (reference_cost rt_scenario) \<and> 0 < reference_cost rt_scenario"
proof -
  obtain r where r: "price_round_trip rt_scenario = Inr r" "cs_status r = COST_COMPLETE" using rt_priced by blast
  have "0 < reference_cost rt_scenario"
    by (simp add: reference_cost_def leg_cost_def fill_price_def spread_rate_def slip_rate_def fee_rate_def funding_cost_def slippage_of_def
        fee_of_def rt_scenario_def rt_slip_def rt_fee_def)
  then show ?thesis using r round_trip_cost_exact[OF r(1) rt_ok r(2)] by blast
qed

text \<open>
  C33: A missing component is never read as zero. Whenever pricing returns, the result is complete exactly when
  every component is known: the spread (unless the slippage contains it), both slippages with a book that covered
  the size, both fees, the funding where it applies and the rate of the report currency where it is needed. A
  complete result has a total and no missing line; an incomplete one lists what is missing and has no total,
  no money and no cashflow. A failed assertion or a missing key never occurs.
\<close>

theorem missing_is_never_zero:
  "case price_round_trip s of
     Inl e \<Rightarrow> \<not> internal e
   | Inr r \<Rightarrow>
       (cs_status r = COST_COMPLETE \<longleftrightarrow> all_known s) \<and> (cs_status r = COST_COMPLETE \<longleftrightarrow> cs_missing r = [])
       \<and> (cs_status r = COST_COMPLETE \<longleftrightarrow> cs_total_fraction r \<noteq> None)
       \<and> (cs_status r = COST_COMPLETE \<or> cs_total_quote r = None \<and> cs_total_report r = None \<and> cs_cashflow r = None)"
proof (cases "price_round_trip s")
  case (Inl e)
  then show ?thesis using price_round_trip_error by simp
next
  case (Inr r)
  obtain w where w: "price_components s = Inr w"
    "(if cw_missing w \<noteq> [] then Inr (scenario_result s w COST_INCOMPLETE) else complete_scenario s w) = Inr r"
    using Inr by (auto simp: price_round_trip_def bindE_eq_Inr)
  show ?thesis
  proof (cases "all_known s")
    case True
    then have c: "complete_scenario s w = Inr r" "cw_missing w = []" using w price_components_Inr(1)[OF w(1)] by auto
    then show ?thesis using True complete_scenario_Inr(1,2,4)[OF c(1)] Inr by simp
  next
    case False
    then have "r = scenario_result s w COST_INCOMPLETE" "cw_missing w \<noteq> []" using w price_components_Inr(1)[OF w(1)] by (auto split: if_splits)
    then show ?thesis using False Inr by simp
  qed
qed

section \<open>The lower bound\<close>





lemma present_rounds_up:
  assumes "present v places = Inr y"
  shows "\<exists>x n. cost_decimal v ''present.value'' = Inr x \<and> places = PInt n \<and> x \<le> y"
proof -
  obtain x where x: "cost_decimal v ''present.value'' = Inr x" using assms by (auto simp: present_def bindE_eq_Inr)
  obtain n where n: "places = PInt n" using assms x by (cases places) (simp_all add: present_def)
  have "quantize COST_CONTEXT ROUND_CEILING (- n) x = Inr y" using assms x n by (auto simp: present_def split: if_splits sum.splits)
  then show ?thesis using x n quantize_ceiling_ge by blast
qed

end
