(* ===== verification/Outcomes.thy ===== *)
theory Outcomes
  imports Costs Outbox "HOL-Library.Char_ord" "HOL-Library.List_Lexorder" "HOL-Library.Product_Lexorder"
begin

text \<open>
  Outcome labels of \<^verbatim>\<open>radar_v08/domain/outcomes.py\<close>: the subject of a decision, the label of a horizon over the quotes that
  were observed, in the forward and the symmetric window, and the labels a later decision may see.

  Times are instants and durations are differences of instants. SHA-256 is an argument. Values of the 50-digit context
  are rounded as the code rounds them; the limits of the exponent are not modelled.
\<close>

section \<open>Vocabulary\<close>

datatype outcome_error_code = OE_INVALID_FIELD | OE_NAIVE_TIMESTAMP | OE_NOT_DECIMAL | OE_OUT_OF_RANGE | OE_INCONSISTENT

datatype outcome_exn = OutcomeInputError outcome_error_code string

definition OUTCOME_POLICY_VERSION :: string where "OUTCOME_POLICY_VERSION = ''OUTCOME-1''"

definition SUBJECT_ID_PREFIX :: string where "SUBJECT_ID_PREFIX = ''outcome:sha256:''"

definition OUTCOME_TEXT_LENGTH :: nat where "OUTCOME_TEXT_LENGTH = 200"

definition OUTCOME_CONTEXT :: ctx where "OUTCOME_CONTEXT = Ctx 50 ROUND_HALF_EVEN"

datatype outcome_horizon = M15 | H1 | H4 | H24

fun horizon_minutes :: "outcome_horizon \<Rightarrow> int" where
  "horizon_minutes M15 = 15"
| "horizon_minutes H1 = 60"
| "horizon_minutes H4 = 240"
| "horizon_minutes H24 = 1440"

definition horizon_duration :: "outcome_horizon \<Rightarrow> int" where
  "horizon_duration h = seconds (horizon_minutes h * 60)"

definition HORIZONS :: "outcome_horizon list" where "HORIZONS = [M15, H1, H4, H24]"

datatype availability = AVAILABLE | UNAVAILABLE

datatype label_window = FORWARD | SYMMETRIC

datatype outcome_missing =
    QUOTE_MISSING_AT_HORIZON | QUOTE_INVALID_AT_HORIZON | PRICE_SOURCE_UNSUPPORTED | OUTCOME_NO_DIRECTION | GROSS_UNAVAILABLE
  | COST_NOT_RECORDED | NET_COST_INCOMPLETE

definition MARKET_REASONS :: "outcome_missing list" where
  "MARKET_REASONS = [QUOTE_MISSING_AT_HORIZON, QUOTE_INVALID_AT_HORIZON, PRICE_SOURCE_UNSUPPORTED]"

definition GROSS_REASONS :: "outcome_missing list" where
  "GROSS_REASONS = MARKET_REASONS @ [OUTCOME_NO_DIRECTION]"

definition NET_REASONS :: "outcome_missing list" where
  "NET_REASONS = [GROSS_UNAVAILABLE, COST_NOT_RECORDED, NET_COST_INCOMPLETE]"

datatype link_missing = NOT_RECORDED | LEGACY_UNVERSIONED

datatype decision_kind = INVOCATION_REF | DECISION_REF

fun side_of :: "inv_direction \<Rightarrow> cost_side option" where
  "side_of DIR_LONG = Some SIDE_LONG"
| "side_of DIR_SHORT = Some SIDE_SHORT"
| "side_of DIR_NONE = None"

section \<open>Validators\<close>

fun outcome_text :: "pyval \<Rightarrow> string \<Rightarrow> outcome_exn + string" where
  "outcome_text (PStr s) field =
     (if s = [] \<or> s \<noteq> strip s \<or> OUTCOME_TEXT_LENGTH < length s then Inl (OutcomeInputError OE_INVALID_FIELD field)
      else if list_ex is_control s then Inl (OutcomeInputError OE_INVALID_FIELD field)
      else Inr s)"
| "outcome_text _ field = Inl (OutcomeInputError OE_INVALID_FIELD field)"

fun outcome_aware :: "moment \<Rightarrow> string \<Rightarrow> outcome_exn + int" where
  "outcome_aware (Aware t) field = Inr t"
| "outcome_aware Naive field = Inl (OutcomeInputError OE_NAIVE_TIMESTAMP field)"

fun outcome_decimal :: "pyval \<Rightarrow> string \<Rightarrow> bool \<Rightarrow> outcome_exn + rat" where
  "outcome_decimal (PDec (Lit c e)) field positive =
     (if positive \<and> dec_value c e \<le> 0 then Inl (OutcomeInputError OE_OUT_OF_RANGE field) else Inr (dec_value c e))"
| "outcome_decimal (PDec _) field positive = Inl (OutcomeInputError OE_OUT_OF_RANGE field)"
| "outcome_decimal _ field positive = Inl (OutcomeInputError OE_NOT_DECIMAL field)"

abbreviation oadd :: "rat \<Rightarrow> rat \<Rightarrow> rat" where "oadd \<equiv> ctx_add OUTCOME_CONTEXT"
abbreviation osub :: "rat \<Rightarrow> rat \<Rightarrow> rat" where "osub \<equiv> ctx_sub OUTCOME_CONTEXT"

definition odiv :: "string \<Rightarrow> rat \<Rightarrow> rat \<Rightarrow> outcome_exn + rat" where
  "odiv field x y = (case ctx_div OUTCOME_CONTEXT x y of Inl _ \<Rightarrow> Inl (OutcomeInputError OE_OUT_OF_RANGE field) | Inr z \<Rightarrow> Inr z)"

section \<open>Subjects\<close>

record decision_ref =
  dr_kind :: decision_kind
  dr_ref_id :: string

definition make_decision_ref :: "decision_kind \<Rightarrow> pyval \<Rightarrow> outcome_exn + decision_ref" where
  "make_decision_ref kind ref = bindE (outcome_text ref ''DecisionRef.ref_id'') (\<lambda>r. Inr \<lparr>dr_kind = kind, dr_ref_id = r\<rparr>)"

record recorded_cost =
  rc_policy_version :: string
  rc_side :: cost_side
  rc_kind :: instrument_kind
  rc_status :: cost_status
  rc_total_fraction :: "rat option"

text \<open>A total of \<open>None\<close> is not a decimal; a complete cost needs one and an incomplete cost must not have one.\<close>

definition make_recorded_cost ::
  "string \<Rightarrow> cost_side \<Rightarrow> instrument_kind \<Rightarrow> cost_status \<Rightarrow> rat option \<Rightarrow> outcome_exn + recorded_cost" where
  "make_recorded_cost policy side kind status tot =
     bindE (outcome_text (PStr policy) ''RecordedCost.policy_version'') (\<lambda>p.
     if status = COST_COMPLETE \<and> tot = None then Inl (OutcomeInputError OE_NOT_DECIMAL ''RecordedCost.total_fraction'')
     else if status \<noteq> COST_COMPLETE \<and> tot \<noteq> None then Inl (OutcomeInputError OE_INCONSISTENT ''RecordedCost.total_fraction'')
     else Inr \<lparr>rc_policy_version = p, rc_side = side, rc_kind = kind, rc_status = status, rc_total_fraction = tot\<rparr>)"

definition from_scenario :: "cost_scenario \<Rightarrow> outcome_exn + recorded_cost" where
  "from_scenario r =
     make_recorded_cost (cs_policy_version r) (cs_side r) (ci_kind (cs_instrument r)) (cs_status r)
       (if cs_status r = COST_COMPLETE then cs_total_fraction r else None)"

record horizon_cost =
  hz_horizon :: outcome_horizon
  hz_cost :: recorded_cost

definition same_cost_for_every_horizon :: "cost_scenario \<Rightarrow> outcome_exn + horizon_cost list" where
  "same_cost_for_every_horizon r = bindE (from_scenario r) (\<lambda>c. Inr (map (\<lambda>h. \<lparr>hz_horizon = h, hz_cost = c\<rparr>) HORIZONS))"

record instrument_id =
  ii_venue :: string
  ii_symbol :: string
  ii_kind :: instrument_kind
  ii_base :: string
  ii_quote :: string
  ii_size_unit :: string

text \<open>A link is a value or the reason why it is missing.\<close>

datatype 'a link = Linked 'a | NoLink link_missing

record outcome_subject =
  os_instrument :: instrument_id
  os_pair :: string
  os_direction :: inv_direction
  os_decision_as_of :: int
  os_entry_mid :: rat
  os_entry_observed_at :: int
  os_evidence :: "string link"
  os_decision :: "decision_ref link"
  os_arm :: "string link"
  os_costs :: "horizon_cost list"

record subject_args =
  sa_instrument :: instrument_id
  sa_pair :: pyval
  sa_direction :: inv_direction
  sa_decision_as_of :: moment
  sa_entry_mid :: pyval
  sa_entry_observed_at :: moment
  sa_evidence :: "pyval link"
  sa_decision :: "decision_ref link"
  sa_arm :: "pyval link"
  sa_costs :: "horizon_cost list"

definition check_cost :: "instrument_id \<Rightarrow> inv_direction \<Rightarrow> horizon_cost \<Rightarrow> outcome_horizon list \<Rightarrow> outcome_exn + outcome_horizon list" where
  "check_cost inst dir c seen =
     (if hz_horizon c \<in> set seen then Inl (OutcomeInputError OE_INCONSISTENT ''costs'')
      else case side_of dir of
        None \<Rightarrow> Inl (OutcomeInputError OE_INCONSISTENT ''costs'')
      | Some sd \<Rightarrow>
          if rc_side (hz_cost c) \<noteq> sd \<or> rc_kind (hz_cost c) \<noteq> ii_kind inst then Inl (OutcomeInputError OE_INCONSISTENT ''costs'')
          else Inr (hz_horizon c # seen))"

definition check_instrument :: "instrument_id \<Rightarrow> outcome_exn + unit" where
  "check_instrument i =
     bindE (mapE (\<lambda>(v, f). outcome_text (PStr v) f)
       [(ii_venue i, ''instrument.venue''), (ii_symbol i, ''instrument.symbol''), (ii_base i, ''instrument.base''),
        (ii_quote i, ''instrument.quote''), (ii_size_unit i, ''instrument.size_unit'')]) (\<lambda>_. Inr ())"

definition make_subject :: "subject_args \<Rightarrow> outcome_exn + outcome_subject" where
  "make_subject a =
     bindE (check_instrument (sa_instrument a)) (\<lambda>_.
     bindE (outcome_text (sa_pair a) ''pair'') (\<lambda>pair.
     bindE (outcome_aware (sa_decision_as_of a) ''decision_as_of'') (\<lambda>tm.
     bindE (outcome_aware (sa_entry_observed_at a) ''entry_observed_at'') (\<lambda>seen.
     bindE (guardE (seen \<le> tm) (OutcomeInputError OE_INCONSISTENT ''entry_observed_at'')) (\<lambda>_.
     bindE (outcome_decimal (sa_entry_mid a) ''entry_mid'' True) (\<lambda>mid.
     bindE (case sa_evidence a of NoLink r \<Rightarrow> Inr (NoLink r) | Linked v \<Rightarrow> bindE (outcome_text v ''evidence'') (\<lambda>e. Inr (Linked e))) (\<lambda>ev.
     bindE (guardE (sa_decision a \<noteq> NoLink LEGACY_UNVERSIONED) (OutcomeInputError OE_INVALID_FIELD ''decision'')) (\<lambda>_.
     bindE (case sa_arm a of
         NoLink r \<Rightarrow> if r = NOT_RECORDED then Inr (NoLink r) else Inl (OutcomeInputError OE_INVALID_FIELD ''arm'')
       | Linked v \<Rightarrow> bindE (outcome_text v ''arm'') (\<lambda>x. Inr (Linked x))) (\<lambda>arm.
     bindE (foldE (check_cost (sa_instrument a) (sa_direction a)) (sa_costs a) []) (\<lambda>_.
     Inr \<lparr>os_instrument = sa_instrument a, os_pair = pair, os_direction = sa_direction a, os_decision_as_of = tm, os_entry_mid = mid,
       os_entry_observed_at = seen, os_evidence = ev, os_decision = sa_decision a, os_arm = arm, os_costs = sa_costs a\<rparr>))))))))))"

definition cost_for :: "outcome_subject \<Rightarrow> outcome_horizon \<Rightarrow> recorded_cost option" where
  "cost_for s h = map_option hz_cost (List.find (\<lambda>c. hz_horizon c = h) (os_costs s))"

definition target_at :: "outcome_subject \<Rightarrow> outcome_horizon \<Rightarrow> int" where
  "target_at s h = os_decision_as_of s + horizon_duration h"

text \<open>The identity as JSON text: keys in order, no spaces, escaped to ASCII; times with six digits of microseconds.\<close>

definition utc_micros :: "int \<Rightarrow> string" where
  "utc_micros t =
     (let (y, m, d) = civil_date (t div 86400000000);
          u = t mod 86400000000;
          s = u div 1000000
      in pad 4 y @ ''-'' @ pad 2 m @ ''-'' @ pad 2 d @ ''T'' @ pad 2 (s div 3600) @ '':'' @ pad 2 (s div 60 mod 60) @ '':''
         @ pad 2 (s mod 60) @ ''.'' @ pad 6 (u mod 1000000) @ ''+00:00'')"

fun link_missing_value :: "link_missing \<Rightarrow> string" where
  "link_missing_value NOT_RECORDED = ''not_recorded''"
| "link_missing_value LEGACY_UNVERSIONED = ''legacy_unversioned''"

fun decision_kind_value :: "decision_kind \<Rightarrow> string" where
  "decision_kind_value INVOCATION_REF = ''invocation''"
| "decision_kind_value DECISION_REF = ''decision''"

definition link_json :: "('a \<Rightarrow> string) \<Rightarrow> 'a link \<Rightarrow> string" where
  "link_json f v =
     (case v of
        Linked x \<Rightarrow> f x
      | NoLink r \<Rightarrow> dumps_object True '','' '':'' [(''missing'', JStr (link_missing_value r))])"

definition decision_json :: "decision_ref \<Rightarrow> string" where
  "decision_json d = dumps_object True '','' '':'' [(''id'', JStr (dr_ref_id d)), (''kind'', JStr (decision_kind_value (dr_kind d)))]"

definition raw_member :: "string \<times> string \<Rightarrow> string" where
  "raw_member m = json_string True (fst m) @ '':'' @ snd m"

fun raw_members :: "(string \<times> string) list \<Rightarrow> string" where
  "raw_members [] = []"
| "raw_members [m] = raw_member m"
| "raw_members (m # ms) = raw_member m @ '','' @ raw_members ms"

definition identity_text :: "outcome_subject \<Rightarrow> string" where
  "identity_text s =
     (let i = os_instrument s; str = json_string True in
      ''{'' @ raw_members
        [(''arm'', link_json str (os_arm s)), (''base'', str (ii_base i)), (''decision'', link_json decision_json (os_decision s)),
         (''decision_as_of'', str (utc_micros (os_decision_as_of s))), (''direction'', str (inv_direction_value (os_direction s))),
         (''evidence'', link_json str (os_evidence s)), (''kind'', str (instrument_kind_value (ii_kind i))), (''pair'', str (os_pair s)),
         (''policy'', str OUTCOME_POLICY_VERSION), (''quote'', str (ii_quote i)), (''size_unit'', str (ii_size_unit i)),
         (''symbol'', str (ii_symbol i)), (''venue'', str (ii_venue i))] @ ''}'')"

definition subject_id :: "(string \<Rightarrow> string) \<Rightarrow> outcome_subject \<Rightarrow> string" where
  "subject_id sha s = SUBJECT_ID_PREFIX @ sha (identity_text s)"

section \<open>Quotes\<close>

record quote_observation =
  qo_observed_at :: int
  qo_bid :: "rat option"
  qo_ask :: "rat option"
  qo_source :: string

definition optional_price :: "pyval \<Rightarrow> string \<Rightarrow> outcome_exn + rat option" where
  "optional_price v field = (if v = PNone then Inr None else bindE (outcome_decimal v field False) (\<lambda>x. Inr (Some x)))"

definition make_quote_observation :: "moment \<Rightarrow> pyval \<Rightarrow> pyval \<Rightarrow> pyval \<Rightarrow> outcome_exn + quote_observation" where
  "make_quote_observation tm b a source =
     bindE (outcome_aware tm ''QuoteObservation.observed_at'') (\<lambda>t.
     bindE (optional_price b ''QuoteObservation.bid'') (\<lambda>bv.
     bindE (optional_price a ''QuoteObservation.ask'') (\<lambda>av.
     bindE (outcome_text source ''QuoteObservation.source'') (\<lambda>src.
     Inr \<lparr>qo_observed_at = t, qo_bid = bv, qo_ask = av, qo_source = src\<rparr>))))"

definition quote_mid :: "quote_observation \<Rightarrow> outcome_exn + rat option" where
  "quote_mid q =
     (case (qo_bid q, qo_ask q) of
        (Some b, Some a) \<Rightarrow>
          if b \<le> 0 \<or> a \<le> 0 \<or> a < b then Inr None
          else bindE (odiv ''mid'' (oadd b a) 2) (\<lambda>m. Inr (Some m))
      | _ \<Rightarrow> Inr None)"

definition quote_order :: "quote_observation \<Rightarrow> int \<times> string" where
  "quote_order q = (qo_observed_at q, qo_source q)"

section \<open>Labels\<close>

record outcome_label =
  ol_subject_id :: string
  ol_horizon :: outcome_horizon
  ol_status :: availability
  ol_target_at :: int
  ol_label_available_at :: int
  ol_exit_mid :: "rat option"
  ol_exit_observed_at :: "int option"
  ol_exit_source :: "string option"
  ol_market_return :: "rat option"
  ol_market_missing :: "outcome_missing option"
  ol_gross_markout :: "rat option"
  ol_gross_missing :: "outcome_missing option"
  ol_net_markout :: "rat option"
  ol_net_missing :: "outcome_missing option"
  ol_cost_policy_version :: "string option"

definition pair_ok :: "rat option \<Rightarrow> outcome_missing option \<Rightarrow> outcome_missing list \<Rightarrow> string \<Rightarrow> outcome_exn + unit" where
  "pair_ok v reason allowed field =
     (if (v = None) = (reason = None) then Inl (OutcomeInputError OE_INCONSISTENT field)
      else case reason of
        Some r \<Rightarrow> if r \<in> set allowed then Inr () else Inl (OutcomeInputError OE_INCONSISTENT field)
      | None \<Rightarrow> Inr ())"

definition check_exit :: "outcome_label \<Rightarrow> outcome_exn + unit" where
  "check_exit l =
     (case ol_status l of
        AVAILABLE \<Rightarrow>
          (case (ol_exit_mid l, ol_exit_observed_at l, ol_exit_source l, ol_market_return l) of
             (Some m, Some t, Some src, Some _) \<Rightarrow>
               if m \<le> 0 then Inl (OutcomeInputError OE_OUT_OF_RANGE ''exit_mid'')
               else if ol_label_available_at l \<noteq> ol_target_at l + \<bar>t - ol_target_at l\<bar>
               then Inl (OutcomeInputError OE_INCONSISTENT ''label_available_at'')
               else bindE (outcome_text (PStr src) ''exit_source'') (\<lambda>_. Inr ())
           | _ \<Rightarrow> Inl (OutcomeInputError OE_INCONSISTENT ''exit''))
      | UNAVAILABLE \<Rightarrow>
          if ol_exit_mid l \<noteq> None \<or> ol_exit_observed_at l \<noteq> None \<or> ol_exit_source l \<noteq> None \<or> ol_market_return l \<noteq> None
          then Inl (OutcomeInputError OE_INCONSISTENT ''exit'') else Inr ())"

definition make_label :: "outcome_label \<Rightarrow> outcome_exn + outcome_label" where
  "make_label l =
     bindE (outcome_text (PStr (ol_subject_id l)) ''subject_id'') (\<lambda>i.
     bindE (guardE (take (length SUBJECT_ID_PREFIX) i = SUBJECT_ID_PREFIX) (OutcomeInputError OE_INVALID_FIELD ''subject_id'')) (\<lambda>_.
     bindE (guardE (ol_target_at l \<le> ol_label_available_at l) (OutcomeInputError OE_INCONSISTENT ''label_available_at'')) (\<lambda>_.
     bindE (check_exit l) (\<lambda>_.
     bindE (pair_ok (ol_market_return l) (ol_market_missing l) MARKET_REASONS ''market_return'') (\<lambda>_.
     bindE (pair_ok (ol_gross_markout l) (ol_gross_missing l) GROSS_REASONS ''gross_markout'') (\<lambda>_.
     bindE (pair_ok (ol_net_markout l) (ol_net_missing l) NET_REASONS ''net_markout'') (\<lambda>_.
     bindE (case ol_cost_policy_version l of None \<Rightarrow> Inr [] | Some p \<Rightarrow> outcome_text (PStr p) ''cost_policy_version'') (\<lambda>_.
     Inr l))))))))"

definition exit_offset :: "outcome_label \<Rightarrow> int option" where
  "exit_offset l = map_option (\<lambda>t. t - ol_target_at l) (ol_exit_observed_at l)"

datatype labelled = Label outcome_label | NotMature string outcome_horizon int

record linked_outcome =
  lo_subject :: outcome_subject
  lo_label :: outcome_label

definition make_linked :: "(string \<Rightarrow> string) \<Rightarrow> outcome_subject \<Rightarrow> outcome_label \<Rightarrow> outcome_exn + linked_outcome" where
  "make_linked sha s l =
     bindE (guardE (ol_subject_id l = subject_id sha s) (OutcomeInputError OE_INCONSISTENT ''label.subject_id'')) (\<lambda>_.
     bindE (guardE (ol_target_at l = target_at s (ol_horizon l)) (OutcomeInputError OE_INCONSISTENT ''label.target_at'')) (\<lambda>_.
     Inr \<lparr>lo_subject = s, lo_label = l\<rparr>))"

text \<open>What the search for the exit quote found: a quote with its mid, or why there is none, from when it is known; or not before when.\<close>

datatype exit_search = ExitQuote quote_observation rat int | NoExit outcome_missing int | NotBefore int

text \<open>The loop of the symmetric window: the best quote so far with its mid and its distance from the target.\<close>

definition nearer :: "int \<Rightarrow> quote_observation \<Rightarrow> (quote_observation \<times> rat \<times> int) option \<Rightarrow> outcome_exn + (quote_observation \<times> rat \<times> int) option" where
  "nearer target q best =
     bindE (quote_mid q) (\<lambda>mid.
     case mid of
       None \<Rightarrow> Inr best
     | Some m \<Rightarrow>
         let distance = \<bar>qo_observed_at q - target\<bar> in
         Inr (case best of
             None \<Rightarrow> Some (q, m, distance)
           | Some (bq, bm, bd) \<Rightarrow>
               if distance < bd \<or> distance = bd \<and> qo_observed_at bq < qo_observed_at q then Some (q, m, distance) else best))"

definition symmetric_candidates :: "outcome_subject \<Rightarrow> int \<Rightarrow> int \<Rightarrow> int \<Rightarrow> quote_observation list \<Rightarrow> quote_observation list" where
  "symmetric_candidates s target now tolerance quotes =
     sort_key quote_order (filter (\<lambda>q. target - tolerance \<le> qo_observed_at q \<and> qo_observed_at q \<le> target + tolerance
       \<and> qo_observed_at q \<le> now \<and> os_decision_as_of s < qo_observed_at q) quotes)"

definition nearest_exit :: "outcome_subject \<Rightarrow> int \<Rightarrow> int \<Rightarrow> int \<Rightarrow> quote_observation list \<Rightarrow> outcome_exn + exit_search" where
  "nearest_exit s target now tolerance quotes =
     (let candidates = symmetric_candidates s target now tolerance quotes in
      bindE (foldE (nearer target) candidates None) (\<lambda>best.
      Inr (case best of
          None \<Rightarrow>
            if now < target + tolerance then NotBefore (target + tolerance)
            else NoExit (if candidates \<noteq> [] then QUOTE_INVALID_AT_HORIZON else QUOTE_MISSING_AT_HORIZON) (target + tolerance)
        | Some (q, m, d) \<Rightarrow> if now < target + d then NotBefore (target + d) else ExitQuote q m (target + d))))"

text \<open>The loop of the forward window: the first valid quote.\<close>

fun first_valid :: "quote_observation list \<Rightarrow> outcome_exn + (quote_observation \<times> rat) option" where
  "first_valid [] = Inr None"
| "first_valid (q # qs) = bindE (quote_mid q) (\<lambda>mid. case mid of Some m \<Rightarrow> Inr (Some (q, m)) | None \<Rightarrow> first_valid qs)"

definition forward_candidates :: "int \<Rightarrow> int \<Rightarrow> int \<Rightarrow> quote_observation list \<Rightarrow> quote_observation list" where
  "forward_candidates target now tolerance quotes =
     sort_key quote_order (filter (\<lambda>q. target \<le> qo_observed_at q \<and> qo_observed_at q \<le> target + tolerance \<and> qo_observed_at q \<le> now) quotes)"

definition forward_exit :: "int \<Rightarrow> int \<Rightarrow> int \<Rightarrow> quote_observation list \<Rightarrow> outcome_exn + exit_search" where
  "forward_exit target now tolerance quotes =
     (let in_window = forward_candidates target now tolerance quotes in
      bindE (first_valid in_window) (\<lambda>found.
      Inr (case found of
          Some (q, m) \<Rightarrow> ExitQuote q m (qo_observed_at q)
        | None \<Rightarrow>
            if now < target + tolerance then NotBefore (target + tolerance)
            else NoExit (if in_window \<noteq> [] then QUOTE_INVALID_AT_HORIZON else QUOTE_MISSING_AT_HORIZON) (target + tolerance))))"

definition find_exit_quote ::
  "outcome_subject \<Rightarrow> int \<Rightarrow> int \<Rightarrow> int \<Rightarrow> label_window \<Rightarrow> quote_observation list option \<Rightarrow> outcome_exn + exit_search" where
  "find_exit_quote s target now tolerance window quotes =
     (case quotes of
        None \<Rightarrow> Inr (NoExit PRICE_SOURCE_UNSUPPORTED target)
      | Some qs \<Rightarrow> if window = SYMMETRIC then nearest_exit s target now tolerance qs else forward_exit target now tolerance qs)"

definition market_values :: "outcome_subject \<Rightarrow> rat \<Rightarrow> outcome_exn + rat \<times> rat option" where
  "market_values s m =
     bindE (odiv ''market_return'' m (os_entry_mid s)) (\<lambda>ratio.
     let ret = osub ratio 1 in
     Inr (ret, case os_direction s of DIR_LONG \<Rightarrow> Some ret | DIR_SHORT \<Rightarrow> Some (ctx_fix default_context (- ret)) | DIR_NONE \<Rightarrow> None))"

definition net_values :: "rat option \<Rightarrow> recorded_cost option \<Rightarrow> rat option \<times> outcome_missing option" where
  "net_values gross cost =
     (case (gross, cost) of
        (None, _) \<Rightarrow> (None, Some GROSS_UNAVAILABLE)
      | (Some g, None) \<Rightarrow> (None, Some COST_NOT_RECORDED)
      | (Some g, Some c) \<Rightarrow>
          (case (rc_status c, rc_total_fraction c) of
             (COST_COMPLETE, Some t) \<Rightarrow> (Some (osub g t), None)
           | _ \<Rightarrow> (None, Some NET_COST_INCOMPLETE)))"

definition label_fields ::
  "(string \<Rightarrow> string) \<Rightarrow> outcome_subject \<Rightarrow> outcome_horizon \<Rightarrow> (quote_observation \<times> rat) option \<Rightarrow> outcome_missing option \<Rightarrow> int
    \<Rightarrow> rat option \<Rightarrow> rat option \<Rightarrow> outcome_label" where
  "label_fields sha s h exit_quote lacking available ret gross =
     (let net = net_values gross (cost_for s h) in
      \<lparr>ol_subject_id = subject_id sha s, ol_horizon = h,
       ol_status = (if exit_quote = None then UNAVAILABLE else AVAILABLE), ol_target_at = target_at s h, ol_label_available_at = available,
       ol_exit_mid = map_option snd exit_quote, ol_exit_observed_at = map_option (\<lambda>e. qo_observed_at (fst e)) exit_quote,
       ol_exit_source = map_option (\<lambda>e. qo_source (fst e)) exit_quote, ol_market_return = ret, ol_market_missing = lacking,
       ol_gross_markout = gross,
       ol_gross_missing = (if gross \<noteq> None then None else if exit_quote \<noteq> None then Some OUTCOME_NO_DIRECTION else lacking),
       ol_net_markout = fst net, ol_net_missing = snd net, ol_cost_policy_version = map_option rc_policy_version (cost_for s h)\<rparr>)"

definition assemble_label ::
  "(string \<Rightarrow> string) \<Rightarrow> outcome_subject \<Rightarrow> outcome_horizon \<Rightarrow> (quote_observation \<times> rat) option \<Rightarrow> outcome_missing option \<Rightarrow> int \<Rightarrow> outcome_exn + outcome_label" where
  "assemble_label sha s h exit_quote lacking available =
     (case exit_quote of
        None \<Rightarrow> make_label (label_fields sha s h None lacking available None None)
      | Some (q, m) \<Rightarrow>
          bindE (market_values s m) (\<lambda>(ret, gross). make_label (label_fields sha s h exit_quote lacking available (Some ret) gross)))"

definition label_horizon ::
  "(string \<Rightarrow> string) \<Rightarrow> outcome_subject \<Rightarrow> outcome_horizon \<Rightarrow> quote_observation list option \<Rightarrow> moment \<Rightarrow> int \<Rightarrow> label_window \<Rightarrow> outcome_exn + labelled" where
  "label_horizon sha s h quotes now tolerance window =
     bindE (outcome_aware now ''now'') (\<lambda>t.
     bindE (guardE (0 \<le> tolerance) (OutcomeInputError OE_OUT_OF_RANGE ''tolerance'')) (\<lambda>_.
     let target = target_at s h in
     if t < target then Inr (NotMature (subject_id sha s) h target)
     else bindE (find_exit_quote s target t tolerance window quotes) (\<lambda>found.
       case found of
         NotBefore b \<Rightarrow> Inr (NotMature (subject_id sha s) h b)
       | ExitQuote q m tm \<Rightarrow> bindE (assemble_label sha s h (Some (q, m)) None tm) (\<lambda>l. Inr (Label l))
       | NoExit r tm \<Rightarrow> bindE (assemble_label sha s h None (Some r) tm) (\<lambda>l. Inr (Label l)))))"

definition visible_outcomes :: "linked_outcome list \<Rightarrow> moment \<Rightarrow> outcome_exn + linked_outcome list" where
  "visible_outcomes outcomes as_of =
     bindE (outcome_aware as_of ''decision_as_of'') (\<lambda>cutoff.
     Inr (filter (\<lambda>x. ol_label_available_at (lo_label x) \<le> cutoff) outcomes))"

end
