(* ===== verification/Outcome_Properties.thy ===== *)
theory Outcome_Properties
  imports Outcomes "HOL-Library.Multiset"
begin

text \<open>
  Properties of outcome labels: a call on well-formed arguments returns a well-formed label or says that it is too
  early, a label never uses a quote from after it became known and never changes, and the exit quote is the first
  or the nearest valid one of its window.
\<close>

section \<open>Mids\<close>

lemma valid_outcome_context [simp]: "valid_ctx OUTCOME_CONTEXT"
  by (simp add: OUTCOME_CONTEXT_def valid_ctx_def)

text \<open>The mid of a quote, as a value.\<close>

definition mid_of :: "quote_observation \<Rightarrow> rat option" where
  "mid_of q =
     (case (qo_bid q, qo_ask q) of
        (Some b, Some a) \<Rightarrow> if b \<le> 0 \<or> a \<le> 0 \<or> a < b then None else Some (ctx_fix OUTCOME_CONTEXT (oadd b a / 2))
      | _ \<Rightarrow> None)"

lemma odiv_value: "y \<noteq> 0 \<Longrightarrow> odiv field x y = Inr (ctx_fix OUTCOME_CONTEXT (x / y))"
  by (simp add: odiv_def ctx_div_def)

lemma quote_mid_value [simp]: "quote_mid q = Inr (mid_of q)"
  by (auto simp: quote_mid_def mid_of_def odiv_value split: option.splits)

lemma mid_of_pos: "mid_of q = Some m \<Longrightarrow> 0 < m"
proof -
  assume m: "mid_of q = Some m"
  obtain b a where ba: "qo_bid q = Some b" "qo_ask q = Some a" using m by (auto simp: mid_of_def split: option.splits)
  then have "0 < b" "0 < a" "m = ctx_fix OUTCOME_CONTEXT (oadd b a / 2)" using m by (auto simp: mid_of_def split: if_splits)
  then show "0 < m" by (simp add: ctx_fix_pos ctx_add_def)
qed

section \<open>Searching\<close>

lemma first_valid_value:
  "first_valid qs = Inr (case List.find (\<lambda>q. mid_of q \<noteq> None) qs of None \<Rightarrow> None | Some q \<Rightarrow> Some (q, the (mid_of q)))"
  by (induction qs) (auto split: option.splits)

text \<open>The choice of the symmetric window as a fold over the valid quotes.\<close>

definition rank_of :: "int \<Rightarrow> quote_observation \<Rightarrow> int \<times> int" where
  "rank_of target q = (\<bar>qo_observed_at q - target\<bar>, - qo_observed_at q)"

definition pick :: "int \<Rightarrow> quote_observation option \<Rightarrow> quote_observation \<Rightarrow> quote_observation option" where
  "pick target best q =
     (if mid_of q = None then best
      else case best of None \<Rightarrow> Some q | Some b \<Rightarrow> if rank_of target q < rank_of target b then Some q else best)"

definition tagged :: "int \<Rightarrow> quote_observation \<Rightarrow> quote_observation \<times> rat \<times> int" where
  "tagged target q = (q, the (mid_of q), \<bar>qo_observed_at q - target\<bar>)"

lemma nearer_pick:
  "foldE (nearer target) qs (map_option (tagged target) best) = Inr (map_option (tagged target) (foldl (pick target) best qs))"
proof (induction qs arbitrary: best)
  case (Cons q qs)
  have "nearer target q (map_option (tagged target) best) = Inr (map_option (tagged target) (pick target best q))"
    by (cases best) (auto simp: nearer_def pick_def tagged_def rank_of_def less_prod_def Let_def split: option.splits)
  then show ?case using Cons.IH by simp
qed simp

lemma nearest_exit_value:
  "nearest_exit s target now tolerance quotes =
     Inr (case foldl (pick target) None (symmetric_candidates s target now tolerance quotes) of
         None \<Rightarrow>
           if now < target + tolerance then NotBefore (target + tolerance)
           else NoExit (if symmetric_candidates s target now tolerance quotes \<noteq> [] then QUOTE_INVALID_AT_HORIZON else QUOTE_MISSING_AT_HORIZON)
             (target + tolerance)
       | Some q \<Rightarrow>
           let d = \<bar>qo_observed_at q - target\<bar> in
           if now < target + d then NotBefore (target + d) else ExitQuote q (the (mid_of q)) (target + d))"
  using nearer_pick[of target "symmetric_candidates s target now tolerance quotes" None]
  by (auto simp: nearest_exit_def Let_def tagged_def split: option.splits)

lemma pick_some:
  assumes "mid_of x \<noteq> None"
  shows "\<exists>y. pick target best x = Some y \<and> (y = x \<or> best = Some y) \<and> rank_of target y \<le> rank_of target x
    \<and> (\<forall>b. best = Some b \<longrightarrow> rank_of target y \<le> rank_of target b)"
proof (cases best)
  case (Some b)
  then show ?thesis using assms by (cases "rank_of target x < rank_of target b") (auto simp: pick_def)
qed (use assms in \<open>simp add: pick_def\<close>)

lemma pick_best:
  assumes "foldl (pick target) best qs = Some q"
  shows "(best = Some q \<or> q \<in> set qs \<and> mid_of q \<noteq> None)
    \<and> (\<forall>x \<in> set qs. mid_of x \<noteq> None \<longrightarrow> rank_of target q \<le> rank_of target x)
    \<and> (\<forall>b. best = Some b \<longrightarrow> rank_of target q \<le> rank_of target b)"
  using assms
proof (induction qs arbitrary: best)
  case (Cons x qs)
  have f: "foldl (pick target) (pick target best x) qs = Some q" using Cons.prems by simp
  show ?case
  proof (cases "mid_of x = None")
    case True
    then show ?thesis using Cons.IH[OF f] by (auto simp: pick_def)
  next
    case False
    then obtain y where y: "pick target best x = Some y" "y = x \<or> best = Some y" "rank_of target y \<le> rank_of target x"
      "\<forall>b. best = Some b \<longrightarrow> rank_of target y \<le> rank_of target b"
      using pick_some[of x target best] by blast
    note IH = Cons.IH[OF f]
    have "rank_of target q \<le> rank_of target y" using IH y(1) by blast
    then have "rank_of target q \<le> rank_of target x" "\<forall>b. best = Some b \<longrightarrow> rank_of target q \<le> rank_of target b"
      using y(3,4) by (auto intro: order.trans)
    then show ?thesis using IH y(1,2) False by auto
  qed
qed simp

lemma pick_none: "foldl (pick target) None qs = None \<longleftrightarrow> (\<forall>q \<in> set qs. mid_of q = None)"
proof -
  have some: "\<exists>y. foldl (pick target) (Some b) qs = Some y" for b qs
    by (induction qs arbitrary: b) (auto simp: pick_def)
  show ?thesis
  proof (induction qs)
    case (Cons q qs)
    have "pick target None q = (if mid_of q = None then None else Some q)" by (simp add: pick_def)
    then show ?case using Cons.IH some[of q qs] by (cases "mid_of q") simp_all
  qed simp
qed

section \<open>Sorting by time\<close>

lemma quote_order_time: "quote_order a \<le> quote_order b \<Longrightarrow> qo_observed_at a \<le> qo_observed_at b"
  by (auto simp: quote_order_def less_eq_prod_def)

lemma quote_order_less: "qo_observed_at a < qo_observed_at b \<Longrightarrow> quote_order a \<le> quote_order b"
  by (auto simp: quote_order_def less_eq_prod_def)

lemma filter_filter_same: "(\<And>x. E x \<Longrightarrow> P x = c) \<Longrightarrow> filter E (filter P xs) = (if c then filter E xs else [])"
  by (induction xs) auto

lemma sort_by_time:
  "sort_key quote_order qs = sort_key quote_order (filter (\<lambda>q. qo_observed_at q \<le> now) qs)
     @ sort_key quote_order (filter (\<lambda>q. \<not> qo_observed_at q \<le> now) qs)"
proof (rule properties_for_sort_key)
  let ?a = "filter (\<lambda>q. qo_observed_at q \<le> now) qs" and ?b = "filter (\<lambda>q. \<not> qo_observed_at q \<le> now) qs"
  show "mset (sort_key quote_order ?a @ sort_key quote_order ?b) = mset qs" by simp
  show "filter (\<lambda>x. quote_order k = quote_order x) (sort_key quote_order ?a @ sort_key quote_order ?b) = filter (\<lambda>x. quote_order k = quote_order x) qs"
    if "k \<in> set (sort_key quote_order ?a @ sort_key quote_order ?b)" for k
  proof -
    have st: "filter (\<lambda>x. quote_order k = quote_order x) (sort_key quote_order xs) = filter (\<lambda>x. quote_order k = quote_order x) xs" for xs
      using sort_key_stable[of quote_order "quote_order k" xs] by (simp add: eq_commute)
    have same: "quote_order k = quote_order x \<Longrightarrow> qo_observed_at x = qo_observed_at k" for x by (simp add: quote_order_def)
    let ?E = "\<lambda>x. quote_order k = quote_order x"
    have a: "filter ?E ?a = (if qo_observed_at k \<le> now then filter ?E qs else [])"
      by (rule filter_filter_same, drule same) simp
    have b: "filter ?E ?b = (if \<not> qo_observed_at k \<le> now then filter ?E qs else [])"
      by (rule filter_filter_same, drule same) simp
    show ?thesis unfolding filter_append st a b by (cases "qo_observed_at k \<le> now") simp_all
  qed
  show "sorted (map quote_order (sort_key quote_order ?a @ sort_key quote_order ?b))"
    by (auto simp: sorted_append intro!: quote_order_less)
qed

section \<open>Later quotes\<close>

text \<open>What was observed by a time.\<close>

abbreviation seen_by :: "int \<Rightarrow> quote_observation list \<Rightarrow> quote_observation list" where
  "seen_by now qs \<equiv> filter (\<lambda>q. qo_observed_at q \<le> now) qs"

lemma candidates_extend:
  assumes "now \<le> now'" and "seen_by now qs' = seen_by now qs"
  shows "sort_key quote_order (filter (\<lambda>q. W q \<and> qo_observed_at q \<le> now') qs') =
    sort_key quote_order (filter (\<lambda>q. W q \<and> qo_observed_at q \<le> now) qs)
      @ sort_key quote_order (filter (\<lambda>q. W q \<and> qo_observed_at q \<le> now' \<and> now < qo_observed_at q) qs')"
proof -
  have "filter (\<lambda>q. qo_observed_at q \<le> now) (filter (\<lambda>q. W q \<and> qo_observed_at q \<le> now') qs') = filter W (seen_by now qs')"
    using assms(1) by (auto intro: filter_cong)
  also have "\<dots> = filter (\<lambda>q. W q \<and> qo_observed_at q \<le> now) qs" unfolding assms(2) by (auto intro: filter_cong)
  finally show ?thesis
    using sort_by_time[of "filter (\<lambda>q. W q \<and> qo_observed_at q \<le> now') qs'" now] by (simp add: conj_ac not_le)
qed

lemma forward_extend:
  assumes "now \<le> now'" and "seen_by now qs' = seen_by now qs"
  shows "\<exists>later. forward_candidates target now' tol qs' = forward_candidates target now tol qs @ later
    \<and> (\<forall>q \<in> set later. now < qo_observed_at q \<and> qo_observed_at q \<le> target + tol)"
  using candidates_extend[OF assms, of "\<lambda>q. target \<le> qo_observed_at q \<and> qo_observed_at q \<le> target + tol"]
  by (auto simp: forward_candidates_def conj_assoc)

lemma symmetric_extend:
  assumes "now \<le> now'" and "seen_by now qs' = seen_by now qs"
  shows "\<exists>later. symmetric_candidates s target now' tol qs' = symmetric_candidates s target now tol qs @ later
    \<and> (\<forall>q \<in> set later. now < qo_observed_at q \<and> qo_observed_at q \<le> target + tol)"
proof -
  let ?W = "\<lambda>q. target - tol \<le> qo_observed_at q \<and> qo_observed_at q \<le> target + tol \<and> os_decision_as_of s < qo_observed_at q"
  have c: "symmetric_candidates s target n tol xs = sort_key quote_order (filter (\<lambda>q. ?W q \<and> qo_observed_at q \<le> n) xs)" for n xs
    unfolding symmetric_candidates_def by (rule arg_cong[where f = "sort_key quote_order"]) (rule filter_cong, auto)
  show ?thesis unfolding c using candidates_extend[OF assms, of ?W] by (intro exI conjI) (assumption, simp)
qed

lemma find_first_append: "List.find P xs = Some q \<Longrightarrow> List.find P (xs @ ys) = Some q"
  by (induction xs) (auto split: if_splits)

text \<open>A search that is over.\<close>

definition search_over :: "exit_search \<Rightarrow> bool" where
  "search_over found \<longleftrightarrow> (\<forall>b. found \<noteq> NotBefore b)"

lemma search_over_simps [simp]: "search_over (ExitQuote q m a)" "search_over (NoExit r a)" "\<not> search_over (NotBefore b)"
  by (simp_all add: search_over_def)

lemma forward_final:
  assumes "forward_exit target now tol qs = Inr found" and "search_over found"
    and "now \<le> now'" and "seen_by now qs' = seen_by now qs"
  shows "forward_exit target now' tol qs' = Inr found"
proof -
  obtain later where l: "forward_candidates target now' tol qs' = forward_candidates target now tol qs @ later"
    "\<forall>q \<in> set later. now < qo_observed_at q \<and> qo_observed_at q \<le> target + tol" using forward_extend[OF assms(3,4)] by blast
  show ?thesis
  proof (cases "List.find (\<lambda>q. mid_of q \<noteq> None) (forward_candidates target now tol qs)")
    case None
    then have "target + tol \<le> now" using assms(1,2) by (auto simp: forward_exit_def Let_def first_valid_value split: if_splits)
    then have "later = []" using l(2) by (cases later) auto
    then show ?thesis using assms(1) l(1) None \<open>target + tol \<le> now\<close> assms(3) by (simp add: forward_exit_def Let_def first_valid_value)
  next
    case (Some q)
    then have "List.find (\<lambda>q. mid_of q \<noteq> None) (forward_candidates target now tol qs @ later) = Some q"
      by (rule find_first_append)
    then show ?thesis using assms(1) l(1) Some by (simp add: forward_exit_def Let_def first_valid_value)
  qed
qed

lemma pick_stays:
  assumes "\<forall>x \<in> set qs. rank_of target q \<le> rank_of target x"
  shows "foldl (pick target) (Some q) qs = Some q"
  using assms by (induction qs) (auto simp: pick_def)

lemma symmetric_final:
  assumes "nearest_exit s target now tol qs = Inr found" and "search_over found"
    and "now \<le> now'" and "seen_by now qs' = seen_by now qs" and "target \<le> now"
  shows "nearest_exit s target now' tol qs' = Inr found"
proof -
  obtain later where l: "symmetric_candidates s target now' tol qs' = symmetric_candidates s target now tol qs @ later"
    "\<forall>q \<in> set later. now < qo_observed_at q \<and> qo_observed_at q \<le> target + tol" using symmetric_extend[OF assms(3,4)] by blast
  show ?thesis
  proof (cases "foldl (pick target) None (symmetric_candidates s target now tol qs)")
    case None
    then have w: "target + tol \<le> now" using assms(1,2) by (auto simp: nearest_exit_value split: if_splits)
    then have "later = []" using l(2) by (cases later) auto
    then show ?thesis using assms(1,3) l(1) None w by (simp add: nearest_exit_value)
  next
    case (Some q)
    then have w: "target + \<bar>qo_observed_at q - target\<bar> \<le> now" using assms(1,2) by (auto simp: nearest_exit_value Let_def split: if_splits)
    have "\<forall>x \<in> set later. rank_of target q \<le> rank_of target x" using l(2) w by (fastforce simp: rank_of_def less_eq_prod_def)
    then have "foldl (pick target) None (symmetric_candidates s target now' tol qs') = Some q" using Some l(1) by (simp add: pick_stays)
    then show ?thesis using assms(1,3) Some w by (simp add: nearest_exit_value Let_def)
  qed
qed

lemma search_final:
  assumes "find_exit_quote s target now tol win quotes = Inr found" and "search_over found" and "target \<le> now"
    and "now \<le> now'" and "map_option (seen_by now) quotes' = map_option (seen_by now) quotes"
  shows "find_exit_quote s target now' tol win quotes' = Inr found"
proof (cases quotes)
  case (Some qs)
  then obtain qs' where "quotes' = Some qs'" "seen_by now qs' = seen_by now qs" using assms(5) by auto
  then show ?thesis
    using Some assms(1) forward_final[OF _ assms(2,4), of target tol qs qs'] symmetric_final[OF _ assms(2,4), of s target tol qs qs'] assms(3)
    by (simp add: find_exit_quote_def split: if_splits)
qed (use assms(1,5) in \<open>simp add: find_exit_quote_def\<close>)

text \<open>The parts of a call that wrote a label.\<close>

lemma label_horizon_Label:
  assumes "label_horizon sha s h quotes now tol win = Inr (Label l)"
  obtains t found where "now = Aware t" "0 \<le> tol" "target_at s h \<le> t" "find_exit_quote s (target_at s h) t tol win quotes = Inr found"
    "search_over found"
    "(case found of ExitQuote q m a \<Rightarrow> assemble_label sha s h (Some (q, m)) None a | NoExit r a \<Rightarrow> assemble_label sha s h None (Some r) a) = Inr l"
proof -
  obtain t where t: "now = Aware t" "0 \<le> tol" "target_at s h \<le> t" using assms
    by (cases now) (auto simp: label_horizon_def bindE_eq_Inr Let_def split: if_splits)
  then obtain found where f: "find_exit_quote s (target_at s h) t tol win quotes = Inr found"
    "(case found of NotBefore b \<Rightarrow> Inr (NotMature (subject_id sha s) h b)
       | ExitQuote q m tm \<Rightarrow> bindE (assemble_label sha s h (Some (q, m)) None tm) (\<lambda>l. Inr (Label l))
       | NoExit r tm \<Rightarrow> bindE (assemble_label sha s h None (Some r) tm) (\<lambda>l. Inr (Label l))) = Inr (Label l)"
    using assms by (auto simp: label_horizon_def bindE_eq_Inr Let_def)
  show thesis using that[OF t f(1)] f(2) by (cases found) (auto simp: bindE_eq_Inr)
qed

lemma label_horizon_of_search:
  assumes "find_exit_quote s (target_at s h) t tol win quotes = Inr found" and "search_over found" and "0 \<le> tol" and "target_at s h \<le> t"
    and "(case found of ExitQuote q m a \<Rightarrow> assemble_label sha s h (Some (q, m)) None a | NoExit r a \<Rightarrow> assemble_label sha s h None (Some r) a) = Inr l"
  shows "label_horizon sha s h quotes (Aware t) tol win = Inr (Label l)"
  using assms by (cases found) (auto simp: label_horizon_def Let_def)

lemma label_final:
  assumes "label_horizon sha s h quotes (Aware now) tol win = Inr (Label l)" and "now \<le> now'"
    and "map_option (seen_by now) quotes' = map_option (seen_by now) quotes"
  shows "label_horizon sha s h quotes' (Aware now') tol win = Inr (Label l)"
proof -
  obtain t found where p: "Aware now = Aware t" "0 \<le> tol" "target_at s h \<le> t" "find_exit_quote s (target_at s h) t tol win quotes = Inr found"
    "search_over found"
    "(case found of ExitQuote q m a \<Rightarrow> assemble_label sha s h (Some (q, m)) None a | NoExit r a \<Rightarrow> assemble_label sha s h None (Some r) a) = Inr l"
    by (rule label_horizon_Label[OF assms(1)])
  then have "find_exit_quote s (target_at s h) now' tol win quotes' = Inr found" using search_final[OF p(4,5)] assms(2,3) by simp
  then show ?thesis using label_horizon_of_search[OF _ p(5) p(2) _ p(6)] p(1,3) assms(2) by simp
qed

section \<open>Earlier times\<close>

lemma find_first_split: "List.find P (xs @ ys) = Some q \<Longrightarrow> q \<notin> set ys \<Longrightarrow> List.find P xs = Some q"
  by (induction xs) (auto simp: find_Some_iff split: if_splits dest: nth_mem)

lemma find_first_member: "List.find P xs = Some q \<Longrightarrow> q \<in> set xs \<and> P q"
  by (auto simp: find_Some_iff)

lemma find_first_none: "List.find P xs = None \<longleftrightarrow> (\<forall>x \<in> set xs. \<not> P x)"
  by (auto simp: find_None_iff)

text \<open>When a search result becomes known.\<close>

fun known_at :: "exit_search \<Rightarrow> int" where
  "known_at (ExitQuote q m a) = a"
| "known_at (NoExit r a) = a"
| "known_at (NotBefore b) = b"

lemma forward_early:
  assumes "forward_exit target now tol qs = Inr found" and "search_over found" and "known_at found \<le> c" and "c \<le> now"
    and "seen_by c qs' = seen_by c qs"
  shows "forward_exit target c tol qs' = Inr found"
proof -
  obtain later where l: "forward_candidates target now tol qs = forward_candidates target c tol qs' @ later"
    "\<forall>q \<in> set later. c < qo_observed_at q \<and> qo_observed_at q \<le> target + tol" using forward_extend[OF assms(4) assms(5)[symmetric]] by blast
  show ?thesis
  proof (cases "List.find (\<lambda>q. mid_of q \<noteq> None) (forward_candidates target now tol qs)")
    case None
    then have f: "found = NoExit (if forward_candidates target now tol qs \<noteq> [] then QUOTE_INVALID_AT_HORIZON else QUOTE_MISSING_AT_HORIZON) (target + tol)"
      using assms(1,2) by (auto simp: forward_exit_def Let_def first_valid_value split: if_splits)
    then have "target + tol \<le> c" using assms(3) by simp
    moreover from this have "later = []" using l(2) by (cases later) auto
    ultimately show ?thesis using l(1) None f by (simp add: forward_exit_def Let_def first_valid_value)
  next
    case (Some q)
    then have f: "found = ExitQuote q (the (mid_of q)) (qo_observed_at q)" using assms(1) by (simp add: forward_exit_def Let_def first_valid_value)
    then have "q \<notin> set later" using assms(3) l(2) by auto
    then have "List.find (\<lambda>q. mid_of q \<noteq> None) (forward_candidates target c tol qs') = Some q" using find_first_split Some l(1) by metis
    then show ?thesis using f by (simp add: forward_exit_def Let_def first_valid_value)
  qed
qed

lemma symmetric_early:
  assumes "nearest_exit s target now tol qs = Inr found" and "search_over found" and "known_at found \<le> c" and "c \<le> now"
    and "seen_by c qs' = seen_by c qs"
  shows "nearest_exit s target c tol qs' = Inr found"
proof -
  obtain later where l: "symmetric_candidates s target now tol qs = symmetric_candidates s target c tol qs' @ later"
    "\<forall>q \<in> set later. c < qo_observed_at q \<and> qo_observed_at q \<le> target + tol" using symmetric_extend[OF assms(4) assms(5)[symmetric]] by blast
  show ?thesis
  proof (cases "foldl (pick target) None (symmetric_candidates s target now tol qs)")
    case None
    then have f: "found = NoExit (if symmetric_candidates s target now tol qs \<noteq> [] then QUOTE_INVALID_AT_HORIZON else QUOTE_MISSING_AT_HORIZON) (target + tol)"
      using assms(1,2) by (auto simp: nearest_exit_value split: if_splits)
    then have "target + tol \<le> c" using assms(3) by simp
    moreover from this have "later = []" using l(2) by (cases later) auto
    ultimately show ?thesis using l(1) None f by (simp add: nearest_exit_value)
  next
    case (Some q)
    then have f: "found = ExitQuote q (the (mid_of q)) (target + \<bar>qo_observed_at q - target\<bar>)" using assms(1,2)
      by (auto simp: nearest_exit_value Let_def split: if_splits)
    then have "q \<notin> set later" using assms(3) l(2) by auto
    moreover have "foldl (pick target) (foldl (pick target) None (symmetric_candidates s target c tol qs')) later = Some q"
      using Some l(1) by simp
    ultimately have "foldl (pick target) None (symmetric_candidates s target c tol qs') = Some q" using pick_best by blast
    then show ?thesis using f assms(3) by (simp add: nearest_exit_value Let_def)
  qed
qed

lemma search_early:
  assumes "find_exit_quote s target now tol win quotes = Inr found" and "search_over found" and "known_at found \<le> c" and "c \<le> now"
    and "map_option (seen_by c) quotes' = map_option (seen_by c) quotes"
  shows "find_exit_quote s target c tol win quotes' = Inr found"
proof (cases quotes)
  case (Some qs)
  then obtain qs' where "quotes' = Some qs'" "seen_by c qs' = seen_by c qs" using assms(5) by auto
  then show ?thesis
    using Some assms(1) forward_early[OF _ assms(2-4), of target tol qs qs'] symmetric_early[OF _ assms(2-4), of s target tol qs qs']
    by (simp add: find_exit_quote_def split: if_splits)
qed (use assms(1,5) in \<open>simp add: find_exit_quote_def\<close>)

text \<open>What a finished search says.\<close>

lemma forward_members: "q \<in> set (forward_candidates target now tol qs) \<longleftrightarrow>
    q \<in> set qs \<and> target \<le> qo_observed_at q \<and> qo_observed_at q \<le> target + tol \<and> qo_observed_at q \<le> now"
  by (auto simp: forward_candidates_def)

lemma symmetric_members: "q \<in> set (symmetric_candidates s target now tol qs) \<longleftrightarrow>
    q \<in> set qs \<and> target - tol \<le> qo_observed_at q \<and> qo_observed_at q \<le> target + tol \<and> qo_observed_at q \<le> now \<and> os_decision_as_of s < qo_observed_at q"
  by (auto simp: symmetric_candidates_def)

lemma search_exit:
  assumes "find_exit_quote s target now tol win (Some qs) = Inr (ExitQuote q m a)" and "0 \<le> tol"
  shows "q \<in> set qs" "mid_of q = Some m" "a = target + \<bar>qo_observed_at q - target\<bar>" "a \<le> now \<or> a = qo_observed_at q" "qo_observed_at q \<le> now"
    "win = FORWARD \<Longrightarrow> target \<le> qo_observed_at q" "win = SYMMETRIC \<Longrightarrow> os_decision_as_of s < qo_observed_at q"
proof -
  have "q \<in> set qs \<and> mid_of q = Some m \<and> a = target + \<bar>qo_observed_at q - target\<bar> \<and> (a \<le> now \<or> a = qo_observed_at q) \<and> qo_observed_at q \<le> now
      \<and> (win = FORWARD \<longrightarrow> target \<le> qo_observed_at q) \<and> (win = SYMMETRIC \<longrightarrow> os_decision_as_of s < qo_observed_at q)"
  proof (cases win)
    case FORWARD
    then have f: "List.find (\<lambda>q. mid_of q \<noteq> None) (forward_candidates target now tol qs) = Some q" "m = the (mid_of q)" "a = qo_observed_at q"
      using assms(1) by (auto simp: find_exit_quote_def forward_exit_def Let_def first_valid_value split: option.splits if_splits)
    then show ?thesis using FORWARD find_first_member[OF f(1)] by (auto simp: forward_members)
  next
    case SYMMETRIC
    then have f: "foldl (pick target) None (symmetric_candidates s target now tol qs) = Some q" "m = the (mid_of q)"
      "a = target + \<bar>qo_observed_at q - target\<bar>" "a \<le> now"
      using assms(1) by (auto simp: find_exit_quote_def nearest_exit_value Let_def split: option.splits if_splits)
    then show ?thesis using SYMMETRIC pick_best[OF f(1)] by (auto simp: symmetric_members)
  qed
  then show "q \<in> set qs" "mid_of q = Some m" "a = target + \<bar>qo_observed_at q - target\<bar>" "a \<le> now \<or> a = qo_observed_at q" "qo_observed_at q \<le> now"
    "win = FORWARD \<Longrightarrow> target \<le> qo_observed_at q" "win = SYMMETRIC \<Longrightarrow> os_decision_as_of s < qo_observed_at q" by blast+
qed

lemma search_none:
  assumes "find_exit_quote s target now tol win quotes = Inr (NoExit r a)" and "0 \<le> tol" and "target \<le> now"
  shows "target \<le> a" "a \<le> now" "r \<in> set MARKET_REASONS"
  using assms by (auto simp: find_exit_quote_def nearest_exit_value forward_exit_def Let_def first_valid_value MARKET_REASONS_def
      split: option.splits if_splits)

lemma make_label_Inr: "make_label l = Inr l' \<Longrightarrow> l' = l"
  by (auto simp: make_label_def bindE_eq_Inr simp del: outcome_text.simps)

lemma assemble_available:
  assumes "assemble_label sha s h e r a = Inr l"
  shows "ol_label_available_at l = a" "ol_horizon l = h" "ol_target_at l = target_at s h" "ol_subject_id l = subject_id sha s"
    "ol_exit_observed_at l = map_option (\<lambda>x. qo_observed_at (fst x)) e" "make_label l = Inr l"
proof -
  obtain ret gross where "make_label (label_fields sha s h e r a ret gross) = Inr l"
    using assms by (auto simp: assemble_label_def bindE_eq_Inr split: option.splits)
  then have l: "l = label_fields sha s h e r a ret gross" "make_label l = Inr l" using make_label_Inr by auto
  show "ol_label_available_at l = a" "ol_horizon l = h" "ol_target_at l = target_at s h" "ol_subject_id l = subject_id sha s"
    "ol_exit_observed_at l = map_option (\<lambda>x. qo_observed_at (fst x)) e" "make_label l = Inr l"
    using l by (simp_all add: label_fields_def Let_def)
qed

lemma label_times:
  assumes "label_horizon sha s h quotes (Aware now) tol win = Inr (Label l)"
  shows "target_at s h \<le> ol_label_available_at l" "ol_label_available_at l \<le> now"
    "\<forall>t. ol_exit_observed_at l = Some t \<longrightarrow> os_decision_as_of s < t \<and> t \<le> ol_label_available_at l"
proof -
  obtain t found where p: "Aware now = Aware t" "0 \<le> tol" "target_at s h \<le> t" "find_exit_quote s (target_at s h) t tol win quotes = Inr found"
    "search_over found"
    "(case found of ExitQuote q m a \<Rightarrow> assemble_label sha s h (Some (q, m)) None a | NoExit r a \<Rightarrow> assemble_label sha s h None (Some r) a) = Inr l"
    by (rule label_horizon_Label[OF assms])
  have target: "os_decision_as_of s < target_at s h" by (cases h) (simp_all add: target_at_def horizon_duration_def seconds_def)
  show "target_at s h \<le> ol_label_available_at l" "ol_label_available_at l \<le> now"
    "\<forall>t. ol_exit_observed_at l = Some t \<longrightarrow> os_decision_as_of s < t \<and> t \<le> ol_label_available_at l"
  proof (atomize (full), cases found)
    case (ExitQuote q m a)
    then obtain qs where qs: "quotes = Some qs" using p(4) by (cases quotes) (auto simp: find_exit_quote_def)
    note e = search_exit[OF p(4)[unfolded ExitQuote qs] p(2)]
    have "os_decision_as_of s < qo_observed_at q" using e(6,7) target by (cases win) auto
    moreover have "a \<le> now" using e(4,5) p(1) by auto
    moreover have l: "assemble_label sha s h (Some (q, m)) None a = Inr l" using p(6) ExitQuote by simp
    ultimately show "target_at s h \<le> ol_label_available_at l \<and> ol_label_available_at l \<le> now
        \<and> (\<forall>t. ol_exit_observed_at l = Some t \<longrightarrow> os_decision_as_of s < t \<and> t \<le> ol_label_available_at l)"
      using e(3) assemble_available[OF l] by auto
  next
    case (NoExit r a)
    then have l: "assemble_label sha s h None (Some r) a = Inr l" using p(6) by simp
    then show "target_at s h \<le> ol_label_available_at l \<and> ol_label_available_at l \<le> now
        \<and> (\<forall>t. ol_exit_observed_at l = Some t \<longrightarrow> os_decision_as_of s < t \<and> t \<le> ol_label_available_at l)"
      using search_none[OF p(4)[unfolded NoExit] p(2,3)] p(1) assemble_available[OF l] by auto
  qed (use p(5) in simp)
qed

lemma label_early:
  assumes "label_horizon sha s h quotes (Aware now) tol win = Inr (Label l)" and "ol_label_available_at l \<le> c" and "c \<le> now"
    and "map_option (seen_by c) quotes' = map_option (seen_by c) quotes"
  shows "label_horizon sha s h quotes' (Aware c) tol win = Inr (Label l)"
proof -
  obtain t found where p: "Aware now = Aware t" "0 \<le> tol" "target_at s h \<le> t" "find_exit_quote s (target_at s h) t tol win quotes = Inr found"
    "search_over found"
    "(case found of ExitQuote q m a \<Rightarrow> assemble_label sha s h (Some (q, m)) None a | NoExit r a \<Rightarrow> assemble_label sha s h None (Some r) a) = Inr l"
    by (rule label_horizon_Label[OF assms(1)])
  have "known_at found = ol_label_available_at l" using p(5,6) assemble_available(1) by (cases found) auto
  then have "find_exit_quote s (target_at s h) c tol win quotes' = Inr found"
    using search_early[OF p(4,5) _ _ assms(4)] assms(2,3) p(1) by simp
  moreover have "target_at s h \<le> c" using label_times(1)[OF assms(1)] assms(2) by simp
  ultimately show ?thesis using label_horizon_of_search[OF _ p(5) p(2) _ p(6)] by simp
qed

lemma label_past:
  assumes "label_horizon sha s h quotes (Aware now) tol win = Inr (Label l)" and "ol_label_available_at l \<le> c"
    and "map_option (seen_by c) quotes' = map_option (seen_by c) quotes"
  shows "label_horizon sha s h quotes' (Aware c) tol win = Inr (Label l)"
proof (cases "c \<le> now")
  case True
  then show ?thesis using label_early[OF assms(1,2)] assms(3) by blast
next
  case False
  have sub: "seen_by now (seen_by c qs) = seen_by now qs" for qs using False by (auto intro: filter_cong)
  have sub': "map_option (seen_by now) (map_option (seen_by c) x) = map_option (seen_by now) x" for x
    by (cases x) (simp_all only: option.map sub)
  have "map_option (seen_by now) quotes' = map_option (seen_by now) (map_option (seen_by c) quotes')" by (rule sub'[symmetric])
  also have "\<dots> = map_option (seen_by now) quotes" unfolding assms(3) by (rule sub')
  finally show ?thesis using label_final[OF assms(1)] False by simp
qed

section \<open>Every call answers\<close>

text \<open>Text the validator accepts, whatever the field.\<close>

definition field_text :: "string \<Rightarrow> bool" where
  "field_text v \<longleftrightarrow> v \<noteq> [] \<and> v = strip v \<and> length v \<le> OUTCOME_TEXT_LENGTH \<and> \<not> list_ex is_control v"

lemma outcome_text_plain [simp]: "field_text v \<Longrightarrow> outcome_text (PStr v) field = Inr v"
  by (auto simp: field_text_def)






text \<open>The documented form of a SHA-256 digest: 64 hexadecimal digits.\<close>

definition hex_digest :: "string \<Rightarrow> bool" where
  "hex_digest d \<longleftrightarrow> length d = 64 \<and> list_all (\<lambda>ch. ch \<in> set HEX_DIGITS) d"

lemma hex_plain: "ch \<in> set HEX_DIGITS \<Longrightarrow> \<not> is_space ch \<and> \<not> is_control ch"
  by (auto simp: HEX_DIGITS_def is_space_def is_control_def Let_def)

lemma subject_id_plain: "hex_digest (sha (identity_text s)) \<Longrightarrow> field_text (subject_id sha s)"
proof -
  assume d: "hex_digest (sha (identity_text s))"
  have prefix: "\<not> is_space ch \<and> \<not> is_control ch" if "ch \<in> set SUBJECT_ID_PREFIX" for ch
    using that by (auto simp: SUBJECT_ID_PREFIX_def is_space_def is_control_def Let_def)
  have "\<not> is_space ch \<and> \<not> is_control ch" if "ch \<in> set (subject_id sha s)" for ch
    using that d prefix hex_plain by (auto simp: subject_id_def hex_digest_def list_all_iff)
  then have "strip (subject_id sha s) = subject_id sha s" "\<not> list_ex is_control (subject_id sha s)"
    using strip_no_space[of "subject_id sha s"] by (auto simp: list_all_iff list_ex_iff)
  moreover have "length (subject_id sha s) = 79" using d by (simp add: subject_id_def SUBJECT_ID_PREFIX_def hex_digest_def)
  ultimately show ?thesis by (auto simp: field_text_def OUTCOME_TEXT_LENGTH_def)
qed


lemma net_values_pair: "(fst (net_values g c) = None) \<noteq> (snd (net_values g c) = None)" "snd (net_values g c) = Some r \<Longrightarrow> r \<in> set NET_REASONS"
  by (auto simp: net_values_def NET_REASONS_def split: option.splits cost_status.splits)

lemma pair_ok_value: "(v = None) \<noteq> (reason = None) \<Longrightarrow> (\<forall>r. reason = Some r \<longrightarrow> r \<in> set allowed) \<Longrightarrow> pair_ok v reason allowed field = Inr ()"
  by (auto simp: pair_ok_def split: option.splits)

lemma label_fields_ok:
  assumes "field_text (subject_id sha s)" and "target_at s h \<le> a"
    and "\<forall>c. cost_for s h = Some c \<longrightarrow> field_text (rc_policy_version c)"
    and "case e of None \<Rightarrow> (\<exists>x \<in> set MARKET_REASONS. r = Some x) \<and> ret = None \<and> gross = None
      | Some (q, m) \<Rightarrow> r = None \<and> ret \<noteq> None \<and> 0 < m \<and> field_text (qo_source q) \<and> a = target_at s h + \<bar>qo_observed_at q - target_at s h\<bar>"
  shows "make_label (label_fields sha s h e r a ret gross) = Inr (label_fields sha s h e r a ret gross)"
proof -
  let ?l = "label_fields sha s h e r a ret gross"
  have "check_exit ?l = Inr ()"
    using assms(4) by (auto simp: check_exit_def label_fields_def Let_def simp del: outcome_text.simps split: option.splits prod.splits)
  moreover have "pair_ok (ol_market_return ?l) (ol_market_missing ?l) MARKET_REASONS f = Inr ()" for f
    using assms(4) by (intro pair_ok_value) (auto simp: label_fields_def Let_def split: option.splits prod.splits)
  moreover have "pair_ok (ol_gross_markout ?l) (ol_gross_missing ?l) GROSS_REASONS f = Inr ()" for f
    using assms(4) by (intro pair_ok_value) (auto simp: label_fields_def Let_def GROSS_REASONS_def split: option.splits prod.splits if_splits)
  moreover have "pair_ok (ol_net_markout ?l) (ol_net_missing ?l) NET_REASONS f = Inr ()" for f
    using net_values_pair by (intro pair_ok_value) (auto simp: label_fields_def Let_def)
  moreover have "take (length SUBJECT_ID_PREFIX) (ol_subject_id ?l) = SUBJECT_ID_PREFIX" by (simp add: label_fields_def Let_def subject_id_def)
  moreover have "field_text (ol_subject_id ?l)" "ol_target_at ?l \<le> ol_label_available_at ?l"
    "\<forall>p. ol_cost_policy_version ?l = Some p \<longrightarrow> field_text p"
    using assms(1-3) by (auto simp: label_fields_def Let_def)
  ultimately show ?thesis
    by (cases "ol_cost_policy_version ?l") (simp_all add: make_label_def del: outcome_text.simps)
qed




section \<open>The exit quote and its return\<close>

lemma find_first_least:
  "sorted (map f xs) \<Longrightarrow> List.find P xs = Some q \<Longrightarrow> x \<in> set xs \<Longrightarrow> P x \<Longrightarrow> f q \<le> f x"
  by (induction xs) (auto split: if_splits)

lemma forward_best:
  assumes "forward_exit target now tol qs = Inr (ExitQuote q m a)" and "x \<in> set qs" and "mid_of x \<noteq> None"
    and "target \<le> qo_observed_at x" and "qo_observed_at x \<le> target + tol"
  shows "quote_order q \<le> quote_order x"
proof -
  have f: "List.find (\<lambda>q. mid_of q \<noteq> None) (forward_candidates target now tol qs) = Some q"
    using assms(1) by (auto simp: forward_exit_def Let_def first_valid_value split: option.splits if_splits)
  have q: "qo_observed_at q \<le> now" using find_first_member[OF f] by (simp add: forward_members)
  show ?thesis
  proof (cases "qo_observed_at x \<le> now")
    case True
    then have "x \<in> set (forward_candidates target now tol qs)" using assms(2,4,5) by (simp add: forward_members)
    then show ?thesis using find_first_least[OF _ f, of quote_order x] assms(3) by (simp add: forward_candidates_def)
  qed (use q in \<open>simp add: quote_order_less\<close>)
qed

lemma symmetric_best:
  assumes "nearest_exit s target now tol qs = Inr (ExitQuote q m a)" and "x \<in> set qs" and "mid_of x \<noteq> None"
    and "target - tol \<le> qo_observed_at x" and "qo_observed_at x \<le> target + tol" and "os_decision_as_of s < qo_observed_at x" and "target \<le> now"
  shows "rank_of target q \<le> rank_of target x"
proof -
  have f: "foldl (pick target) None (symmetric_candidates s target now tol qs) = Some q" "target + \<bar>qo_observed_at q - target\<bar> \<le> now"
    using assms(1) by (auto simp: nearest_exit_value Let_def split: option.splits if_splits)
  show ?thesis
  proof (cases "qo_observed_at x \<le> now")
    case True
    then have "x \<in> set (symmetric_candidates s target now tol qs)" using assms(2,4-6) by (simp add: symmetric_members)
    then show ?thesis using pick_best[OF f(1)] assms(3) by blast
  qed (use f(2) assms(7) in \<open>auto simp: rank_of_def less_eq_prod_def\<close>)
qed

lemma representable_one: "representable 50 1"
  by (rule representable_scaled[of 1 0]) simp_all

lemma ratio_sign:
  assumes "0 < e"
  shows "e \<le> m \<Longrightarrow> 0 \<le> osub (ctx_fix OUTCOME_CONTEXT (m / e)) 1" "m \<le> e \<Longrightarrow> osub (ctx_fix OUTCOME_CONTEXT (m / e)) 1 \<le> 0"
proof -
  have one: "representable (prec OUTCOME_CONTEXT) 1" using representable_one by (simp add: OUTCOME_CONTEXT_def)
  show "0 \<le> osub (ctx_fix OUTCOME_CONTEXT (m / e)) 1" if "e \<le> m"
    using ctx_fix_ge_representable[OF valid_outcome_context one, of "m / e"] that assms by (simp add: ctx_sub_def ctx_fix_nonneg)
  show "osub (ctx_fix OUTCOME_CONTEXT (m / e)) 1 \<le> 0" if "m \<le> e"
    using ctx_fix_le_representable[OF valid_outcome_context one, of "m / e"] that assms ctx_fix_mono[OF valid_outcome_context, of _ 0]
    by (simp add: ctx_sub_def)
qed

lemma ratio_error:
  assumes "0 < e" and "0 < m"
  shows "\<bar>osub (ctx_fix OUTCOME_CONTEXT (m / e)) 1 - (m / e - 1)\<bar> \<le> 3 * (m / e + 1) * 10 powi - 49"
proof -
  let ?r = "m / e" and ?u = "10 powi - 49 :: rat"
  let ?f = "ctx_fix OUTCOME_CONTEXT ?r"
  have r: "0 < ?r" using assms by simp
  have u: "0 < ?u" "?u \<le> 1" by (simp_all add: power_int_minus)
  have a: "\<bar>?f - ?r\<bar> \<le> ?r * ?u" using ctx_fix_error[of OUTCOME_CONTEXT ?r] r by (simp add: OUTCOME_CONTEXT_def)
  have b: "\<bar>osub ?f 1 - (?f - 1)\<bar> \<le> \<bar>?f - 1\<bar> * ?u" using ctx_fix_error[of OUTCOME_CONTEXT "?f - 1"] by (simp add: OUTCOME_CONTEXT_def ctx_sub_def)
  have "?r * ?u \<le> ?r * 1" using r u by (intro mult_left_mono) simp_all
  then have "\<bar>?f - 1\<bar> \<le> 2 * ?r + 1" using a by linarith
  then have "\<bar>?f - 1\<bar> * ?u \<le> (2 * ?r + 1) * ?u" using u by (intro mult_right_mono) simp_all
  then have "\<bar>osub ?f 1 - (?r - 1)\<bar> \<le> ?r * ?u + (2 * ?r + 1) * ?u" using a b by linarith
  also have "\<dots> = (?r + (2 * ?r + 1)) * ?u" by (rule distrib_right[symmetric])
  also have "\<dots> \<le> 3 * (?r + 1) * ?u" using u by (intro mult_right_mono) simp_all
  finally show ?thesis .
qed

lemma assemble_none: "assemble_label sha s h None r a = Inr l \<Longrightarrow> ol_status l = UNAVAILABLE"
  by (auto simp: assemble_label_def label_fields_def Let_def dest!: make_label_Inr)

lemma assemble_some:
  assumes "assemble_label sha s h (Some (q, m)) r a = Inr l" and "0 < os_entry_mid s"
  shows "ol_exit_mid l = Some m" "ol_market_return l = Some (osub (ctx_fix OUTCOME_CONTEXT (m / os_entry_mid s)) 1)"
    "ol_gross_markout l = (let ret = osub (ctx_fix OUTCOME_CONTEXT (m / os_entry_mid s)) 1 in
       case os_direction s of DIR_LONG \<Rightarrow> Some ret | DIR_SHORT \<Rightarrow> Some (ctx_fix default_context (- ret)) | DIR_NONE \<Rightarrow> None)"
proof -
  let ?ret = "osub (ctx_fix OUTCOME_CONTEXT (m / os_entry_mid s)) 1"
  let ?g = "case os_direction s of DIR_LONG \<Rightarrow> Some ?ret | DIR_SHORT \<Rightarrow> Some (ctx_fix default_context (- ?ret)) | DIR_NONE \<Rightarrow> None"
  have "make_label (label_fields sha s h (Some (q, m)) r a (Some ?ret) ?g) = Inr l"
    using assms by (simp add: assemble_label_def market_values_def odiv_value Let_def)
  then have l: "l = label_fields sha s h (Some (q, m)) r a (Some ?ret) ?g" by (rule make_label_Inr)
  show "ol_exit_mid l = Some m" "ol_market_return l = Some ?ret" "ol_gross_markout l = (let ret = ?ret in
       case os_direction s of DIR_LONG \<Rightarrow> Some ret | DIR_SHORT \<Rightarrow> Some (ctx_fix default_context (- ret)) | DIR_NONE \<Rightarrow> None)"
    unfolding l by (simp_all add: label_fields_def Let_def)
qed

lemma search_window:
  assumes "find_exit_quote s target now tol win (Some qs) = Inr (ExitQuote q m a)" and "0 \<le> tol"
  shows "\<bar>qo_observed_at q - target\<bar> \<le> tol"
proof (cases win)
  case FORWARD
  then have f: "List.find (\<lambda>q. mid_of q \<noteq> None) (forward_candidates target now tol qs) = Some q"
    using assms(1) by (auto simp: find_exit_quote_def forward_exit_def Let_def first_valid_value split: option.splits if_splits)
  then show ?thesis using find_first_member[OF f] by (auto simp: forward_members)
next
  case SYMMETRIC
  then have f: "foldl (pick target) None (symmetric_candidates s target now tol qs) = Some q"
    using assms(1) by (auto simp: find_exit_quote_def nearest_exit_value Let_def split: option.splits if_splits)
  then show ?thesis using pick_best[OF f] by (auto simp: symmetric_members)
qed

section \<open>A demonstration\<close>

text \<open>A long decision at time zero, entered at 100, and a quote of 101 to 103 at the first horizon.\<close>

definition demo_digest :: "string \<Rightarrow> string" where "demo_digest x = replicate 64 (CHR ''a'')"

definition demo_subject_args :: subject_args where
  "demo_subject_args =
     \<lparr>sa_instrument = \<lparr>ii_venue = ''kraken'', ii_symbol = ''XBTUSD'', ii_kind = SPOT, ii_base = ''XBT'', ii_quote = ''USD'', ii_size_unit = ''XBT''\<rparr>,
      sa_pair = PStr ''XBT/USD'', sa_direction = DIR_LONG, sa_decision_as_of = Aware 0, sa_entry_mid = PDec (Lit 100 0),
      sa_entry_observed_at = Aware 0, sa_evidence = NoLink NOT_RECORDED, sa_decision = NoLink NOT_RECORDED, sa_arm = Linked (PStr ''B1''),
      sa_costs = []\<rparr>"

definition demo_subject :: outcome_subject where
  "demo_subject =
     \<lparr>os_instrument = sa_instrument demo_subject_args, os_pair = ''XBT/USD'', os_direction = DIR_LONG, os_decision_as_of = 0, os_entry_mid = 100,
      os_entry_observed_at = 0, os_evidence = NoLink NOT_RECORDED, os_decision = NoLink NOT_RECORDED, os_arm = Linked ''B1'', os_costs = []\<rparr>"

definition demo_observation :: quote_observation where
  "demo_observation = \<lparr>qo_observed_at = 900000000, qo_bid = Some 101, qo_ask = Some 103, qo_source = ''ticker''\<rparr>"

definition demo_label :: outcome_label where
  "demo_label =
     \<lparr>ol_subject_id = subject_id demo_digest demo_subject, ol_horizon = M15, ol_status = AVAILABLE, ol_target_at = 900000000,
      ol_label_available_at = 900000000, ol_exit_mid = Some 102, ol_exit_observed_at = Some 900000000, ol_exit_source = Some ''ticker'',
      ol_market_return = Some (1 / 50), ol_market_missing = None, ol_gross_markout = Some (1 / 50), ol_gross_missing = None,
      ol_net_markout = None, ol_net_missing = Some COST_NOT_RECORDED, ol_cost_policy_version = None\<rparr>"

lemma demo_plain:
  "field_text ''kraken''" "field_text ''XBTUSD''" "field_text ''XBT''" "field_text ''USD''" "field_text ''XBT/USD''" "field_text ''B1''"
  "field_text ''ticker''"
  by (simp_all add: field_text_def strip_def is_space_def is_control_def OUTCOME_TEXT_LENGTH_def Let_def)

lemma demo_hex: "\<forall>x. hex_digest (demo_digest x)"
  by (simp add: hex_digest_def demo_digest_def HEX_DIGITS_def list_all_iff)



lemma demo_arithmetic: "oadd 101 103 = 204" "ctx_fix OUTCOME_CONTEXT 102 = 102" "ctx_fix OUTCOME_CONTEXT (51 / 50) = 51 / 50" "osub (51 / 50) 1 = 1 / 50"
  by (simp_all add: ctx_add_def ctx_sub_def OUTCOME_CONTEXT_def ctx_fix_eval)

lemma demo_mid: "mid_of demo_observation = Some 102"
  using demo_arithmetic by (simp add: mid_of_def demo_observation_def)

lemma demo_target: "target_at demo_subject M15 = 900000000"
  by (simp add: target_at_def demo_subject_def horizon_duration_def seconds_def)

lemma demo_labelled: "label_horizon demo_digest demo_subject M15 (Some [demo_observation]) (Aware 900000005) 60000000 FORWARD = Inr (Label demo_label)"
proof -
  have c: "forward_candidates 900000000 900000005 60000000 [demo_observation] = [demo_observation]"
    by (simp add: forward_candidates_def demo_observation_def)
  have f: "find_exit_quote demo_subject (target_at demo_subject M15) 900000005 60000000 FORWARD (Some [demo_observation])
      = Inr (ExitQuote demo_observation 102 900000000)"
    using demo_mid by (simp add: find_exit_quote_def forward_exit_def demo_target c first_valid_value) (simp add: demo_observation_def)
  have fields: "label_fields demo_digest demo_subject M15 (Some (demo_observation, 102)) None 900000000 (Some (1 / 50)) (Some (1 / 50)) = demo_label"
    using demo_target by (simp add: label_fields_def demo_label_def cost_for_def net_values_def Let_def) (simp add: demo_subject_def demo_observation_def)
  have v: "market_values demo_subject 102 = Inr (1 / 50, Some (1 / 50))"
    by (simp add: market_values_def odiv_value Let_def demo_subject_def demo_arithmetic)
  have "field_text (subject_id demo_digest demo_subject)" using demo_hex subject_id_plain by blast
  then have "make_label demo_label = Inr demo_label"
    using label_fields_ok[of demo_digest demo_subject M15 900000000, where e = "Some (demo_observation, 102)" and r = None and ret = "Some (1 / 50)"
      and gross = "Some (1 / 50)"] fields demo_target demo_plain
    by (simp add: cost_for_def) (simp add: demo_subject_def demo_observation_def)
  then have "assemble_label demo_digest demo_subject M15 (Some (demo_observation, 102)) None 900000000 = Inr demo_label"
    using v fields by (simp add: assemble_label_def)
  then show ?thesis using label_horizon_of_search[OF f] demo_target by simp
qed

text \<open>
  The negation of a short's return is rounded to the 28 digits of the default context and not to the 50 digits of this
  module: a return of one and a unit of the thirtieth decimal place is recorded as a markout of minus one.
\<close>

lemma short_rounds: "ctx_fix default_context (- 1000000000000000000000000000001 / 10 ^ 30) = - 1"
proof -
  have a: "adjusted (- 1000000000000000000000000000001 / 10 ^ 30) = 0"
    using floor_unique[of 1 "1000000000000000000000000000001 / 10 ^ 30 :: rat"] by (simp add: adjusted_def dec_digits.simps)
  have "\<lfloor>- (1000000000000000000000000000001 / 1000) :: rat\<rfloor> = - 1000000000000000000000000001" by (rule floor_unique) simp_all
  then have "round_int ROUND_HALF_EVEN (- (1000000000000000000000000000001 / 1000)) = - 1000000000000000000000000000"
    by (simp add: round_int.simps Let_def)
  then show ?thesis using a by (simp add: ctx_fix_def default_context_def sig_round_def sig_with_def power_int_minus Let_def)
qed

lemma short_markout_rounded:
  assumes "os_entry_mid s = 1" and "os_direction s = DIR_SHORT"
  shows "market_values s (2000000000000000000000000000001 / 10 ^ 30) = Inr (1000000000000000000000000000001 / 10 ^ 30, Some (- 1))"
proof -
  have e: "ctx_fix OUTCOME_CONTEXT x = x" if "x * 10 ^ 30 = of_int \<lfloor>x * 10 ^ 30\<rfloor>" "\<bar>x\<bar> * 10 ^ 30 \<le> 10 ^ 50" for x
    using representable_scaled[OF that] by (intro ctx_fix_exact) (simp_all add: OUTCOME_CONTEXT_def valid_ctx_def)
  show ?thesis using short_rounds by (simp add: market_values_def odiv_def ctx_div_def ctx_sub_def assms e)
qed

text \<open>
  In the forward window the time that too early names is the end of the window, yet a quote that arrives in between
  is labelled before it.
\<close>

lemma labelled_before_not_before:
  "label_horizon demo_digest demo_subject M15 (Some []) (Aware 900000000) 60000000 FORWARD
     = Inr (NotMature (subject_id demo_digest demo_subject) M15 960000000)"
  "label_horizon demo_digest demo_subject M15 (Some [demo_observation]) (Aware 900000005) 60000000 FORWARD = Inr (Label demo_label)"
  using demo_target demo_labelled by (simp_all add: label_horizon_def find_exit_quote_def forward_exit_def forward_candidates_def Let_def)

section \<open>Properties\<close>

text \<open>
  C10: A label is a function of the past and never changes. When a horizon was labelled at some time, the time from
  which the label is known lies between the target and that time, the exit quote was observed after the decision
  and not after the label is known; and labelling again, at any time from which the label is known, earlier or
  later, with any collection of quotes that agrees on what had been observed by then, returns the same label, in
  both windows. So no quote from the future of a label influences it, and no later quote revises it.
\<close>

theorem label_depends_on_past_only:
  assumes "label_horizon sha s h quotes (Aware now) tol win = Inr (Label l)"
  shows "target_at s h \<le> ol_label_available_at l \<and> ol_label_available_at l \<le> now
    \<and> (\<forall>t. ol_exit_observed_at l = Some t \<longrightarrow> os_decision_as_of s < t \<and> t \<le> ol_label_available_at l)
    \<and> (\<forall>c quotes'. ol_label_available_at l \<le> c \<longrightarrow> map_option (seen_by c) quotes' = map_option (seen_by c) quotes \<longrightarrow>
         label_horizon sha s h quotes' (Aware c) tol win = Inr (Label l))"
  using label_times[OF assms] label_past[OF assms] by blast

theorem label_depends_on_past_only_witness:
  "label_horizon demo_digest demo_subject M15 (Some [demo_observation]) (Aware 900000000) 60000000 FORWARD = Inr (Label demo_label)
   \<and> label_horizon demo_digest demo_subject M15 (Some [demo_observation\<lparr>qo_observed_at := 900000007\<rparr>, demo_observation]) (Aware 900000006) 60000000
       FORWARD = Inr (Label demo_label)"
  using label_depends_on_past_only[OF demo_labelled] by (simp add: demo_label_def demo_observation_def)



text \<open>
  C29: The exit quote is the best one of its window, and the return is the exact one up to rounding. When a horizon was
  labelled with an exit, the exit is one of the quotes, valid, inside its window and after the decision; in the
  forward window no valid quote of the window came earlier (or at the same time from a smaller source), in the
  symmetric window none is nearer to the target, or as near and later, not even one from after the labelling. The
  recorded return differs from exit over entry less one by at most three units of the forty-ninth digit of their
  sum, and never has the opposite sign; a long earns it, a short its negation rounded to 28 digits, and a subject
  without a direction neither.
\<close>

theorem exit_is_best_quote:
  assumes "label_horizon sha s h (Some qs) (Aware now) tol win = Inr (Label l)" and "ol_status l = AVAILABLE" and "0 < os_entry_mid s"
  shows "\<exists>q m ret. q \<in> set qs \<and> mid_of q = Some m \<and> ol_exit_mid l = Some m \<and> ol_exit_observed_at l = Some (qo_observed_at q)
    \<and> os_decision_as_of s < qo_observed_at q
    \<and> (case win of
         FORWARD \<Rightarrow> target_at s h \<le> qo_observed_at q \<and> qo_observed_at q \<le> target_at s h + tol
           \<and> (\<forall>x \<in> set qs. mid_of x \<noteq> None \<longrightarrow> target_at s h \<le> qo_observed_at x \<longrightarrow> qo_observed_at x \<le> target_at s h + tol
                \<longrightarrow> quote_order q \<le> quote_order x)
       | SYMMETRIC \<Rightarrow> \<bar>qo_observed_at q - target_at s h\<bar> \<le> tol
           \<and> (\<forall>x \<in> set qs. mid_of x \<noteq> None \<longrightarrow> \<bar>qo_observed_at x - target_at s h\<bar> \<le> tol \<longrightarrow> os_decision_as_of s < qo_observed_at x
                \<longrightarrow> rank_of (target_at s h) q \<le> rank_of (target_at s h) x))
    \<and> ol_market_return l = Some ret \<and> \<bar>ret - (m / os_entry_mid s - 1)\<bar> \<le> 3 * (m / os_entry_mid s + 1) * 10 powi - 49
    \<and> (os_entry_mid s \<le> m \<longrightarrow> 0 \<le> ret) \<and> (m \<le> os_entry_mid s \<longrightarrow> ret \<le> 0)
    \<and> ol_gross_markout l = (case os_direction s of DIR_LONG \<Rightarrow> Some ret | DIR_SHORT \<Rightarrow> Some (ctx_fix default_context (- ret)) | DIR_NONE \<Rightarrow> None)"
proof -
  obtain t found where p: "Aware now = Aware t" "0 \<le> tol" "target_at s h \<le> t" "find_exit_quote s (target_at s h) t tol win (Some qs) = Inr found"
    "search_over found"
    "(case found of ExitQuote q m a \<Rightarrow> assemble_label sha s h (Some (q, m)) None a | NoExit r a \<Rightarrow> assemble_label sha s h None (Some r) a) = Inr l"
    by (rule label_horizon_Label[OF assms(1)])
  obtain q m a where f: "found = ExitQuote q m a"
    using p(5,6) assms(2) assemble_none by (cases found) auto
  note e = search_exit[OF p(4)[unfolded f] p(2)] and w = p(4)[unfolded f find_exit_quote_def]
  have l: "assemble_label sha s h (Some (q, m)) None a = Inr l" using p(6) f by simp
  note v = assemble_some[OF l assms(3)]
  have fwd: "quote_order q \<le> quote_order x" if "win = FORWARD" "x \<in> set qs" "mid_of x \<noteq> None" "target_at s h \<le> qo_observed_at x"
    "qo_observed_at x \<le> target_at s h + tol" for x using forward_best[of "target_at s h" t tol qs q m a x] w that by simp
  have sym: "rank_of (target_at s h) q \<le> rank_of (target_at s h) x" if "win = SYMMETRIC" "x \<in> set qs" "mid_of x \<noteq> None"
    "\<bar>qo_observed_at x - target_at s h\<bar> \<le> tol" "os_decision_as_of s < qo_observed_at x" for x
    using symmetric_best[of s "target_at s h" t tol qs q m a x] w that p(3) by (simp add: abs_le_iff)
  have after: "os_decision_as_of s < qo_observed_at q" using label_times(3)[OF assms(1)] assemble_available(5)[OF l] by simp
  have window: "\<bar>qo_observed_at q - target_at s h\<bar> \<le> tol" using search_window[OF p(4)[unfolded f] p(2)] .
  show ?thesis
    using e(1,2,6) v ratio_sign[OF assms(3)] ratio_error[OF assms(3) mid_of_pos[OF e(2)]] after window assemble_available(5)[OF l] fwd sym
    by - (rule exI[of _ q], rule exI[of _ m], rule exI[of _ "osub (ctx_fix OUTCOME_CONTEXT (m / os_entry_mid s)) 1"],
      (cases win; simp add: abs_le_iff Let_def))
qed

theorem exit_is_best_quote_witness:
  "\<exists>q m. q \<in> set [demo_observation] \<and> mid_of q = Some m \<and> ol_exit_mid demo_label = Some m \<and> 900000000 \<le> qo_observed_at q"
  using exit_is_best_quote[OF demo_labelled] demo_target by (auto simp: demo_label_def demo_subject_def)

text \<open>
  C30: A consumer sees exactly the labels that were knowable. Given outcomes whose labels were produced at any times,
  the outcomes visible to a decision made at a time are, in order, those whose label the labelling returns at that
  time from the quotes observed by then: nothing visible rests on a later quote, and nothing already knowable is
  withheld.
\<close>

theorem visible_iff_knowable:
  assumes "\<forall>x \<in> set outs. label_horizon sha (lo_subject x) (ol_horizon (lo_label x)) (quotes x) (Aware (made x)) tol win = Inr (Label (lo_label x))"
  shows "visible_outcomes outs (Aware c) =
    Inr (filter (\<lambda>x. label_horizon sha (lo_subject x) (ol_horizon (lo_label x)) (map_option (seen_by c) (quotes x)) (Aware c) tol win
      = Inr (Label (lo_label x))) outs)"
proof -
  have same: "map_option (seen_by c) (map_option (seen_by c) qs) = map_option (seen_by c) qs" for qs by (cases qs) simp_all
  have "ol_label_available_at (lo_label x) \<le> c \<longleftrightarrow>
      label_horizon sha (lo_subject x) (ol_horizon (lo_label x)) (map_option (seen_by c) (quotes x)) (Aware c) tol win = Inr (Label (lo_label x))"
    if "x \<in> set outs" for x
    using label_past[OF assms[rule_format, OF that], of c "map_option (seen_by c) (quotes x)"] same label_times(2) by blast
  then show ?thesis by (auto simp: visible_outcomes_def intro: filter_cong)
qed

theorem visible_iff_knowable_witness:
  "visible_outcomes [\<lparr>lo_subject = demo_subject, lo_label = demo_label\<rparr>] (Aware 900000001) =
    Inr (filter (\<lambda>x. label_horizon demo_digest (lo_subject x) (ol_horizon (lo_label x)) (map_option (seen_by 900000001) (Some [demo_observation]))
      (Aware 900000001) 60000000 FORWARD = Inr (Label (lo_label x))) [\<lparr>lo_subject = demo_subject, lo_label = demo_label\<rparr>])"
  by (rule visible_iff_knowable[where made = "\<lambda>_. 900000005"]) (use demo_labelled in \<open>simp add: demo_label_def\<close>)

end
