(* ===== verification/Spec2Isabelle.thy ===== *)
theory Spec2Isabelle
  imports Risk_Limits Scheduler_Safety Trading_Mode Invocation_Safety Pilot_Properties Outbox_Properties Worker_Properties Profile_Breaker
    Paper_Properties Cost_Properties Outcome_Properties
begin

text \<open>
  Verification library of Crypto Radar, a local radar of crypto markets written in Python (\<^verbatim>\<open>src/radar_v08\<close>).
  The program collects public market data, ranks opportunities, asks language models for reviews under hard budgets
  and deadlines, and keeps pretend-money accounts that rehearse real trading. The library models the parts that must never be
  wrong: the money rules, the risk engine, the stores that hold accounts and claims, and the deadline scheduler.

  \<^bold>\<open>Parts and how they interact.\<close>
  \<^item> \<^verbatim>\<open>domain/paper.py\<close> holds the exact arithmetic of a play and the EX-1 exit policy.
  \<^item> \<^verbatim>\<open>domain/risk.py\<close> validates the account envelope, sizes a long entry and settles it; it uses the rules of
    \<^verbatim>\<open>paper.py\<close>.
  \<^item> \<^verbatim>\<open>adapters/pilot_store.py\<close> is the SQLite store of the pilot account. Its transactions call the risk engine to
    admit, size, mark and settle.
  \<^item> \<^verbatim>\<open>adapters/paper_store.py\<close> is the SQLite store of the paper game: one wallet, its plays, their closes and the outside
    quotes that closed a play. \<^verbatim>\<open>paper_game.py\<close> is its step: prepare the wallet, then settle or open.
  \<^item> \<^verbatim>\<open>workflow/scheduler.py\<close> admits work items, drops stale ones and authorizes model calls before deadlines.
  \<^item> \<^verbatim>\<open>domain/invocation.py\<close> and \<^verbatim>\<open>adapters/invocation_store.py\<close> claim a model call once, reserve its budget and
    fence old leases. Their writes share one retry discipline.
  \<^item> \<^verbatim>\<open>adapters/outbox_store.py\<close> records lifecycle moves, handoffs and event snapshots as numbered deliveries, keeps the cursors
    of its consumers and exports the deliveries to JSONL files. The event queue of \<^verbatim>\<open>store.py\<close> writes each change of an
    event together with its snapshot.
  \<^item> \<^verbatim>\<open>workflow/worker.py\<close> runs one item at a time: it takes it from the scheduler, claims it in the invocation store
    through \<^verbatim>\<open>SqliteInvocationLedger\<close> of \<^verbatim>\<open>worker.py\<close>, calls the local model at most twice, commits the result under its
    lease and hands the records to a sink. A collector, a watchdog and an operator work beside it.
  \<^item> \<^verbatim>\<open>domain/costs.py\<close> prices a hypothetical round trip exactly, and \<^verbatim>\<open>domain/outcomes.py\<close> labels a decision with what the
    market did at four horizons, less those costs.
  \<^item> \<^verbatim>\<open>domain/trading_mode.py\<close> orders the trading modes.

  \<^bold>\<open>Theories.\<close>
  \<^item> \<^verbatim>\<open>Prelude\<close>: errors as a sum type with \<open>bindE\<close>, loops that stop at the first exception (\<open>mapE\<close>, \<open>foldE\<close>), Python values
    (\<open>pyval\<close>), instants in microseconds, text helpers.
  \<^item> \<^verbatim>\<open>Decimals\<close>: Python's \<^verbatim>\<open>decimal\<close> as rationals rounded to a context. The locale of rounding functions proves the
    error bounds and monotonicity once for all modes; \<open>ctx_fix\<close> and \<open>quantize\<close> are its instances.
  \<^item> \<^verbatim>\<open>Decimal_Text\<close>, \<^verbatim>\<open>Json_Text\<close>: the texts of decimals and of JSON objects, the readers \<open>parse_decimal\<close> and \<open>loads\<close>,
    and their round trips.
  \<^item> \<^verbatim>\<open>Paper\<close>: every function of \<^verbatim>\<open>paper.py\<close>.
  \<^item> \<^verbatim>\<open>Risk\<close>, \<^verbatim>\<open>Risk_Limits\<close>: every function of \<^verbatim>\<open>risk.py\<close>, and that an opened plan keeps its limits and its planned loss.
  \<^item> \<^verbatim>\<open>Envelope_Text\<close>: the stored form of the envelope, \<^verbatim>\<open>parse_envelope\<close>.
  \<^item> \<^verbatim>\<open>Transactions\<close>: the write discipline of the stores, with the locale \<open>write_discipline\<close> that lifts what a
    transaction body does to the whole operation.
  \<^item> \<^verbatim>\<open>Invocation\<close>, \<^verbatim>\<open>Invocation_Store\<close>, \<^verbatim>\<open>Invocation_Safety\<close>: requests, budgets and leases; the claim, attempt, completion,
    release and recovery transactions; their invariants over all interleavings of operations.
  \<^item> \<^verbatim>\<open>Scheduler\<close>, \<^verbatim>\<open>Scheduler_Safety\<close>: the policy, queue and running slot; consistency, accounting, deadlines and fairness.
  \<^item> \<^verbatim>\<open>Trading_Mode\<close>: the modes and their order.
  \<^item> \<^verbatim>\<open>Pilot_Store\<close>: the nine tables of the pilot store as a record of lists, its reads, and its operations
    \<open>ensure_account\<close>, \<open>set_kill_switch\<close>, \<open>evaluate_locks\<close>, \<open>review_lock\<close>, \<open>open_candidates\<close> and \<open>close_positions\<close>, named as in
    the code. \<^verbatim>\<open>Pilot_Safety\<close> shows that every operation is a sequence of elementary changes and defines the
    machine in which several closers interleave with other writers. \<^verbatim>\<open>Pilot_Scenario\<close> evaluates one run.
    \<^verbatim>\<open>Pilot_Properties\<close> holds the invariants and the behaviour of each operation.
  \<^item> \<^verbatim>\<open>Paper_Store\<close>: the four tables of the paper store and its operations \<open>ensure_wallet\<close>, \<open>open_plays\<close> (the
    \<^verbatim>\<open>open_candidates\<close> of that file), \<open>close_plays\<close> and \<open>settle_due\<close>, and the step of \<^verbatim>\<open>paper_game.py\<close>. \<^verbatim>\<open>Paper_Safety\<close> shows
    that stored cents are exact and that every operation is a sequence of elementary changes, \<^verbatim>\<open>Paper_Repeat\<close> that a
    repeated call writes nothing, \<^verbatim>\<open>Paper_Scenario\<close> evaluates one run, and \<^verbatim>\<open>Paper_Properties\<close> holds the machine in which
    closers interleave with other writers, the abstract ledger and the properties.
  \<^item> \<^verbatim>\<open>Outbox\<close>, \<^verbatim>\<open>Event_Queue\<close>, \<^verbatim>\<open>Outbox_Export\<close>: the tables and operations of the outbox, the event queue over it, and the export
    with a file that keeps what reached it. \<^verbatim>\<open>Export_Files\<close> holds the invariant of a file under whole and torn appends,
    \<^verbatim>\<open>Outbox_Safety\<close> the invariant of the database and its preservation by each operation, \<^verbatim>\<open>Outbox_Properties\<close> the locale
    \<open>appending_operation\<close>, the machine of all operations and faults, and the properties of its reachable states.
  \<^item> \<^verbatim>\<open>Worker\<close>: every operation of the worker, its ledger port and its two loops. An action takes the world to a result or
    an exception and a world. A lock section, a ledger call and a reading of a clock or a flag is one step; each step takes
    the next tick of a stream, and a tick says what the other threads and processes do first and what the clocks, the
    sink, SQLite and the model answer, so the runs over all streams are all interleavings. \<^verbatim>\<open>Scheduler_Replay\<close> shows that the
    records of the scheduler are a log of its live items, \<^verbatim>\<open>Worker_Safety\<close> holds the invariant, \<^verbatim>\<open>Worker_Items\<close> the
    assertions of an item that is being worked on with the locales \<open>stable_assertion\<close> and \<open>effect_relation\<close>, \<^verbatim>\<open>Worker_Commit\<close> and
    \<^verbatim>\<open>Worker_Run\<close> the end of an item and a whole call of \<^verbatim>\<open>process_next\<close>, \<^verbatim>\<open>Worker_Growth\<close> what no step undoes,
    \<^verbatim>\<open>Worker_Scenario\<close> an evaluated run, \<^verbatim>\<open>Worker_Properties\<close> the properties, \<^verbatim>\<open>Profile_Breaker\<close> the failure breaker against
    a reference definition.
  \<^item> \<^verbatim>\<open>Costs\<close>, \<^verbatim>\<open>Cost_Properties\<close>: every constructor and computation of \<^verbatim>\<open>costs.py\<close>, where an operation that would need
    rounding raises; the closed formula of the cost, what a missing component does, and the lower bound of the fees.
  \<^item> \<^verbatim>\<open>Outcomes\<close>, \<^verbatim>\<open>Outcome_Properties\<close>: subjects, quotes, labels, both windows and the visibility cut of \<^verbatim>\<open>outcomes.py\<close>; well-formed
    labels that depend on the past only, the best exit quote, and the visible outcomes.

  \<^bold>\<open>How state and operations correspond.\<close> A dataclass is a record, an enum a datatype, a table the list of its rows in
  insertion order, and an exception a value of a sum type with the class and the field or code, not the message. A store
  operation is a function from its arguments and the database to a result and a database. A database constraint or
  trigger is a condition of the insert or update. Amounts are exact: a computed \<^verbatim>\<open>Decimal\<close> is a rational, rounded
  where the code's context rounds it. Times are instants in microseconds; a naive or unparsable time is
  \<open>Naive\<close>. What is outside the repository is an argument: SHA-256, fresh identifiers, the clock, \<^verbatim>\<open>repr\<close>, the faults of SQLite,
  the collected market snapshots. Text is made of code points below 256.

  \<^bold>\<open>What is shown.\<close> For the pilot account: at most one position is open in every reachable state, every entry keeps the
  EX-1 limits of the equity it records, the kill switch, the locks and an open position block entries, losses trip
  locks that only their own review lifts, every close is a real exit, rows are only appended, errors change nothing. For
  the paper game: every row is true to its candidate and its exit, the database refines a ledger of exact cents in
  which stakes come out of cash that is there, and repeated steps write nothing. For model calls: identities are claimed once, reservations cover attempts, budgets are never exceeded, a recovered lease
  fences every older one for ever. For the scheduler: indexes and queue agree, every item leaves with a record,
  nothing late is published, every authorized call ends in time. For the worker, against every behaviour of its ports and
  of the other threads: a publication has its completed ledger row and its completion before the deadline, model calls never exceed
  the reserved units, the recorded batches replay to the live items, a report tells what happened, a requested stop
  ends the loop. For the outbox: rows are numbered without gaps and ids are
  unique, lifecycle items follow their graph, no change of an event escapes its snapshot, and an export file has each
  delivery exactly once after any crash followed by one export without a fault. For the money rules: exact nets, limits of
  opened plans, planned loss as a bound of the realised loss, and the round trip of the envelope text.
  For costs and outcomes: a complete cost is a closed formula and its cash is exact, a missing component is never
  zero, the fee bound is below every cost; a label never sees the future and never changes, and a consumer sees exactly the
  labels that were knowable.

  \<^bold>\<open>Bounds and fuel.\<close> \<open>size_loop\<close> recurses on \<open>MAX_DOWNWARD_PASSES\<close>, which is 3 in the code, and \<open>write_loop\<close> on the list
  of retry delays, and so does \<open>export_loop\<close>. \<open>loads\<close> takes fuel, the length of the text plus one; every recursive call consumes a character, and
  the round trip lemma shows that the fuel is enough for what the program writes. The loops \<open>run_loop\<close> and \<open>watch_loop\<close> of the
  worker may run for ever and are partial functions into \<open>option\<close>; \<open>run\<close> is shown to return once a stop is requested. The
  refinement of the paper ledger is stated for at most \<open>10 ^ 20\<close> plays and closes (\<open>few_rows\<close>), more than SQLite's row ids, so
  that sums in the context of 50 digits are exact. All
  other recursions are structural or have a termination proof.

  \<^bold>\<open>Not modelled.\<close> Creation of schemas and the migration ledger; network, console and file I/O; floating-point
  feature and back-test computations; the HTTP adapter of the local model server and the offline command of \<^verbatim>\<open>worker.py\<close>. Readings of the
  monotonic clock and durations are rationals, so the rounding of their differences is not modelled, and a typed argument
  of the worker (a role, a flag) is not checked again for its Python type. Of the paper game, the pages and prices of
  \<^verbatim>\<open>paper_monitor.py\<close>, the wording of a skip's detail and the addition of columns to old tables are left out.
  The limits of decimal exponents are not modelled. The store of outcome labels, the experiment registry and evidence sealing are the next
  candidates; calibration and the trend research compute in floating point.
\<close>

end
